(* ===== verification/Prelude.thy ===== *)
theory Prelude
  imports Main "HOL-Library.Word" "HOL-Library.Char_ord" "HOL-Library.List_Lexorder"
    "HOL-Library.Monad_Syntax"
begin

text \<open>
  Shared vocabulary of the development: the machine-integer types of the code, results of
  operations that may throw, the two standard containers the code uses everywhere
  (\<open>std::map\<close>, iterated in key order, and \<open>std::unordered_map\<close>, iterated in an order
  the standard leaves open) and the list lemmas the component theories share.
\<close>

section \<open>Types and collections\<close>

type_synonym u8 = "8 word"
type_synonym u16 = "16 word"
type_synonym u32 = "32 word"
type_synonym u64 = "64 word"

named_theorems container_laws \<open>lookup laws of the container models\<close>
named_theorems result_simps \<open>unfolding of the error monad\<close>

section \<open>Results of operations that may throw\<close>

text \<open>
  A C++ function that may throw returns \<open>Inl e\<close> for the exception it leaves with and
  \<open>Inr v\<close> otherwise; \<open>rbind\<close> is the sequencing of two statements, the second being
  skipped when the first throws.
\<close>

fun rbind :: "'e + 'a \<Rightarrow> ('a \<Rightarrow> 'e + 'b) \<Rightarrow> 'e + 'b" where
  "rbind (Inl e) f = Inl e"
| "rbind (Inr x) f = f x"

definition throw_unless :: "bool \<Rightarrow> 'e \<Rightarrow> 'e + unit" where
  "throw_unless b e = (if b then Inr () else Inl e)"

lemma rbind_Inr_iff [result_simps]: "rbind m f = Inr y \<longleftrightarrow> (\<exists>x. m = Inr x \<and> f x = Inr y)"
  by (cases m) auto

lemma rbind_Inl_iff [result_simps]:
  "rbind m f = Inl e \<longleftrightarrow> m = Inl e \<or> (\<exists>x. m = Inr x \<and> f x = Inl e)"
  by (cases m) auto

lemma rbind_assoc: "rbind (rbind m f) g = rbind m (\<lambda>x. rbind (f x) g)"
  by (cases m) auto

lemma throw_unless_simps [simp]:
  "throw_unless True e = Inr ()" "throw_unless False e = Inl e"
  by (simp_all add: throw_unless_def)

lemma rbind_cong [fundef_cong]:
  "m = m' \<Longrightarrow> (\<And>x. m' = Inr x \<Longrightarrow> f x = f' x) \<Longrightarrow> rbind m f = rbind m' f'"
  by (cases m') auto

section \<open>Key-value containers\<close>

text \<open>
  What the code relies on of a container it looks keys up in: a lookup after an insertion
  sees the new value, a lookup after an erasure sees nothing, other keys are untouched.
\<close>

locale kv_container =
  fixes get :: "'m \<Rightarrow> 'k \<Rightarrow> 'v option"
    and upd :: "'k \<Rightarrow> 'v \<Rightarrow> 'm \<Rightarrow> 'm"
    and del :: "'k \<Rightarrow> 'm \<Rightarrow> 'm"
    and ok :: "'m \<Rightarrow> bool"
  assumes get_upd: "ok m \<Longrightarrow> get (upd k v m) k' = (if k' = k then Some v else get m k')"
    and get_del: "ok m \<Longrightarrow> get (del k m) k' = (if k' = k then None else get m k')"
    and ok_upd: "ok m \<Longrightarrow> ok (upd k v m)"
    and ok_del: "ok m \<Longrightarrow> ok (del k m)"
begin

definition has_key :: "'m \<Rightarrow> 'k \<Rightarrow> bool" where
  "has_key m k \<longleftrightarrow> get m k \<noteq> None"

lemma has_key_upd: "ok m \<Longrightarrow> has_key (upd k v m) k' \<longleftrightarrow> k' = k \<or> has_key m k'"
  by (simp add: has_key_def get_upd)

lemma has_key_del: "ok m \<Longrightarrow> has_key (del k m) k' \<longleftrightarrow> k' \<noteq> k \<and> has_key m k'"
  by (simp add: has_key_def get_del)

lemma get_upd_fun: "ok m \<Longrightarrow> get (upd k v m) = (get m)(k \<mapsto> v)"
  by (rule ext) (simp add: get_upd)

lemma get_del_fun: "ok m \<Longrightarrow> get (del k m) = (get m)(k := None)"
  by (rule ext) (simp add: get_del)

lemma upd_overwrites: "ok m \<Longrightarrow> get (upd k v' (upd k v m)) = get (upd k v' m)"
  by (simp add: get_upd_fun ok_upd)

lemma upd_commute:
  "ok m \<Longrightarrow> k \<noteq> k' \<Longrightarrow> get (upd k v (upd k' v' m)) = get (upd k' v' (upd k v m))"
  by (simp add: get_upd_fun ok_upd fun_upd_twist)

lemma del_upd: "ok m \<Longrightarrow> get (del k (upd k v m)) = get (del k m)"
  by (simp add: get_upd_fun get_del_fun ok_upd)

end

subsection \<open>std::map: association lists in key order\<close>

type_synonym ('k, 'v) omap = "('k \<times> 'v) list"

definition omap_ok :: "('k::linorder, 'v) omap \<Rightarrow> bool" where
  "omap_ok m \<longleftrightarrow> sorted_wrt (<) (map fst m)"

fun omap_upd :: "'k::linorder \<Rightarrow> 'v \<Rightarrow> ('k, 'v) omap \<Rightarrow> ('k, 'v) omap" where
  "omap_upd k v [] = [(k, v)]"
| "omap_upd k v ((k', v') # m) =
     (if k < k' then (k, v) # (k', v') # m
      else if k = k' then (k, v) # m
      else (k', v') # omap_upd k v m)"

fun omap_del :: "'k \<Rightarrow> ('k, 'v) omap \<Rightarrow> ('k, 'v) omap" where
  "omap_del k [] = []"
| "omap_del k ((k', v') # m) = (if k = k' then m else (k', v') # omap_del k m)"

lemma omap_ok_Nil [simp]: "omap_ok []"
  by (simp add: omap_ok_def)

lemma omap_ok_Cons [simp]:
  "omap_ok ((k, v) # m) \<longleftrightarrow> (\<forall>k' \<in> fst ` set m. k < k') \<and> omap_ok m"
  by (auto simp: omap_ok_def)

lemma omap_ok_distinct: "omap_ok m \<Longrightarrow> distinct (map fst m)"
  by (induction m) (auto simp: omap_ok_def)

lemma set_omap_upd: "set (omap_upd k v m) \<subseteq> insert (k, v) (set m)"
  by (induction k v m rule: omap_upd.induct) auto

lemma omap_ok_upd [simp]: "omap_ok m \<Longrightarrow> omap_ok (omap_upd k v m)"
proof (induction k v m rule: omap_upd.induct)
  case (2 k v k' v' m)
  then show ?case
    using set_omap_upd [of k v m] by (auto dest: less_trans)
qed simp

lemma map_of_omap_upd_key: "map_of (omap_upd k v m) k' = (if k' = k then Some v else map_of m k')"
  by (induction k v m rule: omap_upd.induct) auto

lemma map_of_omap_upd [simp]: "map_of (omap_upd k v m) = (map_of m)(k \<mapsto> v)"
  by (rule ext) (simp add: map_of_omap_upd_key)

lemma keys_omap_upd [simp]: "fst ` set (omap_upd k v m) = insert k (fst ` set m)"
  by (simp only: dom_map_of_conv_image_fst [symmetric] map_of_omap_upd dom_fun_upd) simp

lemma set_omap_del: "set (omap_del k m) \<subseteq> set m"
  by (induction k m rule: omap_del.induct) auto

lemma omap_ok_del [simp]: "omap_ok m \<Longrightarrow> omap_ok (omap_del k m)"
proof (induction k m rule: omap_del.induct)
  case (2 k k' v' m)
  then show ?case
    using set_omap_del [of k m] by auto
qed simp

lemma map_of_omap_del:
  "distinct (map fst m) \<Longrightarrow> map_of (omap_del k m) k' = (if k' = k then None else map_of m k')"
  by (induction k m rule: omap_del.induct) (auto simp: map_of_eq_None_iff [THEN iffD2])

lemma map_of_omap_ok_less:
  "\<forall>x \<in> set m. k < fst x \<Longrightarrow> map_of m (k :: 'k::linorder) = None"
  by (auto simp: map_of_eq_None_iff)

lemma omap_upd_length_new: "map_of m k = None \<Longrightarrow> length (omap_upd k v m) = Suc (length m)"
  by (induction k v m rule: omap_upd.induct) (auto split: if_splits)

lemma omap_upd_length_old:
  "omap_ok m \<Longrightarrow> map_of m k \<noteq> None \<Longrightarrow> length (omap_upd k v m) = length m"
proof (induction k v m rule: omap_upd.induct)
  case (2 k v k' v' m)
  have "map_of m k = None" if "k < k'"
    using 2 that by (intro map_of_omap_ok_less) auto
  with 2 show ?case by (auto split: if_splits)
qed simp

lemma omap_upd_append:
  "\<forall>k' \<in> fst ` set m. k' < k \<Longrightarrow> omap_upd k v m = m @ [(k, v)]"
  by (induction m) auto

text \<open>Inserting the pairs of a sorted list one by one rebuilds it.\<close>

lemma foldl_omap_upd:
  "omap_ok (acc @ m) \<Longrightarrow> foldl (\<lambda>a kv. omap_upd (fst kv) (snd kv) a) acc m = acc @ m"
proof (induction m arbitrary: acc)
  case (Cons kv m)
  have "\<forall>k' \<in> fst ` set acc. k' < fst kv"
    using Cons.prems by (auto simp: omap_ok_def sorted_wrt_append)
  then have "omap_upd (fst kv) (snd kv) acc = acc @ [kv]"
    by (simp add: omap_upd_append)
  with Cons show ?case by simp
qed simp

interpretation omap: kv_container "map_of :: ('k::linorder, 'v) omap \<Rightarrow> 'k \<Rightarrow> 'v option"
  omap_upd omap_del omap_ok
  by unfold_locales (auto simp: map_of_omap_del omap_ok_distinct)

subsection \<open>std::unordered_map: association lists with distinct keys\<close>

text \<open>
  The list order stands for the iteration order, which the standard leaves open; a fresh
  key is put in front, and statements about iteration quantify over the list they start
  from.
\<close>

type_synonym ('k, 'v) umap = "('k \<times> 'v) list"

abbreviation umap_ok :: "('k, 'v) umap \<Rightarrow> bool" where
  "umap_ok m \<equiv> distinct (map fst m)"

fun umap_set :: "'k \<Rightarrow> 'v \<Rightarrow> ('k, 'v) umap \<Rightarrow> ('k, 'v) umap" where
  "umap_set k v [] = []"
| "umap_set k v ((k', v') # m) = (if k = k' then (k, v) # m else (k', v') # umap_set k v m)"

definition umap_upd :: "'k \<Rightarrow> 'v \<Rightarrow> ('k, 'v) umap \<Rightarrow> ('k, 'v) umap" where
  "umap_upd k v m = (if map_of m k = None then (k, v) # m else umap_set k v m)"

definition umap_del :: "'k \<Rightarrow> ('k, 'v) umap \<Rightarrow> ('k, 'v) umap" where
  "umap_del k m = filter (\<lambda>kv. fst kv \<noteq> k) m"

lemma map_fst_umap_set [simp]: "map fst (umap_set k v m) = map fst m"
  by (induction m) auto

lemma map_of_umap_set:
  "map_of m k \<noteq> None \<Longrightarrow> map_of (umap_set k v m) k' = (if k' = k then Some v else map_of m k')"
  by (induction m) auto

lemma umap_ok_upd [simp]: "umap_ok m \<Longrightarrow> umap_ok (umap_upd k v m)"
  by (auto simp: umap_upd_def map_of_eq_None_iff)

lemma map_of_umap_upd [simp]: "map_of (umap_upd k v m) = (map_of m)(k \<mapsto> v)"
  by (rule ext) (auto simp: umap_upd_def map_of_umap_set)

lemma umap_ok_del [simp]: "umap_ok m \<Longrightarrow> umap_ok (umap_del k m)"
  by (simp add: umap_del_def distinct_map_filter)

lemma map_of_umap_del [simp]: "map_of (umap_del k m) k' = (if k' = k then None else map_of m k')"
  by (induction m) (auto simp: umap_del_def)

lemma keys_umap_upd: "fst ` set (umap_upd k v m) = insert k (fst ` set m)"
proof -
  have "dom (map_of (umap_upd k v m)) = insert k (dom (map_of m))" by simp
  then show ?thesis unfolding dom_map_of_conv_image_fst .
qed

lemma keys_umap_del: "fst ` set (umap_del k m) = fst ` set m - {k}"
  by (auto simp: umap_del_def)

interpretation umap: kv_container "map_of :: ('k, 'v) umap \<Rightarrow> 'k \<Rightarrow> 'v option"
  umap_upd umap_del umap_ok
  by unfold_locales auto

section \<open>Words\<close>

lemma take_bit_u64_id: "unat (x :: u64) < 2 ^ n \<Longrightarrow> take_bit n x = x"
  by (simp add: word_unat_eq_iff unsigned_take_bit_eq take_bit_nat_eq_self)

lemma unat_of_nat_u64: "n < 2 ^ 64 \<Longrightarrow> unat (of_nat n :: u64) = n"
  by (simp add: unsigned_of_nat take_bit_nat_eq_self)

lemma bit_unat: "bit (unat w) i \<longleftrightarrow> bit w i"
  by (auto simp: bit_unsigned_iff dest: bit_imp_possible_bit)

lemma bit_imp_unat_ge: "bit (w :: 'a::len word) i \<Longrightarrow> 2 ^ i \<le> unat w"
  by (rule ccontr) (simp add: bit_unat [symmetric] bit_iff_odd)

section \<open>Lists\<close>

lemma remove1_distinct_set [simp]: "distinct xs \<Longrightarrow> set (remove1 x xs) = set xs - {x}"
  by (rule set_remove1_eq)

lemma list_update_take_drop:
  "i < length xs \<Longrightarrow> xs[i := x] = take i xs @ x # drop (Suc i) xs"
  by (rule upd_conv_take_nth_drop)

end
