(* ===== verification/Csp_List.thy ===== *)
theory Csp_List
  imports Prelude
begin

unbundle bit_operations_syntax

text \<open>
  The resizable list \<open>csp::common::List\<close> (\<open>Library/include/CSP/Common/List.h\<close>): a heap
  array of \<open>MaximumSize\<close> slots of which the first \<open>CurrentSize\<close> hold elements. A slot the
  code has not written is \<open>None\<close>. Operations return \<open>None\<close> where the code fails an assertion
  or has undefined behaviour. The abstraction function \<open>list_abs\<close> reads the stored elements;
  the operations are shown to be append, insertion, deletion and membership of lists through
  it, which is what lets the engine theories use plain lists.
\<close>

section \<open>The representation\<close>

definition LIST_DEFAULT_SIZE :: nat where
  "LIST_DEFAULT_SIZE = 4"

definition next_pow2 :: "u64 \<Rightarrow> u64" where
  "next_pow2 val0 =
     (let val = val0 - 1;
          val = val OR drop_bit 1 val;
          val = val OR drop_bit 2 val;
          val = val OR drop_bit 4 val;
          val = val OR drop_bit 8 val;
          val = val OR drop_bit 16 val
      in val + 1)"

record 'a csp_list =
  CurrentSize :: nat
  MaximumSize :: nat
  ObjectArray :: "'a option list option" \<comment> \<open>\<open>None\<close> is the null pointer\<close>

definition AllocList :: "nat \<Rightarrow> 'a csp_list \<Rightarrow> 'a csp_list" where
  "AllocList Size l = l\<lparr>ObjectArray := Some (replicate Size None), MaximumSize := Size\<rparr>"

definition ReallocList :: "nat \<Rightarrow> 'a csp_list \<Rightarrow> 'a csp_list" where
  "ReallocList Size l =
     (let NewArray = (case ObjectArray l of
            None \<Rightarrow> replicate Size None
          | Some old \<Rightarrow> (let n = min (MaximumSize l) Size
                         in take n old @ replicate (Size - n) None))
      in l\<lparr>ObjectArray := Some NewArray, MaximumSize := Size\<rparr>)"

definition FreeList :: "'a csp_list \<Rightarrow> 'a csp_list" where
  "FreeList l = l\<lparr>ObjectArray := None, CurrentSize := 0, MaximumSize := 0\<rparr>"

definition blank_list :: "'a csp_list" where
  "blank_list = \<lparr>CurrentSize = 0, MaximumSize = 0, ObjectArray = None\<rparr>"

section \<open>Construction and assignment\<close>

definition List_new :: "'a csp_list" where
  "List_new = AllocList LIST_DEFAULT_SIZE blank_list"

definition List_sized :: "u64 \<Rightarrow> 'a csp_list" where
  "List_sized MinimumSize = AllocList (unat (next_pow2 MinimumSize)) blank_list"

text \<open>The element loop of the copying constructors: slot by slot from the source array.\<close>

definition copy_elems :: "nat \<Rightarrow> 'a option list \<Rightarrow> 'a csp_list \<Rightarrow> 'a csp_list" where
  "copy_elems n src l =
     (case ObjectArray l of
        None \<Rightarrow> l
      | Some arr \<Rightarrow> l\<lparr>CurrentSize := n, ObjectArray := Some (take n src @ drop n arr)\<rparr>)"

definition List_copy :: "'a csp_list \<Rightarrow> 'a csp_list option" where
  "List_copy Other =
     (if CurrentSize Other = 0 then Some (AllocList LIST_DEFAULT_SIZE blank_list)
      else case ObjectArray Other of
        None \<Rightarrow> None
      | Some src \<Rightarrow> Some (copy_elems (CurrentSize Other) src
                            (AllocList (MaximumSize Other) blank_list)))"

definition List_move :: "'a csp_list \<Rightarrow> 'a csp_list \<times> 'a csp_list" where
  "List_move Other =
     (if CurrentSize Other = 0 then (AllocList LIST_DEFAULT_SIZE blank_list, Other)
      else (\<lparr>CurrentSize = CurrentSize Other, MaximumSize = MaximumSize Other,
             ObjectArray = ObjectArray Other\<rparr>, Other\<lparr>ObjectArray := None\<rparr>))"

definition List_of_init :: "'a list \<Rightarrow> 'a csp_list" where
  "List_of_init xs =
     (if xs = [] then AllocList LIST_DEFAULT_SIZE blank_list
      else copy_elems (length xs) (map Some xs)
             (AllocList (unat (next_pow2 (of_nat (length xs)))) blank_list))"

text \<open>
  Copy assignment keeps nothing of the old array (which is not freed first: the code leaks it).
\<close>

definition List_assign :: "'a csp_list \<Rightarrow> 'a csp_list \<Rightarrow> 'a csp_list option" where
  "List_assign this Other =
     (let this = this\<lparr>CurrentSize := CurrentSize Other, MaximumSize := 0, ObjectArray := None\<rparr>
      in if CurrentSize Other = 0 then Some (AllocList LIST_DEFAULT_SIZE this)
         else case ObjectArray Other of
           None \<Rightarrow> None
         | Some src \<Rightarrow> Some (copy_elems (CurrentSize Other) src (AllocList (MaximumSize Other) this)))"

definition ToArray :: "'a csp_list \<Rightarrow> 'a option list option" where
  "ToArray l = (if CurrentSize l = 0 then Some []
     else map_option (take (CurrentSize l)) (ObjectArray l))"

section \<open>Access and update\<close>

definition List_at :: "'a csp_list \<Rightarrow> nat \<Rightarrow> 'a option" where
  "List_at l Index =
     (if Index < CurrentSize l
      then (case ObjectArray l of None \<Rightarrow> None
            | Some arr \<Rightarrow> if Index < length arr then arr ! Index else None)
      else None)"

text \<open>The growth step shared by \<open>Append\<close> and \<open>Insert\<close>.\<close>

definition grow :: "'a csp_list \<Rightarrow> 'a csp_list" where
  "grow l =
     (if CurrentSize l = MaximumSize l
      then ReallocList (unat (next_pow2 (of_nat (MaximumSize l + 1)))) l else l)"

definition Append :: "'a \<Rightarrow> 'a csp_list \<Rightarrow> 'a csp_list option" where
  "Append Item l =
     (let l = grow l in
      case ObjectArray l of
        None \<Rightarrow> None
      | Some arr \<Rightarrow>
          if CurrentSize l < length arr
          then Some (l\<lparr>ObjectArray := Some (arr[CurrentSize l := Some Item]),
                       CurrentSize := CurrentSize l + 1\<rparr>)
          else None)"

definition Insert :: "nat \<Rightarrow> 'a \<Rightarrow> 'a csp_list \<Rightarrow> 'a csp_list option" where
  "Insert Index Item l =
     (let l = grow l; n = CurrentSize l in
      case ObjectArray l of
        None \<Rightarrow> None
      | Some arr \<Rightarrow>
          if Index \<le> n \<and> n < length arr
          then Some (l\<lparr>ObjectArray :=
                        Some ((take Index arr @ arr ! Index # drop Index (take n arr)
                               @ drop (Suc n) arr)[Index := Some Item]),
                       CurrentSize := n + 1\<rparr>)
          else None)"

definition Remove :: "nat \<Rightarrow> 'a csp_list \<Rightarrow> 'a csp_list option" where
  "Remove Index l =
     (if Index < CurrentSize l
      then (case ObjectArray l of
              None \<Rightarrow> None
            | Some arr \<Rightarrow>
                Some (l\<lparr>ObjectArray :=
                          Some (take Index arr @ drop (Suc Index) (take (CurrentSize l) arr)
                                @ drop (CurrentSize l - 1) arr),
                        CurrentSize := CurrentSize l - 1\<rparr>))
      else None)"

text \<open>The search loop of \<open>RemoveItem\<close> and \<open>Contains\<close>: the first index that holds the item.\<close>

fun find_item :: "'a \<Rightarrow> 'a option list \<Rightarrow> nat \<Rightarrow> nat option" where
  "find_item Item [] i = None"
| "find_item Item (x # xs) i = (if x = Some Item then Some i else find_item Item xs (Suc i))"

definition RemoveItem :: "'a \<Rightarrow> 'a csp_list \<Rightarrow> 'a csp_list option" where
  "RemoveItem Item l =
     (case find_item Item (take (CurrentSize l) (case ObjectArray l of None \<Rightarrow> [] | Some a \<Rightarrow> a)) 0 of
        None \<Rightarrow> Some l
      | Some i \<Rightarrow> Remove i l)"

definition Contains :: "'a \<Rightarrow> 'a csp_list \<Rightarrow> bool" where
  "Contains Item l \<longleftrightarrow>
     find_item Item (take (CurrentSize l) (case ObjectArray l of None \<Rightarrow> [] | Some a \<Rightarrow> a)) 0 \<noteq> None"

definition Clear :: "'a csp_list \<Rightarrow> 'a csp_list" where
  "Clear l = AllocList LIST_DEFAULT_SIZE (FreeList l)"

section \<open>Invariant and abstraction\<close>

definition list_inv :: "'a csp_list \<Rightarrow> bool" where
  "list_inv l \<longleftrightarrow>
     (\<exists>arr. ObjectArray l = Some arr \<and> length arr = MaximumSize l \<and> CurrentSize l \<le> MaximumSize l
            \<and> MaximumSize l \<le> 2 ^ 63 \<and> (\<forall>i < CurrentSize l. arr ! i \<noteq> None))"

definition list_abs :: "'a csp_list \<Rightarrow> 'a list" where
  "list_abs l = map the (take (CurrentSize l) (case ObjectArray l of None \<Rightarrow> [] | Some a \<Rightarrow> a))"

lemma list_invE:
  assumes "list_inv l"
  obtains xs rest where "ObjectArray l = Some (map Some xs @ rest)" "list_abs l = xs"
    "CurrentSize l = length xs" "MaximumSize l = length xs + length rest"
    "MaximumSize l \<le> 2 ^ 63"
proof -
  from assms obtain arr where arr: "ObjectArray l = Some arr" "length arr = MaximumSize l"
    "CurrentSize l \<le> MaximumSize l" "MaximumSize l \<le> 2 ^ 63"
    "\<forall>i < CurrentSize l. arr ! i \<noteq> None"
    by (auto simp: list_inv_def)
  let ?xs = "list_abs l"
  have len: "length ?xs = CurrentSize l"
    using arr by (simp add: list_abs_def)
  have "map Some ?xs = take (CurrentSize l) arr"
    using arr by (intro nth_equalityI) (auto simp: list_abs_def)
  then have "arr = map Some ?xs @ drop (CurrentSize l) arr"
    by simp
  with arr len show thesis
    by (intro that [of ?xs "drop (CurrentSize l) arr"]) simp_all
qed

lemma list_invI:
  "ObjectArray l = Some (map Some xs @ rest) \<Longrightarrow> CurrentSize l = length xs
   \<Longrightarrow> MaximumSize l = length xs + length rest \<Longrightarrow> MaximumSize l \<le> 2 ^ 63
   \<Longrightarrow> list_inv l \<and> list_abs l = xs"
  by (auto simp: list_inv_def list_abs_def nth_append comp_def)


section \<open>The growth policy\<close>

lemma next_pow2_ge_nat:
  assumes "1 \<le> unat v" "unat v \<le> 2 ^ 63"
  shows "unat v \<le> unat (next_pow2 v)" "unat (next_pow2 v) \<le> 2 ^ 63"
proof -
  define w where "w = v - 1"
  have w: "unat w = unat v - 1"
    using assms unfolding w_def by (subst unat_minus_one) auto
  define r where "r = next_pow2 v - 1"
  have r_eq: "next_pow2 v = r + 1" by (simp add: r_def)
  have tb: "take_bit 63 w = w"
    using w assms by (intro take_bit_u64_id) simp
  have step: "take_bit 63 (x OR drop_bit n x) = x OR drop_bit n x" if x: "take_bit 63 x = x" for x :: u64 and n
  proof -
    have "drop_bit n (take_bit 63 x) = take_bit (63 - n) (drop_bit n x)"
      by (simp add: drop_bit_take_bit)
    then have "take_bit (63 - n) (drop_bit n x) = drop_bit n x" by (simp add: x)
    then have "take_bit 63 (drop_bit n x) = drop_bit n x"
      by (metis diff_le_self min.absorb2 take_bit_take_bit)
    then show ?thesis by (simp add: x)
  qed
  have "take_bit 63 r = r"
    unfolding r_def next_pow2_def Let_def w_def [symmetric]
    unfolding add_diff_cancel_right' by (intro step tb)
  then have rb: "unat r < 2 ^ 63"
    by (metis unsigned_take_bit_eq take_bit_nat_less_exp)
  have "w \<le> r"
    unfolding r_def next_pow2_def Let_def w_def [symmetric]
    by (simp) (meson le_word_or2 order_trans)
  then have "unat w \<le> unat r" by (simp add: word_le_nat_alt)
  moreover have "unat (r + 1) = unat r + 1"
    using rb by (subst unat_word_ariths) simp
  ultimately show "unat v \<le> unat (next_pow2 v)" "unat (next_pow2 v) \<le> 2 ^ 63"
    using w assms rb by (simp_all add: r_eq)
qed

lemma smear_bits:
  fixes v w :: u64
  assumes "\<And>i. bit v i \<longleftrightarrow> (\<exists>j<k. bit w (i + j))"
  shows "bit (v OR drop_bit k v) i \<longleftrightarrow> (\<exists>j<k + k. bit w (i + j))"
proof -
  have "(\<exists>j<k. bit w (i + j)) \<or> (\<exists>j<k. bit w (k + i + j)) \<longleftrightarrow> (\<exists>j<k + k. bit w (i + j))"
  proof (intro iffI; elim disjE exE conjE)
    fix j assume "j < k" "bit w (i + j)"
    then show "\<exists>j<k + k. bit w (i + j)" by (intro exI [of _ j]) simp
  next
    fix j assume "j < k" "bit w (k + i + j)"
    then show "\<exists>j<k + k. bit w (i + j)" by (intro exI [of _ "k + j"]) (simp add: add.commute add.left_commute)
  next
    fix j assume j: "j < k + k" "bit w (i + j)"
    show "(\<exists>j<k. bit w (i + j)) \<or> (\<exists>j<k. bit w (k + i + j))"
    proof (cases "j < k")
      case True with j show ?thesis by blast
    next
      case False
      with j have "bit w (k + i + (j - k))" "j - k < k" by (auto simp: add.commute)
      then show ?thesis by blast
    qed
  qed
  then show ?thesis by (simp add: bit_or_iff bit_drop_bit_eq assms)
qed

lemma next_pow2_bits:
  "bit (next_pow2 v - 1) i \<longleftrightarrow> (\<exists>j<32. bit (v - 1) (i + j))"
proof -
  define w where "w = v - 1"
  have 0: "bit w i \<longleftrightarrow> (\<exists>j<1. bit w (i + j))" for i by auto
  note 1 = smear_bits [OF 0, simplified]
  note 2 = smear_bits [OF 1, simplified]
  note 3 = smear_bits [OF 2, simplified]
  note 4 = smear_bits [OF 3, simplified]
  note 5 = smear_bits [OF 4, simplified]
  show ?thesis
    unfolding next_pow2_def Let_def w_def [symmetric] using 5 by (simp add: numeral_eq_Suc)
qed

lemma next_pow2_power:
  assumes "2 \<le> unat v" "unat v \<le> 2 ^ 32"
  shows "\<exists>n. unat (next_pow2 v) = 2 ^ n \<and> 2 ^ n < 2 * unat v \<and> unat v \<le> 2 ^ n"
proof -
  define w where "w = v - 1"
  have w: "unat w = unat v - 1"
    using assms unfolding w_def by (subst unat_minus_one) auto
  then obtain m where m: "2 ^ m \<le> unat w" "unat w < 2 ^ (m + 1)"
    using ex_power_ivl1 [of 2 "unat w"] assms w by force
  have "(2::nat) ^ m < 2 ^ 32" using m w assms by linarith
  then have m32: "m < 32" by (rule power_less_imp_less_exp [rotated]) simp
  have bits: "bit w i \<Longrightarrow> i \<le> m" for i
  proof (rule ccontr)
    assume b: "bit w i" and "\<not> i \<le> m"
    then have "(2::nat) ^ (m + 1) \<le> 2 ^ i" by (intro power_increasing) auto
    moreover have "2 ^ i \<le> unat w" using b by (rule bit_imp_unat_ge)
    ultimately show False using m by linarith
  qed
  have "unat w div 2 ^ m = 1" using m by (simp add: div_nat_eqI)
  then have bm: "bit w m"
    by (simp add: bit_unat [symmetric] bit_iff_odd)
  have "next_pow2 v - 1 = mask (m + 1)"
  proof (rule bit_word_eqI)
    fix i assume i: "i < LENGTH(64)"
    have "(\<exists>j<32. bit w (i + j)) \<longleftrightarrow> i \<le> m"
    proof
      assume "i \<le> m" then show "\<exists>j<32. bit w (i + j)"
        using bm m32 by (intro exI [of _ "m - i"]) simp
    qed (use bits in fastforce)
    then show "bit (next_pow2 v - 1) i = bit (mask (m + 1) :: u64) i"
      using i by (auto simp: next_pow2_bits w_def bit_mask_iff)
  qed
  then have "next_pow2 v = 2 ^ (m + 1)"
    by (metis diff_add_cancel mask_eq_exp_minus_1)
  then have "unat (next_pow2 v) = 2 ^ (m + 1)"
  proof -
    have "(2::nat) ^ (m + 1) < 2 ^ 64" using m32 by (intro power_strict_increasing) auto
    then have "unat (of_nat (2 ^ (m + 1)) :: u64) = 2 ^ (m + 1)"
      by (rule unat_of_nat_u64)
    then show ?thesis using \<open>next_pow2 v = 2 ^ (m + 1)\<close> by simp
  qed
  then show ?thesis using m w assms
    by (intro exI [of _ "m + 1"]) auto
qed

section \<open>The list contract\<close>

text \<open>
  What the users of the list rely on: through the abstraction function the operations are
  the list operations, as long as the list stays below the size limit of the address space.
\<close>

locale resizable_list =
  fixes abs :: "'l \<Rightarrow> 'a list"
    and inv :: "'l \<Rightarrow> bool"
    and append :: "'a \<Rightarrow> 'l \<Rightarrow> 'l option"
    and insert_at :: "nat \<Rightarrow> 'a \<Rightarrow> 'l \<Rightarrow> 'l option"
    and remove_at :: "nat \<Rightarrow> 'l \<Rightarrow> 'l option"
    and remove_item :: "'a \<Rightarrow> 'l \<Rightarrow> 'l option"
    and contains :: "'a \<Rightarrow> 'l \<Rightarrow> bool"
    and limit :: nat
  assumes append_ok: "inv l \<Longrightarrow> length (abs l) < limit \<Longrightarrow>
      \<exists>l'. append x l = Some l' \<and> inv l' \<and> abs l' = abs l @ [x]"
    and insert_ok: "inv l \<Longrightarrow> length (abs l) < limit \<Longrightarrow> i \<le> length (abs l) \<Longrightarrow>
      \<exists>l'. insert_at i x l = Some l' \<and> inv l' \<and> abs l' = take i (abs l) @ x # drop i (abs l)"
    and remove_at_ok: "inv l \<Longrightarrow> i < length (abs l) \<Longrightarrow>
      \<exists>l'. remove_at i l = Some l' \<and> inv l' \<and> abs l' = take i (abs l) @ drop (Suc i) (abs l)"
    and remove_item_ok: "inv l \<Longrightarrow>
      \<exists>l'. remove_item x l = Some l' \<and> inv l' \<and> abs l' = remove1 x (abs l)"
    and contains_ok: "inv l \<Longrightarrow> contains x l \<longleftrightarrow> x \<in> set (abs l)"
begin

text \<open>The engines append an item only after testing that it is absent; lists stay duplicate free.\<close>

lemma append_absent:
  assumes "inv l" "length (abs l) < limit" "distinct (abs l)" "\<not> contains x l"
  shows "\<exists>l'. append x l = Some l' \<and> inv l' \<and> distinct (abs l') \<and> contains x l'"
  using append_ok [OF assms(1,2), of x] contains_ok [OF assms(1), of x] assms contains_ok by fastforce

lemma remove_item_absent_after:
  assumes "inv l" "distinct (abs l)"
  shows "\<exists>l'. remove_item x l = Some l' \<and> inv l' \<and> distinct (abs l') \<and> \<not> contains x l'
    \<and> (\<forall>y. y \<noteq> x \<longrightarrow> (contains y l' \<longleftrightarrow> contains y l))"
  using remove_item_ok [OF assms(1), of x] assms contains_ok by fastforce

lemma append_then_remove:
  assumes "inv l" "length (abs l) < limit" "x \<notin> set (abs l)"
  shows "\<exists>l' l''. append x l = Some l' \<and> remove_item x l' = Some l'' \<and> inv l'' \<and> abs l'' = abs l"
proof -
  obtain l' where l': "append x l = Some l'" "inv l'" "abs l' = abs l @ [x]"
    using append_ok [OF assms(1,2)] by blast
  obtain l'' where "remove_item x l' = Some l''" "inv l''" "abs l'' = remove1 x (abs l @ [x])"
    using remove_item_ok [OF l'(2), of x] l'(3) by auto
  with l' assms(3) show ?thesis by (auto simp: remove1_append)
qed

end

section \<open>The implementation keeps the contract\<close>

lemma find_item_Some: "find_item x (map Some ys) i = (if x \<in> set ys then Some (i + length (takeWhile (\<lambda>y. y \<noteq> x) ys)) else None)"
  by (induction ys arbitrary: i) auto

lemma grow_spec:
  assumes "list_inv l" "CurrentSize l < 2 ^ 63"
  obtains rest where "ObjectArray (grow l) = Some (map Some (list_abs l) @ rest)" "rest \<noteq> []"
    "CurrentSize (grow l) = length (list_abs l)"
    "MaximumSize (grow l) = length (list_abs l) + length rest" "MaximumSize (grow l) \<le> 2 ^ 63"
proof -
  from assms(1) obtain xs rest where l: "ObjectArray l = Some (map Some xs @ rest)" "list_abs l = xs"
    "CurrentSize l = length xs" "MaximumSize l = length xs + length rest" "MaximumSize l \<le> 2 ^ 63"
    by (rule list_invE)
  show thesis
  proof (cases "rest = []")
    case False
    with l show thesis by (intro that [of rest]) (auto simp: grow_def)
  next
    case True
    define v :: u64 where "v = of_nat (length xs + 1)"
    have "length xs + 1 \<le> 2 ^ 63" using l True assms by simp
    then have v: "unat v = length xs + 1"
      unfolding v_def by (intro unat_of_nat_u64) simp
    let ?n = "unat (next_pow2 v)"
    have n: "length xs + 1 \<le> ?n" "?n \<le> 2 ^ 63"
      using next_pow2_ge_nat [of v] v \<open>length xs + 1 \<le> 2 ^ 63\<close> by auto
    have "grow l = ReallocList ?n l"
      using l True by (simp add: grow_def v_def)
    with l n True show thesis
      by (intro that [of "replicate (?n - length xs) None"]) (auto simp: ReallocList_def Let_def)
  qed
qed

lemma Append_refines:
  assumes "list_inv l" "length (list_abs l) < 2 ^ 63"
  shows "\<exists>l'. Append x l = Some l' \<and> list_inv l' \<and> list_abs l' = list_abs l @ [x]"
proof -
  have "CurrentSize l < 2 ^ 63"
    using assms by (elim list_invE) simp
  then obtain rest where g: "ObjectArray (grow l) = Some (map Some (list_abs l) @ rest)" "rest \<noteq> []"
    "CurrentSize (grow l) = length (list_abs l)"
    "MaximumSize (grow l) = length (list_abs l) + length rest" "MaximumSize (grow l) \<le> 2 ^ 63"
    using assms by (elim grow_spec) auto
  obtain r rest' where rest: "rest = r # rest'" using g(2) by (cases rest) auto
  define l' where "l' = (grow l)\<lparr>ObjectArray := Some (map Some (list_abs l @ [x]) @ rest'),
    CurrentSize := length (list_abs l) + 1\<rparr>"
  have "Append x l = Some l'"
    using g rest by (simp add: Append_def Let_def l'_def list_update_append)
  moreover have "list_inv l' \<and> list_abs l' = list_abs l @ [x]"
    using g rest by (intro list_invI [of _ _ rest']) (auto simp: l'_def)
  ultimately show ?thesis by blast
qed

lemma Insert_refines:
  assumes "list_inv l" "length (list_abs l) < 2 ^ 63" "i \<le> length (list_abs l)"
  shows "\<exists>l'. Insert i x l = Some l' \<and> list_inv l'
    \<and> list_abs l' = take i (list_abs l) @ x # drop i (list_abs l)"
proof -
  let ?xs = "list_abs l"
  have "CurrentSize l < 2 ^ 63"
    using assms by (elim list_invE) simp
  then obtain rest where g: "ObjectArray (grow l) = Some (map Some ?xs @ rest)" "rest \<noteq> []"
    "CurrentSize (grow l) = length ?xs"
    "MaximumSize (grow l) = length ?xs + length rest" "MaximumSize (grow l) \<le> 2 ^ 63"
    using assms by (elim grow_spec) auto
  obtain r rest' where rest: "rest = r # rest'" using g(2) by (cases rest) auto
  define l' where "l' = (grow l)\<lparr>ObjectArray := Some (map Some (take i ?xs @ x # drop i ?xs) @ rest'),
    CurrentSize := length ?xs + 1\<rparr>"
  have "Insert i x l = Some l'"
    using g rest assms(3)
    by (simp add: Insert_def Let_def l'_def list_update_append take_map drop_map)
  moreover have "list_inv l' \<and> list_abs l' = take i ?xs @ x # drop i ?xs"
    using g rest assms(3) by (intro list_invI [of _ _ rest']) (auto simp: l'_def)
  ultimately show ?thesis by blast
qed

lemma Remove_refines:
  assumes "list_inv l" "i < length (list_abs l)"
  shows "\<exists>l'. Remove i l = Some l' \<and> list_inv l'
    \<and> list_abs l' = take i (list_abs l) @ drop (Suc i) (list_abs l)"
proof -
  from assms(1) obtain xs rest where l: "ObjectArray l = Some (map Some xs @ rest)" "list_abs l = xs"
    "CurrentSize l = length xs" "MaximumSize l = length xs + length rest" "MaximumSize l \<le> 2 ^ 63"
    by (rule list_invE)
  define r where "r = drop (length xs - 1) (map Some xs @ rest)"
  define l' where "l' = l\<lparr>ObjectArray := Some (map Some (take i xs @ drop (Suc i) xs) @ r),
    CurrentSize := length xs - 1\<rparr>"
  have "Remove i l = Some l'"
    using l assms(2) by (simp add: Remove_def l'_def r_def take_map drop_map)
  moreover have "list_inv l' \<and> list_abs l' = take i xs @ drop (Suc i) xs"
    using l assms(2) by (intro list_invI [of _ _ r]) (auto simp: l'_def r_def)
  ultimately show ?thesis using l by blast
qed

lemma remove1_take_drop:
  "x \<in> set xs \<Longrightarrow> (let i = length (takeWhile (\<lambda>y. y \<noteq> x) xs) in i < length xs
     \<and> take i xs @ drop (Suc i) xs = remove1 x xs)"
  by (induction xs) (auto simp: Let_def)

lemma stored_elems:
  "list_inv l \<Longrightarrow> take (CurrentSize l) (case ObjectArray l of None \<Rightarrow> [] | Some a \<Rightarrow> a)
    = map Some (list_abs l)"
  by (elim list_invE) simp

lemma RemoveItem_refines:
  assumes "list_inv l"
  shows "\<exists>l'. RemoveItem x l = Some l' \<and> list_inv l' \<and> list_abs l' = remove1 x (list_abs l)"
proof (cases "x \<in> set (list_abs l)")
  case False
  then show ?thesis using assms
    by (simp add: RemoveItem_def stored_elems find_item_Some remove1_idem)
next
  case True
  define i where "i = length (takeWhile (\<lambda>y. y \<noteq> x) (list_abs l))"
  have i: "i < length (list_abs l)" "take i (list_abs l) @ drop (Suc i) (list_abs l) = remove1 x (list_abs l)"
    using remove1_take_drop [OF True] by (simp_all add: i_def Let_def)
  have "RemoveItem x l = Remove i l"
    using True assms by (simp add: RemoveItem_def stored_elems find_item_Some i_def)
  then show ?thesis using Remove_refines [OF assms i(1)] i(2) by simp
qed

lemma Contains_refines: "list_inv l \<Longrightarrow> Contains x l \<longleftrightarrow> x \<in> set (list_abs l)"
  by (simp add: Contains_def stored_elems find_item_Some)

interpretation csp_list: resizable_list list_abs list_inv Append Insert Remove RemoveItem Contains "2 ^ 63"
  by unfold_locales
    (rule Append_refines Insert_refines Remove_refines RemoveItem_refines Contains_refines; assumption)+

section \<open>Construction, assignment and properties\<close>

lemma List_new_refines: "list_inv (List_new :: 'a csp_list) \<and> list_abs (List_new :: 'a csp_list) = []"
  by (intro list_invI [of _ _ "replicate 4 None"])
    (simp_all add: List_new_def AllocList_def blank_list_def LIST_DEFAULT_SIZE_def)

lemma Clear_refines: "list_inv (Clear l) \<and> list_abs (Clear l) = []"
  by (intro list_invI [of _ _ "replicate 4 None"])
    (simp_all add: Clear_def FreeList_def AllocList_def LIST_DEFAULT_SIZE_def)

lemma copied_refines:
  assumes "list_inv l" "CurrentSize l \<noteq> 0" "ObjectArray l = Some src"
  shows "list_inv (copy_elems (CurrentSize l) src (AllocList (MaximumSize l) d))
    \<and> list_abs (copy_elems (CurrentSize l) src (AllocList (MaximumSize l) d)) = list_abs l"
proof -
  from assms obtain xs rest where "src = map Some xs @ rest" "list_abs l = xs"
    "CurrentSize l = length xs" "MaximumSize l = length xs + length rest" "MaximumSize l \<le> 2 ^ 63"
    by (elim list_invE) auto
  then show ?thesis
    using list_invI [of "copy_elems (CurrentSize l) src (AllocList (MaximumSize l) d)" xs
        "replicate (length rest) None"]
    by (simp add: copy_elems_def AllocList_def)
qed

lemma List_copy_refines:
  assumes "list_inv l"
  shows "\<exists>l'. List_copy l = Some l' \<and> list_inv l' \<and> list_abs l' = list_abs l"
proof (cases "CurrentSize l = 0")
  case True
  then show ?thesis
    using List_new_refines [where 'a = 'a]
    by (simp add: List_copy_def List_new_def list_abs_def)
next
  case False
  moreover obtain src where "ObjectArray l = Some src" using assms by (rule list_invE)
  ultimately show ?thesis using assms copied_refines by (simp add: List_copy_def)
qed

lemma List_assign_refines:
  assumes "list_inv l"
  shows "\<exists>l'. List_assign d l = Some l' \<and> list_inv l' \<and> list_abs l' = list_abs l"
proof (cases "CurrentSize l = 0")
  case True
  then have "list_inv (AllocList 4 (d\<lparr>CurrentSize := 0, MaximumSize := 0, ObjectArray := None\<rparr>))
      \<and> list_abs (AllocList 4 (d\<lparr>CurrentSize := 0, MaximumSize := 0, ObjectArray := None\<rparr>)) = []"
    by (intro list_invI [of _ _ "replicate 4 None"]) (simp_all add: AllocList_def)
  with True show ?thesis
    by (simp add: List_assign_def LIST_DEFAULT_SIZE_def list_abs_def)
next
  case False
  moreover obtain src where "ObjectArray l = Some src" using assms by (rule list_invE)
  ultimately show ?thesis using assms copied_refines by (simp add: List_assign_def)
qed

lemma List_of_init_refines:
  assumes "length xs \<le> 2 ^ 63"
  shows "list_inv (List_of_init xs) \<and> list_abs (List_of_init xs) = xs"
proof (cases "xs = []")
  case True
  then show ?thesis using List_new_refines by (simp add: List_of_init_def List_new_def)
next
  case False
  let ?n = "unat (next_pow2 (of_nat (length xs)))"
  have "unat (of_nat (length xs) :: u64) = length xs"
    using assms by (intro unat_of_nat_u64) simp
  then have "length xs \<le> ?n" "?n \<le> 2 ^ 63"
    using next_pow2_ge_nat [of "of_nat (length xs)"] False assms by (auto simp: Suc_le_eq)
  then show ?thesis
    using False list_invI [of "List_of_init xs" xs "replicate (?n - length xs) None"]
    by (simp add: List_of_init_def copy_elems_def AllocList_def)
qed

text \<open>
  C37. A copied or assigned list holds the elements of the original, and the mutators act on
  it as append, insertion, deletion and removal of the first occurrence: with fewer than
  \<open>2 ^ 63\<close> elements no operation reads a slot it has not written or writes outside its array,
  whatever reallocations the capacity needs.
\<close>

theorem list_operations_refine_sequences:
  assumes "list_inv l" "length (list_abs l) < 2 ^ 63"
  shows "\<exists>c. List_copy l = Some c \<and> list_abs c = list_abs l
      \<and> map_option list_abs (Append x c) = Some (list_abs l @ [x])
      \<and> (\<forall>i. i \<le> length (list_abs l)
            \<longrightarrow> map_option list_abs (Insert i x c) = Some (take i (list_abs l) @ x # drop i (list_abs l)))
      \<and> (\<forall>i. i < length (list_abs l)
            \<longrightarrow> map_option list_abs (Remove i c) = Some (take i (list_abs l) @ drop (Suc i) (list_abs l)))
      \<and> map_option list_abs (RemoveItem x c) = Some (remove1 x (list_abs l))
      \<and> (Contains x c \<longleftrightarrow> x \<in> set (list_abs l))"
proof -
  obtain c where c: "List_copy l = Some c" "list_inv c" "list_abs c = list_abs l"
    using List_copy_refines assms(1) by blast
  with assms(2) csp_list.append_ok [of c x] csp_list.insert_ok [of c _ x]
    csp_list.remove_at_ok [of c] csp_list.remove_item_ok [of c x] csp_list.contains_ok [of c x]
  show ?thesis by fastforce
qed

lemma list_operations_refine_sequences_witness:
  "\<exists>c. List_copy (List_of_init [1, 2, 3 :: nat]) = Some c
     \<and> map_option list_abs (Insert 1 9 c) = Some [1, 9, 2, 3]"
  using list_operations_refine_sequences [of "List_of_init [1, 2, 3 :: nat]" 9]
    List_of_init_refines [of "[1, 2, 3 :: nat]"]
  by (auto dest: spec [of _ 1])

text \<open>
  C40. The capacity computed for a list of 2 to \<open>2 ^ 32\<close> elements is the least power of two
  that holds them: capacities at most double.
\<close>

theorem next_pow2_is_least_power:
  assumes "2 \<le> unat v" "unat v \<le> 2 ^ 32"
  shows "\<exists>n. unat (next_pow2 v) = 2 ^ n \<and> unat v \<le> 2 ^ n \<and> (\<forall>m. unat v \<le> 2 ^ m \<longrightarrow> n \<le> m)"
proof -
  obtain n where n: "unat (next_pow2 v) = 2 ^ n" "2 ^ n < 2 * unat v" "unat v \<le> 2 ^ n"
    using next_pow2_power assms by blast
  have "n \<le> m" if "unat v \<le> 2 ^ m" for m
  proof -
    have "(2::nat) ^ n < 2 ^ Suc m" using n(2) that by simp
    then show ?thesis by (simp only: power_strict_increasing_iff)
  qed
  with n show ?thesis by blast
qed

lemma next_pow2_is_least_power_witness: "\<exists>n. unat (next_pow2 5) = 2 ^ n \<and> 5 \<le> (2::nat) ^ n"
  using next_pow2_is_least_power [of 5] by auto

text \<open>Above 32 bits the smearing is incomplete: the result need not be a power of two.\<close>

lemma next_pow2_above_32_bits: "next_pow2 (2 ^ 33 + 1) = 17179869181"
  by (simp add: next_pow2_def Let_def)

text \<open>The move constructor leaves the source with a size but no array: reading it fails.\<close>

lemma List_move_leaves_dangling_size:
  assumes "list_inv l" "CurrentSize l \<noteq> 0"
  shows "list_abs (fst (List_move l)) = list_abs l \<and> CurrentSize (snd (List_move l)) = CurrentSize l
    \<and> List_at (snd (List_move l)) 0 = None"
  using assms by (simp add: List_move_def list_abs_def List_at_def)

end
