(* ===== verification/Floats.thy ===== *)
theory Floats
  imports Prelude
begin

text \<open>
  IEEE 754 numbers as the bit patterns the code stores: \<open>float\<close> is a 32-bit word, \<open>double\<close> a
  64-bit word. The two conversions C++ performs implicitly when a \<open>float\<close> is written to and
  read back from a \<open>double\<close> are given on the sign, exponent and fraction fields (round to
  nearest, ties to even; a NaN becomes quiet), and comparison is C++ \<open>==\<close>: NaN is unequal to
  itself, the two zeros are equal. Everything is on natural numbers, so it evaluates.
\<close>

section \<open>Fields\<close>

type_synonym float32 = u32
type_synonym float64 = u64

definition f32_sign :: "float32 \<Rightarrow> nat" where "f32_sign x = unat x div 2 ^ 31"
definition f32_exp :: "float32 \<Rightarrow> nat" where "f32_exp x = unat x div 2 ^ 23 mod 2 ^ 8"
definition f32_frac :: "float32 \<Rightarrow> nat" where "f32_frac x = unat x mod 2 ^ 23"

definition f64_sign :: "float64 \<Rightarrow> nat" where "f64_sign x = unat x div 2 ^ 63"
definition f64_exp :: "float64 \<Rightarrow> nat" where "f64_exp x = unat x div 2 ^ 52 mod 2 ^ 11"
definition f64_frac :: "float64 \<Rightarrow> nat" where "f64_frac x = unat x mod 2 ^ 52"

definition mk32 :: "nat \<Rightarrow> nat \<Rightarrow> float32" where
  "mk32 s em = of_nat (s * 2 ^ 31 + em)"

definition mk64 :: "nat \<Rightarrow> nat \<Rightarrow> nat \<Rightarrow> float64" where
  "mk64 s e m = of_nat (s * 2 ^ 63 + e * 2 ^ 52 + m)"

definition f32_nan :: "float32 \<Rightarrow> bool" where
  "f32_nan x \<longleftrightarrow> f32_exp x = 255 \<and> f32_frac x \<noteq> 0"

definition f64_nan :: "float64 \<Rightarrow> bool" where
  "f64_nan x \<longleftrightarrow> f64_exp x = 2047 \<and> f64_frac x \<noteq> 0"

definition f32_zero :: "float32 \<Rightarrow> bool" where
  "f32_zero x \<longleftrightarrow> f32_exp x = 0 \<and> f32_frac x = 0"

definition f64_zero :: "float64 \<Rightarrow> bool" where
  "f64_zero x \<longleftrightarrow> f64_exp x = 0 \<and> f64_frac x = 0"

definition f32_eq :: "float32 \<Rightarrow> float32 \<Rightarrow> bool" where
  "f32_eq x y \<longleftrightarrow> \<not> f32_nan x \<and> \<not> f32_nan y \<and> (x = y \<or> f32_zero x \<and> f32_zero y)"

definition f64_eq :: "float64 \<Rightarrow> float64 \<Rightarrow> bool" where
  "f64_eq x y \<longleftrightarrow> \<not> f64_nan x \<and> \<not> f64_nan y \<and> (x = y \<or> f64_zero x \<and> f64_zero y)"

section \<open>Conversions\<close>

text \<open>The position of the leading bit of a non-zero fraction.\<close>

fun lead_bit :: "nat \<Rightarrow> nat" where
  "lead_bit n = (if n < 2 then 0 else Suc (lead_bit (n div 2)))"

declare lead_bit.simps [simp del]

text \<open>Division by \<open>2 ^ sh\<close> rounding to nearest, ties to even.\<close>

definition rne :: "nat \<Rightarrow> nat \<Rightarrow> nat" where
  "rne m sh =
     (let q = m div 2 ^ sh; r = m mod 2 ^ sh
      in if 2 ^ sh < 2 * r \<or> 2 ^ sh = 2 * r \<and> odd q then q + 1 else q)"

definition quiet_frac :: "nat \<Rightarrow> nat \<Rightarrow> nat" where
  "quiet_frac w m = (if 2 ^ (w - 1) \<le> m then m else m + 2 ^ (w - 1))"

definition widen :: "float32 \<Rightarrow> float64" where
  "widen x =
     (let s = f32_sign x; e = f32_exp x; m = f32_frac x
      in if e = 255 then mk64 s 2047 (if m = 0 then 0 else quiet_frac 52 (m * 2 ^ 29))
         else if e = 0 then
           (if m = 0 then mk64 s 0 0
            else let k = lead_bit m in mk64 s (k + 874) ((m - 2 ^ k) * 2 ^ (52 - k)))
         else mk64 s (e + 896) (m * 2 ^ 29))"

definition narrow :: "float64 \<Rightarrow> float32" where
  "narrow x =
     (let s = f64_sign x; e = f64_exp x; m = f64_frac x
      in if e = 2047 then mk32 s (255 * 2 ^ 23 + (if m = 0 then 0 else quiet_frac 23 (m div 2 ^ 29)))
         else if e = 0 then mk32 s 0
         else let em = (if 897 \<le> e then (e - 897) * 2 ^ 23 + rne (2 ^ 52 + m) 29
                        else rne (2 ^ 52 + m) (29 + (897 - e)))
              in mk32 s (if 255 * 2 ^ 23 \<le> em then 255 * 2 ^ 23 else em))"

text \<open>The quiet NaN with the same payload; other patterns unchanged.\<close>

definition f32_quiet :: "float32 \<Rightarrow> float32" where
  "f32_quiet x = (if f32_nan x then mk32 (f32_sign x) (255 * 2 ^ 23 + quiet_frac 23 (f32_frac x)) else x)"

section \<open>A \<open>float\<close> survives the trip through \<open>double\<close>\<close>

lemma three_fields: "n div (a * b) * (a * b) + ((n div a mod b) * a + n mod a) = (n :: nat)"
proof -
  have "n div (a * b) * (a * b) + (n div a mod b) * a = (n div a div b * b + n div a mod b) * a"
    by (simp only: div_mult2_eq add_mult_distrib mult.assoc mult.commute [of b a])
  also have "\<dots> = n div a * a" by (simp only: div_mult_mod_eq)
  finally show ?thesis by (simp only: add.assoc [symmetric] div_mult_mod_eq)
qed

lemma f32_fields:
  "f32_sign x < 2" "f32_exp x < 256" "f32_frac x < 2 ^ 23"
  "mk32 (f32_sign x) (f32_exp x * 2 ^ 23 + f32_frac x) = x"
proof -
  have u: "unat x < 2 ^ 32" using unsigned_less [of x] by simp
  then show "f32_sign x < 2" by (simp add: f32_sign_def)
  show "f32_exp x < 256" "f32_frac x < 2 ^ 23" by (simp_all add: f32_exp_def f32_frac_def)
  have "f32_sign x * 2 ^ 31 + (f32_exp x * 2 ^ 23 + f32_frac x) = unat x"
    using three_fields [of "unat x" "2 ^ 23" "2 ^ 8"]
    by (simp add: f32_sign_def f32_exp_def f32_frac_def)
  then show "mk32 (f32_sign x) (f32_exp x * 2 ^ 23 + f32_frac x) = x"
    by (simp add: mk32_def)
qed

lemma mk64_fields:
  assumes "s < 2" "e < 2048" "m < 2 ^ 52"
  shows "f64_sign (mk64 s e m) = s" "f64_exp (mk64 s e m) = e" "f64_frac (mk64 s e m) = m"
proof -
  have "s * 2 ^ 63 + e * 2 ^ 52 + m < 2 ^ 64" using assms by simp
  then have u: "unat (mk64 s e m) = s * 2 ^ 63 + e * 2 ^ 52 + m"
    unfolding mk64_def by (rule unat_of_nat_u64)
  have split: "s * 2 ^ 63 + e * 2 ^ 52 + m = m + (s * 2 ^ 11 + e) * 2 ^ 52" by simp
  show "f64_sign (mk64 s e m) = s" unfolding f64_sign_def u using assms by simp
  show "f64_frac (mk64 s e m) = m" unfolding f64_frac_def u split using assms(3) by (simp only: mod_mult_self1 mod_less)
  have "(s * 2 ^ 63 + e * 2 ^ 52 + m) div 2 ^ 52 = s * 2 ^ 11 + e"
    unfolding split using assms(3) by (subst div_mult_self1) simp_all
  then show "f64_exp (mk64 s e m) = e" unfolding f64_exp_def u using assms by simp
qed

lemma lead_bit_bounds: "m \<noteq> 0 \<Longrightarrow> 2 ^ lead_bit m \<le> m \<and> m < 2 ^ Suc (lead_bit m)"
proof (induction m rule: lead_bit.induct)
  case (1 n)
  show ?case
  proof (cases "n < 2")
    case True
    then show ?thesis using 1 by (simp add: lead_bit.simps [of n])
  next
    case False
    then have "2 ^ lead_bit (n div 2) \<le> n div 2 \<and> n div 2 < 2 ^ Suc (lead_bit (n div 2))"
      using 1 by simp
    then show ?thesis using False by (simp add: lead_bit.simps [of n]) linarith
  qed
qed

lemma rne_exact: "rne (q * 2 ^ sh) sh = q"
  by (simp add: rne_def)

lemma narrow_widen_normal:
  assumes "e \<noteq> 0" "e < 255" "m < 2 ^ 23" "s < 2"
  shows "narrow (mk64 s (e + 896) (m * 2 ^ 29)) = mk32 s (e * 2 ^ 23 + m)"
proof -
  have "2 ^ 52 + m * 2 ^ 29 = (2 ^ 23 + m) * 2 ^ 29" by simp
  then have r: "rne (2 ^ 52 + m * 2 ^ 29) 29 = 2 ^ 23 + m" by (simp only: rne_exact)
  have f: "f64_sign (mk64 s (e + 896) (m * 2 ^ 29)) = s"
    "f64_exp (mk64 s (e + 896) (m * 2 ^ 29)) = e + 896"
    "f64_frac (mk64 s (e + 896) (m * 2 ^ 29)) = m * 2 ^ 29"
    using assms by (intro mk64_fields; simp)+
  have em: "(e + 896 - 897) * 2 ^ 23 + (2 ^ 23 + m) = e * 2 ^ 23 + m"
    using assms(1) by (cases e) simp_all
  have "e * 2 ^ 23 + m < 255 * 2 ^ 23" using assms by simp
  moreover have "897 \<le> e + 896" "e + 896 \<noteq> 2047" "e + 896 \<noteq> 0" using assms(1,2) by simp_all
  ultimately show ?thesis
    unfolding narrow_def f Let_def r by (simp only: if_True if_False em not_le [symmetric])
qed

lemma narrow_widen_subnormal:
  assumes "m \<noteq> 0" "m < 2 ^ 23" "s < 2"
  shows "narrow (mk64 s (lead_bit m + 874) ((m - 2 ^ lead_bit m) * 2 ^ (52 - lead_bit m))) = mk32 s m"
proof -
  let ?k = "lead_bit m"
  have b: "2 ^ ?k \<le> m" "m < 2 ^ Suc ?k" using lead_bit_bounds [OF assms(1)] by auto
  then have "(2::nat) ^ ?k < 2 ^ 23" using assms(2) by linarith
  then have k: "?k < 23" by (rule power_less_imp_less_exp [rotated]) simp
  let ?m = "(m - 2 ^ ?k) * 2 ^ (52 - ?k)"
  have p: "2 ^ ?k * 2 ^ (52 - ?k) = (2 ^ 52 :: nat)" using k by (simp flip: power_add)
  have "(m - 2 ^ ?k) * 2 ^ (52 - ?k) < 2 ^ ?k * 2 ^ (52 - ?k)"
    using b by (intro mult_strict_right_mono) auto
  then have ml: "?m < 2 ^ 52" by (simp only: p)
  have "2 ^ 52 + ?m = m * 2 ^ (52 - ?k)"
    using b(1) by (simp only: p [symmetric] flip: add_mult_distrib) simp
  moreover have "29 + (897 - (?k + 874)) = 52 - ?k" using k by simp
  ultimately have r: "rne (2 ^ 52 + ?m) (29 + (897 - (?k + 874))) = m" by (simp only: rne_exact)
  have f: "f64_sign (mk64 s (?k + 874) ?m) = s" "f64_exp (mk64 s (?k + 874) ?m) = ?k + 874"
    "f64_frac (mk64 s (?k + 874) ?m) = ?m"
    using k ml assms(3) by (intro mk64_fields; simp)+
  have "\<not> 897 \<le> ?k + 874" "?k + 874 \<noteq> 2047" "?k + 874 \<noteq> 0" using k by simp_all
  moreover have "\<not> 255 * 2 ^ 23 \<le> m" using assms(2) by simp
  ultimately show ?thesis
    unfolding narrow_def f Let_def by (simp only: if_False r)
qed

lemma narrow_widen_special:
  assumes "s < 2" "m < 2 ^ 23"
  shows "narrow (mk64 s 2047 (if m = 0 then 0 else quiet_frac 52 (m * 2 ^ 29)))
    = mk32 s (255 * 2 ^ 23 + (if m = 0 then 0 else quiet_frac 23 m))"
proof (cases "m = 0")
  case True
  have "narrow (mk64 s 2047 0) = mk32 s (255 * 2 ^ 23)"
    using mk64_fields [of s 2047 0] assms by (simp add: narrow_def)
  with True show ?thesis by simp
next
  case False
  let ?m = "quiet_frac 52 (m * 2 ^ 29)"
  have q: "?m = quiet_frac 23 m * 2 ^ 29" by (simp add: quiet_frac_def)
  have ql: "quiet_frac 23 m < 2 ^ 23" "2 ^ 22 \<le> quiet_frac 23 m"
    using assms by (simp_all add: quiet_frac_def)
  have ml: "?m < 2 ^ 52" "?m \<noteq> 0" unfolding q using ql by simp_all
  have "narrow (mk64 s 2047 ?m) = mk32 s (255 * 2 ^ 23 + quiet_frac 23 (?m div 2 ^ 29))"
    using mk64_fields [of s 2047 ?m] assms(1) ml by (simp add: narrow_def)
  also have "quiet_frac 23 (?m div 2 ^ 29) = quiet_frac 23 m"
    using ql by (simp add: q) (simp add: quiet_frac_def)
  finally show ?thesis using False by simp
qed

lemma narrow_widen: "narrow (widen x) = f32_quiet x"
proof -
  define s e m where sem: "s = f32_sign x" "e = f32_exp x" "m = f32_frac x"
  note f = f32_fields [of x, folded sem]
  have x: "mk32 s (e * 2 ^ 23 + m) = x" using f(4) by simp
  have q: "f32_quiet x = mk32 s (if e = 255 \<and> m \<noteq> 0 then 255 * 2 ^ 23 + quiet_frac 23 m else e * 2 ^ 23 + m)"
    using x by (simp add: f32_quiet_def f32_nan_def flip: sem)
  consider "e = 255" | "e = 0" "m = 0" | "e = 0" "m \<noteq> 0" | "e \<noteq> 0" "e < 255" using f(2) by linarith
  then show ?thesis
  proof cases
    case 1
    then show ?thesis
      using narrow_widen_special [OF f(1,3)] unfolding q
      by (simp add: widen_def Let_def flip: sem)
  next
    case 2
    then show ?thesis
      using mk64_fields [of s 0 0] f(1) unfolding q
      by (simp add: widen_def narrow_def Let_def flip: sem)
  next
    case 3
    then show ?thesis
      using narrow_widen_subnormal [OF _ f(3,1)] unfolding q
      by (simp add: widen_def Let_def flip: sem)
  next
    case 4
    then show ?thesis
      using narrow_widen_normal [OF _ _ f(3,1)] unfolding q
      by (simp add: widen_def Let_def flip: sem)
  qed
qed

lemma narrow_widen_id: "\<not> f32_nan x \<Longrightarrow> narrow (widen x) = x"
  by (simp add: narrow_widen f32_quiet_def)

lemma f32_eq_refl: "f32_eq x x \<longleftrightarrow> \<not> f32_nan x"
  by (auto simp: f32_eq_def)

lemma f32_eq_sym: "f32_eq x y \<longleftrightarrow> f32_eq y x"
  by (auto simp: f32_eq_def)

lemma f32_eq_trans: "f32_eq x y \<Longrightarrow> f32_eq y z \<Longrightarrow> f32_eq x z"
  by (auto simp: f32_eq_def)

lemma f64_eq_refl: "f64_eq x x \<longleftrightarrow> \<not> f64_nan x"
  by (auto simp: f64_eq_def)

end
