(* ===== verification/Signalr_Serializer.thy ===== *)
theory Signalr_Serializer
  imports Floats
begin

text \<open>
  The serialiser and deserialiser of SignalR values
  (\<open>src/Multiplayer/SignalRSerializer.h\<close> and \<open>.cpp\<close>). The serialiser keeps a stack of
  containers under construction, the deserialiser a stack of iterators into the value it
  reads. The template functions are modelled once, with the operation of the element type as
  an argument. A call that leaves with an exception is \<open>Inl (Runtime_error what)\<close>;
  dereferencing or advancing an iterator past the end is \<open>Inl Undefined\<close>.
\<close>

section \<open>Values\<close>

datatype sig_value =
    SNull
  | SBool bool
  | SInt u64   \<comment> \<open>\<open>int64_t\<close>, read with \<open>sint\<close>\<close>
  | SUint u64
  | SDouble float64
  | SStr string
  | SRaw "u8 list"
  | SArr "sig_value list"
  | SUMap "(u64 \<times> sig_value) list"
  | SSMap "(string \<times> sig_value) list"

datatype ser_error =
    Runtime_error string
  | Invalid_argument string
  | Bad_variant_access
  | Undefined
  | Out_of_fuel

section \<open>The serialiser\<close>

datatype container =
    CVal sig_value
  | CArr "sig_value list"
  | CSMap "(string, sig_value) omap"
  | CUMap "(u64, sig_value) omap"
  | CUPair u64 sig_value
  | CSPair string sig_value

type_synonym serializer = "container list" \<comment> \<open>the stack, its top first\<close>

definition FinalizeContainerSerialization :: "sig_value \<Rightarrow> serializer \<Rightarrow> ser_error + serializer" where
  "FinalizeContainerSerialization SerializedContainer st =
     (case st of
        [] \<Rightarrow> Inr [CVal SerializedContainer]
      | CArr xs # st' \<Rightarrow> Inr (CArr (xs @ [SerializedContainer]) # st')
      | CUPair k v # st' \<Rightarrow> Inr (CUPair k SerializedContainer # st')
      | CSPair k v # st' \<Rightarrow> Inr (CSPair k SerializedContainer # st')
      | _ \<Rightarrow> Inl (Runtime_error ''Unexpected serializer state''))"

definition StartWriteArray :: "serializer \<Rightarrow> serializer" where
  "StartWriteArray st = CArr [] # st"

definition EndWriteArray :: "serializer \<Rightarrow> ser_error + serializer" where
  "EndWriteArray st =
     (case st of
        CArr xs # st' \<Rightarrow> FinalizeContainerSerialization (SArr xs) st'
      | _ \<Rightarrow> Inl (Runtime_error ''Invalid call: Serializer was not in an array''))"

definition StartWriteStringMap :: "serializer \<Rightarrow> serializer" where
  "StartWriteStringMap st = CSMap [] # st"

definition EndWriteStringMap :: "serializer \<Rightarrow> ser_error + serializer" where
  "EndWriteStringMap st =
     (case st of
        CSMap m # st' \<Rightarrow> FinalizeContainerSerialization (SSMap m) st'
      | _ \<Rightarrow> Inl (Runtime_error ''Invalid call: Serializer was not in a string map''))"

definition StartWriteUintMap :: "serializer \<Rightarrow> serializer" where
  "StartWriteUintMap st = CUMap [] # st"

definition EndWriteUintMap :: "serializer \<Rightarrow> ser_error + serializer" where
  "EndWriteUintMap st =
     (case st of
        CUMap m # st' \<Rightarrow> FinalizeContainerSerialization (SUMap m) st'
      | _ \<Rightarrow> Inl (Runtime_error ''Invalid call: Serializer was not in a uint map''))"

definition Serializer_Get :: "serializer \<Rightarrow> ser_error + sig_value" where
  "Serializer_Get st =
     (case st of
        [] \<Rightarrow> Inr SNull
      | [CVal v] \<Rightarrow> Inr v
      | [CArr xs] \<Rightarrow> Inr (SArr xs)
      | [CUMap m] \<Rightarrow> Inr (SUMap m)
      | [CSMap m] \<Rightarrow> Inr (SSMap m)
      | [_] \<Rightarrow> Inl (Runtime_error ''Unexpected serializer state'')
      | _ \<Rightarrow> Inl (Runtime_error ''Invalid call: Serializer is not at the root''))"

text \<open>\<open>WriteValueInternal\<close> of a basic type, its argument the result of \<open>CreateSignalRObject\<close>.\<close>

definition WriteObject :: "sig_value \<Rightarrow> serializer \<Rightarrow> ser_error + serializer" where
  "WriteObject v st =
     (case st of
        [] \<Rightarrow> Inr [CVal v]
      | CArr xs # st' \<Rightarrow> Inr (CArr (xs @ [v]) # st')
      | CUPair k w # st' \<Rightarrow> Inr (CUPair k v # st')
      | CSPair k w # st' \<Rightarrow> Inr (CSPair k v # st')
      | _ \<Rightarrow> Inl (Runtime_error ''Invalid call: Serializer was not in an array or at the root''))"

type_synonym 'a writer = "'a \<Rightarrow> serializer \<Rightarrow> ser_error + serializer"

definition write_bool :: "bool writer" where "write_bool x = WriteObject (SBool x)"
definition write_int64 :: "u64 writer" where "write_int64 x = WriteObject (SInt x)"
definition write_uint64 :: "u64 writer" where "write_uint64 x = WriteObject (SUint x)"
definition write_double :: "float64 writer" where "write_double x = WriteObject (SDouble x)"
definition write_float :: "float32 writer" where "write_float x = WriteObject (SDouble (widen x))"
definition write_string :: "string writer" where "write_string x = WriteObject (SStr x)"

definition write_optional :: "'a writer \<Rightarrow> 'a option writer" where
  "write_optional wr x = (case x of Some y \<Rightarrow> wr y | None \<Rightarrow> WriteObject SNull)"

fun write_all :: "'a writer \<Rightarrow> 'a list writer" where
  "write_all wr [] st = Inr st"
| "write_all wr (x # xs) st = rbind (wr x st) (\<lambda>st. write_all wr xs st)"

definition write_vector :: "'a writer \<Rightarrow> 'a list writer" where
  "write_vector wr xs st = rbind (write_all wr xs (StartWriteArray st)) EndWriteArray"

definition WriteKeyValue_uint :: "('k \<Rightarrow> u64) \<Rightarrow> 'a writer \<Rightarrow> 'k \<times> 'a \<Rightarrow> serializer \<Rightarrow> ser_error + serializer" where
  "WriteKeyValue_uint cast wr kv st =
     (case st of
        CUMap m # st' \<Rightarrow>
          rbind (wr (snd kv) (CUPair (cast (fst kv)) SNull # st))
            (\<lambda>st. case st of
               CUPair k v # CUMap m # st' \<Rightarrow> Inr (CUMap (omap_upd k v m) # st')
             | _ \<Rightarrow> Inl Bad_variant_access)
      | _ \<Rightarrow> Inl (Runtime_error ''Invalid call: Serializer was not in a uint map''))"

definition WriteKeyValue_string :: "'a writer \<Rightarrow> string \<times> 'a \<Rightarrow> serializer \<Rightarrow> ser_error + serializer" where
  "WriteKeyValue_string wr kv st =
     (case st of
        CSMap m # st' \<Rightarrow>
          rbind (wr (snd kv) (CSPair (fst kv) SNull # st))
            (\<lambda>st. case st of
               CSPair k v # CSMap m # st' \<Rightarrow> Inr (CSMap (omap_upd k v m) # st')
             | _ \<Rightarrow> Inl Bad_variant_access)
      | _ \<Rightarrow> Inl (Runtime_error ''Invalid call: Serializer was not in a string map''))"

definition write_uint_map :: "('k \<Rightarrow> u64) \<Rightarrow> 'a writer \<Rightarrow> ('k \<times> 'a) list writer" where
  "write_uint_map cast wr m st =
     rbind (write_all (WriteKeyValue_uint cast wr) m (StartWriteUintMap st)) EndWriteUintMap"

definition write_string_map :: "'a writer \<Rightarrow> (string \<times> 'a) list writer" where
  "write_string_map wr m st =
     rbind (write_all (WriteKeyValue_string wr) m (StartWriteStringMap st)) EndWriteStringMap"

section \<open>The deserialiser\<close>

datatype iter =
    INull
  | IArr "sig_value list" \<comment> \<open>the elements from the iterator to the end\<close>
  | IUMap "(u64 \<times> sig_value) list"
  | ISMap "(string \<times> sig_value) list"

record deserializer =
  Root :: sig_value
  ObjectStack :: "iter list" \<comment> \<open>its top first; the root iterator is never popped\<close>

definition new_deserializer :: "sig_value \<Rightarrow> deserializer" where
  "new_deserializer v = \<lparr>Root = v, ObjectStack = [INull]\<rparr>"

definition ReadNextValue :: "deserializer \<Rightarrow> ser_error + sig_value" where
  "ReadNextValue d =
     (case ObjectStack d of
        IArr (v # vs) # st \<Rightarrow> Inr v
      | IArr [] # st \<Rightarrow> Inl Undefined
      | INull # st \<Rightarrow> Inr (Root d)
      | _ # st \<Rightarrow> Inl (Runtime_error ''Unexpected deserializer state'')
      | [] \<Rightarrow> Inl Undefined)"

definition IncrementIterator :: "deserializer \<Rightarrow> ser_error + deserializer" where
  "IncrementIterator d =
     (case ObjectStack d of
        IArr (v # vs) # st \<Rightarrow> Inr (d\<lparr>ObjectStack := IArr vs # st\<rparr>)
      | IUMap (kv # m) # st \<Rightarrow> Inr (d\<lparr>ObjectStack := IUMap m # st\<rparr>)
      | ISMap (kv # m) # st \<Rightarrow> Inr (d\<lparr>ObjectStack := ISMap m # st\<rparr>)
      | INull # st \<Rightarrow> Inr d
      | _ \<Rightarrow> Inl Undefined)"

definition Skip :: "deserializer \<Rightarrow> ser_error + deserializer" where
  "Skip d = IncrementIterator d"

definition NextValueIsInt :: "deserializer \<Rightarrow> ser_error + bool" where
  "NextValueIsInt d = rbind (ReadNextValue d) (\<lambda>v. Inr (case v of SInt i \<Rightarrow> True | _ \<Rightarrow> False))"

definition NextValueIsUint :: "deserializer \<Rightarrow> ser_error + bool" where
  "NextValueIsUint d = rbind (ReadNextValue d) (\<lambda>v. Inr (case v of SUint i \<Rightarrow> True | _ \<Rightarrow> False))"

definition NextValueIsNull :: "deserializer \<Rightarrow> ser_error + bool" where
  "NextValueIsNull d = rbind (ReadNextValue d) (\<lambda>v. Inr (v = SNull))"

definition push_iter :: "iter \<Rightarrow> deserializer \<Rightarrow> deserializer" where
  "push_iter it d = d\<lparr>ObjectStack := it # ObjectStack d\<rparr>"

definition StartReadArray :: "deserializer \<Rightarrow> ser_error + nat \<times> deserializer" where
  "StartReadArray d =
     rbind (ReadNextValue d) (\<lambda>v. case v of
        SArr xs \<Rightarrow> Inr (length xs, push_iter (IArr xs) d)
      | _ \<Rightarrow> Inl (Runtime_error ''Unexpected value: Value isn't an array''))"

definition StartReadUintMap :: "deserializer \<Rightarrow> ser_error + nat \<times> deserializer" where
  "StartReadUintMap d =
     rbind (ReadNextValue d) (\<lambda>v. case v of
        SUMap m \<Rightarrow> Inr (length m, push_iter (IUMap m) d)
      | _ \<Rightarrow> Inl (Runtime_error ''Unexpected value: Value isn't a uint map''))"

definition StartReadStringMap :: "deserializer \<Rightarrow> ser_error + nat \<times> deserializer" where
  "StartReadStringMap d =
     rbind (ReadNextValue d) (\<lambda>v. case v of
        SSMap m \<Rightarrow> Inr (length m, push_iter (ISMap m) d)
      | _ \<Rightarrow> Inl (Runtime_error ''Unexpected value: Value isn't a string map''))"

definition EndReadArrayInternal :: "deserializer \<Rightarrow> ser_error + deserializer" where
  "EndReadArrayInternal d =
     (case ObjectStack d of
        IArr xs # st \<Rightarrow> Inr (d\<lparr>ObjectStack := st\<rparr>)
      | _ \<Rightarrow> Inl (Runtime_error ''Invalid call: Deserializer was not in an array''))"

definition EndReadUintMapInternal :: "deserializer \<Rightarrow> ser_error + deserializer" where
  "EndReadUintMapInternal d =
     (case ObjectStack d of
        IUMap m # st \<Rightarrow> Inr (d\<lparr>ObjectStack := st\<rparr>)
      | _ \<Rightarrow> Inl (Runtime_error ''Invalid call: Deserializer was not in a uint map''))"

definition EndReadStringMapInternal :: "deserializer \<Rightarrow> ser_error + deserializer" where
  "EndReadStringMapInternal d =
     (case ObjectStack d of
        ISMap m # st \<Rightarrow> Inr (d\<lparr>ObjectStack := st\<rparr>)
      | _ \<Rightarrow> Inl (Runtime_error ''Invalid call: Deserializer was not in a string map''))"

definition EndReadArray :: "deserializer \<Rightarrow> ser_error + deserializer" where
  "EndReadArray d = rbind (EndReadArrayInternal d) IncrementIterator"

definition EndReadUintMap :: "deserializer \<Rightarrow> ser_error + deserializer" where
  "EndReadUintMap d = rbind (EndReadUintMapInternal d) IncrementIterator"

definition EndReadStringMap :: "deserializer \<Rightarrow> ser_error + deserializer" where
  "EndReadStringMap d = rbind (EndReadStringMapInternal d) IncrementIterator"

definition ReadNextUintKeyValue :: "deserializer \<Rightarrow> ser_error + u64 \<times> sig_value" where
  "ReadNextUintKeyValue d =
     (case ObjectStack d of
        IUMap (kv # m) # st \<Rightarrow> Inr kv
      | IUMap [] # st \<Rightarrow> Inl Undefined
      | _ \<Rightarrow> Inl (Runtime_error ''Invalid call: Deserializer was not in a uint map''))"

definition ReadNextStringKeyValue :: "deserializer \<Rightarrow> ser_error + string \<times> sig_value" where
  "ReadNextStringKeyValue d =
     (case ObjectStack d of
        ISMap (kv # m) # st \<Rightarrow> Inr kv
      | ISMap [] # st \<Rightarrow> Inl Undefined
      | _ \<Rightarrow> Inl (Runtime_error ''Invalid call: Deserializer was not in a string map''))"

section \<open>Reading values\<close>

text \<open>
  A reader is \<open>ReadValueFromObject\<close> of one type: from the object and the deserialiser it is
  called on to the value read and the deserialiser left. The readers of basic types look at
  the object only; the vector and map readers ignore it and read the deserialiser's next value.
\<close>

type_synonym 'a reader = "sig_value \<Rightarrow> deserializer \<Rightarrow> ser_error + 'a \<times> deserializer"

definition read_double :: "float64 reader" where
  "read_double v d = (case v of SDouble x \<Rightarrow> Inr (x, d)
     | _ \<Rightarrow> Inl (Runtime_error ''Invalid call: Value was not a double''))"

definition read_float :: "float32 reader" where
  "read_float v d = (case v of SDouble x \<Rightarrow> Inr (narrow x, d)
     | _ \<Rightarrow> Inl (Runtime_error ''Invalid call: Value was not a double''))"

definition read_bool :: "bool reader" where
  "read_bool v d = (case v of SBool x \<Rightarrow> Inr (x, d)
     | _ \<Rightarrow> Inl (Runtime_error ''Invalid call: Value was not a bool''))"

definition read_string :: "string reader" where
  "read_string v d = (case v of SStr x \<Rightarrow> Inr (x, d)
     | _ \<Rightarrow> Inl (Runtime_error ''Invalid call: Value was not a string''))"

definition read_null :: "unit reader" where
  "read_null v d = (if v = SNull then Inr ((), d) else Inl (Runtime_error ''Invalid call: Value was not null''))"

text \<open>The integer readers, for a type with the given range.\<close>

definition read_signed :: "int \<Rightarrow> int \<Rightarrow> int reader" where
  "read_signed lo hi v d = (case v of
       SInt x \<Rightarrow> if hi < sint x \<or> sint x < lo
         then Inl (Runtime_error ''Invalid uinteger type: Value being deserialized is larger than the maximum value of the input type'')
         else Inr (sint x, d)
     | _ \<Rightarrow> Inl (Runtime_error ''Invalid call: Value was not an integer''))"

definition read_unsigned :: "nat \<Rightarrow> nat reader" where
  "read_unsigned hi v d = (case v of
       SUint x \<Rightarrow> if hi < unat x
         then Inl (Runtime_error ''Invalid uinteger type: Value being deserialized is larger than the maximum value of the input type'')
         else Inr (unat x, d)
     | _ \<Rightarrow> Inl (Runtime_error ''Invalid call: Value was not a uinteger''))"

definition read_int64 :: "u64 reader" where
  "read_int64 v d = rbind (read_signed (- (2 ^ 63)) (2 ^ 63 - 1) v d) (\<lambda>(i, d). Inr (word_of_int i, d))"

definition read_uint64 :: "u64 reader" where
  "read_uint64 v d = rbind (read_unsigned (2 ^ 64 - 1) v d) (\<lambda>(n, d). Inr (of_nat n, d))"

definition read_optional :: "'a reader \<Rightarrow> 'a option reader" where
  "read_optional rd v d =
     (if v = SNull then Inr (None, d) else rbind (rd v d) (\<lambda>(x, d). Inr (Some x, d)))"

text \<open>A type with its own \<open>Deserialize\<close> reads the object with a fresh deserialiser.\<close>

definition read_custom :: "(deserializer \<Rightarrow> ser_error + 'a \<times> deserializer) \<Rightarrow> 'a reader" where
  "read_custom deser v d = rbind (deser (new_deserializer v)) (\<lambda>(x, _). Inr (x, d))"

definition ReadValue :: "'a reader \<Rightarrow> deserializer \<Rightarrow> ser_error + 'a \<times> deserializer" where
  "ReadValue rd d =
     rbind (ReadNextValue d) (\<lambda>v.
     rbind (rd v d) (\<lambda>(x, d).
     rbind (IncrementIterator d) (\<lambda>d. Inr (x, d))))"

definition ReadKeyValue_uint :: "(u64 \<Rightarrow> 'k) \<Rightarrow> 'a reader \<Rightarrow> deserializer \<Rightarrow> ser_error + ('k \<times> 'a) \<times> deserializer" where
  "ReadKeyValue_uint cast rd d =
     rbind (ReadNextUintKeyValue d) (\<lambda>(k, v).
     rbind (rd v d) (\<lambda>(x, d).
     rbind (IncrementIterator d) (\<lambda>d. Inr ((cast k, x), d))))"

definition ReadKeyValue_string :: "'a reader \<Rightarrow> deserializer \<Rightarrow> ser_error + (string \<times> 'a) \<times> deserializer" where
  "ReadKeyValue_string rd d =
     rbind (ReadNextStringKeyValue d) (\<lambda>(k, v).
     rbind (rd v d) (\<lambda>(x, d).
     rbind (IncrementIterator d) (\<lambda>d. Inr ((k, x), d))))"

fun read_n :: "(deserializer \<Rightarrow> ser_error + 'a \<times> deserializer) \<Rightarrow> nat \<Rightarrow> deserializer
    \<Rightarrow> ser_error + 'a list \<times> deserializer" where
  "read_n rd 0 d = Inr ([], d)"
| "read_n rd (Suc n) d = rbind (rd d) (\<lambda>(x, d). rbind (read_n rd n d) (\<lambda>(xs, d). Inr (x # xs, d)))"

definition read_vector :: "'a reader \<Rightarrow> 'a list reader" where
  "read_vector rd v d =
     rbind (StartReadArray d) (\<lambda>(ArraySize, d).
     rbind (read_n (ReadValue rd) ArraySize d) (\<lambda>(xs, d).
     rbind (EndReadArrayInternal d) (\<lambda>d. Inr (xs, d))))"

definition omap_of_pairs :: "('k::linorder \<times> 'v) list \<Rightarrow> ('k, 'v) omap" where
  "omap_of_pairs kvs = foldl (\<lambda>m kv. omap_upd (fst kv) (snd kv) m) [] kvs"

definition read_uint_map :: "(u64 \<Rightarrow> 'k::linorder) \<Rightarrow> 'a reader \<Rightarrow> ('k, 'a) omap reader" where
  "read_uint_map cast rd v d =
     rbind (StartReadUintMap d) (\<lambda>(MapSize, d).
     rbind (read_n (ReadKeyValue_uint cast rd) MapSize d) (\<lambda>(kvs, d).
     rbind (EndReadUintMapInternal d) (\<lambda>d. Inr (omap_of_pairs kvs, d))))"

definition read_string_map :: "'a reader \<Rightarrow> (string, 'a) omap reader" where
  "read_string_map rd v d =
     rbind (StartReadStringMap d) (\<lambda>(MapSize, d).
     rbind (read_n (ReadKeyValue_string rd) MapSize d) (\<lambda>(kvs, d).
     rbind (EndReadStringMapInternal d) (\<lambda>d. Inr (omap_of_pairs kvs, d))))"

section \<open>What writing amounts to\<close>

text \<open>
  A value may be written at the root, in an array or as the value of a pair. There,
  \<open>emit\<close> is the effect of writing the SignalR value \<open>v\<close>, and \<open>writes_as w v\<close> says
  that \<open>w\<close> has exactly this effect, whatever containers it builds on the way.
\<close>

definition accepts :: "serializer \<Rightarrow> bool" where
  "accepts st = (case st of [] \<Rightarrow> True | CArr _ # _ \<Rightarrow> True | CUPair _ _ # _ \<Rightarrow> True
     | CSPair _ _ # _ \<Rightarrow> True | _ \<Rightarrow> False)"

definition emit :: "sig_value \<Rightarrow> serializer \<Rightarrow> serializer" where
  "emit v st = (case st of CArr xs # st' \<Rightarrow> CArr (xs @ [v]) # st' | CUPair k _ # st' \<Rightarrow> CUPair k v # st'
     | CSPair k _ # st' \<Rightarrow> CSPair k v # st' | _ \<Rightarrow> CVal v # st)"

definition writes_as :: "(serializer \<Rightarrow> ser_error + serializer) \<Rightarrow> sig_value \<Rightarrow> bool" where
  "writes_as w v \<longleftrightarrow> (\<forall>st. accepts st \<longrightarrow> w st = Inr (emit v st))"

lemma writes_asD: "writes_as w v \<Longrightarrow> accepts st \<Longrightarrow> w st = Inr (emit v st)"
  by (simp add: writes_as_def)

lemma accepts_simps [simp]:
  "accepts []" "accepts (CArr xs # st)" "accepts (CUPair k v # st)" "accepts (CSPair k' v # st)"
  by (simp_all add: accepts_def)

lemma emit_simps [simp]:
  "emit v [] = [CVal v]" "emit v (CArr xs # st) = CArr (xs @ [v]) # st"
  "emit v (CUPair k w # st) = CUPair k v # st" "emit v (CSPair k' w # st) = CSPair k' v # st"
  by (simp_all add: emit_def)

lemma writes_as_object [simp]: "writes_as (WriteObject v) v"
  by (auto simp: writes_as_def accepts_def emit_def WriteObject_def split: list.splits container.splits)

lemma Finalize_emit: "accepts st \<Longrightarrow> FinalizeContainerSerialization v st = Inr (emit v st)"
  by (auto simp: accepts_def emit_def FinalizeContainerSerialization_def split: list.splits container.splits)

lemma writes_as_basic [simp]:
  "writes_as (write_bool b) (SBool b)" "writes_as (write_int64 i) (SInt i)"
  "writes_as (write_uint64 n) (SUint n)" "writes_as (write_double x) (SDouble x)"
  "writes_as (write_float y) (SDouble (widen y))" "writes_as (write_string s) (SStr s)"
  by (simp_all add: write_bool_def write_int64_def write_uint64_def write_double_def
      write_float_def write_string_def)

lemma writes_as_optional:
  "(\<And>y. x = Some y \<Longrightarrow> writes_as (wr y) (enc y))
   \<Longrightarrow> writes_as (write_optional wr x) (case x of None \<Rightarrow> SNull | Some y \<Rightarrow> enc y)"
  by (cases x) (simp_all add: write_optional_def)

lemma write_all_array:
  "\<forall>x \<in> set xs. writes_as (wr x) (enc x)
   \<Longrightarrow> write_all wr xs (CArr ys # st) = Inr (CArr (ys @ map enc xs) # st)"
proof (induction xs arbitrary: ys)
  case (Cons x xs)
  have "wr x (CArr ys # st) = Inr (emit (enc x) (CArr ys # st))"
    using Cons.prems by (intro writes_asD) auto
  with Cons show ?case by simp
qed simp

lemma writes_as_vector:
  "\<forall>x \<in> set xs. writes_as (wr x) (enc x) \<Longrightarrow> writes_as (write_vector wr xs) (SArr (map enc xs))"
  using write_all_array [of xs wr enc "[]"]
  by (simp add: writes_as_def [of "write_vector wr xs"] write_vector_def StartWriteArray_def
      EndWriteArray_def Finalize_emit)

lemma write_all_uint_map:
  "\<forall>kv \<in> set m. writes_as (wr (snd kv)) (enc (snd kv))
   \<Longrightarrow> write_all (WriteKeyValue_uint cast wr) m (CUMap acc # st)
     = Inr (CUMap (foldl (\<lambda>a kv. omap_upd (fst kv) (snd kv) a) acc
          (map (\<lambda>kv. (cast (fst kv), enc (snd kv))) m)) # st)"
proof (induction m arbitrary: acc)
  case (Cons kv m)
  let ?st = "CUPair (cast (fst kv)) SNull # CUMap acc # st"
  have "wr (snd kv) ?st = Inr (emit (enc (snd kv)) ?st)"
    using Cons.prems by (intro writes_asD) auto
  with Cons show ?case by (simp add: WriteKeyValue_uint_def)
qed simp

lemma write_all_string_map:
  "\<forall>kv \<in> set m. writes_as (wr (snd kv)) (enc (snd kv))
   \<Longrightarrow> write_all (WriteKeyValue_string wr) m (CSMap acc # st)
     = Inr (CSMap (foldl (\<lambda>a kv. omap_upd (fst kv) (snd kv) a) acc
          (map (\<lambda>kv. (fst kv, enc (snd kv))) m)) # st)"
proof (induction m arbitrary: acc)
  case (Cons kv m)
  let ?st = "CSPair (fst kv) SNull # CSMap acc # st"
  have "wr (snd kv) ?st = Inr (emit (enc (snd kv)) ?st)"
    using Cons.prems by (intro writes_asD) auto
  with Cons show ?case by (simp add: WriteKeyValue_string_def)
qed simp

lemma omap_ok_map_keys:
  fixes m :: "('k::linorder, 'v) omap" and cast :: "'k \<Rightarrow> 'l::linorder"
  assumes "omap_ok m" "strict_mono cast"
  shows "omap_ok (map (\<lambda>kv. (cast (fst kv), f (snd kv))) m)"
  using assms by (induction m) (auto simp: strict_mono_def, fastforce)

lemma writes_as_uint_map:
  assumes "\<forall>kv \<in> set m. writes_as (wr (snd kv)) (enc (snd kv))" "omap_ok m" "strict_mono cast"
  shows "writes_as (write_uint_map cast wr m) (SUMap (map (\<lambda>kv. (cast (fst kv), enc (snd kv))) m))"
  using assms omap_ok_map_keys [OF assms(2,3), of enc]
  by (simp add: writes_as_def [of "write_uint_map cast wr m"] write_uint_map_def StartWriteUintMap_def write_all_uint_map [of _ _ enc]
      EndWriteUintMap_def Finalize_emit foldl_omap_upd [of "[]", simplified])

lemma writes_as_string_map:
  assumes "\<forall>kv \<in> set m. writes_as (wr (snd kv)) (enc (snd kv))" "omap_ok m"
  shows "writes_as (write_string_map wr m) (SSMap (map (\<lambda>kv. (fst kv, enc (snd kv))) m))"
  using assms omap_ok_map_keys [OF assms(2), of id enc]
  by (simp add: writes_as_def [of "write_string_map wr m"] write_string_map_def StartWriteStringMap_def write_all_string_map [of _ _ enc]
      EndWriteStringMap_def Finalize_emit foldl_omap_upd [of "[]", simplified] strict_mono_def)

lemma Serializer_Get_root [simp]: "Serializer_Get [CVal v] = Inr v"
  by (simp add: Serializer_Get_def)

section \<open>What reading amounts to\<close>

text \<open>
  \<open>reads rd v x\<close>: on a deserialiser whose next value is \<open>v\<close>, the reader yields \<open>x\<close> and
  leaves the deserialiser where it was. \<open>reads_any\<close> is the same without the condition, which
  only the readers that look at their object alone satisfy.
\<close>

definition reads :: "'a reader \<Rightarrow> sig_value \<Rightarrow> 'a \<Rightarrow> bool" where
  "reads rd v x \<longleftrightarrow> (\<forall>d. ReadNextValue d = Inr v \<longrightarrow> rd v d = Inr (x, d))"

definition reads_any :: "'a reader \<Rightarrow> sig_value \<Rightarrow> 'a \<Rightarrow> bool" where
  "reads_any rd v x \<longleftrightarrow> (\<forall>d. rd v d = Inr (x, d))"

lemma reads_any_imp_reads: "reads_any rd v x \<Longrightarrow> reads rd v x"
  by (simp add: reads_any_def reads_def)

abbreviation in_array :: "sig_value list \<Rightarrow> deserializer \<Rightarrow> iter list \<Rightarrow> deserializer" where
  "in_array vs d st \<equiv> d\<lparr>ObjectStack := IArr vs # st\<rparr>"

lemma in_array_simps [simp]:
  "ReadNextValue (in_array (v # vs) d st) = Inr v"
  "IncrementIterator (in_array (v # vs) d st) = Inr (in_array vs d st)"
  "IncrementIterator (d\<lparr>ObjectStack := IUMap (kv # m) # st\<rparr>) = Inr (d\<lparr>ObjectStack := IUMap m # st\<rparr>)"
  "IncrementIterator (d\<lparr>ObjectStack := ISMap (kv' # m') # st\<rparr>) = Inr (d\<lparr>ObjectStack := ISMap m' # st\<rparr>)"
  "ReadNextUintKeyValue (d\<lparr>ObjectStack := IUMap (kv # m) # st\<rparr>) = Inr kv"
  "ReadNextStringKeyValue (d\<lparr>ObjectStack := ISMap (kv' # m') # st\<rparr>) = Inr kv'"
  by (simp_all add: ReadNextValue_def IncrementIterator_def ReadNextUintKeyValue_def ReadNextStringKeyValue_def)

lemma root_simps [simp]:
  "ReadNextValue (new_deserializer v) = Inr v"
  "IncrementIterator (new_deserializer v) = Inr (new_deserializer v)"
  "ObjectStack (new_deserializer v) = [INull]" "Root (new_deserializer v) = v"
  "new_deserializer v\<lparr>ObjectStack := [INull]\<rparr> = new_deserializer v"
  by (simp_all add: ReadNextValue_def IncrementIterator_def new_deserializer_def)

lemma ReadValue_array:
  "reads rd v x \<Longrightarrow> ReadValue rd (in_array (v # vs) d st) = Inr (x, in_array vs d st)"
  by (simp add: ReadValue_def reads_def)

lemma ReadValue_root: "reads rd v x \<Longrightarrow> ReadValue rd (new_deserializer v) = Inr (x, new_deserializer v)"
  by (simp add: ReadValue_def reads_def)

lemma StartReadArray_next:
  "ReadNextValue d = Inr (SArr vs) \<Longrightarrow> StartReadArray d = Inr (length vs, in_array vs d (ObjectStack d))"
  by (simp add: StartReadArray_def push_iter_def)

lemma StartReadUintMap_next:
  "ReadNextValue d = Inr (SUMap m)
   \<Longrightarrow> StartReadUintMap d = Inr (length m, d\<lparr>ObjectStack := IUMap m # ObjectStack d\<rparr>)"
  by (simp add: StartReadUintMap_def push_iter_def)

lemma StartReadStringMap_next:
  "ReadNextValue d = Inr (SSMap m)
   \<Longrightarrow> StartReadStringMap d = Inr (length m, d\<lparr>ObjectStack := ISMap m # ObjectStack d\<rparr>)"
  by (simp add: StartReadStringMap_def push_iter_def)

lemma EndRead_simps [simp]:
  "EndReadArrayInternal (in_array vs d st) = Inr (d\<lparr>ObjectStack := st\<rparr>)"
  "EndReadUintMapInternal (d\<lparr>ObjectStack := IUMap m # st\<rparr>) = Inr (d\<lparr>ObjectStack := st\<rparr>)"
  "EndReadStringMapInternal (d\<lparr>ObjectStack := ISMap m' # st\<rparr>) = Inr (d\<lparr>ObjectStack := st\<rparr>)"
  by (simp_all add: EndReadArrayInternal_def EndReadUintMapInternal_def EndReadStringMapInternal_def)

lemma EndReadArray_simps [simp]:
  "EndReadArray (in_array vs d st) = IncrementIterator (d\<lparr>ObjectStack := st\<rparr>)"
  by (simp add: EndReadArray_def)

lemma read_n_array:
  "list_all2 (reads rd) vs xs
   \<Longrightarrow> read_n (ReadValue rd) (length vs) (in_array vs d st) = Inr (xs, in_array [] d st)"
  by (induction rule: list_all2_induct) (simp_all add: ReadValue_array)

lemma reads_vector:
  "list_all2 (reads rd) vs xs \<Longrightarrow> reads (read_vector rd) (SArr vs) xs"
  by (simp add: reads_def read_vector_def StartReadArray_next read_n_array)

lemma read_n_uint_map:
  "list_all2 (\<lambda>kv kx. cast (fst kv) = fst kx \<and> reads_any rd (snd kv) (snd kx)) m xs
   \<Longrightarrow> read_n (ReadKeyValue_uint cast rd) (length m) (d\<lparr>ObjectStack := IUMap m # st\<rparr>)
     = Inr (xs, d\<lparr>ObjectStack := IUMap [] # st\<rparr>)"
proof (induction rule: list_all2_induct)
  case (Cons kv m kx xs)
  have "ReadKeyValue_uint cast rd (d\<lparr>ObjectStack := IUMap (kv # m) # st\<rparr>)
    = Inr (kx, d\<lparr>ObjectStack := IUMap m # st\<rparr>)"
    using Cons.hyps(1) by (cases kv; cases kx) (simp add: ReadKeyValue_uint_def reads_any_def)
  with Cons.IH show ?case by simp
qed simp

lemma read_n_string_map:
  "list_all2 (\<lambda>kv kx. fst kv = fst kx \<and> reads_any rd (snd kv) (snd kx)) m xs
   \<Longrightarrow> read_n (ReadKeyValue_string rd) (length m) (d\<lparr>ObjectStack := ISMap m # st\<rparr>)
     = Inr (xs, d\<lparr>ObjectStack := ISMap [] # st\<rparr>)"
proof (induction rule: list_all2_induct)
  case (Cons kv m kx xs)
  have "ReadKeyValue_string rd (d\<lparr>ObjectStack := ISMap (kv # m) # st\<rparr>)
    = Inr (kx, d\<lparr>ObjectStack := ISMap m # st\<rparr>)"
    using Cons.hyps(1) by (cases kv; cases kx) (simp add: ReadKeyValue_string_def reads_any_def)
  with Cons.IH show ?case by simp
qed simp

lemma omap_of_pairs_id: "omap_ok m \<Longrightarrow> omap_of_pairs m = m"
  unfolding omap_of_pairs_def using foldl_omap_upd [of "[]" m] by simp

lemma reads_uint_map:
  "list_all2 (\<lambda>kv kx. cast (fst kv) = fst kx \<and> reads_any rd (snd kv) (snd kx)) m xs \<Longrightarrow> omap_ok xs
   \<Longrightarrow> reads (read_uint_map cast rd) (SUMap m) xs"
  by (simp add: reads_def read_uint_map_def StartReadUintMap_next read_n_uint_map omap_of_pairs_id)

lemma reads_string_map:
  "list_all2 (\<lambda>kv kx. fst kv = fst kx \<and> reads_any rd (snd kv) (snd kx)) m xs \<Longrightarrow> omap_ok xs
   \<Longrightarrow> reads (read_string_map rd) (SSMap m) xs"
  by (simp add: reads_def read_string_map_def StartReadStringMap_next read_n_string_map omap_of_pairs_id)

lemma reads_any_basic [simp]:
  "reads_any read_bool (SBool b) b" "reads_any read_int64 (SInt i) i" "reads_any read_uint64 (SUint n) n"
  "reads_any read_double (SDouble x) x" "reads_any read_string (SStr s) s"
  "reads_any read_float (SDouble x) (narrow x)"
proof -
  have "sint i < 2 ^ 63" "- (2 ^ 63) \<le> sint i"
    using sint_lt [of i] sint_ge [of i] by simp_all
  then show "reads_any read_int64 (SInt i) i"
    by (simp add: reads_any_def read_int64_def read_signed_def)
  have "unat n < 2 ^ 64" using unsigned_less [of n] by simp
  then show "reads_any read_uint64 (SUint n) n"
    by (simp add: reads_any_def read_uint64_def read_unsigned_def)
qed (simp_all add: reads_any_def read_bool_def read_double_def read_string_def read_float_def)

lemma reads_any_optional:
  assumes "\<And>y. x = Some y \<Longrightarrow> reads_any rd (enc y) y \<and> enc y \<noteq> SNull"
  shows "reads_any (read_optional rd) (case x of None \<Rightarrow> SNull | Some y \<Rightarrow> enc y) x"
  using assms by (cases x) (simp_all add: reads_any_def read_optional_def)

section \<open>The serialisable contract\<close>

text \<open>
  What \<open>ISignalRSerializable\<close> and \<open>ISignalRDeserializable\<close> promise for a message type: writing
  amounts to emitting one encoding, whatever the serialiser is in the middle of, and
  deserialising the encoding gives the message back.
\<close>

locale signalr_codec =
  fixes ser :: "'a writer"
    and deser :: "deserializer \<Rightarrow> ser_error + 'a \<times> deserializer"
    and enc :: "'a \<Rightarrow> sig_value"
    and valid :: "'a \<Rightarrow> bool"
  assumes write_enc: "valid x \<Longrightarrow> writes_as (ser x) (enc x)"
    and deser_enc: "valid x \<Longrightarrow> \<exists>d. deser (new_deserializer (enc x)) = Inr (x, d)"
begin

lemma write_root: "valid x \<Longrightarrow> rbind (ser x []) Serializer_Get = Inr (enc x)"
  using write_enc [of x] by (simp add: writes_asD)

lemma roundtrip:
  "valid x \<Longrightarrow> rbind (rbind (ser x []) Serializer_Get) (\<lambda>v. map_sum id fst (deser (new_deserializer v))) = Inr x"
  using deser_enc [of x] by (auto simp: write_root)

lemma reads_custom: "valid x \<Longrightarrow> reads_any (read_custom deser) (enc x) x"
  using deser_enc [of x] by (auto simp: reads_any_def read_custom_def)

lemma vector_writes: "\<forall>x \<in> set xs. valid x \<Longrightarrow> writes_as (write_vector ser xs) (SArr (map enc xs))"
  by (rule writes_as_vector) (simp add: write_enc)

lemma vector_roundtrip:
  assumes "\<forall>x \<in> set xs. valid x"
  shows "rbind (rbind (write_vector ser xs []) Serializer_Get)
    (\<lambda>v. map_sum id fst (ReadValue (read_vector (read_custom deser)) (new_deserializer v))) = Inr xs"
proof -
  have "list_all2 (reads (read_custom deser)) (map enc xs) xs"
    using assms by (simp add: list_all2_conv_all_nth reads_any_imp_reads reads_custom)
  then show ?thesis
    using vector_writes [OF assms] by (simp add: writes_asD ReadValue_root [OF reads_vector])
qed

lemma enc_inj:
  assumes "valid x" "valid y" "enc x = enc y"
  shows "x = y"
proof -
  obtain d where "deser (new_deserializer (enc y)) = Inr (x, d)"
    using deser_enc [OF assms(1)] unfolding assms(3) by blast
  moreover obtain d' where "deser (new_deserializer (enc y)) = Inr (y, d')" using deser_enc [OF assms(2)] by blast
  ultimately show ?thesis by simp
qed

end

end
