(* ===== verification/Mcs_Types.thy ===== *)
theory Mcs_Types
  imports Signalr_Serializer
begin

text \<open>
  The messages exchanged with the multiplayer service
  (\<open>src/Multiplayer/MCS/MCSTypes.h\<close> and \<open>.cpp\<close>): a component value with its type tag,
  the message that creates an object and the patch that updates one. A component value nests
  values in dictionaries, so its \<open>Deserialize\<close> recurses into the values it reads; the model
  gives the recursion fuel, and the size of the value read is shown to be enough of it.
\<close>

section \<open>Component values\<close>

datatype icd =
    IBool bool
  | IInt u64 \<comment> \<open>\<open>int64_t\<close>\<close>
  | IUint u64
  | IFloat float32
  | IFloatArr "float32 list"
  | IDouble float64
  | IStr string
  | IU16Dict "(u16 \<times> icd) list"
  | IStrDict "(string \<times> icd) list"

text \<open>\<open>ItemComponentDataType\<close>, as the integers that are sent.\<close>

definition DT_BOOL :: u64 where "DT_BOOL = 0"
definition DT_INT64 :: u64 where "DT_INT64 = 16"
definition DT_UINT64 :: u64 where "DT_UINT64 = 20"
definition DT_FLOAT :: u64 where "DT_FLOAT = 24"
definition DT_FLOAT_ARRAY :: u64 where "DT_FLOAT_ARRAY = 26"
definition DT_DOUBLE :: u64 where "DT_DOUBLE = 28"
definition DT_STRING :: u64 where "DT_STRING = 32"
definition DT_UINT16_DICTIONARY :: u64 where "DT_UINT16_DICTIONARY = 54"
definition DT_STRING_DICTIONARY :: u64 where "DT_STRING_DICTIONARY = 55"

lemmas dt_defs = DT_BOOL_def DT_INT64_def DT_UINT64_def DT_FLOAT_def DT_FLOAT_ARRAY_def
  DT_DOUBLE_def DT_STRING_def DT_UINT16_DICTIONARY_def DT_STRING_DICTIONARY_def

fun GetComponentEnum :: "icd \<Rightarrow> u64" where
  "GetComponentEnum (IBool _) = DT_BOOL"
| "GetComponentEnum (IInt _) = DT_INT64"
| "GetComponentEnum (IUint _) = DT_UINT64"
| "GetComponentEnum (IFloat _) = DT_FLOAT"
| "GetComponentEnum (IFloatArr _) = DT_FLOAT_ARRAY"
| "GetComponentEnum (IDouble _) = DT_DOUBLE"
| "GetComponentEnum (IStr _) = DT_STRING"
| "GetComponentEnum (IU16Dict _) = DT_UINT16_DICTIONARY"
| "GetComponentEnum (IStrDict _) = DT_STRING_DICTIONARY"

subsection \<open>Writing\<close>

lemma write_all_cong:
  "xs = ys \<Longrightarrow> st = st' \<Longrightarrow> (\<And>x st. x \<in> set ys \<Longrightarrow> f x st = g x st)
   \<Longrightarrow> write_all f xs st = write_all g ys st'"
  unfolding rbind.simps by (induction xs arbitrary: ys st st') (auto intro!: rbind_cong)

lemma write_uint_map_cong [fundef_cong]:
  "cast = cast' \<Longrightarrow> m = m' \<Longrightarrow> st = st' \<Longrightarrow> (\<And>kv st. kv \<in> set m' \<Longrightarrow> f (snd kv) st = g (snd kv) st)
   \<Longrightarrow> write_uint_map cast f m st = write_uint_map cast' g m' st'"
  unfolding write_uint_map_def
  by (intro rbind_cong write_all_cong) (auto simp: WriteKeyValue_uint_def split: list.splits container.splits)

lemma write_string_map_cong [fundef_cong]:
  "m = m' \<Longrightarrow> st = st' \<Longrightarrow> (\<And>kv st. kv \<in> set m' \<Longrightarrow> f (snd kv) st = g (snd kv) st)
   \<Longrightarrow> write_string_map f m st = write_string_map g m' st'"
  unfolding write_string_map_def
  by (intro rbind_cong write_all_cong) (auto simp: WriteKeyValue_string_def split: list.splits container.splits)

lemma size_dict_elem: "kv \<in> set m \<Longrightarrow> size (snd kv) < Suc (size_list (size_prod f size) m)"
  by (induction m) (auto simp: less_Suc_eq_le)

function (sequential) ItemComponentData_Serialize :: "icd writer"
  and SerializeComponentData :: "icd writer" where
  "ItemComponentData_Serialize x st =
     rbind (write_uint64 (GetComponentEnum x) (StartWriteArray st)) (\<lambda>st.
     rbind (SerializeComponentData x (StartWriteArray st)) (\<lambda>st.
     rbind (EndWriteArray st) EndWriteArray))"
| "SerializeComponentData (IBool b) st = write_bool b st"
| "SerializeComponentData (IInt i) st = write_int64 i st"
| "SerializeComponentData (IUint n) st = write_uint64 n st"
| "SerializeComponentData (IFloat x) st = write_float x st"
| "SerializeComponentData (IFloatArr xs) st = write_vector write_float xs st"
| "SerializeComponentData (IDouble x) st = write_double x st"
| "SerializeComponentData (IStr s) st = write_string s st"
| "SerializeComponentData (IU16Dict m) st = write_uint_map ucast ItemComponentData_Serialize m st"
| "SerializeComponentData (IStrDict m) st = write_string_map ItemComponentData_Serialize m st"
  by pat_completeness auto
termination
  by (relation "measure (case_sum (\<lambda>(x, st). 2 * size x + 1) (\<lambda>(x, st). 2 * size x))")
    (auto dest!: size_dict_elem [of _ _ "\<lambda>_. 0"])

subsection \<open>Reading\<close>

definition read_as :: "('a \<Rightarrow> icd) \<Rightarrow> 'a reader \<Rightarrow> deserializer \<Rightarrow> ser_error + icd \<times> deserializer" where
  "read_as mk rd d = rbind (ReadValue rd d) (\<lambda>(x, d). Inr (mk x, d))"

definition DeserializeComponentData ::
  "(deserializer \<Rightarrow> ser_error + icd \<times> deserializer) \<Rightarrow> u64 \<Rightarrow> deserializer \<Rightarrow> ser_error + icd \<times> deserializer" where
  "DeserializeComponentData Deserialize Type d =
     (if Type = DT_BOOL then read_as IBool read_bool d
      else if Type = DT_INT64 then
        rbind (NextValueIsInt d) (\<lambda>b. if b then read_as IInt read_int64 d else read_as IUint read_uint64 d)
      else if Type = DT_UINT64 then
        rbind (NextValueIsUint d) (\<lambda>b. if b then read_as IUint read_uint64 d else read_as IInt read_int64 d)
      else if Type = DT_DOUBLE then read_as IDouble read_double d
      else if Type = DT_FLOAT then read_as IFloat read_float d
      else if Type = DT_FLOAT_ARRAY then read_as IFloatArr (read_vector read_float) d
      else if Type = DT_STRING then read_as IStr read_string d
      else if Type = DT_UINT16_DICTIONARY then
        rbind (NextValueIsNull d) (\<lambda>b.
          if b then rbind (Skip d) (\<lambda>d. Inr (IU16Dict [], d))
          else read_as IU16Dict (read_uint_map ucast (read_custom Deserialize)) d)
      else if Type = DT_STRING_DICTIONARY then
        rbind (NextValueIsNull d) (\<lambda>b.
          if b then rbind (Skip d) (\<lambda>d. Inr (IStrDict [], d))
          else read_as IStrDict (read_string_map (read_custom Deserialize)) d)
      else Inl (Invalid_argument ''Trying to deserialize unsupported ItemComponentDataType''))"

fun icd_deserialize :: "nat \<Rightarrow> deserializer \<Rightarrow> ser_error + icd \<times> deserializer" where
  "icd_deserialize 0 d = Inl Out_of_fuel"
| "icd_deserialize (Suc fuel) d =
     rbind (StartReadArray d) (\<lambda>(_, d).
     rbind (ReadValue read_uint64 d) (\<lambda>(RawType, d).
     rbind (StartReadArray d) (\<lambda>(_, d).
     rbind (DeserializeComponentData (icd_deserialize fuel) RawType d) (\<lambda>(x, d).
     rbind (EndReadArray d) (\<lambda>d.
     rbind (EndReadArray d) (\<lambda>d. Inr (x, d)))))))"

text \<open>Always called on a fresh deserialiser, whose root bounds the depth of the recursion.\<close>

definition ItemComponentData_Deserialize :: "deserializer \<Rightarrow> ser_error + icd \<times> deserializer" where
  "ItemComponentData_Deserialize d = icd_deserialize (Suc (size (Root d))) d"

section \<open>Object messages and patches\<close>

record ObjectMessage =
  om_Id :: u64
  om_Type :: u64
  om_IsTransferable :: bool
  om_IsPersistent :: bool
  om_OwnerId :: u64
  om_ParentId :: "u64 option"
  om_Components :: "(u16, icd) omap option"

record ObjectPatch =
  op_Id :: u64
  op_OwnerId :: u64
  op_Destroy :: bool
  op_ShouldUpdateParent :: bool
  op_ParentId :: "u64 option"
  op_Components :: "(u16, icd) omap option"

definition write_components :: "(u16, icd) omap option writer" where
  "write_components = write_optional (write_uint_map ucast ItemComponentData_Serialize)"

definition ObjectMessage_Serialize :: "ObjectMessage writer" where
  "ObjectMessage_Serialize m st =
     rbind (write_uint64 (om_Id m) (StartWriteArray st)) (\<lambda>st.
     rbind (write_uint64 (om_Type m) st) (\<lambda>st.
     rbind (write_bool (om_IsTransferable m) st) (\<lambda>st.
     rbind (write_bool (om_IsPersistent m) st) (\<lambda>st.
     rbind (write_uint64 (om_OwnerId m) st) (\<lambda>st.
     rbind (write_optional write_uint64 (om_ParentId m) st) (\<lambda>st.
     rbind (write_components (om_Components m) st) EndWriteArray))))))"

definition ObjectPatch_Serialize :: "ObjectPatch writer" where
  "ObjectPatch_Serialize p st =
     rbind (write_uint64 (op_Id p) (StartWriteArray st)) (\<lambda>st.
     rbind (write_uint64 (op_OwnerId p) st) (\<lambda>st.
     rbind (write_bool (op_Destroy p) st) (\<lambda>st.
     rbind (write_bool (op_ShouldUpdateParent p) (StartWriteArray st)) (\<lambda>st.
     rbind (write_optional write_uint64 (op_ParentId p) st) (\<lambda>st.
     rbind (EndWriteArray st) (\<lambda>st.
     rbind (write_components (op_Components p) st) EndWriteArray))))))"

text \<open>
  The component loop: the \<open>try\<close> block reads one pair; an exception is swallowed and the
  iterator stays where it is, since the reader that throws has not advanced it.
\<close>

fun caught :: "ser_error \<Rightarrow> bool" where
  "caught (Runtime_error _) = True"
| "caught (Invalid_argument _) = True"
| "caught Bad_variant_access = True"
| "caught Undefined = False"
| "caught Out_of_fuel = False"

fun read_components :: "nat \<Rightarrow> deserializer \<Rightarrow> (u16, icd) omap \<Rightarrow> ser_error + (u16, icd) omap \<times> deserializer" where
  "read_components 0 d Components = Inr (Components, d)"
| "read_components (Suc n) d Components =
     (case ReadKeyValue_uint ucast (read_custom ItemComponentData_Deserialize) d of
        Inr ((k, x), d) \<Rightarrow> read_components n d (omap_upd k x Components)
      | Inl e \<Rightarrow> if caught e then read_components n d Components else Inl e)"

definition DeserializeComponents :: "deserializer \<Rightarrow> ser_error + (u16, icd) omap option \<times> deserializer" where
  "DeserializeComponents d =
     rbind (NextValueIsNull d) (\<lambda>is_null.
       if \<not> is_null then
         rbind (StartReadUintMap d) (\<lambda>(ComponentsSize, d).
         rbind (read_components ComponentsSize d []) (\<lambda>(Components, d).
         rbind (EndReadUintMap d) (\<lambda>d. Inr (Some Components, d))))
       else rbind (Skip d) (\<lambda>d. Inr (None, d)))"

definition ObjectMessage_Deserialize :: "deserializer \<Rightarrow> ser_error + ObjectMessage \<times> deserializer" where
  "ObjectMessage_Deserialize d =
     rbind (StartReadArray d) (\<lambda>(_, d).
     rbind (ReadValue read_uint64 d) (\<lambda>(Id, d).
     rbind (ReadValue read_uint64 d) (\<lambda>(Type, d).
     rbind (ReadValue read_bool d) (\<lambda>(IsTransferable, d).
     rbind (ReadValue read_bool d) (\<lambda>(IsPersistent, d).
     rbind (ReadValue read_uint64 d) (\<lambda>(OwnerId, d).
     rbind (ReadValue (read_optional read_uint64) d) (\<lambda>(ParentId, d).
     rbind (DeserializeComponents d) (\<lambda>(Components, d).
     rbind (EndReadArray d) (\<lambda>d.
       Inr (\<lparr>om_Id = Id, om_Type = Type, om_IsTransferable = IsTransferable,
             om_IsPersistent = IsPersistent, om_OwnerId = OwnerId, om_ParentId = ParentId,
             om_Components = Components\<rparr>, d))))))))))"

text \<open>Without a parent array the two parent fields keep the defaults of a fresh patch.\<close>

definition ObjectPatch_Deserialize :: "deserializer \<Rightarrow> ser_error + ObjectPatch \<times> deserializer" where
  "ObjectPatch_Deserialize d =
     rbind (StartReadArray d) (\<lambda>(_, d).
     rbind (ReadValue read_uint64 d) (\<lambda>(Id, d).
     rbind (ReadValue read_uint64 d) (\<lambda>(OwnerId, d).
     rbind (ReadValue read_bool d) (\<lambda>(Destroy, d).
     rbind (NextValueIsNull d) (\<lambda>is_null.
     rbind (if \<not> is_null then
              rbind (StartReadArray d) (\<lambda>(_, d).
              rbind (ReadValue read_bool d) (\<lambda>(ShouldUpdateParent, d).
              rbind (ReadValue (read_optional read_uint64) d) (\<lambda>(ParentId, d).
              rbind (EndReadArray d) (\<lambda>d. Inr ((ShouldUpdateParent, ParentId), d)))))
            else Inr ((False, None), d)) (\<lambda>((ShouldUpdateParent, ParentId), d).
     rbind (DeserializeComponents d) (\<lambda>(Components, d).
     rbind (EndReadArray d) (\<lambda>d.
       Inr (\<lparr>op_Id = Id, op_OwnerId = OwnerId, op_Destroy = Destroy,
             op_ShouldUpdateParent = ShouldUpdateParent, op_ParentId = ParentId,
             op_Components = Components\<rparr>, d)))))))))"

section \<open>The encoding of component values\<close>

fun icd_enc :: "icd \<Rightarrow> sig_value" and icd_payload :: "icd \<Rightarrow> sig_value" where
  "icd_enc x = SArr [SUint (GetComponentEnum x), SArr [icd_payload x]]"
| "icd_payload (IBool b) = SBool b"
| "icd_payload (IInt i) = SInt i"
| "icd_payload (IUint n) = SUint n"
| "icd_payload (IFloat x) = SDouble (widen x)"
| "icd_payload (IFloatArr xs) = SArr (map (\<lambda>x. SDouble (widen x)) xs)"
| "icd_payload (IDouble x) = SDouble x"
| "icd_payload (IStr s) = SStr s"
| "icd_payload (IU16Dict m) = SUMap (map (\<lambda>kv. (ucast (fst kv), icd_enc (snd kv))) m)"
| "icd_payload (IStrDict m) = SSMap (map (\<lambda>kv. (fst kv, icd_enc (snd kv))) m)"

text \<open>Dictionaries in key order, no signalling NaN (which no arithmetic of the code produces).\<close>

fun icd_ok :: "icd \<Rightarrow> bool" where
  "icd_ok (IFloat x) \<longleftrightarrow> f32_quiet x = x"
| "icd_ok (IFloatArr xs) \<longleftrightarrow> (\<forall>x \<in> set xs. f32_quiet x = x)"
| "icd_ok (IU16Dict m) \<longleftrightarrow> omap_ok m \<and> (\<forall>kv \<in> set m. icd_ok (snd kv))"
| "icd_ok (IStrDict m) \<longleftrightarrow> omap_ok m \<and> (\<forall>kv \<in> set m. icd_ok (snd kv))"
| "icd_ok _ \<longleftrightarrow> True"

declare icd_enc.simps [simp del] ItemComponentData_Serialize.simps [simp del]

lemma unat_ucast_u16: "unat (ucast (k :: u16) :: u64) = unat k"
proof -
  have "unat k < 2 ^ 64" by (rule order_less_le_trans [OF unsigned_less]) simp
  then show ?thesis by (simp add: unsigned_ucast_eq take_bit_nat_eq_self)
qed

lemma strict_mono_ucast_u16: "strict_mono (ucast :: u16 \<Rightarrow> u64)"
  by (simp add: strict_mono_def word_less_nat_alt unat_ucast_u16)

lemma ucast_u16_u64 [simp]: "ucast (ucast (k :: u16) :: u64) = k"
  by (rule word_unat_eq_iff [THEN iffD2])
    (simp add: unsigned_ucast_eq unat_ucast_u16 take_bit_word_eq_self)

lemma component_data_writes:
  "icd_ok x \<Longrightarrow> writes_as (SerializeComponentData x) (icd_payload x)
     \<and> writes_as (ItemComponentData_Serialize x) (icd_enc x)"
proof (induction x)
  have wrap: "writes_as (ItemComponentData_Serialize x) (icd_enc x)"
    if "writes_as (SerializeComponentData x) (icd_payload x)" for x
    using that by (simp add: writes_as_def ItemComponentData_Serialize.simps icd_enc.simps
        write_uint64_def WriteObject_def StartWriteArray_def EndWriteArray_def Finalize_emit)
  note basic = writes_as_basic [unfolded writes_as_def]
  { case (IBool b) show ?case by (intro conjI wrap) (simp_all add: writes_as_def basic) }
  { case (IInt b) show ?case by (intro conjI wrap) (simp_all add: writes_as_def basic) }
  { case (IUint b) show ?case by (intro conjI wrap) (simp_all add: writes_as_def basic) }
  { case (IFloat b) show ?case by (intro conjI wrap) (simp_all add: writes_as_def basic) }
  { case (IDouble b) show ?case by (intro conjI wrap) (simp_all add: writes_as_def basic) }
  { case (IStr b) show ?case by (intro conjI wrap) (simp_all add: writes_as_def basic) }
  { case (IFloatArr xs)
    have "writes_as (write_vector write_float xs) (icd_payload (IFloatArr xs))"
      using writes_as_vector [of xs write_float "\<lambda>x. SDouble (widen x)"] by simp
    then show ?case by (intro conjI wrap) (simp_all add: writes_as_def) }
  { case (IU16Dict m)
    have "\<forall>kv \<in> set m. writes_as (ItemComponentData_Serialize (snd kv)) (icd_enc (snd kv))"
      using IU16Dict by (auto intro: snds.intros)
    then have "writes_as (write_uint_map ucast ItemComponentData_Serialize m) (icd_payload (IU16Dict m))"
      using IU16Dict.prems writes_as_uint_map [OF _ _ strict_mono_ucast_u16, of m ItemComponentData_Serialize icd_enc]
      by simp
    then show ?case by (intro conjI wrap) (simp_all add: writes_as_def) }
  { case (IStrDict m)
    have "\<forall>kv \<in> set m. writes_as (ItemComponentData_Serialize (snd kv)) (icd_enc (snd kv))"
      using IStrDict by (auto intro: snds.intros)
    then have "writes_as (write_string_map ItemComponentData_Serialize m) (icd_payload (IStrDict m))"
      using IStrDict.prems writes_as_string_map [of m ItemComponentData_Serialize icd_enc] by simp
    then show ?case by (intro conjI wrap) (simp_all add: writes_as_def) }
qed

section \<open>Decoding the encoding\<close>

lemma read_as_next:
  "reads rd v x \<Longrightarrow> read_as mk rd (in_array (v # vs) d st) = Inr (mk x, in_array vs d st)"
  by (simp add: read_as_def ReadValue_array)

lemma NextValueIs_simps [simp]:
  "NextValueIsInt (in_array (v # vs) d st) = Inr (case v of SInt i \<Rightarrow> True | _ \<Rightarrow> False)"
  "NextValueIsUint (in_array (v # vs) d st) = Inr (case v of SUint i \<Rightarrow> True | _ \<Rightarrow> False)"
  "NextValueIsNull (in_array (v # vs) d st) = Inr (v = SNull)"
  by (simp_all add: NextValueIsInt_def NextValueIsUint_def NextValueIsNull_def)

lemma reads_basic:
  "reads read_bool (SBool b) b" "reads read_int64 (SInt i) i" "reads read_uint64 (SUint n) n"
  "reads read_double (SDouble x) x" "reads read_string (SStr s) s"
  "reads read_float (SDouble x) (narrow x)"
  by (simp_all add: reads_any_imp_reads)

lemmas read_next_basic [simp] = ReadValue_array [OF reads_basic(1)] ReadValue_array [OF reads_basic(2)]
  ReadValue_array [OF reads_basic(3)] ReadValue_array [OF reads_basic(4)] ReadValue_array [OF reads_basic(5)]

lemma reads_float: "f32_quiet x = x \<Longrightarrow> reads read_float (SDouble (widen x)) x"
  using reads_basic(6) [of "widen x"] by (simp add: narrow_widen)

lemma component_data_reads:
  assumes "icd_ok x" "\<And>m kv. x = IU16Dict m \<Longrightarrow> kv \<in> set m \<Longrightarrow> reads_any (read_custom deser) (icd_enc (snd kv)) (snd kv)"
    "\<And>m kv. x = IStrDict m \<Longrightarrow> kv \<in> set m \<Longrightarrow> reads_any (read_custom deser) (icd_enc (snd kv)) (snd kv)"
  shows "DeserializeComponentData deser (GetComponentEnum x) (in_array (icd_payload x # vs) d st)
    = Inr (x, in_array vs d st)"
proof (cases x)
  case (IFloatArr xs)
  then have "reads (read_vector read_float) (icd_payload x) xs"
    using assms(1) reads_float by (auto intro!: reads_vector simp: list_all2_conv_all_nth)
  with IFloatArr show ?thesis by (simp add: DeserializeComponentData_def dt_defs read_as_next)
next
  case (IU16Dict m)
  have "reads (read_uint_map ucast (read_custom deser)) (icd_payload x) m"
    using assms(1) assms(2) [OF IU16Dict nth_mem] IU16Dict
    by (auto intro!: reads_uint_map simp: list_all2_conv_all_nth)
  with IU16Dict show ?thesis by (simp add: DeserializeComponentData_def dt_defs read_as_next)
next
  case (IStrDict m)
  have "reads (read_string_map (read_custom deser)) (icd_payload x) m"
    using assms(1) assms(3) [OF IStrDict nth_mem] IStrDict
    by (auto intro!: reads_string_map simp: list_all2_conv_all_nth)
  with IStrDict show ?thesis by (simp add: DeserializeComponentData_def dt_defs read_as_next)
next
  case (IFloat y)
  with assms(1) show ?thesis by (simp add: DeserializeComponentData_def dt_defs read_as_next reads_float)
qed (simp_all add: DeserializeComponentData_def dt_defs read_as_next reads_basic)

lemma icd_deserialize_enc:
  "icd_ok x \<Longrightarrow> size x < fuel
   \<Longrightarrow> icd_deserialize fuel (new_deserializer (icd_enc x)) = Inr (x, new_deserializer (icd_enc x))"
proof (induction fuel arbitrary: x)
  case (Suc fuel)
  have "reads_any (read_custom (icd_deserialize fuel)) (icd_enc y) y" if "icd_ok y" "size y < fuel" for y
    using Suc.IH [OF that] by (simp add: reads_any_def read_custom_def)
  then have "DeserializeComponentData (icd_deserialize fuel) (GetComponentEnum x) (in_array (icd_payload x # vs) d st)
    = Inr (x, in_array vs d st)" for vs d st
    using Suc.prems size_dict_elem [of _ _ "\<lambda>_. 0"] size_dict_elem [of _ _ "\<lambda>_. 0"]
    by (intro component_data_reads) (fastforce simp: less_Suc_eq_le)+
  then show ?case
    by (simp add: icd_enc.simps StartReadArray_next)
qed simp

section \<open>The fuel suffices\<close>

text \<open>Two runs agree when they give the same result and it is not exhaustion of the fuel.\<close>

definition agree :: "ser_error + 'a \<Rightarrow> ser_error + 'a \<Rightarrow> bool" where
  "agree r r' \<longleftrightarrow> r = r' \<and> r \<noteq> Inl Out_of_fuel"

lemma agree_rbind:
  "agree m m' \<Longrightarrow> (\<And>x. m = Inr x \<Longrightarrow> agree (f x) (f' x)) \<Longrightarrow> agree (rbind m f) (rbind m' f')"
  by (cases m) (auto simp: agree_def)

lemma agree_Inr [simp]: "agree (Inr x) (Inr x)"
  by (simp add: agree_def)

lemma agree_Inl [simp]: "agree (Inl e) (Inl e) \<longleftrightarrow> e \<noteq> Out_of_fuel"
  by (simp add: agree_def)

lemma agree_basic [simp]:
  "agree (ReadNextValue d) (ReadNextValue d)" "agree (IncrementIterator d) (IncrementIterator d)"
  "agree (EndReadArrayInternal d) (EndReadArrayInternal d)"
  "agree (EndReadUintMapInternal d) (EndReadUintMapInternal d)"
  "agree (EndReadStringMapInternal d) (EndReadStringMapInternal d)"
  "agree (ReadNextUintKeyValue d) (ReadNextUintKeyValue d)"
  "agree (ReadNextStringKeyValue d) (ReadNextStringKeyValue d)"
  by (auto simp: agree_def ReadNextValue_def IncrementIterator_def EndReadArrayInternal_def
      EndReadUintMapInternal_def EndReadStringMapInternal_def ReadNextUintKeyValue_def
      ReadNextStringKeyValue_def split: list.splits iter.splits)

lemma agree_readers [simp]:
  "agree (read_bool v d) (read_bool v d)" "agree (read_double v d) (read_double v d)"
  "agree (read_float v d) (read_float v d)" "agree (read_string v d) (read_string v d)"
  "agree (read_int64 v d) (read_int64 v d)" "agree (read_uint64 v d) (read_uint64 v d)"
  by (auto simp: agree_def read_bool_def read_double_def read_float_def read_string_def
      read_int64_def read_uint64_def read_signed_def read_unsigned_def rbind_Inl_iff split: sig_value.splits)

lemma agree_start [simp]:
  "agree (StartReadArray d) (StartReadArray d)" "agree (StartReadUintMap d) (StartReadUintMap d)"
  "agree (StartReadStringMap d) (StartReadStringMap d)" "agree (EndReadArray d) (EndReadArray d)"
  "agree (NextValueIsInt d) (NextValueIsInt d)" "agree (NextValueIsUint d) (NextValueIsUint d)"
  "agree (NextValueIsNull d) (NextValueIsNull d)" "agree (Skip d) (Skip d)"
  unfolding StartReadArray_def StartReadUintMap_def StartReadStringMap_def EndReadArray_def
    NextValueIsInt_def NextValueIsUint_def NextValueIsNull_def Skip_def
  by (auto intro!: agree_rbind split: sig_value.splits)

lemma agree_ReadValue: "(\<And>v d. agree (rd v d) (rd v d)) \<Longrightarrow> agree (ReadValue rd d) (ReadValue rd d)"
  unfolding ReadValue_def by (auto intro!: agree_rbind)

lemma agree_read_as: "(\<And>v d. agree (rd v d) (rd v d)) \<Longrightarrow> agree (read_as mk rd d) (read_as mk rd d)"
  unfolding read_as_def by (auto intro!: agree_rbind agree_ReadValue)

lemma agree_read_vector:
  assumes "\<And>v d. agree (rd v d) (rd v d)"
  shows "agree (read_vector rd v d) (read_vector rd v d)"
proof -
  have "agree (read_n (ReadValue rd) n d) (read_n (ReadValue rd) n d)" for n d
    by (induction n arbitrary: d) (auto intro!: agree_rbind agree_ReadValue assms)
  then show ?thesis
    unfolding read_vector_def by (auto intro!: agree_rbind)
qed

lemma agree_read_n_uint:
  "(\<And>kv. kv \<in> set m \<Longrightarrow> agree (f (new_deserializer (snd kv))) (g (new_deserializer (snd kv))))
   \<Longrightarrow> agree (read_n (ReadKeyValue_uint cast (read_custom f)) n (d\<lparr>ObjectStack := IUMap m # st\<rparr>))
        (read_n (ReadKeyValue_uint cast (read_custom g)) n (d\<lparr>ObjectStack := IUMap m # st\<rparr>))"
proof (induction n arbitrary: m)
  case (Suc n)
  show ?case
  proof (cases m)
    case Nil
    then show ?thesis by (simp add: ReadKeyValue_uint_def ReadNextUintKeyValue_def)
  next
    case (Cons kv m')
    let ?D = "d\<lparr>ObjectStack := IUMap (kv # m') # st\<rparr>" and ?D' = "d\<lparr>ObjectStack := IUMap m' # st\<rparr>"
    have "agree (read_custom f (snd kv) ?D) (read_custom g (snd kv) ?D)"
      unfolding read_custom_def using Suc.prems [of kv] Cons by (auto intro!: agree_rbind)
    then have step: "agree (ReadKeyValue_uint cast (read_custom f) ?D) (ReadKeyValue_uint cast (read_custom g) ?D)"
      unfolding ReadKeyValue_uint_def by (auto intro!: agree_rbind split: prod.split)
    have moved: "d' = ?D'" if "ReadKeyValue_uint cast (read_custom f) ?D = Inr (kx, d')" for kx d'
      using that by (cases kv) (auto simp: ReadKeyValue_uint_def read_custom_def result_simps)
    have "agree (read_n (ReadKeyValue_uint cast (read_custom f)) n ?D') (read_n (ReadKeyValue_uint cast (read_custom g)) n ?D')"
      using Suc.prems Cons by (intro Suc.IH) simp
    then show ?thesis
      unfolding Cons read_n.simps
      by (intro agree_rbind [OF step]) (auto dest!: moved intro!: agree_rbind)
  qed
qed simp

lemma agree_read_n_string:
  "(\<And>kv. kv \<in> set m \<Longrightarrow> agree (f (new_deserializer (snd kv))) (g (new_deserializer (snd kv))))
   \<Longrightarrow> agree (read_n (ReadKeyValue_string (read_custom f)) n (d\<lparr>ObjectStack := ISMap m # st\<rparr>))
        (read_n (ReadKeyValue_string (read_custom g)) n (d\<lparr>ObjectStack := ISMap m # st\<rparr>))"
proof (induction n arbitrary: m)
  case (Suc n)
  show ?case
  proof (cases m)
    case Nil
    then show ?thesis by (simp add: ReadKeyValue_string_def ReadNextStringKeyValue_def)
  next
    case (Cons kv m')
    let ?D = "d\<lparr>ObjectStack := ISMap (kv # m') # st\<rparr>" and ?D' = "d\<lparr>ObjectStack := ISMap m' # st\<rparr>"
    have "agree (read_custom f (snd kv) ?D) (read_custom g (snd kv) ?D)"
      unfolding read_custom_def using Suc.prems [of kv] Cons by (auto intro!: agree_rbind)
    then have step: "agree (ReadKeyValue_string (read_custom f) ?D) (ReadKeyValue_string (read_custom g) ?D)"
      unfolding ReadKeyValue_string_def by (auto intro!: agree_rbind split: prod.split)
    have moved: "d' = ?D'" if "ReadKeyValue_string (read_custom f) ?D = Inr (kx, d')" for kx d'
      using that by (cases kv) (auto simp: ReadKeyValue_string_def read_custom_def result_simps)
    have "agree (read_n (ReadKeyValue_string (read_custom f)) n ?D') (read_n (ReadKeyValue_string (read_custom g)) n ?D')"
      using Suc.prems Cons by (intro Suc.IH) simp
    then show ?thesis
      unfolding Cons read_n.simps
      by (intro agree_rbind [OF step]) (auto dest!: moved intro!: agree_rbind)
  qed
qed simp

lemmas agree_read_as_basic [simp] = agree_readers(1-6) [THEN agree_read_as]
  agree_readers(3) [THEN agree_read_vector, THEN agree_read_as]

lemma sig_size_elem:
  "kv \<in> set m \<Longrightarrow> size (snd kv) < size (SUMap m)" "kv' \<in> set m' \<Longrightarrow> size (snd kv') < size (SSMap m')"
  by (induction m) (auto simp: less_Suc_eq_le, induction m', auto simp: less_Suc_eq_le)

lemma agree_component_data:
  assumes "\<And>w. size w < n \<Longrightarrow> agree (f (new_deserializer w)) (g (new_deserializer w))"
    "\<And>p. ReadNextValue d = Inr p \<Longrightarrow> size p \<le> n"
  shows "agree (DeserializeComponentData f T d) (DeserializeComponentData g T d)"
proof -
  have u: "agree (read_uint_map ucast (read_custom f) v d) (read_uint_map ucast (read_custom g) v d)"
    if "ReadNextValue d = Inr v" for v
  proof (cases v)
    case (SUMap m)
    have "agree (f (new_deserializer (snd kv))) (g (new_deserializer (snd kv)))" if "kv \<in> set m" for kv
      using sig_size_elem(1) [OF that] assms(2) [of "SUMap m"] SUMap \<open>ReadNextValue d = Inr v\<close>
      by (intro assms(1)) (simp del: sig_value.size)
    with SUMap \<open>ReadNextValue d = Inr v\<close> show ?thesis
      unfolding read_uint_map_def StartReadUintMap_next [OF that [unfolded SUMap]]
      by (auto intro!: agree_rbind agree_read_n_uint)
  qed (use that in \<open>simp_all add: read_uint_map_def StartReadUintMap_def\<close>)
  have s: "agree (read_string_map (read_custom f) v d) (read_string_map (read_custom g) v d)"
    if "ReadNextValue d = Inr v" for v
  proof (cases v)
    case (SSMap m)
    have "agree (f (new_deserializer (snd kv))) (g (new_deserializer (snd kv)))" if "kv \<in> set m" for kv
      using sig_size_elem(2) [OF that] assms(2) [of "SSMap m"] SSMap \<open>ReadNextValue d = Inr v\<close>
      by (intro assms(1)) (simp del: sig_value.size)
    with SSMap \<open>ReadNextValue d = Inr v\<close> show ?thesis
      unfolding read_string_map_def StartReadStringMap_next [OF that [unfolded SSMap]]
      by (auto intro!: agree_rbind agree_read_n_string)
  qed (use that in \<open>simp_all add: read_string_map_def StartReadStringMap_def\<close>)
  have U: "agree (read_as IU16Dict (read_uint_map ucast (read_custom f)) d)
      (read_as IU16Dict (read_uint_map ucast (read_custom g)) d)"
    unfolding read_as_def ReadValue_def by (intro agree_rbind) (auto intro!: agree_rbind u)
  have S: "agree (read_as IStrDict (read_string_map (read_custom f)) d)
      (read_as IStrDict (read_string_map (read_custom g)) d)"
    unfolding read_as_def ReadValue_def by (intro agree_rbind) (auto intro!: agree_rbind s)
  show ?thesis
    unfolding DeserializeComponentData_def
    by (auto intro!: U S agree_rbind)
qed

lemma agree_icd_deserialize:
  "size v < n \<Longrightarrow> size v < m
   \<Longrightarrow> agree (icd_deserialize n (new_deserializer v)) (icd_deserialize m (new_deserializer v))"
proof (induction n arbitrary: m v)
  case (Suc n)
  then obtain m' where m: "m = Suc m'" by (cases m) auto
  have data: "agree (DeserializeComponentData (icd_deserialize n) T d) (DeserializeComponentData (icd_deserialize m') T d)"
    if "\<And>p. ReadNextValue d = Inr p \<Longrightarrow> size p \<le> size v - 1" for T d
    using Suc m that by (intro agree_component_data [of "size v - 1"]) auto
  show ?case
  proof (cases v)
    case (SArr xs)
    have next_small: "size p \<le> size v - 1"
      if "ReadValue read_uint64 (in_array xs d st) = Inr (t, d')" "StartReadArray d' = Inr (k, d'')"
        "ReadNextValue d'' = Inr p" for d st t d' k d'' p
    proof -
      from that(1) obtain x xs' where x: "xs = x # xs'" "d' = in_array xs' d st"
        by (cases xs) (auto simp: ReadValue_def ReadNextValue_def result_simps read_uint64_def read_unsigned_def
            split: sig_value.splits if_splits)
      with that(2) obtain ys zs where y: "xs' = SArr ys # zs" "d'' = in_array ys d (IArr xs' # st)"
        by (cases xs') (auto simp: StartReadArray_def ReadNextValue_def result_simps push_iter_def split: sig_value.splits)
      with that(3) obtain ys' where "ys = p # ys'"
        by (cases ys) (auto simp: ReadNextValue_def)
      with x y SArr show ?thesis by simp
    qed
    show ?thesis
      unfolding m SArr
      by (auto simp: StartReadArray_next intro!: agree_rbind agree_ReadValue data next_small)
  qed (simp_all add: m StartReadArray_def)
qed simp

lemma deserialize_enough_fuel:
  "size v < n \<Longrightarrow> icd_deserialize n (new_deserializer v) = ItemComponentData_Deserialize (new_deserializer v)
     \<and> ItemComponentData_Deserialize (new_deserializer v) \<noteq> Inl Out_of_fuel"
  using agree_icd_deserialize [of v n "Suc (size v)"]
  unfolding ItemComponentData_Deserialize_def agree_def root_simps by (metis lessI)

section \<open>Messages as encodings\<close>

lemma deserialize_enc:
  assumes "icd_ok x"
  shows "ItemComponentData_Deserialize (new_deserializer (icd_enc x)) = Inr (x, new_deserializer (icd_enc x))"
proof -
  define n where "n = Suc (size x + size (icd_enc x))"
  have "icd_deserialize n (new_deserializer (icd_enc x)) = Inr (x, new_deserializer (icd_enc x))"
    using assms by (intro icd_deserialize_enc) (simp_all add: n_def)
  moreover have "size (icd_enc x) < n" by (simp add: n_def)
  ultimately show ?thesis using deserialize_enough_fuel [of "icd_enc x" n] by simp
qed

interpretation icd: signalr_codec ItemComponentData_Serialize ItemComponentData_Deserialize icd_enc icd_ok
  by unfold_locales (simp_all add: component_data_writes deserialize_enc)

definition enc_dict :: "(u16 \<times> icd) list \<Rightarrow> (u64 \<times> sig_value) list" where
  "enc_dict m = map (\<lambda>kv. (ucast (fst kv), icd_enc (snd kv))) m"

definition components_enc :: "(u16, icd) omap option \<Rightarrow> sig_value" where
  "components_enc c = (case c of None \<Rightarrow> SNull | Some m \<Rightarrow> SUMap (enc_dict m))"

fun components_ok :: "(u16, icd) omap option \<Rightarrow> bool" where
  "components_ok None \<longleftrightarrow> True"
| "components_ok (Some m) \<longleftrightarrow> omap_ok m \<and> (\<forall>kv \<in> set m. icd_ok (snd kv))"

lemma components_write: "components_ok c \<Longrightarrow> writes_as (write_components c) (components_enc c)"
  unfolding write_components_def components_enc_def
  by (rule writes_as_optional)
    (auto simp: enc_dict_def icd.write_enc intro!: writes_as_uint_map strict_mono_ucast_u16)

lemma read_components_good:
  "\<forall>kv \<in> set m. icd_ok (snd kv)
   \<Longrightarrow> read_components (length m + n) (d\<lparr>ObjectStack := IUMap (enc_dict m @ post) # st\<rparr>) acc
     = read_components n (d\<lparr>ObjectStack := IUMap post # st\<rparr>)
         (foldl (\<lambda>a kv. omap_upd (fst kv) (snd kv) a) acc m)"
proof (induction m arbitrary: acc)
  case (Cons kv m)
  have "ReadKeyValue_uint ucast (read_custom ItemComponentData_Deserialize)
      (d\<lparr>ObjectStack := IUMap (enc_dict (kv # m) @ post) # st\<rparr>)
    = Inr (kv, d\<lparr>ObjectStack := IUMap (enc_dict m @ post) # st\<rparr>)"
    using Cons.prems by (simp add: ReadKeyValue_uint_def enc_dict_def read_custom_def deserialize_enc)
  with Cons show ?case by (cases kv) simp
qed (simp add: enc_dict_def)

lemma read_components_stuck:
  "ReadKeyValue_uint (ucast :: u64 \<Rightarrow> u16) (read_custom ItemComponentData_Deserialize) d = Inl e \<Longrightarrow> caught e
   \<Longrightarrow> read_components n d acc = Inr (acc, d)"
  by (induction n) simp_all

lemma DeserializeComponents_enc:
  assumes "components_ok c"
  shows "DeserializeComponents (in_array (components_enc c # vs) d st) = Inr (c, in_array vs d st)"
proof (cases c)
  case None
  then show ?thesis by (simp add: DeserializeComponents_def components_enc_def Skip_def)
next
  case (Some m)
  then have m: "omap_ok m" "\<forall>kv \<in> set m. icd_ok (snd kv)" using assms by auto
  then have "foldl (\<lambda>a kv. omap_upd (fst kv) (snd kv) a) [] m = m"
    using foldl_omap_upd [of "[]" m] by simp
  with Some read_components_good [OF m(2), where n = 0 and post = "[]" and acc = "[]"] show ?thesis
    by (simp add: DeserializeComponents_def components_enc_def StartReadUintMap_next EndReadUintMap_def enc_dict_def)
qed

definition parent_enc :: "u64 option \<Rightarrow> sig_value" where
  "parent_enc p = (case p of None \<Rightarrow> SNull | Some i \<Rightarrow> SUint i)"

lemma parent_writes: "writes_as (write_optional write_uint64 p) (parent_enc p)"
  unfolding parent_enc_def by (rule writes_as_optional) simp

lemma parent_reads: "reads (read_optional read_uint64) (parent_enc p) p"
  unfolding parent_enc_def by (rule reads_any_imp_reads, rule reads_any_optional) simp

lemmas read_next_parent [simp] = ReadValue_array [OF parent_reads]

definition ObjectMessage_enc :: "ObjectMessage \<Rightarrow> sig_value" where
  "ObjectMessage_enc m = SArr [SUint (om_Id m), SUint (om_Type m), SBool (om_IsTransferable m),
     SBool (om_IsPersistent m), SUint (om_OwnerId m), parent_enc (om_ParentId m),
     components_enc (om_Components m)]"

definition ObjectPatch_enc :: "ObjectPatch \<Rightarrow> sig_value" where
  "ObjectPatch_enc p = SArr [SUint (op_Id p), SUint (op_OwnerId p), SBool (op_Destroy p),
     SArr [SBool (op_ShouldUpdateParent p), parent_enc (op_ParentId p)], components_enc (op_Components p)]"

lemmas write_array_elem =
  writes_asD [OF writes_as_basic(1), of "CArr xs # st"] writes_asD [OF writes_as_basic(3), of "CArr xs # st"]
  writes_asD [OF parent_writes, of "CArr xs # st"] for xs st

interpretation object_message: signalr_codec ObjectMessage_Serialize ObjectMessage_Deserialize
  ObjectMessage_enc "\<lambda>m. components_ok (om_Components m)"
proof
  fix m :: ObjectMessage assume ok: "components_ok (om_Components m)"
  show "writes_as (ObjectMessage_Serialize m) (ObjectMessage_enc m)"
    using writes_asD [OF components_write [OF ok], of "CArr _ # _"]
    by (simp add: writes_as_def ObjectMessage_Serialize_def StartWriteArray_def write_array_elem
        EndWriteArray_def Finalize_emit ObjectMessage_enc_def)
  show "\<exists>d. ObjectMessage_Deserialize (new_deserializer (ObjectMessage_enc m)) = Inr (m, d)"
    by (simp add: ObjectMessage_Deserialize_def ObjectMessage_enc_def StartReadArray_next
        DeserializeComponents_enc [OF ok])
qed

interpretation object_patch: signalr_codec ObjectPatch_Serialize ObjectPatch_Deserialize
  ObjectPatch_enc "\<lambda>p. components_ok (op_Components p)"
proof
  fix p :: ObjectPatch assume ok: "components_ok (op_Components p)"
  show "writes_as (ObjectPatch_Serialize p) (ObjectPatch_enc p)"
    using writes_asD [OF components_write [OF ok], of "CArr _ # _"]
    by (simp add: writes_as_def ObjectPatch_Serialize_def StartWriteArray_def write_array_elem
        EndWriteArray_def Finalize_emit ObjectPatch_enc_def)
  show "\<exists>d. ObjectPatch_Deserialize (new_deserializer (ObjectPatch_enc p)) = Inr (p, d)"
    by (simp add: ObjectPatch_Deserialize_def ObjectPatch_enc_def StartReadArray_next
        DeserializeComponents_enc [OF ok])
qed

section \<open>Properties\<close>

definition serialize_root :: "'a writer \<Rightarrow> 'a \<Rightarrow> ser_error + sig_value" where
  "serialize_root ser x = rbind (ser x []) Serializer_Get"

definition deserialize_root :: "(deserializer \<Rightarrow> ser_error + 'a \<times> deserializer) \<Rightarrow> sig_value \<Rightarrow> ser_error + 'a" where
  "deserialize_root deser v = map_sum id fst (deser (new_deserializer v))"

text \<open>
  C20. A component value with dictionaries nested to any depth is read back from what
  \<open>Serialize\<close> writes, type tag included.
\<close>

theorem component_value_roundtrip:
  "icd_ok x \<Longrightarrow> rbind (serialize_root ItemComponentData_Serialize x)
     (deserialize_root ItemComponentData_Deserialize) = Inr x"
  unfolding serialize_root_def deserialize_root_def by (rule icd.roundtrip)

lemma component_value_roundtrip_witness:
  "let x = IU16Dict [(1, IStr ''a''), (7, IStrDict [(''k'', IFloatArr [1, 2]), (''l'', IU16Dict [])])]
   in rbind (serialize_root ItemComponentData_Serialize x) (deserialize_root ItemComponentData_Deserialize) = Inr x"
  unfolding Let_def
  by (rule component_value_roundtrip)
    (simp add: f32_quiet_def f32_nan_def f32_exp_def less_char_def less_list_code)

text \<open>
  C18. An object message whose components are well formed is read back from what \<open>Serialize\<close>
  writes: no field is swapped, dropped or defaulted, a missing parent and a missing component
  map included.
\<close>

theorem object_message_roundtrip:
  "components_ok (om_Components m) \<Longrightarrow>
   rbind (serialize_root ObjectMessage_Serialize m) (deserialize_root ObjectMessage_Deserialize) = Inr m"
  unfolding serialize_root_def deserialize_root_def by (rule object_message.roundtrip)

lemma object_message_roundtrip_witness:
  "let m = \<lparr>om_Id = 5, om_Type = 2, om_IsTransferable = True, om_IsPersistent = False, om_OwnerId = 9,
     om_ParentId = Some 3, om_Components = Some [(0, IBool True), (64511, IStr ''n'')]\<rparr>
   in rbind (serialize_root ObjectMessage_Serialize m) (deserialize_root ObjectMessage_Deserialize) = Inr m"
  unfolding Let_def by (rule object_message_roundtrip) simp

text \<open>A list of object patches, as the hub sends them, is read back from what is written.\<close>

theorem object_patches_roundtrip:
  assumes "\<forall>p \<in> set ps. components_ok (op_Components p)"
  shows "rbind (serialize_root (write_vector ObjectPatch_Serialize) ps)
    (deserialize_root (ReadValue (read_vector (read_custom ObjectPatch_Deserialize)))) = Inr ps"
  unfolding serialize_root_def deserialize_root_def using assms by (rule object_patch.vector_roundtrip)

lemma object_patches_roundtrip_witness:
  "let ps = [\<lparr>op_Id = 5, op_OwnerId = 9, op_Destroy = False, op_ShouldUpdateParent = True, op_ParentId = None,
       op_Components = Some [(3, IInt 1)]\<rparr>,
     \<lparr>op_Id = 6, op_OwnerId = 9, op_Destroy = True, op_ShouldUpdateParent = False, op_ParentId = Some 5,
       op_Components = None\<rparr>]
   in rbind (serialize_root (write_vector ObjectPatch_Serialize) ps)
    (deserialize_root (ReadValue (read_vector (read_custom ObjectPatch_Deserialize)))) = Inr ps"
  unfolding Let_def by (rule object_patches_roundtrip) simp

text \<open>
  Deserialising a component value returns, with a value or an error, whatever SignalR value
  it is given: recursion into nested dictionaries is bounded by the size of the value, and more
  fuel changes nothing.
\<close>

theorem component_value_deserialize_total:
  "size v < n \<Longrightarrow> icd_deserialize n (new_deserializer v) = ItemComponentData_Deserialize (new_deserializer v)
     \<and> ItemComponentData_Deserialize (new_deserializer v) \<noteq> Inl Out_of_fuel"
  by (rule deserialize_enough_fuel)

lemma component_value_deserialize_total_witness:
  "ItemComponentData_Deserialize (new_deserializer (SArr [SUint 54, SArr [SBool True]])) \<noteq> Inl Out_of_fuel"
  using component_value_deserialize_total [of "SArr [SUint 54, SArr [SBool True]]" 100] by simp

text \<open>
  A component that fails to deserialise takes with it every component with a larger key: the
  failing pair is never stepped over, so the rest of the map is lost without an error.
\<close>

theorem failing_component_drops_the_rest:
  assumes "omap_ok good" "\<forall>kv \<in> set good. icd_ok (snd kv)"
    "ItemComponentData_Deserialize (new_deserializer bad) = Inl e" "caught e"
  shows "deserialize_root DeserializeComponents (SUMap (enc_dict good @ (k, bad) # rest)) = Inr (Some good)"
proof -
  let ?d = "new_deserializer (SUMap (enc_dict good @ (k, bad) # rest))"
  have "foldl (\<lambda>a kv. omap_upd (fst kv) (snd kv) a) [] good = good"
    using foldl_omap_upd [of "[]" good] assms(1) by simp
  moreover have "ReadKeyValue_uint (ucast :: u64 \<Rightarrow> u16) (read_custom ItemComponentData_Deserialize)
      (d\<lparr>ObjectStack := IUMap ((k, bad) # rest) # st\<rparr>) = Inl e" for d st
    using assms(3) by (simp add: ReadKeyValue_uint_def read_custom_def)
  then have "read_components n (d\<lparr>ObjectStack := IUMap ((k, bad) # rest) # st\<rparr>) acc
      = Inr (acc, d\<lparr>ObjectStack := IUMap ((k, bad) # rest) # st\<rparr>)" for n d st acc
    using assms(4) by (rule read_components_stuck)
  ultimately have "read_components (length (enc_dict good @ (k, bad) # rest))
      (?d\<lparr>ObjectStack := [IUMap (enc_dict good @ (k, bad) # rest), INull]\<rparr>) []
    = Inr (good, ?d\<lparr>ObjectStack := [IUMap ((k, bad) # rest), INull]\<rparr>)"
    using read_components_good [OF assms(2), where n = "Suc (length rest)" and acc = "[]" and post = "(k, bad) # rest"]
    by (simp add: enc_dict_def)
  then show ?thesis
    by (simp add: deserialize_root_def DeserializeComponents_def NextValueIsNull_def StartReadUintMap_next
        EndReadUintMap_def)
qed

lemma failing_component_drops_the_rest_witness:
  "deserialize_root DeserializeComponents
     (SUMap [(1, icd_enc (IBool True)), (2, SArr [SUint 999, SArr [SNull]]), (3, icd_enc (IBool False))])
   = Inr (Some [(1, IBool True)])"
  using failing_component_drops_the_rest [of "[(1, IBool True)]" "SArr [SUint 999, SArr [SNull]]"
      "Invalid_argument ''Trying to deserialize unsupported ItemComponentDataType''" 2 "[(3, icd_enc (IBool False))]"]
  by (simp add: enc_dict_def ItemComponentData_Deserialize_def StartReadArray_next
      DeserializeComponentData_def dt_defs)

text \<open>
  A patch without a parent array (null, which the service sends when the parent does not
  change) loses its components: the null is tested but not skipped, and is then read as the
  component map.
\<close>

theorem null_parent_array_drops_components:
  "deserialize_root ObjectPatch_Deserialize
     (SArr (SUint i # SUint owner # SBool destroy # SNull # rest))
   = Inr \<lparr>op_Id = i, op_OwnerId = owner, op_Destroy = destroy, op_ShouldUpdateParent = False,
          op_ParentId = None, op_Components = None\<rparr>"
  by (simp add: deserialize_root_def ObjectPatch_Deserialize_def StartReadArray_next
      DeserializeComponents_def Skip_def)

text \<open>
  Vectors and maps inside a map are written but cannot be read back: their readers open the
  deserialiser's own position, which is a map iterator.
\<close>

lemma nested_container_in_map_unreadable:
  "ReadKeyValue_uint cast (read_vector rd) (d\<lparr>ObjectStack := IUMap (kv # m) # st\<rparr>)
     = Inl (Runtime_error ''Unexpected deserializer state'')"
  "ReadKeyValue_uint cast (read_uint_map cast' rd') (d\<lparr>ObjectStack := IUMap (kv # m) # st\<rparr>)
     = Inl (Runtime_error ''Unexpected deserializer state'')"
  by (cases kv; simp add: ReadKeyValue_uint_def read_vector_def read_uint_map_def StartReadArray_def
      StartReadUintMap_def ReadNextValue_def)+

end
