(* ===== verification/Replicated_Value.thy ===== *)
theory Replicated_Value
  imports Floats
begin

text \<open>
  The replicated value of \<open>include/CSP/Common/ReplicatedValue.h\<close> and
  \<open>src/Common/ReplicatedValue.cpp\<close>: a variant with a separate type tag, its setters, getters
  and comparison. Vectors compare component-wise up to a threshold
  (\<open>IsNearlyEqual\<close> of \<open>src/Common/Vector.cpp\<close>), which is computed here exactly as the float
  subtraction rounds.
\<close>

section \<open>Nearly equal floats\<close>

text \<open>A finite float in units of \<open>2 ^ -149\<close>.\<close>

definition f32_units :: "float32 \<Rightarrow> int" where
  "f32_units x =
     (let m = (if f32_exp x = 0 then f32_frac x else (2 ^ 23 + f32_frac x) * 2 ^ (f32_exp x - 1))
      in if f32_sign x = 0 then int m else - int m)"

text \<open>Rounding a magnitude in these units to 24 significant bits.\<close>

definition round24 :: "nat \<Rightarrow> nat" where
  "round24 d = (if d < 2 ^ 24 then d else let k = lead_bit d - 23 in rne d k * 2 ^ k)"

definition f32_finite :: "float32 \<Rightarrow> bool" where
  "f32_finite x \<longleftrightarrow> f32_exp x \<noteq> 255"

definition FloatComparatorThreshold :: float32 where
  "FloatComparatorThreshold = 0x3A83126F" \<comment> \<open>\<open>0.001f\<close>\<close>

definition IsNearlyEqual :: "float32 \<Rightarrow> float32 \<Rightarrow> bool" where
  "IsNearlyEqual A B \<longleftrightarrow> f32_finite A \<and> f32_finite B \<and>
     int (round24 (nat \<bar>f32_units A - f32_units B\<bar>)) < f32_units FloatComparatorThreshold"

lemma threshold_units: "f32_units FloatComparatorThreshold = 8589935 * 2 ^ 116"
  by (simp add: FloatComparatorThreshold_def f32_units_def f32_exp_def f32_frac_def f32_sign_def)

lemma IsNearlyEqual_refl: "IsNearlyEqual A A \<longleftrightarrow> f32_finite A"
  by (simp add: IsNearlyEqual_def round24_def threshold_units)

lemma IsNearlyEqual_sym: "IsNearlyEqual A B \<longleftrightarrow> IsNearlyEqual B A"
  by (auto simp: IsNearlyEqual_def abs_minus_commute)

section \<open>Values\<close>

datatype rv_type = InvalidType | RBoolean | RInteger | RFloat | RString
  | RVector3 | RVector4 | RVector2 | RStringMap

datatype rv_impl =
    VBool bool
  | VFloat float32
  | VInt u64 \<comment> \<open>\<open>int64_t\<close>\<close>
  | VStr string
  | VVec2 float32 float32
  | VVec3 float32 float32 float32
  | VVec4 float32 float32 float32 float32
  | VMap "(string \<times> rep_value) list"
and rep_value = RepVal (RVal: rv_impl) (RType: rv_type)

datatype rv_error = ReplicatedValueException rv_type rv_type | Rv_bad_variant_access

definition RV_default :: rep_value where
  "RV_default = RepVal (VBool False) InvalidType"

definition RV_bool :: "bool \<Rightarrow> rep_value" where "RV_bool x = RepVal (VBool x) RBoolean"
definition RV_float :: "float32 \<Rightarrow> rep_value" where "RV_float x = RepVal (VFloat x) RFloat"
definition RV_int :: "u64 \<Rightarrow> rep_value" where "RV_int x = RepVal (VInt x) RInteger"
definition RV_string :: "string \<Rightarrow> rep_value" where "RV_string x = RepVal (VStr x) RString"
definition RV_vector2 :: "float32 \<Rightarrow> float32 \<Rightarrow> rep_value" where
  "RV_vector2 x y = RepVal (VVec2 x y) RVector2"
definition RV_vector3 :: "float32 \<Rightarrow> float32 \<Rightarrow> float32 \<Rightarrow> rep_value" where
  "RV_vector3 x y z = RepVal (VVec3 x y z) RVector3"
definition RV_vector4 :: "float32 \<Rightarrow> float32 \<Rightarrow> float32 \<Rightarrow> float32 \<Rightarrow> rep_value" where
  "RV_vector4 x y z w = RepVal (VVec4 x y z w) RVector4"
definition RV_map :: "(string, rep_value) omap \<Rightarrow> rep_value" where "RV_map m = RepVal (VMap m) RStringMap"

lemmas rv_constructors = RV_default_def RV_bool_def RV_float_def RV_int_def RV_string_def
  RV_vector2_def RV_vector3_def RV_vector4_def RV_map_def

text \<open>The setters replace value and tag; the internal template \<open>Set\<close> replaces the value only.\<close>

definition RV_set_value :: "rv_impl \<Rightarrow> rep_value \<Rightarrow> rep_value" where
  "RV_set_value x v = RepVal x (RType v)"

definition SetBool :: "bool \<Rightarrow> rep_value \<Rightarrow> rep_value" where "SetBool x v = RepVal (VBool x) RBoolean"
definition SetFloat :: "float32 \<Rightarrow> rep_value \<Rightarrow> rep_value" where "SetFloat x v = RepVal (VFloat x) RFloat"
definition SetInt :: "u64 \<Rightarrow> rep_value \<Rightarrow> rep_value" where "SetInt x v = RepVal (VInt x) RInteger"
definition SetString :: "string \<Rightarrow> rep_value \<Rightarrow> rep_value" where "SetString x v = RepVal (VStr x) RString"
definition SetVector2 :: "float32 \<times> float32 \<Rightarrow> rep_value \<Rightarrow> rep_value" where
  "SetVector2 p v = (case p of (x, y) \<Rightarrow> RepVal (VVec2 x y) RVector2)"
definition SetVector3 :: "float32 \<times> float32 \<times> float32 \<Rightarrow> rep_value \<Rightarrow> rep_value" where
  "SetVector3 p v = (case p of (x, y, z) \<Rightarrow> RepVal (VVec3 x y z) RVector3)"
definition SetVector4 :: "float32 \<times> float32 \<times> float32 \<times> float32 \<Rightarrow> rep_value \<Rightarrow> rep_value" where
  "SetVector4 p v = (case p of (x, y, z, w) \<Rightarrow> RepVal (VVec4 x y z w) RVector4)"
definition SetStringMap :: "(string, rep_value) omap \<Rightarrow> rep_value \<Rightarrow> rep_value" where
  "SetStringMap m v = RepVal (VMap m) RStringMap"

definition rv_get :: "rv_type \<Rightarrow> (rv_impl \<Rightarrow> 'a option) \<Rightarrow> rep_value \<Rightarrow> rv_error + 'a" where
  "rv_get t sel v =
     (if RType v \<noteq> t then Inl (ReplicatedValueException t (RType v))
      else case sel (RVal v) of Some x \<Rightarrow> Inr x | None \<Rightarrow> Inl Rv_bad_variant_access)"

definition GetBool :: "rep_value \<Rightarrow> rv_error + bool" where
  "GetBool = rv_get RBoolean (\<lambda>i. case i of VBool x \<Rightarrow> Some x | _ \<Rightarrow> None)"
definition GetFloat :: "rep_value \<Rightarrow> rv_error + float32" where
  "GetFloat = rv_get RFloat (\<lambda>i. case i of VFloat x \<Rightarrow> Some x | _ \<Rightarrow> None)"
definition GetInt :: "rep_value \<Rightarrow> rv_error + u64" where
  "GetInt = rv_get RInteger (\<lambda>i. case i of VInt x \<Rightarrow> Some x | _ \<Rightarrow> None)"
definition GetString :: "rep_value \<Rightarrow> rv_error + string" where
  "GetString = rv_get RString (\<lambda>i. case i of VStr x \<Rightarrow> Some x | _ \<Rightarrow> None)"
definition GetVector2 :: "rep_value \<Rightarrow> rv_error + float32 \<times> float32" where
  "GetVector2 = rv_get RVector2 (\<lambda>i. case i of VVec2 x y \<Rightarrow> Some (x, y) | _ \<Rightarrow> None)"
definition GetVector3 :: "rep_value \<Rightarrow> rv_error + float32 \<times> float32 \<times> float32" where
  "GetVector3 = rv_get RVector3 (\<lambda>i. case i of VVec3 x y z \<Rightarrow> Some (x, y, z) | _ \<Rightarrow> None)"
definition GetVector4 :: "rep_value \<Rightarrow> rv_error + float32 \<times> float32 \<times> float32 \<times> float32" where
  "GetVector4 = rv_get RVector4 (\<lambda>i. case i of VVec4 x y z w \<Rightarrow> Some (x, y, z, w) | _ \<Rightarrow> None)"
definition GetStringMap :: "rep_value \<Rightarrow> rv_error + (string, rep_value) omap" where
  "GetStringMap = rv_get RStringMap (\<lambda>i. case i of VMap m \<Rightarrow> Some m | _ \<Rightarrow> None)"

lemmas rv_getters = GetBool_def GetFloat_def GetInt_def GetString_def GetVector2_def
  GetVector3_def GetVector4_def GetStringMap_def

section \<open>Comparison\<close>

fun rep_eq :: "rep_value \<Rightarrow> rep_value \<Rightarrow> bool"
  and impl_eq :: "rv_impl \<Rightarrow> rv_impl \<Rightarrow> bool"
  and map_eq :: "(string \<times> rep_value) list \<Rightarrow> (string \<times> rep_value) list \<Rightarrow> bool" where
  "rep_eq (RepVal a t) (RepVal b t') \<longleftrightarrow> t' = t \<and> impl_eq a b"
| "impl_eq (VBool x) (VBool y) \<longleftrightarrow> x = y"
| "impl_eq (VFloat x) (VFloat y) \<longleftrightarrow> f32_eq x y"
| "impl_eq (VInt x) (VInt y) \<longleftrightarrow> x = y"
| "impl_eq (VStr x) (VStr y) \<longleftrightarrow> x = y"
| "impl_eq (VVec2 x y) (VVec2 x' y') \<longleftrightarrow> IsNearlyEqual x x' \<and> IsNearlyEqual y y'"
| "impl_eq (VVec3 x y z) (VVec3 x' y' z') \<longleftrightarrow> IsNearlyEqual x x' \<and> IsNearlyEqual y y' \<and> IsNearlyEqual z z'"
| "impl_eq (VVec4 x y z w) (VVec4 x' y' z' w') \<longleftrightarrow>
     IsNearlyEqual x x' \<and> IsNearlyEqual y y' \<and> IsNearlyEqual z z' \<and> IsNearlyEqual w w'"
| "impl_eq (VMap m) (VMap m') \<longleftrightarrow> map_eq m m'"
| "impl_eq _ _ \<longleftrightarrow> False"
| "map_eq [] [] \<longleftrightarrow> True"
| "map_eq ((k, v) # m) ((k', v') # m') \<longleftrightarrow> k = k' \<and> rep_eq v v' \<and> map_eq m m'"
| "map_eq _ _ \<longleftrightarrow> False"

section \<open>The tag tells the value\<close>

fun rv_tag :: "rv_impl \<Rightarrow> rv_type" where
  "rv_tag (VBool _) = RBoolean" | "rv_tag (VFloat _) = RFloat" | "rv_tag (VInt _) = RInteger"
| "rv_tag (VStr _) = RString" | "rv_tag (VVec2 _ _) = RVector2" | "rv_tag (VVec3 _ _ _) = RVector3"
| "rv_tag (VVec4 _ _ _ _) = RVector4" | "rv_tag (VMap _) = RStringMap"

definition rv_tagged :: "rep_value \<Rightarrow> bool" where
  "rv_tagged v \<longleftrightarrow> RType v = InvalidType \<or> RType v = rv_tag (RVal v)"

lemma constructors_tagged:
  "rv_tagged RV_default" "rv_tagged (RV_bool b)" "rv_tagged (RV_float x)" "rv_tagged (RV_int i)"
  "rv_tagged (RV_string s)" "rv_tagged (RV_vector2 x y)" "rv_tagged (RV_vector3 x y z)"
  "rv_tagged (RV_vector4 x y z w)" "rv_tagged (RV_map m)"
  by (simp_all add: rv_tagged_def rv_constructors)

lemma setters_tagged:
  "rv_tagged (SetBool b v)" "rv_tagged (SetFloat x v)" "rv_tagged (SetInt i v)" "rv_tagged (SetString s v)"
  "rv_tagged (SetVector2 p2 v)" "rv_tagged (SetVector3 p3 v)" "rv_tagged (SetVector4 p4 v)"
  "rv_tagged (SetStringMap m v)"
  by (simp_all add: rv_tagged_def SetBool_def SetFloat_def SetInt_def SetString_def SetVector2_def
      SetVector3_def SetVector4_def SetStringMap_def split: prod.split)

section \<open>What nearly equal means\<close>

lemma rne_le_even:
  assumes "even q"
  shows "rne d (Suc k) < Suc q \<longleftrightarrow> d \<le> q * 2 ^ Suc k + 2 ^ k"
proof -
  let ?h = "(2::nat) ^ k"
  define Q r where Q: "Q = d div (2 * ?h)" and r: "r = d mod (2 * ?h)"
  have d: "d = Q * (2 * ?h) + r" "r < 2 * ?h"
    unfolding Q r by (simp_all only: div_mult_mod_eq mod_less_divisor) simp
  have rne: "rne d (Suc k) = (if ?h < r \<or> ?h = r \<and> odd Q then Q + 1 else Q)"
    by (auto simp: rne_def Let_def Q r)
  consider "Q < q" | "Q = q" | "q < Q" by linarith
  then show ?thesis
  proof cases
    case 1
    then have "Suc Q * (2 * ?h) \<le> q * (2 * ?h)" by (intro mult_right_mono) auto
    then show ?thesis unfolding rne using d 1 by auto
  next
    case 2 then show ?thesis unfolding rne using d assms by auto
  next
    case 3
    then have "Suc q * (2 * ?h) \<le> Q * (2 * ?h)" by (intro mult_right_mono) auto
    then show ?thesis unfolding rne using d 3 by auto
  qed
qed

lemma rne_bounds: "d div 2 ^ k \<le> rne d k" "rne d k \<le> d div 2 ^ k + 1"
  by (simp_all add: rne_def Let_def)

lemma lead_bit_ge: "2 ^ n \<le> d \<Longrightarrow> n \<le> lead_bit d"
proof (rule ccontr)
  assume "2 ^ n \<le> d" "\<not> n \<le> lead_bit d"
  then have "d \<noteq> 0" "Suc (lead_bit d) \<le> n" by (auto intro: ccontr)
  moreover have "d < 2 ^ Suc (lead_bit d)" using lead_bit_bounds \<open>d \<noteq> 0\<close> by blast
  moreover have "(2::nat) ^ Suc (lead_bit d) \<le> 2 ^ n"
    using \<open>Suc (lead_bit d) \<le> n\<close> by (intro power_increasing) auto
  ultimately show False using \<open>2 ^ n \<le> d\<close> by linarith
qed

lemma round24_below:
  assumes "q < 2 ^ 24" "2 ^ 23 \<le> q" "even q" "24 \<le> e"
  shows "round24 d < Suc q * 2 ^ e \<longleftrightarrow> d \<le> q * 2 ^ e + 2 ^ (e - 1)"
proof (cases "d < 2 ^ 24")
  case True
  have "(2::nat) ^ 24 \<le> 2 ^ e" using assms by (intro power_increasing) auto
  moreover have "1 * 2 ^ e \<le> q * 2 ^ e" using assms by (intro mult_right_mono) auto
  moreover have "round24 d = d" using True by (simp add: round24_def)
  moreover have "q * 2 ^ e < Suc q * 2 ^ e" by simp
  ultimately have "round24 d < Suc q * 2 ^ e" "d \<le> q * 2 ^ e + 2 ^ (e - 1)" using True by linarith+
  then show ?thesis by blast
next
  case False
  define l where "l = lead_bit d"
  have l: "24 \<le> l" using False lead_bit_ge [of 24 d] by (simp add: l_def)
  have b: "2 ^ l \<le> d" "d < 2 ^ Suc l" using lead_bit_bounds [of d] False by (auto simp: l_def)
  define k where "k = l - 23"
  have k: "l = 23 + k" "0 < k" using l by (simp_all add: k_def)
  have r: "round24 d = rne d k * 2 ^ k" using False by (simp add: round24_def k_def l_def Let_def)
  have two: "q * 2 ^ e = q * 2 * 2 ^ (e - 1)" using assms by (cases e) auto
  consider "k < e" | "k = e" | "e < k" by linarith
  then show ?thesis
  proof cases
    case 1
    have "d div 2 ^ k < 2 ^ 24" using b k by (simp add: less_mult_imp_div_less power_add mult.commute)
    then have "rne d k \<le> 2 ^ 24" using rne_bounds(2) [of d k] by linarith
    then have "rne d k * 2 ^ k \<le> 2 ^ 24 * 2 ^ k" by (rule mult_right_mono) simp
    also have "\<dots> = 2 ^ 23 * 2 ^ Suc k" by simp
    also have "\<dots> \<le> q * 2 ^ e" using assms 1 by (intro mult_mono power_increasing) auto
    finally have "rne d k * 2 ^ k \<le> q * 2 ^ e" .
    moreover have "d < 2 ^ 23 * 2 ^ Suc k" using b k by (simp add: power_add)
    moreover have "(2::nat) ^ 23 * 2 ^ Suc k \<le> q * 2 ^ e" using assms 1 by (intro mult_mono power_increasing) auto
    ultimately show ?thesis unfolding r by (simp add: add_strict_increasing)
  next
    case 2
    then have "round24 d < Suc q * 2 ^ e \<longleftrightarrow> rne d e < Suc q"
      unfolding r by (simp only: mult_less_cancel2) simp
    then show ?thesis using rne_le_even [OF assms(3), of d "e - 1"] assms(4) by simp
  next
    case 3
    have "2 ^ 23 \<le> d div 2 ^ k" using b k by (simp add: power_add less_eq_div_iff_mult_less_eq)
    then have "2 ^ 23 \<le> rne d k" using rne_bounds(1) [of d k] by linarith
    then have "2 ^ 23 * 2 ^ k \<le> rne d k * 2 ^ k" by (rule mult_right_mono) simp
    moreover have "(2::nat) ^ 23 * 2 ^ Suc e \<le> 2 ^ 23 * 2 ^ k" using 3 by (intro mult_left_mono power_increasing) auto
    moreover have "Suc q * 2 ^ e \<le> 2 ^ 24 * 2 ^ e" using assms by (intro mult_right_mono) auto
    moreover have "2 ^ 23 * 2 ^ k \<le> d" using b k by (simp add: power_add)
    moreover have "q * 2 ^ e + 2 ^ (e - 1) < Suc q * 2 ^ e" using assms(4) by (cases e) auto
    moreover have "(2::nat) ^ 23 * 2 ^ Suc e = 2 ^ 24 * 2 ^ e" by simp
    ultimately have "Suc q * 2 ^ e \<le> rne d k * 2 ^ k" "q * 2 ^ e + 2 ^ (e - 1) < d" by linarith+
    then show ?thesis unfolding r by (auto simp only: not_less not_le)
  qed
qed

text \<open>
  Two finite floats compare as nearly equal exactly when they differ by at most the
  threshold less half a unit in its last place: the subtraction's rounding is accounted for.
\<close>

theorem nearly_equal_iff_difference:
  "IsNearlyEqual A B \<longleftrightarrow> f32_finite A \<and> f32_finite B \<and>
     \<bar>f32_units A - f32_units B\<bar> \<le> f32_units FloatComparatorThreshold - 2 ^ 115"
proof -
  have nat_iff: "round24 d < 8589935 * 2 ^ 116 \<longleftrightarrow> d \<le> 8589934 * 2 ^ 116 + 2 ^ 115" for d
    using round24_below [of 8589934 116 d] by simp
  have "int (round24 (nat \<bar>i\<bar>)) < 8589935 * 2 ^ 116 \<longleftrightarrow> \<bar>i\<bar> \<le> 8589935 * 2 ^ 116 - 2 ^ 115" for i
  proof -
    have "int (round24 (nat \<bar>i\<bar>)) < 8589935 * 2 ^ 116 \<longleftrightarrow> round24 (nat \<bar>i\<bar>) < 8589935 * 2 ^ 116"
      by (simp only: of_nat_less_iff [where 'a = int, symmetric]) simp
    also have "\<dots> \<longleftrightarrow> nat \<bar>i\<bar> \<le> 8589934 * 2 ^ 116 + 2 ^ 115" by (rule nat_iff)
    also have "\<dots> \<longleftrightarrow> \<bar>i\<bar> \<le> 8589935 * 2 ^ 116 - 2 ^ 115"
      by (simp add: nat_le_iff)
    finally show ?thesis .
  qed
  then show ?thesis by (simp only: IsNearlyEqual_def threshold_units)
qed

section \<open>Reading by type\<close>

text \<open>The getter of each type, its result as the variant it was read from.\<close>

definition rv_read :: "rv_type \<Rightarrow> rep_value \<Rightarrow> rv_error + rv_impl" where
  "rv_read t v = (case t of
     RBoolean \<Rightarrow> map_sum id VBool (GetBool v)
   | RInteger \<Rightarrow> map_sum id VInt (GetInt v)
   | RFloat \<Rightarrow> map_sum id VFloat (GetFloat v)
   | RString \<Rightarrow> map_sum id VStr (GetString v)
   | RVector2 \<Rightarrow> map_sum id (\<lambda>(x, y). VVec2 x y) (GetVector2 v)
   | RVector3 \<Rightarrow> map_sum id (\<lambda>(x, y, z). VVec3 x y z) (GetVector3 v)
   | RVector4 \<Rightarrow> map_sum id (\<lambda>(x, y, z, w). VVec4 x y z w) (GetVector4 v)
   | RStringMap \<Rightarrow> map_sum id VMap (GetStringMap v)
   | InvalidType \<Rightarrow> Inl Rv_bad_variant_access)"

text \<open>
  On a value built by the constructors and setters, the getter of the value's own type returns
  the stored value and every other getter throws with the expected and the actual type; the
  variant underneath is never accessed at the wrong alternative.
\<close>

theorem getters_check_the_tag:
  assumes "rv_tagged v" "t \<noteq> InvalidType"
  shows "rv_read t v = (if RType v = t then Inr (RVal v) else Inl (ReplicatedValueException t (RType v)))"
  using assms
  by (cases "RVal v"; cases t)
    (auto simp: rv_read_def rv_getters rv_get_def rv_tagged_def)

lemma getters_check_the_tag_witness:
  "rv_read RInteger (SetInt 7 (RV_string ''a'')) = Inr (VInt 7)
   \<and> rv_read RFloat (RV_string ''a'') = Inl (ReplicatedValueException RFloat RString)"
  using getters_check_the_tag [of "SetInt 7 (RV_string ''a'')" RInteger]
    getters_check_the_tag [of "RV_string ''a''" RFloat]
  by (simp add: rv_tagged_def SetInt_def RV_string_def)

section \<open>Comparison is reflexive on numbers\<close>

fun rv_finite :: "rep_value \<Rightarrow> bool" and impl_finite :: "rv_impl \<Rightarrow> bool"
  and map_finite :: "(string \<times> rep_value) list \<Rightarrow> bool" where
  "rv_finite (RepVal i t) \<longleftrightarrow> impl_finite i"
| "impl_finite (VFloat x) \<longleftrightarrow> \<not> f32_nan x"
| "impl_finite (VVec2 x y) \<longleftrightarrow> f32_finite x \<and> f32_finite y"
| "impl_finite (VVec3 x y z) \<longleftrightarrow> f32_finite x \<and> f32_finite y \<and> f32_finite z"
| "impl_finite (VVec4 x y z w) \<longleftrightarrow> f32_finite x \<and> f32_finite y \<and> f32_finite z \<and> f32_finite w"
| "impl_finite (VMap m) \<longleftrightarrow> map_finite m"
| "impl_finite _ \<longleftrightarrow> True"
| "map_finite [] \<longleftrightarrow> True"
| "map_finite ((k, v) # m) \<longleftrightarrow> rv_finite v \<and> map_finite m"

lemma rep_eq_refl: "rep_eq v v \<longleftrightarrow> rv_finite v" "impl_eq i i \<longleftrightarrow> impl_finite i" "map_eq m m \<longleftrightarrow> map_finite m"
  by (induction v and i and m rule: rv_finite_impl_finite_map_finite.induct)
    (simp_all add: f32_eq_refl IsNearlyEqual_refl)

lemma rep_eq_sym: "rep_eq v w \<longleftrightarrow> rep_eq w v" "impl_eq i j \<longleftrightarrow> impl_eq j i" "map_eq m n \<longleftrightarrow> map_eq n m"
  by (induction v w and i j and m n rule: rep_eq_impl_eq_map_eq.induct)
    (auto simp: f32_eq_sym IsNearlyEqual_sym)

end
