(* ===== verification/Csp_String.thy ===== *)
theory Csp_String
  imports Prelude "HOL-Library.Sublist"
begin

text \<open>
  The string class (\<open>include/CSP/Common/String.h\<close>, \<open>src/Common/String.cpp\<close>) and the URI encoding
  of strings (\<open>src/Common/Encode.cpp\<close>). A string is the list of its \<open>Length\<close> characters; the
  terminating NUL is not part of it. Functions of the C library stop at the first NUL, so a
  string with an embedded NUL is seen shortened by them. \<open>char\<close> is signed, as on the platforms
  the library is built for.
\<close>

section \<open>C strings\<close>

text \<open>A C string ends at its first NUL.\<close>

definition c_str :: "string \<Rightarrow> string" where
  "c_str s = takeWhile (\<lambda>c. c \<noteq> CHR 0x00) s"

definition nul_free :: "string \<Rightarrow> bool" where
  "nul_free s \<longleftrightarrow> CHR 0x00 \<notin> set s"

definition strchr :: "char \<Rightarrow> string \<Rightarrow> nat option" where
  "strchr c s = (if c \<in> set (c_str s) then Some (length (takeWhile (\<lambda>x. x \<noteq> c) (c_str s))) else None)"

fun strcmp :: "string \<Rightarrow> string \<Rightarrow> int" where
  "strcmp [] [] = 0"
| "strcmp [] (y # ys) = -1"
| "strcmp (x # xs) [] = 1"
| "strcmp (x # xs) (y # ys) =
     (if x = y then strcmp xs ys else int (of_char x) - int (of_char y))"

fun strstr :: "string \<Rightarrow> string \<Rightarrow> nat option" where
  "strstr needle [] = (if needle = [] then Some 0 else None)"
| "strstr needle (c # hay) =
     (if take (length needle) (c # hay) = needle then Some 0 else map_option Suc (strstr needle hay))"

section \<open>The class\<close>

text \<open>From a C string, and from a character array with a length.\<close>

definition String_of :: "string \<Rightarrow> string" where
  "String_of Text = c_str Text"

definition String_of_n :: "string \<Rightarrow> nat \<Rightarrow> string" where
  "String_of_n Text Len = (if Len = 0 then [] else take Len Text)"

definition String_Append :: "string \<Rightarrow> string \<Rightarrow> string" where
  "String_Append Other s = (if length Other = 0 then s else s @ Other)"

definition String_eq :: "string \<Rightarrow> string \<Rightarrow> bool" where
  "String_eq s Other =
     (if length s = 0 \<and> length Other = 0 then True
      else if length s = 0 \<or> length Other = 0 then False
      else strcmp (c_str s) (c_str Other) = 0)"

definition String_less :: "string \<Rightarrow> string \<Rightarrow> bool" where
  "String_less s Other \<longleftrightarrow> strcmp (c_str s) (c_str Other) < 0"

text \<open>
  The loop of \<open>Split\<close> from \<open>Start\<close> on. Splitting at NUL would run past the terminator.
\<close>

function split_from :: "char \<Rightarrow> string \<Rightarrow> string list" where
  "split_from Separator Start =
     (case strchr Separator Start of
        None \<Rightarrow> [String_of Start]
      | Some Index \<Rightarrow> String_of_n Start Index # split_from Separator (drop (Suc Index) Start))"
  by pat_completeness auto
termination
proof (relation "measure (length \<circ> snd)")
  fix c s i assume "strchr c s = Some i"
  then have "s \<noteq> []" by (auto simp: strchr_def c_str_def)
  then show "((c, drop (Suc i) s), (c, s)) \<in> measure (length \<circ> snd)" by (cases s) auto
qed simp

definition Split :: "char \<Rightarrow> string \<Rightarrow> string list option" where
  "Split Separator s = (if Separator = CHR 0x00 then None else Some (split_from Separator s))"

definition is_whitespace :: "char \<Rightarrow> bool" where
  "is_whitespace c \<longleftrightarrow> c \<in> {CHR '' '', CHR 0x0D, CHR 0x0A, CHR 0x09}"

fun trim_leading :: "string \<Rightarrow> string" where
  "trim_leading [] = []"
| "trim_leading (c # cs) = (if is_whitespace c then trim_leading cs else c # cs)"

definition Trim :: "string \<Rightarrow> string" where
  "Trim s = rev (trim_leading (rev (trim_leading s)))"

definition tolower :: "char \<Rightarrow> char" where
  "tolower c = (if CHR ''A'' \<le> c \<and> c \<le> CHR ''Z'' then char_of (of_char c + 32 :: nat) else c)"

definition ToLower :: "string \<Rightarrow> string" where
  "ToLower s = map tolower s"

text \<open>
  \<open>Join\<close> allocates a zeroed buffer for all characters and one separator less than there are
  parts, writes the parts and a separator after each of them that is not empty, and ends the
  buffer with a NUL.
\<close>

fun join_write :: "string list \<Rightarrow> char option \<Rightarrow> string" where
  "join_write [] Separator = []"
| "join_write (p # ps) Separator =
     (if length p = 0 then join_write ps Separator
      else p @ (case Separator of Some c \<Rightarrow> [c] | None \<Rightarrow> []) @ join_write ps Separator)"

definition join_length :: "string list \<Rightarrow> char option \<Rightarrow> nat" where
  "join_length Parts Separator =
     sum_list (map length Parts) + (if Separator \<noteq> None then length Parts - 1 else 0)"

definition Join :: "string list \<Rightarrow> char option \<Rightarrow> string" where
  "Join Parts Separator =
     (if length Parts = 0 \<or> sum_list (map length Parts) = 0 then []
      else let n = join_length Parts Separator; written = join_write Parts Separator;
               Buffer = written @ replicate (Suc n - length written) CHR 0x00
           in String_of (Buffer[n := CHR 0x00]))"

definition String_Contains :: "string \<Rightarrow> string \<Rightarrow> bool" where
  "String_Contains Substring s =
     (if length Substring = 0 then False else strstr (c_str Substring) (c_str s) \<noteq> None)"

definition StartsWith :: "string \<Rightarrow> string \<Rightarrow> bool" where
  "StartsWith Prefix s =
     (if length Prefix = 0 \<or> length s < length Prefix then False else take (length Prefix) s = Prefix)"

definition EndsWith :: "string \<Rightarrow> string \<Rightarrow> bool" where
  "EndsWith Postfix s =
     (if length Postfix = 0 \<or> length s < length Postfix then False
      else drop (length s - length Postfix) s = Postfix)"

definition SubString :: "nat \<Rightarrow> nat option \<Rightarrow> string \<Rightarrow> string" where
  "SubString Offset Length s =
     (if length s \<le> Offset then []
      else let MaxSubStringLength = length s - Offset
           in String_of_n (drop Offset s)
                (case Length of Some n \<Rightarrow> min n MaxSubStringLength | None \<Rightarrow> MaxSubStringLength))"

section \<open>What the operations compute\<close>

lemma c_str_id [simp]: "nul_free s \<Longrightarrow> c_str s = s"
  by (auto simp: c_str_def nul_free_def takeWhile_eq_all_conv)

lemma nul_free_simps [simp]:
  "nul_free []" "nul_free (c # s) \<longleftrightarrow> c \<noteq> CHR 0x00 \<and> nul_free s" "nul_free (s @ t) \<longleftrightarrow> nul_free s \<and> nul_free t"
  "nul_free (c_str s)"
  by (auto simp: nul_free_def c_str_def dest: set_takeWhileD)

lemma c_str_append: "nul_free s \<Longrightarrow> c_str (s @ t) = s @ c_str t"
  by (induction s) (auto simp: c_str_def nul_free_def)

subsection \<open>Comparison\<close>

text \<open>The order of strings as map keys is the lexicographic order on character codes.\<close>

lemma strcmp_less: "strcmp s t < 0 \<longleftrightarrow> s < t"
  by (induction s t rule: strcmp.induct) (auto simp: less_char_def)

lemma strcmp_eq: "strcmp s t = 0 \<longleftrightarrow> s = t"
  by (induction s t rule: strcmp.induct) auto

lemma String_eq_iff: "nul_free s \<Longrightarrow> nul_free t \<Longrightarrow> String_eq s t \<longleftrightarrow> s = t"
  by (auto simp: String_eq_def strcmp_eq)

lemma String_less_iff: "nul_free s \<Longrightarrow> nul_free t \<Longrightarrow> String_less s t \<longleftrightarrow> s < t"
  by (simp add: String_less_def strcmp_less)

subsection \<open>Searching\<close>

lemma strstr_iff: "strstr t s \<noteq> None \<longleftrightarrow> sublist t s"
proof (induction t s rule: strstr.induct)
  case (2 t c s)
  have "take (length t) (c # s) = t \<longleftrightarrow> prefix t (c # s)"
    by (metis append_take_drop_id prefix_def append_eq_conv_conj)
  then show ?case using 2 by (auto simp: sublist_Cons_right)
qed simp

lemma String_Contains_iff:
  "nul_free s \<Longrightarrow> nul_free t \<Longrightarrow> String_Contains t s \<longleftrightarrow> t \<noteq> [] \<and> sublist t s"
  by (simp add: String_Contains_def strstr_iff [symmetric] del: not_None_eq)

lemma StartsWith_iff: "StartsWith t s \<longleftrightarrow> t \<noteq> [] \<and> prefix t s"
  by (auto simp: StartsWith_def prefix_def) (metis append_take_drop_id)

lemma EndsWith_iff: "EndsWith t s \<longleftrightarrow> t \<noteq> [] \<and> suffix t s"
  by (auto simp: EndsWith_def suffix_def) (metis append_take_drop_id)

lemma trim_leading_suffix: "\<exists>a. s = a @ trim_leading s \<and> list_all is_whitespace a"
proof (induction s)
  case (Cons c s)
  then obtain a where "s = a @ trim_leading s" "list_all is_whitespace a" by blast
  then show ?case by (cases "is_whitespace c") (auto intro: exI [of _ "c # a"])
qed simp

lemma trim_leading_start: "trim_leading s = c # t \<Longrightarrow> \<not> is_whitespace c"
  by (induction s) (auto split: if_splits)

lemma Trim_spec: "\<exists>a b. s = a @ Trim s @ b \<and> list_all is_whitespace (a @ b)"
proof -
  obtain a where a: "s = a @ trim_leading s" "list_all is_whitespace a" using trim_leading_suffix by blast
  obtain b where b: "rev (trim_leading s) = b @ trim_leading (rev (trim_leading s))" "list_all is_whitespace b"
    using trim_leading_suffix by blast
  have "trim_leading s = Trim s @ rev b" using arg_cong [OF b(1), of rev] by (simp add: Trim_def)
  then show ?thesis using a b(2) by (intro exI [of _ a] exI [of _ "rev b"]) (auto simp: list_all_iff)
qed

subsection \<open>Splitting and joining\<close>

declare split_from.simps [simp del]

lemma split_from_last: "nul_free s \<Longrightarrow> c \<notin> set s \<Longrightarrow> split_from c s = [s]"
  by (simp add: split_from.simps [of c s] strchr_def String_of_def)

lemma split_from_step:
  assumes "nul_free p" "c \<notin> set p" "c \<noteq> CHR 0x00"
  shows "split_from c (p @ c # s) = p # split_from c s"
proof -
  have "c \<in> set (c_str (p @ c # s))" using assms by (simp add: c_str_append) (simp add: c_str_def)
  moreover have "takeWhile (\<lambda>x. x \<noteq> c) (c_str (p @ c # s)) = p"
    using assms by (simp add: c_str_append) (auto simp: c_str_def intro!: takeWhile_eq_all_conv [THEN iffD2]
        trans [OF takeWhile_append2])
  ultimately show ?thesis by (simp add: split_from.simps [of c "p @ c # s"] strchr_def String_of_n_def)
qed

text \<open>The parts written one after the other, each closed by the separator.\<close>

definition closed_parts :: "char \<Rightarrow> string list \<Rightarrow> string" where
  "closed_parts c ps = concat (map (\<lambda>p. p @ [c]) (filter (\<lambda>p. p \<noteq> []) ps))"

lemma join_write_closed: "join_write ps (Some c) = closed_parts c ps"
  by (induction ps) (auto simp: closed_parts_def)

lemma closed_parts_length:
  "length (closed_parts c ps) = sum_list (map length ps) + length (filter (\<lambda>p. p \<noteq> []) ps)"
  by (induction ps) (auto simp: closed_parts_def)

lemma join_write_plain: "join_write ps None = concat ps"
  by (induction ps) auto

lemma filter_short: "[] \<in> set ps \<Longrightarrow> length (filter (\<lambda>p. p \<noteq> []) ps) < length ps"
  by (metis (mono_tags, lifting) length_filter_less)

text \<open>The writes stay inside the buffer.\<close>

lemma join_write_fits: "ps \<noteq> [] \<Longrightarrow> length (join_write ps sep) \<le> Suc (join_length ps sep)"
proof (cases sep)
  case None
  then show ?thesis by (simp add: join_write_plain join_length_def length_concat)
next
  case (Some c)
  moreover assume "ps \<noteq> []"
  ultimately show ?thesis
    using length_filter_le [of "\<lambda>p. p \<noteq> []" ps] by (cases ps) (simp_all add: join_write_closed closed_parts_length join_length_def)
qed

lemma nul_free_closed: "c \<noteq> CHR 0x00 \<Longrightarrow> \<forall>p \<in> set ps. nul_free p \<Longrightarrow> nul_free (closed_parts c ps)"
  by (induction ps) (auto simp: closed_parts_def)

lemma Join_closed:
  assumes ne: "\<exists>p \<in> set ps. p \<noteq> []" and ok: "\<forall>p \<in> set ps. nul_free p" "c \<noteq> CHR 0x00"
  shows "Join ps (Some c) = (if [] \<in> set ps then closed_parts c ps else butlast (closed_parts c ps))"
proof -
  let ?w = "closed_parts c ps" let ?n = "join_length ps (Some c)" let ?f = "filter (\<lambda>p. p \<noteq> []) ps"
  have n: "?n = sum_list (map length ps) + length ps - 1" and psne: "ps \<noteq> []" using ne
    by (cases ps; force simp: join_length_def)+
  have sum: "\<not> (\<forall>p \<in> set ps. p = [])" using ne by blast
  have nul: "nul_free ?w" using nul_free_closed ok by blast
  have cut: "Join ps (Some c) = c_str ((?w @ replicate (Suc ?n - length ?w) CHR 0x00)[?n := CHR 0x00])"
    using sum psne by (auto simp: Join_def Let_def join_write_closed String_of_def del: replicate_Suc)
  show ?thesis
  proof (cases "[] \<in> set ps")
    case True
    then have "length ?w \<le> ?n" using filter_short [OF True] n psne by (cases ps) (simp_all add: closed_parts_length)
    then have "(?w @ replicate (Suc ?n - length ?w) CHR 0x00)[?n := CHR 0x00] = ?w @ replicate (Suc ?n - length ?w) CHR 0x00"
      by (intro list_update_same_conv [THEN iffD2]) (simp_all add: nth_append)
    then have "Join ps (Some c) = c_str (?w @ replicate (Suc ?n - length ?w) CHR 0x00)" using cut by simp
    then show ?thesis using True nul \<open>length ?w \<le> ?n\<close>
      by (simp add: c_str_append Suc_diff_le) (simp add: c_str_def)
  next
    case False
    then have f: "?f = ps" by (auto intro: filter_True)
    then have len: "length ?w = Suc ?n" using n psne by (cases ps) (simp_all add: closed_parts_length)
    then obtain w' x where w': "?w = w' @ [x]" by (metis length_Suc_conv_rev)
    then have "?w[?n := CHR 0x00] = w' @ [CHR 0x00]" using len by (simp add: list_update_append)
    then have "Join ps (Some c) = c_str (w' @ [CHR 0x00])" using cut len by simp
    then show ?thesis using False nul w' by (simp add: c_str_append) (simp add: c_str_def)
  qed
qed

lemma split_closed:
  assumes "c \<noteq> CHR 0x00" "\<forall>p \<in> set ps. nul_free p \<and> c \<notin> set p"
  shows "split_from c (closed_parts c ps) = filter (\<lambda>p. p \<noteq> []) ps @ [[]]"
  using assms(2)
proof (induction ps)
  case Nil
  then show ?case by (simp add: closed_parts_def split_from_last)
next
  case (Cons p ps)
  then have IH: "split_from c (closed_parts c ps) = filter (\<lambda>p. p \<noteq> []) ps @ [[]]" by simp
  show ?case
  proof (cases "p = []")
    case False
    then have "closed_parts c (p # ps) = p @ c # closed_parts c ps" by (simp add: closed_parts_def)
    then show ?thesis using split_from_step [of p c] IH Cons.prems assms(1) False by simp
  qed (use IH in \<open>simp add: closed_parts_def\<close>)
qed

lemma split_unclosed:
  assumes "c \<noteq> CHR 0x00" "\<forall>p \<in> set ps. nul_free p \<and> c \<notin> set p" "ps \<noteq> []" "[] \<notin> set ps"
  shows "split_from c (butlast (closed_parts c ps)) = ps"
  using assms(2-)
proof (induction ps)
  case (Cons p ps)
  show ?case
  proof (cases "ps = []")
    case True
    then show ?thesis using Cons.prems by (auto simp: closed_parts_def butlast_append split_from_last)
  next
    case False
    then have "closed_parts c (p # ps) = p @ c # closed_parts c ps" "closed_parts c ps \<noteq> []"
      using Cons.prems False by (auto simp: closed_parts_def filter_empty_conv) (metis hd_in_set)
    then show ?thesis using Cons False split_from_step [of p c] assms(1) by (simp add: butlast_append)
  qed
qed simp

text \<open>
  \<open>Split\<close> undoes \<open>Join\<close> exactly when no part is empty. An empty part is dropped together with its
  separator while the buffer was sized for it, so the joined string ends with a separator and
  splits into the non-empty parts and one empty string.
\<close>

theorem split_undoes_join:
  assumes "c \<noteq> CHR 0x00" "ps \<noteq> []" "\<forall>p \<in> set ps. nul_free p \<and> c \<notin> set p"
  shows "Split c (Join ps (Some c)) = Some (if [] \<in> set ps then filter (\<lambda>p. p \<noteq> []) ps @ [[]] else ps)"
proof (cases "\<exists>p \<in> set ps. p \<noteq> []")
  case True
  then show ?thesis
    using assms Join_closed [OF True _ assms(1)] split_closed [OF assms(1,3)] split_unclosed [OF assms(1,3,2)]
    by (simp add: Split_def)
next
  case False
  then have "Join ps (Some c) = []" "filter (\<lambda>p. p \<noteq> []) ps = []" "[] \<in> set ps"
    using assms(2) hd_in_set [of ps] by (auto simp: Join_def filter_empty_conv simp del: hd_in_set)
  then show ?thesis using assms(1) by (simp add: Split_def split_from_last)
qed

lemma split_undoes_join_witness:
  "Split CHR '','' (Join [''a'', '''', ''b''] (Some CHR '','')) = Some [''a'', ''b'', '''']
   \<and> Split CHR '','' (Join [''a'', ''b''] (Some CHR '','')) = Some [''a'', ''b'']"
  using split_undoes_join [of "CHR '',''" "[''a'', '''', ''b'']"] split_undoes_join [of "CHR '',''" "[''a'', ''b'']"]
  by simp

end
