(* ===== verification/Component_Packer.thy ===== *)
theory Component_Packer
  imports Mcs_Types Replicated_Value Csp_String
begin

text \<open>
  The conversions between replicated values and the component values of the service
  (\<open>src/Multiplayer/MCSComponentPacker.h\<close> and \<open>.cpp\<close>), the packer that collects component
  values by key and the unpacker that reads them, with the key ranges of
  \<open>src/Multiplayer/SpaceEntityKeys.h\<close>.
\<close>

section \<open>Key ranges\<close>

definition COMPONENT_KEYS_START_VIEWS :: u16 where "COMPONENT_KEYS_START_VIEWS = 64511"
definition COMPONENT_KEY_START_COMPONENTS :: u16 where "COMPONENT_KEY_START_COMPONENTS = 0"
definition COMPONENT_KEY_END_COMPONENTS :: u16 where "COMPONENT_KEY_END_COMPONENTS = 64510"
definition COMPONENT_KEY_COMPONENTTYPE :: u16 where "COMPONENT_KEY_COMPONENTTYPE = 64516"

definition KEY_NAME :: u16 where "KEY_NAME = 64511"
definition KEY_POSITION :: u16 where "KEY_POSITION = 64512"
definition KEY_ROTATION :: u16 where "KEY_ROTATION = 64513"
definition KEY_SCALE :: u16 where "KEY_SCALE = 64514"
definition KEY_SELECTED_CLIENT_ID :: u16 where "KEY_SELECTED_CLIENT_ID = 64515"
definition KEY_THIRD_PARTY_REF :: u16 where "KEY_THIRD_PARTY_REF = 64517"
definition KEY_LOCK_TYPE :: u16 where "KEY_LOCK_TYPE = 64519"

lemmas key_defs = COMPONENT_KEYS_START_VIEWS_def COMPONENT_KEY_START_COMPONENTS_def
  COMPONENT_KEY_END_COMPONENTS_def COMPONENT_KEY_COMPONENTTYPE_def KEY_NAME_def KEY_POSITION_def
  KEY_ROTATION_def KEY_SCALE_def KEY_SELECTED_CLIENT_ID_def KEY_THIRD_PARTY_REF_def KEY_LOCK_TYPE_def

section \<open>Replicated values from component values\<close>

text \<open>A \<open>std::string\<close> becomes a \<open>String\<close> through \<open>c_str()\<close>: it ends at the first NUL.\<close>

fun ToReplicatedValue :: "icd \<Rightarrow> ser_error + rep_value"
  and ToReplicatedMap :: "(string \<times> icd) list \<Rightarrow> (string, rep_value) omap \<Rightarrow> ser_error + (string, rep_value) omap" where
  "ToReplicatedValue (IBool b) = Inr (RV_bool b)"
| "ToReplicatedValue (IInt i) = Inr (RV_int i)"
| "ToReplicatedValue (IUint n) = Inr (RV_int n)"
| "ToReplicatedValue (IFloat x) = Inr (RV_float x)"
| "ToReplicatedValue (IFloatArr xs) =
     (case xs of
        [x, y] \<Rightarrow> Inr (RV_vector2 x y)
      | [x, y, z] \<Rightarrow> Inr (RV_vector3 x y z)
      | [x, y, z, w] \<Rightarrow> Inr (RV_vector4 x y z w)
      | _ \<Rightarrow> Inl (Runtime_error ''Unsupported float array size.''))"
| "ToReplicatedValue (IDouble x) = Inl (Runtime_error ''Unsupported'')"
| "ToReplicatedValue (IStr s) = Inr (RV_string (c_str s))"
| "ToReplicatedValue (IU16Dict m) = Inl (Runtime_error ''Not yet implemented'')"
| "ToReplicatedValue (IStrDict m) = rbind (ToReplicatedMap m []) (\<lambda>m. Inr (RV_map m))"
| "ToReplicatedMap [] acc = Inr acc"
| "ToReplicatedMap (kv # m) acc =
     rbind (ToReplicatedValue (snd kv)) (\<lambda>v. ToReplicatedMap m (omap_upd (c_str (fst kv)) v acc))"

section \<open>Component values from replicated values\<close>

text \<open>The variant is visited; the tag, \<open>InvalidType\<close> included, is not looked at.\<close>

fun ToItemComponentData :: "rep_value \<Rightarrow> icd" and ToItemComponentData_impl :: "rv_impl \<Rightarrow> icd"
  and ToItemComponentMap :: "(string \<times> rep_value) list \<Rightarrow> (string, icd) omap \<Rightarrow> (string, icd) omap" where
  "ToItemComponentData (RepVal i t) = ToItemComponentData_impl i"
| "ToItemComponentData_impl (VBool b) = IBool b"
| "ToItemComponentData_impl (VFloat x) = IFloat x"
| "ToItemComponentData_impl (VInt i) = IInt i"
| "ToItemComponentData_impl (VStr s) = IStr (c_str s)"
| "ToItemComponentData_impl (VVec2 x y) = IFloatArr [x, y]"
| "ToItemComponentData_impl (VVec3 x y z) = IFloatArr [x, y, z]"
| "ToItemComponentData_impl (VVec4 x y z w) = IFloatArr [x, y, z, w]"
| "ToItemComponentData_impl (VMap m) = IStrDict (ToItemComponentMap m [])"
| "ToItemComponentMap [] acc = acc"
| "ToItemComponentMap (kv # m) acc =
     ToItemComponentMap m (omap_upd (c_str (fst kv)) (ToItemComponentData (snd kv)) acc)"

section \<open>Packer and unpacker\<close>

type_synonym packer = "(u16, icd) omap"

definition PackValue :: "u16 \<Rightarrow> icd \<Rightarrow> packer \<Rightarrow> packer" where
  "PackValue Key Value Components = omap_upd Key Value Components"

definition TryReadValue :: "packer \<Rightarrow> u16 \<Rightarrow> ser_error + rep_value option" where
  "TryReadValue Components Key =
     (case map_of Components Key of
        None \<Rightarrow> Inr None
      | Some ComponentData \<Rightarrow> rbind (ToReplicatedValue ComponentData) (\<lambda>v. Inr (Some v)))"

definition GetRuntimeComponentsCount :: "packer \<Rightarrow> nat" where
  "GetRuntimeComponentsCount Components =
     length (filter (\<lambda>kv. fst kv < COMPONENT_KEY_END_COMPONENTS) Components)"

section \<open>Values survive the conversion\<close>

text \<open>
  Values as the library builds them: tagged, NUL free, maps in key order. (A \<open>String\<close> is built
  from C strings, so it has no NUL.)
\<close>

fun rv_valid :: "rep_value \<Rightarrow> bool" and impl_valid :: "rv_impl \<Rightarrow> bool"
  and map_valid :: "(string \<times> rep_value) list \<Rightarrow> bool" where
  "rv_valid (RepVal i t) \<longleftrightarrow> t = rv_tag i \<and> impl_valid i"
| "impl_valid (VFloat x) \<longleftrightarrow> f32_quiet x = x"
| "impl_valid (VStr s) \<longleftrightarrow> nul_free s"
| "impl_valid (VVec2 x y) \<longleftrightarrow> f32_quiet x = x \<and> f32_quiet y = y"
| "impl_valid (VVec3 x y z) \<longleftrightarrow> f32_quiet x = x \<and> f32_quiet y = y \<and> f32_quiet z = z"
| "impl_valid (VVec4 x y z w) \<longleftrightarrow> f32_quiet x = x \<and> f32_quiet y = y \<and> f32_quiet z = z \<and> f32_quiet w = w"
| "impl_valid (VMap m) \<longleftrightarrow> omap_ok m \<and> map_valid m"
| "impl_valid _ \<longleftrightarrow> True"
| "map_valid [] \<longleftrightarrow> True"
| "map_valid (kv # m) \<longleftrightarrow> nul_free (fst kv) \<and> rv_valid (snd kv) \<and> map_valid m"

definition icd_of_map :: "(string \<times> rep_value) list \<Rightarrow> (string \<times> icd) list" where
  "icd_of_map m = map (\<lambda>kv. (fst kv, ToItemComponentData (snd kv))) m"

lemma ToItemComponentMap_conv:
  "map_valid m \<Longrightarrow> omap_ok (acc @ icd_of_map m) \<Longrightarrow> ToItemComponentMap m acc = acc @ icd_of_map m"
proof (induction m arbitrary: acc)
  case (Cons kv m)
  have "\<forall>k' \<in> fst ` set acc. k' < fst kv"
    using Cons.prems(2) by (auto simp: omap_ok_def sorted_wrt_append icd_of_map_def)
  then have "omap_upd (fst kv) (ToItemComponentData (snd kv)) acc = acc @ [(fst kv, ToItemComponentData (snd kv))]"
    by (rule omap_upd_append)
  with Cons show ?case by (simp add: icd_of_map_def)
qed (simp add: icd_of_map_def)

lemma omap_ok_icd_of_map: "omap_ok m \<Longrightarrow> omap_ok (icd_of_map m)"
  using omap_ok_map_keys [of m id ToItemComponentData] by (simp add: icd_of_map_def strict_mono_def)

lemma ToItemComponentMap_id: "map_valid m \<Longrightarrow> omap_ok m \<Longrightarrow> ToItemComponentMap m [] = icd_of_map m"
  using ToItemComponentMap_conv [of m "[]"] by (simp add: omap_ok_icd_of_map)

lemma map_valid_elem: "map_valid m \<longleftrightarrow> (\<forall>kv \<in> set m. nul_free (fst kv) \<and> rv_valid (snd kv))"
  by (induction m) auto

lemma ToReplicatedMap_conv:
  "\<forall>kv \<in> set m. nul_free (fst kv) \<and> ToReplicatedValue (ToItemComponentData (snd kv)) = Inr (snd kv)
   \<Longrightarrow> omap_ok (acc @ m) \<Longrightarrow> ToReplicatedMap (icd_of_map m) acc = Inr (acc @ m)"
proof (induction m arbitrary: acc)
  case (Cons kv m)
  have "\<forall>k' \<in> fst ` set acc. k' < fst kv"
    using Cons.prems(2) by (auto simp: omap_ok_def sorted_wrt_append)
  then have "omap_upd (fst kv) (snd kv) acc = acc @ [kv]"
    by (simp add: omap_upd_append)
  with Cons show ?case by (simp add: icd_of_map_def)
qed (simp add: icd_of_map_def)

lemma rv_roundtrip_valid:
  "rv_valid v \<Longrightarrow> ToReplicatedValue (ToItemComponentData v) = Inr v \<and> icd_ok (ToItemComponentData v)"
  "impl_valid i \<Longrightarrow> ToReplicatedValue (ToItemComponentData_impl i) = Inr (RepVal i (rv_tag i))
     \<and> icd_ok (ToItemComponentData_impl i)"
  "map_valid m \<Longrightarrow> \<forall>kv \<in> set m. nul_free (fst kv)
     \<and> ToReplicatedValue (ToItemComponentData (snd kv)) = Inr (snd kv) \<and> icd_ok (ToItemComponentData (snd kv))"
proof (induction v and i and m rule: rv_valid_impl_valid_map_valid.induct)
  case (7 m)
  then have "ToItemComponentMap m [] = icd_of_map m"
    by (simp add: ToItemComponentMap_id)
  moreover have "ToReplicatedMap (icd_of_map m) [] = Inr m"
    using ToReplicatedMap_conv [of m "[]"] 7 by simp
  ultimately show ?case
    using 7 omap_ok_icd_of_map [of m] by (auto simp: icd_of_map_def rv_constructors)
qed (simp_all add: rv_constructors)

text \<open>
  A replicated value (numbers, strings, vectors, maps of values to any depth) that is packed
  as a component value, serialised, deserialised by the receiver and unpacked is the value sent.
\<close>

theorem replicated_value_survives_the_wire:
  assumes "rv_valid v"
  shows "rbind (rbind (serialize_root ItemComponentData_Serialize (ToItemComponentData v))
      (deserialize_root ItemComponentData_Deserialize)) ToReplicatedValue = Inr v"
proof -
  have v: "ToReplicatedValue (ToItemComponentData v) = Inr v" "icd_ok (ToItemComponentData v)"
    using rv_roundtrip_valid(1) [OF assms] by auto
  show ?thesis
    using icd.roundtrip [OF v(2)] v(1) by (simp add: serialize_root_def deserialize_root_def [abs_def])
qed

lemma replicated_value_survives_the_wire_witness:
  "let v = RV_map [(''a'', RV_int 3), (''b'', RV_map [(''x'', RV_vector3 1 2 3), (''y'', RV_string ''s'')])]
   in rbind (rbind (serialize_root ItemComponentData_Serialize (ToItemComponentData v))
      (deserialize_root ItemComponentData_Deserialize)) ToReplicatedValue = Inr v"
  unfolding Let_def
  by (rule replicated_value_survives_the_wire)
    (simp add: rv_constructors nul_free_def f32_quiet_def f32_nan_def f32_exp_def less_char_def less_list_code)

text \<open>The tag is not packed: a value of invalid type arrives as a boolean.\<close>

lemma invalid_value_sent_as_false:
  "ToItemComponentData RV_default = IBool False" "ToReplicatedValue (ToItemComponentData RV_default) = Inr (RV_bool False)"
  by (simp_all add: rv_constructors)

end
