(* ===== verification/Component_Schema.thy ===== *)
theory Component_Schema
  imports Component_Packer
begin

text \<open>
  Component schemas (\<open>src/Multiplayer/ComponentSchema.cpp\<close>, \<open>ComponentProperty.cpp\<close>): the
  typed property list of a component type, the compatibility test between an original and an
  updated schema, and the numeric component types of \<open>include/CSP/Multiplayer/ComponentBase.h\<close>.
  The JSON form of a schema is in \<open>Schema_Json\<close>.
\<close>

section \<open>Schemas\<close>

record component_property =
  cp_Key :: u16
  cp_Name :: string
  cp_DefaultValue :: rep_value

record component_schema =
  sc_TypeId :: u64
  sc_Name :: string
  sc_Properties :: "component_property list"

definition property_eq :: "component_property \<Rightarrow> component_property \<Rightarrow> bool" where
  "property_eq p q \<longleftrightarrow> cp_Key p = cp_Key q \<and> cp_Name p = cp_Name q
     \<and> rep_eq (cp_DefaultValue p) (cp_DefaultValue q)"

definition schema_eq :: "component_schema \<Rightarrow> component_schema \<Rightarrow> bool" where
  "schema_eq s t \<longleftrightarrow> sc_TypeId s = sc_TypeId t \<and> sc_Name s = sc_Name t
     \<and> list_all2 property_eq (sc_Properties s) (sc_Properties t)"

text \<open>\<open>emplace\<close> keeps the first property of a key.\<close>

fun UpdatedByKey :: "component_property list \<Rightarrow> (u16, component_property) umap \<Rightarrow> (u16, component_property) umap" where
  "UpdatedByKey [] m = m"
| "UpdatedByKey (p # ps) m = UpdatedByKey ps (if map_of m (cp_Key p) = None then umap_upd (cp_Key p) p m else m)"

definition IsCompatible :: "component_schema \<Rightarrow> component_schema \<Rightarrow> bool" where
  "IsCompatible Original Updated \<longleftrightarrow>
     sc_Name Original = sc_Name Updated \<and>
     (let m = UpdatedByKey (sc_Properties Updated) []
      in list_all (\<lambda>p. case map_of m (cp_Key p) of None \<Rightarrow> False | Some q \<Rightarrow> property_eq q p)
           (sc_Properties Original))"

definition FindSchemaProperty :: "component_schema \<Rightarrow> u16 \<Rightarrow> component_property option" where
  "FindSchemaProperty Schema Key = find (\<lambda>p. cp_Key p = Key) (sc_Properties Schema)"

section \<open>Component types\<close>

definition CT_Invalid :: u64 where "CT_Invalid = 0"
definition CT_AvatarData :: u64 where "CT_AvatarData = 9"
definition CT_ScriptData :: u64 where "CT_ScriptData = 13"
definition CT_Delete :: u64 where "CT_Delete = 56"

definition ToComponentType :: "u64 \<Rightarrow> u64 option" where
  "ToComponentType TypeId =
     (if 65535 < TypeId then None
      else if TypeId \<in> {0, 1, 2, 3, 4, 5, 6, 7, 8, 9, 10, 12, 11, 13, 14, 15, 16, 17, 18, 19, 20,
                         21, 22, 23, 24, 25, 26, 27, 28, 29, 56} then Some TypeId
      else None)"

definition IsLegacyComponentTypeId :: "u64 \<Rightarrow> bool" where
  "IsLegacyComponentTypeId TypeId \<longleftrightarrow> ToComponentType TypeId \<noteq> None"

section \<open>What compatibility preserves\<close>

lemma map_of_UpdatedByKey:
  "map_of (UpdatedByKey ps m) k =
     (case map_of m k of Some p \<Rightarrow> Some p | None \<Rightarrow> find (\<lambda>p. cp_Key p = k) ps)"
  by (induction ps m rule: UpdatedByKey.induct) (auto split: option.splits)

text \<open>
  \<open>schema_extends s t\<close>: what scripts and the typed accessors rely on in \<open>s\<close>, the key, name and
  type of each property, is found in \<open>t\<close>.
\<close>

definition schema_extends :: "component_schema \<Rightarrow> component_schema \<Rightarrow> bool" where
  "schema_extends s t \<longleftrightarrow> sc_Name t = sc_Name s \<and>
     list_all (\<lambda>p. case FindSchemaProperty t (cp_Key p) of
        None \<Rightarrow> False
      | Some q \<Rightarrow> cp_Name q = cp_Name p \<and> RType (cp_DefaultValue q) = RType (cp_DefaultValue p))
     (sc_Properties s)"

lemma FindSchemaProperty_Some:
  "FindSchemaProperty s k = Some p \<Longrightarrow> p \<in> set (sc_Properties s) \<and> cp_Key p = k"
  by (auto simp: FindSchemaProperty_def find_Some_iff)

lemma rep_eq_type: "rep_eq v w \<Longrightarrow> RType v = RType w"
  by (cases v; cases w) simp

lemma schema_extends_iff:
  "schema_extends s t \<longleftrightarrow> sc_Name t = sc_Name s \<and>
     (\<forall>p \<in> set (sc_Properties s). \<exists>q. FindSchemaProperty t (cp_Key p) = Some q
        \<and> cp_Name q = cp_Name p \<and> RType (cp_DefaultValue q) = RType (cp_DefaultValue p))"
  by (auto simp: schema_extends_def list_all_iff split: option.splits)

lemma IsCompatible_extends:
  assumes "IsCompatible s t"
  shows "schema_extends s t"
  unfolding schema_extends_iff
proof (intro conjI ballI)
  show "sc_Name t = sc_Name s" using assms by (simp add: IsCompatible_def)
  fix p assume "p \<in> set (sc_Properties s)"
  then have "case map_of (UpdatedByKey (sc_Properties t) []) (cp_Key p) of None \<Rightarrow> False | Some q \<Rightarrow> property_eq q p"
    using assms by (simp add: IsCompatible_def Let_def list_all_iff)
  then obtain q where "FindSchemaProperty t (cp_Key p) = Some q" "property_eq q p"
    by (auto simp: map_of_UpdatedByKey FindSchemaProperty_def split: option.splits)
  then show "\<exists>q. FindSchemaProperty t (cp_Key p) = Some q
      \<and> cp_Name q = cp_Name p \<and> RType (cp_DefaultValue q) = RType (cp_DefaultValue p)"
    by (auto simp: property_eq_def dest: rep_eq_type)
qed

lemma schema_extends_trans:
  assumes "schema_extends s t" "schema_extends t u"
  shows "schema_extends s u"
  unfolding schema_extends_iff
proof (intro conjI ballI)
  show "sc_Name u = sc_Name s" using assms by (simp add: schema_extends_iff)
  fix p assume "p \<in> set (sc_Properties s)"
  with assms(1) obtain q where q: "FindSchemaProperty t (cp_Key p) = Some q" "cp_Name q = cp_Name p"
    "RType (cp_DefaultValue q) = RType (cp_DefaultValue p)"
    by (auto simp: schema_extends_iff)
  then have "q \<in> set (sc_Properties t)" "cp_Key q = cp_Key p"
    using FindSchemaProperty_Some by auto
  with assms(2) q show "\<exists>r. FindSchemaProperty u (cp_Key p) = Some r
      \<and> cp_Name r = cp_Name p \<and> RType (cp_DefaultValue r) = RType (cp_DefaultValue p)"
    by (fastforce simp: schema_extends_iff)
qed

lemma find_distinct_key:
  "distinct (map f ps) \<Longrightarrow> p \<in> set ps \<Longrightarrow> find (\<lambda>q. f q = f p) ps = Some p"
  by (induction ps) auto

lemma schema_extends_refl: "distinct (map cp_Key (sc_Properties s)) \<Longrightarrow> schema_extends s s"
  by (auto simp: schema_extends_def list_all_iff FindSchemaProperty_def find_distinct_key)

end
