(* ===== verification/Builtin_Schemas.thy ===== *)
theory Builtin_Schemas
  imports Component_Schema
begin

text \<open>
  The schemas of the built-in component types, one definition per file of
  \<open>src/Multiplayer/Components\<close>: property key (the number of the \<open>PropertyKeys\<close> enumerator), name
  (empty where the property is not exposed to scripting) and typed default. Floats are written as
  their bit patterns. The list \<open>builtin_schemas\<close> is in the order in which the registry adds them.
\<close>

definition property :: "u16 \<Rightarrow> string \<Rightarrow> rep_value \<Rightarrow> component_property" where
  "property Key Name DefaultValue = \<lparr>cp_Key = Key, cp_Name = Name, cp_DefaultValue = DefaultValue\<rparr>"

definition AIChatbot_schema :: component_schema where
  "AIChatbot_schema = \<lparr>sc_TypeId = 29, sc_Name = ''AIChatbot'', sc_Properties = [
     property 0 ''position'' (RV_vector3 0 0 0),
     property 1 ''voice'' (RV_string []),
     property 2 ''guardrailAssetCollectionId'' (RV_string []),
     property 3 ''visualState'' (RV_int 0)]\<rparr>"

definition AnimatedModel_schema :: component_schema where
  "AnimatedModel_schema = \<lparr>sc_TypeId = 4, sc_Name = ''AnimatedModel'', sc_Properties = [
     property 1 ''externalResourceAssetId'' (RV_string []),
     property 2 ''externalResourceAssetCollectionId'' (RV_string []),
     property 14 [] (RV_map []),
     property 3 ''position'' (RV_vector3 0 0 0),
     property 4 ''rotation'' (RV_vector4 0 0 0 0x3F800000),
     property 5 ''scale'' (RV_vector3 0x3F800000 0x3F800000 0x3F800000),
     property 6 ''isLoopPlayback'' (RV_bool False),
     property 7 ''isPlaying'' (RV_bool False),
     property 8 ''isVisible'' (RV_bool True),
     property 10 ''animationIndex'' (RV_int (- 1)),
     property 11 ''isARVisible'' (RV_bool True),
     property 12 [] (RV_string []),
     property 13 ''isShadowCaster'' (RV_bool True),
     property 15 ''isVirtualVisible'' (RV_bool True),
     property 16 ''showAsHoldoutInAR'' (RV_bool False),
     property 17 ''showAsHoldoutInVirtual'' (RV_bool False)]\<rparr>"

definition Audio_schema :: component_schema where
  "Audio_schema = \<lparr>sc_TypeId = 17, sc_Name = ''Audio'', sc_Properties = [
     property 0 ''position'' (RV_vector3 0 0 0),
     property 1 ''playbackState'' (RV_int 0),
     property 2 ''audioType'' (RV_int 0),
     property 3 ''audioAssetId'' (RV_string []),
     property 4 ''assetCollectionId'' (RV_string []),
     property 5 ''attenuationRadius'' (RV_float 0x41200000),
     property 6 ''isLoopPlayback'' (RV_bool False),
     property 7 ''timeSincePlay'' (RV_float 0),
     property 8 [] (RV_float 0x3F800000),
     property 9 ''isEnabled'' (RV_bool True),
     property 10 [] (RV_string [])]\<rparr>"

definition AvatarData_schema :: component_schema where
  "AvatarData_schema = \<lparr>sc_TypeId = 9, sc_Name = ''Avatar'', sc_Properties = [
     property 0 ''avatarId'' (RV_string []),
     property 1 ''userId'' (RV_string []),
     property 2 ''state'' (RV_int 0),
     property 3 [] (RV_int (- 1)),
     property 4 ''agoraUserId'' (RV_string []),
     property 5 [] (RV_string []),
     property 6 ''isHandIKEnabled'' (RV_bool False),
     property 7 ''targetHandIKTargetLocation'' (RV_vector3 0 0 0),
     property 8 ''handRotation'' (RV_vector4 0 0 0 0x3F800000),
     property 9 ''headRotation'' (RV_vector4 0 0 0 0x3F800000),
     property 10 ''walkRunBlendPercentage'' (RV_float 0),
     property 11 ''torsoTwistAlpha'' (RV_float 0),
     property 12 ''avatarPlayMode'' (RV_int 0),
     property 13 ''movementDirection'' (RV_vector3 0 0 0),
     property 14 ''locomotionModel'' (RV_int 0),
     property 15 ''isVisible'' (RV_bool True),
     property 16 ''isARVisible'' (RV_bool True),
     property 17 ''isVirtualVisible'' (RV_bool True),
     property 18 ''avatarUrl'' (RV_string [])]\<rparr>"

definition Button_schema :: component_schema where
  "Button_schema = \<lparr>sc_TypeId = 11, sc_Name = ''Button'', sc_Properties = [
     property 1 ''labelText'' (RV_string []),
     property 2 ''iconAssetId'' (RV_string []),
     property 3 ''assetCollectionId'' (RV_string []),
     property 4 ''position'' (RV_vector3 0 0 0),
     property 5 ''rotation'' (RV_vector4 0 0 0 0x3F800000),
     property 6 ''scale'' (RV_vector3 0x3F800000 0x3F800000 0x3F800000),
     property 7 ''isVisible'' (RV_bool True),
     property 8 ''isEnabled'' (RV_bool True),
     property 9 ''isARVisible'' (RV_bool True),
     property 10 ''isVirtualVisible'' (RV_bool True)]\<rparr>"

definition CinematicCamera_schema :: component_schema where
  "CinematicCamera_schema = \<lparr>sc_TypeId = 27, sc_Name = ''CinematicCamera'', sc_Properties = [
     property 0 ''position'' (RV_vector3 0 0 0),
     property 1 ''rotation'' (RV_vector4 0 0 0 0x3F800000),
     property 2 ''isEnabled'' (RV_bool True),
     property 3 ''focalLength'' (RV_float 0x3D0F5C29),
     property 4 ''aspectRatio'' (RV_float 0x3FE39581),
     property 5 ''sensorSize'' (RV_vector2 0x3D1374BC 0x3CC49BA6),
     property 6 ''nearClip'' (RV_float 0x3DCCCCCD),
     property 7 ''farClip'' (RV_float 0x469C4000),
     property 8 ''iso'' (RV_float 0x43C80000),
     property 9 ''shutterSpeed'' (RV_float 0x3C88CE70),
     property 10 ''aperture'' (RV_float 0x40800000),
     property 13 ''focusDistance'' (RV_float 0x40A00000),
     property 14 ''depthOfFieldEnabled'' (RV_bool False),
     property 11 ''isViewerCamera'' (RV_bool False),
     property 12 [] (RV_string [])]\<rparr>"

definition Collision_schema :: component_schema where
  "Collision_schema = \<lparr>sc_TypeId = 19, sc_Name = [], sc_Properties = [
     property 0 [] (RV_vector3 0 0 0),
     property 1 [] (RV_vector4 0 0 0 0x3F800000),
     property 2 [] (RV_vector3 0x3F800000 0x3F800000 0x3F800000),
     property 3 [] (RV_int 0),
     property 4 [] (RV_int 0),
     property 5 [] (RV_string []),
     property 6 [] (RV_string []),
     property 7 [] (RV_string []),
     property 8 [] (RV_bool True)]\<rparr>"

definition Conversation_schema :: component_schema where
  "Conversation_schema = \<lparr>sc_TypeId = 15, sc_Name = ''Conversation'', sc_Properties = [
     property 0 [] (RV_string []),
     property 2 ''isActive'' (RV_bool True),
     property 1 ''isVisible'' (RV_bool True),
     property 3 ''position'' (RV_vector3 0 0 0),
     property 4 ''rotation'' (RV_vector4 0 0 0 0x3F800000),
     property 5 ''title'' (RV_string []),
     property 8 ''resolved'' (RV_bool False),
     property 9 ''conversationCameraPosition'' (RV_vector3 0 0 0),
     property 10 ''conversationCameraRotation'' (RV_vector4 0 0 0 0x3F800000)]\<rparr>"

definition Custom_schema :: component_schema where
  "Custom_schema = \<lparr>sc_TypeId = 14, sc_Name = ''Custom'', sc_Properties = [
     property 0 ''applicationOrigin'' (RV_string [])]\<rparr>"

definition ECommerce_schema :: component_schema where
  "ECommerce_schema = \<lparr>sc_TypeId = 22, sc_Name = ''ECommerce'', sc_Properties = [
     property 0 ''position'' (RV_vector3 0 0 0),
     property 1 ''productId'' (RV_string [])]\<rparr>"

definition ExternalLink_schema :: component_schema where
  "ExternalLink_schema = \<lparr>sc_TypeId = 8, sc_Name = ''ExternalLink'', sc_Properties = [
     property 0 [] (RV_string []),
     property 1 ''linkUrl'' (RV_string []),
     property 2 ''position'' (RV_vector3 0 0 0),
     property 3 ''rotation'' (RV_vector4 0 0 0 0x3F800000),
     property 4 ''scale'' (RV_vector3 0x3F800000 0x3F800000 0x3F800000),
     property 5 ''displayText'' (RV_string []),
     property 6 ''isEnabled'' (RV_bool True),
     property 7 ''isVisible'' (RV_bool True),
     property 8 ''isARVisible'' (RV_bool True),
     property 9 ''isVirtualVisible'' (RV_bool True)]\<rparr>"

definition FiducialMarker_schema :: component_schema where
  "FiducialMarker_schema = \<lparr>sc_TypeId = 23, sc_Name = ''FiducialMarker'', sc_Properties = [
     property 0 [] (RV_string []),
     property 1 ''markerAssetId'' (RV_string []),
     property 2 ''assetCollectionId'' (RV_string []),
     property 3 ''position'' (RV_vector3 0 0 0),
     property 4 ''rotation'' (RV_vector4 0 0 0 0x3F800000),
     property 5 ''scale'' (RV_vector3 0x3F800000 0x3F800000 0x3F800000),
     property 6 ''isVisible'' (RV_bool True),
     property 7 ''isARVisible'' (RV_bool True),
     property 8 ''isVirtualVisible'' (RV_bool True)]\<rparr>"

definition Fog_schema :: component_schema where
  "Fog_schema = \<lparr>sc_TypeId = 21, sc_Name = ''Fog'', sc_Properties = [
     property 0 ''fogMode'' (RV_int 1),
     property 1 ''position'' (RV_vector3 0 0 0),
     property 2 ''rotation'' (RV_vector4 0 0 0 0x3F800000),
     property 3 ''scale'' (RV_vector3 0x3F800000 0x3F800000 0x3F800000),
     property 4 ''startDistance'' (RV_float 0),
     property 5 ''endDistance'' (RV_float 0),
     property 6 ''color'' (RV_vector3 0x3F4CCCCD 0x3F666666 0x3F800000),
     property 7 ''density'' (RV_float 0x3ECCCCCD),
     property 8 ''heightFalloff'' (RV_float 0x3E4CCCCD),
     property 9 ''maxOpacity'' (RV_float 0x3F800000),
     property 10 ''isVolumetric'' (RV_bool False),
     property 11 ''isVisible'' (RV_bool True),
     property 12 ''isARVisible'' (RV_bool True),
     property 13 [] (RV_string []),
     property 14 ''isVirtualVisible'' (RV_bool True)]\<rparr>"

definition GaussianSplat_schema :: component_schema where
  "GaussianSplat_schema = \<lparr>sc_TypeId = 24, sc_Name = ''GaussianSplat'', sc_Properties = [
     property 1 ''externalResourceAssetId'' (RV_string []),
     property 2 ''externalResourceAssetCollectionId'' (RV_string []),
     property 3 ''position'' (RV_vector3 0 0 0),
     property 4 ''rotation'' (RV_vector4 0 0 0 0x3F800000),
     property 5 ''scale'' (RV_vector3 0x3F800000 0x3F800000 0x3F800000),
     property 6 ''isVisible'' (RV_bool True),
     property 7 ''isARVisible'' (RV_bool True),
     property 8 [] (RV_bool True),
     property 9 ''tint'' (RV_vector3 0x3F800000 0x3F800000 0x3F800000),
     property 10 ''isVirtualVisible'' (RV_bool True)]\<rparr>"

definition Hotspot_schema :: component_schema where
  "Hotspot_schema = \<lparr>sc_TypeId = 26, sc_Name = ''Hotspot'', sc_Properties = [
     property 0 ''position'' (RV_vector3 0 0 0),
     property 1 ''rotation'' (RV_vector4 0 0 0 0x3F800000),
     property 2 [] (RV_string []),
     property 3 ''isTeleportPoint'' (RV_bool True),
     property 4 ''isSpawnPoint'' (RV_bool False),
     property 5 ''isVisible'' (RV_bool True),
     property 6 ''isARVisible'' (RV_bool True),
     property 7 ''isVirtualVisible'' (RV_bool True)]\<rparr>"

definition Image_schema :: component_schema where
  "Image_schema = \<lparr>sc_TypeId = 12, sc_Name = ''Image'', sc_Properties = [
     property 0 [] (RV_string []),
     property 1 ''imageAssetId'' (RV_string []),
     property 2 ''assetCollectionId'' (RV_string []),
     property 3 ''position'' (RV_vector3 0 0 0),
     property 4 ''rotation'' (RV_vector4 0 0 0 0x3F800000),
     property 5 ''scale'' (RV_vector3 0x3F800000 0x3F800000 0x3F800000),
     property 6 ''isVisible'' (RV_bool True),
     property 7 ''billboardMode'' (RV_int 0),
     property 8 ''displayMode'' (RV_int 1),
     property 9 ''isARVisible'' (RV_bool True),
     property 10 ''isEmissive'' (RV_bool False),
     property 11 ''isVirtualVisible'' (RV_bool True)]\<rparr>"

definition Light_schema :: component_schema where
  "Light_schema = \<lparr>sc_TypeId = 10, sc_Name = ''Light'', sc_Properties = [
     property 1 ''lightType'' (RV_int 1),
     property 2 ''color'' (RV_vector3 0x437F0000 0x437F0000 0x437F0000),
     property 3 ''Intensity'' (RV_float 0x459C4000),
     property 4 ''range'' (RV_float 0x447A0000),
     property 5 ''innerConeAngle'' (RV_float 0),
     property 6 ''outerConeAngle'' (RV_float 0x3F490FDB),
     property 7 ''position'' (RV_vector3 0 0 0),
     property 8 ''rotation'' (RV_vector4 0 0 0 0x3F800000),
     property 9 ''isVisible'' (RV_bool True),
     property 10 ''cookieAssetId'' (RV_string []),
     property 11 ''cookieAssetCollectionId'' (RV_string []),
     property 12 ''lightCookieType'' (RV_int 2),
     property 13 ''isARVisible'' (RV_bool True),
     property 14 [] (RV_string []),
     property 15 [] (RV_int 0),
     property 16 ''isVirtualVisible'' (RV_bool True)]\<rparr>"

definition Portal_schema :: component_schema where
  "Portal_schema = \<lparr>sc_TypeId = 16, sc_Name = ''Portal'', sc_Properties = [
     property 1 [] (RV_bool True),
     property 2 [] (RV_bool True),
     property 0 ''spaceId'' (RV_string []),
     property 3 [] (RV_bool True),
     property 4 ''isEnabled'' (RV_bool True),
     property 5 ''position'' (RV_vector3 0 0 0),
     property 6 ''radius'' (RV_float 0x3FC00000)]\<rparr>"

definition Reflection_schema :: component_schema where
  "Reflection_schema = \<lparr>sc_TypeId = 20, sc_Name = [], sc_Properties = [
     property 0 [] (RV_string []),
     property 1 [] (RV_string []),
     property 2 [] (RV_string []),
     property 3 [] (RV_vector3 0 0 0),
     property 5 [] (RV_vector3 0x3F800000 0x3F800000 0x3F800000),
     property 6 [] (RV_int 1),
     property 7 [] (RV_string [])]\<rparr>"

definition ScreenSharing_schema :: component_schema where
  "ScreenSharing_schema = \<lparr>sc_TypeId = 28, sc_Name = ''ScreenSharing'', sc_Properties = [
     property 0 ''position'' (RV_vector3 0 0 0),
     property 1 ''rotation'' (RV_vector4 0 0 0 0x3F800000),
     property 2 ''scale'' (RV_vector3 0x3F800000 0x3F800000 0x3F800000),
     property 3 ''isVisible'' (RV_bool True),
     property 4 ''isARVisible'' (RV_bool True),
     property 5 ''isShadowCaster'' (RV_bool False),
     property 6 ''userId'' (RV_string []),
     property 7 ''defaultImageCollectionId'' (RV_string []),
     property 8 ''defaultImageAssetId'' (RV_string []),
     property 9 ''attenuationRadius'' (RV_float 0x41200000),
     property 10 ''isVirtualVisible'' (RV_bool True)]\<rparr>"

definition ScriptData_schema :: component_schema where
  "ScriptData_schema = \<lparr>sc_TypeId = 13, sc_Name = [], sc_Properties = [
     property 1 [] (RV_string []),
     property 2 [] (RV_int 0),
     property 3 [] (RV_int 1)]\<rparr>"

definition Spline_schema :: component_schema where
  "Spline_schema = \<lparr>sc_TypeId = 18, sc_Name = ''Spline'', sc_Properties = [
     property 0 [] (RV_float 0)]\<rparr>"

definition StaticModel_schema :: component_schema where
  "StaticModel_schema = \<lparr>sc_TypeId = 3, sc_Name = ''StaticModel'', sc_Properties = [
     property 1 ''externalResourceAssetId'' (RV_string []),
     property 2 ''externalResourceAssetCollectionId'' (RV_string []),
     property 10 [] (RV_map []),
     property 3 ''position'' (RV_vector3 0 0 0),
     property 4 ''rotation'' (RV_vector4 0 0 0 0x3F800000),
     property 5 ''scale'' (RV_vector3 0x3F800000 0x3F800000 0x3F800000),
     property 6 ''isVisible'' (RV_bool True),
     property 7 ''isARVisible'' (RV_bool True),
     property 8 [] (RV_string []),
     property 9 ''isShadowCaster'' (RV_bool True),
     property 11 ''isVirtualVisible'' (RV_bool True),
     property 12 ''showAsHoldoutInAR'' (RV_bool False),
     property 13 ''showAsHoldoutInVirtual'' (RV_bool False)]\<rparr>"

definition Text_schema :: component_schema where
  "Text_schema = \<lparr>sc_TypeId = 25, sc_Name = ''Text'', sc_Properties = [
     property 0 ''position'' (RV_vector3 0 0 0),
     property 1 ''rotation'' (RV_vector4 0 0 0 0x3F800000),
     property 2 ''scale'' (RV_vector3 0x3F800000 0x3F800000 0x3F800000),
     property 3 ''text'' (RV_string []),
     property 4 ''textColor'' (RV_vector3 0x3F800000 0x3F800000 0x3F800000),
     property 5 ''backgroundColor'' (RV_vector3 0 0 0),
     property 6 ''isBackgroundVisible'' (RV_bool True),
     property 7 ''width'' (RV_float 0x3F800000),
     property 8 ''height'' (RV_float 0x3F800000),
     property 9 ''billboardMode'' (RV_int 0),
     property 10 ''isVisible'' (RV_bool True),
     property 11 ''isARVisible'' (RV_bool True),
     property 12 ''isVirtualVisible'' (RV_bool True)]\<rparr>"

definition VideoPlayer_schema :: component_schema where
  "VideoPlayer_schema = \<lparr>sc_TypeId = 6, sc_Name = ''VideoPlayer'', sc_Properties = [
     property 0 [] (RV_string []),
     property 1 ''videoAssetId'' (RV_string []),
     property 2 ''videoAssetURL'' (RV_string []),
     property 3 ''assetCollectionId'' (RV_string []),
     property 4 ''position'' (RV_vector3 0 0 0),
     property 5 ''rotation'' (RV_vector4 0 0 0 0x3F800000),
     property 6 ''scale'' (RV_vector3 0x3F800000 0x3F800000 0x3F800000),
     property 7 ''isStateShared'' (RV_bool False),
     property 8 ''isAutoPlay'' (RV_bool False),
     property 9 ''isLoopPlayback'' (RV_bool False),
     property 10 ''isAutoResize'' (RV_bool False),
     property 12 ''playbackState'' (RV_int 0),
     property 13 ''currentPlayheadPosition'' (RV_float 0),
     property 14 ''timeSincePlay'' (RV_float 0),
     property 11 ''attenuationRadius'' (RV_float 0x41200000),
     property 15 ''videoPlayerSourceType'' (RV_int 1),
     property 21 ''stereoVideoType'' (RV_int 0),
     property 22 ''isStereoFlipped'' (RV_bool False),
     property 16 ''isVisible'' (RV_bool True),
     property 17 ''isARVisible'' (RV_bool True),
     property 18 [] (RV_int 0),
     property 19 ''isEnabled'' (RV_bool True),
     property 20 ''isVirtualVisible'' (RV_bool True),
     property 23 [] (RV_float 0x3F800000),
     property 24 ''audioType'' (RV_int 1)]\<rparr>"

definition builtin_schemas :: "component_schema list" where
  "builtin_schemas = [StaticModel_schema,
     AnimatedModel_schema,
     VideoPlayer_schema,
     Image_schema,
     ExternalLink_schema,
     AvatarData_schema,
     Light_schema,
     ScriptData_schema,
     Button_schema,
     Custom_schema,
     Portal_schema,
     Conversation_schema,
     Audio_schema,
     Spline_schema,
     Collision_schema,
     Reflection_schema,
     Fog_schema,
     ECommerce_schema,
     CinematicCamera_schema,
     FiducialMarker_schema,
     GaussianSplat_schema,
     Text_schema,
     Hotspot_schema,
     ScreenSharing_schema,
     AIChatbot_schema]"

end
