(* ===== verification/Component_Base.thy ===== *)
theory Component_Base
  imports Builtin_Schemas
begin

text \<open>
  The schema registry (\<open>src/Multiplayer/ComponentSchemaRegistry.cpp\<close>), the choice of class and
  schema when a component is instantiated (\<open>SpaceEntity::InstantiateComponent\<close>) and the
  component itself (\<open>src/Multiplayer/ComponentBase.cpp\<close>): its property map, typed access and
  action handlers. Script interfaces of components are not modelled.
\<close>

section \<open>The registry\<close>

type_synonym registry = "(u64, component_schema) umap"

definition AddSchema :: "component_schema \<Rightarrow> registry \<Rightarrow> registry" where
  "AddSchema Schema SchemaMap = umap_upd (sc_TypeId Schema) Schema SchemaMap"

definition AddAdditional :: "component_schema \<Rightarrow> registry \<Rightarrow> registry" where
  "AddAdditional Schema SchemaMap =
     (case map_of SchemaMap (sc_TypeId Schema) of
        Some It \<Rightarrow> if \<not> IsCompatible It Schema then SchemaMap else AddSchema Schema SchemaMap
      | None \<Rightarrow> AddSchema Schema SchemaMap)"

definition ComponentSchemaRegistry :: "component_schema list \<Rightarrow> registry" where
  "ComponentSchemaRegistry AdditionalComponents =
     fold AddAdditional AdditionalComponents (fold AddSchema builtin_schemas [])"

definition Registry_Find :: "registry \<Rightarrow> u64 \<Rightarrow> component_schema option" where
  "Registry_Find r TypeId = map_of r TypeId"

definition Registry_GetAll :: "registry \<Rightarrow> component_schema list" where
  "Registry_GetAll r = map snd r"

section \<open>Components\<close>

definition COMPONENT_KEY_NAME :: u32 where "COMPONENT_KEY_NAME = 64511"

record component =
  c_Id :: u16
  c_Type :: u64
  c_Properties :: "(u32, rep_value) omap"
  c_Schema :: "component_schema option"
  c_ActionMap :: "(string, nat) omap" \<comment> \<open>handlers by number\<close>

definition new_component :: "u64 \<Rightarrow> component" where
  "new_component TypeId = \<lparr>c_Id = 0, c_Type = TypeId,
     c_Properties = omap_upd COMPONENT_KEY_NAME (RV_string []) [], c_Schema = None, c_ActionMap = []\<rparr>"

definition component_of_schema :: "component_schema \<Rightarrow> component" where
  "component_of_schema Schema =
     (let c = new_component (sc_TypeId Schema)
      in c\<lparr>c_Schema := Some Schema,
           c_Properties := fold (\<lambda>p. omap_upd (ucast (cp_Key p)) (cp_DefaultValue p))
             (sc_Properties Schema) (c_Properties c)\<rparr>)"

text \<open>The schema of the class the switch of \<open>InstantiateComponent\<close> selects for a type.\<close>

definition class_schema :: "u64 \<Rightarrow> component_schema option" where
  "class_schema TypeId = find (\<lambda>s. sc_TypeId s = TypeId) builtin_schemas"

definition TryMakeOrDefault :: "component_schema \<Rightarrow> component_schema option \<Rightarrow> component" where
  "TryMakeOrDefault own Schema =
     (case Schema of
        Some s \<Rightarrow> if IsCompatible own s then component_of_schema s else component_of_schema own
      | None \<Rightarrow> component_of_schema own)"

definition InstantiateComponent :: "registry option \<Rightarrow> u16 \<Rightarrow> u64 \<Rightarrow> component option" where
  "InstantiateComponent Registry InstantiateId TypeId =
     (let Schema = Option.bind Registry (\<lambda>r. Registry_Find r TypeId)
      in if \<not> IsLegacyComponentTypeId TypeId then
           map_option (\<lambda>s. (component_of_schema s)\<lparr>c_Id := InstantiateId\<rparr>) Schema
         else
           map_option (\<lambda>own. (TryMakeOrDefault own Schema)\<lparr>c_Id := InstantiateId\<rparr>) (class_schema TypeId))"

definition GetComponentType :: "component \<Rightarrow> u64" where
  "GetComponentType c = (case ToComponentType (c_Type c) of Some t \<Rightarrow> t | None \<Rightarrow> CT_Invalid)"

subsection \<open>Property access\<close>

definition GetPropertyDirect :: "component \<Rightarrow> u32 \<Rightarrow> rep_value" where
  "GetPropertyDirect c Key = (case map_of (c_Properties c) Key of Some v \<Rightarrow> v | None \<Rightarrow> RV_default)"

definition GetProperty :: "component \<Rightarrow> u16 \<Rightarrow> rep_value option" where
  "GetProperty c Key =
     (case c_Schema c of
        None \<Rightarrow> None
      | Some s \<Rightarrow>
          if FindSchemaProperty s Key = None then None
          else let Value = GetPropertyDirect c (ucast Key)
               in if \<not> rep_eq Value RV_default then Some Value else None)"

text \<open>The typed accessors: the stored value when it has the type, a default otherwise.\<close>

definition GetBooleanProperty :: "component \<Rightarrow> u32 \<Rightarrow> bool" where
  "GetBooleanProperty c Key = (let RepVal = GetPropertyDirect c Key in
     if RType RepVal = RBoolean then (case GetBool RepVal of Inr x \<Rightarrow> x | Inl _ \<Rightarrow> False) else False)"
definition GetIntegerProperty :: "component \<Rightarrow> u32 \<Rightarrow> u64" where
  "GetIntegerProperty c Key = (let RepVal = GetPropertyDirect c Key in
     if RType RepVal = RInteger then (case GetInt RepVal of Inr x \<Rightarrow> x | Inl _ \<Rightarrow> 0) else 0)"
definition GetFloatProperty :: "component \<Rightarrow> u32 \<Rightarrow> float32" where
  "GetFloatProperty c Key = (let RepVal = GetPropertyDirect c Key in
     if RType RepVal = RFloat then (case GetFloat RepVal of Inr x \<Rightarrow> x | Inl _ \<Rightarrow> 0) else 0)"
definition GetStringProperty :: "component \<Rightarrow> u32 \<Rightarrow> string" where
  "GetStringProperty c Key = (let RepVal = GetPropertyDirect c Key in
     if RType RepVal = RString then (case GetString RepVal of Inr x \<Rightarrow> x | Inl _ \<Rightarrow> []) else [])"
definition GetVector2Property :: "component \<Rightarrow> u32 \<Rightarrow> float32 \<times> float32" where
  "GetVector2Property c Key = (let RepVal = GetPropertyDirect c Key in
     if RType RepVal = RVector2 then (case GetVector2 RepVal of Inr x \<Rightarrow> x | Inl _ \<Rightarrow> (0, 0)) else (0, 0))"
definition GetVector3Property :: "component \<Rightarrow> u32 \<Rightarrow> float32 \<times> float32 \<times> float32" where
  "GetVector3Property c Key = (let RepVal = GetPropertyDirect c Key in
     if RType RepVal = RVector3 then (case GetVector3 RepVal of Inr x \<Rightarrow> x | Inl _ \<Rightarrow> (0, 0, 0)) else (0, 0, 0))"
definition GetVector4Property :: "component \<Rightarrow> u32 \<Rightarrow> float32 \<times> float32 \<times> float32 \<times> float32" where
  "GetVector4Property c Key = (let RepVal = GetPropertyDirect c Key in
     if RType RepVal = RVector4 then (case GetVector4 RepVal of Inr x \<Rightarrow> x | Inl _ \<Rightarrow> (0, 0, 0, 0))
     else (0, 0, 0, 0))"
definition GetStringMapProperty :: "component \<Rightarrow> u32 \<Rightarrow> (string, rep_value) omap" where
  "GetStringMapProperty c Key = (let RepVal = GetPropertyDirect c Key in
     if RType RepVal = RStringMap then (case GetStringMap RepVal of Inr x \<Rightarrow> x | Inl _ \<Rightarrow> []) else [])"

text \<open>
  \<open>SetPropertyDirect\<close>: a value of another type than the stored one is only logged. The result
  tells whether the parent entity is to be notified.
\<close>

definition SetPropertyDirect :: "bool \<Rightarrow> u32 \<Rightarrow> rep_value \<Rightarrow> component \<Rightarrow> component \<times> bool" where
  "SetPropertyDirect modifiable Key Value c =
     (if \<not> modifiable then (c, False)
      else if (case map_of (c_Properties c) Key of None \<Rightarrow> True | Some old \<Rightarrow> \<not> rep_eq old Value)
      then (c\<lparr>c_Properties := omap_upd Key Value (c_Properties c)\<rparr>, True)
      else (c, False))"

definition SetProperty :: "bool \<Rightarrow> u16 \<Rightarrow> rep_value \<Rightarrow> component \<Rightarrow> component \<times> bool" where
  "SetProperty modifiable Key Value c =
     (case c_Schema c of
        None \<Rightarrow> (c, False)
      | Some s \<Rightarrow>
          (case FindSchemaProperty s Key of
             None \<Rightarrow> (c, False)
           | Some p \<Rightarrow>
               if RType Value = RType (cp_DefaultValue p)
               then SetPropertyDirect modifiable (ucast Key) Value c else (c, False)))"

definition SetPropertyFromPatch :: "u32 \<Rightarrow> rep_value \<Rightarrow> component \<Rightarrow> component" where
  "SetPropertyFromPatch Key Value c = c\<lparr>c_Properties := omap_upd Key Value (c_Properties c)\<rparr>"

definition RemoveProperty :: "u32 \<Rightarrow> component \<Rightarrow> component" where
  "RemoveProperty Key c = c\<lparr>c_Properties := omap_del Key (c_Properties c)\<rparr>"

definition SetProperties :: "(u32, rep_value) omap \<Rightarrow> component \<Rightarrow> component" where
  "SetProperties Value c = c\<lparr>c_Properties := Value\<rparr>"

definition GetComponentName :: "component \<Rightarrow> string" where
  "GetComponentName c = GetStringProperty c COMPONENT_KEY_NAME"

definition SetComponentName :: "bool \<Rightarrow> string \<Rightarrow> component \<Rightarrow> component \<times> bool" where
  "SetComponentName modifiable Value c = SetPropertyDirect modifiable COMPONENT_KEY_NAME (RV_string Value) c"

subsection \<open>Actions\<close>

definition RegisterActionHandler :: "string \<Rightarrow> nat \<Rightarrow> component \<Rightarrow> component" where
  "RegisterActionHandler InAction ActionHandler c =
     (if map_of (c_ActionMap c) InAction = None
      then c\<lparr>c_ActionMap := omap_upd InAction ActionHandler (c_ActionMap c)\<rparr> else c)"

definition UnregisterActionHandler :: "string \<Rightarrow> component \<Rightarrow> component" where
  "UnregisterActionHandler InAction c =
     (if map_of (c_ActionMap c) InAction \<noteq> None
      then c\<lparr>c_ActionMap := omap_del InAction (c_ActionMap c)\<rparr> else c)"

text \<open>The handler that is called, with the action's name and parameters.\<close>

definition InvokeAction :: "string \<Rightarrow> string \<Rightarrow> component \<Rightarrow> (nat \<times> string \<times> string) option" where
  "InvokeAction InAction InActionParams c =
     map_option (\<lambda>h. (h, InAction, InActionParams)) (map_of (c_ActionMap c) InAction)"

subsection \<open>Packing\<close>

text \<open>\<open>ToItemComponentData(ComponentBase*)\<close>: the type first, then every property, keys cut to 16 bits.\<close>

definition ToItemComponentData_component :: "component \<Rightarrow> icd" where
  "ToItemComponentData_component c =
     IU16Dict (fold (\<lambda>kv. PackValue (ucast (fst kv)) (ToItemComponentData (snd kv))) (c_Properties c)
       (PackValue COMPONENT_KEY_COMPONENTTYPE (IUint (c_Type c)) []))"

section \<open>The registry keeps the built-in schemas' contract\<close>

lemmas builtin_schema_defs =
  StaticModel_schema_def AnimatedModel_schema_def VideoPlayer_schema_def Image_schema_def
  ExternalLink_schema_def AvatarData_schema_def Light_schema_def ScriptData_schema_def
  Button_schema_def Custom_schema_def Portal_schema_def Conversation_schema_def Audio_schema_def
  Spline_schema_def Collision_schema_def Reflection_schema_def Fog_schema_def ECommerce_schema_def
  CinematicCamera_schema_def FiducialMarker_schema_def GaussianSplat_schema_def Text_schema_def
  Hotspot_schema_def ScreenSharing_schema_def AIChatbot_schema_def

lemma builtin_ids: "map sc_TypeId builtin_schemas =
  [3, 4, 6, 12, 8, 9, 10, 13, 11, 14, 16, 15, 17, 18, 19, 20, 21, 22, 27, 23, 24, 25, 26, 28, 29]"
  by (simp only: builtin_schemas_def list.map builtin_schema_defs component_schema.select_convs)

lemma builtin_ids_distinct: "distinct (map sc_TypeId builtin_schemas)"
  unfolding builtin_ids by simp

lemma builtin_keys_distinct:
  "list_all (\<lambda>s. distinct (map cp_Key (sc_Properties s))) builtin_schemas"
  by (simp only: builtin_schemas_def list.pred_inject builtin_schema_defs component_schema.select_convs
      property_def list.map component_property.select_convs) simp

text \<open>No built-in property key collides with the component's name or, once packed, with its type.\<close>

lemma builtin_keys_free:
  "list_all (\<lambda>s. list_all (\<lambda>p. cp_Key p < 100 \<and> rv_tagged (cp_DefaultValue p)
      \<and> RType (cp_DefaultValue p) \<noteq> InvalidType) (sc_Properties s)) builtin_schemas"
  by (simp only: builtin_schemas_def list.pred_inject builtin_schema_defs component_schema.select_convs
      property_def component_property.select_convs rv_constructors rep_value.sel rv_tagged_def rv_tag.simps
      rv_type.distinct) simp

lemma map_of_fold_AddSchema:
  "distinct (map sc_TypeId ss) \<Longrightarrow>
   map_of (fold AddSchema ss m) t = (case find (\<lambda>s. sc_TypeId s = t) ss of Some s \<Rightarrow> Some s | None \<Rightarrow> map_of m t)"
proof (induction ss arbitrary: m)
  case (Cons s ss)
  show ?case
  proof (cases "sc_TypeId s = t")
    case True
    then have "find (\<lambda>s. sc_TypeId s = t) ss = None"
      using Cons.prems by (auto simp: find_None_iff image_iff)
    then show ?thesis using True Cons by (simp add: AddSchema_def)
  next
    case False
    then show ?thesis using Cons by (simp add: AddSchema_def split: option.split)
  qed
qed simp

lemma AddAdditional_extends:
  assumes "\<And>t b. class_schema t = Some b \<Longrightarrow> \<exists>s. Registry_Find r t = Some s \<and> schema_extends b s"
    "class_schema t = Some b"
  shows "\<exists>s. Registry_Find (AddAdditional x r) t = Some s \<and> schema_extends b s"
proof -
  obtain s where s: "Registry_Find r t = Some s" "schema_extends b s" using assms by blast
  show ?thesis
  proof (cases "sc_TypeId x = t \<and> IsCompatible s x")
    case True
    then have "schema_extends b x" using s IsCompatible_extends schema_extends_trans by blast
    with True s show ?thesis by (auto simp: AddAdditional_def AddSchema_def Registry_Find_def)
  next
    case False
    with s show ?thesis
      by (auto simp: AddAdditional_def AddSchema_def Registry_Find_def split: option.splits)
  qed
qed

text \<open>
  C36. Whatever schemas an application injects, and however often it replaces its own, the registry
  keeps for every built-in component type a schema that has every built-in property under the
  same key with the same name and type.
\<close>

theorem registry_never_breaks_builtin_schemas:
  assumes "class_schema t = Some b"
  shows "\<exists>s. Registry_Find (ComponentSchemaRegistry additional) t = Some s \<and> schema_extends b s"
proof -
  have "\<exists>s. Registry_Find (fold AddSchema builtin_schemas []) t = Some s \<and> schema_extends b s"
    if "class_schema t = Some b" for t b
  proof -
    have "b \<in> set builtin_schemas" using that by (auto simp: class_schema_def find_Some_iff)
    then have "schema_extends b b"
      using builtin_keys_distinct by (intro schema_extends_refl) (simp add: list_all_iff)
    then show ?thesis
      using that map_of_fold_AddSchema [OF builtin_ids_distinct, of "[]" t]
      by (simp add: Registry_Find_def class_schema_def)
  qed
  then have "\<exists>s. Registry_Find (fold AddAdditional additional r) t = Some s \<and> schema_extends b s"
    if "r = fold AddSchema builtin_schemas []" "class_schema t = Some b" for r t b
  proof -
    have "\<forall>t b. class_schema t = Some b \<longrightarrow> (\<exists>s. Registry_Find (fold AddAdditional additional r) t = Some s \<and> schema_extends b s)"
      if "\<forall>t b. class_schema t = Some b \<longrightarrow> (\<exists>s. Registry_Find r t = Some s \<and> schema_extends b s)" for r
      using that
    proof (induction additional arbitrary: r)
      case (Cons x xs)
      then have "\<forall>t b. class_schema t = Some b \<longrightarrow> (\<exists>s. Registry_Find (AddAdditional x r) t = Some s \<and> schema_extends b s)"
        using AddAdditional_extends by blast
      then show ?case using Cons.IH by simp
    qed simp
    then show ?thesis using that \<open>\<And>t b. class_schema t = Some b \<Longrightarrow> _ t b\<close> by blast
  qed
  with assms show ?thesis by (simp add: ComponentSchemaRegistry_def)
qed

lemma registry_never_breaks_builtin_schemas_witness:
  "\<exists>s. Registry_Find (ComponentSchemaRegistry
      [Fog_schema\<lparr>sc_Properties := property 40 ''extra'' (RV_int 0) # sc_Properties Fog_schema\<rparr>,
       Fog_schema\<lparr>sc_Properties := []\<rparr>]) 21 = Some s \<and> schema_extends Fog_schema s"
proof (rule registry_never_breaks_builtin_schemas)
  have "find (\<lambda>s. sc_TypeId s = 21) builtin_schemas = Some Fog_schema"
    by (simp only: builtin_schemas_def find.simps builtin_schema_defs component_schema.select_convs) simp
  then show "class_schema 21 = Some Fog_schema" by (simp add: class_schema_def)
qed

section \<open>Typed properties\<close>

definition schema_typed :: "component_schema \<Rightarrow> component \<Rightarrow> bool" where
  "schema_typed s c \<longleftrightarrow> c_Schema c = Some s \<and> list_all (\<lambda>p.
     case FindSchemaProperty s (cp_Key p) of None \<Rightarrow> False | Some q \<Rightarrow>
       (case map_of (c_Properties c) (ucast (cp_Key p)) of
          None \<Rightarrow> False | Some v \<Rightarrow> RType v = RType (cp_DefaultValue q))) (sc_Properties s)"

lemma schema_typed_iff:
  "schema_typed s c \<longleftrightarrow> c_Schema c = Some s \<and>
     (\<forall>p \<in> set (sc_Properties s). \<exists>q v. FindSchemaProperty s (cp_Key p) = Some q
        \<and> map_of (c_Properties c) (ucast (cp_Key p)) = Some v \<and> RType v = RType (cp_DefaultValue q))"
  unfolding schema_typed_def list_all_iff
  by (intro conj_cong refl ball_cong) (auto split: option.split)

lemma unat_ucast_u16_u32: "unat (ucast (k :: u16) :: u32) = unat k"
proof -
  have "unat k < 2 ^ 32" by (rule order_less_le_trans [OF unsigned_less]) simp
  then show ?thesis by (simp add: unsigned_ucast_eq take_bit_nat_eq_self)
qed

lemma ucast_u16_u32_inj [simp]: "(ucast (k :: u16) :: u32) = ucast k' \<longleftrightarrow> k = k'"
  by (metis unat_ucast_u16_u32 word_unat_eq_iff)

lemma map_of_fold_properties:
  "distinct (map cp_Key ps) \<Longrightarrow>
   map_of (fold (\<lambda>p. omap_upd (ucast (cp_Key p) :: u32) (cp_DefaultValue p)) ps m) (ucast k) =
     (case find (\<lambda>p. cp_Key p = k) ps of Some p \<Rightarrow> Some (cp_DefaultValue p) | None \<Rightarrow> map_of m (ucast k))"
proof (induction ps arbitrary: m)
  case (Cons p ps)
  show ?case
  proof (cases "cp_Key p = k")
    case True
    then have "find (\<lambda>p. cp_Key p = k) ps = None"
      using Cons.prems by (auto simp: find_None_iff image_iff)
    then show ?thesis using True Cons by simp
  next
    case False
    then show ?thesis using Cons by (simp split: option.split)
  qed
qed simp

lemma component_of_schema_typed:
  assumes "distinct (map cp_Key (sc_Properties s))"
  shows "schema_typed s (component_of_schema s)"
  using assms map_of_fold_properties [OF assms]
  by (auto simp: schema_typed_iff component_of_schema_def Let_def FindSchemaProperty_def find_distinct_key)

lemma SetPropertyDirect_typed:
  assumes "schema_typed s c" "FindSchemaProperty s k = Some q" "RType v = RType (cp_DefaultValue q)"
  shows "schema_typed s (fst (SetPropertyDirect m (ucast k) v c))"
  using assms by (auto simp: schema_typed_iff SetPropertyDirect_def)

lemma SetProperty_typed: "schema_typed s c \<Longrightarrow> schema_typed s (fst (SetProperty m k v c))"
  by (auto simp: SetProperty_def split: option.split intro!: SetPropertyDirect_typed)
    (auto simp: schema_typed_iff)

text \<open>
  C38. On a component made from a schema whose properties have different keys, setting properties
  through the schema, in any order and with any keys and values, never removes a property of the
  schema and never changes its type, so typed accessors keep returning stored values.
\<close>

theorem schema_properties_keep_their_types:
  assumes "distinct (map cp_Key (sc_Properties s))"
  shows "schema_typed s (fold (\<lambda>(m, k, v) c. fst (SetProperty m k v c)) ops (component_of_schema s))"
proof -
  have "schema_typed s (fold (\<lambda>(m, k, v) c. fst (SetProperty m k v c)) ops c)" if "schema_typed s c" for c
    using that by (induction ops arbitrary: c) (auto simp: SetProperty_typed)
  then show ?thesis using component_of_schema_typed [OF assms] .
qed

lemma schema_properties_keep_their_types_witness:
  "schema_typed ScriptData_schema (fold (\<lambda>(m, k, v) c. fst (SetProperty m k v c))
     [(True, 1, RV_bool True), (True, 77, RV_int 3)] (component_of_schema ScriptData_schema))"
  by (rule schema_properties_keep_their_types) (simp add: ScriptData_schema_def property_def)

text \<open>
  The keys of a schema are not checked. The registry takes a schema that has one key twice, and what a
  new component then stores under the key is the last default, while the schema finds the first.
\<close>

lemma repeated_key_breaks_the_type:
  "let p = \<lambda>v. property 5 ''p'' v; s = \<lparr>sc_TypeId = 4096, sc_Name = ''Twice'', sc_Properties = [p (RV_int 1), p (RV_string ''x'')]\<rparr>
   in Registry_Find (ComponentSchemaRegistry [s]) 4096 = Some s
     \<and> map_option cp_DefaultValue (FindSchemaProperty s 5) = Some (RV_int 1)
     \<and> map_of (c_Properties (component_of_schema s)) 5 = Some (RV_string ''x'')
     \<and> \<not> schema_typed s (component_of_schema s)"
  by code_simp

text \<open>Setting a property directly only logs a change of type: the value of the new type is stored.\<close>

lemma SetPropertyDirect_changes_type:
  "map_of (c_Properties c) k = Some (RV_int i)
   \<Longrightarrow> map_of (c_Properties (fst (SetPropertyDirect True k (RV_string s) c))) k = Some (RV_string s)
     \<and> GetIntegerProperty (fst (SetPropertyDirect True k (RV_string s) c)) k = 0"
  by (simp add: SetPropertyDirect_def GetIntegerProperty_def GetPropertyDirect_def rv_constructors)

lemma builtin_component_instantiates:
  assumes "class_schema t = Some b" "IsLegacyComponentTypeId t"
  shows "\<exists>c. InstantiateComponent (Some (ComponentSchemaRegistry additional)) i t = Some c \<and> c_Id c = i"
  using assms by (simp add: InstantiateComponent_def)

end
