(* ===== verification/Entity_World.thy ===== *)
theory Entity_World
  imports Component_Base
begin

text \<open>
  Space entities and the state of a realtime engine (\<open>src/Multiplayer/SpaceEntity.cpp\<close>,
  \<open>SpaceEntityStatePatcher.h\<close>, \<open>PatchUtils.h\<close>, \<open>include/CSP/Multiplayer/PatchTypes.h\<close>).
  Entities and components are objects on a heap, referred to by address from the engine's lists
  and from each other, so that aliasing and dangling pointers are visible: a freed object has
  no entry, and an operation that would follow a dangling or null pointer, fail an assertion
  or leave with an exception is \<open>None\<close>. The calls of client callbacks are recorded in order in
  an event log; a callback is taken not to call back into the engine. Locks, logging and the
  scripts attached to entities are not modelled.
\<close>

section \<open>State\<close>

type_synonym addr = nat
type_synonym vec3 = "float32 \<times> float32 \<times> float32"
type_synonym vec4 = "float32 \<times> float32 \<times> float32 \<times> float32"

datatype update_type = UpdateT | AddT | DeleteT

type_synonym update_info = "u16 \<times> update_type"

record dirty_component =
  dc_Component :: addr
  dc_UpdateType :: update_type

record patcher =
  DirtyProperties :: "(u16, rep_value) umap"
  DirtyComponents :: "(u16, dirty_component) umap"
  TransientDeletionComponentIds :: "u16 list"
  NewParentId :: "u64 option option"
  TimeOfLastPatch :: nat
  PatchSentCallback :: bool \<comment> \<open>registered by the client\<close>

datatype entity_type = AvatarE | ObjectE | UnknownE u32 \<comment> \<open>a message may carry any number\<close>

definition LOCK_NONE :: u32 where "LOCK_NONE = 0"
definition LOCK_USER_AGNOSTIC :: u32 where "LOCK_USER_AGNOSTIC = 1"

record entity =
  e_Type :: entity_type
  e_Id :: u64
  e_Name :: string
  e_Position :: vec3
  e_Rotation :: vec4
  e_Scale :: vec3
  e_IsTransferable :: bool
  e_IsPersistent :: bool
  e_OwnerId :: u64
  e_ParentId :: "u64 option"
  e_ThirdPartyRef :: string
  e_SelectedId :: u64
  e_Parent :: "addr option"
  e_ChildEntities :: "addr list"
  e_Lock :: u32
  e_NextComponentId :: u16
  e_Components :: "(u16, addr) omap"
  e_StatePatcher :: "patcher option"
  e_UpdateCallback :: bool \<comment> \<open>registered by the client\<close>
  e_DestroyCallback :: bool

datatype hub_method =
    DELETE_OBJECTS | GENERATE_OBJECT_IDS | GET_CLIENT_ID | PAGE_SCOPED_OBJECTS | RESET_SCOPES | SEND_EVENT_MESSAGE
  | SEND_OBJECT_MESSAGE | SEND_OBJECT_NOT_FOUND | SEND_OBJECT_PATCH | SEND_OBJECT_PATCHES | SET_ALLOW_SELF_MESSAGING
  | SET_SCOPES | START_LISTENING | STOP_LISTENING | ON_OBJECT_MESSAGE | ON_OBJECT_PATCH | ON_REQUEST_TO_SEND_OBJECT
  | ON_REQUEST_TO_DISCONNECT | SEND_SCOPE_LEADER_HEARTBEAT | ASSUME_SCOPE_LEADERSHIP | ON_ELECTED_SCOPE_LEADER
  | ON_VACATED_AS_SCOPE_LEADER

datatype event =
    Ev_update addr nat "update_info option list" \<comment> \<open>\<open>None\<close>: a slot never written\<close>
  | Ev_destroy addr bool
  | Ev_created "addr option"
  | Ev_result bool
  | Ev_property_changed u16 u32 \<comment> \<open>script notification: component id and key\<close>
  | Ev_OnCreated addr \<comment> \<open>virtual hooks of a component\<close>
  | Ev_OnRemove addr
  | Ev_OnLocalDelete addr
  | Ev_remote_created addr
  | Ev_patch_sent addr bool
  | Ev_fetch_complete u64
  | Ev_invoke hub_method sig_value \<comment> \<open>a message to the service\<close>

datatype engine_kind = Offline | Online u64 \<comment> \<open>with the client id of the connection\<close>

record settings =
  EntityPatchRate :: nat \<comment> \<open>milliseconds\<close>
  EntityPatchRateLimitEnabled :: bool
  AllowSelfMessagingFlag :: bool
  RemoteSpaceEntityCreatedCallback :: bool \<comment> \<open>registered by the client\<close>

record world =
  w_Ents :: "addr \<Rightarrow> entity option"
  w_Comps :: "addr \<Rightarrow> component option"
  w_NextAddr :: addr
  w_Kind :: engine_kind
  w_Registry :: registry
  Entities :: "addr list"
  Avatars :: "addr list"
  Objects :: "addr list"
  RootHierarchyEntities :: "addr list"
  SelectedEntities :: "addr list"
  PendingAdds :: "addr list"
  PendingRemoves :: "addr list"
  PendingIncomingUpdates :: "sig_value list"
  PendingOutgoing :: "addr list" \<comment> \<open>\<open>PendingOutgoingUpdateUniqueSet\<close>, in the order of its pointers\<close>
  w_Settings :: settings
  w_NextId :: u64 \<comment> \<open>the counter behind \<open>NextId()\<close> of the offline engine\<close>
  w_Events :: "event list" \<comment> \<open>oldest first\<close>

definition ent :: "world \<Rightarrow> addr \<Rightarrow> entity option" where
  "ent w a = w_Ents w a"

definition put_ent :: "addr \<Rightarrow> entity \<Rightarrow> world \<Rightarrow> world" where
  "put_ent a e w = w\<lparr>w_Ents := (w_Ents w)(a \<mapsto> e)\<rparr>"

definition modify_ent :: "addr \<Rightarrow> (entity \<Rightarrow> entity) \<Rightarrow> world \<Rightarrow> world option" where
  "modify_ent a f w = do { e \<leftarrow> ent w a; Some (put_ent a (f e) w) }"

definition emit_event :: "event \<Rightarrow> world \<Rightarrow> world" where
  "emit_event ev w = w\<lparr>w_Events := w_Events w @ [ev]\<rparr>"

definition alloc_ent :: "entity \<Rightarrow> world \<Rightarrow> addr \<times> world" where
  "alloc_ent e w = (w_NextAddr w, (put_ent (w_NextAddr w) e w)\<lparr>w_NextAddr := w_NextAddr w + 1\<rparr>)"

definition free_ent :: "addr \<Rightarrow> world \<Rightarrow> world" where
  "free_ent a w = w\<lparr>w_Ents := (w_Ents w)(a := None)\<rparr>"

definition put_comp :: "addr \<Rightarrow> component \<Rightarrow> world \<Rightarrow> world" where
  "put_comp a c w = w\<lparr>w_Comps := (w_Comps w)(a \<mapsto> c)\<rparr>"

definition alloc_comp :: "component \<Rightarrow> world \<Rightarrow> addr \<times> world" where
  "alloc_comp c w = (w_NextAddr w, (put_comp (w_NextAddr w) c w)\<lparr>w_NextAddr := w_NextAddr w + 1\<rparr>)"

text \<open>An engine right after its construction, without entities.\<close>

definition new_world :: "engine_kind \<Rightarrow> registry \<Rightarrow> world" where
  "new_world k r = \<lparr>w_Ents = (\<lambda>_. None), w_Comps = (\<lambda>_. None), w_NextAddr = 0, w_Kind = k,
     w_Registry = r, Entities = [], Avatars = [], Objects = [], RootHierarchyEntities = [],
     SelectedEntities = [], PendingAdds = [], PendingRemoves = [],
     PendingIncomingUpdates = [], PendingOutgoing = [],
     w_Settings = \<lparr>EntityPatchRate = 90, EntityPatchRateLimitEnabled = True, AllowSelfMessagingFlag = False,
       RemoteSpaceEntityCreatedCallback = False\<rparr>, w_NextId = 1, w_Events = []\<rparr>"

section \<open>Construction\<close>

definition empty_patcher :: patcher where
  "empty_patcher = \<lparr>DirtyProperties = [], DirtyComponents = [], TransientDeletionComponentIds = [],
     NewParentId = None, TimeOfLastPatch = 0, PatchSentCallback = False\<rparr>"

text \<open>\<open>MakeStatePatcher\<close>: the online engine gives an entity a patcher, the offline engine none.\<close>

definition MakeStatePatcher :: "engine_kind \<Rightarrow> patcher option" where
  "MakeStatePatcher k = (case k of Offline \<Rightarrow> None | Online _ \<Rightarrow> Some empty_patcher)"

definition UNIT_TRANSFORM :: "vec3 \<times> vec4 \<times> vec3" where
  "UNIT_TRANSFORM = ((0, 0, 0), (0, 0, 0, 0x3F800000), (0x3F800000, 0x3F800000, 0x3F800000))"

definition SpaceEntity_new :: "engine_kind \<Rightarrow> entity" where
  "SpaceEntity_new k = (case UNIT_TRANSFORM of (pos, rot, scl) \<Rightarrow>
     \<lparr>e_Type = AvatarE, e_Id = 0, e_Name = [], e_Position = pos, e_Rotation = rot, e_Scale = scl,
      e_IsTransferable = True, e_IsPersistent = True, e_OwnerId = 0, e_ParentId = None,
      e_ThirdPartyRef = [], e_SelectedId = 0, e_Parent = None, e_ChildEntities = [],
      e_Lock = LOCK_NONE, e_NextComponentId = COMPONENT_KEY_START_COMPONENTS, e_Components = [],
      e_StatePatcher = MakeStatePatcher k, e_UpdateCallback = False, e_DestroyCallback = False\<rparr>)"

definition SpaceEntity_make ::
  "engine_kind \<Rightarrow> entity_type \<Rightarrow> u64 \<Rightarrow> string \<Rightarrow> vec3 \<times> vec4 \<times> vec3 \<Rightarrow> u64 \<Rightarrow> u64 option \<Rightarrow> bool \<Rightarrow> bool \<Rightarrow> entity" where
  "SpaceEntity_make k ty i name transform owner parent transferable persistent =
     (case transform of (pos, rot, scl) \<Rightarrow>
       (SpaceEntity_new k)\<lparr>e_Id := i, e_Type := ty, e_Name := name, e_Position := pos,
          e_Rotation := rot, e_Scale := scl, e_OwnerId := owner, e_IsTransferable := transferable,
          e_IsPersistent := persistent, e_ParentId := parent\<rparr>)"

section \<open>Replicated properties\<close>

definition FLAG_NAME :: nat where "FLAG_NAME = 1"
definition FLAG_POSITION :: nat where "FLAG_POSITION = 2"
definition FLAG_ROTATION :: nat where "FLAG_ROTATION = 4"
definition FLAG_SCALE :: nat where "FLAG_SCALE = 8"
definition FLAG_COMPONENTS :: nat where "FLAG_COMPONENTS = 16"
definition FLAG_SELECTION_ID :: nat where "FLAG_SELECTION_ID = 32"
definition FLAG_THIRD_PARTY_REF :: nat where "FLAG_THIRD_PARTY_REF = 64"
definition FLAG_PARENT :: nat where "FLAG_PARENT = 128"
definition FLAG_LOCK_TYPE :: nat where "FLAG_LOCK_TYPE = 256"

lemmas flag_defs = FLAG_NAME_def FLAG_POSITION_def FLAG_ROTATION_def FLAG_SCALE_def
  FLAG_COMPONENTS_def FLAG_SELECTION_ID_def FLAG_THIRD_PARTY_REF_def FLAG_PARENT_def FLAG_LOCK_TYPE_def

text \<open>The properties an entity registers with its patcher, in the order of \<open>CreateReplicatedProperties\<close>.\<close>

definition replicated_keys :: "u16 list" where
  "replicated_keys = [KEY_NAME, KEY_POSITION, KEY_ROTATION, KEY_SCALE, KEY_SELECTED_CLIENT_ID,
     KEY_THIRD_PARTY_REF, KEY_LOCK_TYPE]"

definition prop_flag :: "u16 \<Rightarrow> nat" where
  "prop_flag Key =
     (if Key = KEY_NAME then FLAG_NAME
      else if Key = KEY_POSITION then FLAG_POSITION
      else if Key = KEY_ROTATION then FLAG_ROTATION
      else if Key = KEY_SCALE then FLAG_SCALE
      else if Key = KEY_SELECTED_CLIENT_ID then FLAG_SELECTION_ID
      else if Key = KEY_THIRD_PARTY_REF then FLAG_THIRD_PARTY_REF
      else FLAG_LOCK_TYPE)"

definition rv_vec3 :: "vec3 \<Rightarrow> rep_value" where "rv_vec3 v = (case v of (x, y, z) \<Rightarrow> RV_vector3 x y z)"
definition rv_vec4 :: "vec4 \<Rightarrow> rep_value" where "rv_vec4 v = (case v of (x, y, z, w) \<Rightarrow> RV_vector4 x y z w)"

text \<open>\<open>EntityProperty::Get\<close>; the lock type, an \<open>int\<close>, is widened with its sign.\<close>

definition prop_get :: "u16 \<Rightarrow> entity \<Rightarrow> rep_value" where
  "prop_get Key e =
     (if Key = KEY_NAME then RV_string (e_Name e)
      else if Key = KEY_POSITION then rv_vec3 (e_Position e)
      else if Key = KEY_ROTATION then rv_vec4 (e_Rotation e)
      else if Key = KEY_SCALE then rv_vec3 (e_Scale e)
      else if Key = KEY_SELECTED_CLIENT_ID then RV_int (e_SelectedId e)
      else if Key = KEY_THIRD_PARTY_REF then RV_string (e_ThirdPartyRef e)
      else RV_int (scast (e_Lock e)))"

text \<open>\<open>EntityProperty::Set\<close>: the getter of the expected type throws on a value of another type.\<close>

definition prop_set :: "u16 \<Rightarrow> rep_value \<Rightarrow> entity \<Rightarrow> rv_error + entity" where
  "prop_set Key v e =
     (if Key = KEY_NAME then rbind (GetString v) (\<lambda>x. Inr (e\<lparr>e_Name := x\<rparr>))
      else if Key = KEY_POSITION then rbind (GetVector3 v) (\<lambda>x. Inr (e\<lparr>e_Position := x\<rparr>))
      else if Key = KEY_ROTATION then rbind (GetVector4 v) (\<lambda>x. Inr (e\<lparr>e_Rotation := x\<rparr>))
      else if Key = KEY_SCALE then rbind (GetVector3 v) (\<lambda>x. Inr (e\<lparr>e_Scale := x\<rparr>))
      else if Key = KEY_SELECTED_CLIENT_ID then rbind (GetInt v) (\<lambda>x. Inr (e\<lparr>e_SelectedId := x\<rparr>))
      else if Key = KEY_THIRD_PARTY_REF then rbind (GetString v) (\<lambda>x. Inr (e\<lparr>e_ThirdPartyRef := x\<rparr>))
      else rbind (GetInt v) (\<lambda>x. Inr (e\<lparr>e_Lock := ucast x\<rparr>)))"

end
