(* ===== verification/Space_Entity.thy ===== *)
theory Space_Entity
  imports Entity_World
begin

text \<open>
  The operations of a space entity that do not touch the hierarchy
  (\<open>src/Multiplayer/SpaceEntity.cpp\<close>, \<open>src/Multiplayer/PatchUtils.h\<close>), the bookkeeping half of its
  state patcher (\<open>src/Multiplayer/SpaceEntityStatePatcher.h\<close> and \<open>.cpp\<close>) and the rule of each
  engine on who may modify an entity. With a patcher (online) a setter records a pending change;
  without (offline) it writes at once and calls back.
\<close>

section \<open>Who may modify an entity\<close>

datatype modifiable_status = Modifiable | EntityNotOwnedAndUntransferable | EntityLocked

definition IsEntityModifiable_offline :: "entity \<Rightarrow> modifiable_status" where
  "IsEntityModifiable_offline e =
     (if e_Lock e = LOCK_USER_AGNOSTIC then EntityLocked else Modifiable)"

definition IsEntityModifiable_online :: "u64 \<Rightarrow> entity \<Rightarrow> modifiable_status option" where
  "IsEntityModifiable_online ClientId e =
     (case e_StatePatcher e of
        None \<Rightarrow> None \<comment> \<open>assertion\<close>
      | Some p \<Rightarrow>
          let AboutToUnlock = map_of (DirtyProperties p) KEY_LOCK_TYPE \<noteq> None
          in if e_Lock e = LOCK_USER_AGNOSTIC \<and> \<not> AboutToUnlock then Some EntityLocked
             else if e_OwnerId e \<noteq> ClientId \<and> \<not> e_IsTransferable e
             then Some EntityNotOwnedAndUntransferable
             else Some Modifiable)"

definition IsModifiable :: "engine_kind \<Rightarrow> entity \<Rightarrow> modifiable_status option" where
  "IsModifiable k e =
     (case k of Offline \<Rightarrow> Some (IsEntityModifiable_offline e)
      | Online ClientId \<Rightarrow> IsEntityModifiable_online ClientId e)"

section \<open>Pending changes\<close>

definition SetDirtyProperty :: "u16 \<Rightarrow> rep_value \<Rightarrow> rep_value \<Rightarrow> patcher \<Rightarrow> bool \<times> patcher" where
  "SetDirtyProperty PropertyKey PriorValue NewValue p =
     (let Erased = umap_del PropertyKey (DirtyProperties p)
      in if \<not> rep_eq NewValue PriorValue
         then (True, p\<lparr>DirtyProperties := umap_upd PropertyKey NewValue Erased\<rparr>)
         else (False, p\<lparr>DirtyProperties := Erased\<rparr>))"

definition SetDirtyComponent :: "u16 \<Rightarrow> dirty_component \<Rightarrow> patcher \<Rightarrow> bool \<times> patcher" where
  "SetDirtyComponent ComponentKey dc p =
     (if map_of (DirtyComponents p) ComponentKey \<noteq> None then (False, p)
      else (True, p\<lparr>DirtyComponents := umap_upd ComponentKey dc (DirtyComponents p)\<rparr>))"

definition RemoveDirtyComponent :: "u16 \<Rightarrow> (u16, addr) omap \<Rightarrow> patcher \<Rightarrow> bool \<times> patcher" where
  "RemoveDirtyComponent ComponentKey CurrentComponents p =
     (if ComponentKey \<notin> set (TransientDeletionComponentIds p)
         \<or> map_of CurrentComponents ComponentKey \<noteq> None
      then (True, p\<lparr>DirtyComponents := umap_del ComponentKey (DirtyComponents p),
                    TransientDeletionComponentIds := TransientDeletionComponentIds p @ [ComponentKey]\<rparr>)
      else (False, p))"

definition SetNewParentId :: "u64 option \<Rightarrow> patcher \<Rightarrow> patcher" where
  "SetNewParentId Value p = p\<lparr>NewParentId := Some Value\<rparr>"

definition SetTimeOfLastPatch :: "nat \<Rightarrow> patcher \<Rightarrow> patcher" where
  "SetTimeOfLastPatch t p = p\<lparr>TimeOfLastPatch := t\<rparr>"

definition HasPendingPatch :: "patcher \<Rightarrow> bool" where
  "HasPendingPatch p \<longleftrightarrow> \<not> (length (DirtyComponents p) = 0 \<and> length (DirtyProperties p) = 0
     \<and> length (TransientDeletionComponentIds p) = 0 \<and> NewParentId p = None)"

section \<open>Setting properties\<close>

definition update_event :: "addr \<Rightarrow> nat \<Rightarrow> update_info option list \<Rightarrow> world \<Rightarrow> world" where
  "update_event a UpdateFlags Updates w =
     (case ent w a of
        Some e \<Rightarrow> if e_UpdateCallback e then emit_event (Ev_update a UpdateFlags Updates) w else w
      | None \<Rightarrow> w)"

definition set_patcher :: "addr \<Rightarrow> patcher \<Rightarrow> world \<Rightarrow> world option" where
  "set_patcher a p w = modify_ent a (\<lambda>e. e\<lparr>e_StatePatcher := Some p\<rparr>) w"

text \<open>\<open>SpaceEntity::SetPropertyDirect\<close> on the variable registered under a key.\<close>

definition EntitySetPropertyDirect :: "addr \<Rightarrow> u16 \<Rightarrow> rep_value \<Rightarrow> bool \<Rightarrow> world \<Rightarrow> world option" where
  "EntitySetPropertyDirect a Key Value CallNotifyingCallback w = do {
     e \<leftarrow> ent w a;
     (case prop_set Key Value e of
        Inl _ \<Rightarrow> None
      | Inr e' \<Rightarrow>
          let w1 = put_ent a e' w
          in Some (if CallNotifyingCallback then update_event a (prop_flag Key) [] w1 else w1))
   }"

text \<open>The helper \<open>SetProperty\<close> of \<open>PatchUtils.h\<close>.\<close>

definition EntitySetProperty :: "addr \<Rightarrow> u16 \<Rightarrow> rep_value \<Rightarrow> world \<Rightarrow> (bool \<times> world) option" where
  "EntitySetProperty a Key Value w = do {
     e \<leftarrow> ent w a;
     m \<leftarrow> IsModifiable (w_Kind w) e;
     (if m \<noteq> Modifiable then Some (False, w)
      else case e_StatePatcher e of
        Some p \<Rightarrow>
          (case SetDirtyProperty Key (prop_get Key e) Value p of
             (b, p') \<Rightarrow> do { w1 \<leftarrow> set_patcher a p' w; Some (b, w1) })
      | None \<Rightarrow>
          if \<not> rep_eq (prop_get Key e) Value
          then do { w1 \<leftarrow> EntitySetPropertyDirect a Key Value True w; Some (True, w1) }
          else Some (False, w))
   }"

definition SetName :: "addr \<Rightarrow> string \<Rightarrow> world \<Rightarrow> (bool \<times> world) option" where
  "SetName a Value = EntitySetProperty a KEY_NAME (RV_string Value)"
definition SetPosition :: "addr \<Rightarrow> vec3 \<Rightarrow> world \<Rightarrow> (bool \<times> world) option" where
  "SetPosition a Value = EntitySetProperty a KEY_POSITION (rv_vec3 Value)"
definition SetRotation :: "addr \<Rightarrow> vec4 \<Rightarrow> world \<Rightarrow> (bool \<times> world) option" where
  "SetRotation a Value = EntitySetProperty a KEY_ROTATION (rv_vec4 Value)"
definition SetScale :: "addr \<Rightarrow> vec3 \<Rightarrow> world \<Rightarrow> (bool \<times> world) option" where
  "SetScale a Value = EntitySetProperty a KEY_SCALE (rv_vec3 Value)"
definition SetThirdPartyRef :: "addr \<Rightarrow> string \<Rightarrow> world \<Rightarrow> (bool \<times> world) option" where
  "SetThirdPartyRef a Value = EntitySetProperty a KEY_THIRD_PARTY_REF (RV_string Value)"

definition SetOwnerId :: "addr \<Rightarrow> u64 \<Rightarrow> world \<Rightarrow> world option" where
  "SetOwnerId a Value = modify_ent a (\<lambda>e. e\<lparr>e_OwnerId := Value\<rparr>)"

definition SetUpdateCallback :: "addr \<Rightarrow> bool \<Rightarrow> world \<Rightarrow> world option" where
  "SetUpdateCallback a Callback = modify_ent a (\<lambda>e. e\<lparr>e_UpdateCallback := Callback\<rparr>)"

definition SetDestroyCallback :: "addr \<Rightarrow> bool \<Rightarrow> world \<Rightarrow> world option" where
  "SetDestroyCallback a Callback = modify_ent a (\<lambda>e. e\<lparr>e_DestroyCallback := Callback\<rparr>)"

definition SetPatchSentCallback :: "addr \<Rightarrow> bool \<Rightarrow> world \<Rightarrow> world option" where
  "SetPatchSentCallback a Callback = modify_ent a (\<lambda>e. e\<lparr>e_StatePatcher :=
     map_option (\<lambda>p. p\<lparr>PatchSentCallback := Callback\<rparr>) (e_StatePatcher e)\<rparr>)"

section \<open>Locks and selection\<close>

definition IsLocked :: "entity \<Rightarrow> bool" where
  "IsLocked e \<longleftrightarrow> e_Lock e \<noteq> LOCK_NONE"

definition Lock :: "addr \<Rightarrow> world \<Rightarrow> (bool \<times> world) option" where
  "Lock a w = do {
     e \<leftarrow> ent w a;
     (if IsLocked e then Some (False, w)
      else EntitySetProperty a KEY_LOCK_TYPE (RV_int (ucast LOCK_USER_AGNOSTIC)) w)
   }"

definition Unlock :: "addr \<Rightarrow> world \<Rightarrow> (bool \<times> world) option" where
  "Unlock a w = do {
     e \<leftarrow> ent w a;
     (if \<not> IsLocked e then Some (False, w)
      else case e_StatePatcher e of
        Some p \<Rightarrow>
          (case SetDirtyProperty KEY_LOCK_TYPE (prop_get KEY_LOCK_TYPE e) (RV_int (ucast LOCK_NONE)) p of
             (b, p') \<Rightarrow> do { w1 \<leftarrow> set_patcher a p' w; Some (b, w1) })
      | None \<Rightarrow> do {
          w1 \<leftarrow> EntitySetPropertyDirect a KEY_LOCK_TYPE (RV_int (ucast LOCK_NONE)) True w;
          Some (True, w1) })
   }"

definition LOCAL_CLIENT_ID :: u64 where "LOCAL_CLIENT_ID = 9007199254740991" \<comment> \<open>\<open>2 ^ 53 - 1\<close>\<close>

definition local_client_id :: "engine_kind \<Rightarrow> u64" where
  "local_client_id k = (case k of Offline \<Rightarrow> LOCAL_CLIENT_ID | Online ClientId \<Rightarrow> ClientId)"

definition AddEntityToSelectedEntities :: "addr \<Rightarrow> world \<Rightarrow> bool \<times> world" where
  "AddEntityToSelectedEntities a w =
     (if a \<notin> set (SelectedEntities w) then (True, w\<lparr>SelectedEntities := SelectedEntities w @ [a]\<rparr>)
      else (False, w))"

definition RemoveEntityFromSelectedEntities :: "addr \<Rightarrow> world \<Rightarrow> bool \<times> world" where
  "RemoveEntityFromSelectedEntities a w =
     (if a \<in> set (SelectedEntities w) then (True, w\<lparr>SelectedEntities := remove1 a (SelectedEntities w)\<rparr>)
      else (False, w))"

definition IsSelected :: "entity \<Rightarrow> bool" where
  "IsSelected e \<longleftrightarrow> e_SelectedId e \<noteq> 0"

definition set_pending_selection :: "addr \<Rightarrow> u64 \<Rightarrow> world \<Rightarrow> world option" where
  "set_pending_selection a Value w = do {
     e \<leftarrow> ent w a;
     (case e_StatePatcher e of
        None \<Rightarrow> Some w
      | Some p \<Rightarrow> set_patcher a (snd (SetDirtyProperty KEY_SELECTED_CLIENT_ID
                    (prop_get KEY_SELECTED_CLIENT_ID e) (RV_int Value) p)) w)
   }"

definition InternalSetSelectionStateOfEntity :: "addr \<Rightarrow> bool \<Rightarrow> world \<Rightarrow> (bool \<times> world) option" where
  "InternalSetSelectionStateOfEntity a SelectedState w = do {
     e \<leftarrow> ent w a;
     let LocalClientId = local_client_id (w_Kind w);
     (if SelectedState then
        (if \<not> IsSelected e then do {
           w1 \<leftarrow> set_pending_selection a LocalClientId w;
           let (Added, w2) = AddEntityToSelectedEntities a w1;
           (if Added then do {
              w3 \<leftarrow> EntitySetPropertyDirect a KEY_SELECTED_CLIENT_ID (RV_int LocalClientId) True w2;
              Some (True, w3) }
            else Some (False, w2)) }
         else Some (False, w))
      else if LocalClientId = e_SelectedId e then
        (if IsSelected e then do {
           w1 \<leftarrow> set_pending_selection a 0 w;
           let (Removed, w2) = RemoveEntityFromSelectedEntities a w1;
           (if Removed then do {
              w3 \<leftarrow> EntitySetPropertyDirect a KEY_SELECTED_CLIENT_ID (RV_int 0) True w2;
              Some (True, w3) }
            else Some (False, w2)) }
         else Some (False, w))
      else Some (False, w))
   }"

definition Select :: "addr \<Rightarrow> world \<Rightarrow> (bool \<times> world) option" where
  "Select a = InternalSetSelectionStateOfEntity a True"

definition Deselect :: "addr \<Rightarrow> world \<Rightarrow> (bool \<times> world) option" where
  "Deselect a = InternalSetSelectionStateOfEntity a False"

end
