(* ===== verification/Entity_Components.thy ===== *)
theory Entity_Components
  imports Space_Entity
begin

text \<open>
  The components of a space entity (\<open>src/Multiplayer/SpaceEntity.cpp\<close>): choosing an id, adding,
  updating and removing components through the patcher or directly, looking them up by type, and
  the path by which a property write on a component reaches its entity
  (\<open>src/Multiplayer/ComponentBase.cpp\<close>).
\<close>

section \<open>Direct operations\<close>

definition comp :: "world \<Rightarrow> addr \<Rightarrow> component option" where
  "comp w ca = w_Comps w ca"

definition modify_comp :: "addr \<Rightarrow> (component \<Rightarrow> component) \<Rightarrow> world \<Rightarrow> world option" where
  "modify_comp ca f w = do { c \<leftarrow> comp w ca; Some (put_comp ca (f c) w) }"

definition AddComponentDirect :: "addr \<Rightarrow> u16 \<Rightarrow> addr \<Rightarrow> bool \<Rightarrow> world \<Rightarrow> world option" where
  "AddComponentDirect a ComponentKey ca CallNotifyingCallback w = do {
     w1 \<leftarrow> modify_ent a (\<lambda>e. e\<lparr>e_Components := omap_upd ComponentKey ca (e_Components e)\<rparr>) w;
     Some (if CallNotifyingCallback then update_event a FLAG_COMPONENTS [Some (ComponentKey, AddT)] w1 else w1)
   }"

definition OnPropertyChanged :: "addr \<Rightarrow> u32 \<Rightarrow> world \<Rightarrow> world option" where
  "OnPropertyChanged ca PropertyKey w = do {
     c \<leftarrow> comp w ca; Some (emit_event (Ev_property_changed (c_Id c) PropertyKey) w) }"

definition UpdateComponentDirect :: "addr \<Rightarrow> u16 \<Rightarrow> addr \<Rightarrow> bool \<Rightarrow> world \<Rightarrow> world option" where
  "UpdateComponentDirect a ComponentKey ca CallNotifyingCallback w =
     (if CallNotifyingCallback
      then OnPropertyChanged ca (ucast ComponentKey)
        (update_event a FLAG_COMPONENTS [Some (ComponentKey, UpdateT)] w)
      else Some w)"

definition RemoveComponentDirect :: "addr \<Rightarrow> u16 \<Rightarrow> bool \<Rightarrow> world \<Rightarrow> (bool \<times> world) option" where
  "RemoveComponentDirect a ComponentKey CallNotifyingCallback w = do {
     e \<leftarrow> ent w a;
     (case map_of (e_Components e) ComponentKey of
        None \<Rightarrow> Some (False, w)
      | Some ca \<Rightarrow> do {
          _ \<leftarrow> comp w ca;
          w1 \<leftarrow> modify_ent a (\<lambda>e. e\<lparr>e_Components := omap_del ComponentKey (e_Components e)\<rparr>)
                 (emit_event (Ev_OnRemove ca) w);
          Some (True, if CallNotifyingCallback
                      then update_event a FLAG_COMPONENTS [Some (ComponentKey, DeleteT)] w1 else w1) })
   }"

section \<open>Looking components up\<close>

definition GetComponent :: "entity \<Rightarrow> u16 \<Rightarrow> addr option" where
  "GetComponent e Key = map_of (e_Components e) Key"

fun find_component :: "world \<Rightarrow> u64 \<Rightarrow> addr list \<Rightarrow> addr option option" where
  "find_component w FindType [] = Some None"
| "find_component w FindType (ca # cas) = do {
     c \<leftarrow> comp w ca;
     (if GetComponentType c = FindType then Some (Some ca) else find_component w FindType cas) }"

definition GetFirstPendingComponentOfType ::
  "patcher \<Rightarrow> u64 \<Rightarrow> update_type list \<Rightarrow> world \<Rightarrow> addr option option" where
  "GetFirstPendingComponentOfType p Type InterestingUpdateTypes w = do {
     \<comment> \<open>the type of every component on the way is read, whatever its update type\<close>
     (let scan = foldr (\<lambda>dc rest. do {
            c \<leftarrow> comp w (dc_Component dc);
            (if GetComponentType c = Type \<and> dc_UpdateType dc \<in> set InterestingUpdateTypes
             then Some (Some (dc_Component dc)) else rest) })
      in scan (map snd (DirtyComponents p)) (Some None)) }"

definition FindFirstComponentOfType :: "addr \<Rightarrow> u64 \<Rightarrow> world \<Rightarrow> addr option option" where
  "FindFirstComponentOfType a FindType w = do {
     e \<leftarrow> ent w a;
     LocatedComponent \<leftarrow> find_component w FindType (map snd (e_Components e));
     (case (LocatedComponent, e_StatePatcher e) of
        (None, Some p) \<Rightarrow> GetFirstPendingComponentOfType p FindType [AddT, UpdateT] w
      | _ \<Rightarrow> Some LocatedComponent)
   }"

section \<open>Component ids\<close>

text \<open>
  The search of \<open>GenerateComponentId\<close>, with fuel; it never ends when every id is in use.
  \<open>2 ^ 17\<close> rounds are enough otherwise (lemma \<open>GenerateComponentId_finds\<close> below).
\<close>

definition next_component_key :: "u16 \<Rightarrow> u16" where
  "next_component_key k =
     (if k + 1 = COMPONENT_KEY_END_COMPONENTS then COMPONENT_KEY_START_COMPONENTS else k + 1)"

fun search_component_id :: "nat \<Rightarrow> (u16 \<Rightarrow> bool) \<Rightarrow> u16 \<Rightarrow> u16 option" where
  "search_component_id 0 used NextId = None"
| "search_component_id (Suc n) used NextId =
     (if \<not> used NextId then Some NextId else search_component_id n used (next_component_key NextId))"

definition component_id_used :: "entity \<Rightarrow> u16 \<Rightarrow> bool" where
  "component_id_used e k \<longleftrightarrow> map_of (e_Components e) k \<noteq> None
     \<or> (case e_StatePatcher e of None \<Rightarrow> False | Some p \<Rightarrow> map_of (DirtyComponents p) k \<noteq> None)"

definition GenerateComponentId :: "entity \<Rightarrow> (u16 \<times> entity) option" where
  "GenerateComponentId e = do {
     NextId \<leftarrow> search_component_id (2 ^ 17) (component_id_used e) (e_NextComponentId e);
     Some (NextId, e\<lparr>e_NextComponentId := NextId + 1\<rparr>) }"

section \<open>Adding, updating, removing\<close>

definition AddComponentByTypeId :: "addr \<Rightarrow> u64 \<Rightarrow> world \<Rightarrow> (addr option \<times> world) option" where
  "AddComponentByTypeId a TypeId w = do {
     e \<leftarrow> ent w a;
     m \<leftarrow> IsModifiable (w_Kind w) e;
     (if m \<noteq> Modifiable then Some (None, w)
      else do {
        ScriptComponent \<leftarrow> (if ToComponentType TypeId = Some CT_ScriptData
                            then FindFirstComponentOfType a CT_ScriptData w else Some None);
        (if ScriptComponent \<noteq> None then Some (ScriptComponent, w)
         else do {
           (ComponentId, e1) \<leftarrow> GenerateComponentId e;
           let w1 = put_ent a e1 w;
           (case InstantiateComponent (Some (w_Registry w)) ComponentId TypeId of
              None \<Rightarrow> Some (None, w1)
            | Some c \<Rightarrow> do {
                let (ca, w2) = alloc_comp c w1;
                w3 \<leftarrow> (case e_StatePatcher e1 of
                   Some p \<Rightarrow> set_patcher a
                     (snd (SetDirtyComponent ComponentId \<lparr>dc_Component = ca, dc_UpdateType = AddT\<rparr> p)) w2
                 | None \<Rightarrow> AddComponentDirect a ComponentId ca True w2);
                Some (Some ca, emit_event (Ev_OnCreated ca) w3) }) }) })
   }"

definition UpdateComponent :: "addr \<Rightarrow> addr \<Rightarrow> world \<Rightarrow> (bool \<times> world) option" where
  "UpdateComponent a ca w = do {
     e \<leftarrow> ent w a;
     c \<leftarrow> comp w ca;
     (case e_StatePatcher e of
        Some p \<Rightarrow>
          (case SetDirtyComponent (c_Id c) \<lparr>dc_Component = ca, dc_UpdateType = UpdateT\<rparr> p of
             (b, p') \<Rightarrow> do { w1 \<leftarrow> set_patcher a p' w; Some (b, w1) })
      | None \<Rightarrow> do { w1 \<leftarrow> UpdateComponentDirect a (c_Id c) ca True w; Some (True, w1) })
   }"

definition RemoveComponent :: "addr \<Rightarrow> u16 \<Rightarrow> world \<Rightarrow> (bool \<times> world) option" where
  "RemoveComponent a Key w = do {
     e \<leftarrow> ent w a;
     m \<leftarrow> IsModifiable (w_Kind w) e;
     (if m \<noteq> Modifiable then Some (False, w)
      else case e_StatePatcher e of
        Some p \<Rightarrow>
          (case RemoveDirtyComponent Key (e_Components e) p of
             (b, p') \<Rightarrow> do { w1 \<leftarrow> set_patcher a p' w; Some (b, w1) })
      | None \<Rightarrow> RemoveComponentDirect a Key True w)
   }"

section \<open>Property writes on components\<close>

text \<open>
  \<open>ComponentBase::SetPropertyDirect\<close> and \<open>RemoveProperty\<close> with their effect on the parent
  entity \<open>a\<close>: the component is written at once, the entity is told, then the scripts.
\<close>

definition ComponentSetPropertyDirect :: "addr \<Rightarrow> addr \<Rightarrow> u32 \<Rightarrow> rep_value \<Rightarrow> world \<Rightarrow> world option" where
  "ComponentSetPropertyDirect a ca Key Value w = do {
     e \<leftarrow> ent w a;
     c \<leftarrow> comp w ca;
     m \<leftarrow> IsModifiable (w_Kind w) e;
     (case SetPropertyDirect (m = Modifiable) Key Value c of
        (c', notify) \<Rightarrow>
          if notify then do {
            (_, w1) \<leftarrow> UpdateComponent a ca (put_comp ca c' w);
            OnPropertyChanged ca Key w1 }
          else Some w)
   }"

definition ComponentRemoveProperty :: "addr \<Rightarrow> addr \<Rightarrow> u32 \<Rightarrow> world \<Rightarrow> world option" where
  "ComponentRemoveProperty a ca Key w = do {
     w1 \<leftarrow> modify_comp ca (RemoveProperty Key) w;
     (_, w2) \<leftarrow> UpdateComponent a ca w1;
     Some w2 }"

section \<open>Fresh component ids\<close>

lemma search_component_id_iff:
  "search_component_id n used k = None \<longleftrightarrow> (\<forall>i<n. used ((next_component_key ^^ i) k))"
proof (induction n used k rule: search_component_id.induct)
  case (2 n used k)
  have "(\<forall>i<Suc n. used ((next_component_key ^^ i) k)) \<longleftrightarrow>
    used k \<and> (\<forall>i<n. used ((next_component_key ^^ i) (next_component_key k)))"
    by (auto simp: less_Suc_eq_0_disj funpow_swap1)
  with 2 show ?case by auto
qed simp

lemma search_component_id_unused: "search_component_id n used k = Some k' \<Longrightarrow> \<not> used k'"
  by (induction n used k rule: search_component_id.induct) (auto split: if_splits)

lemma unat_u16_less: "unat (k :: u16) < 65536"
  by (rule order_less_le_trans [OF unsigned_less]) simp

lemma unat_plus_one: "unat (k :: u16) < 65535 \<Longrightarrow> unat (k + 1) = unat k + 1"
  by (simp add: unat_word_ariths)

lemma next_component_key_wraps: "k + 1 = COMPONENT_KEY_END_COMPONENTS \<longleftrightarrow> unat k = 64509"
  using unat_u16_less [of k] by (auto simp: key_defs word_unat_eq_iff unat_word_ariths mod_Suc)

lemma next_component_key_below:
  assumes "unat k < 64510"
  shows "unat (next_component_key k) = (unat k + 1) mod 64510"
  using assms unat_plus_one [of k] next_component_key_wraps [of k]
  by (auto simp: next_component_key_def key_defs)

lemma iterate_below:
  "unat k < 64510 \<Longrightarrow> unat ((next_component_key ^^ i) k) = (unat k + i) mod 64510"
  by (induction i) (simp_all add: next_component_key_below mod_Suc_eq)

lemma iterate_above:
  assumes "64510 \<le> unat k" "i \<le> 65536 - unat k"
  shows "(next_component_key ^^ i) k = k + of_nat i"
  using assms(2)
proof (induction i)
  case (Suc i)
  have "unat (k + of_nat i) = unat k + i"
    using Suc.prems by (simp add: unat_word_ariths unsigned_of_nat take_bit_nat_def)
  then have "k + of_nat i + 1 \<noteq> COMPONENT_KEY_END_COMPONENTS"
    using assms(1) by (simp only: next_component_key_wraps)
  with Suc show ?case by (simp add: next_component_key_def add.assoc add.commute)
qed simp

lemma component_key_reached:
  assumes "unat t < 64510"
  shows "\<exists>i < 2 ^ 17. (next_component_key ^^ i) k = t"
proof -
  have below: "\<exists>i < 64510. (next_component_key ^^ i) k = t" if k: "unat k < 64510" for k
  proof (intro exI conjI)
    show "(unat t + 64510 - unat k) mod 64510 < 64510" by simp
    have "(unat k + (unat t + 64510 - unat k) mod 64510) mod 64510 = unat t"
      using assms k by (simp add: mod_add_right_eq)
    then show "(next_component_key ^^ ((unat t + 64510 - unat k) mod 64510)) k = t"
      using iterate_below [OF k] by (simp add: word_unat_eq_iff)
  qed
  show ?thesis
  proof (cases "unat k < 64510")
    case True
    then obtain i where "i < 64510" "(next_component_key ^^ i) k = t" using below by blast
    then show ?thesis by (intro exI [of _ i]) simp
  next
    case False
    let ?n = "65536 - unat k"
    have le: "unat k \<le> 65536" using unat_u16_less [of k] by simp
    have "(of_nat (unat k + ?n) :: u16) = of_nat 65536" using le by (simp only: le_add_diff_inverse)
    then have "k + of_nat ?n = 0" by simp
    then have z: "(next_component_key ^^ ?n) k = 0" using iterate_above [of k ?n] False by simp
    obtain i where i: "i < 64510" "(next_component_key ^^ i) 0 = t" using below [of 0] by auto
    have "(next_component_key ^^ (i + ?n)) k = t" using i(2) z by (simp only: funpow_add o_apply)
    moreover have "i + ?n < 2 ^ 17" using i(1) by simp
    ultimately show ?thesis by blast
  qed
qed

lemma search_component_id_range:
  "search_component_id n used k = Some k' \<Longrightarrow> k < COMPONENT_KEY_END_COMPONENTS \<Longrightarrow> k' < COMPONENT_KEY_END_COMPONENTS"
proof (induction n used k rule: search_component_id.induct)
  case (2 n used k)
  have "unat k < 64510" using 2(3) by (simp add: word_less_nat_alt key_defs)
  then have "next_component_key k < COMPONENT_KEY_END_COMPONENTS"
    by (simp add: word_less_nat_alt next_component_key_below key_defs)
  with 2 show ?case by (simp split: if_splits)
qed simp

lemma component_key_fresh:
  assumes "t < COMPONENT_KEY_END_COMPONENTS" "\<not> component_id_used e t"
  shows "\<exists>k. GenerateComponentId e = Some (k, e\<lparr>e_NextComponentId := k + 1\<rparr>) \<and> \<not> component_id_used e k
    \<and> (e_NextComponentId e < COMPONENT_KEY_END_COMPONENTS \<longrightarrow> k < COMPONENT_KEY_END_COMPONENTS)"
proof -
  have "unat t < 64510" using assms(1) by (simp add: word_less_nat_alt key_defs)
  then obtain i where "i < 2 ^ 17" "(next_component_key ^^ i) (e_NextComponentId e) = t"
    using component_key_reached by blast
  with assms(2) have "search_component_id (2 ^ 17) (component_id_used e) (e_NextComponentId e) \<noteq> None"
    unfolding search_component_id_iff by blast
  then obtain k where k: "search_component_id (2 ^ 17) (component_id_used e) (e_NextComponentId e) = Some k"
    by blast
  show ?thesis
    unfolding GenerateComponentId_def k
    using search_component_id_unused [OF k] search_component_id_range [OF k] by simp
qed

text \<open>
  C39. As long as some component id below the end of the range is neither held by a component of
  the entity nor promised to a pending one, \<open>GenerateComponentId\<close> returns, with an id that is not
  in use; from a counter inside the range the id is inside the range.
\<close>

theorem component_id_is_fresh:
  assumes "t < COMPONENT_KEY_END_COMPONENTS" "\<not> component_id_used e t"
  shows "\<exists>k. GenerateComponentId e = Some (k, e\<lparr>e_NextComponentId := k + 1\<rparr>) \<and> \<not> component_id_used e k
    \<and> (e_NextComponentId e < COMPONENT_KEY_END_COMPONENTS \<longrightarrow> k < COMPONENT_KEY_END_COMPONENTS)"
  by (rule component_key_fresh [OF assms])

lemma component_id_is_fresh_witness:
  "\<exists>k. GenerateComponentId ((SpaceEntity_new Offline)\<lparr>e_Components := [(0, 7), (1, 8)]\<rparr>) =
     Some (k, (SpaceEntity_new Offline)\<lparr>e_Components := [(0, 7), (1, 8)], e_NextComponentId := k + 1\<rparr>)
   \<and> k \<notin> {0, 1}"
  using component_id_is_fresh [of 5 "(SpaceEntity_new Offline)\<lparr>e_Components := [(0, 7), (1, 8)]\<rparr>"]
  by (auto simp: component_id_used_def SpaceEntity_new_def UNIT_TRANSFORM_def MakeStatePatcher_def key_defs)

lemma search_component_id_first: "\<not> used k \<Longrightarrow> 0 < n \<Longrightarrow> search_component_id n used k = Some k"
  by (cases n) auto

text \<open>
  The counter is not brought back into the range: once the last id of the range has been
  handed out, the next free ids are \<open>COMPONENT_KEY_END_COMPONENTS\<close> itself and the keys above it,
  which readers of a message take for properties of the entity.
\<close>

theorem component_id_leaves_its_range:
  assumes "e_NextComponentId e = 64509" "\<not> component_id_used e 64509" "\<not> component_id_used e 64510"
    "\<not> component_id_used e KEY_NAME"
  shows "\<exists>e1 e2 e3. GenerateComponentId e = Some (64509, e1)
     \<and> GenerateComponentId e1 = Some (COMPONENT_KEY_END_COMPONENTS, e2)
     \<and> GenerateComponentId e2 = Some (KEY_NAME, e3)"
proof -
  have "component_id_used (e\<lparr>e_NextComponentId := x\<rparr>) = component_id_used e" for x
    by (rule ext) (simp add: component_id_used_def)
  then show ?thesis
    using assms by (simp add: GenerateComponentId_def search_component_id_first key_defs)
qed

lemma component_id_leaves_its_range_witness:
  "\<exists>e1 e2 e3. GenerateComponentId ((SpaceEntity_new Offline)\<lparr>e_NextComponentId := 64509\<rparr>) = Some (64509, e1)
     \<and> GenerateComponentId e1 = Some (COMPONENT_KEY_END_COMPONENTS, e2)
     \<and> GenerateComponentId e2 = Some (KEY_NAME, e3)"
  by (rule component_id_leaves_its_range)
    (simp_all add: component_id_used_def SpaceEntity_new_def UNIT_TRANSFORM_def MakeStatePatcher_def)

end
