(* ===== verification/Entity_Hierarchy.thy ===== *)
theory Entity_Hierarchy
  imports Entity_Components
begin

text \<open>
  The entity hierarchy: looking entities up in the engine's lists, the parent and child pointers
  of an entity (\<open>src/Multiplayer/SpaceEntity.cpp\<close>) and the list of root entities
  (\<open>src/Multiplayer/RealtimeEngineUtils.cpp\<close>). An entity names its parent by id; resolving the
  hierarchy turns the id into a pointer, keeps the parent's list of children in step and enters
  entities without a parent id among the roots.
\<close>

section \<open>Lookup\<close>

fun find_entity :: "(entity \<Rightarrow> bool) \<Rightarrow> world \<Rightarrow> addr list \<Rightarrow> addr option option" where
  "find_entity P w [] = Some None"
| "find_entity P w (a # as) = do {
     e \<leftarrow> ent w a;
     (if P e then Some (Some a) else find_entity P w as) }"

definition FindSpaceEntity :: "string \<Rightarrow> world \<Rightarrow> addr option option" where
  "FindSpaceEntity Name w = find_entity (\<lambda>e. e_Name e = Name) w (Entities w)"

definition FindSpaceEntityById :: "u64 \<Rightarrow> world \<Rightarrow> addr option option" where
  "FindSpaceEntityById EntityId w = find_entity (\<lambda>e. e_Id e = EntityId) w (Entities w)"

definition FindSpaceAvatar :: "string \<Rightarrow> world \<Rightarrow> addr option option" where
  "FindSpaceAvatar Name w = find_entity (\<lambda>e. e_Name e = Name) w (Avatars w)"

definition FindSpaceObject :: "string \<Rightarrow> world \<Rightarrow> addr option option" where
  "FindSpaceObject Name w = find_entity (\<lambda>e. e_Name e = Name) w (Objects w)"

section \<open>Resolving the hierarchy\<close>

definition EntityIsInRootHierarchy :: "addr \<Rightarrow> world \<Rightarrow> bool option" where
  "EntityIsInRootHierarchy a w = do {
     e \<leftarrow> ent w a;
     found \<leftarrow> find_entity (\<lambda>x. e_Id x = e_Id e) w (RootHierarchyEntities w);
     Some (found \<noteq> None) }"

definition remove_child :: "addr \<Rightarrow> entity \<Rightarrow> entity" where
  "remove_child a p = p\<lparr>e_ChildEntities := remove1 a (e_ChildEntities p)\<rparr>"

definition AddChildEntity :: "addr \<Rightarrow> entity \<Rightarrow> entity" where
  "AddChildEntity a p = p\<lparr>e_ChildEntities := e_ChildEntities p @ [a]\<rparr>"

definition SetParent :: "addr option \<Rightarrow> entity \<Rightarrow> entity" where
  "SetParent InParent e = e\<lparr>e_Parent := InParent\<rparr>"

definition ResolveParentChildRelationship :: "addr \<Rightarrow> world \<Rightarrow> world option" where
  "ResolveParentChildRelationship a w = do {
     e \<leftarrow> ent w a;
     (case e_ParentId e of
        Some ParentId \<Rightarrow> do {
          w1 \<leftarrow> (case e_Parent e of
                  Some p \<Rightarrow> modify_ent p (remove_child a) w
                | None \<Rightarrow> Some w);
          Found \<leftarrow> FindSpaceEntityById ParentId w1;
          Parent \<leftarrow> (case (Found, w_Kind w1) of
                  (None, Online _) \<Rightarrow> find_entity (\<lambda>x. e_Id x = ParentId) w1 (PendingAdds w1)
                | _ \<Rightarrow> Some Found);
          w2 \<leftarrow> modify_ent a (SetParent Parent) w1;
          (case Parent of
             Some p \<Rightarrow> modify_ent p (AddChildEntity a) w2
           | None \<Rightarrow> Some w2) }
      | None \<Rightarrow>
          (case e_Parent e of
             Some p \<Rightarrow> do { w1 \<leftarrow> modify_ent p (remove_child a) w; modify_ent a (SetParent None) w1 }
           | None \<Rightarrow> Some w))
   }"

fun remove_first_by_id :: "world \<Rightarrow> u64 \<Rightarrow> addr list \<Rightarrow> addr list option" where
  "remove_first_by_id w i [] = Some []"
| "remove_first_by_id w i (a # as) = do {
     e \<leftarrow> ent w a;
     (if e_Id e = i then Some as
      else do { r \<leftarrow> remove_first_by_id w i as; Some (a # r) }) }"

definition ResolveEntityHierarchy :: "addr \<Rightarrow> world \<Rightarrow> world option" where
  "ResolveEntityHierarchy a w = do {
     e \<leftarrow> ent w a;
     w1 \<leftarrow> (if e_ParentId e \<noteq> None then do {
               r \<leftarrow> remove_first_by_id w (e_Id e) (RootHierarchyEntities w);
               Some (w\<lparr>RootHierarchyEntities := r\<rparr>) }
             else do {
               b \<leftarrow> EntityIsInRootHierarchy a w;
               Some (if \<not> b then w\<lparr>RootHierarchyEntities := RootHierarchyEntities w @ [a]\<rparr> else w) });
     ResolveParentChildRelationship a w1 }"

section \<open>Changing the parent\<close>

definition SetParentIdDirect :: "addr \<Rightarrow> u64 option \<Rightarrow> bool \<Rightarrow> world \<Rightarrow> world option" where
  "SetParentIdDirect a Value CallNotifyingCallback w = do {
     w1 \<leftarrow> modify_ent a (\<lambda>e. e\<lparr>e_ParentId := Value\<rparr>) w;
     w2 \<leftarrow> ResolveEntityHierarchy a w1;
     Some (if CallNotifyingCallback then update_event a FLAG_PARENT [] w2 else w2) }"

definition SetParentId :: "addr \<Rightarrow> u64 \<Rightarrow> world \<Rightarrow> world option" where
  "SetParentId a InParentId w = do {
     e \<leftarrow> ent w a;
     (case e_StatePatcher e of
        Some p \<Rightarrow> set_patcher a (SetNewParentId (Some InParentId) p) w
      | None \<Rightarrow> SetParentIdDirect a (Some InParentId) True w) }"

definition RemoveParentEntity :: "addr \<Rightarrow> world \<Rightarrow> world option" where
  "RemoveParentEntity a w = do {
     e \<leftarrow> ent w a;
     (if e_ParentId e \<noteq> None then
        (case e_StatePatcher e of
           Some p \<Rightarrow> set_patcher a (SetNewParentId None p) w
         | None \<Rightarrow> SetParentIdDirect a None True w)
      else Some w) }"

definition RemoveParentId :: "addr \<Rightarrow> world \<Rightarrow> world option" where
  "RemoveParentId a = modify_ent a (\<lambda>e. e\<lparr>e_ParentId := None\<rparr>)"

definition RemoveAsChildFromParent :: "addr \<Rightarrow> world \<Rightarrow> world option" where
  "RemoveAsChildFromParent a w = do {
     e \<leftarrow> ent w a;
     (case e_Parent e of
        Some p \<Rightarrow> do { w1 \<leftarrow> modify_ent p (remove_child a) w; modify_ent a (SetParent None) w1 }
      | None \<Rightarrow> Some w) }"

text \<open>The list is read again, and its bound asserted, after \<open>RemoveParentEntity\<close>.\<close>

definition RemoveParentFromChildEntity :: "addr \<Rightarrow> nat \<Rightarrow> world \<Rightarrow> world option" where
  "RemoveParentFromChildEntity a Index w = do {
     e \<leftarrow> ent w a;
     (if Index < length (e_ChildEntities e) then do {
        w1 \<leftarrow> RemoveParentEntity (e_ChildEntities e ! Index) w;
        e1 \<leftarrow> ent w1 a;
        (if Index < length (e_ChildEntities e1)
         then modify_ent (e_ChildEntities e1 ! Index) (SetParent None) w1 else None) }
      else Some w) }"

fun remove_parent_from_children :: "addr \<Rightarrow> nat \<Rightarrow> addr list \<Rightarrow> world \<Rightarrow> world option" where
  "remove_parent_from_children a i [] w = Some w"
| "remove_parent_from_children a i (c # cs) w = do {
     w1 \<leftarrow> RemoveParentFromChildEntity a i w;
     w2 \<leftarrow> ResolveEntityHierarchy c w1;
     remove_parent_from_children a (i + 1) cs w2 }"

definition RemoveParentChildRelationshipsFromEntity :: "addr \<Rightarrow> world \<Rightarrow> world option" where
  "RemoveParentChildRelationshipsFromEntity a w = do {
     e \<leftarrow> ent w a;
     w1 \<leftarrow> (if e_Parent e \<noteq> None then RemoveAsChildFromParent a w else Some w);
     e1 \<leftarrow> ent w1 a;
     remove_parent_from_children a 0 (e_ChildEntities e1) w1 }"

fun process_child_updates :: "addr list \<Rightarrow> world \<Rightarrow> world option" where
  "process_child_updates [] w = Some w"
| "process_child_updates (c # cs) w = do {
     w1 \<leftarrow> RemoveParentId c w;
     w2 \<leftarrow> ResolveEntityHierarchy c w1;
     process_child_updates cs (update_event c FLAG_PARENT [] w2) }"

definition LocalProcessChildUpdates :: "addr \<Rightarrow> world \<Rightarrow> world option" where
  "LocalProcessChildUpdates a w = do {
     e \<leftarrow> ent w a;
     process_child_updates (e_ChildEntities e) w }"

section \<open>The hierarchy as it is meant\<close>

definition obj :: "world \<Rightarrow> addr \<Rightarrow> entity" where
  "obj w a = the (ent w a)"

abbreviation kids :: "world \<Rightarrow> addr \<Rightarrow> addr list" where
  "kids w a \<equiv> e_ChildEntities (obj w a)"

definition upd_ent :: "addr \<Rightarrow> (entity \<Rightarrow> entity) \<Rightarrow> world \<Rightarrow> world" where
  "upd_ent a f w = put_ent a (f (obj w a)) w"

text \<open>The entities among which a parent is looked for, in the order of the search.\<close>

definition known :: "world \<Rightarrow> addr list" where
  "known w = Entities w @ (case w_Kind w of Offline \<Rightarrow> [] | Online _ \<Rightarrow> PendingAdds w)"

text \<open>
  The invariant over a set of entities \<open>S\<close>, the parent ids of those in \<open>D\<close> being out of step:
  all are live, ids identify them, parent pointers and child lists mirror each other, a parent
  pointer agrees with the parent id, and the roots are entities without a parent id.
\<close>

definition hier :: "addr set \<Rightarrow> addr set \<Rightarrow> world \<Rightarrow> bool" where
  "hier S D w \<longleftrightarrow>
     S \<subseteq> dom (w_Ents w) \<and> inj_on (\<lambda>a. e_Id (obj w a)) S \<and>
     set (known w) \<subseteq> S \<and> set (RootHierarchyEntities w) \<subseteq> S \<and> distinct (RootHierarchyEntities w) \<and>
     (\<forall>a \<in> set (RootHierarchyEntities w) - D. e_ParentId (obj w a) = None) \<and>
     (\<forall>a \<in> S. \<forall>p. e_Parent (obj w a) = Some p \<longrightarrow> p \<in> S \<and> a \<in> set (kids w p)
        \<and> (a \<notin> D \<longrightarrow> e_ParentId (obj w a) = Some (e_Id (obj w p)))) \<and>
     (\<forall>p \<in> S. distinct (kids w p) \<and> (\<forall>c \<in> set (kids w p). c \<in> S \<and> e_Parent (obj w c) = Some p))"

definition detach :: "addr \<Rightarrow> world \<Rightarrow> world" where
  "detach a w = (case e_Parent (obj w a) of
     None \<Rightarrow> w
   | Some p \<Rightarrow> upd_ent a (SetParent None) (upd_ent p (remove_child a) w))"

definition attach :: "addr \<Rightarrow> addr \<Rightarrow> world \<Rightarrow> world" where
  "attach a p w = upd_ent p (AddChildEntity a) (upd_ent a (SetParent (Some p)) w)"

definition set_root :: "addr \<Rightarrow> bool \<Rightarrow> world \<Rightarrow> world" where
  "set_root a b w = w\<lparr>RootHierarchyEntities :=
     (if \<not> b then remove1 a (RootHierarchyEntities w)
      else if a \<in> set (RootHierarchyEntities w) then RootHierarchyEntities w
      else RootHierarchyEntities w @ [a])\<rparr>"

definition entity_by_id :: "world \<Rightarrow> u64 \<Rightarrow> addr option" where
  "entity_by_id w i = find (\<lambda>b. e_Id (obj w b) = i) (known w)"

definition resolve_spec :: "addr \<Rightarrow> world \<Rightarrow> world" where
  "resolve_spec a w =
     (let w1 = detach a (set_root a (e_ParentId (obj w a) = None) w)
      in case Option.bind (e_ParentId (obj w a)) (entity_by_id w) of
           None \<Rightarrow> w1
         | Some p \<Rightarrow> attach a p w1)"

section \<open>The code keeps the hierarchy\<close>

subsection \<open>Reading and writing the heap\<close>

lemma ent_put_ent: "ent (put_ent a e w) b = (if b = a then Some e else ent w b)"
  by (simp add: ent_def put_ent_def)

lemma obj_put_ent [simp]: "obj (put_ent a e w) b = (if b = a then e else obj w b)"
  by (simp add: obj_def ent_put_ent)

lemma obj_upd_ent [simp]: "obj (upd_ent a f w) b = (if b = a then f (obj w a) else obj w b)"
  by (simp add: upd_ent_def)

lemma put_ent_lists [simp]:
  "Entities (put_ent a e w) = Entities w" "RootHierarchyEntities (put_ent a e w) = RootHierarchyEntities w"
  "PendingAdds (put_ent a e w) = PendingAdds w" "w_Kind (put_ent a e w) = w_Kind w"
  "Avatars (put_ent a e w) = Avatars w" "Objects (put_ent a e w) = Objects w"
  "SelectedEntities (put_ent a e w) = SelectedEntities w" "PendingRemoves (put_ent a e w) = PendingRemoves w"
  "PendingIncomingUpdates (put_ent a e w) = PendingIncomingUpdates w" "PendingOutgoing (put_ent a e w) = PendingOutgoing w"
  "w_Settings (put_ent a e w) = w_Settings w"
  "w_NextAddr (put_ent a e w) = w_NextAddr w" "w_Registry (put_ent a e w) = w_Registry w"
  "w_NextId (put_ent a e w) = w_NextId w" "w_Comps (put_ent a e w) = w_Comps w" "w_Events (put_ent a e w) = w_Events w"
  "w_Ents (put_ent a e w) = (w_Ents w)(a \<mapsto> e)"
  by (simp_all add: put_ent_def)

lemma ent_Some: "a \<in> dom (w_Ents w) \<Longrightarrow> ent w a = Some (obj w a)"
  by (auto simp: obj_def ent_def)

lemma dom_put_ent: "dom (w_Ents (put_ent a e w)) = insert a (dom (w_Ents w))"
  by simp

lemma modify_ent_live: "a \<in> dom (w_Ents w) \<Longrightarrow> modify_ent a f w = Some (upd_ent a f w)"
  by (simp add: modify_ent_def upd_ent_def ent_Some)

lemma upd_ent_lists [simp]:
  "Entities (upd_ent a f w) = Entities w" "RootHierarchyEntities (upd_ent a f w) = RootHierarchyEntities w"
  "PendingAdds (upd_ent a f w) = PendingAdds w" "w_Kind (upd_ent a f w) = w_Kind w"
  "Avatars (upd_ent a f w) = Avatars w" "Objects (upd_ent a f w) = Objects w"
  "SelectedEntities (upd_ent a f w) = SelectedEntities w" "PendingRemoves (upd_ent a f w) = PendingRemoves w"
  "PendingIncomingUpdates (upd_ent a f w) = PendingIncomingUpdates w" "PendingOutgoing (upd_ent a f w) = PendingOutgoing w"
  "w_Settings (upd_ent a f w) = w_Settings w"
  "w_NextAddr (upd_ent a f w) = w_NextAddr w" "w_Registry (upd_ent a f w) = w_Registry w"
  "w_NextId (upd_ent a f w) = w_NextId w" "w_Comps (upd_ent a f w) = w_Comps w" "w_Events (upd_ent a f w) = w_Events w"
  "known (upd_ent a f w) = known w"
  by (simp_all add: upd_ent_def known_def split: engine_kind.split)

lemma dom_upd_ent [simp]: "dom (w_Ents (upd_ent a f w)) = insert a (dom (w_Ents w))"
  by (simp add: upd_ent_def)

lemma find_entity_live:
  "set as \<subseteq> dom (w_Ents w) \<Longrightarrow> find_entity P w as = Some (find (\<lambda>b. P (obj w b)) as)"
  by (induction as) (auto simp: ent_Some)

lemma remove_first_by_id_live:
  "set as \<subseteq> dom (w_Ents w) \<Longrightarrow> inj_on (\<lambda>b. e_Id (obj w b)) (insert a (set as)) \<Longrightarrow>
   remove_first_by_id w (e_Id (obj w a)) as = Some (remove1 a as)"
proof (induction as)
  case (Cons b as)
  have "e_Id (obj w b) = e_Id (obj w a) \<longleftrightarrow> b = a"
    using Cons.prems(2) unfolding inj_on_def list.set by blast
  moreover have "remove_first_by_id w (e_Id (obj w a)) as = Some (remove1 a as)"
    using Cons by (auto intro: inj_on_subset)
  ultimately show ?case using Cons.prems(1) by (auto simp: ent_Some)
qed simp

lemma in_roots_live:
  assumes "a \<in> dom (w_Ents w)" "set (RootHierarchyEntities w) \<subseteq> dom (w_Ents w)"
    "inj_on (\<lambda>b. e_Id (obj w b)) (insert a (set (RootHierarchyEntities w)))"
  shows "EntityIsInRootHierarchy a w = Some (a \<in> set (RootHierarchyEntities w))"
proof -
  have "find (\<lambda>b. e_Id (obj w b) = e_Id (obj w a)) (RootHierarchyEntities w) = None
    \<longleftrightarrow> a \<notin> set (RootHierarchyEntities w)"
    using assms(3) unfolding inj_on_def find_None_iff by blast
  then show ?thesis
    using assms by (auto simp: EntityIsInRootHierarchy_def find_entity_live ent_Some)
qed

subsection \<open>The code computes the specified hierarchy\<close>

lemma hierD:
  assumes "hier S D w"
  shows "S \<subseteq> dom (w_Ents w)" "inj_on (\<lambda>a. e_Id (obj w a)) S" "set (known w) \<subseteq> S"
    "set (RootHierarchyEntities w) \<subseteq> S" "distinct (RootHierarchyEntities w)"
    "\<And>a. a \<in> set (RootHierarchyEntities w) \<Longrightarrow> a \<notin> D \<Longrightarrow> e_ParentId (obj w a) = None"
    "\<And>a p. a \<in> S \<Longrightarrow> e_Parent (obj w a) = Some p \<Longrightarrow> p \<in> S \<and> a \<in> set (kids w p)"
    "\<And>a p. a \<in> S \<Longrightarrow> e_Parent (obj w a) = Some p \<Longrightarrow> a \<notin> D \<Longrightarrow> e_ParentId (obj w a) = Some (e_Id (obj w p))"
    "\<And>p. p \<in> S \<Longrightarrow> distinct (kids w p)"
    "\<And>p c. p \<in> S \<Longrightarrow> c \<in> set (kids w p) \<Longrightarrow> c \<in> S \<and> e_Parent (obj w c) = Some p"
  using assms unfolding hier_def by blast+

lemma hierI:
  assumes "S \<subseteq> dom (w_Ents w)" "inj_on (\<lambda>a. e_Id (obj w a)) S" "set (known w) \<subseteq> S"
    "set (RootHierarchyEntities w) \<subseteq> S" "distinct (RootHierarchyEntities w)"
    "\<And>a. a \<in> set (RootHierarchyEntities w) \<Longrightarrow> a \<notin> D \<Longrightarrow> e_ParentId (obj w a) = None"
    "\<And>a p. a \<in> S \<Longrightarrow> e_Parent (obj w a) = Some p \<Longrightarrow> p \<in> S \<and> a \<in> set (kids w p)"
    "\<And>a p. a \<in> S \<Longrightarrow> e_Parent (obj w a) = Some p \<Longrightarrow> a \<notin> D \<Longrightarrow> e_ParentId (obj w a) = Some (e_Id (obj w p))"
    "\<And>p. p \<in> S \<Longrightarrow> distinct (kids w p)"
    "\<And>p c. p \<in> S \<Longrightarrow> c \<in> set (kids w p) \<Longrightarrow> c \<in> S \<and> e_Parent (obj w c) = Some p"
  shows "hier S D w"
  using assms unfolding hier_def by blast

lemma put_ent_twice: "put_ent a e (put_ent a e' w) = put_ent a e w"
  by (simp add: put_ent_def)

lemma upd_ent_overwrite: "(\<And>e. f (g e) = f e) \<Longrightarrow> upd_ent a f (upd_ent a g w) = upd_ent a f w"
  by (simp add: upd_ent_def put_ent_twice)

lemma SetParent_twice [simp]: "SetParent x (SetParent y e) = SetParent x e"
  by (simp add: SetParent_def)


lemma child_ops_simps [simp]:
  "e_Id (remove_child a e) = e_Id e" "e_Id (AddChildEntity a e) = e_Id e" "e_Id (SetParent x e) = e_Id e"
  "e_Type (remove_child a e) = e_Type e" "e_Type (AddChildEntity a e) = e_Type e" "e_Type (SetParent x e) = e_Type e"
  "e_ParentId (remove_child a e) = e_ParentId e" "e_ParentId (AddChildEntity a e) = e_ParentId e"
  "e_ParentId (SetParent x e) = e_ParentId e"
  "e_Parent (remove_child a e) = e_Parent e" "e_Parent (AddChildEntity a e) = e_Parent e"
  "e_Parent (SetParent x e) = x"
  "e_ChildEntities (remove_child a e) = remove1 a (e_ChildEntities e)"
  "e_ChildEntities (AddChildEntity a e) = e_ChildEntities e @ [a]"
  "e_ChildEntities (SetParent x e) = e_ChildEntities e"
  "e_StatePatcher (remove_child a e) = e_StatePatcher e" "e_StatePatcher (AddChildEntity a e) = e_StatePatcher e"
  "e_StatePatcher (SetParent x e) = e_StatePatcher e"
  "e_Components (remove_child a e) = e_Components e" "e_Components (AddChildEntity a e) = e_Components e"
  "e_Components (SetParent x e) = e_Components e"
  by (simp_all add: remove_child_def AddChildEntity_def SetParent_def)

lemma upd_ent_triv: "a \<in> dom (w_Ents w) \<Longrightarrow> f (obj w a) = obj w a \<Longrightarrow> upd_ent a f w = w"
  by (auto simp: upd_ent_def put_ent_def obj_def ent_def fun_upd_idem)

lemma entity_by_id_cong:
  "known w' = known w \<Longrightarrow> (\<And>b. e_Id (obj w' b) = e_Id (obj w b)) \<Longrightarrow> entity_by_id w' i = entity_by_id w i"
  by (simp add: entity_by_id_def)

lemma entity_by_id_Some: "entity_by_id w i = Some q \<Longrightarrow> q \<in> set (known w) \<and> e_Id (obj w q) = i"
  by (auto simp: entity_by_id_def find_Some_iff)

lemma find_append: "find P (xs @ ys) = (case find P xs of None \<Rightarrow> find P ys | Some x \<Rightarrow> Some x)"
  by (induction xs) auto

lemma find_parent_live:
  assumes "set (known w) \<subseteq> dom (w_Ents w)"
  shows "Option.bind (FindSpaceEntityById i w) (\<lambda>Found. Option.bind
      (case (Found, w_Kind w) of
        (None, Online _) \<Rightarrow> find_entity (\<lambda>x. e_Id x = i) w (PendingAdds w)
      | _ \<Rightarrow> Some Found) k) = k (entity_by_id w i)"
  using assms
  by (auto simp: FindSpaceEntityById_def entity_by_id_def known_def find_entity_live find_append
      split: engine_kind.splits option.splits)

lemma ResolveParentChildRelationship_live:
  assumes "a \<in> dom (w_Ents w)" "set (known w) \<subseteq> dom (w_Ents w)"
    "\<And>p. e_Parent (obj w a) = Some p \<Longrightarrow> p \<in> dom (w_Ents w)"
  shows "ResolveParentChildRelationship a w = Some
    (case Option.bind (e_ParentId (obj w a)) (entity_by_id w) of
       None \<Rightarrow> detach a w | Some p \<Rightarrow> attach a p (detach a w))"
proof (cases "e_ParentId (obj w a)")
  case None
  with assms show ?thesis
    by (auto simp: ResolveParentChildRelationship_def detach_def ent_Some modify_ent_live split: option.split)
next
  case (Some i)
  define w1 where "w1 = (case e_Parent (obj w a) of Some p \<Rightarrow> upd_ent p (remove_child a) w | None \<Rightarrow> w)"
  have w1: "(case e_Parent (obj w a) of Some p \<Rightarrow> modify_ent p (remove_child a) w | None \<Rightarrow> Some w) = Some w1"
    using assms(3) by (auto simp: w1_def modify_ent_live split: option.split)
  have same: "known w1 = known w" "e_Id (obj w1 b) = e_Id (obj w b)" "dom (w_Ents w) \<subseteq> dom (w_Ents w1)" for b
    by (auto simp: w1_def split: option.split)
  have found: "Option.bind (FindSpaceEntityById i w1) (\<lambda>Found. Option.bind
      (case (Found, w_Kind w1) of
        (None, Online _) \<Rightarrow> find_entity (\<lambda>x. e_Id x = i) w1 (PendingAdds w1)
      | _ \<Rightarrow> Some Found) k) = k (entity_by_id w i)" for k
    using find_parent_live [of w1 i k] entity_by_id_cong [of w1 w i] same assms(2) by auto
  have live: "a \<in> dom (w_Ents w1)" using assms(1) same(3) by auto
  have set_parent: "upd_ent a (SetParent x) w1 = (case x of None \<Rightarrow> detach a w | Some p \<Rightarrow> upd_ent a (SetParent x) (detach a w))" for x
  proof (cases "e_Parent (obj w a)")
    case None
    then have "SetParent None (obj w a) = obj w a" by (simp add: SetParent_def)
    with None assms(1) show ?thesis by (auto simp: w1_def detach_def upd_ent_triv split: option.split)
  next
    case (Some p)
    then show ?thesis by (auto simp: w1_def detach_def upd_ent_overwrite split: option.split)
  qed
  have "q \<in> dom (w_Ents w)" if "entity_by_id w i = Some q" for q
    using entity_by_id_Some [OF that] assms(2) by blast
  then have q: "q \<in> dom (w_Ents (upd_ent a f (detach a w)))" if "entity_by_id w i = Some q" for q f
    using that by (auto simp: detach_def split: option.split)
  show ?thesis
    unfolding ResolveParentChildRelationship_def ent_Some [OF assms(1)] bind.bind_lunit Some option.case w1 found
      modify_ent_live [OF live]
    by (cases "entity_by_id w i") (simp_all add: set_parent attach_def modify_ent_live [OF q])
qed


lemma set_root_simps [simp]:
  "obj (set_root a b w) c = obj w c" "known (set_root a b w) = known w" "w_Ents (set_root a b w) = w_Ents w"
  "w_Kind (set_root a b w) = w_Kind w" "Entities (set_root a b w) = Entities w"
  by (simp_all add: set_root_def obj_def ent_def known_def split: engine_kind.split)

lemma entity_by_id_set_root [simp]: "entity_by_id (set_root a b w) = entity_by_id w"
  by (rule ext) (simp add: entity_by_id_def)

text \<open>Refinement: on a consistent hierarchy the code's resolution is the specified one, and is defined.\<close>

lemma ResolveEntityHierarchy_refines:
  assumes h: "hier S D w" and a: "a \<in> S"
  shows "ResolveEntityHierarchy a w = Some (resolve_spec a w)"
proof -
  note hd = hierD [OF h]
  have live: "a \<in> dom (w_Ents w)" "set (RootHierarchyEntities w) \<subseteq> dom (w_Ents w)" "set (known w) \<subseteq> dom (w_Ents w)"
    using a hd(1,3,4) by blast+
  have inj: "inj_on (\<lambda>b. e_Id (obj w b)) (insert a (set (RootHierarchyEntities w)))"
    using a hd(4) by (intro inj_on_subset [OF hd(2)]) blast
  have roots: "(if e_ParentId (obj w a) \<noteq> None
      then Option.bind (remove_first_by_id w (e_Id (obj w a)) (RootHierarchyEntities w))
        (\<lambda>r. Some (w\<lparr>RootHierarchyEntities := r\<rparr>))
      else Option.bind (EntityIsInRootHierarchy a w)
        (\<lambda>b. Some (if \<not> b then w\<lparr>RootHierarchyEntities := RootHierarchyEntities w @ [a]\<rparr> else w)))
    = Some (set_root a (e_ParentId (obj w a) = None) w)"
    using remove_first_by_id_live [OF live(2) inj] in_roots_live [OF live(1,2) inj]
    by (auto simp: set_root_def)
  have "ResolveParentChildRelationship a (set_root a b w) = Some
    (case Option.bind (e_ParentId (obj w a)) (entity_by_id w) of
       None \<Rightarrow> detach a (set_root a b w) | Some p \<Rightarrow> attach a p (detach a (set_root a b w)))" for b
    using ResolveParentChildRelationship_live [of a "set_root a b w"] live(1,3) hd(7) [OF a] hd(1) by auto
  then show ?thesis
    unfolding ResolveEntityHierarchy_def ent_Some [OF live(1)] bind.bind_lunit roots
    by (simp add: resolve_spec_def Let_def)
qed

subsection \<open>Resolution repairs the hierarchy\<close>

lemma set_root_set:
  "distinct (RootHierarchyEntities w) \<Longrightarrow>
   set (RootHierarchyEntities (set_root a b w)) = (if b then insert a else (\<lambda>R. R - {a})) (set (RootHierarchyEntities w))
   \<and> distinct (RootHierarchyEntities (set_root a b w))"
  by (auto simp: set_root_def)

lemma hier_set_root:
  assumes h: "hier S D w" and a: "a \<in> S" "b \<longleftrightarrow> e_ParentId (obj w a) = None"
  shows "hier S D (set_root a b w)"
proof -
  note hd = hierD [OF h]
  have roots: "set (RootHierarchyEntities (set_root a b w)) = (if b then insert a else (\<lambda>R. R - {a})) (set (RootHierarchyEntities w))"
    "distinct (RootHierarchyEntities (set_root a b w))"
    using set_root_set [OF hd(5)] by blast+
  show ?thesis
  proof (rule hierI; (unfold set_root_simps)?)
    show "set (RootHierarchyEntities (set_root a b w)) \<subseteq> S" using hd(4) a(1) by (auto simp: roots)
    show "e_ParentId (obj w c) = None" if "c \<in> set (RootHierarchyEntities (set_root a b w))" "c \<notin> D" for c
      using that hd(6) [of c] a(2) unfolding roots by (auto split: if_splits)
  qed (fact hd(1) hd(2) hd(3) roots(2) | rule hd(7) hd(8) hd(9) hd(10); assumption)+
qed

lemma obj_detach:
  "obj (detach a w) b = (case e_Parent (obj w a) of
     None \<Rightarrow> obj w b
   | Some p \<Rightarrow> (if b = a then SetParent None else id) ((if b = p then remove_child a else id) (obj w b)))"
  by (auto simp: detach_def split: option.split)

lemma detach_lists [simp]:
  "Entities (detach a w) = Entities w" "RootHierarchyEntities (detach a w) = RootHierarchyEntities w"
  "known (detach a w) = known w" "w_Kind (detach a w) = w_Kind w"
  "Avatars (detach a w) = Avatars w" "Objects (detach a w) = Objects w"
  by (simp_all add: detach_def split: option.split)

lemma obj_attach:
  "obj (attach a p w) b = (if b = p then AddChildEntity a else id) ((if b = a then SetParent (Some p) else id) (obj w b))"
  by (simp add: attach_def)

lemma attach_lists [simp]:
  "Entities (attach a p w) = Entities w" "RootHierarchyEntities (attach a p w) = RootHierarchyEntities w"
  "known (attach a p w) = known w" "w_Kind (attach a p w) = w_Kind w"
  "Avatars (attach a p w) = Avatars w" "Objects (attach a p w) = Objects w"
  by (simp_all add: attach_def)

lemma hier_detach:
  assumes h: "hier S D w" and a: "a \<in> S"
  shows "hier S D (detach a w)"
proof (cases "e_Parent (obj w a)")
  case None
  then show ?thesis using h by (simp add: detach_def)
next
  case (Some p)
  note hd = hierD [OF h]
  have o: "obj (detach a w) b = (if b = a then SetParent None else id) ((if b = p then remove_child a else id) (obj w b))" for b
    by (simp add: obj_detach Some)
  have par: "e_Parent (obj (detach a w) b) = (if b = a then None else e_Parent (obj w b))" for b by (simp add: o)
  have kid: "kids (detach a w) b = (if b = p then remove1 a (kids w p) else kids w b)" for b by (simp add: o)
  have ids: "e_Id (obj (detach a w) b) = e_Id (obj w b)" "e_ParentId (obj (detach a w) b) = e_ParentId (obj w b)" for b
    by (simp_all add: o)
  have dom: "dom (w_Ents w) \<subseteq> dom (w_Ents (detach a w))" by (auto simp: detach_def Some)
  have p: "p \<in> S" "distinct (kids w p)" using hd(7) [OF a Some] hd(9) by blast+
  show ?thesis
  proof (rule hierI; (unfold detach_lists ids)?)
    show "S \<subseteq> dom (w_Ents (detach a w))" using hd(1) dom by blast
    show "q \<in> S \<and> b \<in> set (kids (detach a w) q)" if "b \<in> S" "e_Parent (obj (detach a w) b) = Some q" for b q
      using that hd(7) [of b q] p(2) by (auto simp: par kid split: if_splits)
    show "distinct (kids (detach a w) q)" if "q \<in> S" for q
      using that hd(9) by (auto simp: kid intro: distinct_remove1)
    show "c \<in> S \<and> e_Parent (obj (detach a w) c) = Some q" if "q \<in> S" "c \<in> set (kids (detach a w) q)" for q c
      using that hd(10) [of q c] p Some by (auto simp: par kid split: if_splits)
    show "e_ParentId (obj w b) = Some (e_Id (obj w q))"
      if "b \<in> S" "e_Parent (obj (detach a w) b) = Some q" "b \<notin> D" for b q
      using that hd(8) [of b q] by (auto simp: par split: if_splits)
  qed (fact hd(2) hd(3) hd(4) hd(5) | rule hd(6); assumption)+
qed

lemma detach_no_parent [simp]: "e_Parent (obj (detach a w) a) = None"
  by (auto simp: obj_detach split: option.split)

lemma detach_ids [simp]: "e_Id (obj (detach a w) b) = e_Id (obj w b)"
  "e_ParentId (obj (detach a w) b) = e_ParentId (obj w b)"
  by (simp_all add: obj_detach split: option.split)

lemma hier_attach:
  assumes h: "hier S D w" and a: "a \<in> S" "e_Parent (obj w a) = None"
    and p: "p \<in> S" "e_ParentId (obj w a) = Some (e_Id (obj w p))"
  shows "hier S D (attach a p w)"
proof -
  note hd = hierD [OF h]
  have par: "e_Parent (obj (attach a p w) b) = (if b = a then Some p else e_Parent (obj w b))" for b
    by (simp add: obj_attach)
  have kid: "kids (attach a p w) b = (if b = p then kids w p @ [a] else kids w b)" for b by (simp add: obj_attach)
  have ids: "e_Id (obj (attach a p w) b) = e_Id (obj w b)" "e_ParentId (obj (attach a p w) b) = e_ParentId (obj w b)" for b
    by (simp_all add: obj_attach)
  have orphan: "a \<notin> set (kids w q)" if "q \<in> S" for q using hd(10) [OF that] a(2) by fastforce
  show ?thesis
  proof (rule hierI; (unfold attach_lists ids)?)
    show "S \<subseteq> dom (w_Ents (attach a p w))" using hd(1) by (auto simp: attach_def)
    show "q \<in> S \<and> b \<in> set (kids (attach a p w) q)" if "b \<in> S" "e_Parent (obj (attach a p w) b) = Some q" for b q
      using that hd(7) [of b q] p by (auto simp: par kid split: if_splits)
    show "distinct (kids (attach a p w) q)" if "q \<in> S" for q
      using that hd(9) [of q] orphan [of q] by (auto simp: kid)
    show "c \<in> S \<and> e_Parent (obj (attach a p w) c) = Some q" if "q \<in> S" "c \<in> set (kids (attach a p w) q)" for q c
      using that hd(10) [of q c] orphan a(1) by (auto simp: par kid split: if_splits)
    show "e_ParentId (obj w b) = Some (e_Id (obj w q))"
      if "b \<in> S" "e_Parent (obj (attach a p w) b) = Some q" "b \<notin> D" for b q
      using that hd(8) [of b q] p by (auto simp: par split: if_splits)
  qed (fact hd(2) hd(3) hd(4) hd(5) | rule hd(6); assumption)+
qed


text \<open>Resolving an entity removes it from the set whose parent ids are out of step.\<close>

lemma hier_clean:
  assumes h: "hier S D w" and a: "e_Parent (obj w a) = None"
    "a \<in> set (RootHierarchyEntities w) \<Longrightarrow> e_ParentId (obj w a) = None"
  shows "hier S (D - {a}) w"
proof -
  note hd = hierD [OF h]
  show ?thesis
  proof (rule hierI)
    show "e_ParentId (obj w c) = None" if "c \<in> set (RootHierarchyEntities w)" "c \<notin> D - {a}" for c
      using that hd(6) [of c] a(2) by auto
    show "e_ParentId (obj w c) = Some (e_Id (obj w p))" if "c \<in> S" "e_Parent (obj w c) = Some p" "c \<notin> D - {a}" for c p
      using that hd(8) [of c p] a(1) by auto
  qed (fact hd(1) hd(2) hd(3) hd(4) hd(5) | rule hd(7) hd(9) hd(10); assumption)+
qed

lemma set_root_is_root:
  "distinct (RootHierarchyEntities w) \<Longrightarrow> a \<in> set (RootHierarchyEntities (set_root a b w)) \<longleftrightarrow> b"
  using set_root_set [of w a b] by simp

lemma hier_mono: "hier S D w \<Longrightarrow> D \<subseteq> D' \<Longrightarrow> hier S D' w"
  unfolding hier_def by blast

lemma hier_set_root_dirty:
  assumes "hier S D w" "a \<in> S"
  shows "hier S D (set_root a (e_ParentId (obj w a) = None) w)"
  using hier_set_root [OF assms(1,2)] by blast

lemma hier_resolve_spec:
  assumes h: "hier S D w" and a: "a \<in> S"
  shows "hier S (D - {a}) (resolve_spec a w)"
proof -
  define w1 where "w1 = set_root a (e_ParentId (obj w a) = None) w"
  have "hier S D (detach a w1)"
    using hier_detach [OF hier_set_root_dirty [OF h a] a] by (simp add: w1_def)
  moreover have "e_ParentId (obj w a) = None" if "a \<in> set (RootHierarchyEntities (detach a w1))"
    using that set_root_is_root [OF hierD(5) [OF h]] by (simp add: w1_def)
  ultimately have clean: "hier S (D - {a}) (detach a w1)"
    by (intro hier_clean) (simp_all add: w1_def)
  show ?thesis
  proof (cases "Option.bind (e_ParentId (obj w a)) (entity_by_id w)")
    case None
    then show ?thesis using clean by (simp add: resolve_spec_def w1_def)
  next
    case (Some p)
    then obtain i where i: "e_ParentId (obj w a) = Some i" "entity_by_id w i = Some p"
      by (auto simp: bind_eq_Some_conv)
    then have p: "p \<in> S" "e_Id (obj w p) = i"
      using entity_by_id_Some [OF i(2)] hierD(3) [OF h] by blast+
    have "hier S (D - {a}) (attach a p (detach a w1))"
      using clean a p i(1) by (intro hier_attach) (simp_all add: w1_def)
    with Some show ?thesis by (simp add: resolve_spec_def w1_def)
  qed
qed

subsection \<open>What resolution leaves alone\<close>

definition strip_links :: "entity \<Rightarrow> entity" where
  "strip_links e = e\<lparr>e_Parent := None, e_ChildEntities := [], e_ParentId := None\<rparr>"

definition world_rest :: "world \<Rightarrow> world" where
  "world_rest w = w\<lparr>w_Ents := (\<lambda>_. None), RootHierarchyEntities := [], w_Events := []\<rparr>"

text \<open>Everything but the links, the roots and the event log is the same.\<close>

definition links_only :: "world \<Rightarrow> world \<Rightarrow> bool" where
  "links_only w w' \<longleftrightarrow>
     world_rest w' = world_rest w \<and> dom (w_Ents w') = dom (w_Ents w) \<and> (\<forall>b. strip_links (obj w' b) = strip_links (obj w b))"

lemma links_only_refl [simp]: "links_only w w"
  by (simp add: links_only_def)

lemma links_only_lists:
  assumes "links_only w w'"
  shows "Entities w' = Entities w" "Avatars w' = Avatars w" "Objects w' = Objects w"
    "SelectedEntities w' = SelectedEntities w" "PendingAdds w' = PendingAdds w"
    "PendingRemoves w' = PendingRemoves w" "w_Kind w' = w_Kind w" "w_Comps w' = w_Comps w"
    "w_NextAddr w' = w_NextAddr w" "w_NextId w' = w_NextId w" "w_Registry w' = w_Registry w"
    "PendingIncomingUpdates w' = PendingIncomingUpdates w" "PendingOutgoing w' = PendingOutgoing w"
    "w_Settings w' = w_Settings w"
proof -
  have "world_rest w' = world_rest w" using assms by (simp add: links_only_def)
  from arg_cong [OF this, of Entities] arg_cong [OF this, of Avatars] arg_cong [OF this, of Objects]
    arg_cong [OF this, of SelectedEntities] arg_cong [OF this, of PendingAdds]
    arg_cong [OF this, of PendingRemoves] arg_cong [OF this, of w_Kind] arg_cong [OF this, of w_Comps]
    arg_cong [OF this, of w_NextAddr] arg_cong [OF this, of w_NextId] arg_cong [OF this, of w_Registry]
    arg_cong [OF this, of PendingIncomingUpdates] arg_cong [OF this, of PendingOutgoing] arg_cong [OF this, of w_Settings]
  show "Entities w' = Entities w" "Avatars w' = Avatars w" "Objects w' = Objects w"
    "SelectedEntities w' = SelectedEntities w" "PendingAdds w' = PendingAdds w"
    "PendingRemoves w' = PendingRemoves w" "w_Kind w' = w_Kind w" "w_Comps w' = w_Comps w"
    "w_NextAddr w' = w_NextAddr w" "w_NextId w' = w_NextId w" "w_Registry w' = w_Registry w"
    "PendingIncomingUpdates w' = PendingIncomingUpdates w" "PendingOutgoing w' = PendingOutgoing w"
    "w_Settings w' = w_Settings w"
    by (simp_all add: world_rest_def)
qed

lemma strip_linksD:
  assumes "strip_links e' = strip_links e"
  shows "e_Id e' = e_Id e" "e_Type e' = e_Type e" "e_StatePatcher e' = e_StatePatcher e"
    "e_Components e' = e_Components e" "e_UpdateCallback e' = e_UpdateCallback e"
    "e_DestroyCallback e' = e_DestroyCallback e" "e_SelectedId e' = e_SelectedId e" "e_Lock e' = e_Lock e"
  using arg_cong [OF assms, of e_Id] arg_cong [OF assms, of e_Type] arg_cong [OF assms, of e_StatePatcher]
    arg_cong [OF assms, of e_Components] arg_cong [OF assms, of e_UpdateCallback]
    arg_cong [OF assms, of e_DestroyCallback] arg_cong [OF assms, of e_SelectedId] arg_cong [OF assms, of e_Lock]
  by (simp_all add: strip_links_def)

lemma links_only_fields:
  assumes "links_only w w'"
  shows "dom (w_Ents w') = dom (w_Ents w)" "e_Id (obj w' b) = e_Id (obj w b)" "e_Type (obj w' b) = e_Type (obj w b)"
    "e_StatePatcher (obj w' b) = e_StatePatcher (obj w b)" "e_Components (obj w' b) = e_Components (obj w b)"
    "e_UpdateCallback (obj w' b) = e_UpdateCallback (obj w b)"
    "e_DestroyCallback (obj w' b) = e_DestroyCallback (obj w b)" "e_SelectedId (obj w' b) = e_SelectedId (obj w b)"
proof -
  have s: "strip_links (obj w' b) = strip_links (obj w b)" and d: "dom (w_Ents w') = dom (w_Ents w)"
    using assms unfolding links_only_def by blast+
  show "dom (w_Ents w') = dom (w_Ents w)" by (fact d)
  from strip_linksD [OF s] show "e_Id (obj w' b) = e_Id (obj w b)" "e_Type (obj w' b) = e_Type (obj w b)"
    "e_StatePatcher (obj w' b) = e_StatePatcher (obj w b)" "e_Components (obj w' b) = e_Components (obj w b)"
    "e_UpdateCallback (obj w' b) = e_UpdateCallback (obj w b)"
    "e_DestroyCallback (obj w' b) = e_DestroyCallback (obj w b)" "e_SelectedId (obj w' b) = e_SelectedId (obj w b)"
    by simp_all
qed

lemma links_only_trans: "links_only w1 w2 \<Longrightarrow> links_only w2 w3 \<Longrightarrow> links_only w1 w3"
  unfolding links_only_def by metis

lemma world_rest_put_ent [simp]: "world_rest (put_ent a e w) = world_rest w"
  by (simp add: world_rest_def put_ent_def)

lemma world_rest_upd_ent [simp]: "world_rest (upd_ent a f w) = world_rest w"
  by (simp add: upd_ent_def)

lemma links_only_upd_ent:
  assumes "a \<in> dom (w_Ents w)" "strip_links (f (obj w a)) = strip_links (obj w a)"
  shows "links_only w (upd_ent a f w)"
  using assms by (auto simp: links_only_def upd_ent_def)

lemma strip_child_ops [simp]:
  "strip_links (remove_child a e) = strip_links e" "strip_links (AddChildEntity a e) = strip_links e"
  "strip_links (SetParent x e) = strip_links e" "strip_links (e\<lparr>e_ParentId := i\<rparr>) = strip_links e"
  by (simp_all add: strip_links_def remove_child_def AddChildEntity_def SetParent_def)

lemma links_only_emit: "links_only w (emit_event ev w)"
  by (simp add: links_only_def emit_event_def world_rest_def obj_def ent_def)

lemma links_only_update_event: "links_only w (update_event a f us w)"
  by (auto simp: update_event_def links_only_emit split: option.split)

lemma links_only_set_root: "links_only w (set_root a b w)"
  by (simp add: links_only_def set_root_def world_rest_def obj_def ent_def)

lemma links_only_detach:
  assumes "a \<in> dom (w_Ents w)" "\<And>p. e_Parent (obj w a) = Some p \<Longrightarrow> p \<in> dom (w_Ents w)"
  shows "links_only w (detach a w)"
proof (cases "e_Parent (obj w a)")
  case (Some p)
  then have "links_only w (upd_ent p (remove_child a) w)" using assms(2) by (intro links_only_upd_ent) simp_all
  moreover have "links_only (upd_ent p (remove_child a) w) (detach a w)"
    using Some assms(1) by (simp add: detach_def, intro links_only_upd_ent) simp_all
  ultimately show ?thesis by (rule links_only_trans)
qed (simp add: detach_def)

lemma links_only_attach:
  assumes "a \<in> dom (w_Ents w)" "p \<in> dom (w_Ents w)"
  shows "links_only w (attach a p w)"
  unfolding attach_def using assms
  by (intro links_only_trans [OF links_only_upd_ent links_only_upd_ent]) simp_all

lemma links_only_resolve:
  assumes h: "hier S D w" and a: "a \<in> S"
  shows "links_only w (resolve_spec a w)"
proof -
  note hd = hierD [OF h]
  have live: "a \<in> dom (w_Ents w)" using hd(1) a by blast
  let ?w1 = "detach a (set_root a (e_ParentId (obj w a) = None) w)"
  have 1: "links_only w ?w1"
    using hd(1,7) a live by (intro links_only_trans [OF links_only_set_root links_only_detach]) auto
  have "links_only w (attach a p ?w1)" if "entity_by_id w i = Some p" for i p
  proof (rule links_only_trans [OF 1 links_only_attach])
    have "p \<in> S" using entity_by_id_Some [OF that] hd(3) by blast
    then show "p \<in> dom (w_Ents ?w1)" using links_only_fields(1) [OF 1] hd(1) by blast
    show "a \<in> dom (w_Ents ?w1)" using links_only_fields(1) [OF 1] live by simp
  qed
  with 1 show ?thesis by (auto simp: resolve_spec_def Let_def bind_eq_Some_conv split: option.split)
qed


subsection \<open>Setting the parent\<close>

lemma hier_cong:
  assumes "hier S D w" "w_Ents w' = w_Ents w" "known w' = known w" "RootHierarchyEntities w' = RootHierarchyEntities w"
  shows "hier S D w'"
proof -
  have o: "obj w' = obj w" by (rule ext) (simp add: obj_def ent_def assms(2))
  show ?thesis unfolding hier_def assms(2-4) o by (rule assms(1) [unfolded hier_def])
qed

lemma update_event_simps [simp]:
  "w_Ents (update_event a f us w) = w_Ents w" "known (update_event a f us w) = known w"
  "RootHierarchyEntities (update_event a f us w) = RootHierarchyEntities w"
  "obj (update_event a f us w) = obj w"
  by (auto simp: update_event_def emit_event_def known_def obj_def ent_def split: option.split engine_kind.split)

lemma hier_update_event [simp]: "hier S D w \<Longrightarrow> hier S D (update_event a f us w)"
  by (erule hier_cong) simp_all

lemma hier_set_parent_id:
  assumes h: "hier S D w" and a: "a \<in> S"
  shows "hier S (insert a D) (upd_ent a (\<lambda>e. e\<lparr>e_ParentId := v\<rparr>) w)"
proof -
  note hd = hierD [OF h]
  let ?w = "upd_ent a (\<lambda>e. e\<lparr>e_ParentId := v\<rparr>) w"
  have o: "e_Parent (obj ?w b) = e_Parent (obj w b)" "kids ?w b = kids w b" "e_Id (obj ?w b) = e_Id (obj w b)" for b
    by simp_all
  show ?thesis
  proof (rule hierI; (unfold o upd_ent_lists)?)
    show "S \<subseteq> dom (w_Ents ?w)" using hd(1) by auto
    show "e_ParentId (obj ?w c) = None" if "c \<in> set (RootHierarchyEntities w)" "c \<notin> insert a D" for c
      using that hd(6) [of c] by simp
    show "e_ParentId (obj ?w c) = Some (e_Id (obj w p))"
      if "c \<in> S" "e_Parent (obj w c) = Some p" "c \<notin> insert a D" for c p
      using that hd(8) [of c p] by simp
  qed (fact hd(2) hd(3) hd(4) hd(5) | rule hd(7) hd(9) hd(10); assumption)+
qed

definition set_parent_spec :: "addr \<Rightarrow> u64 option \<Rightarrow> world \<Rightarrow> world" where
  "set_parent_spec a v w = resolve_spec a (upd_ent a (\<lambda>e. e\<lparr>e_ParentId := v\<rparr>) w)"

lemma set_parent_spec_hier: "hier S D w \<Longrightarrow> a \<in> S \<Longrightarrow> hier S (D - {a}) (set_parent_spec a v w)"
  using hier_resolve_spec [OF hier_set_parent_id, of S D w a a v] by (simp add: set_parent_spec_def)

lemma set_parent_spec_links:
  assumes "hier S D w" "a \<in> S"
  shows "links_only w (set_parent_spec a v w)"
proof -
  have "a \<in> dom (w_Ents w)" using hierD(1) [OF assms(1)] assms(2) by blast
  then have "links_only w (upd_ent a (\<lambda>e. e\<lparr>e_ParentId := v\<rparr>) w)" by (rule links_only_upd_ent) simp
  then show ?thesis unfolding set_parent_spec_def
    using links_only_resolve [OF hier_set_parent_id [OF assms] assms(2)] links_only_trans by blast
qed

lemma resolve_after_parent_id:
  assumes "hier S D w" "a \<in> S"
  shows "Option.bind (modify_ent a (\<lambda>e. e\<lparr>e_ParentId := v\<rparr>) w) (\<lambda>w1. Option.bind (ResolveEntityHierarchy a w1) k)
    = k (set_parent_spec a v w)"
proof -
  have "a \<in> dom (w_Ents w)" using hierD(1) [OF assms(1)] assms(2) by blast
  then show ?thesis
    using ResolveEntityHierarchy_refines [OF hier_set_parent_id [OF assms, of v] assms(2)]
    by (simp add: modify_ent_live set_parent_spec_def)
qed

lemma SetParentIdDirect_refines:
  "hier S D w \<Longrightarrow> a \<in> S \<Longrightarrow> SetParentIdDirect a v call w = Some
     ((if call then update_event a FLAG_PARENT [] else id) (set_parent_spec a v w))"
  by (simp add: SetParentIdDirect_def resolve_after_parent_id)

text \<open>The links that setting a parent leaves.\<close>

lemma set_parent_spec_links_of:
  fixes w :: world and a :: addr
  defines "par \<equiv> e_Parent (obj w a)"
  assumes h: "hier S D w" and a: "a \<in> S"
  shows "e_Parent (obj (set_parent_spec a v w) b) = (if b = a then Option.bind v (entity_by_id w) else e_Parent (obj w b))"
    "kids (set_parent_spec a v w) b =
       (if par = Some b then remove1 a (kids w b) else kids w b)
       @ (if Option.bind v (entity_by_id w) = Some b then [a] else [])"
    "e_ParentId (obj (set_parent_spec a v w) b) = (if b = a then v else e_ParentId (obj w b))"
    "RootHierarchyEntities (set_parent_spec a v w) =
       (if v \<noteq> None then remove1 a (RootHierarchyEntities w)
        else if a \<in> set (RootHierarchyEntities w) then RootHierarchyEntities w
        else RootHierarchyEntities w @ [a])"
proof -
  let ?w1 = "upd_ent a (\<lambda>e. e\<lparr>e_ParentId := v\<rparr>) w"
  have lookup: "entity_by_id ?w1 = entity_by_id w" by (intro ext entity_by_id_cong) simp_all
  have root: "RootHierarchyEntities (set_root a b ?w1) =
      (if \<not> b then remove1 a (RootHierarchyEntities w)
       else if a \<in> set (RootHierarchyEntities w) then RootHierarchyEntities w
       else RootHierarchyEntities w @ [a])" for b
    by (simp add: set_root_def)
  note defs = set_parent_spec_def resolve_spec_def Let_def lookup par_def obj_attach obj_detach
  show "e_Parent (obj (set_parent_spec a v w) b) = (if b = a then Option.bind v (entity_by_id w) else e_Parent (obj w b))"
    by (auto simp: defs split: option.split)
  show "kids (set_parent_spec a v w) b =
       (if par = Some b then remove1 a (kids w b) else kids w b)
       @ (if Option.bind v (entity_by_id w) = Some b then [a] else [])"
    by (auto simp: defs split: option.split)
  show "e_ParentId (obj (set_parent_spec a v w) b) = (if b = a then v else e_ParentId (obj w b))"
    by (auto simp: defs split: option.split)
  have "RootHierarchyEntities (set_parent_spec a v w) = RootHierarchyEntities (set_root a (v = None) ?w1)"
    by (simp add: defs split: option.split)
  then show "RootHierarchyEntities (set_parent_spec a v w) =
       (if v \<noteq> None then remove1 a (RootHierarchyEntities w)
        else if a \<in> set (RootHierarchyEntities w) then RootHierarchyEntities w
        else RootHierarchyEntities w @ [a])"
    using root [of "v = None"] by simp
qed

subsection \<open>Moving the children of an entity to the root\<close>

definition child_to_root :: "addr \<Rightarrow> world \<Rightarrow> world" where
  "child_to_root c w = update_event c FLAG_PARENT [] (set_parent_spec c None w)"

lemma child_to_root_hier: "hier S {} w \<Longrightarrow> c \<in> S \<Longrightarrow> hier S {} (child_to_root c w)"
  using set_parent_spec_hier [of S "{}" w c None] by (simp add: child_to_root_def)

lemma child_to_root_links: "hier S {} w \<Longrightarrow> c \<in> S \<Longrightarrow> links_only w (child_to_root c w)"
  unfolding child_to_root_def
  by (rule links_only_trans [OF set_parent_spec_links links_only_update_event])

lemma process_child_updates_refines:
  "hier S {} w \<Longrightarrow> set cs \<subseteq> S \<Longrightarrow> process_child_updates cs w = Some (fold child_to_root cs w)"
proof (induction cs arbitrary: w)
  case (Cons c cs)
  then show ?case
    using child_to_root_hier [of S w c]
    by (simp add: RemoveParentId_def child_to_root_def resolve_after_parent_id [of S "{}" w c None])
qed simp

lemma fold_child_to_root:
  assumes "hier S {} w" "set cs \<subseteq> S"
  shows "hier S {} (fold child_to_root cs w)" "links_only w (fold child_to_root cs w)"
    "\<And>b. e_Parent (obj (fold child_to_root cs w) b) = (if b \<in> set cs then None else e_Parent (obj w b))"
    "\<And>b. e_ParentId (obj (fold child_to_root cs w) b) = (if b \<in> set cs then None else e_ParentId (obj w b))"
    "\<And>b. set (kids (fold child_to_root cs w) b) \<subseteq> set (kids w b)"
    "set (RootHierarchyEntities (fold child_to_root cs w)) = set (RootHierarchyEntities w) \<union> set cs"
proof -
  have "hier S {} (fold child_to_root cs w) \<and> links_only w (fold child_to_root cs w)
    \<and> (\<forall>b. e_Parent (obj (fold child_to_root cs w) b) = (if b \<in> set cs then None else e_Parent (obj w b)))
    \<and> (\<forall>b. e_ParentId (obj (fold child_to_root cs w) b) = (if b \<in> set cs then None else e_ParentId (obj w b)))
    \<and> (\<forall>b. set (kids (fold child_to_root cs w) b) \<subseteq> set (kids w b))
    \<and> set (RootHierarchyEntities (fold child_to_root cs w)) = set (RootHierarchyEntities w) \<union> set cs"
    using assms
  proof (induction cs arbitrary: w)
    case (Cons c cs)
    have c: "hier S {} w" "c \<in> S" "set cs \<subseteq> S" using Cons.prems by auto
    note s = set_parent_spec_links_of [OF c(1,2), of None, simplified]
    have w1: "hier S {} (child_to_root c w)" "links_only w (child_to_root c w)"
      using child_to_root_hier child_to_root_links c by blast+
    have par: "e_Parent (obj (child_to_root c w) b) = (if b = c then None else e_Parent (obj w b))"
      "e_ParentId (obj (child_to_root c w) b) = (if b = c then None else e_ParentId (obj w b))"
      "set (kids (child_to_root c w) b) \<subseteq> set (kids w b)" for b
      using s(1-3) [of b] set_remove1_subset [of c "kids w b"] by (auto simp: child_to_root_def)
    have roots: "set (RootHierarchyEntities (child_to_root c w)) = insert c (set (RootHierarchyEntities w))"
      by (auto simp: child_to_root_def s(4))
    show ?case
      using Cons.IH [OF w1(1) c(3)] links_only_trans [OF w1(2)] par roots by fastforce
  qed simp
  then show "hier S {} (fold child_to_root cs w)" "links_only w (fold child_to_root cs w)"
    "\<And>b. e_Parent (obj (fold child_to_root cs w) b) = (if b \<in> set cs then None else e_Parent (obj w b))"
    "\<And>b. e_ParentId (obj (fold child_to_root cs w) b) = (if b \<in> set cs then None else e_ParentId (obj w b))"
    "\<And>b. set (kids (fold child_to_root cs w) b) \<subseteq> set (kids w b)"
    "set (RootHierarchyEntities (fold child_to_root cs w)) = set (RootHierarchyEntities w) \<union> set cs"
    by blast+
qed

lemma LocalProcessChildUpdates_refines:
  assumes "hier S {} w" "a \<in> S"
  shows "LocalProcessChildUpdates a w = Some (fold child_to_root (kids w a) w)"
proof -
  have "a \<in> dom (w_Ents w)" "set (kids w a) \<subseteq> S" using hierD(1,10) [OF assms(1)] assms(2) by blast+
  then show ?thesis
    using process_child_updates_refines [OF assms(1)] by (simp add: LocalProcessChildUpdates_def ent_Some)
qed

text \<open>Afterwards the entity has no children.\<close>

lemma no_kids_left:
  assumes "hier S {} w" "a \<in> S"
  shows "kids (fold child_to_root (kids w a) w) a = []"
proof -
  have sub: "set (kids w a) \<subseteq> S" using hierD(10) [OF assms(1,2)] by blast
  note f = fold_child_to_root [OF assms(1) sub]
  have "c \<notin> set (kids (fold child_to_root (kids w a) w) a)" for c
    using hierD(10) [OF f(1) assms(2), of c] f(3) [of c] f(5) [of a] by auto
  then show ?thesis by (metis list.set_intros(1) neq_Nil_conv)
qed

lemma RemoveParentChildRelationships_childless:
  assumes "a \<in> dom (w_Ents w)" "\<And>p. e_Parent (obj w a) = Some p \<Longrightarrow> p \<in> dom (w_Ents w)" "kids w a = []"
  shows "RemoveParentChildRelationshipsFromEntity a w = Some (detach a w)"
proof -
  have "a \<in> dom (w_Ents (detach a w))" using assms(1) by (auto simp: detach_def split: option.split)
  moreover have "kids (detach a w) a = []" using assms(3) by (auto simp: obj_detach split: option.split)
  ultimately show ?thesis
    using assms(1,2)
    by (auto simp: RemoveParentChildRelationshipsFromEntity_def RemoveAsChildFromParent_def ent_Some
        modify_ent_live detach_def split: option.split)
qed

section \<open>Properties\<close>

lemma hier_empty: "hier {} {} (new_world k r)"
  by (auto simp: hier_def new_world_def known_def split: engine_kind.split)

text \<open>Two entities at addresses 0 and 1 with ids 1 and 2, the second a child of the first.\<close>

definition two_entities :: world where
  "two_entities = (put_ent 1 ((SpaceEntity_new Offline)\<lparr>e_Id := 2, e_ParentId := Some 1, e_Parent := Some 0\<rparr>)
     (put_ent 0 ((SpaceEntity_new Offline)\<lparr>e_Id := 1, e_ChildEntities := [1]\<rparr>) (new_world Offline [])))
     \<lparr>Entities := [0, 1], Objects := [0, 1], RootHierarchyEntities := [0], w_NextAddr := 2, w_NextId := 3\<rparr>"

lemma two_entities_obj:
  "obj two_entities 0 = (SpaceEntity_new Offline)\<lparr>e_Id := 1, e_ChildEntities := [1]\<rparr>"
  "obj two_entities (Suc 0) = (SpaceEntity_new Offline)\<lparr>e_Id := 2, e_ParentId := Some 1, e_Parent := Some 0\<rparr>"
  by (simp_all add: two_entities_def obj_def ent_def)

lemma SpaceEntity_new_links [simp]:
  "e_Parent (SpaceEntity_new k) = None" "e_ParentId (SpaceEntity_new k) = None"
  "e_ChildEntities (SpaceEntity_new k) = []" "e_Lock (SpaceEntity_new k) = LOCK_NONE"
  "e_Components (SpaceEntity_new k) = []" "e_StatePatcher (SpaceEntity_new k) = MakeStatePatcher k"
  "e_SelectedId (SpaceEntity_new k) = 0" "e_Id (SpaceEntity_new k) = 0"
  by (simp_all add: SpaceEntity_new_def UNIT_TRANSFORM_def)

lemma two_entities_lists [simp]:
  "known two_entities = [0, 1]" "RootHierarchyEntities two_entities = [0]" "Entities two_entities = [0, 1]"
  "dom (w_Ents two_entities) = {0, 1}"
  by (auto simp: two_entities_def known_def new_world_def)

lemma two_entities_hier: "hier {0, 1} {} two_entities"
  unfolding hier_def two_entities_lists by (simp add: two_entities_obj inj_on_def)

text \<open>
  C21. Resolving the hierarchy is defined on every consistent world in which the parent id of one
  entity has just been changed (nothing dangling is followed), computes the specified links, and
  leaves a consistent hierarchy: parent pointers, parent ids, child lists and roots agree again.
\<close>

theorem resolving_repairs_the_hierarchy:
  assumes "hier S {a} w" "a \<in> S"
  shows "ResolveEntityHierarchy a w = Some (resolve_spec a w) \<and> hier S {} (resolve_spec a w)"
  using ResolveEntityHierarchy_refines [OF assms] hier_resolve_spec [OF assms] by simp

lemma resolving_repairs_the_hierarchy_witness:
  "\<exists>w. e_ParentId (obj w 1) = None \<and> e_Parent (obj w 1) = Some 0
     \<and> ResolveEntityHierarchy 1 w = Some (resolve_spec 1 w) \<and> hier {0, 1} {} (resolve_spec 1 w)"
proof (intro exI conjI)
  let ?w = "upd_ent 1 (\<lambda>e. e\<lparr>e_ParentId := None\<rparr>) two_entities"
  have "hier {0, 1} {1} ?w" using hier_set_parent_id [OF two_entities_hier, of 1 None] by simp
  from resolving_repairs_the_hierarchy [OF this]
  show "ResolveEntityHierarchy 1 ?w = Some (resolve_spec 1 ?w)" "hier {0, 1} {} (resolve_spec 1 ?w)" by simp_all
qed (simp_all add: two_entities_obj)

text \<open>
  C22. Setting the parent id of an entity moves it and nothing else. It leaves the children of its old
  parent and becomes the last child of the known entity with the given id; without an id it joins the
  roots, with one it leaves them - also when no entity has the id, and it then has no parent. Nobody
  else's parent, parent id, children or place among the roots changes, and the hierarchy stays consistent.
\<close>

theorem reparenting_moves_one_entity:
  assumes "hier S {} w" "a \<in> S"
  shows "let new = Option.bind v (entity_by_id w); roots = RootHierarchyEntities w
    in \<exists>w'. SetParentIdDirect a v call w = Some w' \<and> hier S {} w'
      \<and> e_ParentId (obj w' a) = v \<and> e_Parent (obj w' a) = new
      \<and> (\<forall>q \<in> S. kids w' q = remove1 a (kids w q) @ (if new = Some q then [a] else []))
      \<and> (\<forall>b. b \<noteq> a \<longrightarrow> e_Parent (obj w' b) = e_Parent (obj w b) \<and> e_ParentId (obj w' b) = e_ParentId (obj w b))
      \<and> RootHierarchyEntities w' = (if v \<noteq> None then remove1 a roots else if a \<in> set roots then roots else roots @ [a])"
proof -
  let ?w = "set_parent_spec a v w"
  note s = set_parent_spec_links_of [OF assms]
  have kid: "(if e_Parent (obj w a) = Some q then remove1 a (kids w q) else kids w q) = remove1 a (kids w q)"
    if "q \<in> S" for q
  proof (cases "e_Parent (obj w a) = Some q")
    case False
    then have "a \<notin> set (kids w q)" using hierD(10) [OF assms(1) that] by blast
    with False show ?thesis by (simp add: remove1_idem)
  qed simp
  have "hier S {} ?w" using set_parent_spec_hier [OF assms] by simp
  then show ?thesis
    using SetParentIdDirect_refines [OF assms, of v call] s [of v] kid
    unfolding Let_def by (cases call) (auto simp: id_def)
qed

lemma reparenting_moves_one_entity_witness:
  "\<exists>w' w''. SetParentIdDirect 1 None True two_entities = Some w' \<and> e_Parent (obj w' 1) = None \<and> kids w' 0 = []
      \<and> RootHierarchyEntities w' = [0, 1]
    \<and> SetParentIdDirect 0 (Some 2) True w' = Some w'' \<and> e_Parent (obj w'' 0) = Some 1 \<and> kids w'' 1 = [0]
      \<and> RootHierarchyEntities w'' = [1]"
proof -
  note t = reparenting_moves_one_entity [of "{0, 1}", unfolded Let_def]
  obtain w' where w': "SetParentIdDirect 1 None True two_entities = Some w'" "hier {0, 1} {} w'" "e_Parent (obj w' 1) = None"
    "kids w' 0 = []" "kids w' 1 = []" "RootHierarchyEntities w' = [0, 1]"
    using t [OF two_entities_hier, of 1 None True] by (auto simp: two_entities_obj)
  have "map_option (\<lambda>w. entity_by_id w 2) (SetParentIdDirect 1 None True two_entities) = Some (Some 1)" by code_simp
  then have "entity_by_id w' 2 = Some 1" using w'(1) by simp
  then show ?thesis using t [OF w'(2), of 0 "Some 2" True] w' by auto
qed

end
