(* ===== verification/Offline_Engine.thy ===== *)
theory Offline_Engine
  imports Entity_Hierarchy
begin

text \<open>
  The offline engine (\<open>src/Multiplayer/OfflineRealtimeEngine.cpp\<close>): loading a scene, creating and
  destroying entities and avatars, selection; and the client's operations on entities as steps of
  a state machine over whose reachable states the hierarchy stays consistent. Scripts, the tick
  event and the entity-fetch callbacks are not modelled.
\<close>

section \<open>Operations of the engine\<close>

definition PRECISION_53_BITS :: u64 where "PRECISION_53_BITS = 9007199254740991"

text \<open>\<open>NextId()\<close>; the assertion failing is \<open>None\<close>.\<close>

definition NextId :: "world \<Rightarrow> (u64 \<times> world) option" where
  "NextId w = (if w_NextId w < PRECISION_53_BITS
     then Some (w_NextId w, w\<lparr>w_NextId := w_NextId w + 1\<rparr>) else None)"

definition AddEntity :: "addr \<Rightarrow> world \<Rightarrow> world option" where
  "AddEntity a w = do {
     e \<leftarrow> ent w a;
     found \<leftarrow> FindSpaceEntityById (e_Id e) w;
     (if found = None then
        let w1 = w\<lparr>Entities := Entities w @ [a]\<rparr>
        in Some (case e_Type e of
             AvatarE \<Rightarrow> w1\<lparr>Avatars := Avatars w1 @ [a]\<rparr>
           | ObjectE \<Rightarrow> w1\<lparr>Objects := Objects w1 @ [a]\<rparr>
           | UnknownE _ \<Rightarrow> w1)
      else Some w) }"

fun AddEntities :: "addr list \<Rightarrow> world \<Rightarrow> world option" where
  "AddEntities [] w = Some w"
| "AddEntities (a # as) w = do { w1 \<leftarrow> AddEntity a w; AddEntities as w1 }"

fun ResolveAll :: "addr list \<Rightarrow> world \<Rightarrow> world option" where
  "ResolveAll [] w = Some w"
| "ResolveAll (a # as) w = do { w1 \<leftarrow> ResolveEntityHierarchy a w; ResolveAll as w1 }"

text \<open>The constructor that loads the deserialised entities of a scene.\<close>

definition LoadScene :: "addr list \<Rightarrow> world \<Rightarrow> world option" where
  "LoadScene DeserializedEntities w = do {
     w1 \<leftarrow> AddEntities DeserializedEntities w;
     ResolveAll (Entities w1) w1 }"

type_synonym transform = "vec3 \<times> vec4 \<times> vec3"

definition CreateEntity :: "string \<Rightarrow> transform \<Rightarrow> u64 option \<Rightarrow> world \<Rightarrow> world option" where
  "CreateEntity Name Transform ParentID w = do {
     (Id, w1) \<leftarrow> NextId w;
     let (a, w2) = alloc_ent (SpaceEntity_make (w_Kind w) ObjectE Id Name Transform LOCAL_CLIENT_ID
                               ParentID False False) w1;
     w3 \<leftarrow> ResolveEntityHierarchy a w2;
     let w4 = w3\<lparr>Entities := Entities w3 @ [a]\<rparr>;
     let w5 = w4\<lparr>Objects := Objects w4 @ [a]\<rparr>;
     Some (emit_event (Ev_created (Some a)) w5) }"

record avatar_args =
  av_UserId :: string
  av_IsVisible :: bool
  av_AvatarId :: string
  av_State :: u64
  av_PlayMode :: u64
  av_Locomotion :: u64

text \<open>The avatar component's setters in the order \<open>BuildNewAvatar\<close> calls them.\<close>

definition avatar_settings :: "avatar_args \<Rightarrow> (u32 \<times> rep_value) list" where
  "avatar_settings A = [(0, RV_string (av_AvatarId A)), (2, RV_int (av_State A)),
     (12, RV_int (av_PlayMode A)), (14, RV_int (av_Locomotion A)), (1, RV_string (av_UserId A)),
     (15, RV_bool (av_IsVisible A))]"

fun set_component_properties :: "addr \<Rightarrow> addr \<Rightarrow> (u32 \<times> rep_value) list \<Rightarrow> world \<Rightarrow> world option" where
  "set_component_properties a ca [] w = Some w"
| "set_component_properties a ca (kv # kvs) w = do {
     w1 \<leftarrow> ComponentSetPropertyDirect a ca (fst kv) (snd kv) w;
     set_component_properties a ca kvs w1 }"

definition BuildNewAvatar ::
  "u64 \<Rightarrow> string \<Rightarrow> transform \<Rightarrow> u64 \<Rightarrow> bool \<Rightarrow> bool \<Rightarrow> avatar_args \<Rightarrow> world \<Rightarrow> (addr \<times> world) option" where
  "BuildNewAvatar NetworkId Name Transform OwnerId IsTransferable IsPersistent A w = do {
     let (a, w1) = alloc_ent (SpaceEntity_make (w_Kind w) AvatarE NetworkId Name Transform OwnerId None
                               IsTransferable IsPersistent) w;
     (AvatarComponent, w2) \<leftarrow> AddComponentByTypeId a CT_AvatarData w1;
     (case AvatarComponent of
        None \<Rightarrow> None
      | Some ca \<Rightarrow> do {
          w3 \<leftarrow> set_component_properties a ca (avatar_settings A) w2;
          Some (a, w3) }) }"

definition CreateAvatar :: "string \<Rightarrow> transform \<Rightarrow> avatar_args \<Rightarrow> world \<Rightarrow> world option" where
  "CreateAvatar Name Transform A w = do {
     (Id, w1) \<leftarrow> NextId w;
     (a, w2) \<leftarrow> BuildNewAvatar Id Name Transform 0 False False A w1;
     let w3 = w2\<lparr>Entities := Entities w2 @ [a]\<rparr>;
     let w4 = w3\<lparr>Avatars := Avatars w3 @ [a]\<rparr>;
     Some (emit_event (Ev_created (Some a)) w4) }"

fun local_delete_components :: "addr list \<Rightarrow> world \<Rightarrow> world option" where
  "local_delete_components [] w = Some w"
| "local_delete_components (ca # cas) w = do {
     _ \<leftarrow> comp w ca;
     local_delete_components cas (emit_event (Ev_OnLocalDelete ca) w) }"

definition DestroyEntity :: "addr \<Rightarrow> world \<Rightarrow> world option" where
  "DestroyEntity a w = do {
     e \<leftarrow> ent w a;
     (if a \<notin> set (Entities w) then Some (emit_event (Ev_result False) w)
      else if a \<notin> set (if e_Type e = AvatarE then Avatars w else Objects w)
      then Some (emit_event (Ev_result False) w)
      else do {
        w1 \<leftarrow> local_delete_components (map snd (e_Components e)) w;
        let w2 = w1\<lparr>RootHierarchyEntities := remove1 a (RootHierarchyEntities w1)\<rparr>;
        w3 \<leftarrow> LocalProcessChildUpdates a w2;
        e3 \<leftarrow> ent w3 a;
        let w4 = (if e_DestroyCallback e3 then emit_event (Ev_destroy a True) w3 else w3);
        let w5 = (if e_Type e = AvatarE then w4\<lparr>Avatars := remove1 a (Avatars w4)\<rparr>
          else w4\<lparr>Objects := remove1 a (Objects w4)\<rparr>);
        w6 \<leftarrow> RemoveParentChildRelationshipsFromEntity a w5;
        let w7 = w6\<lparr>Entities := remove1 a (Entities w6)\<rparr>;
        Some (emit_event (Ev_result True) (free_ent a w7)) }) }"

end
