(* ===== verification/Entity_Frame.thy ===== *)
theory Entity_Frame
  imports Entity_Hierarchy
begin

text \<open>
  What the operations of an entity leave alone. An operation is \<open>plain\<close> when it changes no link of
  the hierarchy, no list of the engine but the selection and no identity of an entity, and keeps
  the component heap free of dangling pointers. Under the offline engine every property setter,
  lock, selection and component operation returns and is plain.
\<close>

section \<open>Operations that leave the hierarchy alone\<close>

definition shape :: "entity \<Rightarrow> entity_type \<times> u64 \<times> u64 option \<times> addr option \<times> addr list \<times> bool" where
  "shape e = (e_Type e, e_Id e, e_ParentId e, e_Parent e, e_ChildEntities e, e_StatePatcher e = None)"

definition world_lists :: "world \<Rightarrow> addr list \<times> addr list \<times> addr list \<times> addr list \<times> addr list \<times> engine_kind \<times> u64" where
  "world_lists w = (Entities w, Avatars w, Objects w, RootHierarchyEntities w, PendingAdds w, w_Kind w, w_NextId w)"

lemma hier_shape_cong:
  assumes h: "hier S D w" and "\<And>b. shape (obj w' b) = shape (obj w b)" "known w' = known w"
    "RootHierarchyEntities w' = RootHierarchyEntities w" "dom (w_Ents w) \<subseteq> dom (w_Ents w')"
  shows "hier S D w'"
proof -
  have f: "e_Id (obj w' b) = e_Id (obj w b)" "e_ParentId (obj w' b) = e_ParentId (obj w b)"
    "e_Parent (obj w' b) = e_Parent (obj w b)" "kids w' b = kids w b" for b
    using assms(2) [of b] by (simp_all add: shape_def)
  note hd = hierD [OF h]
  show ?thesis
    by (rule hierI; (unfold f assms(3,4))?)
      (fact hd(2) hd(3) hd(4) hd(5) subset_trans [OF hd(1) assms(5)] | rule hd(6) hd(7) hd(8) hd(9) hd(10); assumption)+
qed

text \<open>Every component an entity names is live, and allocation is fresh.\<close>

definition heap_ok :: "world \<Rightarrow> bool" where
  "heap_ok w \<longleftrightarrow> (\<forall>a \<in> dom (w_Ents w). snd ` set (e_Components (obj w a)) \<subseteq> dom (w_Comps w))
     \<and> dom (w_Ents w) \<subseteq> {..<w_NextAddr w} \<and> dom (w_Comps w) \<subseteq> {..<w_NextAddr w}"

lemma heap_okD:
  assumes "heap_ok w"
  shows "a \<in> dom (w_Ents w) \<Longrightarrow> x \<in> snd ` set (e_Components (obj w a)) \<Longrightarrow> x \<in> dom (w_Comps w)"
    "a \<in> dom (w_Ents w) \<Longrightarrow> a < w_NextAddr w" "x \<in> dom (w_Comps w) \<Longrightarrow> x < w_NextAddr w"
  using assms unfolding heap_ok_def by blast+

lemma heap_okI:
  assumes "\<And>a x. a \<in> dom (w_Ents w) \<Longrightarrow> x \<in> snd ` set (e_Components (obj w a)) \<Longrightarrow> x \<in> dom (w_Comps w)"
    "\<And>a. a \<in> dom (w_Ents w) \<Longrightarrow> a < w_NextAddr w" "\<And>x. x \<in> dom (w_Comps w) \<Longrightarrow> x < w_NextAddr w"
  shows "heap_ok w"
  using assms unfolding heap_ok_def by blast

definition plain :: "world \<Rightarrow> world \<Rightarrow> bool" where
  "plain w w' \<longleftrightarrow> world_lists w' = world_lists w \<and> (\<forall>b. shape (obj w' b) = shape (obj w b))
     \<and> dom (w_Ents w') = dom (w_Ents w) \<and> dom (w_Comps w) \<subseteq> dom (w_Comps w') \<and> (heap_ok w \<longrightarrow> heap_ok w')"

lemma plain_refl [simp]: "plain w w" by (simp add: plain_def)

lemma plain_trans: "plain w1 w2 \<Longrightarrow> plain w2 w3 \<Longrightarrow> plain w1 w3"
  unfolding plain_def by (metis subset_trans)

lemma plain_live: "plain w w' \<Longrightarrow> a \<in> dom (w_Ents w) \<Longrightarrow> a \<in> dom (w_Ents w')"
  by (simp add: plain_def)

lemma plain_live_comp: "plain w w' \<Longrightarrow> ca \<in> dom (w_Comps w) \<Longrightarrow> ca \<in> dom (w_Comps w')"
  unfolding plain_def by blast

lemma plain_put_ent:
  assumes "a \<in> dom (w_Ents w)" "shape e = shape (obj w a)" "snd ` set (e_Components e) \<subseteq> snd ` set (e_Components (obj w a)) \<union> dom (w_Comps w)"
  shows "plain w (put_ent a e w)"
proof -
  have "heap_ok (put_ent a e w)" if h: "heap_ok w"
  proof (rule heap_okI)
    fix b x
    assume "b \<in> dom (w_Ents (put_ent a e w))" "x \<in> snd ` set (e_Components (obj (put_ent a e w) b))"
    then have "b \<in> dom (w_Ents w)" "x \<in> snd ` set (e_Components (obj w b)) \<or> x \<in> dom (w_Comps w)"
      using assms(1,3) by (auto split: if_splits)
    then show "x \<in> dom (w_Comps (put_ent a e w))" using heap_okD(1) [OF h] by auto
  qed (use heap_okD(2,3) [OF h] assms(1) in \<open>auto split: if_splits\<close>)
  moreover have "dom (w_Ents (put_ent a e w)) = dom (w_Ents w)" using assms(1) by auto
  ultimately show ?thesis using assms(2) by (simp add: plain_def world_lists_def)
qed

lemma plain_emit [simp]: "plain w (emit_event ev w)"
  by (simp add: plain_def world_lists_def emit_event_def heap_ok_def obj_def ent_def)

lemma plain_update_event [simp]: "plain w (update_event a f us w)"
  by (simp add: update_event_def split: option.split)

lemma plain_selected [simp]: "plain w (w\<lparr>SelectedEntities := s\<rparr>)"
  by (simp add: plain_def world_lists_def heap_ok_def obj_def ent_def)

lemma plain_put_comp:
  assumes "ca \<in> dom (w_Comps w)"
  shows "plain w (put_comp ca c w)"
proof -
  have "insert ca (dom (w_Comps w)) = dom (w_Comps w)" using assms by blast
  then show ?thesis
    by (simp add: plain_def world_lists_def heap_ok_def obj_def ent_def put_comp_def del: dom_def)
qed

lemma plain_alloc_comp:
  assumes "alloc_comp c w = (ca, w')"
  shows "plain w w'" "ca \<in> dom (w_Comps w')" "obj w' = obj w"
proof -
  have w': "w' = w\<lparr>w_Comps := (w_Comps w)(w_NextAddr w \<mapsto> c), w_NextAddr := w_NextAddr w + 1\<rparr>" "ca = w_NextAddr w"
    using assms by (auto simp: alloc_comp_def put_comp_def)
  then show o: "obj w' = obj w" by (intro ext) (simp add: obj_def ent_def)
  show "ca \<in> dom (w_Comps w')" using w' by simp
  have "heap_ok w'" if "heap_ok w"
  proof (rule heap_okI)
    show "x \<in> dom (w_Comps w')" if "b \<in> dom (w_Ents w')" "x \<in> snd ` set (e_Components (obj w' b))" for b x
      using that heap_okD(1) [OF \<open>heap_ok w\<close>, of b x] unfolding o by (auto simp: w')
    show "b < w_NextAddr w'" if "b \<in> dom (w_Ents w')" for b
      using that heap_okD(2) [OF \<open>heap_ok w\<close>, of b] by (simp add: w' less_Suc_eq)
    show "x < w_NextAddr w'" if "x \<in> dom (w_Comps w')" for x
      using that heap_okD(3) [OF \<open>heap_ok w\<close>, of x] by (auto simp: w' less_Suc_eq split: if_splits)
  qed
  moreover have "world_lists w' = world_lists w" "dom (w_Ents w') = dom (w_Ents w)"
    "dom (w_Comps w) \<subseteq> dom (w_Comps w')"
    by (auto simp: w' world_lists_def)
  ultimately show "plain w w'" unfolding plain_def o by blast
qed

lemma prop_set_shape:
  "prop_set k v e = Inr e' \<Longrightarrow> shape e' = shape e \<and> e_Components e' = e_Components e"
  by (auto simp: prop_set_def shape_def rbind_Inr_iff split: if_splits)

lemma prop_set_types:
  "prop_set KEY_NAME (RV_string s) e \<noteq> Inl x" "prop_set KEY_POSITION (rv_vec3 p) e \<noteq> Inl x"
  "prop_set KEY_ROTATION (rv_vec4 r) e \<noteq> Inl x" "prop_set KEY_SCALE (rv_vec3 p) e \<noteq> Inl x"
  "prop_set KEY_SELECTED_CLIENT_ID (RV_int i) e \<noteq> Inl x" "prop_set KEY_THIRD_PARTY_REF (RV_string s) e \<noteq> Inl x"
  "prop_set KEY_LOCK_TYPE (RV_int i) e \<noteq> Inl x"
  by (auto simp: prop_set_def key_defs rv_vec3_def rv_vec4_def rv_constructors rv_getters rv_get_def split: prod.split)


section \<open>Offline, operations on entities succeed\<close>

definition offline_entity :: "world \<Rightarrow> addr \<Rightarrow> bool" where
  "offline_entity w a \<longleftrightarrow> w_Kind w = Offline \<and> heap_ok w \<and> a \<in> dom (w_Ents w) \<and> e_StatePatcher (obj w a) = None"

lemma offline_entityD:
  assumes "offline_entity w a"
  shows "w_Kind w = Offline" "heap_ok w" "a \<in> dom (w_Ents w)" "e_StatePatcher (obj w a) = None" "ent w a = Some (obj w a)"
  using assms ent_Some unfolding offline_entity_def by blast+

lemma plain_offline_entity: "plain w w' \<Longrightarrow> offline_entity w a \<Longrightarrow> offline_entity w' a"
proof -
  assume p: "plain w w'" and o: "offline_entity w a"
  then have "shape (obj w' a) = shape (obj w a)" "world_lists w' = world_lists w"
    "dom (w_Ents w') = dom (w_Ents w)" "heap_ok w'"
    unfolding plain_def offline_entity_def by blast+
  then show ?thesis using o by (simp add: offline_entity_def shape_def world_lists_def)
qed

lemma EntitySetPropertyDirect_plain:
  assumes "offline_entity w a" "\<And>e x. prop_set k v e \<noteq> Inl x"
  shows "\<exists>w'. EntitySetPropertyDirect a k v call w = Some w' \<and> plain w w'"
proof -
  note o = offline_entityD [OF assms(1)]
  obtain e' where e': "prop_set k v (obj w a) = Inr e'"
    using assms(2) by (cases "prop_set k v (obj w a)") auto
  have "plain w (put_ent a e' w)"
    using prop_set_shape [OF e'] o(3) by (intro plain_put_ent) auto
  then show ?thesis
    using o(5) e' plain_trans [OF _ plain_update_event] by (auto simp: EntitySetPropertyDirect_def Let_def)
qed

lemma EntitySetProperty_plain:
  assumes "offline_entity w a" "\<And>e x. prop_set k v e \<noteq> Inl x"
  shows "\<exists>b w'. EntitySetProperty a k v w = Some (b, w') \<and> plain w w'"
proof -
  obtain w' where "EntitySetPropertyDirect a k v True w = Some w'" "plain w w'"
    using EntitySetPropertyDirect_plain [OF assms] by blast
  then show ?thesis
    using offline_entityD [OF assms(1)] by (auto simp: EntitySetProperty_def IsModifiable_def)
qed

lemma Lock_plain: "offline_entity w a \<Longrightarrow> \<exists>b w'. Lock a w = Some (b, w') \<and> plain w w'"
  using offline_entityD [of w a] EntitySetProperty_plain [OF _ prop_set_types(7)]
  by (auto simp: Lock_def)

lemma Unlock_plain: "offline_entity w a \<Longrightarrow> \<exists>b w'. Unlock a w = Some (b, w') \<and> plain w w'"
proof -
  assume o: "offline_entity w a"
  then obtain w' where "EntitySetPropertyDirect a KEY_LOCK_TYPE (RV_int (ucast LOCK_NONE)) True w = Some w'" "plain w w'"
    using EntitySetPropertyDirect_plain [OF _ prop_set_types(7)] by blast
  then show ?thesis
    using offline_entityD [OF o] by (auto simp: Unlock_def)
qed

lemma selected_plain:
  "AddEntityToSelectedEntities a w = (b, w') \<Longrightarrow> plain w w'"
  "RemoveEntityFromSelectedEntities a w = (b, w') \<Longrightarrow> plain w w'"
  by (auto simp: AddEntityToSelectedEntities_def RemoveEntityFromSelectedEntities_def split: if_splits)

lemma InternalSetSelection_plain:
  assumes o: "offline_entity w a"
  shows "\<exists>b w'. InternalSetSelectionStateOfEntity a s w = Some (b, w') \<and> plain w w'"
proof -
  note od = offline_entityD [OF o]
  have pending: "set_pending_selection a i w = Some w" for i
    using od by (simp add: set_pending_selection_def)
  have set: "\<exists>w'. EntitySetPropertyDirect a KEY_SELECTED_CLIENT_ID (RV_int i) True w1 = Some w' \<and> plain w w'"
    if "plain w w1" for i w1
    using EntitySetPropertyDirect_plain [OF plain_offline_entity [OF that o] prop_set_types(5), of i True]
      plain_trans [OF that] by blast
  obtain b1 w1 b2 w2 where l: "AddEntityToSelectedEntities a w = (b1, w1)" "RemoveEntityFromSelectedEntities a w = (b2, w2)"
    by fastforce
  have p: "plain w w1" "plain w w2" using selected_plain l by blast+
  have run: "\<exists>b w'. Option.bind (EntitySetPropertyDirect a KEY_SELECTED_CLIENT_ID (RV_int i) True wx)
      (\<lambda>w3. Some (True, w3)) = Some (b, w') \<and> plain w w'" if "plain w wx" for i wx
    using set [OF that, of i] by auto
  show ?thesis
    unfolding InternalSetSelectionStateOfEntity_def od(5) pending Let_def bind.bind_lunit l prod.case
    by (simp only: if_splits run p simp_thms option.inject Pair_inject split: if_split) (auto simp: run p)
qed

lemma modify_comps_plain:
  assumes "offline_entity w a"
    "snd ` set (f (e_Components (obj w a))) \<subseteq> snd ` set (e_Components (obj w a)) \<union> dom (w_Comps w)"
  shows "plain w (upd_ent a (\<lambda>e. e\<lparr>e_Components := f (e_Components e)\<rparr>) w)"
  unfolding upd_ent_def using offline_entityD(3) [OF assms(1)] assms(2)
  by (intro plain_put_ent) (simp_all add: shape_def)

lemma snd_set_omap_upd: "snd ` set (omap_upd k v m) \<subseteq> insert v (snd ` set m)"
  using set_omap_upd [of k v m] by force

lemma snd_set_omap_del: "snd ` set (omap_del k m) \<subseteq> snd ` set m"
  using set_omap_del [of k m] by force

lemma AddComponentDirect_plain:
  assumes "offline_entity w a" "ca \<in> dom (w_Comps w)"
  shows "\<exists>w'. AddComponentDirect a k ca call w = Some w' \<and> plain w w'"
proof -
  note o = offline_entityD [OF assms(1)]
  have "plain w (upd_ent a (\<lambda>e. e\<lparr>e_Components := omap_upd k ca (e_Components e)\<rparr>) w)"
    using snd_set_omap_upd [of k ca "e_Components (obj w a)"] assms(2)
    by (intro modify_comps_plain [OF assms(1)]) blast
  then show ?thesis
    using plain_trans [OF _ plain_update_event] by (auto simp: AddComponentDirect_def modify_ent_live o(3))
qed

lemma live_component:
  assumes "offline_entity w a" "map_of (e_Components (obj w a)) k = Some ca"
  shows "ca \<in> dom (w_Comps w)"
proof -
  have "ca \<in> snd ` set (e_Components (obj w a))" using map_of_SomeD [OF assms(2)] by force
  then show "ca \<in> dom (w_Comps w)" using heap_okD(1) offline_entityD(2,3) [OF assms(1)] by blast
qed

lemma RemoveComponent_plain:
  assumes "offline_entity w a"
  shows "\<exists>b w'. RemoveComponent a k w = Some (b, w') \<and> plain w w'"
proof -
  note o = offline_entityD [OF assms(1)]
  have "\<exists>b w'. RemoveComponentDirect a k True w = Some (b, w') \<and> plain w w'"
  proof (cases "map_of (e_Components (obj w a)) k")
    case (Some ca)
    let ?w = "emit_event (Ev_OnRemove ca) w"
    have e: "offline_entity ?w a" using plain_offline_entity [OF plain_emit assms] .
    have "plain ?w (upd_ent a (\<lambda>e. e\<lparr>e_Components := omap_del k (e_Components e)\<rparr>) ?w)"
      by (intro modify_comps_plain [OF e] le_supI1 snd_set_omap_del)
    then have "plain w (update_event a f us (upd_ent a (\<lambda>e. e\<lparr>e_Components := omap_del k (e_Components e)\<rparr>) ?w))" for f us
      by (rule plain_trans [OF plain_emit plain_trans [OF _ plain_update_event]])
    moreover obtain c where c: "comp w ca = Some c" using live_component [OF assms Some] by (auto simp: comp_def)
    ultimately show ?thesis
      unfolding RemoveComponentDirect_def o(5) bind.bind_lunit Some option.case c
        modify_ent_live [OF offline_entityD(3) [OF e]] by auto
  qed (simp add: RemoveComponentDirect_def o(5) ex_bool_eq)
  then show ?thesis using o by (auto simp: RemoveComponent_def IsModifiable_def)
qed


lemma find_component_live:
  "set cas \<subseteq> dom (w_Comps w) \<Longrightarrow> \<exists>r. find_component w t cas = Some r"
  by (induction cas) (auto simp: comp_def)

lemma FindFirstComponentOfType_live:
  assumes "offline_entity w a"
  shows "\<exists>r. FindFirstComponentOfType a t w = Some r"
proof -
  note o = offline_entityD [OF assms]
  have "set (map snd (e_Components (obj w a))) \<subseteq> dom (w_Comps w)"
    using heap_okD(1) [OF o(2,3)] by auto
  then show ?thesis
    using find_component_live [of _ w t] o by (fastforce simp: FindFirstComponentOfType_def split: option.split)
qed

lemma GenerateComponentId_shape:
  "GenerateComponentId e = Some (k, e') \<Longrightarrow> shape e' = shape e \<and> e_Components e' = e_Components e
     \<and> e_StatePatcher e' = e_StatePatcher e"
  by (auto simp: GenerateComponentId_def shape_def bind_eq_Some_conv)

lemma AddComponentByTypeId_plain:
  assumes o: "offline_entity w a" and free: "t < COMPONENT_KEY_END_COMPONENTS" "\<not> component_id_used (obj w a) t"
  shows "\<exists>r w'. AddComponentByTypeId a TypeId w = Some (r, w') \<and> plain w w'
    \<and> (IsEntityModifiable_offline (obj w a) = Modifiable \<and> ToComponentType TypeId \<noteq> Some CT_ScriptData
       \<and> (\<forall>k. InstantiateComponent (Some (w_Registry w)) k TypeId \<noteq> None) \<longrightarrow>
       (\<exists>ca. r = Some ca \<and> ca \<in> dom (w_Comps w')))"
proof -
  note od = offline_entityD [OF o]
  obtain r where r: "(if ToComponentType TypeId = Some CT_ScriptData
      then FindFirstComponentOfType a CT_ScriptData w else Some None) = Some r"
    using FindFirstComponentOfType_live [OF o] by (cases "ToComponentType TypeId = Some CT_ScriptData") auto
  obtain k where "GenerateComponentId (obj w a) = Some (k, (obj w a)\<lparr>e_NextComponentId := k + 1\<rparr>)"
    using component_key_fresh [OF free] by blast
  then obtain e1 where g: "GenerateComponentId (obj w a) = Some (k, e1)" by blast
  note s = GenerateComponentId_shape [OF g]
  let ?w1 = "put_ent a e1 w"
  have p1: "plain w ?w1" using s od(3) by (intro plain_put_ent) auto
  have o1: "offline_entity ?w1 a" by (rule plain_offline_entity [OF p1 o])
  show ?thesis
  proof (cases "IsEntityModifiable_offline (obj w a) = Modifiable \<and> r = None")
    case False
    then show ?thesis
      using od r by (cases "IsEntityModifiable_offline (obj w a)") (auto simp: AddComponentByTypeId_def IsModifiable_def split: if_splits)
  next
    case True
    note head = AddComponentByTypeId_def od(5) bind.bind_lunit IsModifiable_def od(1) engine_kind.case r g prod.case Let_def
    show ?thesis
    proof (cases "InstantiateComponent (Some (w_Registry w)) k TypeId")
      case None
      with True p1 show ?thesis by (auto simp: head)
    next
      case (Some c)
      obtain ca w2 where al: "alloc_comp c ?w1 = (ca, w2)" by fastforce
      note pa = plain_alloc_comp [OF al]
      have o2: "offline_entity w2 a" by (rule plain_offline_entity [OF pa(1) o1])
      obtain w3 where w3: "AddComponentDirect a k ca True w2 = Some w3" "plain w2 w3"
        using AddComponentDirect_plain [OF o2 pa(2)] by blast
      have "plain w (emit_event (Ev_OnCreated ca) w3)"
        using p1 pa(1) w3(2) plain_emit plain_trans by meson
      moreover have "ca \<in> dom (w_Comps (emit_event (Ev_OnCreated ca) w3))"
        using plain_live_comp [OF w3(2) pa(2)] plain_live_comp [OF plain_emit] by blast
      ultimately show ?thesis using True Some s od(4) al w3(1) by (auto simp: head)
    qed
  qed
qed

lemma UpdateComponent_plain:
  assumes "offline_entity w a" "ca \<in> dom (w_Comps w)"
  shows "\<exists>b w'. UpdateComponent a ca w = Some (b, w') \<and> plain w w'"
proof -
  obtain c where c: "comp w ca = Some c" using assms(2) by (auto simp: comp_def)
  have c': "comp (update_event a f us w) ca = Some c" for f us
    using c by (auto simp: comp_def update_event_def emit_event_def split: option.split)
  show ?thesis
    using offline_entityD [OF assms(1)] c c' plain_trans [OF plain_update_event plain_emit]
    by (auto simp: UpdateComponent_def UpdateComponentDirect_def OnPropertyChanged_def)
qed

lemma OnPropertyChanged_plain:
  "ca \<in> dom (w_Comps w) \<Longrightarrow> \<exists>w'. OnPropertyChanged ca k w = Some w' \<and> plain w w'"
  by (auto simp: OnPropertyChanged_def comp_def)

lemma ComponentSetPropertyDirect_plain:
  assumes o: "offline_entity w a" and ca: "ca \<in> dom (w_Comps w)"
  shows "\<exists>w'. ComponentSetPropertyDirect a ca k v w = Some w' \<and> plain w w'"
proof -
  note od = offline_entityD [OF o]
  obtain c where c: "comp w ca = Some c" using ca by (auto simp: comp_def)
  obtain c' n where sp: "SetPropertyDirect (IsEntityModifiable_offline (obj w a) = Modifiable) k v c = (c', n)" by fastforce
  let ?w1 = "put_comp ca c' w"
  have p1: "plain w ?w1" by (rule plain_put_comp [OF ca])
  obtain b w2 where w2: "UpdateComponent a ca ?w1 = Some (b, w2)" "plain ?w1 w2"
    using UpdateComponent_plain [OF plain_offline_entity [OF p1 o] plain_live_comp [OF p1 ca]] by blast
  obtain w3 where w3: "OnPropertyChanged ca k w2 = Some w3" "plain w2 w3"
    using OnPropertyChanged_plain [OF plain_live_comp [OF w2(2) plain_live_comp [OF p1 ca]]] by blast
  have "plain w w3" using p1 w2(2) w3(2) plain_trans by blast
  then show ?thesis
    unfolding ComponentSetPropertyDirect_def od(5) bind.bind_lunit c IsModifiable_def od(1) engine_kind.case sp prod.case
    using w2(1) w3(1) by auto
qed

lemma ComponentRemoveProperty_plain:
  assumes o: "offline_entity w a" and ca: "ca \<in> dom (w_Comps w)"
  shows "\<exists>w'. ComponentRemoveProperty a ca k w = Some w' \<and> plain w w'"
proof -
  obtain c where c: "comp w ca = Some c" using ca by (auto simp: comp_def)
  let ?w1 = "put_comp ca (RemoveProperty k c) w"
  have p1: "plain w ?w1" by (rule plain_put_comp [OF ca])
  obtain b w2 where w2: "UpdateComponent a ca ?w1 = Some (b, w2)" "plain ?w1 w2"
    using UpdateComponent_plain [OF plain_offline_entity [OF p1 o] plain_live_comp [OF p1 ca]] by blast
  then show ?thesis using plain_trans [OF p1 w2(2)] by (auto simp: ComponentRemoveProperty_def modify_comp_def c)
qed

lemma SetCallback_plain:
  assumes "offline_entity w a"
  shows "\<exists>w'. SetUpdateCallback a b w = Some w' \<and> plain w w'" "\<exists>w'. SetDestroyCallback a b w = Some w' \<and> plain w w'"
  using offline_entityD [OF assms] plain_put_ent [of a w]
  by (auto simp: SetUpdateCallback_def SetDestroyCallback_def modify_ent_live upd_ent_def shape_def)

end
