(* ===== verification/Offline_Invariant.thy ===== *)
theory Offline_Invariant
  imports Offline_Engine Entity_Frame
begin

text \<open>
  The offline engine as a state machine: its invariant, that creating, destroying and reparenting
  entities keep it, and the properties of every state a client can reach through the public
  operations.
\<close>

section \<open>The invariant of the offline engine\<close>

text \<open>
  Over a set of entities \<open>S\<close>, which is that of the engine's list except while a new entity is being
  entered: the hierarchy is consistent, the lists of avatars and objects split the list of
  entities by type, an object without a parent id is among the roots, and ids are below the counter.
\<close>

definition offline_core :: "addr set \<Rightarrow> world \<Rightarrow> bool" where
  "offline_core S w \<longleftrightarrow> w_Kind w = Offline \<and> heap_ok w \<and> hier S {} w
     \<and> distinct (Entities w) \<and> distinct (Avatars w) \<and> distinct (Objects w)
     \<and> set (Avatars w) = {a \<in> set (Entities w). e_Type (obj w a) = AvatarE}
     \<and> set (Objects w) = {a \<in> set (Entities w). e_Type (obj w a) = ObjectE}
     \<and> (\<forall>a \<in> set (Objects w). e_ParentId (obj w a) = None \<longrightarrow> a \<in> set (RootHierarchyEntities w))
     \<and> (\<forall>a \<in> S. e_StatePatcher (obj w a) = None \<and> e_Id (obj w a) < w_NextId w
          \<and> e_Type (obj w a) \<in> {AvatarE, ObjectE})"

definition offline_inv :: "world \<Rightarrow> bool" where
  "offline_inv w \<longleftrightarrow> offline_core (set (Entities w)) w"

lemma offline_coreD:
  assumes "offline_core S w"
  shows "w_Kind w = Offline" "heap_ok w" "hier S {} w" "distinct (Entities w)"
    "distinct (Avatars w)" "distinct (Objects w)"
    "\<And>a. a \<in> set (Avatars w) \<longleftrightarrow> a \<in> set (Entities w) \<and> e_Type (obj w a) = AvatarE"
    "\<And>a. a \<in> set (Objects w) \<longleftrightarrow> a \<in> set (Entities w) \<and> e_Type (obj w a) = ObjectE"
    "\<And>a. a \<in> set (Objects w) \<Longrightarrow> e_ParentId (obj w a) = None \<Longrightarrow> a \<in> set (RootHierarchyEntities w)"
    "\<And>a. a \<in> S \<Longrightarrow> e_StatePatcher (obj w a) = None"
    "\<And>a. a \<in> S \<Longrightarrow> e_Id (obj w a) < w_NextId w"
    "\<And>a. a \<in> S \<Longrightarrow> e_Type (obj w a) \<in> {AvatarE, ObjectE}"
  using assms unfolding offline_core_def by blast+

lemma offline_coreI:
  assumes "w_Kind w = Offline" "heap_ok w" "hier S {} w" "distinct (Entities w)"
    "distinct (Avatars w)" "distinct (Objects w)"
    "\<And>a. a \<in> set (Avatars w) \<longleftrightarrow> a \<in> set (Entities w) \<and> e_Type (obj w a) = AvatarE"
    "\<And>a. a \<in> set (Objects w) \<longleftrightarrow> a \<in> set (Entities w) \<and> e_Type (obj w a) = ObjectE"
    "\<And>a. a \<in> set (Objects w) \<Longrightarrow> e_ParentId (obj w a) = None \<Longrightarrow> a \<in> set (RootHierarchyEntities w)"
    "\<And>a. a \<in> S \<Longrightarrow> e_StatePatcher (obj w a) = None"
    "\<And>a. a \<in> S \<Longrightarrow> e_Id (obj w a) < w_NextId w"
    "\<And>a. a \<in> S \<Longrightarrow> e_Type (obj w a) \<in> {AvatarE, ObjectE}"
  shows "offline_core S w"
  using assms unfolding offline_core_def by blast

lemma offline_core_live: "offline_core S w \<Longrightarrow> a \<in> S \<Longrightarrow> a \<in> dom (w_Ents w)"
  using hierD(1) [OF offline_coreD(3)] by blast

lemma offline_core_entity: "offline_core S w \<Longrightarrow> a \<in> S \<Longrightarrow> offline_entity w a"
  using offline_coreD offline_core_live by (auto simp: offline_entity_def)

lemma offline_core_known: "offline_core S w \<Longrightarrow> known w = Entities w"
  using offline_coreD(1) by (simp add: known_def)

text \<open>Plain operations keep it.\<close>

lemma offline_core_plain:
  assumes p: "plain w w'" and i: "offline_core S w"
  shows "offline_core S w'"
proof -
  have l: "Entities w' = Entities w" "Avatars w' = Avatars w" "Objects w' = Objects w"
    "RootHierarchyEntities w' = RootHierarchyEntities w" "PendingAdds w' = PendingAdds w"
    "w_Kind w' = w_Kind w" "w_NextId w' = w_NextId w"
    using p by (simp_all add: plain_def world_lists_def)
  have s: "\<And>b. shape (obj w' b) = shape (obj w b)" "dom (w_Ents w') = dom (w_Ents w)" "heap_ok w'"
    using p offline_coreD(2) [OF i] unfolding plain_def by blast+
  have f: "e_Type (obj w' b) = e_Type (obj w b)" "e_Id (obj w' b) = e_Id (obj w b)"
    "e_ParentId (obj w' b) = e_ParentId (obj w b)" "e_StatePatcher (obj w' b) = None \<longleftrightarrow> e_StatePatcher (obj w b) = None" for b
    using s(1) [of b] by (simp_all add: shape_def)
  note d = offline_coreD [OF i]
  have k: "known w' = known w" by (simp add: known_def l split: engine_kind.split)
  have h: "hier S {} w'"
    by (rule hier_shape_cong [OF d(3) s(1) k l(4)]) (simp add: s(2))
  show ?thesis
    by (rule offline_coreI; (unfold f l)?)
      (fact d(1) h s(3) d(4) d(5) d(6) d(7) d(8) | rule d(9) d(10) d(11) d(12); assumption)+
qed


section \<open>Changing parents\<close>

lemma heap_ok_links: "links_only w w' \<Longrightarrow> heap_ok w \<Longrightarrow> heap_ok w'"
  by (rule heap_okI; frule heap_okD) (simp_all add: links_only_fields links_only_lists heap_okD)

lemma offline_core_links:
  assumes i: "offline_core S w" and l: "links_only w w'" and h: "hier S {} w'"
    and r: "\<And>a. a \<in> set (Objects w) \<Longrightarrow> e_ParentId (obj w' a) = None \<Longrightarrow> a \<in> set (RootHierarchyEntities w')"
  shows "offline_core S w'"
proof -
  note d = offline_coreD [OF i]
  note f = links_only_fields [OF l] links_only_lists [OF l]
  show ?thesis
    by (rule offline_coreI; (unfold f)?)
      (fact d(1) h heap_ok_links [OF l d(2)] d(4) d(5) d(6) d(7) d(8) | rule r d(10) d(11) d(12); assumption)+
qed

lemma set_parent_keeps_roots:
  assumes i: "offline_core S w" and a: "a \<in> S"
    and b: "b \<in> set (Objects w)" "e_ParentId (obj (set_parent_spec a v w) b) = None"
  shows "b \<in> set (RootHierarchyEntities (set_parent_spec a v w))"
proof -
  note d = offline_coreD [OF i]
  note s = set_parent_spec_links_of [OF d(3) a, of v]
  show ?thesis
    using b d(9) [OF b(1)] hierD(5) [OF d(3)] unfolding s(3,4) by (auto split: if_splits)
qed

lemma offline_core_set_parent_spec:
  assumes i: "offline_core S w" and a: "a \<in> S"
  shows "offline_core S (set_parent_spec a v w)"
  using set_parent_spec_hier [OF offline_coreD(3) [OF i] a, of v] set_parent_keeps_roots [OF i a]
  by (intro offline_core_links [OF i set_parent_spec_links [OF offline_coreD(3) [OF i] a]]) auto

lemma Entities_update_event [simp]: "Entities (update_event a f us w) = Entities w"
  by (auto simp: update_event_def emit_event_def split: option.split)

lemma offline_inv_set_parent:
  assumes i: "offline_inv w" and a: "a \<in> set (Entities w)"
  shows "\<exists>w'. SetParentIdDirect a v call w = Some w' \<and> offline_inv w'"
proof -
  have c: "offline_core (set (Entities w)) w" using i by (simp add: offline_inv_def)
  let ?w = "set_parent_spec a v w"
  have "Entities ?w = Entities w" by (rule links_only_lists(1) [OF set_parent_spec_links [OF offline_coreD(3) [OF c] a]])
  then have "offline_inv ?w" "offline_inv (update_event a FLAG_PARENT [] ?w)"
    using offline_core_set_parent_spec [OF c a] offline_core_plain [OF plain_update_event] by (simp_all add: offline_inv_def)
  then show ?thesis using SetParentIdDirect_refines [OF offline_coreD(3) [OF c] a, of v call] by (cases call) simp_all
qed

lemma offline_inv_SetParentId:
  assumes i: "offline_inv w" and a: "a \<in> set (Entities w)"
  shows "\<exists>w'. SetParentId a p w = Some w' \<and> offline_inv w'" "\<exists>w'. RemoveParentEntity a w = Some w' \<and> offline_inv w'"
proof -
  have "offline_entity w a" using i offline_core_entity [OF _ a] by (simp add: offline_inv_def)
  note o = offline_entityD [OF this]
  show "\<exists>w'. SetParentId a p w = Some w' \<and> offline_inv w'" "\<exists>w'. RemoveParentEntity a w = Some w' \<and> offline_inv w'"
    using offline_inv_set_parent [OF i a] i by (simp_all add: SetParentId_def RemoveParentEntity_def o)
qed

section \<open>Creating entities\<close>

lemma below_precision: "x < PRECISION_53_BITS \<Longrightarrow> x < x + 1 \<and> (y < x \<longrightarrow> y < x + 1)"
  by (auto simp: PRECISION_53_BITS_def word_less_nat_alt unat_word_ariths)

lemma offline_core_alloc:
  assumes i: "offline_core S w" and n: "w_NextId w < PRECISION_53_BITS"
    and al: "alloc_ent e (w\<lparr>w_NextId := w_NextId w + 1\<rparr>) = (a, w')"
    and e: "e_Parent e = None" "e_ChildEntities e = []" "e_Components e = []" "e_StatePatcher e = None"
      "e_Id e = w_NextId w" "e_Type e \<in> {AvatarE, ObjectE}"
  shows "a \<notin> dom (w_Ents w)" "a \<notin> S" "offline_core (insert a S) w'" "obj w' a = e"
    "Entities w' = Entities w" "RootHierarchyEntities w' = RootHierarchyEntities w" "w_Kind w' = Offline"
    "w_Registry w' = w_Registry w"
proof -
  note d = offline_coreD [OF i]
  have w': "a = w_NextAddr w" "w_Ents w' = (w_Ents w)(a \<mapsto> e)" "w_Comps w' = w_Comps w" "w_NextAddr w' = w_NextAddr w + 1"
    "Entities w' = Entities w" "Avatars w' = Avatars w" "Objects w' = Objects w" "w_Kind w' = w_Kind w"
    "RootHierarchyEntities w' = RootHierarchyEntities w" "w_NextId w' = w_NextId w + 1" "w_Registry w' = w_Registry w"
    using al by (auto simp: alloc_ent_def put_ent_def)
  have o: "obj w' b = (if b = a then e else obj w b)" for b by (simp add: obj_def ent_def w'(2))
  show fresh: "a \<notin> dom (w_Ents w)" using heap_okD(2) [OF d(2), of a] w'(1) by auto
  have S: "S \<subseteq> dom (w_Ents w)" using hierD(1) [OF d(3)] .
  then show "a \<notin> S" using fresh by blast
  have lists: "set (Entities w) \<subseteq> S" "set (RootHierarchyEntities w) \<subseteq> S"
    using hierD(3,4) [OF d(3)] offline_core_known [OF i] by auto
  have old: "b \<noteq> a" if "b \<in> S" for b using that \<open>a \<notin> S\<close> by blast
  have k: "known w' = Entities w" using w'(5,8) d(1) by (simp add: known_def)
  have h: "hier (insert a S) {} w'"
  proof (rule hierI)
    show "insert a S \<subseteq> dom (w_Ents w')" using S by (auto simp: w'(2))
    have "e_Id (obj w b) \<noteq> w_NextId w" if "b \<in> S" for b using d(11) [OF that] by auto
    then show "inj_on (\<lambda>b. e_Id (obj w' b)) (insert a S)"
      using hierD(2) [OF d(3)] unfolding inj_on_def o by (metis e(5) insertE)
    show "e_ParentId (obj w' b) = None" if "b \<in> set (RootHierarchyEntities w')" for b
      using that lists(2) old hierD(6) [OF d(3), of b] by (auto simp: o w'(9))
    fix b p
    show "p \<in> insert a S \<and> b \<in> set (kids w' p)" if "b \<in> insert a S" "e_Parent (obj w' b) = Some p"
      using that old e(1) hierD(7) [OF d(3), of b p] by (auto simp: o split: if_splits)
    show "e_ParentId (obj w' b) = Some (e_Id (obj w' p))" if "b \<in> insert a S" "e_Parent (obj w' b) = Some p"
      using that old e(1) hierD(7,8) [OF d(3), of b p] by (auto simp: o split: if_splits)
  next
    fix p
    show "distinct (kids w' p)" if "p \<in> insert a S"
      using that e(2) hierD(9) [OF d(3)] by (auto simp: o)
    show "c \<in> insert a S \<and> e_Parent (obj w' c) = Some p" if "p \<in> insert a S" "c \<in> set (kids w' p)" for c
      using that old e(2) hierD(10) [OF d(3), of p c] by (auto simp: o split: if_splits)
  qed (use lists k w'(9) hierD(5) [OF d(3)] in auto)
  have heap: "heap_ok w'"
  proof (rule heap_okI)
    show "x \<in> dom (w_Comps w')" if "b \<in> dom (w_Ents w')" "x \<in> snd ` set (e_Components (obj w' b))" for b x
      using that e(3) heap_okD(1) [OF d(2), of b x] by (auto simp: o w'(2,3) split: if_splits)
    show "b < w_NextAddr w'" if "b \<in> dom (w_Ents w')" for b
      using that heap_okD(2) [OF d(2), of b] by (cases "b = a") (auto simp: w'(1,2,4) less_Suc_eq)
    show "x < w_NextAddr w'" if "x \<in> dom (w_Comps w')" for x
      using that heap_okD(3) [OF d(2), of x] by (auto simp: w'(3,4) less_Suc_eq)
  qed
  show "offline_core (insert a S) w'"
  proof (rule offline_coreI)
    show "b \<in> set (Avatars w') \<longleftrightarrow> b \<in> set (Entities w') \<and> e_Type (obj w' b) = AvatarE" for b
      using d(7) [of b] lists(1) old [of b] by (auto simp: o w'(5,6))
    show "b \<in> set (Objects w') \<longleftrightarrow> b \<in> set (Entities w') \<and> e_Type (obj w' b) = ObjectE" for b
      using d(8) [of b] lists(1) old [of b] by (auto simp: o w'(5,7))
    show "b \<in> set (RootHierarchyEntities w')" if "b \<in> set (Objects w')" "e_ParentId (obj w' b) = None" for b
      using that d(8,9) [of b] lists(1) old [of b] by (auto simp: o w'(7,9))
    show "e_StatePatcher (obj w' b) = None" if "b \<in> insert a S" for b
      using that d(10) e(4) by (auto simp: o)
    show "e_Id (obj w' b) < w_NextId w'" if "b \<in> insert a S" for b
      using that d(11) [of b] e(5) below_precision [OF n] by (auto simp: o w'(10))
    show "e_Type (obj w' b) \<in> {AvatarE, ObjectE}" if "b \<in> insert a S" for b
      using that d(12) [of b] e(6) by (auto simp: o)
  qed (use h heap d(1,4,5,6) w' in auto)
  show "obj w' a = e" by (simp add: o)
  show "Entities w' = Entities w" "RootHierarchyEntities w' = RootHierarchyEntities w" "w_Kind w' = Offline"
    "w_Registry w' = w_Registry w"
    using w' d(1) by simp_all
qed

lemma offline_inv_append:
  assumes i: "offline_core (insert a (set (Entities w))) w" and a: "a \<notin> set (Entities w)"
    and w': "w' = (case e_Type (obj w a) of
       AvatarE \<Rightarrow> w\<lparr>Entities := Entities w @ [a], Avatars := Avatars w @ [a]\<rparr>
     | ObjectE \<Rightarrow> w\<lparr>Entities := Entities w @ [a], Objects := Objects w @ [a]\<rparr>
     | UnknownE _ \<Rightarrow> w\<lparr>Entities := Entities w @ [a]\<rparr>)"
    and r: "e_Type (obj w a) = ObjectE \<Longrightarrow> e_ParentId (obj w a) = None \<Longrightarrow> a \<in> set (RootHierarchyEntities w)"
  shows "offline_inv w'"
proof -
  note d = offline_coreD [OF i]
  have f: "w_Ents w' = w_Ents w" "w_Comps w' = w_Comps w" "w_NextAddr w' = w_NextAddr w" "w_Kind w' = w_Kind w"
    "RootHierarchyEntities w' = RootHierarchyEntities w" "w_NextId w' = w_NextId w" "Entities w' = Entities w @ [a]"
    "Avatars w' = (if e_Type (obj w a) = AvatarE then Avatars w @ [a] else Avatars w)"
    "Objects w' = (if e_Type (obj w a) = ObjectE then Objects w @ [a] else Objects w)"
    by (simp_all add: w' split: entity_type.split)
  have o: "obj w' = obj w" by (rule ext) (simp add: obj_def ent_def f)
  have k: "known w' = Entities w @ [a]" using d(1) by (simp add: known_def f)
  note hd = hierD [OF d(3)]
  have h: "hier (insert a (set (Entities w))) {} w'"
  proof (rule hierI; (unfold o f k)?)
    show "set (Entities w @ [a]) \<subseteq> insert a (set (Entities w))" by auto
  qed (fact hd(1) hd(2) hd(4) hd(5) | rule hd(6) hd(7) hd(8) hd(9) hd(10); assumption)+
  have hp: "heap_ok w'" using d(2) by (simp add: heap_ok_def o f)
  have "a \<notin> set (Avatars w)" "a \<notin> set (Objects w)" using a d(7,8) by blast+
  then have ds: "distinct (if e_Type (obj w a) = AvatarE then Avatars w @ [a] else Avatars w)"
    "distinct (if e_Type (obj w a) = ObjectE then Objects w @ [a] else Objects w)" "distinct (Entities w @ [a])"
    using a d(4,5,6) by simp_all
  have "offline_core (insert a (set (Entities w))) w'"
  proof (intro offline_coreI; (unfold o f)?)
    show "b \<in> set (if e_Type (obj w a) = AvatarE then Avatars w @ [a] else Avatars w)
        \<longleftrightarrow> b \<in> set (Entities w @ [a]) \<and> e_Type (obj w b) = AvatarE" for b
      using d(7) [of b] by auto
    show "b \<in> set (if e_Type (obj w a) = ObjectE then Objects w @ [a] else Objects w)
        \<longleftrightarrow> b \<in> set (Entities w @ [a]) \<and> e_Type (obj w b) = ObjectE" for b
      using d(8) [of b] by auto
    show "b \<in> set (RootHierarchyEntities w)"
      if "b \<in> set (if e_Type (obj w a) = ObjectE then Objects w @ [a] else Objects w)" "e_ParentId (obj w b) = None" for b
      using that d(9) [of b] r by (auto split: if_splits)
  qed (fact d(1) h hp ds(1) ds(2) ds(3) | rule d(10) d(11) d(12); assumption)+
  then show ?thesis by (simp add: offline_inv_def f)
qed


lemma SpaceEntity_make_fields [simp]:
  "e_Parent (SpaceEntity_make k ty i n tr ow pa t p) = None"
  "e_ChildEntities (SpaceEntity_make k ty i n tr ow pa t p) = []"
  "e_Components (SpaceEntity_make k ty i n tr ow pa t p) = []"
  "e_StatePatcher (SpaceEntity_make k ty i n tr ow pa t p) = MakeStatePatcher k"
  "e_Id (SpaceEntity_make k ty i n tr ow pa t p) = i" "e_Type (SpaceEntity_make k ty i n tr ow pa t p) = ty"
  "e_ParentId (SpaceEntity_make k ty i n tr ow pa t p) = pa" "e_Lock (SpaceEntity_make k ty i n tr ow pa t p) = LOCK_NONE"
  by (simp_all add: SpaceEntity_make_def split: prod.split)

lemma MakeStatePatcher_Offline [simp]: "MakeStatePatcher Offline = None"
  by (simp add: MakeStatePatcher_def)

lemma resolve_spec_eq_set_parent:
  "a \<in> dom (w_Ents w) \<Longrightarrow> resolve_spec a w = set_parent_spec a (e_ParentId (obj w a)) w"
  by (simp add: set_parent_spec_def upd_ent_triv)

lemma offline_inv_emit: "offline_inv w \<Longrightarrow> offline_inv (emit_event ev w)"
  using offline_core_plain [OF plain_emit] by (simp add: offline_inv_def emit_event_def)

lemma CreateEntity_inv:
  assumes i: "offline_inv w" and n: "w_NextId w < PRECISION_53_BITS"
  shows "\<exists>w'. CreateEntity Name tr ParentID w = Some w' \<and> offline_inv w'"
proof -
  have c: "offline_core (set (Entities w)) w" using i by (simp add: offline_inv_def)
  let ?e = "SpaceEntity_make (w_Kind w) ObjectE (w_NextId w) Name tr LOCAL_CLIENT_ID ParentID False False"
  obtain a w2 where al: "alloc_ent ?e (w\<lparr>w_NextId := w_NextId w + 1\<rparr>) = (a, w2)" by fastforce
  note A = offline_core_alloc [OF c n al, simplified offline_coreD(1) [OF c] SpaceEntity_make_fields MakeStatePatcher_Offline, OF refl refl refl refl refl, simplified]
  have c2: "offline_core (insert a (set (Entities w))) w2" by (rule A(3))
  have live: "a \<in> dom (w_Ents w2)" using offline_core_live [OF c2] by simp
  let ?w3 = "set_parent_spec a ParentID w2"
  have res: "ResolveEntityHierarchy a w2 = Some ?w3"
    using ResolveEntityHierarchy_refines [OF offline_coreD(3) [OF c2], of a] resolve_spec_eq_set_parent [OF live]
    by (simp add: A(4))
  note L = set_parent_spec_links [OF offline_coreD(3) [OF c2], of a ParentID]
  have E: "Entities ?w3 = Entities w" using links_only_lists(1) [OF L] A(5) by simp
  have T: "e_Type (obj ?w3 a) = ObjectE" using links_only_fields(3) [OF L] A(4) by simp
  have "offline_inv (?w3\<lparr>Entities := Entities ?w3 @ [a], Objects := Objects ?w3 @ [a]\<rparr>)"
  proof (rule offline_inv_append)
    show "offline_core (insert a (set (Entities ?w3))) ?w3"
      unfolding E by (rule offline_core_set_parent_spec [OF c2]) simp
    show "a \<in> set (RootHierarchyEntities ?w3)" if "e_ParentId (obj ?w3 a) = None"
      using that set_parent_spec_links_of(3,4) [OF offline_coreD(3) [OF c2], of a ParentID] by (auto split: if_splits)
  qed (use A(2) E T in simp_all)
  then have "offline_inv (emit_event (Ev_created (Some a)) (?w3\<lparr>Entities := Entities ?w3 @ [a], Objects := Objects ?w3 @ [a]\<rparr>))"
    by (rule offline_inv_emit)
  then show ?thesis using n al res by (simp add: CreateEntity_def NextId_def)
qed


lemma AvatarData_instantiates: "InstantiateComponent (Some r) k CT_AvatarData \<noteq> None"
proof -
  have "class_schema CT_AvatarData \<noteq> None" using builtin_ids
    by (auto simp: class_schema_def find_None_iff CT_AvatarData_def builtin_schemas_def AvatarData_schema_def)
  moreover have "IsLegacyComponentTypeId CT_AvatarData"
    by (simp add: IsLegacyComponentTypeId_def ToComponentType_def CT_AvatarData_def)
  ultimately show ?thesis by (auto simp: InstantiateComponent_def)
qed

lemma AvatarData_not_script: "ToComponentType CT_AvatarData \<noteq> Some CT_ScriptData"
  by (simp add: ToComponentType_def CT_AvatarData_def CT_ScriptData_def)

lemma set_component_properties_plain:
  "offline_entity w a \<Longrightarrow> ca \<in> dom (w_Comps w) \<Longrightarrow>
   \<exists>w'. set_component_properties a ca kvs w = Some w' \<and> plain w w'"
proof (induction kvs arbitrary: w)
  case (Cons kv kvs)
  obtain w1 where w1: "ComponentSetPropertyDirect a ca (fst kv) (snd kv) w = Some w1" "plain w w1"
    using ComponentSetPropertyDirect_plain [OF Cons.prems] by blast
  obtain w2 where w2: "set_component_properties a ca kvs w1 = Some w2" "plain w1 w2"
    using Cons.IH [OF plain_offline_entity [OF w1(2) Cons.prems(1)] plain_live_comp [OF w1(2) Cons.prems(2)]] by blast
  from w1 w2 plain_trans [OF w1(2) w2(2)] show ?case by simp
qed simp

lemma CreateAvatar_inv:
  assumes i: "offline_inv w" and n: "w_NextId w < PRECISION_53_BITS"
  shows "\<exists>w'. CreateAvatar Name tr A w = Some w' \<and> offline_inv w'"
proof -
  have c: "offline_core (set (Entities w)) w" using i by (simp add: offline_inv_def)
  let ?w1 = "w\<lparr>w_NextId := w_NextId w + 1\<rparr>"
  let ?e = "SpaceEntity_make (w_Kind ?w1) AvatarE (w_NextId w) Name tr 0 None False False"
  obtain a w2 where al: "alloc_ent ?e ?w1 = (a, w2)" by fastforce
  have k: "w_Kind w = Offline" by (rule offline_coreD(1) [OF c])
  note F = offline_core_alloc [OF c n al]
  have A: "a \<notin> set (Entities w)" "offline_core (insert a (set (Entities w))) w2" "obj w2 a = ?e" "Entities w2 = Entities w"
    by (rule F; simp add: k)+
  have o2: "offline_entity w2 a" by (rule offline_core_entity [OF A(2)]) simp
  have "\<not> component_id_used (obj w2 a) 0" by (simp add: component_id_used_def A(3) k)
  moreover have "(0 :: u16) < COMPONENT_KEY_END_COMPONENTS" by (simp add: key_defs)
  moreover have "IsEntityModifiable_offline (obj w2 a) = Modifiable"
    by (simp add: A(3) IsEntityModifiable_offline_def LOCK_NONE_def LOCK_USER_AGNOSTIC_def)
  ultimately obtain ca w3 where w3: "AddComponentByTypeId a CT_AvatarData w2 = Some (Some ca, w3)" "plain w2 w3"
      "ca \<in> dom (w_Comps w3)"
    using AddComponentByTypeId_plain [OF o2, of 0 CT_AvatarData] AvatarData_instantiates AvatarData_not_script by blast
  obtain w4 where w4: "set_component_properties a ca (avatar_settings A) w3 = Some w4" "plain w3 w4"
    using set_component_properties_plain [OF plain_offline_entity [OF w3(2) o2] w3(3)] by blast
  have p: "plain w2 w4" by (rule plain_trans [OF w3(2) w4(2)])
  then have E: "Entities w4 = Entities w" "e_Type (obj w4 a) = AvatarE"
    using A(3,4) by (auto simp: plain_def world_lists_def shape_def)
  have "offline_inv (w4\<lparr>Entities := Entities w4 @ [a], Avatars := Avatars w4 @ [a]\<rparr>)"
  proof (rule offline_inv_append)
    show "offline_core (insert a (set (Entities w4))) w4" unfolding E by (rule offline_core_plain [OF p A(2)])
  qed (use A(1) E in simp_all)
  from offline_inv_emit [OF this] show ?thesis
    using n al w3(1) w4(1) by (simp add: CreateAvatar_def NextId_def BuildNewAvatar_def)
qed

section \<open>Destroying entities\<close>

lemma local_delete_components_runs:
  "set cas \<subseteq> dom (w_Comps w) \<Longrightarrow>
   local_delete_components cas w = Some (w\<lparr>w_Events := w_Events w @ map Ev_OnLocalDelete cas\<rparr>)"
proof (induction cas arbitrary: w)
  case (Cons ca cas)
  obtain c where "comp w ca = Some c" using Cons.prems by (auto simp: comp_def)
  with Cons show ?case by (simp add: emit_event_def)
qed simp


lemma hier_fewer_roots:
  assumes h: "hier S D w" and w': "w_Ents w' = w_Ents w" "known w' = known w"
    "set (RootHierarchyEntities w') \<subseteq> set (RootHierarchyEntities w)" "distinct (RootHierarchyEntities w')"
  shows "hier S D w'"
proof -
  have o: "obj w' = obj w" by (rule ext) (simp add: obj_def ent_def w'(1))
  note hd = hierD [OF h]
  show ?thesis
    by (rule hierI; (unfold o w'(1,2))?)
      (fact hd(1) hd(2) hd(3) subset_trans [OF w'(3) hd(4)] w'(4)
       | (rule hd(6) hd(7) hd(8) hd(9) hd(10); (assumption | rule subsetD [OF w'(3)], assumption)))+
qed

definition unlist_entity :: "addr \<Rightarrow> world \<Rightarrow> world" where
  "unlist_entity a w = free_ent a (w\<lparr>Entities := remove1 a (Entities w)\<rparr>)"

lemma unlist_entity_fields:
  "w_Ents (unlist_entity a w) = (w_Ents w)(a := None)" "Entities (unlist_entity a w) = remove1 a (Entities w)"
  "Avatars (unlist_entity a w) = Avatars w" "Objects (unlist_entity a w) = Objects w"
  "RootHierarchyEntities (unlist_entity a w) = RootHierarchyEntities w" "w_Kind (unlist_entity a w) = w_Kind w"
  "w_NextId (unlist_entity a w) = w_NextId w" "w_Comps (unlist_entity a w) = w_Comps w"
  "w_NextAddr (unlist_entity a w) = w_NextAddr w"
  by (simp_all add: unlist_entity_def free_ent_def)

text \<open>Only an entity without links may be freed.\<close>

lemma hier_free:
  assumes h: "hier S {} w" and a: "e_Parent (obj w a) = None" "kids w a = []" "a \<notin> set (RootHierarchyEntities w)"
    and w': "w_Ents w' = (w_Ents w)(a := None)" "RootHierarchyEntities w' = RootHierarchyEntities w"
      "set (known w') \<subseteq> S - {a}"
  shows "hier (S - {a}) {} w'"
proof -
  note hd = hierD [OF h]
  have o: "obj w' b = obj w b" if "b \<in> S - {a}" for b using that by (simp add: obj_def ent_def w'(1))
  have not_kid: "p \<noteq> a" if "b \<in> S" "e_Parent (obj w b) = Some p" for b p using hd(7) [OF that] a(2) by auto
  have kid: "c \<noteq> a" if "p \<in> S" "c \<in> set (kids w p)" for p c using hd(10) [OF that] a(1) by auto
  have root: "b \<in> S - {a}" if "b \<in> set (RootHierarchyEntities w)" for b using that hd(4) a(3) by auto
  show ?thesis
  proof (rule hierI)
    show "S - {a} \<subseteq> dom (w_Ents w')" using hd(1) by (auto simp: w'(1))
    show "inj_on (\<lambda>b. e_Id (obj w' b)) (S - {a})" using hd(2) o by (simp add: inj_on_def)
    show "set (known w') \<subseteq> S - {a}" by (fact w'(3))
    show "set (RootHierarchyEntities w') \<subseteq> S - {a}" using root by (auto simp: w'(2))
    show "distinct (RootHierarchyEntities w')" using hd(5) by (simp add: w'(2))
    show "e_ParentId (obj w' b) = None" if "b \<in> set (RootHierarchyEntities w')" for b
      using that root [of b] hd(6) [of b] o [of b] by (simp add: w'(2))
    fix b p
    assume b: "b \<in> S - {a}"
    show "p \<in> S - {a} \<and> b \<in> set (kids w' p)" if "e_Parent (obj w' b) = Some p"
      using that b hd(7) [of b p] not_kid [of b p] o [of b] o [of p] by auto
    show "e_ParentId (obj w' b) = Some (e_Id (obj w' p))" if "e_Parent (obj w' b) = Some p"
      using that b hd(7,8) [of b p] not_kid [of b p] o [of b] o [of p] by auto
    show "distinct (kids w' b)" using b hd(9) [of b] o [of b] by auto
    show "p \<in> S - {a} \<and> e_Parent (obj w' p) = Some b" if "p \<in> set (kids w' b)"
      using that b hd(10) [of b p] kid [of b p] o [of b] o [of p] by auto
  qed
qed

lemma hier_unlist:
  assumes h: "hier (set (Entities w)) {} w" and k: "w_Kind w = Offline" "distinct (Entities w)"
    and a: "e_Parent (obj w a) = None" "kids w a = []" "a \<notin> set (RootHierarchyEntities w)"
  shows "hier (set (Entities w) - {a}) {} (unlist_entity a w)"
  by (rule hier_free [OF h a]) (use k in \<open>simp_all add: unlist_entity_fields known_def\<close>)

text \<open>The steps of \<open>DestroyEntity\<close> up to the release of the entity.\<close>

definition destroy_children :: "addr \<Rightarrow> world \<Rightarrow> world" where
  "destroy_children a w = fold child_to_root (kids w a)
     (w\<lparr>w_Events := w_Events w @ map Ev_OnLocalDelete (map snd (e_Components (obj w a))),
        RootHierarchyEntities := remove1 a (RootHierarchyEntities w)\<rparr>)"

definition destroy_lists :: "addr \<Rightarrow> world \<Rightarrow> world" where
  "destroy_lists a w =
     (let w1 = (if e_DestroyCallback (obj w a) then emit_event (Ev_destroy a True) w else w)
      in if e_Type (obj w a) = AvatarE then w1\<lparr>Avatars := remove1 a (Avatars w1)\<rparr>
         else w1\<lparr>Objects := remove1 a (Objects w1)\<rparr>)"

definition destroy_spec :: "addr \<Rightarrow> world \<Rightarrow> world" where
  "destroy_spec a w = emit_event (Ev_result True)
     (unlist_entity a (detach a (destroy_lists a (destroy_children a w))))"

lemma destroy_lists_fields:
  "w_Ents (destroy_lists a w) = w_Ents w" "Entities (destroy_lists a w) = Entities w"
  "RootHierarchyEntities (destroy_lists a w) = RootHierarchyEntities w" "w_Kind (destroy_lists a w) = w_Kind w"
  "w_NextId (destroy_lists a w) = w_NextId w" "w_Comps (destroy_lists a w) = w_Comps w"
  "w_NextAddr (destroy_lists a w) = w_NextAddr w" "known (destroy_lists a w) = known w"
  "Avatars (destroy_lists a w) = (if e_Type (obj w a) = AvatarE then remove1 a (Avatars w) else Avatars w)"
  "Objects (destroy_lists a w) = (if e_Type (obj w a) \<noteq> AvatarE then remove1 a (Objects w) else Objects w)"
  by (simp_all add: destroy_lists_def Let_def emit_event_def known_def split: engine_kind.split)

lemma destroy_children_facts:
  assumes h: "hier S {} w" and a: "a \<in> S" "a \<notin> set (kids w a)"
  defines "w3 \<equiv> destroy_children a w"
  shows "hier S {} w3" "kids w3 a = []" "a \<notin> set (RootHierarchyEntities w3)"
    "set (RootHierarchyEntities w3) = set (RootHierarchyEntities w) - {a} \<union> set (kids w a)"
    "\<And>b. e_ParentId (obj w3 b) = (if b \<in> set (kids w a) then None else e_ParentId (obj w b))"
    "links_only w w3"
    "LocalProcessChildUpdates a (w\<lparr>w_Events := w_Events w @ map Ev_OnLocalDelete (map snd (e_Components (obj w a))),
        RootHierarchyEntities := remove1 a (RootHierarchyEntities w)\<rparr>) = Some w3"
proof -
  let ?w2 = "w\<lparr>w_Events := w_Events w @ map Ev_OnLocalDelete (map snd (e_Components (obj w a))),
        RootHierarchyEntities := remove1 a (RootHierarchyEntities w)\<rparr>"
  have o: "obj ?w2 = obj w" by (rule ext) (simp add: obj_def ent_def)
  have h2: "hier S {} ?w2"
    by (rule hier_fewer_roots [OF h])
      (use hierD(5) [OF h] in \<open>auto simp: known_def dest: notin_set_remove1 split: engine_kind.split\<close>)
  have l2: "links_only w ?w2" unfolding links_only_def o by (simp add: world_rest_def)
  have sub: "set (kids w a) \<subseteq> S" using hierD(10) [OF h a(1)] by blast
  note f = fold_child_to_root [OF h2 sub]
  have w3: "w3 = fold child_to_root (kids w a) ?w2" by (simp add: w3_def destroy_children_def)
  show "hier S {} w3" "links_only w w3" unfolding w3 by (fact f(1) links_only_trans [OF l2 f(2)])+
  show "kids w3 a = []" using no_kids_left [OF h2 a(1)] unfolding w3 o .
  show R: "set (RootHierarchyEntities w3) = set (RootHierarchyEntities w) - {a} \<union> set (kids w a)"
    using f(6) hierD(5) [OF h] by (simp add: w3)
  then show "a \<notin> set (RootHierarchyEntities w3)" using a(2) by simp
  show "e_ParentId (obj w3 b) = (if b \<in> set (kids w a) then None else e_ParentId (obj w b))" for b
    using f(4) [of b] unfolding w3 o .
  show "LocalProcessChildUpdates a ?w2 = Some w3"
    using LocalProcessChildUpdates_refines [OF h2 a(1)] unfolding w3 o .
qed

lemma DestroyEntity_refines:
  assumes i: "offline_inv w" and a: "a \<in> set (Entities w)" "a \<notin> set (kids w a)"
  shows "DestroyEntity a w = Some (destroy_spec a w)" "offline_inv (destroy_spec a w)"
proof -
  have c: "offline_core (set (Entities w)) w" using i by (simp add: offline_inv_def)
  note d = offline_coreD [OF c] note k = destroy_children_facts [OF d(3) a]
  let ?w3 = "destroy_children a w" let ?w5 = "destroy_lists a ?w3" let ?w6 = "detach a ?w5"
  note l3 = links_only_fields [OF k(6)] links_only_lists [OF k(6)]
  have o5: "obj ?w5 = obj ?w3" by (rule ext) (simp add: obj_def ent_def destroy_lists_fields)
  have h5: "hier (set (Entities w)) {} ?w5" by (rule hier_cong [OF k(1)]) (simp_all add: destroy_lists_fields)
  have h6: "hier (set (Entities w)) {} ?w6" by (rule hier_detach [OF h5 a(1)])
  have S: "set (Entities w) \<subseteq> dom (w_Ents w)" by (rule hierD(1) [OF d(3)])
  have live5: "a \<in> dom (w_Ents ?w5)" "\<And>p. e_Parent (obj ?w5 a) = Some p \<Longrightarrow> p \<in> dom (w_Ents ?w5)"
    using hierD(1,7) [OF h5] a(1) by blast+
  have l6: "links_only ?w5 ?w6" using live5 by (rule links_only_detach)
  note f6 = links_only_fields [OF l6] links_only_lists [OF l6]
  have kid6: "kids ?w6 a = []" using k(2) by (auto simp: obj_detach o5 split: option.split)
  have E6: "Entities ?w6 = Entities w" by (simp add: destroy_lists_fields l3)
  have R6: "RootHierarchyEntities ?w6 = RootHierarchyEntities ?w3" by (simp add: destroy_lists_fields)
  have type: "a \<in> set (if e_Type (obj w a) = AvatarE then Avatars w else Objects w)"
    using a(1) d(7,8) d(12) [OF a(1)] by auto
  have comps: "set (map snd (e_Components (obj w a))) \<subseteq> dom (w_Comps w)"
    using heap_okD(1) [OF d(2) subsetD [OF S a(1)]] by auto
  have del: "RemoveParentChildRelationshipsFromEntity a ?w5 = Some ?w6"
    using live5 k(2) by (intro RemoveParentChildRelationships_childless) (simp_all add: o5)
  have live: "ent w a = Some (obj w a)" "ent ?w3 a = Some (obj ?w3 a)"
    using ent_Some S a(1) l3(1) by blast+
  have lists: "(if e_Type (obj w a) = AvatarE then w4\<lparr>Avatars := remove1 a (Avatars w4)\<rparr>
          else w4\<lparr>Objects := remove1 a (Objects w4)\<rparr>) = ?w5"
    if "w4 = (if e_DestroyCallback (obj ?w3 a) then emit_event (Ev_destroy a True) ?w3 else ?w3)" for w4
    unfolding that destroy_lists_def Let_def l3 by (rule refl)
  show "DestroyEntity a w = Some (destroy_spec a w)"
    unfolding DestroyEntity_def live bind.bind_lunit local_delete_components_runs [OF comps] Let_def
    using a(1) type k(7) live(2) lists [OF refl] del
    by (simp add: destroy_spec_def unlist_entity_def)
  show "offline_inv (destroy_spec a w)"
  proof -
    have "hier (set (Entities ?w6) - {a}) {} (unlist_entity a ?w6)"
    proof (rule hier_unlist)
      show "hier (set (Entities ?w6)) {} ?w6" using h6 by (simp only: E6)
      show "w_Kind ?w6 = Offline" by (simp add: destroy_lists_fields l3 d(1))
    qed (use E6 a(1) d(4) kid6 R6 k(3) in simp_all)
    then have h: "hier (set (Entities w) - {a}) {} (unlist_entity a ?w6)" by (simp only: E6)
    have o: "e_Id (obj (unlist_entity a ?w6) b) = e_Id (obj w b)" "e_Type (obj (unlist_entity a ?w6) b) = e_Type (obj w b)"
      "e_StatePatcher (obj (unlist_entity a ?w6) b) = e_StatePatcher (obj w b)"
      "e_Components (obj (unlist_entity a ?w6) b) = e_Components (obj w b)"
      "e_ParentId (obj (unlist_entity a ?w6) b) = e_ParentId (obj ?w3 b)" if "b \<noteq> a" for b
    proof -
      have "obj (unlist_entity a ?w6) b = obj ?w6 b" using that by (simp add: obj_def ent_def unlist_entity_fields)
      then show "e_Id (obj (unlist_entity a ?w6) b) = e_Id (obj w b)" "e_Type (obj (unlist_entity a ?w6) b) = e_Type (obj w b)"
        "e_StatePatcher (obj (unlist_entity a ?w6) b) = e_StatePatcher (obj w b)"
        "e_Components (obj (unlist_entity a ?w6) b) = e_Components (obj w b)"
        "e_ParentId (obj (unlist_entity a ?w6) b) = e_ParentId (obj ?w3 b)"
        by (simp_all add: f6 o5 l3)
    qed
    note f = unlist_entity_fields f6 destroy_lists_fields l3
    have "offline_core (set (Entities (unlist_entity a ?w6))) (unlist_entity a ?w6)"
    proof (rule offline_coreI)
      have dom: "dom (w_Ents (unlist_entity a ?w6)) = dom (w_Ents w) - {a}"
        using l3(1) f6(1) by (auto simp: unlist_entity_fields destroy_lists_fields)
      show "heap_ok (unlist_entity a ?w6)"
      proof (rule heap_okI)
        fix b
        assume "b \<in> dom (w_Ents (unlist_entity a ?w6))"
        then have b: "b \<in> dom (w_Ents w)" "b \<noteq> a" unfolding dom by auto
        show "b < w_NextAddr (unlist_entity a ?w6)" using heap_okD(2) [OF d(2) b(1)] by (simp add: f)
        show "x \<in> dom (w_Comps (unlist_entity a ?w6))" if "x \<in> snd ` set (e_Components (obj (unlist_entity a ?w6) b))" for x
          using heap_okD(1) [OF d(2) b(1), of x] that unfolding o(4) [OF b(2)] by (simp add: f)
      qed (use heap_okD(3) [OF d(2)] in \<open>simp add: f\<close>)
      show "hier (set (Entities (unlist_entity a ?w6))) {} (unlist_entity a ?w6)"
        using h d(4) by (simp add: f)
      fix b
      have E: "b \<in> set (Entities (unlist_entity a ?w6)) \<longleftrightarrow> b \<in> set (Entities w) \<and> b \<noteq> a" using d(4) by (simp add: f)
      show "b \<in> set (Avatars (unlist_entity a ?w6))
          \<longleftrightarrow> b \<in> set (Entities (unlist_entity a ?w6)) \<and> e_Type (obj (unlist_entity a ?w6) b) = AvatarE"
        unfolding E using d(5) d(7) [of b] o(2) [of b] d(7) [of a] by (cases "b = a") (simp_all add: f)
      show "b \<in> set (Objects (unlist_entity a ?w6))
          \<longleftrightarrow> b \<in> set (Entities (unlist_entity a ?w6)) \<and> e_Type (obj (unlist_entity a ?w6) b) = ObjectE"
        unfolding E using d(6) d(8) [of b] o(2) [of b] d(8) [of a] by (cases "b = a") (simp_all add: f)
      have obj_b: "b \<in> set (Objects (unlist_entity a ?w6)) \<Longrightarrow> b \<in> set (Objects w) \<and> b \<noteq> a"
        using d(6) d(8) [of b] d(8) [of a] by (auto simp: f split: if_splits)
      show "b \<in> set (RootHierarchyEntities (unlist_entity a ?w6))"
        if "b \<in> set (Objects (unlist_entity a ?w6))" "e_ParentId (obj (unlist_entity a ?w6) b) = None"
        using obj_b [OF that(1)] that(2) o(5) [of b] d(9) [of b] k(4) k(5) [of b] R6
        by (auto simp: unlist_entity_fields split: if_splits)
      show "e_StatePatcher (obj (unlist_entity a ?w6) b) = None" "e_Id (obj (unlist_entity a ?w6) b) < w_NextId (unlist_entity a ?w6)"
        "e_Type (obj (unlist_entity a ?w6) b) \<in> {AvatarE, ObjectE}"
        if "b \<in> set (Entities (unlist_entity a ?w6))"
        using that d(10,11,12) [of b] o [of b] unfolding E by (simp_all add: f)
    qed (use d(1,4,5,6) in \<open>simp_all add: f\<close>)
    then have "offline_inv (unlist_entity a ?w6)" by (simp add: offline_inv_def)
    then show ?thesis unfolding destroy_spec_def by (rule offline_inv_emit)
  qed
qed

end
