(* ===== verification/Offline_Machine.thy ===== *)
theory Offline_Machine
  imports Offline_Invariant
begin

text \<open>
  The offline engine's client interface as a step relation. The reachable states satisfy the
  invariant of \<open>Offline_Invariant\<close>, and in each of them every allowed operation returns.
\<close>

section \<open>The client's operations as steps\<close>

datatype offline_op =
    OpCreateEntity string transform "u64 option"
  | OpCreateAvatar string transform avatar_args
  | OpDestroy addr
  | OpSetName addr string
  | OpSetPosition addr vec3
  | OpSetRotation addr vec4
  | OpSetScale addr vec3
  | OpSetThirdPartyRef addr string
  | OpSetParentId addr u64
  | OpRemoveParent addr
  | OpLock addr
  | OpUnlock addr
  | OpSelect addr
  | OpDeselect addr
  | OpAddComponent addr u64
  | OpRemoveComponent addr u16
  | OpSetComponentProperty addr addr u32 rep_value
  | OpRemoveComponentProperty addr addr u32
  | OpSetUpdateCallback addr bool
  | OpSetDestroyCallback addr bool

fun run_op :: "offline_op \<Rightarrow> world \<Rightarrow> world option" where
  "run_op (OpCreateEntity n tr p) w = CreateEntity n tr p w"
| "run_op (OpCreateAvatar n tr A) w = CreateAvatar n tr A w"
| "run_op (OpDestroy a) w = DestroyEntity a w"
| "run_op (OpSetName a x) w = map_option snd (SetName a x w)"
| "run_op (OpSetPosition a x) w = map_option snd (SetPosition a x w)"
| "run_op (OpSetRotation a x) w = map_option snd (SetRotation a x w)"
| "run_op (OpSetScale a x) w = map_option snd (SetScale a x w)"
| "run_op (OpSetThirdPartyRef a x) w = map_option snd (SetThirdPartyRef a x w)"
| "run_op (OpSetParentId a i) w = SetParentId a i w"
| "run_op (OpRemoveParent a) w = RemoveParentEntity a w"
| "run_op (OpLock a) w = map_option snd (Lock a w)"
| "run_op (OpUnlock a) w = map_option snd (Unlock a w)"
| "run_op (OpSelect a) w = map_option snd (Select a w)"
| "run_op (OpDeselect a) w = map_option snd (Deselect a w)"
| "run_op (OpAddComponent a t) w = map_option snd (AddComponentByTypeId a t w)"
| "run_op (OpRemoveComponent a k) w = map_option snd (RemoveComponent a k w)"
| "run_op (OpSetComponentProperty a ca k v) w = ComponentSetPropertyDirect a ca k v w"
| "run_op (OpRemoveComponentProperty a ca k) w = ComponentRemoveProperty a ca k w"
| "run_op (OpSetUpdateCallback a b) w = SetUpdateCallback a b w"
| "run_op (OpSetDestroyCallback a b) w = SetDestroyCallback a b w"

text \<open>
  What a client has to respect: entity and component pointers it passes are those of live objects,
  an entity it destroys is not its own parent (see \<open>self_parent_leaves_dangling_root\<close>), an entity it
  adds a component to has a free component id, and the id counter is below its asserted bound.
\<close>

fun op_allowed :: "offline_op \<Rightarrow> world \<Rightarrow> bool" where
  "op_allowed (OpCreateEntity n tr p) w \<longleftrightarrow> w_NextId w < PRECISION_53_BITS"
| "op_allowed (OpCreateAvatar n tr A) w \<longleftrightarrow> w_NextId w < PRECISION_53_BITS"
| "op_allowed (OpDestroy a) w \<longleftrightarrow> a \<in> set (Entities w) \<and> a \<notin> set (kids w a)"
| "op_allowed (OpSetName a x) w \<longleftrightarrow> a \<in> set (Entities w)"
| "op_allowed (OpSetPosition a x) w \<longleftrightarrow> a \<in> set (Entities w)"
| "op_allowed (OpSetRotation a x) w \<longleftrightarrow> a \<in> set (Entities w)"
| "op_allowed (OpSetScale a x) w \<longleftrightarrow> a \<in> set (Entities w)"
| "op_allowed (OpSetThirdPartyRef a x) w \<longleftrightarrow> a \<in> set (Entities w)"
| "op_allowed (OpSetParentId a i) w \<longleftrightarrow> a \<in> set (Entities w)"
| "op_allowed (OpRemoveParent a) w \<longleftrightarrow> a \<in> set (Entities w)"
| "op_allowed (OpLock a) w \<longleftrightarrow> a \<in> set (Entities w)"
| "op_allowed (OpUnlock a) w \<longleftrightarrow> a \<in> set (Entities w)"
| "op_allowed (OpSelect a) w \<longleftrightarrow> a \<in> set (Entities w)"
| "op_allowed (OpDeselect a) w \<longleftrightarrow> a \<in> set (Entities w)"
| "op_allowed (OpAddComponent a t) w \<longleftrightarrow> a \<in> set (Entities w)
     \<and> (\<exists>k. k < COMPONENT_KEY_END_COMPONENTS \<and> \<not> component_id_used (obj w a) k)"
| "op_allowed (OpRemoveComponent a k) w \<longleftrightarrow> a \<in> set (Entities w)"
| "op_allowed (OpSetComponentProperty a ca k v) w \<longleftrightarrow> a \<in> set (Entities w) \<and> ca \<in> dom (w_Comps w)"
| "op_allowed (OpRemoveComponentProperty a ca k) w \<longleftrightarrow> a \<in> set (Entities w) \<and> ca \<in> dom (w_Comps w)"
| "op_allowed (OpSetUpdateCallback a b) w \<longleftrightarrow> a \<in> set (Entities w)"
| "op_allowed (OpSetDestroyCallback a b) w \<longleftrightarrow> a \<in> set (Entities w)"

inductive offline_reachable :: "registry \<Rightarrow> world \<Rightarrow> bool" for r where
  start: "offline_reachable r (new_world Offline r)"
| step: "offline_reachable r w \<Longrightarrow> op_allowed op w \<Longrightarrow> run_op op w = Some w' \<Longrightarrow> offline_reachable r w'"

lemma offline_inv_new_world: "offline_inv (new_world Offline r)"
proof -
  have "hier {} {} (new_world Offline r)" by (rule hier_empty)
  then show ?thesis
    by (auto simp: offline_inv_def offline_core_def new_world_def heap_ok_def)
qed

lemma offline_inv_plain: "plain w w' \<Longrightarrow> offline_inv w \<Longrightarrow> offline_inv w'"
proof -
  assume p: "plain w w'" and i: "offline_inv w"
  have "Entities w' = Entities w" using p by (simp add: plain_def world_lists_def)
  then show "offline_inv w'" using offline_core_plain [OF p] i by (simp add: offline_inv_def)
qed

lemma plain_runs:
  assumes "offline_inv w" "\<exists>b w'. m = Some (b, w') \<and> plain w w'"
  shows "\<exists>w'. map_option snd m = Some w' \<and> offline_inv w'"
  using assms offline_inv_plain by fastforce

lemma plain_runs_world:
  assumes "offline_inv w" "\<exists>w'. m = Some w' \<and> plain w w'"
  shows "\<exists>w'. m = Some w' \<and> offline_inv w'"
  using assms offline_inv_plain by blast

lemma offline_op_inv:
  assumes i: "offline_inv w" and al: "op_allowed op w"
  shows "\<exists>w'. run_op op w = Some w' \<and> offline_inv w'"
proof -
  have c: "offline_core (set (Entities w)) w" using i by (simp add: offline_inv_def)
  have e: "offline_entity w a" if "a \<in> set (Entities w)" for a by (rule offline_core_entity [OF c that])
  note par = offline_inv_SetParentId [OF i]
  show ?thesis
  proof (cases op)
    case (OpDestroy a)
    with al DestroyEntity_refines [OF i, of a] show ?thesis by auto
  next
    case (OpAddComponent a t)
    with al obtain k where k: "a \<in> set (Entities w)" "k < COMPONENT_KEY_END_COMPONENTS" "\<not> component_id_used (obj w a) k"
      by auto
    have "\<exists>r w'. AddComponentByTypeId a t w = Some (r, w') \<and> plain w w'"
      using AddComponentByTypeId_plain [OF e [OF k(1)] k(2,3), of t] by blast
    from plain_runs [OF i this] show ?thesis using OpAddComponent by simp
  qed (use al CreateEntity_inv [OF i] CreateAvatar_inv [OF i] par
      plain_runs [OF i EntitySetProperty_plain [OF e prop_set_types(1)]]
      plain_runs [OF i EntitySetProperty_plain [OF e prop_set_types(2)]]
      plain_runs [OF i EntitySetProperty_plain [OF e prop_set_types(3)]]
      plain_runs [OF i EntitySetProperty_plain [OF e prop_set_types(4)]]
      plain_runs [OF i EntitySetProperty_plain [OF e prop_set_types(6)]]
      plain_runs [OF i Lock_plain [OF e]] plain_runs [OF i Unlock_plain [OF e]]
      plain_runs [OF i InternalSetSelection_plain [OF e]] plain_runs [OF i RemoveComponent_plain [OF e]]
      plain_runs_world [OF i ComponentSetPropertyDirect_plain [OF e]]
      plain_runs_world [OF i ComponentRemoveProperty_plain [OF e]]
      plain_runs_world [OF i SetCallback_plain(1) [OF e]] plain_runs_world [OF i SetCallback_plain(2) [OF e]]
      in \<open>simp_all add: SetName_def SetPosition_def SetRotation_def SetScale_def SetThirdPartyRef_def Select_def Deselect_def\<close>)
qed


lemma reachable_inv: "offline_reachable r w \<Longrightarrow> offline_inv w"
proof (induction rule: offline_reachable.induct)
  case start
  show ?case by (rule offline_inv_new_world)
next
  case (step w op w')
  then show ?case using offline_op_inv [of w op] by auto
qed

section \<open>Properties of the reachable states\<close>

text \<open>
  C2. In every state a client of the offline engine can reach from an empty engine, without destroying
  an entity that is its own parent, the hierarchy is consistent: every entity of the engine is
  live, ids identify entities, a parent pointer leads to an entity whose child list has the child
  exactly once and whose id is the parent id, the root list has no dangling or parented entity, and
  avatars and objects split the entities by type. Both conditions are needed: entities of a loaded scene
  can have the id of a new one (\<open>created_id_collides_with_scene\<close>), and destroying an entity that
  is its own parent leaves its address among the roots (\<open>self_parent_leaves_dangling_root\<close>).
\<close>

theorem offline_hierarchy_is_consistent:
  assumes "offline_reachable r w"
  shows "hier (set (Entities w)) {} w \<and> distinct (Entities w)
    \<and> set (Avatars w) = {a \<in> set (Entities w). e_Type (obj w a) = AvatarE}
    \<and> set (Objects w) = {a \<in> set (Entities w). e_Type (obj w a) = ObjectE}
    \<and> (\<forall>a \<in> set (Objects w). e_ParentId (obj w a) = None \<longrightarrow> a \<in> set (RootHierarchyEntities w))"
  using reachable_inv [OF assms] unfolding offline_inv_def offline_core_def by blast

definition a_transform :: transform where
  "a_transform = ((0, 0, 0), (0, 0, 0, 0x3F800000), (0x3F800000, 0x3F800000, 0x3F800000))"

lemma reachable_one_entity:
  "\<exists>w. offline_reachable [] w \<and> run_op (OpCreateEntity ''a'' a_transform None) (new_world Offline []) = Some w"
proof -
  have n: "w_NextId (new_world Offline []) < PRECISION_53_BITS"
    by (simp add: new_world_def PRECISION_53_BITS_def)
  obtain w where "CreateEntity ''a'' a_transform None (new_world Offline []) = Some w"
    using CreateEntity_inv [OF offline_inv_new_world n] by blast
  then show ?thesis
    using offline_reachable.step [OF offline_reachable.start, of "OpCreateEntity ''a'' a_transform None" "[]" w] n by auto
qed

lemma offline_hierarchy_is_consistent_witness:
  "\<exists>w. run_op (OpCreateEntity ''a'' a_transform None) (new_world Offline []) = Some w
    \<and> hier (set (Entities w)) {} w \<and> distinct (Entities w)"
  using reachable_one_entity offline_hierarchy_is_consistent by blast

text \<open>
  C17. In every reachable state every allowed operation returns: no operation follows a dangling or
  null pointer, fails an assertion or searches for a component id forever, and its result is
  again a reachable state.
\<close>

theorem offline_operations_never_fail:
  assumes "offline_reachable r w" "op_allowed op w"
  shows "\<exists>w'. run_op op w = Some w' \<and> offline_reachable r w'"
  using offline_op_inv [OF reachable_inv [OF assms(1)] assms(2)] offline_reachable.step [OF assms] by blast

lemma offline_operations_never_fail_witness:
  "\<exists>w'. run_op (OpCreateEntity ''a'' a_transform (Some 7)) (new_world Offline []) = Some w' \<and> offline_reachable [] w'"
  by (rule offline_operations_never_fail [OF offline_reachable.start]) (simp add: new_world_def PRECISION_53_BITS_def)

end
