(* ===== verification/Offline_Properties.thy ===== *)
theory Offline_Properties
  imports Offline_Machine
begin

text \<open>
  What destroying an entity and loading a scene do in the offline engine, with the order of the
  callbacks, and three ways in which the engine's state goes wrong: a selection that outlives its
  entity, an entity made its own parent, and ids shared with a loaded scene.
\<close>

section \<open>What destroying an entity does\<close>

lemma events_put_ent [simp]: "w_Events (set_root a b w) = w_Events w" "w_Events (detach a w) = w_Events w"
  "w_Events (attach a p w) = w_Events w"
  by (simp_all add: set_root_def detach_def attach_def split: option.split)

lemma events_resolve_spec [simp]: "w_Events (resolve_spec a w) = w_Events w"
  by (simp add: resolve_spec_def Let_def split: option.split)

lemma events_set_parent_spec [simp]: "w_Events (set_parent_spec a v w) = w_Events w"
  by (simp add: set_parent_spec_def)

definition child_event :: "world \<Rightarrow> addr \<Rightarrow> event list" where
  "child_event w c = (if e_UpdateCallback (obj w c) then [Ev_update c FLAG_PARENT []] else [])"

lemma events_child_to_root:
  assumes "hier S {} w" "c \<in> S"
  shows "w_Events (child_to_root c w) = w_Events w @ child_event w c"
proof -
  note l = links_only_fields [OF set_parent_spec_links [OF assms], of None]
  have "ent (set_parent_spec c None w) c = Some (obj (set_parent_spec c None w) c)"
    using hierD(1) [OF assms(1)] assms(2) l(1) by (intro ent_Some) blast
  then show ?thesis by (simp add: child_to_root_def update_event_def child_event_def emit_event_def l)
qed

lemma events_fold_child_to_root:
  "hier S {} w \<Longrightarrow> set cs \<subseteq> S \<Longrightarrow> w_Events (fold child_to_root cs w) = w_Events w @ concat (map (child_event w) cs)"
proof (induction cs arbitrary: w)
  case (Cons c cs)
  have "child_event (child_to_root c w) = child_event w"
    using links_only_fields(6) [OF child_to_root_links [OF Cons.prems(1), of c]] Cons.prems(2)
    by (intro ext) (simp add: child_event_def)
  then show ?case
    using Cons.IH [OF child_to_root_hier [OF Cons.prems(1), of c]] events_child_to_root [OF Cons.prems(1), of c] Cons.prems(2)
    by simp
qed simp

text \<open>
  C32. Destroying an entity tells its components, then lets every child with a callback see that it
  has moved to the root, then calls the destroy callback, and only then reports success. The
  children become roots without a parent, the entity is gone from every list but the selection,
  and all other entities stay.
\<close>

theorem destroy_order_and_effect:
  assumes "offline_reachable r w" "a \<in> set (Entities w)" "a \<notin> set (kids w a)"
  shows "\<exists>w'. DestroyEntity a w = Some w'
    \<and> w_Events w' = w_Events w @ map Ev_OnLocalDelete (map snd (e_Components (obj w a)))
        @ concat (map (child_event w) (kids w a))
        @ (if e_DestroyCallback (obj w a) then [Ev_destroy a True] else []) @ [Ev_result True]
    \<and> Entities w' = remove1 a (Entities w) \<and> ent w' a = None
    \<and> set (RootHierarchyEntities w') = set (RootHierarchyEntities w) - {a} \<union> set (kids w a)
    \<and> (\<forall>c \<in> set (kids w a). e_ParentId (obj w' c) = None \<and> e_Parent (obj w' c) = None)
    \<and> SelectedEntities w' = SelectedEntities w"
proof -
  have i: "offline_inv w" by (rule reachable_inv [OF assms(1)])
  then have c: "offline_core (set (Entities w)) w" by (simp add: offline_inv_def)
  note d = offline_coreD [OF c] note k = destroy_children_facts [OF offline_coreD(3) [OF c] assms(2,3)]
  let ?w3 = "destroy_children a w" let ?w5 = "destroy_lists a ?w3" let ?w6 = "detach a ?w5"
  note l3 = links_only_fields [OF k(6)] links_only_lists [OF k(6)]
  let ?w2 = "w\<lparr>w_Events := w_Events w @ map Ev_OnLocalDelete (map snd (e_Components (obj w a))),
        RootHierarchyEntities := remove1 a (RootHierarchyEntities w)\<rparr>"
  have o: "obj ?w2 = obj w" by (rule ext) (simp add: obj_def ent_def)
  have h2: "hier (set (Entities w)) {} ?w2"
    by (rule hier_fewer_roots [OF d(3)])
      (use hierD(5) [OF d(3)] in \<open>auto simp: known_def d(1) dest: notin_set_remove1\<close>)
  have sub: "set (kids w a) \<subseteq> set (Entities w)" using hierD(10) [OF d(3) assms(2)] by blast
  have "w_Events ?w3 = w_Events ?w2 @ concat (map (child_event ?w2) (kids w a))"
    unfolding destroy_children_def by (rule events_fold_child_to_root [OF h2 sub])
  moreover have "child_event ?w2 = child_event w" unfolding child_event_def [abs_def] o ..
  ultimately have ev: "w_Events ?w3 = w_Events w @ map Ev_OnLocalDelete (map snd (e_Components (obj w a)))
      @ concat (map (child_event w) (kids w a))" by simp
  have ev5: "w_Events ?w5 = w_Events ?w3 @ (if e_DestroyCallback (obj w a) then [Ev_destroy a True] else [])"
    by (simp add: destroy_lists_def Let_def emit_event_def l3 split: entity_type.split)
  have sel: "SelectedEntities ?w6 = SelectedEntities w"
    by (simp add: detach_def destroy_lists_def Let_def emit_event_def l3 split: entity_type.split option.split)
  have kid: "e_ParentId (obj (destroy_spec a w) b) = None" "e_Parent (obj (destroy_spec a w) b) = None"
    if "b \<in> set (kids w a)" for b
  proof -
    have "b \<noteq> a" using that assms(3) by blast
    have o5: "obj ?w5 = obj ?w3" by (rule ext) (simp add: obj_def ent_def destroy_lists_fields)
    have "obj (destroy_spec a w) b = obj ?w6 b"
      using \<open>b \<noteq> a\<close> by (simp add: destroy_spec_def obj_def ent_def emit_event_def unlist_entity_fields)
    moreover have "e_Parent (obj ?w3 b) = None"
      using fold_child_to_root(3) [OF h2 sub, of b] that unfolding destroy_children_def by simp
    ultimately show "e_ParentId (obj (destroy_spec a w) b) = None" "e_Parent (obj (destroy_spec a w) b) = None"
      using k(5) [of b] that \<open>b \<noteq> a\<close> by (simp_all add: obj_detach o5 split: option.split)
  qed
  show ?thesis
    using DestroyEntity_refines(1) [OF i assms(2,3)] ev ev5 sel kid k(4)
    by (intro exI [of _ "destroy_spec a w"])
      (auto simp: destroy_spec_def emit_event_def unlist_entity_def free_ent_def ent_def destroy_lists_fields l3)
qed


text \<open>A world with one entity, as the client creates it.\<close>

definition one_entity :: world where
  "one_entity = (put_ent 0 (SpaceEntity_make Offline ObjectE 1 ''a'' a_transform LOCAL_CLIENT_ID None False False)
     (new_world Offline []))\<lparr>w_NextAddr := 1, w_NextId := 2, Entities := [0], Objects := [0],
     RootHierarchyEntities := [0], w_Events := [Ev_created (Some 0)]\<rparr>"

lemma create_one_entity:
  "run_op (OpCreateEntity ''a'' a_transform None) (new_world Offline []) = Some one_entity"
  by (simp add: CreateEntity_def NextId_def new_world_def PRECISION_53_BITS_def alloc_ent_def put_ent_def ent_def
      ResolveEntityHierarchy_def EntityIsInRootHierarchy_def ResolveParentChildRelationship_def emit_event_def
      one_entity_def)

lemma one_entity_reachable: "offline_reachable [] one_entity"
  using offline_reachable.step [OF offline_reachable.start, of "OpCreateEntity ''a'' a_transform None" "[]" one_entity]
    create_one_entity by (simp add: new_world_def PRECISION_53_BITS_def)

lemma one_entity_fields [simp]:
  "Entities one_entity = [0]" "obj one_entity 0 = SpaceEntity_make Offline ObjectE 1 ''a'' a_transform LOCAL_CLIENT_ID None False False"
  "RootHierarchyEntities one_entity = [0]" "w_Events one_entity = [Ev_created (Some 0)]" "SelectedEntities one_entity = []"
  by (simp_all add: one_entity_def obj_def ent_def new_world_def)

lemma destroy_order_and_effect_witness:
  "\<exists>w'. DestroyEntity 0 one_entity = Some w' \<and> Entities w' = [] \<and> ent w' 0 = None
     \<and> w_Events w' = [Ev_created (Some 0), Ev_result True] \<and> RootHierarchyEntities w' = []"
  using destroy_order_and_effect [OF one_entity_reachable, of 0]
  by (auto simp: SpaceEntity_make_def a_transform_def SpaceEntity_new_def UNIT_TRANSFORM_def)

section \<open>Where the state goes wrong\<close>

text \<open>
  Destroying a selected entity leaves it in the list of selected entities: the list then holds
  a pointer to freed memory.
\<close>

theorem destroy_leaves_dangling_selection:
  assumes "offline_reachable r w" "a \<in> set (Entities w)" "a \<notin> set (kids w a)" "a \<in> set (SelectedEntities w)"
  shows "\<exists>w'. DestroyEntity a w = Some w' \<and> a \<in> set (SelectedEntities w') \<and> ent w' a = None"
proof -
  have i: "offline_inv w" by (rule reachable_inv [OF assms(1)])
  then have c: "offline_core (set (Entities w)) w" by (simp add: offline_inv_def)
  let ?w3 = "destroy_children a w" let ?w6 = "detach a (destroy_lists a ?w3)"
  note l3 = links_only_lists [OF destroy_children_facts(6) [OF offline_coreD(3) [OF c] assms(2,3)]]
  have sel: "SelectedEntities ?w6 = SelectedEntities w"
    by (simp add: detach_def destroy_lists_def Let_def emit_event_def l3 split: entity_type.split option.split)
  show ?thesis
    using DestroyEntity_refines(1) [OF i assms(2,3)] assms(4) sel
    by (intro exI [of _ "destroy_spec a w"])
      (auto simp: destroy_spec_def emit_event_def unlist_entity_def free_ent_def ent_def)
qed

definition self_parent_world :: world where
  "self_parent_world = (put_ent 0 ((SpaceEntity_make Offline ObjectE 1 ''a'' a_transform LOCAL_CLIENT_ID (Some 1) False False)
      \<lparr>e_Parent := Some 0, e_ChildEntities := [0]\<rparr>) one_entity)\<lparr>RootHierarchyEntities := []\<rparr>"

lemmas world_eval = put_ent_def ent_def modify_ent_def set_patcher_def emit_event_def update_event_def
  ResolveEntityHierarchy_def EntityIsInRootHierarchy_def ResolveParentChildRelationship_def FindSpaceEntityById_def
  remove_child_def AddChildEntity_def SetParent_def SpaceEntity_make_def SpaceEntity_new_def UNIT_TRANSFORM_def
  a_transform_def new_world_def

lemma set_self_parent: "run_op (OpSetParentId 0 1) one_entity = Some self_parent_world"
  by (simp add: SetParentId_def SetParentIdDirect_def one_entity_def self_parent_world_def world_eval)

text \<open>
  The hierarchy accepts an entity as its own parent, and destroying such an entity puts the freed
  pointer into the list of root entities: the entity is moved to the root as one of its own
  children after it has been taken out of the root list.
\<close>

theorem self_parent_leaves_dangling_root:
  "\<exists>w w'. offline_reachable [] w \<and> run_op (OpSetParentId 0 1) one_entity = Some w \<and> kids w 0 = [0]
     \<and> DestroyEntity 0 w = Some w' \<and> RootHierarchyEntities w' = [0] \<and> ent w' 0 = None"
proof (intro exI conjI)
  show "offline_reachable [] self_parent_world"
    using offline_reachable.step [OF one_entity_reachable, of "OpSetParentId 0 1"] set_self_parent by simp
  show "run_op (OpSetParentId 0 1) one_entity = Some self_parent_world" by (rule set_self_parent)
  show "kids self_parent_world 0 = [0]" by (simp add: self_parent_world_def obj_def ent_def put_ent_def)
  have "\<exists>w'. DestroyEntity 0 self_parent_world = Some w' \<and> RootHierarchyEntities w' = [0] \<and> ent w' 0 = None"
    by (simp add: DestroyEntity_def self_parent_world_def one_entity_def LocalProcessChildUpdates_def RemoveParentId_def
        RemoveParentChildRelationshipsFromEntity_def free_ent_def world_eval)
  then show "DestroyEntity 0 self_parent_world = Some (the (DestroyEntity 0 self_parent_world))"
    "RootHierarchyEntities (the (DestroyEntity 0 self_parent_world)) = [0]"
    "ent (the (DestroyEntity 0 self_parent_world)) 0 = None"
    by auto
qed


lemma select_one_entity: "\<exists>w. run_op (OpSelect 0) one_entity = Some w \<and> Entities w = [0] \<and> kids w 0 = [] \<and> SelectedEntities w = [0]"
  by (simp add: Select_def InternalSetSelectionStateOfEntity_def one_entity_def world_eval IsSelected_def
      set_pending_selection_def AddEntityToSelectedEntities_def EntitySetPropertyDirect_def prop_set_def key_defs
      rv_getters rv_get_def rv_constructors obj_def MakeStatePatcher_def)

lemma destroy_leaves_dangling_selection_witness:
  "\<exists>w w'. run_op (OpSelect 0) one_entity = Some w \<and> DestroyEntity 0 w = Some w'
     \<and> 0 \<in> set (SelectedEntities w') \<and> ent w' 0 = None"
proof -
  obtain w where w: "run_op (OpSelect 0) one_entity = Some w" "Entities w = [0]" "kids w 0 = []" "SelectedEntities w = [0]"
    using select_one_entity by blast
  have "offline_reachable [] w"
    by (rule offline_reachable.step [OF one_entity_reachable _ w(1)]) simp
  from destroy_leaves_dangling_selection [OF this, of 0] w show ?thesis by auto
qed

section \<open>Loading a scene\<close>

lemma AddEntities_adds:
  assumes "set as \<subseteq> dom (w_Ents w)" "set (Entities w) \<subseteq> dom (w_Ents w)" "inj_on (\<lambda>a. e_Id (obj w a)) (set (Entities w))"
    "distinct (Entities w)"
  shows "\<exists>w'. AddEntities as w = Some w' \<and> w_Ents w' = w_Ents w \<and> w_Kind w' = w_Kind w
    \<and> RootHierarchyEntities w' = RootHierarchyEntities w \<and> PendingAdds w' = PendingAdds w \<and> distinct (Entities w')
    \<and> set (Entities w) \<subseteq> set (Entities w') \<and> set (Entities w') \<subseteq> set (Entities w) \<union> set as
    \<and> inj_on (\<lambda>a. e_Id (obj w a)) (set (Entities w'))
    \<and> (\<forall>a \<in> set as. \<exists>b \<in> set (Entities w'). e_Id (obj w b) = e_Id (obj w a))"
  using assms
proof (induction as arbitrary: w)
  case (Cons a as)
  let ?f = "find (\<lambda>b. e_Id (obj w b) = e_Id (obj w a)) (Entities w)"
  have found: "FindSpaceEntityById (e_Id (obj w a)) w = Some ?f"
    using Cons.prems(2) by (simp add: FindSpaceEntityById_def find_entity_live)
  define w1 where "w1 = (if ?f = None then
        (case e_Type (obj w a) of
             AvatarE \<Rightarrow> w\<lparr>Entities := Entities w @ [a], Avatars := Avatars w @ [a]\<rparr>
           | ObjectE \<Rightarrow> w\<lparr>Entities := Entities w @ [a], Objects := Objects w @ [a]\<rparr>
           | UnknownE _ \<Rightarrow> w\<lparr>Entities := Entities w @ [a]\<rparr>) else w)"
  have step: "AddEntity a w = Some w1"
    using Cons.prems(1) found by (auto simp: AddEntity_def ent_Some w1_def Let_def split: entity_type.split)
  have f: "w_Ents w1 = w_Ents w" "w_Kind w1 = w_Kind w" "RootHierarchyEntities w1 = RootHierarchyEntities w"
    "PendingAdds w1 = PendingAdds w" "Entities w1 = (if ?f = None then Entities w @ [a] else Entities w)"
    by (simp_all add: w1_def split: entity_type.split)
  have o: "obj w1 = obj w" by (rule ext) (simp add: obj_def ent_def f)
  have new: "?f = None \<Longrightarrow> \<forall>b \<in> set (Entities w). e_Id (obj w b) \<noteq> e_Id (obj w a)" by (auto simp: find_None_iff)
  then have "?f = None \<Longrightarrow> a \<notin> set (Entities w)" by blast
  then have d: "distinct (Entities w1)" using Cons.prems(4) by (simp add: f)
  have "inj_on (\<lambda>b. e_Id (obj w b)) (insert a (set (Entities w)))" if "?f = None"
    using new [OF that] Cons.prems(3) unfolding inj_on_def by (metis insertE)
  then have j: "inj_on (\<lambda>b. e_Id (obj w1 b)) (set (Entities w1))" using Cons.prems(3) by (simp add: f o)
  have here: "\<exists>b \<in> set (Entities w1). e_Id (obj w b) = e_Id (obj w a)"
  proof (cases "?f = None")
    case False
    then obtain b where "?f = Some b" by blast
    then have "b \<in> set (Entities w)" "e_Id (obj w b) = e_Id (obj w a)" by (auto simp: find_Some_iff)
    then show ?thesis by (auto simp: f)
  qed (simp add: f)
  have sub: "set (Entities w) \<subseteq> set (Entities w1)" "set (Entities w1) \<subseteq> insert a (set (Entities w))"
    by (auto simp: f)
  have "set as \<subseteq> dom (w_Ents w1)" "set (Entities w1) \<subseteq> dom (w_Ents w1)"
    using Cons.prems(1,2) sub(2) by (auto simp: f)
  from Cons.IH [OF this j d] show ?case
    using step f(1-4) here sub by (simp add: o) blast
qed auto

lemma ResolveAll_resolves:
  assumes "hier S D w" "set as \<subseteq> S"
  shows "\<exists>w'. ResolveAll as w = Some w' \<and> hier S (D - set as) w' \<and> links_only w w'
    \<and> (\<forall>b. e_ParentId (obj w' b) = e_ParentId (obj w b))
    \<and> (\<forall>b. e_Parent (obj w' b) = (if b \<in> set as then Option.bind (e_ParentId (obj w b)) (entity_by_id w) else e_Parent (obj w b)))"
  using assms
proof (induction as arbitrary: w D)
  case (Cons a as)
  have a: "a \<in> S" "set as \<subseteq> S" using Cons.prems(2) by auto
  have live: "a \<in> dom (w_Ents w)" using hierD(1) [OF Cons.prems(1)] a(1) by blast
  let ?w = "resolve_spec a w"
  note eq = resolve_spec_eq_set_parent [OF live]
  note s = set_parent_spec_links_of [OF Cons.prems(1) a(1), of "e_ParentId (obj w a)", folded eq]
  have l: "links_only w ?w" by (rule links_only_resolve [OF Cons.prems(1) a(1)])
  have "known ?w = known w"
    by (simp add: known_def links_only_lists [OF l] split: engine_kind.split)
  then have k: "entity_by_id ?w = entity_by_id w"
    by (intro ext entity_by_id_cong) (simp_all add: links_only_fields [OF l])
  obtain w' where w': "ResolveAll as ?w = Some w'" "hier S (D - {a} - set as) w'" "links_only ?w w'"
    "\<forall>b. e_ParentId (obj w' b) = e_ParentId (obj ?w b)"
    "\<forall>b. e_Parent (obj w' b) = (if b \<in> set as then Option.bind (e_ParentId (obj ?w b)) (entity_by_id ?w) else e_Parent (obj ?w b))"
    using Cons.IH [OF hier_resolve_spec [OF Cons.prems(1) a(1)] a(2)] by blast
  have "D - {a} - set as = D - set (a # as)" by auto
  then show ?case
    using w' ResolveEntityHierarchy_refines [OF Cons.prems(1) a(1)] links_only_trans [OF l w'(3)] s(1,3) k
    by (intro exI [of _ w']) auto
qed simp

text \<open>
  C23. Loading a scene builds the hierarchy the scene describes, whatever the order of its entities, a
  child may come before its parent: of entities with the same id the first is kept, and every
  entity kept points to the entity whose id is its parent id, or to none when there is none.
\<close>

theorem scene_loads_in_any_order:
  assumes "set as \<subseteq> dom (w_Ents w)" "\<forall>a \<in> set as. e_Parent (obj w a) = None \<and> e_ChildEntities (obj w a) = []"
    "Entities w = []" "RootHierarchyEntities w = []" "w_Kind w = Offline"
  shows "\<exists>w'. LoadScene as w = Some w' \<and> hier (set (Entities w')) {} w'
    \<and> (\<forall>a \<in> set as. \<exists>b \<in> set (Entities w'). e_Id (obj w b) = e_Id (obj w a))
    \<and> (\<forall>b \<in> set (Entities w'). e_Parent (obj w' b) = Option.bind (e_ParentId (obj w b)) (entity_by_id w'))"
proof -
  obtain w1 where w1: "AddEntities as w = Some w1" "w_Ents w1 = w_Ents w" "w_Kind w1 = Offline"
    "RootHierarchyEntities w1 = []" "distinct (Entities w1)" "set (Entities w1) \<subseteq> set as"
    "inj_on (\<lambda>a. e_Id (obj w a)) (set (Entities w1))"
    "\<forall>a \<in> set as. \<exists>b \<in> set (Entities w1). e_Id (obj w b) = e_Id (obj w a)"
    using AddEntities_adds [OF assms(1)] assms(3-5) by fastforce
  have o: "obj w1 = obj w" by (rule ext) (simp add: obj_def ent_def w1(2))
  have "hier (set (Entities w1)) (set (Entities w1)) w1"
    by (rule hierI; (unfold o)?) (use w1 assms(1,2) in \<open>auto simp: known_def\<close>)
  from ResolveAll_resolves [OF this, of "Entities w1"]
  obtain w' where w': "ResolveAll (Entities w1) w1 = Some w'" "hier (set (Entities w1)) {} w'" "links_only w1 w'"
    "\<forall>b. e_Parent (obj w' b) = (if b \<in> set (Entities w1) then Option.bind (e_ParentId (obj w b)) (entity_by_id w1) else e_Parent (obj w b))"
    by (auto simp: o)
  have "entity_by_id w' = entity_by_id w1"
    by (intro ext entity_by_id_cong)
      (simp_all add: known_def links_only_lists [OF w'(3)] links_only_fields [OF w'(3)] split: engine_kind.split)
  then show ?thesis
    using w1(1,8) w' links_only_lists(1) [OF w'(3)] by (simp add: LoadScene_def)
qed


definition scene_heap :: world where
  "scene_heap = put_ent 0 (SpaceEntity_make Offline ObjectE 2 ''child'' a_transform 0 (Some 1) True True)
     (put_ent 1 (SpaceEntity_make Offline ObjectE 1 ''parent'' a_transform 0 None True True) (new_world Offline []))
     \<lparr>w_NextAddr := 2\<rparr>"

lemma scene_loads_in_any_order_witness:
  "\<exists>w'. LoadScene [0, 1] scene_heap = Some w' \<and> hier (set (Entities w')) {} w'
    \<and> (\<forall>b \<in> set (Entities w'). e_Parent (obj w' b) = Option.bind (e_ParentId (obj scene_heap b)) (entity_by_id w'))"
proof -
  have "set [0, 1] \<subseteq> dom (w_Ents scene_heap)" by (auto simp: scene_heap_def)
  moreover have "\<forall>a \<in> set [0, 1]. e_Parent (obj scene_heap a) = None \<and> e_ChildEntities (obj scene_heap a) = []"
    by (simp add: scene_heap_def obj_def ent_def)
  moreover have "Entities scene_heap = []" "RootHierarchyEntities scene_heap = []" "w_Kind scene_heap = Offline"
    by (simp_all add: scene_heap_def new_world_def)
  ultimately show ?thesis using scene_loads_in_any_order by blast
qed

text \<open>
  The id counter does not look at the ids of a loaded scene: after loading a scene whose only
  entity has id 1, the first entity created also gets id 1. It cannot be found by its id and, its
  id being among the roots already, is not entered as a root although it has no parent.
\<close>

theorem created_id_collides_with_scene:
  "\<exists>w1 w2. LoadScene [1] (scene_heap\<lparr>w_Ents := (w_Ents scene_heap)(0 := None)\<rparr>) = Some w1
     \<and> CreateEntity ''new'' a_transform None w1 = Some w2
     \<and> Entities w2 = [1, 2] \<and> e_Id (obj w2 1) = 1 \<and> e_Id (obj w2 2) = 1
     \<and> FindSpaceEntityById 1 w2 = Some (Some 1)
     \<and> RootHierarchyEntities w2 = [1] \<and> e_ParentId (obj w2 2) = None"
  by (simp add: LoadScene_def AddEntity_def scene_heap_def CreateEntity_def NextId_def PRECISION_53_BITS_def
      alloc_ent_def world_eval obj_def MakeStatePatcher_def)

end
