(* ===== verification/State_Patcher.thy ===== *)
theory State_Patcher
  imports Entity_Hierarchy
begin

text \<open>
  The state patcher of an entity of the online engine
  (\<open>src/Multiplayer/SpaceEntityStatePatcher.cpp\<close>): applying the pending changes to the entity,
  packing them into an object patch or the whole entity into an object message, creating an
  entity from a message and applying a patch to one. An exception that leaves an operation is
  \<open>None\<close>. The entry of an array of updates that was allocated but never written is \<open>None\<close>.
\<close>

unbundle bit_operations_syntax

section \<open>Applying the pending changes\<close>

definition modify_patcher :: "addr \<Rightarrow> (patcher \<Rightarrow> patcher) \<Rightarrow> world \<Rightarrow> world option" where
  "modify_patcher a f w = modify_ent a (\<lambda>e. e\<lparr>e_StatePatcher := map_option f (e_StatePatcher e)\<rparr>) w"

fun apply_dirty_properties ::
  "addr \<Rightarrow> (u16, rep_value) umap \<Rightarrow> nat \<Rightarrow> world \<Rightarrow> (nat \<times> world) option" where
  "apply_dirty_properties a [] UpdateFlags w = Some (UpdateFlags, w)"
| "apply_dirty_properties a (kv # kvs) UpdateFlags w =
     (if fst kv \<in> set replicated_keys then do {
        w1 \<leftarrow> EntitySetPropertyDirect a (fst kv) (snd kv) False w;
        apply_dirty_properties a kvs (UpdateFlags OR prop_flag (fst kv)) w1 }
      else apply_dirty_properties a kvs UpdateFlags w)"

fun apply_dirty_components ::
  "addr \<Rightarrow> (u16, dirty_component) umap \<Rightarrow> nat \<Rightarrow> update_info option list \<Rightarrow> world
   \<Rightarrow> (update_info option list \<times> world) option" where
  "apply_dirty_components a [] Index Updates w = Some (Updates, w)"
| "apply_dirty_components a ((ComponentKey, dc) # dcs) Index Updates w =
     (case dc_UpdateType dc of
        AddT \<Rightarrow> do {
          w1 \<leftarrow> AddComponentDirect a ComponentKey (dc_Component dc) False w;
          c \<leftarrow> comp w1 (dc_Component dc);
          apply_dirty_components a dcs (Suc Index) (Updates[Index := Some (c_Id c, AddT)]) w1 }
      | DeleteT \<Rightarrow> do {
          (_, w1) \<leftarrow> RemoveComponentDirect a ComponentKey False w;
          apply_dirty_components a dcs (Suc Index) (Updates[Index := Some (ComponentKey, DeleteT)]) w1 }
      | UpdateT \<Rightarrow> do {
          c \<leftarrow> comp w (dc_Component dc);
          apply_dirty_components a dcs (Suc Index) (Updates[Index := Some (c_Id c, UpdateT)]) w })"

text \<open>
  The deletions. \<open>Offset\<close> is the number of dirty components at the time of the loop; an index
  outside the array throws.
\<close>

fun apply_deletions ::
  "addr \<Rightarrow> u16 list \<Rightarrow> nat \<Rightarrow> nat \<Rightarrow> nat \<Rightarrow> update_info option list \<Rightarrow> world
   \<Rightarrow> (nat \<times> update_info option list \<times> world) option" where
  "apply_deletions a [] Offset i UpdateFlags Updates w = Some (UpdateFlags, Updates, w)"
| "apply_deletions a (Key # Keys) Offset i UpdateFlags Updates w = do {
     e \<leftarrow> ent w a;
     (case GetComponent e Key of
        None \<Rightarrow> apply_deletions a Keys Offset (Suc i) UpdateFlags Updates w
      | Some ca \<Rightarrow> do {
          _ \<leftarrow> comp w ca;
          (_, w1) \<leftarrow> RemoveComponentDirect a Key False (emit_event (Ev_OnLocalDelete ca) w);
          (if Offset + i < length Updates
           then apply_deletions a Keys Offset (Suc i) (UpdateFlags OR FLAG_COMPONENTS)
                  (Updates[Offset + i := Some (Key, DeleteT)]) w1
           else None) }) }"

definition ApplyLocalPatch :: "addr \<Rightarrow> world \<Rightarrow> ((nat \<times> update_info option list) \<times> world) option" where
  "ApplyLocalPatch a w = do {
     e \<leftarrow> ent w a;
     p \<leftarrow> e_StatePatcher e;
     (f1, w1) \<leftarrow> apply_dirty_properties a (DirtyProperties p) 0 w;
     w2 \<leftarrow> modify_patcher a (\<lambda>p. p\<lparr>DirtyProperties := []\<rparr>) w1;
     let us2 = replicate (length (DirtyComponents p) + length (TransientDeletionComponentIds p)) None;
     (f3, us3, rest, w3) \<leftarrow>
       (if 0 < length (DirtyComponents p) then do {
          (us, w') \<leftarrow> apply_dirty_components a (DirtyComponents p) 0 us2 w2;
          w'' \<leftarrow> modify_patcher a (\<lambda>p. p\<lparr>DirtyComponents := []\<rparr>) w';
          Some (f1 OR FLAG_COMPONENTS, us, 0, w'') }
        else Some (f1, us2, length (DirtyComponents p), w2));
     (f4, w4) \<leftarrow>
       (case NewParentId p of
          Some v \<Rightarrow> do {
            w' \<leftarrow> SetParentIdDirect a v False w3;
            w'' \<leftarrow> modify_patcher a (\<lambda>p. p\<lparr>NewParentId := None\<rparr>) w';
            Some (f3 OR FLAG_PARENT, w'') }
        | None \<Rightarrow> Some (f3, w3));
     (f5, us5, w5) \<leftarrow>
       (if 0 < length (TransientDeletionComponentIds p) then do {
          (f', us', w') \<leftarrow> apply_deletions a (TransientDeletionComponentIds p) rest 0 f4 us3 w4;
          w'' \<leftarrow> modify_patcher a (\<lambda>p. p\<lparr>TransientDeletionComponentIds := []\<rparr>) w';
          Some (f', us', w'') }
        else Some (f4, us3, w4));
     Some ((f5, us5), w5) }"

definition SpaceEntity_ApplyLocalPatch :: "addr \<Rightarrow> bool \<Rightarrow> bool \<Rightarrow> world \<Rightarrow> world option" where
  "SpaceEntity_ApplyLocalPatch a InvokeUpdateCallback AllowSelfMessaging w = do {
     e \<leftarrow> ent w a;
     (if e_StatePatcher e = None then Some w
      else if \<not> AllowSelfMessaging then do {
        ((UpdateFlags, ComponentUpdates), w1) \<leftarrow> ApplyLocalPatch a w;
        Some (if InvokeUpdateCallback then update_event a UpdateFlags ComponentUpdates w1 else w1) }
      else Some w) }"

section \<open>Packing\<close>

fun entity_type_number :: "entity_type \<Rightarrow> u64" where
  "entity_type_number AvatarE = 1"
| "entity_type_number ObjectE = 2"
| "entity_type_number (UnknownE n) = scast n"

text \<open>The enumeration is an \<open>int\<close>: the upper half of the number is lost.\<close>

definition entity_type_of :: "u64 \<Rightarrow> entity_type" where
  "entity_type_of n = (let k = (ucast n :: u32)
     in if k = 1 then AvatarE else if k = 2 then ObjectE else UnknownE k)"

fun pack_components :: "world \<Rightarrow> (u16 \<times> dirty_component) list \<Rightarrow> packer \<Rightarrow> packer option" where
  "pack_components w [] Components = Some Components"
| "pack_components w ((Key, dc) # dcs) Components = do {
     c \<leftarrow> comp w (dc_Component dc);
     pack_components w dcs (PackValue Key (ToItemComponentData_component c) Components) }"

definition CreateObjectMessage :: "addr \<Rightarrow> world \<Rightarrow> ObjectMessage option" where
  "CreateObjectMessage a w = do {
     e \<leftarrow> ent w a;
     p \<leftarrow> e_StatePatcher e;
     Components \<leftarrow> pack_components w (DirtyComponents p)
       (fold (\<lambda>Key. PackValue Key (ToItemComponentData (prop_get Key e))) replicated_keys []);
     Some \<lparr>om_Id = e_Id e, om_Type = entity_type_number (e_Type e), om_IsTransferable = e_IsTransferable e,
       om_IsPersistent = e_IsPersistent e, om_OwnerId = e_OwnerId e, om_ParentId = e_ParentId e,
       om_Components = Some Components\<rparr> }"

definition CreateObjectPatch :: "addr \<Rightarrow> world \<Rightarrow> ObjectPatch option" where
  "CreateObjectPatch a w = do {
     e \<leftarrow> ent w a;
     p \<leftarrow> e_StatePatcher e;
     Components \<leftarrow> pack_components w (DirtyComponents p)
       (fold (\<lambda>kv. PackValue (fst kv) (ToItemComponentData (snd kv))) (DirtyProperties p) []);
     let DeletionComponent = ToItemComponentData_component (new_component CT_Delete);
     Some \<lparr>op_Id = e_Id e, op_OwnerId = e_OwnerId e, op_Destroy = False,
       op_ShouldUpdateParent = (NewParentId p \<noteq> None),
       op_ParentId = (case NewParentId p of Some v \<Rightarrow> v | None \<Rightarrow> e_ParentId e),
       op_Components = Some (fold (\<lambda>Key. PackValue Key DeletionComponent) (TransientDeletionComponentIds p) Components)\<rparr> }"

section \<open>Receiving\<close>

text \<open>
  The dictionary of a component value and the type in it; a missing type is a default value,
  on which \<open>std::get\<close> throws as it does on any other type.
\<close>

fun component_dict :: "icd \<Rightarrow> (u16 \<times> icd) list option" where
  "component_dict (IU16Dict m) = Some m"
| "component_dict _ = None"

definition component_type_in :: "(u16 \<times> icd) list \<Rightarrow> u64 option" where
  "component_type_in m = (case map_of m COMPONENT_KEY_COMPONENTTYPE of Some (IUint t) \<Rightarrow> Some t | _ \<Rightarrow> None)"

definition try_value :: "ser_error + rep_value \<Rightarrow> rep_value option" where
  "try_value r = (case r of Inr v \<Rightarrow> Some v | Inl _ \<Rightarrow> None)"

fun set_from_patch :: "(u16 \<times> icd) list \<Rightarrow> component \<Rightarrow> component option" where
  "set_from_patch [] c = Some c"
| "set_from_patch ((Key, Value) # m) c =
     (if Key = COMPONENT_KEY_COMPONENTTYPE then set_from_patch m c
      else do {
        Property \<leftarrow> try_value (ToReplicatedValue Value);
        set_from_patch m (SetPropertyFromPatch (ucast Key) Property c) })"

text \<open>The same loop of \<open>AddComponentFromItemComponentData\<close>, which calls \<open>OnCreated\<close> for every property.\<close>

fun create_from_data :: "addr \<Rightarrow> (u16 \<times> icd) list \<Rightarrow> world \<Rightarrow> world option" where
  "create_from_data ca [] w = Some w"
| "create_from_data ca ((Key, Value) # m) w =
     (if Key = COMPONENT_KEY_COMPONENTTYPE then create_from_data ca m w
      else do {
        Property \<leftarrow> try_value (ToReplicatedValue Value);
        w1 \<leftarrow> modify_comp ca (\<lambda>c. c\<lparr>c_Properties := omap_upd (ucast Key) Property (c_Properties c)\<rparr>) w;
        create_from_data ca m (emit_event (Ev_OnCreated ca) w1) })"

definition AddComponentFromItemComponentData :: "addr \<Rightarrow> u16 \<Rightarrow> icd \<Rightarrow> world \<Rightarrow> world option" where
  "AddComponentFromItemComponentData a ComponentId ComponentData w = do {
     ComponentDataMap \<leftarrow> component_dict ComponentData;
     TypeId \<leftarrow> component_type_in ComponentDataMap;
     (if TypeId \<noteq> CT_Invalid then
        (case InstantiateComponent (Some (w_Registry w)) ComponentId TypeId of
           None \<Rightarrow> Some w
         | Some c \<Rightarrow> do {
             let (ca, w1) = alloc_comp c w;
             w2 \<leftarrow> create_from_data ca ComponentDataMap w1;
             modify_ent a (\<lambda>e. e\<lparr>e_Components := omap_upd ComponentId ca (e_Components e)\<rparr>) w2 })
      else Some w) }"

definition AddComponentFromItemComponentDataPatch ::
  "addr \<Rightarrow> u16 \<Rightarrow> icd \<Rightarrow> world \<Rightarrow> (update_info \<times> world) option" where
  "AddComponentFromItemComponentDataPatch a ComponentId ComponentData w = do {
     ComponentDataMap \<leftarrow> component_dict ComponentData;
     PatchComponentType \<leftarrow> component_type_in ComponentDataMap;
     e \<leftarrow> ent w a;
     (case map_of (e_Components e) ComponentId of
        None \<Rightarrow>
          (case InstantiateComponent (Some (w_Registry w)) ComponentId PatchComponentType of
             None \<Rightarrow> Some ((ComponentId, AddT), w)
           | Some c \<Rightarrow> do {
               c' \<leftarrow> set_from_patch ComponentDataMap c;
               let (ca, w1) = alloc_comp c' w;
               w2 \<leftarrow> AddComponentDirect a ComponentId ca False w1;
               Some ((ComponentId, AddT), emit_event (Ev_OnCreated ca) w2) })
      | Some ca \<Rightarrow> do {
          c \<leftarrow> comp w ca;
          (if c_Type c \<noteq> PatchComponentType then do {
             (_, w1) \<leftarrow> RemoveComponentDirect a ComponentId False w;
             Some ((ComponentId, DeleteT), w1) }
           else do {
             c' \<leftarrow> set_from_patch ComponentDataMap c;
             Some ((ComponentId, UpdateT), put_comp ca c' w) }) }) }"

fun load_message_components :: "addr \<Rightarrow> (u16, icd) omap \<Rightarrow> world \<Rightarrow> world option" where
  "load_message_components a [] w = Some w"
| "load_message_components a ((Key, Data) # m) w =
     (if Key < COMPONENT_KEY_END_COMPONENTS then do {
        w1 \<leftarrow> AddComponentFromItemComponentData a Key Data w;
        load_message_components a m w1 }
      else if Key \<in> set replicated_keys then do {
        Value \<leftarrow> try_value (ToReplicatedValue Data);
        w1 \<leftarrow> EntitySetPropertyDirect a Key Value False w;
        load_message_components a m w1 }
      else load_message_components a m w)"

definition NewFromObjectMessage :: "ObjectMessage \<Rightarrow> world \<Rightarrow> (addr \<times> world) option" where
  "NewFromObjectMessage Message w =
     (let (a, w1) = alloc_ent (SpaceEntity_make (w_Kind w) (entity_type_of (om_Type Message)) (om_Id Message) []
          UNIT_TRANSFORM (om_OwnerId Message) (om_ParentId Message) (om_IsTransferable Message)
          (om_IsPersistent Message)) w
      in case om_Components Message of
           None \<Rightarrow> Some (a, w1)
         | Some m \<Rightarrow> do { w2 \<leftarrow> load_message_components a m w1; Some (a, w2) })"

fun apply_patch_components ::
  "addr \<Rightarrow> (u16, icd) omap \<Rightarrow> nat \<Rightarrow> nat \<Rightarrow> update_info option list \<Rightarrow> world
   \<Rightarrow> (nat \<times> update_info option list \<times> world) option" where
  "apply_patch_components a [] ComponentIndex UpdateFlags Updates w = Some (UpdateFlags, Updates, w)"
| "apply_patch_components a ((Key, Data) # m) ComponentIndex UpdateFlags Updates w =
     (if Key < COMPONENT_KEY_END_COMPONENTS then do {
        (UpdateInfo, w1) \<leftarrow> AddComponentFromItemComponentDataPatch a Key Data w;
        apply_patch_components a m (Suc ComponentIndex) UpdateFlags (Updates[ComponentIndex := Some UpdateInfo]) w1 }
      else if Key \<in> set replicated_keys then do {
        Value \<leftarrow> try_value (ToReplicatedValue Data);
        w1 \<leftarrow> EntitySetPropertyDirect a Key Value False w;
        apply_patch_components a m ComponentIndex (UpdateFlags OR prop_flag Key) Updates w1 }
      else apply_patch_components a m ComponentIndex UpdateFlags Updates w)"

definition ApplyPatchFromObjectPatch :: "addr \<Rightarrow> ObjectPatch \<Rightarrow> world \<Rightarrow> world option" where
  "ApplyPatchFromObjectPatch a Patch w = do {
     (UpdateFlags, ComponentUpdates, w1) \<leftarrow>
       (case op_Components Patch of
          None \<Rightarrow> Some (0, [], w)
        | Some m \<Rightarrow>
            let ComponentCount = GetRuntimeComponentsCount m
            in apply_patch_components a m 0 (if 0 < ComponentCount then FLAG_COMPONENTS else 0)
                 (replicate ComponentCount None) w);
     w2 \<leftarrow> SetOwnerId a (op_OwnerId Patch) w1;
     w3 \<leftarrow> SetParentIdDirect a (op_ParentId Patch) False w2;
     let Flags = (if op_ShouldUpdateParent Patch then UpdateFlags OR FLAG_PARENT else UpdateFlags);
     Some (if Flags \<noteq> 0 then update_event a Flags ComponentUpdates w3 else w3) }"

end
