(* ===== verification/Online_Engine.thy ===== *)
theory Online_Engine
  imports State_Patcher Offline_Engine
begin

text \<open>
  The online engine (\<open>src/Multiplayer/OnlineRealtimeEngine.cpp\<close>): creating entities and avatars in
  several steps across answers of the service, destroying them, receiving messages and patches,
  queueing the patches of modified entities, and the tick that works the queues off. Every
  continuation of an asynchronous call is a definition of its own, run when the answer arrives;
  messages to the service are events. Scripts, leader election and logging are not modelled.
\<close>

section \<open>Messages to and from the service\<close>

text \<open>The result of reading a message; an exception ends the operation.\<close>

definition try_read :: "(deserializer \<Rightarrow> ser_error + 'a \<times> deserializer) \<Rightarrow> sig_value \<Rightarrow> 'a option" where
  "try_read deser v = (case ReadValue (read_custom deser) (new_deserializer v) of
     Inr (x, _) \<Rightarrow> Some x | Inl _ \<Rightarrow> None)"

definition try_serialize :: "ser_error + sig_value \<Rightarrow> sig_value option" where
  "try_serialize r = (case r of Inr v \<Rightarrow> Some v | Inl _ \<Rightarrow> None)"

text \<open>An id of another type than unsigned fails an assertion.\<close>

definition ParseGenerateObjectIDsResult :: "sig_value \<Rightarrow> u64 option" where
  "ParseGenerateObjectIDsResult Result =
     (case Result of
        SArr (SUint i # _) \<Rightarrow> Some i
      | SArr (_ # _) \<Rightarrow> None
      | _ \<Rightarrow> Some 0)"

definition object_message_params :: "ObjectMessage \<Rightarrow> sig_value option" where
  "object_message_params Message = try_serialize (serialize_root (write_vector ObjectMessage_Serialize) [Message])"

definition request_ids :: "world \<Rightarrow> world" where
  "request_ids w = emit_event (Ev_invoke GENERATE_OBJECT_IDS (SArr [SUint 1])) w"

section \<open>Creating\<close>

definition CreateEntity_request :: "world \<Rightarrow> world" where
  "CreateEntity_request w = request_ids w"

text \<open>The answer with the id: a value, or an exception. The new entity waits for the next answer.\<close>

definition CreateEntity_ids ::
  "string \<Rightarrow> transform \<Rightarrow> u64 option \<Rightarrow> unit + sig_value \<Rightarrow> world \<Rightarrow> (addr option \<times> world) option" where
  "CreateEntity_ids Name SpaceTransform ParentID Answer w =
     (case Answer of
        Inl _ \<Rightarrow> Some (None, emit_event (Ev_created None) w)
      | Inr Result \<Rightarrow> do {
          ID \<leftarrow> ParseGenerateObjectIDsResult Result;
          let (a, w1) = alloc_ent (SpaceEntity_make (w_Kind w) ObjectE ID Name SpaceTransform
                (local_client_id (w_Kind w)) ParentID True True) w;
          Message \<leftarrow> CreateObjectMessage a w1;
          Params \<leftarrow> object_message_params Message;
          Some (Some a, emit_event (Ev_invoke SEND_OBJECT_MESSAGE Params) w1) })"

definition CreateEntity_sent :: "addr \<Rightarrow> bool \<Rightarrow> world \<Rightarrow> world option" where
  "CreateEntity_sent NewObject Except w =
     (if Except then Some (emit_event (Ev_created None) w)
      else do {
        w1 \<leftarrow> ResolveEntityHierarchy NewObject w;
        let w2 = w1\<lparr>Entities := Entities w1 @ [NewObject]\<rparr>;
        let w3 = w2\<lparr>Objects := Objects w2 @ [NewObject]\<rparr>;
        Some (emit_event (Ev_created (Some NewObject)) w3) })"

text \<open>
  An avatar is built twice: once to be sent, and again, with the same id, when it was received.
  Whatever fails on the way, the callback gets no avatar.
\<close>

definition SendNewAvatarObjectMessage :: "string \<Rightarrow> transform \<Rightarrow> avatar_args \<Rightarrow> u64 \<Rightarrow> world \<Rightarrow> world option" where
  "SendNewAvatarObjectMessage Name Transform A NetworkId w = do {
     (a, w1) \<leftarrow> BuildNewAvatar NetworkId Name Transform (local_client_id (w_Kind w)) False False A w;
     Message \<leftarrow> CreateObjectMessage a w1;
     Params \<leftarrow> object_message_params Message;
     Some (free_ent a (emit_event (Ev_invoke SEND_OBJECT_MESSAGE Params) w1)) }"

definition CreateNewLocalAvatar :: "string \<Rightarrow> transform \<Rightarrow> avatar_args \<Rightarrow> u64 \<Rightarrow> world \<Rightarrow> world option" where
  "CreateNewLocalAvatar Name Transform A NetworkId w = do {
     (a, w1) \<leftarrow> BuildNewAvatar NetworkId Name Transform (local_client_id (w_Kind w)) False False A w;
     let w2 = w1\<lparr>Entities := Entities w1 @ [a]\<rparr>;
     let w3 = w2\<lparr>Avatars := Avatars w2 @ [a]\<rparr>;
     w4 \<leftarrow> SpaceEntity_ApplyLocalPatch a False (AllowSelfMessagingFlag (w_Settings w3)) w3;
     Some (emit_event (Ev_created (Some a)) w4) }"

definition CreateAvatar_failed :: "world \<Rightarrow> world" where
  "CreateAvatar_failed w = emit_event (Ev_created None) w"

section \<open>Destroying\<close>

definition RemoveEntity :: "addr \<Rightarrow> world \<Rightarrow> world" where
  "RemoveEntity a w = w\<lparr>PendingRemoves := PendingRemoves w @ [a], PendingOutgoing := remove1 a (PendingOutgoing w)\<rparr>"

definition LocalDestroyEntity :: "addr \<Rightarrow> world \<Rightarrow> world option" where
  "LocalDestroyEntity a w = do {
     e \<leftarrow> ent w a;
     let w1 = (if e_DestroyCallback e then emit_event (Ev_destroy a True) w else w);
     Some (RemoveEntity a w1) }"

definition deletion_patch :: "u64 \<Rightarrow> u64 \<Rightarrow> sig_value" where
  "deletion_patch i ClientId = SArr [SUint i, SUint ClientId, SBool True, SArr [SBool False, SNull], SNull]"

definition child_parent_patch :: "u64 \<Rightarrow> u64 \<Rightarrow> sig_value" where
  "child_parent_patch i ClientId = SArr [SUint i, SUint ClientId, SBool False, SArr [SBool True, SNull], SNull]"

fun child_parent_patches :: "world \<Rightarrow> addr list \<Rightarrow> sig_value list option" where
  "child_parent_patches w [] = Some []"
| "child_parent_patches w (c # cs) = do {
     e \<leftarrow> ent w c;
     vs \<leftarrow> child_parent_patches w cs;
     Some (child_parent_patch (e_Id e) (local_client_id (w_Kind w)) # vs) }"

definition Online_DestroyEntity :: "addr \<Rightarrow> world \<Rightarrow> world option" where
  "Online_DestroyEntity a w = do {
     e \<leftarrow> ent w a;
     ChildPatches \<leftarrow> child_parent_patches w (e_ChildEntities e);
     let ObjectPatches = deletion_patch (e_Id e) (local_client_id (w_Kind w)) # ChildPatches;
     w1 \<leftarrow> local_delete_components (map snd (e_Components e)) w;
     let w2 = w1\<lparr>RootHierarchyEntities := remove1 a (RootHierarchyEntities w1)\<rparr>;
     w3 \<leftarrow> LocalProcessChildUpdates a w2;
     w4 \<leftarrow> LocalDestroyEntity a w3;
     Some (emit_event (Ev_invoke SEND_OBJECT_PATCHES (SArr [SArr ObjectPatches])) w4) }"

definition DestroyEntity_sent :: "bool \<Rightarrow> world \<Rightarrow> world" where
  "DestroyEntity_sent Except w = emit_event (Ev_result (\<not> Except)) w"

section \<open>Receiving\<close>

definition CreateRemotelyRetrievedEntity :: "sig_value \<Rightarrow> world \<Rightarrow> (addr \<times> world) option" where
  "CreateRemotelyRetrievedEntity EntityMessage w = do {
     Message \<leftarrow> try_read ObjectMessage_Deserialize EntityMessage;
     (a, w1) \<leftarrow> NewFromObjectMessage Message w;
     Some (a, w1\<lparr>PendingAdds := PendingAdds w1 @ [a]\<rparr>) }"

definition FireRemoteSpaceEntityCreatedCallback :: "addr \<Rightarrow> world \<Rightarrow> world" where
  "FireRemoteSpaceEntityCreatedCallback a w =
     (if RemoteSpaceEntityCreatedCallback (w_Settings w) then emit_event (Ev_remote_created a) w else w)"

definition first_param :: "sig_value \<Rightarrow> sig_value option" where
  "first_param Params = (case Params of SArr (v # _) \<Rightarrow> Some v | _ \<Rightarrow> None)"

definition OnObjectMessage :: "sig_value \<Rightarrow> world \<Rightarrow> world option" where
  "OnObjectMessage Params w = do {
     EntityMessage \<leftarrow> first_param Params;
     (a, w1) \<leftarrow> CreateRemotelyRetrievedEntity EntityMessage w;
     Some (FireRemoteSpaceEntityCreatedCallback a w1) }"

definition OnObjectPatch :: "sig_value \<Rightarrow> world \<Rightarrow> world option" where
  "OnObjectPatch Params w = do {
     EntityMessage \<leftarrow> first_param Params;
     Some (w\<lparr>PendingIncomingUpdates := PendingIncomingUpdates w @ [EntityMessage]\<rparr>) }"

definition OnRequestToSendObject :: "sig_value \<Rightarrow> world \<Rightarrow> world option" where
  "OnRequestToSendObject Params w = do {
     v \<leftarrow> first_param Params;
     EntityID \<leftarrow> (case v of SUint i \<Rightarrow> Some i | _ \<Rightarrow> None);
     MatchedEntity \<leftarrow> FindSpaceEntityById EntityID w;
     (case MatchedEntity of
        Some a \<Rightarrow> do {
          Message \<leftarrow> CreateObjectMessage a w;
          Params' \<leftarrow> object_message_params Message;
          Some (emit_event (Ev_invoke SEND_OBJECT_MESSAGE Params') w) }
      | None \<Rightarrow> Some (emit_event (Ev_invoke SEND_OBJECT_NOT_FOUND (SArr [SUint EntityID])) w)) }"

text \<open>Applying a patch: a destruction, or a change of every entity with the id.\<close>

fun deselect_owned :: "u64 \<Rightarrow> addr list \<Rightarrow> world \<Rightarrow> world option" where
  "deselect_owned i [] w = Some w"
| "deselect_owned i (b # bs) w = do {
     e \<leftarrow> ent w b;
     w1 \<leftarrow> (if e_SelectedId e = i then do {
              (_, w') \<leftarrow> Deselect b w;
              Some (w'\<lparr>SelectedEntities := remove1 b (SelectedEntities w')\<rparr>) }
            else Some w);
     deselect_owned i bs w1 }"

fun destroy_matching :: "u64 \<Rightarrow> addr list \<Rightarrow> world \<Rightarrow> world option" where
  "destroy_matching i [] w = Some w"
| "destroy_matching i (a # as) w = do {
     e \<leftarrow> ent w a;
     w1 \<leftarrow> (if e_Id e = i then do {
              w' \<leftarrow> (if e_Type e = AvatarE then deselect_owned i (Entities w) w else Some w);
              LocalDestroyEntity a w' }
            else Some w);
     destroy_matching i as w1 }"

fun patch_matching :: "ObjectPatch \<Rightarrow> addr list \<Rightarrow> world \<Rightarrow> world option" where
  "patch_matching Patch [] w = Some w"
| "patch_matching Patch (a # as) w = do {
     e \<leftarrow> ent w a;
     w1 \<leftarrow> (if e_Id e = op_Id Patch then
              (if e_StatePatcher e = None then None else ApplyPatchFromObjectPatch a Patch w)
            else Some w);
     patch_matching Patch as w1 }"

definition ApplyIncomingPatch :: "sig_value \<Rightarrow> world \<Rightarrow> world option" where
  "ApplyIncomingPatch EntityMessage w = do {
     Patch \<leftarrow> try_read ObjectPatch_Deserialize EntityMessage;
     (if op_Destroy Patch then destroy_matching (op_Id Patch) (Entities w) w
      else patch_matching Patch (Entities w) w) }"

section \<open>Queueing and sending patches\<close>

definition QueueEntityUpdate :: "addr \<Rightarrow> world \<Rightarrow> world option" where
  "QueueEntityUpdate a w = do {
     e \<leftarrow> ent w a;
     p \<leftarrow> e_StatePatcher e;
     (if \<not> HasPendingPatch p then Some w
      else do {
        m \<leftarrow> IsModifiable (w_Kind w) e;
        Some (if m \<noteq> Modifiable \<or> a \<in> set (PendingOutgoing w) then w
              else w\<lparr>PendingOutgoing := a # PendingOutgoing w\<rparr>) }) }"

definition due :: "nat \<Rightarrow> settings \<Rightarrow> patcher \<Rightarrow> bool" where
  "due CurrentTime s p \<longleftrightarrow> TimeOfLastPatch p + EntityPatchRate s \<le> CurrentTime \<or> \<not> EntityPatchRateLimitEnabled s"

text \<open>
  The walk over the set: entities whose patch is due are taken out and, when modifiable, listed.
  The clock is read anew for each entity: \<open>Clock a\<close> is what it shows when the walk is at \<open>a\<close>.
\<close>

fun collect_outgoing :: "(addr \<Rightarrow> nat) \<Rightarrow> addr list \<Rightarrow> world \<Rightarrow> (addr list \<times> world) option" where
  "collect_outgoing Clock [] w = Some ([], w)"
| "collect_outgoing Clock (a # as) w = do {
     e \<leftarrow> ent w a;
     p \<leftarrow> e_StatePatcher e;
     (if due (Clock a) (w_Settings w) p then do {
        m \<leftarrow> IsModifiable (w_Kind w) e;
        (if m \<noteq> Modifiable
         then collect_outgoing Clock as (w\<lparr>PendingOutgoing := remove1 a (PendingOutgoing w)\<rparr>)
         else do {
           w1 \<leftarrow> SetOwnerId a (local_client_id (w_Kind w)) w;
           let w2 = (if PatchSentCallback p then emit_event (Ev_patch_sent a True) w1 else w1);
           w3 \<leftarrow> modify_patcher a (SetTimeOfLastPatch (Clock a)) w2;
           (PendingEntities, w4) \<leftarrow> collect_outgoing Clock as (w3\<lparr>PendingOutgoing := remove1 a (PendingOutgoing w3)\<rparr>);
           Some (a # PendingEntities, w4) }) }
      else collect_outgoing Clock as w) }"

fun create_patches :: "addr list \<Rightarrow> world \<Rightarrow> ObjectPatch list option" where
  "create_patches [] w = Some []"
| "create_patches (a # as) w = do {
     m \<leftarrow> CreateObjectPatch a w;
     ms \<leftarrow> create_patches as w;
     Some (m # ms) }"

definition SendPatches :: "addr list \<Rightarrow> world \<Rightarrow> world option" where
  "SendPatches PendingEntities w = do {
     Patches \<leftarrow> create_patches PendingEntities w;
     Params \<leftarrow> try_serialize (rbind (write_vector ObjectPatch_Serialize Patches (StartWriteArray []))
       (\<lambda>st. rbind (EndWriteArray st) Serializer_Get));
     Some (emit_event (Ev_invoke SEND_OBJECT_PATCHES Params) w) }"

fun apply_local_patches :: "addr list \<Rightarrow> world \<Rightarrow> world option" where
  "apply_local_patches [] w = Some w"
| "apply_local_patches (a # as) w = do {
     w1 \<leftarrow> SpaceEntity_ApplyLocalPatch a True (AllowSelfMessagingFlag (w_Settings w)) w;
     apply_local_patches as w1 }"

section \<open>The tick\<close>

definition AddPendingEntity :: "addr \<Rightarrow> world \<Rightarrow> world option" where
  "AddPendingEntity a w = do {
     e \<leftarrow> ent w a;
     found \<leftarrow> FindSpaceEntityById (e_Id e) w;
     (if found = None then
        let w1 = w\<lparr>Entities := Entities w @ [a]\<rparr>
        in Some (case e_Type e of
             AvatarE \<Rightarrow> w1\<lparr>Avatars := Avatars w1 @ [a]\<rparr>
           | ObjectE \<Rightarrow> w1\<lparr>Objects := Objects w1 @ [a]\<rparr>
           | UnknownE _ \<Rightarrow> w1)
      else Some w) }"

definition RemovePendingEntity :: "addr \<Rightarrow> world \<Rightarrow> world option" where
  "RemovePendingEntity a w = do {
     e \<leftarrow> ent w a;
     (if a \<notin> set (Entities w) then None
      else do {
        w1 \<leftarrow> (case e_Type e of
           AvatarE \<Rightarrow> if a \<in> set (Avatars w) then Some (w\<lparr>Avatars := remove1 a (Avatars w)\<rparr>) else None
         | ObjectE \<Rightarrow> if a \<in> set (Objects w) then Some (w\<lparr>Objects := remove1 a (Objects w)\<rparr>) else None
         | UnknownE _ \<Rightarrow> None);
        let w2 = w1\<lparr>RootHierarchyEntities := remove1 a (RootHierarchyEntities w1)\<rparr>;
        w3 \<leftarrow> RemoveParentChildRelationshipsFromEntity a w2;
        let w4 = w3\<lparr>Entities := remove1 a (Entities w3)\<rparr>;
        Some (free_ent a w4) }) }"

text \<open>The loops over the queues; an address occurs in a step only once.\<close>

fun process_adds :: "addr list \<Rightarrow> addr list \<Rightarrow> world \<Rightarrow> world option" where
  "process_adds AddedEntities [] w = Some w"
| "process_adds AddedEntities (a # as) w = do {
     w1 \<leftarrow> (if a \<notin> set AddedEntities then do { w' \<leftarrow> AddPendingEntity a w; ResolveEntityHierarchy a w' } else Some w);
     process_adds (a # AddedEntities) as (w1\<lparr>PendingAdds := as\<rparr>) }"

fun process_incoming :: "sig_value list \<Rightarrow> world \<Rightarrow> world option" where
  "process_incoming [] w = Some w"
| "process_incoming (v # vs) w = do {
     w1 \<leftarrow> ApplyIncomingPatch v w;
     process_incoming vs (w1\<lparr>PendingIncomingUpdates := vs\<rparr>) }"

definition process_outgoing :: "(addr \<Rightarrow> nat) \<Rightarrow> world \<Rightarrow> world option" where
  "process_outgoing Clock w = do {
     (PendingEntities, w1) \<leftarrow> collect_outgoing Clock (PendingOutgoing w) w;
     (if length PendingEntities \<noteq> 0 then do {
        w2 \<leftarrow> SendPatches PendingEntities w1;
        apply_local_patches PendingEntities w2 }
      else Some w1) }"

fun process_removes :: "addr list \<Rightarrow> addr list \<Rightarrow> world \<Rightarrow> world option" where
  "process_removes RemovedEntities [] w = Some w"
| "process_removes RemovedEntities (a # as) w = do {
     w1 \<leftarrow> (if a \<notin> set RemovedEntities then RemovePendingEntity a w else Some w);
     process_removes (a # RemovedEntities) as (w1\<lparr>PendingRemoves := as\<rparr>) }"

definition ProcessPendingEntityOperations :: "(addr \<Rightarrow> nat) \<Rightarrow> world \<Rightarrow> world option" where
  "ProcessPendingEntityOperations Clock w = do {
     w1 \<leftarrow> process_adds [] (PendingAdds w) w;
     w2 \<leftarrow> process_incoming (PendingIncomingUpdates w1) w1;
     w3 \<leftarrow> process_outgoing Clock w2;
     process_removes [] (PendingRemoves w3) w3 }"

section \<open>Fetching all entities, leaving the space\<close>

definition ENTITY_PAGE_LIMIT :: u64 where "ENTITY_PAGE_LIMIT = 100"

definition GetEntitiesPaged :: "u64 \<Rightarrow> u64 \<Rightarrow> world \<Rightarrow> world" where
  "GetEntitiesPaged Offset Limit w =
     emit_event (Ev_invoke PAGE_SCOPED_OBJECTS (SArr [SBool True, SBool True, SUint Offset, SUint Limit])) w"

definition RetrieveAllEntities :: "world \<Rightarrow> world" where
  "RetrieveAllEntities w = GetEntitiesPaged 0 ENTITY_PAGE_LIMIT w"

fun retrieve_items :: "sig_value list \<Rightarrow> world \<Rightarrow> world option" where
  "retrieve_items [] w = Some w"
| "retrieve_items (v # vs) w = do {
     (a, w1) \<leftarrow> CreateRemotelyRetrievedEntity v w;
     retrieve_items vs (FireRemoteSpaceEntityCreatedCallback a w1) }"

text \<open>
  The answer with a page. The count of entities is an \<open>int\<close>, compared and passed on after a
  conversion to 64 bits.
\<close>

definition RetrieveAllEntities_page :: "(addr \<Rightarrow> nat) \<Rightarrow> u32 \<Rightarrow> sig_value \<Rightarrow> world \<Rightarrow> world option" where
  "RetrieveAllEntities_page Clock Offset Result w =
     (case Result of
        SArr (SArr Items # SUint ItemTotalCount # _) \<Rightarrow> do {
          w1 \<leftarrow> retrieve_items Items w;
          let CurrentEntityCount = Offset + of_nat (length Items);
          (if (scast CurrentEntityCount :: u64) < ItemTotalCount
           then Some (GetEntitiesPaged (scast CurrentEntityCount) ENTITY_PAGE_LIMIT w1)
           else do {
             w2 \<leftarrow> ProcessPendingEntityOperations Clock w1;
             Some (emit_event (Ev_fetch_complete (scast CurrentEntityCount)) w2) }) }
      | _ \<Rightarrow> None)"

fun destroy_all :: "addr list \<Rightarrow> world \<Rightarrow> world option" where
  "destroy_all [] w = Some w"
| "destroy_all (a # as) w = do {
     e \<leftarrow> ent w a;
     w1 \<leftarrow> (if \<not> e_IsPersistent e \<and> e_OwnerId e = local_client_id (w_Kind w)
            then Online_DestroyEntity a w else LocalDestroyEntity a w);
     destroy_all as (free_ent a w1) }"

definition LocalDestroyAllEntities :: "world \<Rightarrow> world option" where
  "LocalDestroyAllEntities w = do {
     w1 \<leftarrow> destroy_all (Entities w) w;
     Some (w1\<lparr>Entities := [], Objects := [], Avatars := [], RootHierarchyEntities := [],
       PendingAdds := [], PendingRemoves := [], PendingIncomingUpdates := []\<rparr>) }"

end
