(* ===== verification/Patch_Changes.thy ===== *)
theory Patch_Changes
  imports State_Patcher Entity_Frame
begin

text \<open>
  Property and parent changes on their way from a setter to the replicas: what applying the
  pending changes does, that sending them does the same at a replica, and that an entity sent as
  an object message is recreated with every property.
\<close>

unbundle bit_operations_syntax

section \<open>Reading the heap\<close>

lemma obj_put_comp [simp]: "obj (put_comp ca c w) = obj w" "w_Ents (put_comp ca c w) = w_Ents w"
  "w_Events (put_comp ca c w) = w_Events w"
  by (rule ext, simp add: obj_def ent_def put_comp_def) (simp_all add: put_comp_def)

lemma heap_simps [simp]:
  "obj (emit_event ev w) = obj w" "obj (w\<lparr>w_NextAddr := x\<rparr>) = obj w" "comp (emit_event ev w) = comp w"
  "comp (w\<lparr>w_NextAddr := x\<rparr>) = comp w" "comp (upd_ent a f w) = comp w" "comp (put_ent a e w) = comp w"
  "w_Events (emit_event ev w) = w_Events w @ [ev]" "w_Ents (emit_event ev w) = w_Ents w"
  by (simp_all add: fun_eq_iff obj_def ent_def comp_def emit_event_def)

lemma comp_put_comp [simp]: "comp (put_comp ca c w) cb = (if cb = ca then Some c else comp w cb)"
  by (simp add: comp_def put_comp_def)

section \<open>Applying a list of property changes\<close>

text \<open>The value a property has after it was set, \<open>None\<close> when setting throws.\<close>

definition set_value :: "u16 \<Rightarrow> rep_value \<Rightarrow> rep_value option" where
  "set_value Key v = (case prop_set Key v (SpaceEntity_new Offline) of
     Inl _ \<Rightarrow> None | Inr e \<Rightarrow> Some (prop_get Key e))"

definition strip_props :: "entity \<Rightarrow> entity" where
  "strip_props e = e\<lparr>e_Name := [], e_Position := (0, 0, 0), e_Rotation := (0, 0, 0, 0), e_Scale := (0, 0, 0),
     e_SelectedId := 0, e_ThirdPartyRef := [], e_Lock := 0\<rparr>"

lemma replicated_keysE:
  assumes "k \<in> set replicated_keys"
  obtains "k = KEY_NAME" | "k = KEY_POSITION" | "k = KEY_ROTATION" | "k = KEY_SCALE"
    | "k = KEY_SELECTED_CLIENT_ID" | "k = KEY_THIRD_PARTY_REF" | "k = KEY_LOCK_TYPE"
  using assms by (auto simp: replicated_keys_def)

lemma prop_set_defined: "(\<exists>e'. prop_set k v e = Inr e') \<longleftrightarrow> set_value k v \<noteq> None"
  unfolding set_value_def prop_set_def
  by (cases "GetString v"; cases "GetVector3 v"; cases "GetVector4 v"; cases "GetInt v"; simp)

lemma prop_set_effect:
  assumes "prop_set k v e = Inr e'" "k \<in> set replicated_keys" "k' \<in> set replicated_keys"
  shows "prop_get k' e' = (if k' = k then the (set_value k v) else prop_get k' e)"
  using assms(2)
  by (cases rule: replicated_keysE)
    (use assms(1,3) in \<open>auto simp: prop_set_def prop_get_def set_value_def key_defs rbind_Inr_iff replicated_keys_def\<close>)

lemma prop_set_strip: "prop_set k v e = Inr e' \<Longrightarrow> strip_props e' = strip_props e"
  by (auto simp: prop_set_def strip_props_def rbind_Inr_iff split: if_splits)


lemma prop_set_live:
  assumes "set_value k v \<noteq> None"
  obtains e' where "prop_set k v e = Inr e'"
  using assms prop_set_defined [of k v e] by blast

definition valid_changes :: "(u16 \<times> rep_value) list \<Rightarrow> bool" where
  "valid_changes kvs \<longleftrightarrow> distinct (map fst kvs)
     \<and> (\<forall>(k, v) \<in> set kvs. k \<in> set replicated_keys \<and> rv_valid v \<and> set_value k v \<noteq> None)"

text \<open>The value of a property after a list of changes.\<close>

definition changed_value :: "(u16 \<times> rep_value) list \<Rightarrow> u16 \<Rightarrow> entity \<Rightarrow> rep_value" where
  "changed_value kvs k e = (case map_of kvs k of None \<Rightarrow> prop_get k e | Some v \<Rightarrow> the (set_value k v))"

abbreviation change_flags :: "(u16 \<times> rep_value) list \<Rightarrow> nat \<Rightarrow> nat" where
  "change_flags kvs f \<equiv> fold (\<lambda>kv f. f OR prop_flag (fst kv)) kvs f"

lemma put_ent_triv: "a \<in> dom (w_Ents w) \<Longrightarrow> put_ent a (obj w a) w = w"
  using upd_ent_triv [of a w id] by (simp add: upd_ent_def)

lemma valid_changes_Cons [simp]:
  "valid_changes ((k, v) # kvs) \<longleftrightarrow> k \<notin> fst ` set kvs \<and> k \<in> set replicated_keys \<and> rv_valid v
     \<and> set_value k v \<noteq> None \<and> valid_changes kvs"
  by (auto simp: valid_changes_def)

lemma apply_dirty_properties_runs:
  "valid_changes kvs \<Longrightarrow> a \<in> dom (w_Ents w) \<Longrightarrow>
   \<exists>e. apply_dirty_properties a kvs f w = Some (change_flags kvs f, put_ent a e w)
     \<and> strip_props e = strip_props (obj w a)
     \<and> (\<forall>k \<in> set replicated_keys. prop_get k e = changed_value kvs k (obj w a))"
proof (induction kvs arbitrary: f w)
  case Nil
  then show ?case
    by (intro exI [of _ "obj w a"]) (simp add: put_ent_triv changed_value_def)
next
  case (Cons kv kvs)
  obtain k v where kv: "kv = (k, v)" by (cases kv)
  with Cons.prems have k: "k \<in> set replicated_keys" "set_value k v \<noteq> None" "k \<notin> fst ` set kvs" "valid_changes kvs"
    by auto
  obtain e1 where e1: "prop_set k v (obj w a) = Inr e1" using k(2) by (rule prop_set_live)
  let ?w1 = "put_ent a e1 w"
  have step: "EntitySetPropertyDirect a k v False w = Some ?w1"
    using Cons.prems(2) e1 by (simp add: EntitySetPropertyDirect_def ent_Some)
  have "a \<in> dom (w_Ents ?w1)" by simp
  from Cons.IH [OF k(4) this, of "f OR prop_flag k"]
  obtain e where e: "apply_dirty_properties a kvs (f OR prop_flag k) ?w1 = Some (change_flags kvs (f OR prop_flag k), put_ent a e ?w1)"
      "strip_props e = strip_props e1" "\<forall>j \<in> set replicated_keys. prop_get j e = changed_value kvs j e1"
    by auto
  have new: "map_of kvs k = None" using k(3) by (simp add: map_of_eq_None_iff)
  have "prop_get j e = changed_value ((k, v) # kvs) j (obj w a)" if j: "j \<in> set replicated_keys" for j
    using e(3) j prop_set_effect [OF e1 k(1) j] new by (cases "j = k") (simp_all add: changed_value_def split: option.split)
  then show ?case
    using step e(1,2) k(1) prop_set_strip [OF e1]
    by (intro exI [of _ e]) (simp add: kv put_ent_twice)
qed

text \<open>The flags of two lists with the same keys are the same.\<close>

lemma bit_change_flags: "bit (change_flags kvs f) n \<longleftrightarrow> bit f n \<or> (\<exists>k \<in> fst ` set kvs. bit (prop_flag k) n)"
  by (induction kvs arbitrary: f) (auto simp: bit_or_iff)

lemma change_flags_cong: "fst ` set kvs = fst ` set kvs' \<Longrightarrow> change_flags kvs f = change_flags kvs' f"
  by (rule bit_eqI) (simp add: bit_change_flags)


section \<open>A patch of properties\<close>

lemma fold_omap_upd:
  "distinct (map fst kvs) \<Longrightarrow> map_of (fold (\<lambda>kv. omap_upd (fst kv) (f (snd kv))) kvs m) k
     = (case map_of kvs k of Some v \<Rightarrow> Some (f v) | None \<Rightarrow> map_of m k)"
proof (induction kvs arbitrary: m)
  case (Cons kv kvs)
  then have "map_of kvs (fst kv) = None" by (simp add: map_of_eq_None_iff)
  with Cons show ?case by (cases kv) (simp split: option.split)
qed simp

lemma omap_ok_fold_omap_upd: "omap_ok m \<Longrightarrow> omap_ok (fold (\<lambda>kv. omap_upd (fst kv) (f (snd kv))) kvs m)"
  by (induction kvs arbitrary: m) simp_all

text \<open>The packed changes in the order the receiver sees them.\<close>

definition packed_changes :: "(u16 \<times> rep_value) list \<Rightarrow> (u16 \<times> rep_value) list" where
  "packed_changes kvs = fold (\<lambda>kv. omap_upd (fst kv) (snd kv)) kvs []"

lemma omap_upd_map: "omap_upd k (f v) (map (\<lambda>kv. (fst kv, f (snd kv))) m) = map (\<lambda>kv. (fst kv, f (snd kv))) (omap_upd k v m)"
  by (induction k v m rule: omap_upd.induct) auto

lemma fold_PackValue_map:
  "fold (\<lambda>kv. PackValue (fst kv) (f (snd kv))) kvs (map (\<lambda>kv. (fst kv, f (snd kv))) m)
     = map (\<lambda>kv. (fst kv, f (snd kv))) (fold (\<lambda>kv. omap_upd (fst kv) (snd kv)) kvs m)"
  by (induction kvs arbitrary: m) (simp_all add: PackValue_def omap_upd_map)

lemma packed_changes:
  assumes "valid_changes kvs"
  shows "map_of (packed_changes kvs) = map_of kvs" "valid_changes (packed_changes kvs)" "omap_ok (packed_changes kvs)"
    "fst ` set (packed_changes kvs) = fst ` set kvs"
proof -
  have d: "distinct (map fst kvs)" using assms by (simp add: valid_changes_def)
  have m: "map_of (fold (\<lambda>kv. omap_upd (fst kv) (snd kv)) kvs acc) k
      = (case map_of kvs k of Some v \<Rightarrow> Some v | None \<Rightarrow> map_of acc k)" for acc k
    using fold_omap_upd [OF d, of "\<lambda>x. x" acc k] by simp
  show m0: "map_of (packed_changes kvs) = map_of kvs"
    by (rule ext) (simp add: packed_changes_def m split: option.split)
  show ok: "omap_ok (packed_changes kvs)"
    using omap_ok_fold_omap_upd [of "[]" "\<lambda>x. x" kvs] by (simp add: packed_changes_def)
  show "fst ` set (packed_changes kvs) = fst ` set kvs"
    using m0 by (metis dom_map_of_conv_image_fst)
  have "set (packed_changes kvs) = set kvs"
    using m0 d omap_ok_distinct [OF ok] by (metis map_of_eqI map_of_inject_set)
  then show "valid_changes (packed_changes kvs)"
    using assms omap_ok_distinct [OF ok] by (simp add: valid_changes_def)
qed

lemma replicated_not_component: "k \<in> set replicated_keys \<Longrightarrow> \<not> k < COMPONENT_KEY_END_COMPONENTS"
  by (elim replicated_keysE) (simp_all add: key_defs)

abbreviation pack_changes :: "(u16 \<times> rep_value) list \<Rightarrow> (u16 \<times> icd) list" where
  "pack_changes kvs \<equiv> map (\<lambda>kv. (fst kv, ToItemComponentData (snd kv))) kvs"

lemma apply_patch_of_changes:
  "valid_changes kvs \<Longrightarrow> apply_patch_components a (pack_changes kvs) i f us w =
     map_option (\<lambda>(f, w). (f, us, w)) (apply_dirty_properties a kvs f w)"
proof (induction kvs arbitrary: f w)
  case (Cons kv kvs)
  obtain k v where kv: "kv = (k, v)" by (cases kv)
  with Cons.prems have k: "k \<in> set replicated_keys" "rv_valid v" "valid_changes kvs" by auto
  have "try_value (ToReplicatedValue (ToItemComponentData v)) = Some v"
    using rv_roundtrip_valid(1) [OF k(2)] by (simp add: try_value_def)
  then show ?case
    using k replicated_not_component [OF k(1)] Cons.IH
    by (cases "EntitySetPropertyDirect a k v False w") (simp_all add: kv)
qed simp

lemma no_runtime_components: "valid_changes kvs \<Longrightarrow> GetRuntimeComponentsCount (pack_changes kvs) = 0"
  by (auto simp: GetRuntimeComponentsCount_def valid_changes_def filter_empty_conv dest!: replicated_not_component)


subsection \<open>What the entity looks like afterwards\<close>

lemma strip_propsD:
  assumes "strip_props e' = strip_props e"
  shows "shape e' = shape e" "e_Components e' = e_Components e" "e_UpdateCallback e' = e_UpdateCallback e"
    "e_StatePatcher e' = e_StatePatcher e" "e_OwnerId e' = e_OwnerId e" "e_Id e' = e_Id e" "e_ParentId e' = e_ParentId e"
proof -
  have f: "shape (strip_props x) = shape x" "e_Components (strip_props x) = e_Components x"
    "e_UpdateCallback (strip_props x) = e_UpdateCallback x" "e_StatePatcher (strip_props x) = e_StatePatcher x"
    "e_OwnerId (strip_props x) = e_OwnerId x" "e_Id (strip_props x) = e_Id x" "e_ParentId (strip_props x) = e_ParentId x" for x
    by (simp_all add: strip_props_def shape_def)
  show "shape e' = shape e" "e_Components e' = e_Components e" "e_UpdateCallback e' = e_UpdateCallback e"
    "e_StatePatcher e' = e_StatePatcher e" "e_OwnerId e' = e_OwnerId e" "e_Id e' = e_Id e" "e_ParentId e' = e_ParentId e"
    using f [of e] f [of e'] assms by metis+
qed

lemma prop_get_cong:
  "strip_links e' = strip_links e \<Longrightarrow> prop_get k e' = prop_get k e"
proof -
  have "prop_get k (strip_links x) = prop_get k x" for x by (simp add: prop_get_def strip_links_def)
  then show "strip_links e' = strip_links e \<Longrightarrow> prop_get k e' = prop_get k e" by metis
qed

lemma prop_get_patcher [simp]: "prop_get k (e\<lparr>e_StatePatcher := p\<rparr>) = prop_get k e"
  "prop_get k (e\<lparr>e_OwnerId := i\<rparr>) = prop_get k e"
  by (simp_all add: prop_get_def)

lemma modify_patcher_live:
  "a \<in> dom (w_Ents w) \<Longrightarrow> modify_patcher a f w = Some (upd_ent a (\<lambda>e. e\<lparr>e_StatePatcher := map_option f (e_StatePatcher e)\<rparr>) w)"
  by (simp add: modify_patcher_def modify_ent_live)

lemma hier_put_ent:
  assumes "hier S D w" "a \<in> S" "shape e = shape (obj w a)"
  shows "hier S D (put_ent a e w)"
proof -
  have "a \<in> dom (w_Ents w)" using assms(1,2) hierD(1) by blast
  show ?thesis
    by (rule hier_shape_cong [OF assms(1)]) (auto simp: assms(3) known_def split: engine_kind.split)
qed

text \<open>The parent of an entity, changed or not, when the parent id is set.\<close>

lemma set_parent_effect:
  fixes v :: "u64 option"
  assumes "hier S {} w" "a \<in> S"
  defines "w' \<equiv> set_parent_spec a v w"
  shows "SetParentIdDirect a v False w = Some w'" "hier S {} w'" "a \<in> dom (w_Ents w')" "e_ParentId (obj w' a) = v"
    "\<And>k. prop_get k (obj w' a) = prop_get k (obj w a)" "e_StatePatcher (obj w' a) = e_StatePatcher (obj w a)"
    "e_Components (obj w' a) = e_Components (obj w a)" "e_OwnerId (obj w' a) = e_OwnerId (obj w a)"
    "w_Comps w' = w_Comps w" "e_UpdateCallback (obj w' a) = e_UpdateCallback (obj w a)" "w_Events w' = w_Events w"
proof -
  note l = set_parent_spec_links [OF assms(1,2), of v, folded w'_def]
  have s: "strip_links (obj w' a) = strip_links (obj w a)" using l by (simp add: links_only_def)
  show "SetParentIdDirect a v False w = Some w'" using SetParentIdDirect_refines [OF assms(1,2)] by (simp add: w'_def)
  show "hier S {} w'" using set_parent_spec_hier [OF assms(1,2)] by (simp add: w'_def)
  show "a \<in> dom (w_Ents w')" using links_only_fields(1) [OF l] hierD(1) [OF assms(1)] assms(2) by blast
  show "e_ParentId (obj w' a) = v" using set_parent_spec_links_of(3) [OF assms(1,2), of v a] by (simp add: w'_def)
  show "prop_get k (obj w' a) = prop_get k (obj w a)" for k by (rule prop_get_cong [OF s])
  show "e_OwnerId (obj w' a) = e_OwnerId (obj w a)" using arg_cong [OF s, of e_OwnerId] by (simp add: strip_links_def)
  show "e_StatePatcher (obj w' a) = e_StatePatcher (obj w a)" "e_Components (obj w' a) = e_Components (obj w a)"
    "e_UpdateCallback (obj w' a) = e_UpdateCallback (obj w a)" "w_Comps w' = w_Comps w"
    using links_only_fields [OF l] links_only_lists [OF l] by simp_all
  show "w_Events w' = w_Events w"
    by (simp add: w'_def set_parent_spec_def resolve_spec_def Let_def set_root_def detach_def attach_def split: option.split)
qed

lemma local_patch_of_changes:
  assumes h: "hier S {} w" and a: "a \<in> S" and p: "e_StatePatcher (obj w a) = Some p"
    and none: "DirtyComponents p = []" "TransientDeletionComponentIds p = []"
    and v: "valid_changes (DirtyProperties p)"
  shows "\<exists>w1 f. ApplyLocalPatch a w = Some ((f, []), w1) \<and> hier S {} w1
    \<and> f = (if NewParentId p = None then change_flags (DirtyProperties p) 0 else change_flags (DirtyProperties p) 0 OR FLAG_PARENT)
    \<and> (\<forall>k \<in> set replicated_keys. prop_get k (obj w1 a) = changed_value (DirtyProperties p) k (obj w a))
    \<and> e_ParentId (obj w1 a) = (case NewParentId p of None \<Rightarrow> e_ParentId (obj w a) | Some v \<Rightarrow> v)
    \<and> e_OwnerId (obj w1 a) = e_OwnerId (obj w a)
    \<and> e_StatePatcher (obj w1 a) = Some (p\<lparr>DirtyProperties := [], NewParentId := None\<rparr>)
    \<and> (\<forall>b. b \<noteq> a \<longrightarrow> strip_links (obj w1 b) = strip_links (obj w b) \<and> e_ParentId (obj w1 b) = e_ParentId (obj w b))
    \<and> world_rest w1 = world_rest w \<and> w_Events w1 = w_Events w"
proof -
  have live: "a \<in> dom (w_Ents w)" using hierD(1) [OF h] a by blast
  obtain e where e: "apply_dirty_properties a (DirtyProperties p) 0 w = Some (change_flags (DirtyProperties p) 0, put_ent a e w)"
      "strip_props e = strip_props (obj w a)"
      "\<forall>k \<in> set replicated_keys. prop_get k e = changed_value (DirtyProperties p) k (obj w a)"
    using apply_dirty_properties_runs [OF v live] by blast
  note s = strip_propsD [OF e(2)]
  let ?w2 = "put_ent a (e\<lparr>e_StatePatcher := Some (p\<lparr>DirtyProperties := []\<rparr>)\<rparr>) w"
  have w2: "modify_patcher a (\<lambda>p. p\<lparr>DirtyProperties := []\<rparr>) (put_ent a e w) = Some ?w2"
    by (simp add: modify_patcher_live upd_ent_def put_ent_twice s p)
  have h2: "hier S {} ?w2" by (rule hier_put_ent [OF h a]) (use s(1) p in \<open>auto simp: shape_def\<close>)
  show ?thesis
  proof (cases "NewParentId p")
    case None
    then show ?thesis
      using p none e(1,3) s w2 h2 live by (intro exI [of _ ?w2]) (simp add: ApplyLocalPatch_def ent_Some)
  next
    case (Some v)
    note P = set_parent_effect [OF h2 a, where v = v]
    let ?w3 = "set_parent_spec a v ?w2"
    have frame: "world_rest ?w3 = world_rest w" "\<forall>b. b \<noteq> a \<longrightarrow> strip_links (obj ?w3 b) = strip_links (obj w b) \<and> e_ParentId (obj ?w3 b) = e_ParentId (obj w b)"
      using set_parent_spec_links [OF h2 a, of v] set_parent_spec_links_of(3) [OF h2 a, of v] by (simp_all add: links_only_def)
    let ?w4 = "upd_ent a (\<lambda>e. e\<lparr>e_StatePatcher := map_option (\<lambda>p. p\<lparr>NewParentId := None\<rparr>) (e_StatePatcher e)\<rparr>) ?w3"
    have "hier S {} ?w4"
      unfolding upd_ent_def by (rule hier_put_ent [OF P(2) a]) (auto simp: shape_def)
    then show ?thesis
      using p none e(1,3) s w2 live Some P frame
      by (intro exI [of _ ?w4]) (simp add: ApplyLocalPatch_def ent_Some modify_patcher_live)
  qed
qed


lemma pack_changes_ok:
  assumes "valid_changes kvs" "omap_ok kvs"
  shows "components_ok (Some (pack_changes kvs))"
proof -
  have "omap_ok (pack_changes kvs)" using omap_ok_map_keys [of kvs id ToItemComponentData] assms(2) by (simp add: strict_mono_def)
  then show ?thesis
    using assms(1) rv_roundtrip_valid(1) by (auto simp: valid_changes_def)
qed

lemma object_patch_of_changes:
  assumes a: "a \<in> dom (w_Ents w)" and p: "e_StatePatcher (obj w a) = Some p"
    and none: "DirtyComponents p = []" "TransientDeletionComponentIds p = []"
  shows "CreateObjectPatch a w = Some \<lparr>op_Id = e_Id (obj w a), op_OwnerId = e_OwnerId (obj w a), op_Destroy = False,
    op_ShouldUpdateParent = (NewParentId p \<noteq> None),
    op_ParentId = (case NewParentId p of None \<Rightarrow> e_ParentId (obj w a) | Some v \<Rightarrow> v),
    op_Components = Some (pack_changes (packed_changes (DirtyProperties p)))\<rparr>"
  using assms fold_PackValue_map [of ToItemComponentData "DirtyProperties p" "[]"]
  by (simp add: CreateObjectPatch_def ent_Some packed_changes_def split: option.split)

lemma apply_patch_of_changes_runs:
  assumes h: "hier S {} w" and a: "a \<in> S" and v: "valid_changes kvs" and m: "op_Components m = Some (pack_changes kvs)"
    and f: "f = (if op_ShouldUpdateParent m then change_flags kvs 0 OR FLAG_PARENT else change_flags kvs 0)"
  shows "\<exists>w1. ApplyPatchFromObjectPatch a m w = Some (if f \<noteq> 0 then update_event a f [] w1 else w1) \<and> hier S {} w1 \<and> w_Events w1 = w_Events w
    \<and> (\<forall>k \<in> set replicated_keys. prop_get k (obj w1 a) = changed_value kvs k (obj w a))
    \<and> e_ParentId (obj w1 a) = op_ParentId m \<and> e_OwnerId (obj w1 a) = op_OwnerId m
    \<and> e_StatePatcher (obj w1 a) = e_StatePatcher (obj w a)
    \<and> e_UpdateCallback (obj w1 a) = e_UpdateCallback (obj w a)"
proof -
  have live: "a \<in> dom (w_Ents w)" using hierD(1) [OF h] a by blast
  obtain e where e: "apply_dirty_properties a kvs 0 w = Some (change_flags kvs 0, put_ent a e w)"
      "strip_props e = strip_props (obj w a)"
      "\<forall>k \<in> set replicated_keys. prop_get k e = changed_value kvs k (obj w a)"
    using apply_dirty_properties_runs [OF v live] by blast
  note s = strip_propsD [OF e(2)]
  let ?w2 = "put_ent a (e\<lparr>e_OwnerId := op_OwnerId m\<rparr>) w"
  have h2: "hier S {} ?w2" by (rule hier_put_ent [OF h a]) (use s(1) in \<open>auto simp: shape_def\<close>)
  note P = set_parent_effect [OF h2 a, where v = "op_ParentId m"]
  have "SetOwnerId a (op_OwnerId m) (put_ent a e w) = Some ?w2"
    by (simp add: SetOwnerId_def modify_ent_live upd_ent_def put_ent_twice)
  then show ?thesis
    using P e(1,3) s apply_patch_of_changes [OF v] no_runtime_components [OF v]
    by (intro exI [of _ "set_parent_spec a (op_ParentId m) ?w2"])
      (simp add: ApplyPatchFromObjectPatch_def m f)
qed

definition patch_over_the_wire :: "ObjectPatch \<Rightarrow> ser_error + ObjectPatch" where
  "patch_over_the_wire m = rbind (serialize_root ObjectPatch_Serialize m) (deserialize_root ObjectPatch_Deserialize)"

lemma update_event_keeps [simp]: "obj (update_event a f us w) = obj w"
  by (rule ext) (simp add: update_event_def emit_event_def obj_def ent_def split: option.split)

text \<open>
  C1. Where only properties, with values of their types, and the parent are pending, applying the
  changes locally and sending them as a patch have the same effect: a replica that agreed with the
  entity before and applies the patch it received agrees with it afterwards in every replicated
  property, the parent id and the owner, and tells its client the flags the local application
  reports. Nothing stays pending. Changes and removals of components are not covered: of those
  the two sides do not always report the same, see \<open>removed_unknown_component_is_reported\<close>.
\<close>

theorem patch_synchronises_replica:
  assumes "hier S {} w" "a \<in> S" "e_StatePatcher (obj w a) = Some p" "DirtyComponents p = []"
    "TransientDeletionComponentIds p = []" "valid_changes (DirtyProperties p)"
    "hier T {} r" "b \<in> T" "\<forall>k \<in> set replicated_keys. prop_get k (obj r b) = prop_get k (obj w a)"
  shows "\<exists>w1 f m m' r1. ApplyLocalPatch a w = Some ((f, []), w1) \<and> CreateObjectPatch a w = Some m
    \<and> patch_over_the_wire m = Inr m' \<and> ApplyPatchFromObjectPatch b m' r = Some r1
    \<and> (\<forall>k \<in> set replicated_keys. prop_get k (obj r1 b) = prop_get k (obj w1 a))
    \<and> e_ParentId (obj r1 b) = e_ParentId (obj w1 a) \<and> e_OwnerId (obj r1 b) = e_OwnerId (obj w1 a)
    \<and> w_Events r1 = w_Events r @ (if e_UpdateCallback (obj r b) \<and> f \<noteq> 0 then [Ev_update b f []] else [])
    \<and> map_option HasPendingPatch (e_StatePatcher (obj w1 a)) = Some False"
proof -
  note ch = packed_changes [OF assms(6)]
  have live: "a \<in> dom (w_Ents w)" using hierD(1) [OF assms(1)] assms(2) by blast
  obtain w1 f where w1: "ApplyLocalPatch a w = Some ((f, []), w1)"
    "f = (if NewParentId p = None then change_flags (DirtyProperties p) 0 else change_flags (DirtyProperties p) 0 OR FLAG_PARENT)"
    "\<forall>k \<in> set replicated_keys. prop_get k (obj w1 a) = changed_value (DirtyProperties p) k (obj w a)"
    "e_ParentId (obj w1 a) = (case NewParentId p of None \<Rightarrow> e_ParentId (obj w a) | Some v \<Rightarrow> v)"
    "e_OwnerId (obj w1 a) = e_OwnerId (obj w a)"
    "e_StatePatcher (obj w1 a) = Some (p\<lparr>DirtyProperties := [], NewParentId := None\<rparr>)"
    using local_patch_of_changes [OF assms(1-6)] by blast
  obtain m where m: "CreateObjectPatch a w = Some m" "op_Components m = Some (pack_changes (packed_changes (DirtyProperties p)))"
    "op_ShouldUpdateParent m = (NewParentId p \<noteq> None)" "op_OwnerId m = e_OwnerId (obj w a)"
    "op_ParentId m = (case NewParentId p of None \<Rightarrow> e_ParentId (obj w a) | Some v \<Rightarrow> v)"
    using object_patch_of_changes [OF live assms(3-5)] by simp
  have wire: "patch_over_the_wire m = Inr m"
    using object_patch.roundtrip [of m] pack_changes_ok [OF ch(2,3)] m(2)
    by (simp add: patch_over_the_wire_def serialize_root_def deserialize_root_def [abs_def])
  have flags: "change_flags (packed_changes (DirtyProperties p)) 0 = change_flags (DirtyProperties p) 0"
    by (rule change_flags_cong) (rule ch(4))
  obtain r1 where r1: "ApplyPatchFromObjectPatch b m r = Some (if f \<noteq> 0 then update_event b f [] r1 else r1)"
    "hier T {} r1" "w_Events r1 = w_Events r"
    "\<forall>k \<in> set replicated_keys. prop_get k (obj r1 b) = changed_value (packed_changes (DirtyProperties p)) k (obj r b)"
    "e_ParentId (obj r1 b) = op_ParentId m" "e_OwnerId (obj r1 b) = op_OwnerId m"
    "e_UpdateCallback (obj r1 b) = e_UpdateCallback (obj r b)"
    using apply_patch_of_changes_runs [OF assms(7,8) ch(2) m(2), of f] flags w1(2) m(3) by (cases "NewParentId p = None") auto
  let ?r1 = "if f \<noteq> 0 then update_event b f [] r1 else r1"
  have props: "\<forall>k \<in> set replicated_keys. prop_get k (obj r1 b) = prop_get k (obj w1 a)"
    using r1(4) w1(3) assms(9) by (simp add: changed_value_def ch(1) split: option.split)
  have "ent r1 b = Some (obj r1 b)" using hierD(1) [OF r1(2)] assms(8) by (intro ent_Some) blast
  then have "w_Events ?r1 = w_Events r @ (if e_UpdateCallback (obj r b) \<and> f \<noteq> 0 then [Ev_update b f []] else [])"
    using r1(3,7) by (simp add: update_event_def emit_event_def)
  moreover have "obj ?r1 = obj r1" by simp
  ultimately show ?thesis
    using w1 m(1,4,5) wire r1(1,5,6) props assms(4,5)
    by (intro exI [of _ w1] exI [of _ f] exI [of _ m] exI [of _ ?r1]) (simp add: HasPendingPatch_def)
qed


text \<open>Two engines of clients 1 and 2, each with its own object for the entity of id 7.\<close>

definition online_one :: "u64 \<Rightarrow> patcher \<Rightarrow> world" where
  "online_one c p = (put_ent 0 ((SpaceEntity_new (Online c))\<lparr>e_Id := 7, e_Type := ObjectE, e_StatePatcher := Some p\<rparr>)
     (new_world (Online c) []))\<lparr>w_NextAddr := 1, Entities := [0], Objects := [0], RootHierarchyEntities := [0]\<rparr>"

lemma online_one_obj [simp]:
  "obj (online_one c p) 0 = (SpaceEntity_new (Online c))\<lparr>e_Id := 7, e_Type := ObjectE, e_StatePatcher := Some p\<rparr>"
  by (simp add: online_one_def obj_def ent_def)

lemma online_one_lists [simp]:
  "known (online_one c p) = [0]" "RootHierarchyEntities (online_one c p) = [0]" "dom (w_Ents (online_one c p)) = {0}"
  "w_Kind (online_one c p) = Online c"
  by (auto simp: online_one_def known_def new_world_def)

lemma online_one_hier: "hier {0} {} (online_one c p)"
  unfolding hier_def online_one_lists by simp

definition rename_patch :: patcher where
  "rename_patch = empty_patcher\<lparr>DirtyProperties := [(KEY_LOCK_TYPE, RV_int 1), (KEY_NAME, RV_string ''new name'')]\<rparr>"

lemma rename_patch_valid: "valid_changes (DirtyProperties rename_patch)"
  by (simp add: rename_patch_def valid_changes_def replicated_keys_def set_value_def prop_set_def key_defs nul_free_def
      rv_constructors rv_getters rv_get_def)

lemma patch_synchronises_replica_witness:
  "\<exists>w1 f m m' r1. ApplyLocalPatch 0 (online_one 1 rename_patch) = Some ((f, []), w1)
    \<and> CreateObjectPatch 0 (online_one 1 rename_patch) = Some m
    \<and> patch_over_the_wire m = Inr m' \<and> ApplyPatchFromObjectPatch 0 m' (online_one 2 empty_patcher) = Some r1
    \<and> prop_get KEY_NAME (obj r1 0) = prop_get KEY_NAME (obj w1 0)"
proof -
  have "\<forall>k \<in> set replicated_keys. prop_get k (obj (online_one 2 empty_patcher) 0) = prop_get k (obj (online_one 1 rename_patch) 0)"
    by (simp add: prop_get_def SpaceEntity_new_def UNIT_TRANSFORM_def)
  from patch_synchronises_replica [OF online_one_hier _ _ _ _ _ online_one_hier _ this, of rename_patch]
  show ?thesis using rename_patch_valid by (auto simp: rename_patch_def empty_patcher_def replicated_keys_def)
qed

text \<open>
  Removing a component that is not there is accepted, although the code has a message for it: the
  guard lets a key pass that is held or not yet pending, where it has to be both.
  Locally nothing happens; the replica is sent a deletion, has no such component either, and tells
  its client that one was added.
\<close>

lemma removed_unknown_component_is_reported:
  "let w = snd (the (RemoveComponent 0 3 (online_one 1 empty_patcher))); m = the (CreateObjectPatch 0 w);
       r = upd_ent 0 (\<lambda>e. e\<lparr>e_UpdateCallback := True\<rparr>) (online_one 2 empty_patcher)
   in map_option fst (RemoveComponent 0 3 (online_one 1 empty_patcher)) = Some True
     \<and> map_option (fst \<circ> fst) (ApplyLocalPatch 0 w) = Some 0 \<and> patch_over_the_wire m = Inr m
     \<and> map_option w_Events (ApplyPatchFromObjectPatch 0 m r) = Some [Ev_update 0 FLAG_COMPONENTS [Some (3, AddT)]]"
proof -
  let ?m = "the (CreateObjectPatch 0 (snd (the (RemoveComponent 0 3 (online_one 1 empty_patcher)))))"
  have "components_ok (op_Components ?m)" by code_simp
  then have "patch_over_the_wire ?m = Inr ?m"
    using object_patch.roundtrip [of ?m] by (simp add: patch_over_the_wire_def serialize_root_def deserialize_root_def [abs_def])
  moreover have "map_option fst (RemoveComponent 0 3 (online_one 1 empty_patcher)) = Some True" by code_simp
  moreover have "map_option (fst \<circ> fst) (ApplyLocalPatch 0 (snd (the (RemoveComponent 0 3 (online_one 1 empty_patcher))))) = Some 0"
    by code_simp
  moreover have "map_option w_Events (ApplyPatchFromObjectPatch 0 ?m (upd_ent 0 (\<lambda>e. e\<lparr>e_UpdateCallback := True\<rparr>) (online_one 2 empty_patcher)))
    = Some [Ev_update 0 FLAG_COMPONENTS [Some (3, AddT)]]" by code_simp
  ultimately show ?thesis unfolding Let_def by blast
qed

section \<open>From a setter to the patch\<close>

lemma umap_upd_del: "umap_upd k v (umap_del k m) = (k, v) # umap_del k m"
  by (simp add: umap_upd_def)

lemma valid_changes_del: "valid_changes m \<Longrightarrow> valid_changes (umap_del k m)"
  by (auto simp: valid_changes_def umap_del_def distinct_map_filter)

text \<open>
  C33. A setter called on a modifiable entity of the online engine changes nothing a reader of the
  entity sees; the next local patch makes the value the entity's, together with the changes
  that were pending before. Setting a property back to the value it still has withdraws the
  pending change.
\<close>

theorem setter_takes_effect_with_the_patch:
  assumes "hier S {} w" "a \<in> S" "e_StatePatcher (obj w a) = Some p" "DirtyComponents p = []"
    "TransientDeletionComponentIds p = []" "valid_changes (DirtyProperties p)"
    "IsModifiable (w_Kind w) (obj w a) = Some Modifiable" "Key \<in> set replicated_keys" "rv_valid v" "set_value Key v \<noteq> None"
  shows "\<exists>w1 f w2. EntitySetProperty a Key v w = Some (\<not> rep_eq v (prop_get Key (obj w a)), w1)
    \<and> (\<forall>k. prop_get k (obj w1 a) = prop_get k (obj w a)) \<and> ApplyLocalPatch a w1 = Some ((f, []), w2)
    \<and> prop_get Key (obj w2 a) =
        (if rep_eq v (prop_get Key (obj w a)) then prop_get Key (obj w a) else the (set_value Key v))
    \<and> (\<forall>k \<in> set replicated_keys - {Key}. prop_get k (obj w2 a) = changed_value (DirtyProperties p) k (obj w a))"
proof -
  have live: "a \<in> dom (w_Ents w)" using hierD(1) [OF assms(1)] assms(2) by blast
  define same where "same = rep_eq v (prop_get Key (obj w a))"
  let ?ds = "if same then umap_del Key (DirtyProperties p) else (Key, v) # umap_del Key (DirtyProperties p)"
  let ?w1 = "upd_ent a (\<lambda>e. e\<lparr>e_StatePatcher := Some (p\<lparr>DirtyProperties := ?ds\<rparr>)\<rparr>) w"
  have set: "EntitySetProperty a Key v w = Some (\<not> same, ?w1)"
    using assms(3,7) same_def
    by (simp add: EntitySetProperty_def ent_Some [OF live] SetDirtyProperty_def set_patcher_def modify_ent_live [OF live] umap_upd_del)
  have ds: "valid_changes ?ds"
    using valid_changes_del [OF assms(6)] assms(8-10) keys_umap_del [of Key "DirtyProperties p"] by auto
  have h1: "hier S {} ?w1"
    unfolding upd_ent_def by (rule hier_put_ent [OF assms(1,2)]) (use assms(3) in \<open>simp add: shape_def\<close>)
  obtain w2 f where w2: "ApplyLocalPatch a ?w1 = Some ((f, []), w2)"
    "\<forall>k \<in> set replicated_keys. prop_get k (obj w2 a) = changed_value ?ds k (obj ?w1 a)"
    using local_patch_of_changes [OF h1 assms(2), of "p\<lparr>DirtyProperties := ?ds\<rparr>"] ds assms(4,5) by auto
  have "changed_value ?ds k (obj ?w1 a) = (if k = Key then if same then prop_get Key (obj w a) else the (set_value Key v)
      else changed_value (DirtyProperties p) k (obj w a))" for k
    by (simp add: changed_value_def split: option.split)
  then show ?thesis
    using set w2 assms(8) by (intro exI [of _ ?w1] exI [of _ f] exI [of _ w2]) (simp add: same_def)
qed

definition pending_name :: patcher where
  "pending_name = empty_patcher\<lparr>DirtyProperties := [(KEY_NAME, RV_string ''n'')]\<rparr>"

lemma setter_takes_effect_with_the_patch_witness:
  "\<exists>w1 f w2. EntitySetProperty 0 KEY_THIRD_PARTY_REF (RV_string ''ref'') (online_one 1 pending_name) = Some (True, w1)
    \<and> e_ThirdPartyRef (obj w1 0) = [] \<and> ApplyLocalPatch 0 w1 = Some ((f, []), w2)
    \<and> prop_get KEY_THIRD_PARTY_REF (obj w2 0) = RV_string ''ref'' \<and> prop_get KEY_NAME (obj w2 0) = RV_string ''n''"
proof -
  let ?v = "RV_string ''ref''" let ?w = "online_one 1 pending_name"
  have v: "valid_changes (DirtyProperties pending_name)" "rv_valid ?v"
    "set_value KEY_THIRD_PARTY_REF ?v \<noteq> None"
    by (simp_all add: pending_name_def valid_changes_def replicated_keys_def set_value_def prop_set_def key_defs nul_free_def
      rv_constructors rv_getters rv_get_def)
  have p: "e_StatePatcher (obj ?w 0) = Some pending_name" "DirtyComponents pending_name = []"
    "TransientDeletionComponentIds pending_name = []"
    by (simp_all add: pending_name_def empty_patcher_def)
  have m: "IsModifiable (w_Kind ?w) (obj ?w 0) = Some Modifiable"
    by (simp add: IsModifiable_def IsEntityModifiable_online_def SpaceEntity_new_def UNIT_TRANSFORM_def
        LOCK_NONE_def LOCK_USER_AGNOSTIC_def)
  have k: "KEY_THIRD_PARTY_REF \<in> set replicated_keys" "KEY_NAME \<in> set replicated_keys - {KEY_THIRD_PARTY_REF}"
    by (simp_all add: replicated_keys_def key_defs)
  have g: "prop_get KEY_THIRD_PARTY_REF e = RV_string (e_ThirdPartyRef e)" for e by (simp add: prop_get_def key_defs)
  have e0: "e_ThirdPartyRef (obj ?w 0) = []" by (simp add: SpaceEntity_new_def UNIT_TRANSFORM_def)
  have ne: "\<not> rep_eq ?v (prop_get KEY_THIRD_PARTY_REF (obj ?w 0))" unfolding g e0 by (simp add: rv_constructors)
  have val: "the (set_value KEY_THIRD_PARTY_REF ?v) = ?v"
    by (simp add: set_value_def prop_set_def prop_get_def key_defs rv_constructors rv_getters rv_get_def)
  have old: "changed_value (DirtyProperties pending_name) KEY_NAME (obj ?w 0) = RV_string ''n''"
    by (simp add: pending_name_def changed_value_def set_value_def prop_set_def prop_get_def rv_constructors rv_getters rv_get_def)
  from setter_takes_effect_with_the_patch [OF online_one_hier _ p v(1) m k(1) v(2,3)] ne
  obtain w1 f w2 where w: "EntitySetProperty 0 KEY_THIRD_PARTY_REF ?v ?w = Some (True, w1)"
    "\<forall>k. prop_get k (obj w1 0) = prop_get k (obj ?w 0)" "ApplyLocalPatch 0 w1 = Some ((f, []), w2)"
    "prop_get KEY_THIRD_PARTY_REF (obj w2 0) = ?v" "prop_get KEY_NAME (obj w2 0) = RV_string ''n''"
    using k(2) val old by auto
  have "RV_string (e_ThirdPartyRef (obj w1 0)) = RV_string []"
    using w(2) [THEN spec, of KEY_THIRD_PARTY_REF] unfolding g e0 .
  then show ?thesis using w(1,3-5) by (simp add: rv_constructors)
qed

section \<open>Patches without a parent\<close>

text \<open>
  A patch whose parent array is null, as the service sends it when the parent does not change,
  moves the entity to the root: it loses its parent id and its parent and is entered as a root,
  and the client is not told.
\<close>

theorem patch_without_parent_detaches:
  assumes "hier S {} w" "a \<in> S"
  shows "\<exists>m w1. deserialize_root ObjectPatch_Deserialize (SArr [SUint i, SUint (e_OwnerId (obj w a)), SBool False, SNull, cs]) = Inr m
    \<and> ApplyPatchFromObjectPatch a m w = Some w1 \<and> e_ParentId (obj w1 a) = None \<and> e_Parent (obj w1 a) = None
    \<and> a \<in> set (RootHierarchyEntities w1) \<and> w_Events w1 = w_Events w"
proof -
  let ?m = "\<lparr>op_Id = i, op_OwnerId = e_OwnerId (obj w a), op_Destroy = False, op_ShouldUpdateParent = False,
          op_ParentId = None, op_Components = None\<rparr>"
  have m: "deserialize_root ObjectPatch_Deserialize (SArr [SUint i, SUint (e_OwnerId (obj w a)), SBool False, SNull, cs]) = Inr ?m"
    by (simp add: deserialize_root_def ObjectPatch_Deserialize_def StartReadArray_next DeserializeComponents_def Skip_def)
  have live: "a \<in> dom (w_Ents w)" using hierD(1) [OF assms(1)] assms(2) by blast
  have own: "SetOwnerId a (e_OwnerId (obj w a)) w = Some w"
    using upd_ent_triv [OF live, of "\<lambda>e. e\<lparr>e_OwnerId := e_OwnerId (obj w a)\<rparr>"] by (simp add: SetOwnerId_def modify_ent_live [OF live])
  note P = set_parent_effect [OF assms, where v = None]
  have r: "e_Parent (obj (set_parent_spec a None w) a) = None" "a \<in> set (RootHierarchyEntities (set_parent_spec a None w))"
    using set_parent_spec_links_of(1,4) [OF assms, of None] by (simp_all split: if_splits)
  have "ApplyPatchFromObjectPatch a ?m w = Some (set_parent_spec a None w)"
    using own P(1) by (simp add: ApplyPatchFromObjectPatch_def)
  then show ?thesis using m P(4,11) r by blast
qed

lemma patch_without_parent_detaches_witness:
  "e_Parent (obj two_entities 1) = Some 0 \<and> (\<exists>m w1. ApplyPatchFromObjectPatch 1 m two_entities = Some w1
     \<and> op_ShouldUpdateParent m = False \<and> e_Parent (obj w1 1) = None \<and> w_Events w1 = w_Events two_entities)"
proof -
  obtain m w1 where "deserialize_root ObjectPatch_Deserialize (SArr [SUint 2, SUint (e_OwnerId (obj two_entities 1)), SBool False, SNull, SNull]) = Inr m"
    "ApplyPatchFromObjectPatch 1 m two_entities = Some w1" "e_Parent (obj w1 1) = None" "w_Events w1 = w_Events two_entities"
    using patch_without_parent_detaches [OF two_entities_hier, of 1 2 SNull] by auto
  moreover from this(1) have "op_ShouldUpdateParent m = False"
    by (auto simp: deserialize_root_def ObjectPatch_Deserialize_def StartReadArray_next DeserializeComponents_def Skip_def)
  ultimately show ?thesis by (auto simp: two_entities_obj)
qed

section \<open>A new entity on the wire\<close>

definition message_over_the_wire :: "ObjectMessage \<Rightarrow> ser_error + ObjectMessage" where
  "message_over_the_wire m = rbind (serialize_root ObjectMessage_Serialize m) (deserialize_root ObjectMessage_Deserialize)"

text \<open>The properties of an entity as a list of changes.\<close>

definition all_properties :: "entity \<Rightarrow> (u16 \<times> rep_value) list" where
  "all_properties e = map (\<lambda>k. (k, prop_get k e)) replicated_keys"

lemma ucast_scast_u32: "ucast (scast (x :: u32) :: u64) = x"
proof (rule bit_word_eqI)
  fix n assume "n < LENGTH(32)"
  then show "bit (ucast (scast x :: u64) :: u32) n \<longleftrightarrow> bit x n"
    by (cases "n = 31") (auto simp: bit_unsigned_iff bit_signed_iff min_def)
qed

lemma set_value_prop_get: "k \<in> set replicated_keys \<Longrightarrow> set_value k (prop_get k e) = Some (prop_get k e)"
  by (elim replicated_keysE)
    (auto simp: set_value_def prop_set_def prop_get_def key_defs rv_constructors rv_getters rv_get_def
      rv_vec3_def rv_vec4_def ucast_scast_u32 split: prod.split)

lemma distinct_replicated_keys: "distinct replicated_keys"
  by (simp add: replicated_keys_def key_defs)

lemma all_properties_valid:
  "\<forall>k \<in> set replicated_keys. rv_valid (prop_get k e) \<Longrightarrow> valid_changes (all_properties e)"
  using distinct_replicated_keys set_value_prop_get
  by (auto simp: valid_changes_def all_properties_def o_def)

lemma map_of_all_properties: "k \<in> set replicated_keys \<Longrightarrow> map_of (all_properties e) k = Some (prop_get k e)"
proof -
  have "k \<in> set ks \<Longrightarrow> map_of (map (\<lambda>k. (k, prop_get k e)) ks) k = Some (prop_get k e)" for ks
    by (induction ks) auto
  then show "k \<in> set replicated_keys \<Longrightarrow> map_of (all_properties e) k = Some (prop_get k e)"
    by (simp add: all_properties_def)
qed

lemma changed_all_properties:
  "k \<in> set replicated_keys \<Longrightarrow> changed_value (all_properties e) k e' = prop_get k e"
  by (simp add: changed_value_def map_of_all_properties set_value_prop_get)

lemma load_message_of_changes:
  "valid_changes kvs \<Longrightarrow> load_message_components a (pack_changes kvs) w = map_option snd (apply_dirty_properties a kvs f w)"
proof (induction kvs arbitrary: w f)
  case (Cons kv kvs)
  obtain k v where kv: "kv = (k, v)" by (cases kv)
  with Cons.prems have k: "k \<in> set replicated_keys" "rv_valid v" "valid_changes kvs" by auto
  have "try_value (ToReplicatedValue (ToItemComponentData v)) = Some v"
    using rv_roundtrip_valid(1) [OF k(2)] by (simp add: try_value_def)
  then show ?case
    using k replicated_not_component [OF k(1)] Cons.IH [OF k(3)]
    by (cases "EntitySetPropertyDirect a k v False w") (simp_all add: kv)
qed simp

lemma entity_type_of_number: "t \<notin> {UnknownE 1, UnknownE 2} \<Longrightarrow> entity_type_of (entity_type_number t) = t"
  by (cases t) (auto simp: entity_type_of_def ucast_scast_u32 Let_def)


text \<open>
  C24. An entity sent as an object message and created from it by a receiver is the same entity: id,
  type, owner, parent id, flags and every replicated property agree. Its components are not part of
  the message once they are no longer pending: the created entity has none.
\<close>

theorem entity_survives_the_wire:
  assumes "a \<in> dom (w_Ents w)" "e_StatePatcher (obj w a) = Some p" "DirtyComponents p = []"
    "\<forall>k \<in> set replicated_keys. rv_valid (prop_get k (obj w a))" "e_Type (obj w a) \<notin> {UnknownE 1, UnknownE 2}"
  shows "\<exists>m m' b r1. CreateObjectMessage a w = Some m \<and> message_over_the_wire m = Inr m'
    \<and> NewFromObjectMessage m' r = Some (b, r1) \<and> b = w_NextAddr r
    \<and> (\<forall>k \<in> set replicated_keys. prop_get k (obj r1 b) = prop_get k (obj w a))
    \<and> e_Id (obj r1 b) = e_Id (obj w a) \<and> e_Type (obj r1 b) = e_Type (obj w a)
    \<and> e_OwnerId (obj r1 b) = e_OwnerId (obj w a) \<and> e_ParentId (obj r1 b) = e_ParentId (obj w a)
    \<and> e_IsTransferable (obj r1 b) = e_IsTransferable (obj w a) \<and> e_IsPersistent (obj r1 b) = e_IsPersistent (obj w a)
    \<and> e_Components (obj r1 b) = []"
proof -
  let ?e = "obj w a" let ?kvs = "packed_changes (all_properties ?e)"
  note ch = packed_changes [OF all_properties_valid [OF assms(4)]]
  let ?m = "\<lparr>om_Id = e_Id ?e, om_Type = entity_type_number (e_Type ?e), om_IsTransferable = e_IsTransferable ?e,
       om_IsPersistent = e_IsPersistent ?e, om_OwnerId = e_OwnerId ?e, om_ParentId = e_ParentId ?e,
       om_Components = Some (pack_changes ?kvs)\<rparr>"
  have "fold (\<lambda>Key. PackValue Key (ToItemComponentData (prop_get Key ?e))) ks acc
      = fold (\<lambda>kv. PackValue (fst kv) (ToItemComponentData (snd kv))) (map (\<lambda>k. (k, prop_get k ?e)) ks) acc" for ks acc
    by (induction ks arbitrary: acc) auto
  then have m: "CreateObjectMessage a w = Some ?m"
    using assms(1-3) fold_PackValue_map [of ToItemComponentData "all_properties ?e" "[]"]
    by (simp add: CreateObjectMessage_def ent_Some packed_changes_def all_properties_def)
  have wire: "message_over_the_wire ?m = Inr ?m"
    using object_message.roundtrip [of ?m] pack_changes_ok [OF ch(2,3)]
    by (simp add: message_over_the_wire_def serialize_root_def deserialize_root_def [abs_def])
  let ?b = "w_NextAddr r"
  let ?new = "SpaceEntity_make (w_Kind r) (e_Type ?e) (e_Id ?e) [] UNIT_TRANSFORM (e_OwnerId ?e) (e_ParentId ?e)
    (e_IsTransferable ?e) (e_IsPersistent ?e)"
  let ?r = "(put_ent ?b ?new r)\<lparr>w_NextAddr := ?b + 1\<rparr>"
  have live: "?b \<in> dom (w_Ents ?r)" by simp
  obtain e where e: "apply_dirty_properties ?b ?kvs 0 ?r = Some (change_flags ?kvs 0, put_ent ?b e ?r)"
      "strip_props e = strip_props (obj ?r ?b)" "\<forall>k \<in> set replicated_keys. prop_get k e = changed_value ?kvs k (obj ?r ?b)"
    using apply_dirty_properties_runs [OF ch(2) live] by blast
  have new: "NewFromObjectMessage ?m r = Some (?b, put_ent ?b e ?r)"
    using load_message_of_changes [OF ch(2), of ?b ?r 0] e(1) assms(5)
    by (simp add: NewFromObjectMessage_def alloc_ent_def entity_type_of_number)
  have all: "changed_value ?kvs = changed_value (all_properties ?e)" by (intro ext) (simp add: changed_value_def ch(1))
  have props: "\<forall>k \<in> set replicated_keys. prop_get k e = prop_get k ?e"
    using e(3) changed_all_properties all by simp
  have s: "e_Id e = e_Id ?e" "e_Type e = e_Type ?e" "e_OwnerId e = e_OwnerId ?e" "e_ParentId e = e_ParentId ?e"
    "e_IsTransferable e = e_IsTransferable ?e" "e_IsPersistent e = e_IsPersistent ?e" "e_Components e = []"
    using arg_cong [OF e(2), of e_Id] arg_cong [OF e(2), of e_Type] arg_cong [OF e(2), of e_OwnerId]
      arg_cong [OF e(2), of e_ParentId] arg_cong [OF e(2), of e_IsTransferable] arg_cong [OF e(2), of e_IsPersistent]
      arg_cong [OF e(2), of e_Components]
    by (simp_all add: strip_props_def SpaceEntity_make_def split: prod.splits)
  show ?thesis
    using m wire new props s by (intro exI [of _ ?m] exI [of _ ?b] exI [of _ "put_ent ?b e ?r"]) simp
qed


lemma entity_survives_the_wire_witness:
  "\<exists>m m' b r1. CreateObjectMessage 0 (online_one 1 empty_patcher) = Some m \<and> message_over_the_wire m = Inr m'
    \<and> NewFromObjectMessage m' (new_world (Online 2) []) = Some (b, r1)
    \<and> e_Id (obj r1 b) = 7 \<and> e_Type (obj r1 b) = ObjectE"
proof -
  have v: "\<forall>k \<in> set replicated_keys. rv_valid (prop_get k (obj (online_one 1 empty_patcher) 0))"
    by (simp add: replicated_keys_def prop_get_def key_defs rv_constructors rv_vec3_def rv_vec4_def
        SpaceEntity_new_def UNIT_TRANSFORM_def nul_free_def f32_quiet_def f32_nan_def f32_exp_def)
  show ?thesis
    using entity_survives_the_wire [OF _ _ _ v, of empty_patcher "new_world (Online 2) []"]
    by (auto simp: empty_patcher_def)
qed

end
