(* ===== verification/Patch_Components.thy ===== *)
theory Patch_Components
  imports Patch_Changes
begin

text \<open>
  Components in messages and patches: a component sent is the component a replica creates or
  updates, a deletion marker removes it, and what clients are told of these changes.
\<close>

unbundle bit_operations_syntax

section \<open>A component on the wire\<close>

text \<open>
  Properties that can be sent: keys fit in 16 bits and do not collide with the key of the type,
  values survive the conversion.
\<close>

definition packable :: "component \<Rightarrow> bool" where
  "packable c \<longleftrightarrow> omap_ok (c_Properties c)
     \<and> (\<forall>(k, v) \<in> set (c_Properties c). unat k < 65536 \<and> k \<noteq> ucast COMPONENT_KEY_COMPONENTTYPE \<and> rv_valid v)"

definition sent_properties :: "component \<Rightarrow> (u16 \<times> rep_value) list" where
  "sent_properties c = map (\<lambda>kv. (ucast (fst kv), snd kv)) (c_Properties c)"

lemma ucast_small: "unat (k :: u32) < 65536 \<Longrightarrow> ucast (ucast k :: u16) = k"
  by (simp add: word_unat_eq_iff unsigned_ucast_eq take_bit_nat_eq_self unsigned_take_bit_eq)

lemma map_of_sent:
  assumes "packable c"
  shows "distinct (map fst (sent_properties c))" "map_of (sent_properties c) k = map_of (c_Properties c) (ucast k)"
proof -
  have k: "\<forall>kv \<in> set (c_Properties c). ucast (ucast (fst kv) :: u16) = fst kv"
    using assms ucast_small by (auto simp: packable_def)
  have d: "distinct (map fst (c_Properties c))" using assms by (simp add: packable_def omap_ok_distinct)
  have "inj_on (ucast :: u32 \<Rightarrow> u16) (set (map fst (c_Properties c)))"
    using k by (intro inj_on_inverseI [where g = ucast]) auto
  moreover have "map fst (sent_properties c) = map ucast (map fst (c_Properties c))" by (simp add: sent_properties_def)
  ultimately show "distinct (map fst (sent_properties c))" using d by (simp only: distinct_map)
  have "\<forall>kv \<in> set ps. ucast (ucast (fst kv) :: u16) = fst kv \<Longrightarrow>
      map_of (map (\<lambda>kv. (ucast (fst kv), snd kv)) ps) k = map_of ps (ucast k)" for ps :: "(u32 \<times> rep_value) list"
    by (induction ps) auto
  then show "map_of (sent_properties c) k = map_of (c_Properties c) (ucast k)"
    using k by (simp add: sent_properties_def)
qed

text \<open>What the receiver reads of the dictionary it is sent.\<close>

lemma sent_dict:
  assumes "packable c"
  obtains m where "ToItemComponentData_component c = IU16Dict m" "omap_ok m"
    "map_of m COMPONENT_KEY_COMPONENTTYPE = Some (IUint (c_Type c))"
    "\<And>k. k \<noteq> COMPONENT_KEY_COMPONENTTYPE \<Longrightarrow> map_of m k = map_option ToItemComponentData (map_of (sent_properties c) k)"
proof
  let ?m = "fold (\<lambda>kv. omap_upd (fst kv) (ToItemComponentData (snd kv))) (sent_properties c)
    [(COMPONENT_KEY_COMPONENTTYPE, IUint (c_Type c))]"
  have "fold (\<lambda>kv. omap_upd (ucast (fst kv)) (ToItemComponentData (snd kv))) ps acc
      = fold (\<lambda>kv. omap_upd (fst kv) (ToItemComponentData (snd kv))) (map (\<lambda>kv. (ucast (fst kv), snd kv)) ps) acc"
    for ps :: "(u32 \<times> rep_value) list" and acc :: packer
    by (induction ps arbitrary: acc) auto
  then show "ToItemComponentData_component c = IU16Dict ?m"
    by (simp add: ToItemComponentData_component_def PackValue_def [abs_def] sent_properties_def)
  show "omap_ok ?m" by (rule omap_ok_fold_omap_upd) simp
  note mo = fold_omap_upd [OF map_of_sent(1) [OF assms], of ToItemComponentData "[(COMPONENT_KEY_COMPONENTTYPE, IUint (c_Type c))]"]
  have "map_of (c_Properties c) (ucast COMPONENT_KEY_COMPONENTTYPE) = None"
    using assms by (auto simp: packable_def map_of_eq_None_iff)
  then show "map_of ?m COMPONENT_KEY_COMPONENTTYPE = Some (IUint (c_Type c))"
    unfolding mo by (simp add: map_of_sent(2) [OF assms])
  show "map_of ?m k = map_option ToItemComponentData (map_of (sent_properties c) k)" if "k \<noteq> COMPONENT_KEY_COMPONENTTYPE" for k
    unfolding mo using that by (simp split: option.split)
qed

definition set_properties :: "(u16 \<times> rep_value) list \<Rightarrow> component \<Rightarrow> component" where
  "set_properties ps c = fold (\<lambda>kv. SetPropertyFromPatch (ucast (fst kv)) (snd kv)) ps c"

lemma set_from_patch_runs:
  "\<forall>(k, d) \<in> set m. k \<noteq> COMPONENT_KEY_COMPONENTTYPE \<longrightarrow> ToReplicatedValue d = Inr (the (try_value (ToReplicatedValue d)))
   \<Longrightarrow> set_from_patch m c = Some (set_properties
        (map (\<lambda>kv. (fst kv, the (try_value (ToReplicatedValue (snd kv))))) (filter (\<lambda>kv. fst kv \<noteq> COMPONENT_KEY_COMPONENTTYPE) m)) c)"
proof (induction m c rule: set_from_patch.induct)
  case (2 Key Value m c)
  then show ?case
    by (cases "Key = COMPONENT_KEY_COMPONENTTYPE") (auto simp: set_properties_def try_value_def split: sum.splits)
qed (simp add: set_properties_def)

lemma set_properties_fields [simp]:
  "c_Id (set_properties ps c) = c_Id c" "c_Type (set_properties ps c) = c_Type c" "c_Schema (set_properties ps c) = c_Schema c"
  by (induction ps arbitrary: c) (simp_all add: set_properties_def SetPropertyFromPatch_def)

lemma map_of_set_properties:
  "distinct (map fst ps) \<Longrightarrow> map_of (c_Properties (set_properties ps c)) k =
     (case if unat k < 65536 then map_of ps (ucast k) else None of Some v \<Rightarrow> Some v | None \<Rightarrow> map_of (c_Properties c) k)"
proof (induction ps arbitrary: c)
  case (Cons kv ps)
  obtain j v where kv: "kv = (j, v)" by (cases kv)
  have new: "map_of ps j = None" using Cons.prems by (simp add: kv map_of_eq_None_iff)
  have u: "unat (ucast j :: u32) = unat j" using unat_u16_less [of j] by (simp add: unsigned_ucast_eq take_bit_nat_eq_self_iff)
  have eq: "k = ucast j \<longleftrightarrow> unat k < 65536 \<and> ucast k = j"
    using ucast_small [of k] unat_u16_less [of j] by (auto simp: u)
  show ?case
    using Cons.IH [of "SetPropertyFromPatch (ucast j) v c"] Cons.prems new eq
    by (auto simp: kv set_properties_def SetPropertyFromPatch_def split: option.split)
qed (simp add: set_properties_def)


lemma set_from_patch_sent:
  assumes c: "packable c" and m: "ToItemComponentData_component c = IU16Dict m"
  shows "\<exists>c1. set_from_patch m c0 = Some c1 \<and> c_Id c1 = c_Id c0 \<and> c_Type c1 = c_Type c0
    \<and> (\<forall>k. map_of (c_Properties c1) k = (case map_of (c_Properties c) k of Some v \<Rightarrow> Some v | None \<Rightarrow> map_of (c_Properties c0) k))"
proof -
  obtain m' where m': "ToItemComponentData_component c = IU16Dict m'" "omap_ok m'"
    "\<And>k. k \<noteq> COMPONENT_KEY_COMPONENTTYPE \<Longrightarrow> map_of m' k = map_option ToItemComponentData (map_of (sent_properties c) k)"
    using sent_dict [OF c] by metis
  with m have [simp]: "m' = m" by simp
  let ?dec = "\<lambda>kv :: u16 \<times> icd. (fst kv, the (try_value (ToReplicatedValue (snd kv))))"
  let ?ps = "map ?dec (filter (\<lambda>kv. fst kv \<noteq> COMPONENT_KEY_COMPONENTTYPE) m)"
  have valid: "rv_valid v" if "map_of (c_Properties c) k = Some v" for k v
    using c map_of_SomeD [OF that] by (auto simp: packable_def)
  have dist: "distinct (map fst m)" using omap_ok_distinct m'(2) by simp
  have dec: "\<exists>v. map_of (c_Properties c) (ucast k) = Some v \<and> d = ToItemComponentData v \<and> ToReplicatedValue d = Inr v"
    if "(k, d) \<in> set m" "k \<noteq> COMPONENT_KEY_COMPONENTTYPE" for k d
    using that m'(3) [of k] map_of_is_SomeI [OF dist that(1)] map_of_sent(2) [OF c, of k] valid rv_roundtrip_valid(1)
    by (cases "map_of (c_Properties c) (ucast k)") auto
  have "\<forall>(k, d) \<in> set m. k \<noteq> COMPONENT_KEY_COMPONENTTYPE \<longrightarrow> ToReplicatedValue d = Inr (the (try_value (ToReplicatedValue d)))"
    using dec by (fastforce simp: try_value_def)
  from set_from_patch_runs [OF this] have r: "set_from_patch m c0 = Some (set_properties ?ps c0)" .
  have "map_of ?ps k = (if k = COMPONENT_KEY_COMPONENTTYPE then None else map_option (\<lambda>d. the (try_value (ToReplicatedValue d))) (map_of m k))" for k
    by (induction m) auto
  then have ps: "map_of ?ps k = map_of (c_Properties c) (ucast k)" if "k \<noteq> COMPONENT_KEY_COMPONENTTYPE" for k
    using that m'(3) [of k] map_of_sent(2) [OF c, of k] valid [of "ucast k"] rv_roundtrip_valid(1)
    by (cases "map_of (c_Properties c) (ucast k)") (auto simp: try_value_def)
  have ty: "map_of ?ps COMPONENT_KEY_COMPONENTTYPE = None" by (induction m) auto
  have absent: "map_of (c_Properties c) k = None" if "65536 \<le> unat k \<or> k = ucast COMPONENT_KEY_COMPONENTTYPE" for k
    using c that by (auto simp: packable_def map_of_eq_None_iff)
  have "distinct (map fst ?ps)" using dist by (simp add: o_def distinct_map_filter)
  note P = map_of_set_properties [OF this, of c0]
  have "map_of (c_Properties (set_properties ?ps c0)) k
      = (case map_of (c_Properties c) k of Some v \<Rightarrow> Some v | None \<Rightarrow> map_of (c_Properties c0) k)" for k
  proof (cases "unat k < 65536 \<and> ucast k \<noteq> COMPONENT_KEY_COMPONENTTYPE")
    case True
    then show ?thesis unfolding P using ps [of "ucast k"] ucast_small [of k] by simp
  next
    case False
    then have "65536 \<le> unat k \<or> k = ucast COMPONENT_KEY_COMPONENTTYPE"
      using ucast_small [of k] by (cases "unat k < 65536") auto
    then show ?thesis unfolding P using absent [of k] ty False by auto
  qed
  with r show ?thesis by simp
qed


section \<open>Components at a replica\<close>

definition registry_keyed :: "registry \<Rightarrow> bool" where
  "registry_keyed r \<longleftrightarrow> (\<forall>t s. map_of r t = Some s \<longrightarrow> sc_TypeId s = t)"

lemma registry_keyedD: "registry_keyed r \<Longrightarrow> Registry_Find r t = Some s \<Longrightarrow> sc_TypeId s = t"
  unfolding registry_keyed_def Registry_Find_def by blast

lemma registry_keyed_AddSchema: "registry_keyed r \<Longrightarrow> registry_keyed (AddSchema x r)"
  unfolding registry_keyed_def AddSchema_def map_of_umap_upd fun_upd_apply by (metis option.inject)

lemma registry_keyed_AddAdditional: "registry_keyed r \<Longrightarrow> registry_keyed (AddAdditional x r)"
  using registry_keyed_AddSchema [of r x] by (simp add: AddAdditional_def split: option.split)

lemma registry_keyed_ComponentSchemaRegistry: "registry_keyed (ComponentSchemaRegistry additional)"
proof -
  have "registry_keyed r \<Longrightarrow> registry_keyed (fold AddSchema xs r)" for xs r
    by (induction xs arbitrary: r) (simp_all add: registry_keyed_AddSchema)
  moreover have "registry_keyed r \<Longrightarrow> registry_keyed (fold AddAdditional xs r)" for xs r
    by (induction xs arbitrary: r) (simp_all add: registry_keyed_AddAdditional)
  moreover have "registry_keyed []" by (simp add: registry_keyed_def)
  ultimately show ?thesis by (simp add: ComponentSchemaRegistry_def)
qed

lemma InstantiateComponent_fields:
  assumes "registry_keyed r" "InstantiateComponent (Some r) i t = Some c"
  shows "c_Id c = i" "c_Type c = t"
proof -
  have ty: "c_Type (component_of_schema s) = sc_TypeId s" for s
    by (simp add: component_of_schema_def Let_def new_component_def)
  have own: "sc_TypeId own = t" if "class_schema t = Some own" for own
    using that by (auto simp: class_schema_def find_Some_iff)
  show "c_Id c = i"
    using assms(2) by (auto simp: InstantiateComponent_def Let_def split: if_splits)
  show "c_Type c = t"
  proof (cases "IsLegacyComponentTypeId t")
    case True
    then obtain b where b: "class_schema t = Some b" "c = (TryMakeOrDefault b (Registry_Find r t))\<lparr>c_Id := i\<rparr>"
      using assms(2) by (auto simp: InstantiateComponent_def Let_def)
    then show ?thesis
      using own [OF b(1)] registry_keyedD [OF assms(1)]
      by (cases "Registry_Find r t") (simp_all add: TryMakeOrDefault_def ty)
  next
    case False
    then obtain s where "Registry_Find r t = Some s" "c = (component_of_schema s)\<lparr>c_Id := i\<rparr>"
      using assms(2) by (auto simp: InstantiateComponent_def Let_def)
    then show ?thesis using registry_keyedD [OF assms(1)] by (simp add: ty)
  qed
qed

lemma component_type_sent:
  assumes "packable c"
  obtains m where "ToItemComponentData_component c = IU16Dict m" "component_type_in m = Some (c_Type c)"
proof (rule sent_dict [OF assms])
  fix m assume "ToItemComponentData_component c = IU16Dict m" "map_of m COMPONENT_KEY_COMPONENTTYPE = Some (IUint (c_Type c))"
  then show thesis using that by (simp add: component_type_in_def)
qed

text \<open>
  C34. A component that is sent in a patch to a replica that does not have it is created there under
  the same id, with the same type and every property it was sent with; its creation hook runs
  once, after the properties are set.
\<close>

theorem component_created_at_replica:
  assumes "packable c" "a \<in> dom (w_Ents w)" "map_of (e_Components (obj w a)) k = None" "registry_keyed (w_Registry w)"
    "InstantiateComponent (Some (w_Registry w)) k (c_Type c) = Some c0"
  shows "\<exists>w1 ca c1. AddComponentFromItemComponentDataPatch a k (ToItemComponentData_component c) w = Some ((k, AddT), w1)
    \<and> map_of (e_Components (obj w1 a)) k = Some ca \<and> comp w1 ca = Some c1 \<and> c_Id c1 = k \<and> c_Type c1 = c_Type c
    \<and> (\<forall>i v. map_of (c_Properties c) i = Some v \<longrightarrow> map_of (c_Properties c1) i = Some v)
    \<and> w_Events w1 = w_Events w @ [Ev_OnCreated ca]"
proof -
  obtain m where m: "ToItemComponentData_component c = IU16Dict m" "component_type_in m = Some (c_Type c)"
    by (rule component_type_sent [OF assms(1)])
  obtain c1 where c1: "set_from_patch m c0 = Some c1" "c_Id c1 = c_Id c0" "c_Type c1 = c_Type c0"
    "\<forall>k. map_of (c_Properties c1) k = (case map_of (c_Properties c) k of Some v \<Rightarrow> Some v | None \<Rightarrow> map_of (c_Properties c0) k)"
    using set_from_patch_sent [OF assms(1) m(1)] by blast
  note f = InstantiateComponent_fields [OF assms(4,5)]
  let ?ca = "w_NextAddr w"
  let ?w1 = "(put_comp ?ca c1 w)\<lparr>w_NextAddr := ?ca + 1\<rparr>"
  let ?w2 = "upd_ent a (\<lambda>e. e\<lparr>e_Components := omap_upd k ?ca (e_Components e)\<rparr>) ?w1"
  have live: "a \<in> dom (w_Ents ?w1)" using assms(2) by simp
  have add: "AddComponentDirect a k ?ca False ?w1 = Some ?w2"
    unfolding AddComponentDirect_def modify_ent_live [OF live] by simp
  have "AddComponentFromItemComponentDataPatch a k (ToItemComponentData_component c) w = Some ((k, AddT), emit_event (Ev_OnCreated ?ca) ?w2)"
    using m assms(3,5) c1(1) add
    by (simp add: AddComponentFromItemComponentDataPatch_def ent_Some [OF assms(2)] alloc_comp_def)
  then show ?thesis
    using c1 f by (intro exI [of _ "emit_event (Ev_OnCreated ?ca) ?w2"] exI [of _ ?ca] exI [of _ c1]) simp
qed


text \<open>
  C35. A component that is sent in a patch to a replica that has it, with the same type, updates it:
  every property sent has the value sent. A property the sender does not have stays as it
  was, so a property that was removed at the sender is never removed at a replica.
\<close>

theorem component_updated_at_replica:
  assumes "packable c" "a \<in> dom (w_Ents w)" "map_of (e_Components (obj w a)) k = Some ca" "comp w ca = Some c0"
    "c_Type c0 = c_Type c"
  shows "\<exists>c1. AddComponentFromItemComponentDataPatch a k (ToItemComponentData_component c) w = Some ((k, UpdateT), put_comp ca c1 w)
    \<and> c_Id c1 = c_Id c0 \<and> c_Type c1 = c_Type c0
    \<and> (\<forall>i. map_of (c_Properties c1) i = (case map_of (c_Properties c) i of Some v \<Rightarrow> Some v | None \<Rightarrow> map_of (c_Properties c0) i))"
proof -
  obtain m where m: "ToItemComponentData_component c = IU16Dict m" "component_type_in m = Some (c_Type c)"
    by (rule component_type_sent [OF assms(1)])
  then show ?thesis
    using set_from_patch_sent [OF assms(1) m(1), of c0] assms(3-5)
    by (auto simp: AddComponentFromItemComponentDataPatch_def ent_Some [OF assms(2)])
qed

lemma new_component_packable: "packable (new_component t)"
  by (simp add: packable_def new_component_def COMPONENT_KEY_NAME_def COMPONENT_KEY_COMPONENTTYPE_def nul_free_def rv_constructors)

text \<open>
  The deletion marker in a patch removes the component at a replica, after its removal hook has
  run. A replica that does not have the component reports the marker to its client as the
  addition of a component, which does not exist.
\<close>

theorem component_deleted_at_replica:
  assumes "a \<in> dom (w_Ents w)"
    "\<And>ca. map_of (e_Components (obj w a)) k = Some ca \<Longrightarrow> \<exists>c0. comp w ca = Some c0 \<and> c_Type c0 \<noteq> CT_Delete"
  shows "AddComponentFromItemComponentDataPatch a k (ToItemComponentData_component (new_component CT_Delete)) w =
    (case map_of (e_Components (obj w a)) k of
       None \<Rightarrow> Some ((k, AddT), w)
     | Some ca \<Rightarrow> Some ((k, DeleteT),
         upd_ent a (\<lambda>e. e\<lparr>e_Components := omap_del k (e_Components e)\<rparr>) (emit_event (Ev_OnRemove ca) w)))"
proof -
  obtain m where m: "ToItemComponentData_component (new_component CT_Delete) = IU16Dict m"
      "component_type_in m = Some (c_Type (new_component CT_Delete))"
    by (rule component_type_sent [OF new_component_packable])
  have ty: "c_Type (new_component CT_Delete) = CT_Delete" by (simp add: new_component_def)
  have none: "InstantiateComponent r k CT_Delete = None" for r
  proof -
    have "CT_Delete \<notin> set (map sc_TypeId builtin_schemas)" unfolding builtin_ids by (simp add: CT_Delete_def)
    then have "\<not> (\<exists>s \<in> set builtin_schemas. sc_TypeId s = CT_Delete)" unfolding set_map by (metis imageI)
    then have "class_schema CT_Delete = None" unfolding class_schema_def find_None_iff by blast
    moreover have "IsLegacyComponentTypeId CT_Delete"
      by (simp add: IsLegacyComponentTypeId_def ToComponentType_def CT_Delete_def)
    ultimately show ?thesis by (simp add: InstantiateComponent_def)
  qed
  show ?thesis
  proof (cases "map_of (e_Components (obj w a)) k")
    case None
    then show ?thesis using m ty none by (simp add: AddComponentFromItemComponentDataPatch_def ent_Some [OF assms(1)])
  next
    case (Some ca)
    then obtain c0 where c0: "comp w ca = Some c0" "c_Type c0 \<noteq> CT_Delete" using assms(2) by blast
    have live: "a \<in> dom (w_Ents (emit_event (Ev_OnRemove ca) w))" using assms(1) by simp
    have "RemoveComponentDirect a k False w = Some (True,
         upd_ent a (\<lambda>e. e\<lparr>e_Components := omap_del k (e_Components e)\<rparr>) (emit_event (Ev_OnRemove ca) w))"
      using Some c0 by (simp add: RemoveComponentDirect_def ent_Some [OF assms(1)] modify_ent_live [OF live])
    then show ?thesis
      using m ty Some c0 by (simp add: AddComponentFromItemComponentDataPatch_def ent_Some [OF assms(1)])
  qed
qed

text \<open>An entity with one component at address 2, of type 23 under id 5.\<close>

definition one_component :: "component \<Rightarrow> world" where
  "one_component c = put_comp 2 c (upd_ent 0 (\<lambda>e. e\<lparr>e_Components := [(5, 2)]\<rparr>) (online_one 2 empty_patcher))"

lemma one_component_simps [simp]:
  "map_of (e_Components (obj (one_component c) 0)) k = (if k = 5 then Some 2 else None)"
  "comp (one_component c) 2 = Some c" "0 \<in> dom (w_Ents (one_component c))"
  by (simp_all add: one_component_def)

definition marker :: component where
  "marker = (new_component 23)\<lparr>c_Id := 5, c_Properties := [(0, RV_string ''marker''), (64511, RV_string ''m'')]\<rparr>"

lemma marker_packable: "packable marker"
  by (simp add: packable_def marker_def COMPONENT_KEY_COMPONENTTYPE_def nul_free_def rv_constructors)

lemma component_created_at_replica_witness:
  "\<exists>w1 ca c1. AddComponentFromItemComponentDataPatch 0 5 (ToItemComponentData_component marker)
       ((online_one 2 empty_patcher)\<lparr>w_Registry := ComponentSchemaRegistry []\<rparr>) = Some ((5, AddT), w1)
    \<and> comp w1 ca = Some c1 \<and> map_of (c_Properties c1) 0 = Some (RV_string ''marker'')"
proof -
  let ?w = "(online_one 2 empty_patcher)\<lparr>w_Registry := ComponentSchemaRegistry []\<rparr>"
  have "obj ?w 0 = obj (online_one 2 empty_patcher) 0" by (simp only: obj_def ent_def) simp
  then have c: "map_of (e_Components (obj ?w 0)) 5 = None" by simp
  have "find (\<lambda>s. sc_TypeId s = 23) builtin_schemas = Some FiducialMarker_schema"
    by (simp only: builtin_schemas_def find.simps builtin_schema_defs component_schema.select_convs) simp
  then have "class_schema (c_Type marker) = Some FiducialMarker_schema" by (simp add: class_schema_def marker_def new_component_def)
  moreover have "IsLegacyComponentTypeId (c_Type marker)"
    by (simp add: IsLegacyComponentTypeId_def ToComponentType_def marker_def new_component_def)
  ultimately have "\<exists>c0. InstantiateComponent (Some (w_Registry ?w)) 5 (c_Type marker) = Some c0"
    using builtin_component_instantiates by fastforce
  then obtain c0 where I: "InstantiateComponent (Some (w_Registry ?w)) 5 (c_Type marker) = Some c0" by blast
  have "0 \<in> dom (w_Ents ?w)" "registry_keyed (w_Registry ?w)"
    by (simp_all add: registry_keyed_ComponentSchemaRegistry)
  from component_created_at_replica [OF marker_packable this(1) c this(2) I]
  obtain w1 ca c1 where "AddComponentFromItemComponentDataPatch 0 5 (ToItemComponentData_component marker) ?w = Some ((5, AddT), w1)"
    "comp w1 ca = Some c1" "\<forall>i v. map_of (c_Properties marker) i = Some v \<longrightarrow> map_of (c_Properties c1) i = Some v"
    by blast
  moreover have "map_of (c_Properties marker) 0 = Some (RV_string ''marker'')" by (simp add: marker_def)
  ultimately show ?thesis by blast
qed

definition old_marker :: component where
  "old_marker = marker\<lparr>c_Properties := [(0, RV_string ''old''), (3, RV_bool True)]\<rparr>"

lemma component_updated_at_replica_witness:
  "\<exists>c1. AddComponentFromItemComponentDataPatch 0 5 (ToItemComponentData_component marker) (one_component old_marker)
      = Some ((5, UpdateT), put_comp 2 c1 (one_component old_marker))
    \<and> map_of (c_Properties c1) 0 = Some (RV_string ''marker'') \<and> map_of (c_Properties c1) 3 = Some (RV_bool True)"
proof -
  have ty: "c_Type old_marker = c_Type marker" by (simp add: old_marker_def)
  obtain c1 where c1: "AddComponentFromItemComponentDataPatch 0 5 (ToItemComponentData_component marker) (one_component old_marker)
      = Some ((5, UpdateT), put_comp 2 c1 (one_component old_marker))"
    "\<forall>i. map_of (c_Properties c1) i = (case map_of (c_Properties marker) i of Some v \<Rightarrow> Some v | None \<Rightarrow> map_of (c_Properties old_marker) i)"
    using component_updated_at_replica [OF marker_packable _ _ _ ty, of 0 "one_component old_marker" 5 2] by auto
  have "map_of (c_Properties c1) 0 = Some (RV_string ''marker'')" "map_of (c_Properties c1) 3 = Some (RV_bool True)"
    unfolding c1(2) [THEN spec] by (simp_all add: marker_def old_marker_def)
  with c1(1) show ?thesis by blast
qed

lemma component_deleted_at_replica_witness:
  "\<exists>w1. AddComponentFromItemComponentDataPatch 0 5 (ToItemComponentData_component (new_component CT_Delete)) (one_component marker)
    = Some ((5, DeleteT), w1)"
  using component_deleted_at_replica [of 0 "one_component marker" 5] by (simp add: marker_def new_component_def CT_Delete_def)

section \<open>What a client is told of component changes\<close>

text \<open>
  When a component was updated and another one removed before a patch is applied, the array of
  updates handed to the client has the removal in the slot of the update and leaves its last
  slot unwritten: the offset of the removals is read after the pending components were cleared.
\<close>

theorem removal_overwrites_update_info:
  assumes "a \<in> dom (w_Ents w)" "e_StatePatcher (obj w a) = Some p" "DirtyProperties p = []" "NewParentId p = None"
    "DirtyComponents p = [(k, \<lparr>dc_Component = ca, dc_UpdateType = UpdateT\<rparr>)]" "TransientDeletionComponentIds p = [d]"
    "comp w ca \<noteq> None" "map_of (e_Components (obj w a)) d = Some cd" "comp w cd \<noteq> None"
  shows "\<exists>w1. ApplyLocalPatch a w = Some ((FLAG_COMPONENTS, [Some (d, DeleteT), None]), w1)
    \<and> map_option HasPendingPatch (e_StatePatcher (obj w1 a)) = Some False"
proof -
  obtain c cc where c: "comp w ca = Some c" "comp w cd = Some cc" using assms(7,9) by blast
  have flag: "FLAG_COMPONENTS OR FLAG_COMPONENTS = FLAG_COMPONENTS" by simp
  let ?dc = "\<lparr>dc_Component = ca, dc_UpdateType = UpdateT\<rparr>"
  let ?p3 = "p\<lparr>DirtyProperties := [], DirtyComponents := []\<rparr>"
  let ?w3 = "put_ent a ((obj w a)\<lparr>e_StatePatcher := Some ?p3\<rparr>) w"
  let ?w4 = "put_ent a ((obj w a)\<lparr>e_StatePatcher := Some ?p3, e_Components := omap_del d (e_Components (obj w a))\<rparr>)
    (emit_event (Ev_OnRemove cd) (emit_event (Ev_OnLocalDelete cd) w))"
  have emit_put: "emit_event ev (put_ent a e w) = put_ent a e (emit_event ev w)" for ev e w
    by (simp add: emit_event_def put_ent_def)
  let ?w2 = "put_ent a ((obj w a)\<lparr>e_StatePatcher := Some (p\<lparr>DirtyProperties := []\<rparr>)\<rparr>) w"
  have comps: "apply_dirty_components a [(k, ?dc)] 0 [None, None] ?w2 = Some ([Some (c_Id c, UpdateT), None], ?w2)"
    using c by simp
  have "RemoveComponentDirect a d False (emit_event (Ev_OnLocalDelete cd) ?w3) = Some (True, ?w4)"
    using assms(8) c by (simp add: RemoveComponentDirect_def ent_put_ent emit_put modify_ent_live upd_ent_def put_ent_twice)
  then have dels: "apply_deletions a [d] 0 0 FLAG_COMPONENTS [Some (c_Id c, UpdateT), None] ?w3
      = Some (FLAG_COMPONENTS, [Some (d, DeleteT), None], ?w4)"
    using assms(8) c flag by (simp add: ent_put_ent GetComponent_def)
  have upd: "modify_patcher a f (put_ent a e w') = Some (put_ent a (e\<lparr>e_StatePatcher := map_option f (e_StatePatcher e)\<rparr>) w')" for f e w'
    by (simp add: modify_patcher_live upd_ent_def put_ent_twice)
  have upd0: "modify_patcher a f w = Some (put_ent a ((obj w a)\<lparr>e_StatePatcher := map_option f (Some p)\<rparr>) w)" for f
    using assms(1,2) by (simp add: modify_patcher_live upd_ent_def)
  show ?thesis
    unfolding ApplyLocalPatch_def ent_Some [OF assms(1)] bind.bind_lunit assms(2-6)
    by (simp add: upd0 upd comps dels HasPendingPatch_def assms(3-6) del: apply_dirty_components.simps apply_deletions.simps)
qed

definition two_changes_patch :: patcher where
  "two_changes_patch = empty_patcher\<lparr>DirtyComponents := [(5, \<lparr>dc_Component = 2, dc_UpdateType = UpdateT\<rparr>)],
     TransientDeletionComponentIds := [6]\<rparr>"

definition two_changes :: world where
  "two_changes = put_comp 3 (marker\<lparr>c_Id := 6\<rparr>) (put_comp 2 marker (upd_ent 0 (\<lambda>e. e\<lparr>e_Components := [(5, 2), (6, 3)]\<rparr>)
     (online_one 1 two_changes_patch)))"

lemma removal_overwrites_update_info_witness:
  "\<exists>w1. ApplyLocalPatch 0 two_changes = Some ((16, [Some (6, DeleteT), None]), w1)"
proof -
  have "\<exists>w1. ApplyLocalPatch 0 two_changes = Some ((FLAG_COMPONENTS, [Some (6, DeleteT), None]), w1)
    \<and> map_option HasPendingPatch (e_StatePatcher (obj w1 0)) = Some False"
    by (rule removal_overwrites_update_info [where k = 5 and ca = 2 and cd = 3 and p = two_changes_patch])
      (simp_all add: two_changes_def two_changes_patch_def empty_patcher_def)
  then show ?thesis by (auto simp: FLAG_COMPONENTS_def)
qed

section \<open>The creation hook of a received component\<close>

lemma create_from_data_events:
  assumes "\<forall>(k, d) \<in> set m. k \<noteq> COMPONENT_KEY_COMPONENTTYPE \<longrightarrow> (\<exists>v. ToReplicatedValue d = Inr v)" "comp w ca \<noteq> None"
  shows "\<exists>w1. create_from_data ca m w = Some w1 \<and> w_Ents w1 = w_Ents w
    \<and> w_Events w1 = w_Events w @ replicate (length (filter (\<lambda>kv. fst kv \<noteq> COMPONENT_KEY_COMPONENTTYPE) m)) (Ev_OnCreated ca)"
  using assms
proof (induction ca m w rule: create_from_data.induct)
  case (2 ca Key Value m w)
  show ?case
  proof (cases "Key = COMPONENT_KEY_COMPONENTTYPE")
    case False
    then obtain v where v: "ToReplicatedValue Value = Inr v" using "2.prems"(1) by auto
    obtain c where c: "comp w ca = Some c" using "2.prems"(2) by blast
    let ?w1 = "put_comp ca (c\<lparr>c_Properties := omap_upd (ucast Key) v (c_Properties c)\<rparr>) w"
    have "modify_comp ca (\<lambda>c. c\<lparr>c_Properties := omap_upd (ucast Key) v (c_Properties c)\<rparr>) w = Some ?w1"
      using c by (simp add: modify_comp_def)
    then show ?thesis
      using "2.IH"(2) [OF False, of v ?w1] "2.prems"(1) v False
      by (auto simp: try_value_def replicate_append_same)
  qed (use 2 in auto)
qed simp


lemma sent_dict_size:
  assumes "packable c" "ToItemComponentData_component c = IU16Dict m"
  shows "length (filter (\<lambda>kv. fst kv \<noteq> COMPONENT_KEY_COMPONENTTYPE) m) = length (c_Properties c)"
    "\<forall>(k, d) \<in> set m. k \<noteq> COMPONENT_KEY_COMPONENTTYPE \<longrightarrow> (\<exists>v. ToReplicatedValue d = Inr v)"
proof -
  obtain m' where m': "ToItemComponentData_component c = IU16Dict m'" "omap_ok m'"
    "\<And>k. k \<noteq> COMPONENT_KEY_COMPONENTTYPE \<Longrightarrow> map_of m' k = map_option ToItemComponentData (map_of (sent_properties c) k)"
    using sent_dict [OF assms(1)] by metis
  with assms(2) have [simp]: "m' = m" by simp
  have dist: "distinct (map fst m)" using omap_ok_distinct m'(2) by simp
  have ty: "COMPONENT_KEY_COMPONENTTYPE \<notin> fst ` set (sent_properties c)"
  proof -
    have "map_of (c_Properties c) (ucast COMPONENT_KEY_COMPONENTTYPE) = None"
      using assms(1) by (auto simp: packable_def map_of_eq_None_iff)
    then show ?thesis using map_of_sent(2) [OF assms(1)] by (simp add: map_of_eq_None_iff [symmetric])
  qed
  let ?f = "filter (\<lambda>kv. fst kv \<noteq> COMPONENT_KEY_COMPONENTTYPE) m"
  have "fst ` set ?f = fst ` set (sent_properties c)"
  proof (intro set_eqI)
    fix k
    have "k \<in> fst ` set ?f \<longleftrightarrow> k \<noteq> COMPONENT_KEY_COMPONENTTYPE \<and> map_of m k \<noteq> None"
      unfolding map_of_eq_None_iff by force
    moreover have "k \<in> fst ` set (sent_properties c) \<longleftrightarrow> map_of (sent_properties c) k \<noteq> None"
      unfolding map_of_eq_None_iff by blast
    ultimately show "k \<in> fst ` set ?f \<longleftrightarrow> k \<in> fst ` set (sent_properties c)"
      using m'(3) [of k] ty by (cases "k = COMPONENT_KEY_COMPONENTTYPE") simp_all
  qed
  moreover have "distinct (map fst ?f)" using dist by (rule distinct_map_filter)
  ultimately have "length (map fst ?f) = length (map fst (sent_properties c))"
    using map_of_sent(1) [OF assms(1)] distinct_card [of "map fst ?f"] distinct_card [of "map fst (sent_properties c)"]
    by (simp only: set_map)
  then show "length ?f = length (c_Properties c)" by (simp add: sent_properties_def)
  have "\<exists>v. ToReplicatedValue d = Inr v" if kd: "(k, d) \<in> set m" and no: "k \<noteq> COMPONENT_KEY_COMPONENTTYPE" for k d
  proof -
    have "map_of m k = Some d" using dist kd by simp
    then obtain v where v: "map_of (c_Properties c) (ucast k) = Some v" "d = ToItemComponentData v"
      using m'(3) [OF no] map_of_sent(2) [OF assms(1), of k] by (cases "map_of (c_Properties c) (ucast k)") auto
    then have "rv_valid v" using assms(1) map_of_SomeD [OF v(1)] by (auto simp: packable_def)
    then show ?thesis using rv_roundtrip_valid(1) v(2) by auto
  qed
  then show "\<forall>(k, d) \<in> set m. k \<noteq> COMPONENT_KEY_COMPONENTTYPE \<longrightarrow> (\<exists>v. ToReplicatedValue d = Inr v)" by auto
qed

text \<open>
  The creation hook of a component that comes with an object message runs once for every property
  of the component, each time before the next property is set and before the component is
  entered in its entity; for a component without properties it never runs.
\<close>

theorem message_component_hook_runs_per_property:
  assumes "packable c" "a \<in> dom (w_Ents w)" "c_Type c \<noteq> CT_Invalid"
    "InstantiateComponent (Some (w_Registry w)) k (c_Type c) = Some c0"
  shows "\<exists>w1 ca. AddComponentFromItemComponentData a k (ToItemComponentData_component c) w = Some w1
    \<and> map_of (e_Components (obj w1 a)) k = Some ca
    \<and> w_Events w1 = w_Events w @ replicate (length (c_Properties c)) (Ev_OnCreated ca)"
proof -
  obtain m where m: "ToItemComponentData_component c = IU16Dict m" "component_type_in m = Some (c_Type c)"
    by (rule component_type_sent [OF assms(1)])
  let ?ca = "w_NextAddr w" let ?w1 = "(put_comp ?ca c0 w)\<lparr>w_NextAddr := ?ca + 1\<rparr>"
  have "comp ?w1 ?ca \<noteq> None" by simp
  from create_from_data_events [OF sent_dict_size(2) [OF assms(1) m(1)] this]
  obtain w2 where w2: "create_from_data ?ca m ?w1 = Some w2" "w_Ents w2 = w_Ents w"
    "w_Events w2 = w_Events w @ replicate (length (c_Properties c)) (Ev_OnCreated ?ca)"
    unfolding sent_dict_size(1) [OF assms(1) m(1)] by auto
  have live: "a \<in> dom (w_Ents w2)" using w2(2) assms(2) by simp
  show ?thesis
    using m assms(3,4) w2(1,3) by (simp add: AddComponentFromItemComponentData_def alloc_comp_def modify_ent_live [OF live])
qed

lemma message_component_hook_runs_per_property_witness:
  "\<exists>w1 ca. AddComponentFromItemComponentData 0 5 (ToItemComponentData_component marker)
       ((online_one 2 empty_patcher)\<lparr>w_Registry := ComponentSchemaRegistry []\<rparr>) = Some w1
    \<and> w_Events w1 = [Ev_OnCreated ca, Ev_OnCreated ca]"
proof -
  let ?w = "(online_one 2 empty_patcher)\<lparr>w_Registry := ComponentSchemaRegistry []\<rparr>"
  have "class_schema (c_Type marker) \<noteq> None"
    by (simp add: class_schema_def find_None_iff builtin_schemas_def FiducialMarker_schema_def marker_def new_component_def)
  moreover have "IsLegacyComponentTypeId (c_Type marker)" "c_Type marker \<noteq> CT_Invalid" "w_Events ?w = []"
    "length (c_Properties marker) = 2"
    by (simp_all add: IsLegacyComponentTypeId_def ToComponentType_def marker_def new_component_def CT_Invalid_def
        online_one_def new_world_def)
  moreover from this calculation obtain c0 where "InstantiateComponent (Some (w_Registry ?w)) 5 (c_Type marker) = Some c0"
    using builtin_component_instantiates [of "c_Type marker"] by fastforce
  moreover have "0 \<in> dom (w_Ents ?w)" by simp
  ultimately show ?thesis
    using message_component_hook_runs_per_property [OF marker_packable, of 0 ?w 5 c0] by (auto simp: numeral_2_eq_2)
qed

end
