(* ===== verification/Online_Outgoing.thy ===== *)
theory Online_Outgoing
  imports Online_Engine Patch_Components
begin

text \<open>
  How pending changes leave the online engine: the patches a destruction builds by hand are what
  the service messages define; the walk over the queue of modified entities is a filter; and
  every queued change is sent in the first tick its patch rate allows, packed, applied locally
  and taken out of the queue, whatever else is queued.
\<close>

section \<open>Patches built by hand\<close>

definition destruction_patch :: "u64 \<Rightarrow> u64 \<Rightarrow> ObjectPatch" where
  "destruction_patch c i = \<lparr>op_Id = i, op_OwnerId = c, op_Destroy = True, op_ShouldUpdateParent = False,
     op_ParentId = None, op_Components = None\<rparr>"

definition detach_patch :: "u64 \<Rightarrow> u64 \<Rightarrow> ObjectPatch" where
  "detach_patch c i = \<lparr>op_Id = i, op_OwnerId = c, op_Destroy = False, op_ShouldUpdateParent = True,
     op_ParentId = None, op_Components = None\<rparr>"

definition patches_params :: "ObjectPatch list \<Rightarrow> sig_value option" where
  "patches_params Patches = try_serialize (rbind (write_vector ObjectPatch_Serialize Patches (StartWriteArray []))
       (\<lambda>st. rbind (EndWriteArray st) Serializer_Get))"

lemma patches_params_enc:
  assumes "\<forall>m \<in> set Patches. components_ok (op_Components m)"
  shows "patches_params Patches = Some (SArr [SArr (map ObjectPatch_enc Patches)])"
  using writes_asD [OF object_patch.vector_writes [OF assms], of "[CArr []]"]
  by (simp add: patches_params_def StartWriteArray_def EndWriteArray_def Finalize_emit try_serialize_def Serializer_Get_def)

lemma try_read_patch:
  "components_ok (op_Components m) \<Longrightarrow> try_read ObjectPatch_Deserialize (ObjectPatch_enc m) = Some m"
  using ReadValue_root [OF reads_any_imp_reads [OF object_patch.reads_custom [of m]]]
  by (simp add: try_read_def)

text \<open>
  Destroying an entity sends patches built by hand instead of through the patch type. They are the
  same message: what the serialiser would write for a destruction of the entity followed by
  patches that move each child to the root, and a receiver reads them back as those patches.
\<close>

theorem hand_built_patches_are_patches:
  "patches_params (destruction_patch c i # map (detach_patch c) js)
     = Some (SArr [SArr (deletion_patch i c # map (\<lambda>j. child_parent_patch j c) js)])
   \<and> try_read ObjectPatch_Deserialize (deletion_patch i c) = Some (destruction_patch c i)
   \<and> (\<forall>j. try_read ObjectPatch_Deserialize (child_parent_patch j c) = Some (detach_patch c j))"
proof -
  have e: "ObjectPatch_enc (destruction_patch c i) = deletion_patch i c" "ObjectPatch_enc (detach_patch c j) = child_parent_patch j c" for j
    by (simp_all add: ObjectPatch_enc_def destruction_patch_def detach_patch_def deletion_patch_def child_parent_patch_def
        parent_enc_def components_enc_def)
  have ok: "components_ok (op_Components (destruction_patch c i))" "components_ok (op_Components (detach_patch c j))" for j
    by (simp_all add: destruction_patch_def detach_patch_def)
  show ?thesis
    using patches_params_enc [of "destruction_patch c i # map (detach_patch c) js"] try_read_patch [OF ok(1)]
      try_read_patch [OF ok(2)] ok by (simp add: e o_def)
qed

section \<open>The walk over the outgoing set\<close>

definition is_due :: "(addr \<Rightarrow> nat) \<Rightarrow> world \<Rightarrow> addr \<Rightarrow> bool" where
  "is_due Clock w a \<longleftrightarrow> due (Clock a) (w_Settings w) (the (e_StatePatcher (obj w a)))"

definition is_sent :: "(addr \<Rightarrow> nat) \<Rightarrow> world \<Rightarrow> addr \<Rightarrow> bool" where
  "is_sent Clock w a \<longleftrightarrow> is_due Clock w a \<and> IsModifiable (w_Kind w) (obj w a) = Some Modifiable"

definition claimed :: "(addr \<Rightarrow> nat) \<Rightarrow> world \<Rightarrow> addr \<Rightarrow> entity" where
  "claimed Clock w a = (obj w a)\<lparr>e_OwnerId := local_client_id (w_Kind w),
     e_StatePatcher := map_option (SetTimeOfLastPatch (Clock a)) (e_StatePatcher (obj w a))\<rparr>"

definition sent_events :: "world \<Rightarrow> addr list \<Rightarrow> event list" where
  "sent_events w as = map (\<lambda>a. Ev_patch_sent a True) (filter (\<lambda>a. PatchSentCallback (the (e_StatePatcher (obj w a)))) as)"

definition collect_spec :: "(addr \<Rightarrow> nat) \<Rightarrow> addr list \<Rightarrow> world \<Rightarrow> world" where
  "collect_spec Clock as w = w\<lparr>
     w_Ents := (\<lambda>b. if b \<in> set as \<and> is_sent Clock w b then Some (claimed Clock w b) else w_Ents w b),
     PendingOutgoing := filter (\<lambda>b. \<not> (b \<in> set as \<and> is_due Clock w b)) (PendingOutgoing w),
     w_Events := w_Events w @ sent_events w (filter (is_sent Clock w) as)\<rparr>"

lemma remove1_distinct_filter: "distinct xs \<Longrightarrow> remove1 a xs = filter (\<lambda>b. b \<noteq> a) xs"
  by (induction xs) (auto intro!: filter_True [symmetric])

lemma is_cong:
  "obj w' b = obj w b \<Longrightarrow> w_Kind w' = w_Kind w \<Longrightarrow> w_Settings w' = w_Settings w \<Longrightarrow>
   is_sent Clock w' b = is_sent Clock w b \<and> is_due Clock w' b = is_due Clock w b \<and> claimed Clock w' b = claimed Clock w b"
  by (simp add: is_sent_def is_due_def claimed_def)

lemma collect_spec_fields [simp]:
  "w_Ents (collect_spec Clock as w) b = (if b \<in> set as \<and> is_sent Clock w b then Some (claimed Clock w b) else w_Ents w b)"
  "w_Kind (collect_spec Clock as w) = w_Kind w" "w_Settings (collect_spec Clock as w) = w_Settings w"
  "PendingOutgoing (collect_spec Clock as w) = filter (\<lambda>b. \<not> (b \<in> set as \<and> is_due Clock w b)) (PendingOutgoing w)"
  "w_Events (collect_spec Clock as w) = w_Events w @ sent_events w (filter (is_sent Clock w) as)"
  "Entities (collect_spec Clock as w) = Entities w" "PendingAdds (collect_spec Clock as w) = PendingAdds w"
  "RootHierarchyEntities (collect_spec Clock as w) = RootHierarchyEntities w"
  "obj (collect_spec Clock as w) b = (if b \<in> set as \<and> is_sent Clock w b then claimed Clock w b else obj w b)"
  by (simp_all add: collect_spec_def obj_def ent_def)

lemma collect_spec_Cons:
  assumes "a \<notin> set as"
  shows "collect_spec Clock as (collect_spec Clock [a] w) = collect_spec Clock (a # as) w"
proof -
  let ?w = "collect_spec Clock [a] w"
  have "obj ?w b = obj w b" if "b \<in> set as" for b using that assms by auto
  then have i: "is_sent Clock ?w b = is_sent Clock w b" "is_due Clock ?w b = is_due Clock w b"
      "claimed Clock ?w b = claimed Clock w b" "obj ?w b = obj w b" if "b \<in> set as" for b
    using that is_cong [of ?w b w Clock] by simp_all
  have f: "filter (is_sent Clock ?w) as = filter (is_sent Clock w) as" by (rule filter_cong) (simp_all add: i)
  have e: "sent_events ?w (filter (is_sent Clock w) as) = sent_events w (filter (is_sent Clock w) as)"
    unfolding sent_events_def by (rule arg_cong [of _ _ "map _"], rule filter_cong [OF refl]) (use assms in auto)
  show ?thesis
  proof (rule world.equality)
    show "w_Ents (collect_spec Clock as ?w) = w_Ents (collect_spec Clock (a # as) w)"
      using i assms by (intro ext) auto
    show "PendingOutgoing (collect_spec Clock as ?w) = PendingOutgoing (collect_spec Clock (a # as) w)"
      using i assms by (auto intro: filter_cong)
    show "w_Events (collect_spec Clock as ?w) = w_Events (collect_spec Clock (a # as) w)"
      by (simp add: f e) (simp add: sent_events_def)
  qed (simp_all add: collect_spec_def)
qed

lemma collect_outgoing_step:
  assumes "a \<in> dom (w_Ents w)" "e_StatePatcher (obj w a) \<noteq> None" "w_Kind w = Online c" "distinct (PendingOutgoing w)"
  shows "collect_outgoing Clock (a # as) w = do {
     (r, w') \<leftarrow> collect_outgoing Clock as (collect_spec Clock [a] w);
     Some ((if is_sent Clock w a then [a] else []) @ r, w') }"
proof -
  obtain p where p: "e_StatePatcher (obj w a) = Some p" using assms(2) by auto
  note e = ent_Some [OF assms(1)]
  obtain m where m: "IsModifiable (w_Kind w) (obj w a) = Some m"
    using assms(3) p by (cases "IsModifiable (w_Kind w) (obj w a)")
      (auto simp: IsModifiable_def IsEntityModifiable_online_def Let_def split: if_splits)
  have due: "due (Clock a) (w_Settings w) p \<longleftrightarrow> is_due Clock w a" by (simp add: is_due_def p)
  consider (sent) "is_due Clock w a" "m = Modifiable" | (dropped) "is_due Clock w a" "m \<noteq> Modifiable" | (early) "\<not> is_due Clock w a"
    by blast
  then show ?thesis
  proof cases
    case sent
    let ?w1 = "upd_ent a (\<lambda>e. e\<lparr>e_OwnerId := local_client_id (w_Kind w)\<rparr>) w"
    define w2 where "w2 = (if PatchSentCallback p then emit_event (Ev_patch_sent a True) ?w1 else ?w1)"
    let ?w3 = "upd_ent a (\<lambda>e. e\<lparr>e_StatePatcher := map_option (SetTimeOfLastPatch (Clock a)) (e_StatePatcher e)\<rparr>) w2"
    have live: "a \<in> dom (w_Ents w2)" by (simp add: w2_def emit_event_def)
    have s: "is_sent Clock w a" using sent m by (simp add: is_sent_def)
    have "?w3\<lparr>PendingOutgoing := remove1 a (PendingOutgoing ?w3)\<rparr> = collect_spec Clock [a] w"
      by (rule world.equality)
        (use sent s p remove1_distinct_filter [OF assms(4), of a] in
          \<open>auto simp: w2_def emit_event_def upd_ent_def put_ent_def collect_spec_def claimed_def sent_events_def obj_def ent_def fun_eq_iff
             intro!: filter_cong\<close>)
    then show ?thesis
      using sent m due s
      by (simp add: e p SetOwnerId_def modify_ent_live [OF assms(1)] w2_def [symmetric] modify_patcher_live [OF live] del: upd_ent_lists)
  next
    case dropped
    then have s: "\<not> is_sent Clock w a" using m by (simp add: is_sent_def)
    have "w\<lparr>PendingOutgoing := remove1 a (PendingOutgoing w)\<rparr> = collect_spec Clock [a] w"
      by (rule world.equality)
        (use dropped s remove1_distinct_filter [OF assms(4), of a] in
          \<open>auto simp: collect_spec_def sent_events_def fun_eq_iff intro!: filter_cong\<close>)
    then show ?thesis using dropped m due s by (simp add: e p)
  next
    case early
    then have s: "\<not> is_sent Clock w a" by (simp add: is_sent_def)
    have "w = collect_spec Clock [a] w"
      by (rule world.equality) (use early s in \<open>auto simp: collect_spec_def sent_events_def fun_eq_iff intro!: filter_True [symmetric]\<close>)
    then show ?thesis using early m due s by (simp add: e p)
  qed
qed

lemma collect_outgoing_refines:
  assumes "distinct as" "\<forall>a \<in> set as. a \<in> dom (w_Ents w) \<and> e_StatePatcher (obj w a) \<noteq> None"
    "w_Kind w = Online c" "distinct (PendingOutgoing w)"
  shows "collect_outgoing Clock as w = Some (filter (is_sent Clock w) as, collect_spec Clock as w)"
  using assms
proof (induction as arbitrary: w)
  case Nil
  have "collect_spec Clock [] w = w"
    by (rule world.equality) (simp_all add: collect_spec_def sent_events_def)
  then show ?case by simp
next
  case (Cons a as)
  let ?w = "collect_spec Clock [a] w"
  have a: "a \<in> dom (w_Ents w)" "e_StatePatcher (obj w a) \<noteq> None" "a \<notin> set as" using Cons.prems(1,2) by auto
  have o: "obj ?w b = obj w b" "w_Ents ?w b = w_Ents w b" if "b \<in> set as" for b using that a(3) by auto
  have "\<forall>b \<in> set as. b \<in> dom (w_Ents ?w) \<and> e_StatePatcher (obj ?w b) \<noteq> None"
    using Cons.prems(2) o by (simp add: domIff)
  then have "collect_outgoing Clock as ?w = Some (filter (is_sent Clock ?w) as, collect_spec Clock as ?w)"
    by (rule Cons.IH [rotated]) (use Cons.prems(1,3,4) in simp_all)
  moreover have "filter (is_sent Clock ?w) as = filter (is_sent Clock w) as"
    by (rule filter_cong) (use o is_cong [of ?w _ w] in auto)
  ultimately show ?case
    using collect_outgoing_step [OF a(1,2) Cons.prems(3,4)] collect_spec_Cons [OF a(3)] by (simp del: collect_outgoing.simps)
qed

section \<open>Sending and applying\<close>

text \<open>Pending changes of properties and parent only.\<close>

definition property_changes :: "patcher \<Rightarrow> bool" where
  "property_changes p \<longleftrightarrow> DirtyComponents p = [] \<and> TransientDeletionComponentIds p = [] \<and> valid_changes (DirtyProperties p)"

definition patch_of :: "world \<Rightarrow> addr \<Rightarrow> ObjectPatch" where
  "patch_of w a = (let p = the (e_StatePatcher (obj w a)) in
     \<lparr>op_Id = e_Id (obj w a), op_OwnerId = e_OwnerId (obj w a), op_Destroy = False,
      op_ShouldUpdateParent = (NewParentId p \<noteq> None),
      op_ParentId = (case NewParentId p of None \<Rightarrow> e_ParentId (obj w a) | Some v \<Rightarrow> v),
      op_Components = Some (pack_changes (packed_changes (DirtyProperties p)))\<rparr>)"

definition changes_pending :: "world \<Rightarrow> addr \<Rightarrow> bool" where
  "changes_pending w a \<longleftrightarrow> a \<in> dom (w_Ents w) \<and> (\<exists>p. e_StatePatcher (obj w a) = Some p \<and> property_changes p)"

lemma create_patches_of_changes:
  "\<forall>a \<in> set as. changes_pending w a \<Longrightarrow> create_patches as w = Some (map (patch_of w) as)"
proof (induction as)
  case (Cons a as)
  then obtain p where "a \<in> dom (w_Ents w)" "e_StatePatcher (obj w a) = Some p" "property_changes p"
    by (auto simp: changes_pending_def)
  then show ?case using Cons object_patch_of_changes [of a w p] by (simp add: property_changes_def patch_of_def)
qed simp

lemma SendPatches_of_changes:
  assumes "\<forall>a \<in> set as. changes_pending w a"
  shows "SendPatches as w = Some (emit_event (Ev_invoke SEND_OBJECT_PATCHES (SArr [SArr (map (ObjectPatch_enc \<circ> patch_of w) as)])) w)"
proof -
  have "components_ok (op_Components (patch_of w a))" if "a \<in> set as" for a
  proof -
    obtain p where "e_StatePatcher (obj w a) = Some p" "valid_changes (DirtyProperties p)"
      using assms \<open>a \<in> set as\<close> by (auto simp: changes_pending_def property_changes_def)
    then show ?thesis using pack_changes_ok [OF packed_changes(2,3)] by (simp add: patch_of_def)
  qed
  then show ?thesis
    using patches_params_enc [of "map (patch_of w) as"] create_patches_of_changes [OF assms]
    by (simp add: SendPatches_def patches_params_def)
qed

definition patched :: "world \<Rightarrow> addr \<Rightarrow> world \<Rightarrow> bool" where
  "patched w a w' \<longleftrightarrow> (let p = the (e_StatePatcher (obj w a)) in
     (\<forall>k \<in> set replicated_keys. prop_get k (obj w' a) = changed_value (DirtyProperties p) k (obj w a))
     \<and> e_ParentId (obj w' a) = (case NewParentId p of None \<Rightarrow> e_ParentId (obj w a) | Some v \<Rightarrow> v)
     \<and> e_OwnerId (obj w' a) = e_OwnerId (obj w a)
     \<and> e_StatePatcher (obj w' a) = Some (p\<lparr>DirtyProperties := [], NewParentId := None\<rparr>))"

lemma update_event_rest [simp]: "world_rest (update_event a f us w) = world_rest w"
  "PendingOutgoing (update_event a f us w) = PendingOutgoing w" "w_Settings (update_event a f us w) = w_Settings w"
  "w_Kind (update_event a f us w) = w_Kind w"
  by (auto simp: update_event_def emit_event_def world_rest_def split: option.split)

lemma apply_local_patch_of_changes:
  assumes "hier S {} w" "a \<in> S" "changes_pending w a" "\<not> self"
  shows "\<exists>w1. SpaceEntity_ApplyLocalPatch a True self w = Some w1 \<and> hier S {} w1 \<and> patched w a w1
    \<and> (\<forall>b. b \<noteq> a \<longrightarrow> strip_links (obj w1 b) = strip_links (obj w b) \<and> e_ParentId (obj w1 b) = e_ParentId (obj w b))
    \<and> world_rest w1 = world_rest w \<and> set (w_Events w) \<subseteq> set (w_Events w1)"
proof -
  obtain p where p: "e_StatePatcher (obj w a) = Some p" "property_changes p" "a \<in> dom (w_Ents w)"
    using assms(3) by (auto simp: changes_pending_def)
  obtain w1 f where w1: "ApplyLocalPatch a w = Some ((f, []), w1)" "hier S {} w1"
    "\<forall>k \<in> set replicated_keys. prop_get k (obj w1 a) = changed_value (DirtyProperties p) k (obj w a)"
    "e_ParentId (obj w1 a) = (case NewParentId p of None \<Rightarrow> e_ParentId (obj w a) | Some v \<Rightarrow> v)"
    "e_OwnerId (obj w1 a) = e_OwnerId (obj w a)"
    "e_StatePatcher (obj w1 a) = Some (p\<lparr>DirtyProperties := [], NewParentId := None\<rparr>)"
    "\<forall>b. b \<noteq> a \<longrightarrow> strip_links (obj w1 b) = strip_links (obj w b) \<and> e_ParentId (obj w1 b) = e_ParentId (obj w b)"
    "world_rest w1 = world_rest w" "w_Events w1 = w_Events w"
    using local_patch_of_changes [OF assms(1,2) p(1)] p(2) unfolding property_changes_def by blast
  let ?w = "update_event a f [] w1"
  have "SpaceEntity_ApplyLocalPatch a True self w = Some ?w"
    using p w1(1) assms(4) by (simp add: SpaceEntity_ApplyLocalPatch_def ent_Some)
  moreover have "set (w_Events w) \<subseteq> set (w_Events ?w)"
    by (auto simp: update_event_def emit_event_def w1(9) split: option.split)
  moreover have "hier S {} ?w" using w1(2) by simp
  ultimately show ?thesis using w1(3-8) p(1) by (intro exI [of _ ?w]) (simp add: patched_def)
qed

lemma world_restD:
  assumes "world_rest w' = world_rest w"
  shows "Entities w' = Entities w" "PendingAdds w' = PendingAdds w" "w_Kind w' = w_Kind w" "w_Settings w' = w_Settings w"
    "PendingOutgoing w' = PendingOutgoing w" "PendingRemoves w' = PendingRemoves w" "w_Comps w' = w_Comps w"
  using arg_cong [OF assms, of Entities] arg_cong [OF assms, of PendingAdds] arg_cong [OF assms, of w_Kind]
    arg_cong [OF assms, of w_Settings] arg_cong [OF assms, of PendingOutgoing] arg_cong [OF assms, of PendingRemoves]
    arg_cong [OF assms, of w_Comps]
  by (simp_all add: world_rest_def)

lemma patched_cong:
  assumes "strip_links (obj v a) = strip_links (obj w a)" "e_ParentId (obj v a) = e_ParentId (obj w a)"
  shows "patched v a w' = patched w a w'"
proof -
  have s: "e_StatePatcher (obj v a) = e_StatePatcher (obj w a)" by (rule strip_linksD(3) [OF assms(1)])
  have o: "e_OwnerId (obj v a) = e_OwnerId (obj w a)" using arg_cong [OF assms(1), of e_OwnerId] by (simp add: strip_links_def)
  have "changed_value m k (obj v a) = changed_value m k (obj w a)" for m k
    unfolding changed_value_def prop_get_cong [OF assms(1)] ..
  then show ?thesis by (simp only: patched_def s o assms(2))
qed

lemma patched_keeps:
  assumes "patched w a w1" "strip_links (obj w2 a) = strip_links (obj w1 a)" "e_ParentId (obj w2 a) = e_ParentId (obj w1 a)"
  shows "patched w a w2"
proof -
  have s: "e_StatePatcher (obj w2 a) = e_StatePatcher (obj w1 a)" by (rule strip_linksD(3) [OF assms(2)])
  have o: "e_OwnerId (obj w2 a) = e_OwnerId (obj w1 a)" using arg_cong [OF assms(2), of e_OwnerId] by (simp add: strip_links_def)
  show ?thesis using assms(1) unfolding patched_def s o assms(3) prop_get_cong [OF assms(2)] .
qed

lemma changes_pending_cong:
  assumes "strip_links (obj v a) = strip_links (obj w a)" "a \<in> dom (w_Ents v) \<longleftrightarrow> a \<in> dom (w_Ents w)"
  shows "changes_pending v a = changes_pending w a"
  unfolding changes_pending_def assms(2) strip_linksD(3) [OF assms(1)] ..

lemma apply_local_patches_of_changes:
  assumes "hier S {} w" "set as \<subseteq> S" "distinct as" "\<forall>a \<in> set as. changes_pending w a"
    "\<not> AllowSelfMessagingFlag (w_Settings w)"
  shows "\<exists>w1. apply_local_patches as w = Some w1 \<and> hier S {} w1 \<and> (\<forall>a \<in> set as. patched w a w1)
    \<and> (\<forall>b. b \<notin> set as \<longrightarrow> strip_links (obj w1 b) = strip_links (obj w b) \<and> e_ParentId (obj w1 b) = e_ParentId (obj w b))
    \<and> world_rest w1 = world_rest w \<and> set (w_Events w) \<subseteq> set (w_Events w1)"
  using assms
proof (induction as arbitrary: w)
  case (Cons a as)
  obtain w1 where w1: "SpaceEntity_ApplyLocalPatch a True (AllowSelfMessagingFlag (w_Settings w)) w = Some w1" "hier S {} w1"
    "patched w a w1" "\<forall>b. b \<noteq> a \<longrightarrow> strip_links (obj w1 b) = strip_links (obj w b) \<and> e_ParentId (obj w1 b) = e_ParentId (obj w b)"
    "world_rest w1 = world_rest w" "set (w_Events w) \<subseteq> set (w_Events w1)"
    using apply_local_patch_of_changes [OF Cons.prems(1), of a "AllowSelfMessagingFlag (w_Settings w)"] Cons.prems(2,4,5) by auto
  have s: "strip_links (obj w1 b) = strip_links (obj w b)" "e_ParentId (obj w1 b) = e_ParentId (obj w b)" if "b \<in> set as" for b
    using that Cons.prems(3) w1(4) by auto
  have "changes_pending w1 b" if b: "b \<in> set as" for b
  proof -
    have "b \<in> S" using b Cons.prems(2) by auto
    then have "b \<in> dom (w_Ents w1) \<longleftrightarrow> b \<in> dom (w_Ents w)" using hierD(1) w1(2) Cons.prems(1) by blast
    from changes_pending_cong [OF s(1) [OF b] this] show ?thesis using b Cons.prems(4) by simp
  qed
  then obtain w2 where w2: "apply_local_patches as w1 = Some w2" "hier S {} w2" "\<forall>b \<in> set as. patched w1 b w2"
    "\<forall>b. b \<notin> set as \<longrightarrow> strip_links (obj w2 b) = strip_links (obj w1 b) \<and> e_ParentId (obj w2 b) = e_ParentId (obj w1 b)"
    "world_rest w2 = world_rest w1" "set (w_Events w1) \<subseteq> set (w_Events w2)"
    using Cons.IH [OF w1(2)] Cons.prems(2,3,5) world_restD(4) [OF w1(5)] by auto
  have "patched w a w2" using patched_keeps [OF w1(3)] w2(4) Cons.prems(3) by simp
  moreover have "patched w b w2" if "b \<in> set as" for b using bspec [OF w2(3) that] patched_cong [OF s(1) [OF that] s(2) [OF that]] by simp
  ultimately show ?case
    using w1(1,4-6) w2(1,2,4-6) by (intro exI [of _ w2]) auto
qed simp

section \<open>Every queued change is sent\<close>

lemma collect_keeps:
  assumes "hier S {} w" "set as \<subseteq> S"
  shows "hier S {} (collect_spec Clock as w)"
proof (rule hier_shape_cong [OF assms(1)])
  show "dom (w_Ents w) \<subseteq> dom (w_Ents (collect_spec Clock as w))" by (auto simp: collect_spec_def split: if_splits)
qed (auto simp: claimed_def shape_def known_def split: engine_kind.split)

lemma claimed_fields [simp]:
  "prop_get k (claimed Clock w a) = prop_get k (obj w a)" "e_ParentId (claimed Clock w a) = e_ParentId (obj w a)"
  "e_Id (claimed Clock w a) = e_Id (obj w a)" "e_OwnerId (claimed Clock w a) = local_client_id (w_Kind w)"
  "e_StatePatcher (claimed Clock w a) = map_option (SetTimeOfLastPatch (Clock a)) (e_StatePatcher (obj w a))"
  by (simp_all add: claimed_def prop_get_def)

lemma SetTimeOfLastPatch_fields [simp]:
  "DirtyProperties (SetTimeOfLastPatch t p) = DirtyProperties p" "DirtyComponents (SetTimeOfLastPatch t p) = DirtyComponents p"
  "TransientDeletionComponentIds (SetTimeOfLastPatch t p) = TransientDeletionComponentIds p"
  "NewParentId (SetTimeOfLastPatch t p) = NewParentId p" "TimeOfLastPatch (SetTimeOfLastPatch t p) = t"
  by (simp_all add: SetTimeOfLastPatch_def)

text \<open>The patch of a sent entity: its pending changes, owned by this client.\<close>

definition sent_patch :: "world \<Rightarrow> addr \<Rightarrow> ObjectPatch" where
  "sent_patch w a = (patch_of w a)\<lparr>op_OwnerId := local_client_id (w_Kind w)\<rparr>"

definition outgoing_ready :: "addr set \<Rightarrow> world \<Rightarrow> bool" where
  "outgoing_ready S w \<longleftrightarrow> hier S {} w \<and> w_Kind w \<noteq> Offline \<and> set (PendingOutgoing w) \<subseteq> S \<and> distinct (PendingOutgoing w)
     \<and> (\<forall>a \<in> set (PendingOutgoing w). changes_pending w a) \<and> \<not> AllowSelfMessagingFlag (w_Settings w)"

lemma process_outgoing_of_changes:
  fixes Clock :: "addr \<Rightarrow> nat"
  assumes r: "outgoing_ready S w"
  defines "sent \<equiv> filter (is_sent Clock w) (PendingOutgoing w)"
  shows "\<exists>w1. process_outgoing Clock w = Some w1 \<and> hier S {} w1
    \<and> PendingOutgoing w1 = filter (\<lambda>b. \<not> is_due Clock w b) (PendingOutgoing w)
    \<and> (sent \<noteq> [] \<longrightarrow> Ev_invoke SEND_OBJECT_PATCHES (SArr [SArr (map (ObjectPatch_enc \<circ> sent_patch w) sent)]) \<in> set (w_Events w1))
    \<and> (\<forall>a \<in> set sent. patched (collect_spec Clock (PendingOutgoing w) w) a w1)"
proof -
  let ?c = "collect_spec Clock (PendingOutgoing w) w"
  have h: "hier S {} w" and k: "w_Kind w \<noteq> Offline" and q: "set (PendingOutgoing w) \<subseteq> S" "distinct (PendingOutgoing w)"
    and p: "\<forall>a \<in> set (PendingOutgoing w). changes_pending w a" and s: "\<not> AllowSelfMessagingFlag (w_Settings w)"
    using r unfolding outgoing_ready_def by blast+
  obtain c where c: "w_Kind w = Online c" using k by (cases "w_Kind w") auto
  have walk: "collect_outgoing Clock (PendingOutgoing w) w = Some (sent, ?c)"
    unfolding sent_def by (rule collect_outgoing_refines [OF q(2) _ c q(2)]) (use p in \<open>auto simp: changes_pending_def\<close>)
  have hc: "hier S {} ?c" by (rule collect_keeps [OF h q(1)])
  have oc: "obj ?c a = claimed Clock w a" if "a \<in> set sent" for a using that by (auto simp: sent_def)
  have pc: "changes_pending ?c a" if "a \<in> set sent" for a
    using that p oc [OF that] by (auto simp: sent_def changes_pending_def property_changes_def dom_def)
  have po: "patch_of ?c a = sent_patch w a" if "a \<in> set sent" for a
  proof -
    obtain p where "e_StatePatcher (obj w a) = Some p" using \<open>a \<in> set sent\<close> p by (auto simp: sent_def changes_pending_def)
    then show ?thesis by (simp only: sent_patch_def patch_of_def Let_def oc [OF that]) (simp split: option.split)
  qed
  have qc: "PendingOutgoing ?c = filter (\<lambda>b. \<not> is_due Clock w b) (PendingOutgoing w)" by (auto intro: filter_cong)
  show ?thesis
  proof (cases "sent = []")
    case True
    then show ?thesis
      unfolding process_outgoing_def walk using hc qc by simp
  next
    case False
    define w2 where "w2 = emit_event (Ev_invoke SEND_OBJECT_PATCHES (SArr [SArr (map (ObjectPatch_enc \<circ> sent_patch w) sent)])) ?c"
    have enc: "map (ObjectPatch_enc \<circ> patch_of ?c) sent = map (ObjectPatch_enc \<circ> sent_patch w) sent" using po by simp
    have send: "SendPatches sent ?c = Some w2"
      unfolding w2_def enc [symmetric] by (rule SendPatches_of_changes) (use pc in blast)
    have o2: "obj w2 = obj ?c" "w_Ents w2 = w_Ents ?c" by (simp_all add: w2_def emit_event_def obj_def ent_def fun_eq_iff)
    have h2: "hier S {} w2" by (rule hier_cong [OF hc]) (simp_all add: w2_def emit_event_def known_def split: engine_kind.split)
    have pend: "\<forall>a \<in> set sent. changes_pending w2 a" using pc unfolding changes_pending_def o2 by blast
    have sub: "set sent \<subseteq> S" "distinct sent" using q by (auto simp: sent_def)
    have s2: "\<not> AllowSelfMessagingFlag (w_Settings w2)" using s by (simp add: w2_def emit_event_def)
    obtain w3 where w3: "apply_local_patches sent w2 = Some w3" "hier S {} w3" "\<forall>a \<in> set sent. patched w2 a w3"
      "world_rest w3 = world_rest w2" "set (w_Events w2) \<subseteq> set (w_Events w3)"
      using apply_local_patches_of_changes [OF h2 sub pend s2] by blast
    have "patched ?c a w3" if "a \<in> set sent" for a using w3(3) that unfolding patched_def o2 by blast
    moreover have "PendingOutgoing w3 = PendingOutgoing ?c" using world_restD(5) [OF w3(4)] by (simp add: w2_def emit_event_def)
    moreover have "Ev_invoke SEND_OBJECT_PATCHES (SArr [SArr (map (ObjectPatch_enc \<circ> sent_patch w) sent)]) \<in> set (w_Events w3)"
      using w3(5) by (auto simp: w2_def emit_event_def)
    ultimately show ?thesis
      using False w3(1,2) qc send by (intro exI [of _ w3]) (simp add: process_outgoing_def walk)
  qed
qed

lemma QueueEntityUpdate_queues:
  assumes "outgoing_ready S w" "a \<in> S" "changes_pending w a" "e_StatePatcher (obj w a) = Some p" "HasPendingPatch p"
    "IsModifiable (w_Kind w) (obj w a) = Some Modifiable"
  shows "\<exists>q. QueueEntityUpdate a w = Some (w\<lparr>PendingOutgoing := q\<rparr>) \<and> a \<in> set q \<and> outgoing_ready S (w\<lparr>PendingOutgoing := q\<rparr>)"
proof -
  define q where "q = (if a \<in> set (PendingOutgoing w) then PendingOutgoing w else a # PendingOutgoing w)"
  have live: "a \<in> dom (w_Ents w)" using assms(3) by (simp add: changes_pending_def)
  have "QueueEntityUpdate a w = Some (w\<lparr>PendingOutgoing := q\<rparr>)"
    using assms(4-6) by (simp add: QueueEntityUpdate_def ent_Some [OF live] q_def)
  moreover have "outgoing_ready S (w\<lparr>PendingOutgoing := q\<rparr>)"
  proof -
    have o: "obj (w\<lparr>PendingOutgoing := q\<rparr>) = obj w" by (simp add: obj_def ent_def fun_eq_iff)
    have h: "hier S {} w" using assms(1) by (simp add: outgoing_ready_def)
    have "hier S {} (w\<lparr>PendingOutgoing := q\<rparr>)"
      by (rule hier_cong [OF h]) (simp_all add: known_def split: engine_kind.split)
    moreover have "set q \<subseteq> S" "distinct q" "\<forall>a \<in> set q. changes_pending w a"
      using assms(1-3) by (auto simp: q_def outgoing_ready_def)
    ultimately show ?thesis using assms(1) by (simp add: outgoing_ready_def changes_pending_def o)
  qed
  ultimately show ?thesis by (intro exI [of _ q]) (simp add: q_def)
qed

text \<open>
  C3. Queued changes are sent: an entity whose pending changes the client queues is, in any tick
  that comes once the patch rate allows it, taken out of the queue and its patch is among those
  sent to the service; the changes are then effective locally, none stays pending, and the
  entity belongs to this client. The entity and all others in the queue have changes of
  properties and parents pending, none of components, and self messaging is off - with it on the
  changes take effect when the service sends them back.
\<close>

theorem queued_changes_are_sent:
  assumes "outgoing_ready S w" "a \<in> S" "changes_pending w a" "e_StatePatcher (obj w a) = Some p" "HasPendingPatch p"
    "IsModifiable (w_Kind w) (obj w a) = Some Modifiable"
  shows "\<exists>w1. QueueEntityUpdate a w = Some w1 \<and>
    (\<forall>Clock. TimeOfLastPatch p + EntityPatchRate (w_Settings w) \<le> Clock a \<longrightarrow>
      (\<exists>w2 ms. process_outgoing Clock w1 = Some w2 \<and> a \<notin> set (PendingOutgoing w2)
        \<and> Ev_invoke SEND_OBJECT_PATCHES (SArr [SArr ms]) \<in> set (w_Events w2) \<and> ObjectPatch_enc (sent_patch w a) \<in> set ms
        \<and> (\<forall>k \<in> set replicated_keys. prop_get k (obj w2 a) = changed_value (DirtyProperties p) k (obj w a))
        \<and> e_OwnerId (obj w2 a) = local_client_id (w_Kind w)
        \<and> (\<exists>p2. e_StatePatcher (obj w2 a) = Some p2 \<and> \<not> HasPendingPatch p2 \<and> TimeOfLastPatch p2 = Clock a)))"
proof -
  obtain q where q: "QueueEntityUpdate a w = Some (w\<lparr>PendingOutgoing := q\<rparr>)" "a \<in> set q" "outgoing_ready S (w\<lparr>PendingOutgoing := q\<rparr>)"
    using QueueEntityUpdate_queues [OF assms] by blast
  let ?w = "w\<lparr>PendingOutgoing := q\<rparr>"
  have o: "obj ?w = obj w" by (simp add: obj_def ent_def fun_eq_iff)
  show ?thesis
  proof (rule exI [of _ ?w], intro conjI allI impI)
    fix Clock :: "addr \<Rightarrow> nat" assume t: "TimeOfLastPatch p + EntityPatchRate (w_Settings w) \<le> Clock a"
    let ?sent = "filter (is_sent Clock ?w) q"
    have d: "is_due Clock ?w a" using t assms(4) by (simp add: is_due_def due_def o)
    then have a: "a \<in> set ?sent" using q(2) assms(6) by (simp add: is_sent_def o)
    then have ne: "?sent \<noteq> []" by (metis list.set(1) empty_iff)
    obtain w2 where w2: "process_outgoing Clock ?w = Some w2" "PendingOutgoing w2 = filter (\<lambda>b. \<not> is_due Clock ?w b) q"
      "Ev_invoke SEND_OBJECT_PATCHES (SArr [SArr (map (ObjectPatch_enc \<circ> sent_patch ?w) ?sent)]) \<in> set (w_Events w2)"
      "patched (collect_spec Clock q ?w) a w2"
      using process_outgoing_of_changes [OF q(3), of Clock] a ne by auto
    have cl: "obj (collect_spec Clock q ?w) a = claimed Clock ?w a" using a by simp
    have "sent_patch ?w a = sent_patch w a" by (simp only: sent_patch_def patch_of_def o) simp
    then have "ObjectPatch_enc (sent_patch w a) \<in> set (map (ObjectPatch_enc \<circ> sent_patch ?w) ?sent)"
      using a by (metis (no_types, lifting) comp_apply image_eqI list.set_map)
    moreover have "changed_value m k (claimed Clock ?w a) = changed_value m k (obj w a)" for m k
      by (simp add: changed_value_def o split: option.split)
    ultimately show "\<exists>w2 ms. process_outgoing Clock ?w = Some w2 \<and> a \<notin> set (PendingOutgoing w2)
        \<and> Ev_invoke SEND_OBJECT_PATCHES (SArr [SArr ms]) \<in> set (w_Events w2) \<and> ObjectPatch_enc (sent_patch w a) \<in> set ms
        \<and> (\<forall>k \<in> set replicated_keys. prop_get k (obj w2 a) = changed_value (DirtyProperties p) k (obj w a))
        \<and> e_OwnerId (obj w2 a) = local_client_id (w_Kind w)
        \<and> (\<exists>p2. e_StatePatcher (obj w2 a) = Some p2 \<and> \<not> HasPendingPatch p2 \<and> TimeOfLastPatch p2 = Clock a)"
      using w2 d assms(3,4) unfolding patched_def cl
      by (intro exI [of _ w2] exI) (auto simp: o changes_pending_def property_changes_def HasPendingPatch_def)
  qed (fact q(1))
qed

lemma pending_name_ready:
  "outgoing_ready {0} (online_one 1 pending_name)" "changes_pending (online_one 1 pending_name) 0"
proof -
  have v: "valid_changes (DirtyProperties pending_name)"
    by (simp add: pending_name_def valid_changes_def replicated_keys_def set_value_def prop_set_def key_defs nul_free_def
      rv_constructors rv_getters rv_get_def)
  then have "property_changes pending_name" by (simp add: property_changes_def pending_name_def empty_patcher_def)
  then show "changes_pending (online_one 1 pending_name) 0" by (simp add: changes_pending_def)
  show "outgoing_ready {0} (online_one 1 pending_name)"
    using online_one_hier by (simp add: outgoing_ready_def) (simp add: online_one_def new_world_def)
qed

lemma queued_changes_are_sent_witness:
  "\<exists>w1 w2. QueueEntityUpdate 0 (online_one 1 pending_name) = Some w1 \<and> process_outgoing (\<lambda>_. 90) w1 = Some w2
     \<and> PendingOutgoing w1 \<noteq> [] \<and> prop_get KEY_NAME (obj w2 0) = RV_string ''n''"
proof -
  let ?w = "online_one 1 pending_name"
  have m: "IsModifiable (w_Kind ?w) (obj ?w 0) = Some Modifiable"
    by (simp add: IsModifiable_def IsEntityModifiable_online_def SpaceEntity_new_def UNIT_TRANSFORM_def
        LOCK_NONE_def LOCK_USER_AGNOSTIC_def)
  have p: "e_StatePatcher (obj ?w 0) = Some pending_name" "HasPendingPatch pending_name" "TimeOfLastPatch pending_name = 0"
    by (simp_all add: pending_name_def empty_patcher_def HasPendingPatch_def)
  have r: "EntityPatchRate (w_Settings ?w) = 90" by (simp add: online_one_def new_world_def put_ent_def)
  have k: "KEY_NAME \<in> set replicated_keys" by (simp add: replicated_keys_def)
  have n: "changed_value (DirtyProperties pending_name) KEY_NAME (obj ?w 0) = RV_string ''n''"
    by (simp add: pending_name_def changed_value_def set_value_def prop_set_def prop_get_def rv_constructors rv_getters rv_get_def)
  obtain w1 where w1: "QueueEntityUpdate 0 ?w = Some w1"
    "\<forall>Clock. TimeOfLastPatch pending_name + EntityPatchRate (w_Settings ?w) \<le> Clock 0 \<longrightarrow>
      (\<exists>w2 ms. process_outgoing Clock w1 = Some w2 \<and> 0 \<notin> set (PendingOutgoing w2)
        \<and> (\<forall>k \<in> set replicated_keys. prop_get k (obj w2 0) = changed_value (DirtyProperties pending_name) k (obj ?w 0)))"
    using queued_changes_are_sent [OF pending_name_ready(1) _ pending_name_ready(2) p(1,2) m] by blast
  moreover have "PendingOutgoing w1 \<noteq> []"
    using w1(1) m p(1,2) by (auto simp: QueueEntityUpdate_def ent_Some split: if_splits)
  ultimately show ?thesis using p(3) r k n by fastforce
qed

end
