(* ===== verification/Online_Lifecycle.thy ===== *)
theory Online_Lifecycle
  imports Online_Outgoing Offline_Properties
begin

text \<open>
  How entities leave the online engine. A destruction by the client keeps the hierarchy consistent
  from the call through the removal in the next tick. A destruction received from the service
  does not look at the children, and leaves their parent pointers dangling.
\<close>

section \<open>Destroying an entity locally\<close>

text \<open>The lists the engine asserts an entity to be in when it is removed.\<close>

definition listed :: "world \<Rightarrow> addr \<Rightarrow> bool" where
  "listed w a \<longleftrightarrow> a \<in> set (Entities w) \<and> distinct (Entities w) \<and> a \<notin> set (PendingAdds w) \<and>
     (case e_Type (obj w a) of AvatarE \<Rightarrow> a \<in> set (Avatars w) | ObjectE \<Rightarrow> a \<in> set (Objects w) | UnknownE _ \<Rightarrow> False)"

definition destruction_message :: "world \<Rightarrow> addr \<Rightarrow> event" where
  "destruction_message w a = (let c = local_client_id (w_Kind w) in Ev_invoke SEND_OBJECT_PATCHES
     (SArr [SArr (deletion_patch (e_Id (obj w a)) c # map (\<lambda>k. child_parent_patch (e_Id (obj w k)) c) (kids w a))]))"

definition online_destroyed :: "addr \<Rightarrow> world \<Rightarrow> world" where
  "online_destroyed a w = (let w3 = destroy_children a w
     in w3\<lparr>PendingRemoves := PendingRemoves w @ [a], PendingOutgoing := remove1 a (PendingOutgoing w),
          w_Events := w_Events w3 @ (if e_DestroyCallback (obj w a) then [Ev_destroy a True] else []) @ [destruction_message w a]\<rparr>)"

lemma child_parent_patches_live:
  "set cs \<subseteq> dom (w_Ents w) \<Longrightarrow> child_parent_patches w cs
    = Some (map (\<lambda>k. child_parent_patch (e_Id (obj w k)) (local_client_id (w_Kind w))) cs)"
  by (induction cs) (simp_all add: ent_Some)

lemma Online_DestroyEntity_refines:
  assumes h: "hier S {} w" and a: "a \<in> S" "a \<notin> set (kids w a)"
    and c: "set (map snd (e_Components (obj w a))) \<subseteq> dom (w_Comps w)"
  shows "Online_DestroyEntity a w = Some (online_destroyed a w)"
proof -
  note k = destroy_children_facts [OF h a]
  let ?w3 = "destroy_children a w"
  have live: "a \<in> dom (w_Ents w)" "a \<in> dom (w_Ents ?w3)" "set (kids w a) \<subseteq> dom (w_Ents w)"
    using hierD(1) [OF h] hierD(1) [OF k(1)] hierD(10) [OF h a(1)] a(1) by blast+
  note l = links_only_fields [OF k(6)] links_only_lists [OF k(6)]
  show ?thesis
    unfolding Online_DestroyEntity_def ent_Some [OF live(1)] bind.bind_lunit child_parent_patches_live [OF live(3)]
      local_delete_components_runs [OF c] Let_def
    using k(7)
    by (simp add: LocalDestroyEntity_def ent_Some [OF live(2)] RemoveEntity_def online_destroyed_def l emit_event_def
        destruction_message_def Let_def)
qed

lemma RemovePendingEntity_childless:
  assumes h: "hier S {} w" and a: "a \<in> S" "kids w a = []" "a \<notin> set (RootHierarchyEntities w)" "listed w a"
  shows "\<exists>w2. RemovePendingEntity a w = Some w2 \<and> hier (S - {a}) {} w2 \<and> ent w2 a = None
    \<and> Entities w2 = remove1 a (Entities w) \<and> RootHierarchyEntities w2 = RootHierarchyEntities w
    \<and> (\<forall>b \<in> S - {a}. e_Parent (obj w2 b) = e_Parent (obj w b) \<and> kids w2 b = remove1 a (kids w b))"
proof -
  have live: "a \<in> dom (w_Ents w)" using hierD(1) [OF h] a(1) by blast
  define wl where "wl = (case e_Type (obj w a) of AvatarE \<Rightarrow> w\<lparr>Avatars := remove1 a (Avatars w)\<rparr>
    | ObjectE \<Rightarrow> w\<lparr>Objects := remove1 a (Objects w)\<rparr> | UnknownE _ \<Rightarrow> w)"
  have wl: "w_Ents wl = w_Ents w" "known wl = known w" "RootHierarchyEntities wl = RootHierarchyEntities w"
    "Entities wl = Entities w" "PendingAdds wl = PendingAdds w" "w_Kind wl = w_Kind w"
    by (simp_all add: wl_def known_def split: entity_type.split engine_kind.split)
  have o: "obj wl = obj w" by (simp add: obj_def ent_def wl(1) fun_eq_iff)
  have hl: "hier S {} wl" by (rule hier_cong [OF h wl(1-3)])
  have del: "RemoveParentChildRelationshipsFromEntity a wl = Some (detach a wl)"
    using live hierD(1,7) [OF hl] a(1,2)
    by (intro RemoveParentChildRelationships_childless) (auto simp: wl(1) o)
  let ?w2 = "free_ent a ((detach a wl)\<lparr>Entities := remove1 a (Entities w)\<rparr>)"
  have run: "RemovePendingEntity a w = Some ?w2"
    using a(3,4) del
    by (auto simp: RemovePendingEntity_def ent_Some [OF live] listed_def wl_def remove1_idem wl(4) Let_def split: entity_type.splits)
  have kd: "kids (detach a wl) a = []" using a(2) by (auto simp: obj_detach o split: option.split)
  have h2: "hier (S - {a}) {} ?w2"
  proof (rule hier_free [OF hier_detach [OF hl a(1)]])
    show "set (known ?w2) \<subseteq> S - {a}"
      using hierD(3) [OF h] a(4)
      by (auto simp: known_def free_ent_def wl(5,6) detach_def listed_def split: engine_kind.splits option.splits)
  qed (use kd a(3) wl(3) in \<open>simp_all add: free_ent_def\<close>)
  have o2: "obj ?w2 b = obj (detach a wl) b" if "b \<noteq> a" for b using that by (simp add: free_ent_def obj_def ent_def)
  have idem: "remove1 a (kids w b) = kids w b" if "b \<in> S" "e_Parent (obj w a) \<noteq> Some b" for b
    using hierD(10) [OF h that(1), of a] that(2) by (intro remove1_idem) auto
  show ?thesis
    using run h2 o2 idem
    by (intro exI [of _ ?w2]) (auto simp: free_ent_def ent_def wl(3,4) obj_detach o split: option.split)
qed

text \<open>
  C10. Destroying an entity of the online engine: its components are told, every child with a callback
  sees that it has moved to the root, the destroy callback is called, and one message destroys
  the entity and moves its children to the root for everybody else. It stays in the lists until
  the next tick removes it; then it is freed, its children are roots without a parent, and the
  hierarchy of the other entities is consistent: no pointer to it is left.
\<close>

theorem destroyed_entity_leaves_a_clean_hierarchy:
  assumes "hier S {} w" "a \<in> S" "a \<notin> set (kids w a)" "set (map snd (e_Components (obj w a))) \<subseteq> dom (w_Comps w)"
    "listed w a" "PendingRemoves w = []"
  shows "\<exists>w1 w2. Online_DestroyEntity a w = Some w1
    \<and> w_Events w1 = w_Events w @ map Ev_OnLocalDelete (map snd (e_Components (obj w a)))
        @ concat (map (child_event w) (kids w a))
        @ (if e_DestroyCallback (obj w a) then [Ev_destroy a True] else []) @ [destruction_message w a]
    \<and> hier S {} w1 \<and> Entities w1 = Entities w
    \<and> process_removes [] (PendingRemoves w1) w1 = Some w2 \<and> hier (S - {a}) {} w2 \<and> ent w2 a = None
    \<and> Entities w2 = remove1 a (Entities w) \<and> PendingRemoves w2 = []
    \<and> set (RootHierarchyEntities w2) = set (RootHierarchyEntities w) - {a} \<union> set (kids w a)
    \<and> (\<forall>c \<in> set (kids w a). e_Parent (obj w2 c) = None)"
proof -
  note h = assms(1) and a = assms(2,3)
  note k = destroy_children_facts [OF h a]
  let ?w3 = "destroy_children a w" let ?w1 = "online_destroyed a w"
  let ?w0 = "w\<lparr>w_Events := w_Events w @ map Ev_OnLocalDelete (map snd (e_Components (obj w a))),
        RootHierarchyEntities := remove1 a (RootHierarchyEntities w)\<rparr>"
  note l = links_only_fields [OF k(6)] links_only_lists [OF k(6)]
  have f: "w_Ents ?w1 = w_Ents ?w3" "RootHierarchyEntities ?w1 = RootHierarchyEntities ?w3" "known ?w1 = known ?w3"
    "Entities ?w1 = Entities w" "PendingRemoves ?w1 = [a]" "Avatars ?w1 = Avatars w" "Objects ?w1 = Objects w"
    "PendingAdds ?w1 = PendingAdds w"
    by (simp_all add: online_destroyed_def known_def l assms(6) Let_def split: engine_kind.split)
  have o: "obj ?w1 = obj ?w3" by (simp add: obj_def ent_def f(1) fun_eq_iff)
  have h1: "hier S {} ?w1" by (rule hier_cong [OF k(1) f(1,3,2)])
  have "listed ?w1 a" using assms(5) by (simp add: listed_def f o l split: entity_type.splits)
  then obtain w2 where w2: "RemovePendingEntity a ?w1 = Some w2" "hier (S - {a}) {} w2" "ent w2 a = None"
    "Entities w2 = remove1 a (Entities w)" "RootHierarchyEntities w2 = RootHierarchyEntities ?w3"
    "\<forall>b \<in> S - {a}. e_Parent (obj w2 b) = e_Parent (obj ?w3 b)"
    using RemovePendingEntity_childless [OF h1 a(1)] k(2,3) by (auto simp: f o)
  let ?w2 = "w2\<lparr>PendingRemoves := []\<rparr>"
  have r: "process_removes [] (PendingRemoves ?w1) ?w1 = Some ?w2" by (simp add: f(5) w2(1))
  have h2: "hier (S - {a}) {} ?w2"
    by (rule hier_cong [OF w2(2)]) (simp_all add: known_def split: engine_kind.split)
  have o0: "obj ?w0 = obj w" by (simp add: obj_def ent_def fun_eq_iff)
  have h0: "hier S {} ?w0"
    by (rule hier_fewer_roots [OF h]) (use hierD(5) [OF h] in \<open>auto simp: known_def dest: notin_set_remove1 split: engine_kind.split\<close>)
  have sub: "set (kids w a) \<subseteq> S" using hierD(10) [OF h a(1)] by blast
  have "w_Events ?w3 = w_Events ?w0 @ concat (map (child_event ?w0) (kids w a))"
    unfolding destroy_children_def by (rule events_fold_child_to_root [OF h0 sub])
  moreover have "child_event ?w0 = child_event w" unfolding child_event_def [abs_def] o0 ..
  ultimately have ev: "w_Events ?w1 = w_Events w @ map Ev_OnLocalDelete (map snd (e_Components (obj w a)))
        @ concat (map (child_event w) (kids w a))
        @ (if e_DestroyCallback (obj w a) then [Ev_destroy a True] else []) @ [destruction_message w a]"
    by (simp add: online_destroyed_def Let_def)
  have "e_Parent (obj w2 c) = None" if "c \<in> set (kids w a)" for c
  proof -
    have "e_Parent (obj ?w3 c) = None"
      using fold_child_to_root(3) [OF h0 sub, of c] that unfolding destroy_children_def by simp
    moreover have "c \<in> S - {a}" using that sub a(2) by blast
    ultimately show ?thesis using bspec [OF w2(6)] by simp
  qed
  moreover have "obj ?w2 = obj w2" "ent ?w2 = ent w2" by (simp_all add: obj_def ent_def fun_eq_iff)
  ultimately show ?thesis
    using Online_DestroyEntity_refines [OF h a assms(4)] ev h1 f(4) r h2 w2(3-5) k(4)
    by (intro exI [of _ ?w1] exI [of _ ?w2]) simp
qed

text \<open>Two entities of the online engine, the second a child of the first.\<close>

definition online_two :: world where
  "online_two = (put_ent 2 ((SpaceEntity_new (Online 1))\<lparr>e_Id := 8, e_Type := ObjectE, e_ParentId := Some 7, e_Parent := Some 0\<rparr>)
     (put_ent 0 ((SpaceEntity_new (Online 1))\<lparr>e_Id := 7, e_Type := ObjectE, e_ChildEntities := [2], e_DestroyCallback := True\<rparr>)
       (new_world (Online 1) [])))\<lparr>w_NextAddr := 3, Entities := [0, 2], Objects := [0, 2], RootHierarchyEntities := [0]\<rparr>"

lemma online_two_obj [simp]:
  "obj online_two 0 = (SpaceEntity_new (Online 1))\<lparr>e_Id := 7, e_Type := ObjectE, e_ChildEntities := [2], e_DestroyCallback := True\<rparr>"
  "obj online_two 2 = (SpaceEntity_new (Online 1))\<lparr>e_Id := 8, e_Type := ObjectE, e_ParentId := Some 7, e_Parent := Some 0\<rparr>"
  by (simp_all add: online_two_def obj_def ent_def)

lemma online_two_lists [simp]:
  "known online_two = [0, 2]" "RootHierarchyEntities online_two = [0]" "Entities online_two = [0, 2]" "Objects online_two = [0, 2]"
  "dom (w_Ents online_two) = {0, 2}" "w_Kind online_two = Online 1" "PendingAdds online_two = []" "PendingRemoves online_two = []"
  "w_Events online_two = []"
  by (auto simp: online_two_def known_def new_world_def)

lemma online_two_hier: "hier {0, 2} {} online_two"
  unfolding hier_def online_two_lists by (simp add: inj_on_def)

lemma destroyed_entity_leaves_a_clean_hierarchy_witness:
  "\<exists>w1 w2. Online_DestroyEntity 0 online_two = Some w1
     \<and> w_Events w1 = [Ev_destroy 0 True, Ev_invoke SEND_OBJECT_PATCHES (SArr [SArr [deletion_patch 7 1, child_parent_patch 8 1]])]
     \<and> process_removes [] (PendingRemoves w1) w1 = Some w2 \<and> hier {2} {} w2 \<and> Entities w2 = [2]
     \<and> e_Parent (obj w2 2) = None"
proof -
  have l: "listed online_two 0" by (simp add: listed_def)
  have e: "e_UpdateCallback (SpaceEntity_new k) = False" for k by (simp add: SpaceEntity_new_def UNIT_TRANSFORM_def)
  have s: "{0, 2} - {0} = {2 :: nat}" by auto
  from destroyed_entity_leaves_a_clean_hierarchy [OF online_two_hier _ _ _ l] show ?thesis
    by (simp add: child_event_def e destruction_message_def local_client_id_def s) blast
qed

section \<open>Destructions from the service\<close>

lemma try_read_destruction: "try_read ObjectPatch_Deserialize (deletion_patch i c) = Some (destruction_patch c i)"
proof -
  have "ObjectPatch_enc (destruction_patch c i) = deletion_patch i c"
    by (simp add: ObjectPatch_enc_def destruction_patch_def deletion_patch_def parent_enc_def components_enc_def)
  then show ?thesis using try_read_patch [of "destruction_patch c i"] by (simp add: destruction_patch_def)
qed

text \<open>
  A destruction that arrives from the service, without patches that detach the children, leaves
  dangling pointers: in the tick that handles it the entity is freed, while its child, whose
  detachment is only recorded as a pending change, has been attached to it again.
\<close>

theorem remote_destruction_leaves_dangling_parent:
  "\<exists>w1 w2. OnObjectPatch (SArr [deletion_patch 7 2]) online_two = Some w1
     \<and> ProcessPendingEntityOperations Clock w1 = Some w2
     \<and> Entities w2 = [2] \<and> ent w2 0 = None \<and> e_Parent (obj w2 2) = Some 0"
  by (simp add: OnObjectPatch_def first_param_def online_two_def ProcessPendingEntityOperations_def ApplyIncomingPatch_def
      try_read_destruction destruction_patch_def LocalDestroyEntity_def RemoveEntity_def process_outgoing_def
      RemovePendingEntity_def RemoveParentChildRelationshipsFromEntity_def RemoveParentFromChildEntity_def RemoveParentEntity_def
      SetNewParentId_def MakeStatePatcher_def obj_def free_ent_def world_eval)

text \<open>An avatar of another client, and an entity that client has selected.\<close>

definition selected_by_other :: world where
  "selected_by_other = (put_ent 2 ((SpaceEntity_new (Online 1))\<lparr>e_Id := 7, e_Type := ObjectE, e_SelectedId := 5\<rparr>)
     (put_ent 0 ((SpaceEntity_new (Online 1))\<lparr>e_Id := 5, e_Type := AvatarE\<rparr>)
       (new_world (Online 1) [])))\<lparr>w_NextAddr := 3, Entities := [0, 2], Avatars := [0], Objects := [2], RootHierarchyEntities := [0, 2]\<rparr>"

lemma departed_avatar_keeps_its_selection:
  "\<exists>w1. process_incoming [deletion_patch 5 2] selected_by_other = Some w1
     \<and> e_SelectedId (obj w1 2) = 5 \<and> Select 2 w1 = Some (False, w1)"
  by (simp add: selected_by_other_def ApplyIncomingPatch_def try_read_destruction destruction_patch_def LocalDestroyEntity_def
      RemoveEntity_def Deselect_def Select_def InternalSetSelectionStateOfEntity_def local_client_id_def IsSelected_def obj_def world_eval)

end
