(* ===== verification/Online_Rate.thy ===== *)
theory Online_Rate
  imports Online_Lifecycle
begin

text \<open>
  The rate limit of outgoing patches. Nothing but the walk over the outgoing queue touches the time
  of an entity's last patch, so in every run of the engine - creations, destructions, messages,
  ticks and the client's operations, in any order - a patch that is sent while the limit is on is
  at least the patch rate later than every earlier patch of the entity. A run starts with its heap in
  order; addresses of entities are not used again.
\<close>

section \<open>What touches the time of the last patch\<close>

definition last_patch :: "world \<Rightarrow> addr \<Rightarrow> nat option" where
  "last_patch w a = Option.bind (ent w a) (\<lambda>e. map_option TimeOfLastPatch (e_StatePatcher e))"

definition keeps_times :: "world \<Rightarrow> world \<Rightarrow> bool" where
  "keeps_times w w' \<longleftrightarrow> last_patch w' = last_patch w \<and> w_Settings w' = w_Settings w \<and> w_NextAddr w \<le> w_NextAddr w'"

lemma keeps_refl [simp]: "keeps_times w w"
  by (simp add: keeps_times_def)

lemma keeps_trans [trans]: "keeps_times w1 w2 \<Longrightarrow> keeps_times w2 w3 \<Longrightarrow> keeps_times w1 w3"
  by (simp add: keeps_times_def)

lemma keeps_put_ent:
  "ent w a = Some e0 \<Longrightarrow> map_option TimeOfLastPatch (e_StatePatcher e) = map_option TimeOfLastPatch (e_StatePatcher e0)
   \<Longrightarrow> keeps_times w (put_ent a e w)"
  by (auto simp: keeps_times_def last_patch_def ent_put_ent fun_eq_iff)

text \<open>An operation in the option monad, with or without a result, keeps the times.\<close>

definition timeless :: "(world \<Rightarrow> world option) \<Rightarrow> bool" where
  "timeless m \<longleftrightarrow> (\<forall>w w'. m w = Some w' \<longrightarrow> keeps_times w w')"

definition timeless2 :: "(world \<Rightarrow> ('a \<times> world) option) \<Rightarrow> bool" where
  "timeless2 m \<longleftrightarrow> (\<forall>w x w'. m w = Some (x, w') \<longrightarrow> keeps_times w w')"

lemma timelessI: "(\<And>w w'. m w = Some w' \<Longrightarrow> keeps_times w w') \<Longrightarrow> timeless m"
  by (simp add: timeless_def)

lemma timeless2I: "(\<And>w x w'. m w = Some (x, w') \<Longrightarrow> keeps_times w w') \<Longrightarrow> timeless2 m"
  by (simp add: timeless2_def)

lemma timelessD: "timeless m \<Longrightarrow> m w = Some w' \<Longrightarrow> keeps_times w w'"
  by (simp add: timeless_def)

lemma timeless2D: "timeless2 m \<Longrightarrow> m w = Some (x, w') \<Longrightarrow> keeps_times w w'"
  unfolding timeless2_def by blast

lemma timeless_modify:
  "(\<And>e. map_option TimeOfLastPatch (e_StatePatcher (f e)) = map_option TimeOfLastPatch (e_StatePatcher e))
   \<Longrightarrow> timeless (modify_ent a f)"
  by (rule timelessI) (auto simp: modify_ent_def bind_eq_Some_conv intro: keeps_put_ent)

lemma keeps_simple [simp]:
  "keeps_times w (emit_event ev w)" "keeps_times w (update_event a f us w)"
  "keeps_times w (put_comp ca c w)" "keeps_times w (w\<lparr>SelectedEntities := s\<rparr>)"
  "keeps_times w (w\<lparr>RootHierarchyEntities := s\<rparr>)" "keeps_times w (w\<lparr>PendingOutgoing := s\<rparr>)"
  "keeps_times w (w\<lparr>PendingRemoves := s\<rparr>)" "keeps_times w (w\<lparr>PendingIncomingUpdates := i\<rparr>)"
  "keeps_times w (w\<lparr>PendingAdds := s\<rparr>)" "keeps_times w (w\<lparr>Entities := s\<rparr>)"
  "keeps_times w (w\<lparr>Avatars := s\<rparr>)" "keeps_times w (w\<lparr>Objects := s\<rparr>)"
  by (auto simp: keeps_times_def last_patch_def ent_def emit_event_def update_event_def put_comp_def fun_eq_iff
      split: option.split)

lemma keeps_alloc_comp: "alloc_comp c w = (ca, w') \<Longrightarrow> keeps_times w w'"
  by (auto simp: alloc_comp_def keeps_times_def last_patch_def ent_def put_comp_def fun_eq_iff)

subsection \<open>Entities\<close>

lemma prop_set_patcher: "prop_set k v e = Inr e' \<Longrightarrow> e_StatePatcher e' = e_StatePatcher e"
  by (auto simp: prop_set_def rbind_Inr_iff split: if_splits)

lemma timeless_EntitySetPropertyDirect: "timeless (EntitySetPropertyDirect a k v call)"
proof (rule timelessI)
  fix w w' assume r: "EntitySetPropertyDirect a k v call w = Some w'"
  then obtain e where e: "ent w a = Some e" by (auto simp: EntitySetPropertyDirect_def bind_eq_Some_conv)
  obtain e' where e': "prop_set k v e = Inr e'"
    using r e by (cases "prop_set k v e") (simp_all add: EntitySetPropertyDirect_def)
  have w': "w' = put_ent a e' w \<or> w' = update_event a (prop_flag k) [] (put_ent a e' w)"
    using r e e' by (auto simp: EntitySetPropertyDirect_def Let_def split: if_splits)
  have "keeps_times w (put_ent a e' w)" using keeps_put_ent [OF e(1)] prop_set_patcher [OF e'] by simp
  then show "keeps_times w w'" using w' keeps_trans [OF _ keeps_simple(2)] by blast
qed

lemma timeless_set_patcher:
  assumes "set_patcher a p' w = Some w'" "ent w a = Some e" "e_StatePatcher e = Some p" "TimeOfLastPatch p' = TimeOfLastPatch p"
  shows "keeps_times w w'"
  using assms by (auto simp: set_patcher_def modify_ent_def intro!: keeps_put_ent)

lemma pending_times:
  "SetDirtyProperty k x y p = (b, p') \<Longrightarrow> TimeOfLastPatch p' = TimeOfLastPatch p"
  "SetDirtyComponent ck dc p = (b, p') \<Longrightarrow> TimeOfLastPatch p' = TimeOfLastPatch p"
  "RemoveDirtyComponent ck m p = (b, p') \<Longrightarrow> TimeOfLastPatch p' = TimeOfLastPatch p"
  "TimeOfLastPatch (snd (SetDirtyProperty k x y p)) = TimeOfLastPatch p"
  "TimeOfLastPatch (snd (SetDirtyComponent ck dc p)) = TimeOfLastPatch p"
  "TimeOfLastPatch (snd (RemoveDirtyComponent ck m p)) = TimeOfLastPatch p"
  "TimeOfLastPatch (SetNewParentId v p) = TimeOfLastPatch p"
  by (auto simp: SetDirtyProperty_def SetDirtyComponent_def RemoveDirtyComponent_def SetNewParentId_def Let_def split: if_splits)

lemmas set_pending = pending_times [THEN timeless_set_patcher [rotated 3]]

lemma timeless_EntitySetProperty: "timeless2 (EntitySetProperty a k v)"
  by (rule timeless2I)
    (auto simp: EntitySetProperty_def bind_eq_Some_conv split: if_splits option.splits prod.splits
      elim: set_pending timelessD [OF timeless_EntitySetPropertyDirect])

lemma timeless_Lock: "timeless2 (Lock a)" "timeless2 (Unlock a)"
  by (rule timeless2I, auto simp: Lock_def Unlock_def bind_eq_Some_conv split: if_splits option.splits prod.splits
      elim: set_pending timelessD [OF timeless_EntitySetPropertyDirect] timeless2D [OF timeless_EntitySetProperty])+

lemma timeless_selection: "timeless2 (InternalSetSelectionStateOfEntity a s)"
proof (rule timeless2I)
  fix w :: world and b w' assume r: "InternalSetSelectionStateOfEntity a s w = Some (b, w')"
  have pend: "keeps_times w w1" if "set_pending_selection a i w = Some w1" for i w1
    using that by (auto simp: set_pending_selection_def bind_eq_Some_conv case_prod_beta split: option.split_asm
        elim: set_pending)
  have sel: "keeps_times w1 (snd (AddEntityToSelectedEntities a w1))" "keeps_times w1 (snd (RemoveEntityFromSelectedEntities a w1))" for w1
    by (auto simp: AddEntityToSelectedEntities_def RemoveEntityFromSelectedEntities_def split: if_splits)
  show "keeps_times w w'"
    using r unfolding InternalSetSelectionStateOfEntity_def
    by (auto simp: bind_eq_Some_conv case_prod_beta Let_def split: if_splits 
        dest!: pend timelessD [OF timeless_EntitySetPropertyDirect] intro: keeps_trans keeps_trans [OF _ sel(1)] keeps_trans [OF _ sel(2)])
qed

subsection \<open>Hierarchy\<close>

lemma timeless_ResolveParentChildRelationship: "timeless (ResolveParentChildRelationship a)"
proof (rule timelessI)
  fix w w' assume r: "ResolveParentChildRelationship a w = Some w'"
  have m: "timeless (modify_ent p (remove_child b))" "timeless (modify_ent p (SetParent x))" "timeless (modify_ent p (AddChildEntity b))" for p b x
    by (rule timeless_modify; simp)+
  note k = m [THEN timelessD]
  obtain e where e: "ent w a = Some e" using r by (auto simp: ResolveParentChildRelationship_def bind_eq_Some_conv)
  show "keeps_times w w'"
  proof (cases "e_ParentId e")
    case None
    then show ?thesis
      using r e k(1) k(2) by (auto simp: ResolveParentChildRelationship_def bind_eq_Some_conv split: option.splits) (blast intro: keeps_trans)
  next
    case (Some i)
    then obtain w1 P w2 where
      "(case e_Parent e of Some p \<Rightarrow> modify_ent p (remove_child a) w | None \<Rightarrow> Some w) = Some w1"
      and w2: "modify_ent a (SetParent P) w1 = Some w2"
      and w': "(case P of Some p \<Rightarrow> modify_ent p (AddChildEntity a) w2 | None \<Rightarrow> Some w2) = Some w'"
      using r e by (auto simp: ResolveParentChildRelationship_def bind_eq_Some_conv)
    then have "keeps_times w w1" using k(1) by (auto split: option.splits)
    moreover have "keeps_times w1 w2" using k(2) w2 by blast
    moreover have "keeps_times w2 w'" using k(3) w' by (auto split: option.splits)
    ultimately show ?thesis by (meson keeps_trans)
  qed
qed

lemma timeless_ResolveEntityHierarchy: "timeless (ResolveEntityHierarchy a)"
  by (rule timelessI)
    (auto simp: ResolveEntityHierarchy_def bind_eq_Some_conv case_prod_beta split: if_splits
      dest!: timelessD [OF timeless_ResolveParentChildRelationship] intro: keeps_trans [OF keeps_simple(5)])

lemma timeless_SetParentIdDirect: "timeless (SetParentIdDirect a v call)"
proof (rule timelessI)
  fix w w' assume "SetParentIdDirect a v call w = Some w'"
  moreover have "timeless (modify_ent a (\<lambda>e. e\<lparr>e_ParentId := v\<rparr>))" by (rule timeless_modify) simp
  ultimately show "keeps_times w w'"
    by (auto simp: SetParentIdDirect_def bind_eq_Some_conv case_prod_beta split: if_splits
      dest!: timelessD [OF timeless_ResolveEntityHierarchy] timelessD [of "modify_ent a (\<lambda>e. e\<lparr>e_ParentId := v\<rparr>)"]
      intro: keeps_trans [OF keeps_trans keeps_simple(2)] keeps_trans)
qed

lemma timeless_parent: "timeless (SetParentId a i)" "timeless (RemoveParentEntity a)"
  by (rule timelessI, auto simp: SetParentId_def RemoveParentEntity_def bind_eq_Some_conv case_prod_beta split: if_splits option.split_asm
      elim: set_pending timelessD [OF timeless_SetParentIdDirect])+

subsection \<open>Components\<close>

lemma timeless_components: "timeless (modify_ent a (\<lambda>e. e\<lparr>e_Components := f (e_Components e)\<rparr>))"
  by (rule timeless_modify) simp

lemma timeless_AddComponentDirect: "timeless (AddComponentDirect a k ca call)"
  by (rule timelessI)
    (auto simp: AddComponentDirect_def bind_eq_Some_conv case_prod_beta split: if_splits
      dest!: timelessD [OF timeless_components] intro: keeps_trans)

lemma timeless_RemoveComponentDirect: "timeless2 (RemoveComponentDirect a k call)"
  by (rule timeless2I)
    (auto simp: RemoveComponentDirect_def bind_eq_Some_conv case_prod_beta split: if_splits option.split_asm
      dest!: timelessD [OF timeless_components] intro: keeps_trans [OF keeps_simple(1)] keeps_trans [OF _ keeps_simple(2)])

lemma timeless_OnPropertyChanged: "timeless (OnPropertyChanged ca k)"
  by (rule timelessI) (auto simp: OnPropertyChanged_def bind_eq_Some_conv case_prod_beta)

lemma timeless_UpdateComponent: "timeless2 (UpdateComponent a ca)"
  by (rule timeless2I)
    (auto simp: UpdateComponent_def UpdateComponentDirect_def bind_eq_Some_conv case_prod_beta split: if_splits option.split_asm 
      elim: set_pending dest!: timelessD [OF timeless_OnPropertyChanged] intro: keeps_trans [OF keeps_simple(2)])

lemma timeless_RemoveComponent: "timeless2 (RemoveComponent a k)"
  by (rule timeless2I)
    (auto simp: RemoveComponent_def bind_eq_Some_conv case_prod_beta split: if_splits option.split_asm 
      elim: set_pending timeless2D [OF timeless_RemoveComponentDirect])

lemma timeless_ComponentSetPropertyDirect: "timeless (ComponentSetPropertyDirect a ca k v)"
  by (rule timelessI)
    (auto simp: ComponentSetPropertyDirect_def bind_eq_Some_conv case_prod_beta split: if_splits 
      dest!: timelessD [OF timeless_OnPropertyChanged] timeless2D [OF timeless_UpdateComponent]
      intro: keeps_trans [OF keeps_trans [OF keeps_simple(3)]])

lemma timeless_GenerateComponentId: "GenerateComponentId e = Some (k, e1) \<Longrightarrow> e_StatePatcher e1 = e_StatePatcher e"
  by (auto simp: GenerateComponentId_def bind_eq_Some_conv case_prod_beta)

lemma timeless_AddComponentByTypeId: "timeless2 (AddComponentByTypeId a t)"
proof (rule timeless2I)
  fix w x w' assume r: "AddComponentByTypeId a t w = Some (x, w')"
  then obtain e where e: "ent w a = Some e" by (auto simp: AddComponentByTypeId_def bind_eq_Some_conv case_prod_beta)
  have id: "keeps_times w (put_ent a e1 w)" if "GenerateComponentId e = Some (k, e1)" for k e1
    using keeps_put_ent [OF e] timeless_GenerateComponentId [OF that] by simp
  have fin: "keeps_times w (emit_event ev w3)"
    if g: "GenerateComponentId e = Some (k, e1)" and al: "alloc_comp c (put_ent a e1 w) = (ca, w2)"
      and s: "(case e_StatePatcher e1 of
                   Some p \<Rightarrow> set_patcher a (snd (SetDirtyComponent k dc p)) w2
                 | None \<Rightarrow> AddComponentDirect a k ca True w2) = Some w3" for k e1 c ca w2 dc w3 ev
  proof -
    have "ent w2 a = Some e1" using al by (auto simp: alloc_comp_def ent_def put_ent_def put_comp_def)
    then have "keeps_times w2 w3"
      using s by (auto split: option.split_asm elim: set_pending timelessD [OF timeless_AddComponentDirect])
    with id [OF g] keeps_alloc_comp [OF al] show ?thesis by (meson keeps_simple(1) keeps_trans)
  qed
  consider "w' = w" | (gen) k e1 where "GenerateComponentId e = Some (k, e1)"
    "(case InstantiateComponent (Some (w_Registry w)) k t of
              None \<Rightarrow> Some (None, put_ent a e1 w)
            | Some c \<Rightarrow> do {
                let (ca, w2) = alloc_comp c (put_ent a e1 w);
                w3 \<leftarrow> (case e_StatePatcher e1 of
                   Some p \<Rightarrow> set_patcher a
                     (snd (SetDirtyComponent k \<lparr>dc_Component = ca, dc_UpdateType = AddT\<rparr> p)) w2
                 | None \<Rightarrow> AddComponentDirect a k ca True w2);
                Some (Some ca, emit_event (Ev_OnCreated ca) w3) }) = Some (x, w')"
    using r e unfolding AddComponentByTypeId_def by (auto simp: bind_eq_Some_conv Let_def split: if_splits)
  then show "keeps_times w w'"
  proof cases
    case gen
    show ?thesis
    proof (cases "InstantiateComponent (Some (w_Registry w)) k t")
      case None
      then show ?thesis using gen id by auto
    next
      case (Some c)
      obtain ca w2 where al: "alloc_comp c (put_ent a e1 w) = (ca, w2)" by fastforce
      show ?thesis using gen(2) fin [OF gen(1) al] by (auto simp: Some al bind_eq_Some_conv)
    qed
  qed simp
qed

subsection \<open>Applying patches\<close>

lemma timeless_apply_dirty_properties:
  "apply_dirty_properties a kvs f w = Some (f', w') \<Longrightarrow> keeps_times w w'"
proof (induction kvs arbitrary: f w)
  case (Cons kv kvs)
  then show ?case
    using timelessD [OF timeless_EntitySetPropertyDirect [of a "fst kv" "snd kv" False]] keeps_trans
    by (fastforce simp: bind_eq_Some_conv split: if_splits)
qed simp

lemma timeless_apply_dirty_components:
  "apply_dirty_components a dcs n us w = Some (us', w') \<Longrightarrow> keeps_times w w'"
proof (induction dcs arbitrary: n us w)
  case (Cons kd dcs)
  obtain k dc where kd: "kd = (k, dc)" by (cases kd)
  show ?case
  proof (cases "dc_UpdateType dc")
    case UpdateT
    then show ?thesis using Cons kd by (auto simp: bind_eq_Some_conv)
  next
    case AddT
    then obtain w1 us1 where "AddComponentDirect a k (dc_Component dc) False w = Some w1"
      "apply_dirty_components a dcs (Suc n) us1 w1 = Some (us', w')"
      using Cons.prems kd by (auto simp: bind_eq_Some_conv)
    then show ?thesis using Cons.IH timelessD [OF timeless_AddComponentDirect] keeps_trans by blast
  next
    case DeleteT
    then obtain x w1 us1 where "RemoveComponentDirect a k False w = Some (x, w1)"
      "apply_dirty_components a dcs (Suc n) us1 w1 = Some (us', w')"
      using Cons.prems kd by (auto simp: bind_eq_Some_conv)
    then show ?thesis using Cons.IH timeless2D [OF timeless_RemoveComponentDirect] keeps_trans by blast
  qed
qed simp

lemma timeless_apply_deletions:
  "apply_deletions a ks off i f us w = Some (f', us', w') \<Longrightarrow> keeps_times w w'"
proof (induction ks arbitrary: i f us w)
  case (Cons k ks)
  then obtain e where e: "ent w a = Some e" by (auto simp: bind_eq_Some_conv)
  show ?case
  proof (cases "GetComponent e k")
    case None
    then show ?thesis using Cons e by simp
  next
    case (Some ca)
    then obtain x w1 f1 us1 where "RemoveComponentDirect a k False (emit_event (Ev_OnLocalDelete ca) w) = Some (x, w1)"
      "apply_deletions a ks off (Suc i) f1 us1 w1 = Some (f', us', w')"
      using Cons.prems e by (auto simp: bind_eq_Some_conv split: if_splits)
    then have "keeps_times (emit_event (Ev_OnLocalDelete ca) w) w1" "keeps_times w1 w'"
      using Cons.IH timeless2D [OF timeless_RemoveComponentDirect] by blast+
    then show ?thesis by (meson keeps_simple(1) keeps_trans)
  qed
qed simp

lemma timeless_modify_patcher: "(\<And>p. TimeOfLastPatch (f p) = TimeOfLastPatch p) \<Longrightarrow> timeless (modify_patcher a f)"
  unfolding modify_patcher_def by (rule timeless_modify) (simp add: option.map_comp o_def)


lemma timeless_SpaceEntity_ApplyLocalPatch: "timeless (SpaceEntity_ApplyLocalPatch a call self)"
proof -
  have "keeps_times w w'" if r: "ApplyLocalPatch a w = Some (r, w')" for w r w'
  proof -
    obtain e p where e: "ent w a = Some e" "e_StatePatcher e = Some p" using r by (auto simp: ApplyLocalPatch_def bind_eq_Some_conv)
    have m: "timeless (modify_patcher a (\<lambda>p. p\<lparr>DirtyProperties := []\<rparr>))" "timeless (modify_patcher a (\<lambda>p. p\<lparr>DirtyComponents := []\<rparr>))"
      "timeless (modify_patcher a (\<lambda>p. p\<lparr>NewParentId := None\<rparr>))" "timeless (modify_patcher a (\<lambda>p. p\<lparr>TransientDeletionComponentIds := []\<rparr>))"
      by (rule timeless_modify_patcher; simp)+
    obtain f1 w1 w2 w3 w4 f3 us3 rest f4 us2 where
      "apply_dirty_properties a (DirtyProperties p) 0 w = Some (f1, w1)"
      "modify_patcher a (\<lambda>p. p\<lparr>DirtyProperties := []\<rparr>) w1 = Some w2"
      and 3: "(if 0 < length (DirtyComponents p) then do {
          (us, w') \<leftarrow> apply_dirty_components a (DirtyComponents p) 0 us2 w2;
          w'' \<leftarrow> modify_patcher a (\<lambda>p. p\<lparr>DirtyComponents := []\<rparr>) w';
          Some (f1 OR FLAG_COMPONENTS, us, 0, w'') }
        else Some (f1, us2, length (DirtyComponents p), w2)) = Some (f3, us3, rest, w3)"
      and 4: "(case NewParentId p of
          Some v \<Rightarrow> do {
            w' \<leftarrow> SetParentIdDirect a v False w3;
            w'' \<leftarrow> modify_patcher a (\<lambda>p. p\<lparr>NewParentId := None\<rparr>) w';
            Some (f3 OR FLAG_PARENT, w'') }
        | None \<Rightarrow> Some (f3, w3)) = Some (f4, w4)"
      and 5: "(if 0 < length (TransientDeletionComponentIds p) then do {
          (f', us', w') \<leftarrow> apply_deletions a (TransientDeletionComponentIds p) rest 0 f4 us3 w4;
          w'' \<leftarrow> modify_patcher a (\<lambda>p. p\<lparr>TransientDeletionComponentIds := []\<rparr>) w';
          Some (f', us', w'') }
        else Some (f4, us3, w4)) = Some (fst r, snd r, w')"
      using r e unfolding ApplyLocalPatch_def Let_def by (force simp: bind_eq_Some_conv)
    then have "keeps_times w w2" using timeless_apply_dirty_properties timelessD [OF m(1)] keeps_trans by blast
    moreover have "keeps_times w2 w3"
      using 3 timeless_apply_dirty_components timelessD [OF m(2)] keeps_trans keeps_refl
      by (auto simp: bind_eq_Some_conv split: if_splits) blast
    moreover have "keeps_times w3 w4"
      using 4 timelessD [OF timeless_SetParentIdDirect] timelessD [OF m(3)] keeps_trans keeps_refl
      by (auto simp: bind_eq_Some_conv split: option.splits) blast
    moreover have "keeps_times w4 w'"
      using 5 timeless_apply_deletions timelessD [OF m(4)] keeps_trans keeps_refl
      by (auto simp: bind_eq_Some_conv split: if_splits) blast
    ultimately show ?thesis using keeps_trans by blast
  qed
  then show ?thesis
    by (intro timelessI)
      (auto simp: SpaceEntity_ApplyLocalPatch_def bind_eq_Some_conv split: if_splits intro: keeps_trans [OF _ keeps_simple(2)])
qed

subsection \<open>Receiving\<close>

lemma timeless_AddComponentFromItemComponentDataPatch: "timeless2 (AddComponentFromItemComponentDataPatch a k d)"
proof (rule timeless2I)
  fix w x w' assume r: "AddComponentFromItemComponentDataPatch a k d w = Some (x, w')"
  obtain m t e where e: "component_dict d = Some m" "component_type_in m = Some t" "ent w a = Some e"
    using r by (auto simp: AddComponentFromItemComponentDataPatch_def bind_eq_Some_conv)
  show "keeps_times w w'"
  proof (cases "map_of (e_Components e) k")
    case (Some ca)
    then show ?thesis
      using r e timeless2D [OF timeless_RemoveComponentDirect]
      by (auto simp: AddComponentFromItemComponentDataPatch_def bind_eq_Some_conv split: if_splits)
  next
    case None
    show ?thesis
    proof (cases "InstantiateComponent (Some (w_Registry w)) k t")
      case N: None
      then show ?thesis using r e None by (auto simp: AddComponentFromItemComponentDataPatch_def)
    next
      case (Some c)
      then obtain c' where c': "set_from_patch m c = Some c'"
        using r e None by (auto simp: AddComponentFromItemComponentDataPatch_def bind_eq_Some_conv)
      obtain ca w1 where al: "alloc_comp c' w = (ca, w1)" by fastforce
      obtain w2 where w2: "AddComponentDirect a k ca False w1 = Some w2" "w' = emit_event (Ev_OnCreated ca) w2"
        using r e None Some c' al by (auto simp: AddComponentFromItemComponentDataPatch_def bind_eq_Some_conv)
      have "keeps_times w w1" "keeps_times w1 w2"
        using keeps_alloc_comp [OF al] timelessD [OF timeless_AddComponentDirect w2(1)] by blast+
      then show ?thesis unfolding w2(2) by (meson keeps_simple(1) keeps_trans)
    qed
  qed
qed

lemma timeless_apply_patch_components:
  "apply_patch_components a m i f us w = Some (f', us', w') \<Longrightarrow> keeps_times w w'"
proof (induction m arbitrary: i f us w)
  case (Cons kd m)
  obtain k d where kd: "kd = (k, d)" by (cases kd)
  consider (added) x w1 us1 where "AddComponentFromItemComponentDataPatch a k d w = Some (x, w1)"
      "apply_patch_components a m (Suc i) f us1 w1 = Some (f', us', w')"
    | (property) v w1 where "EntitySetPropertyDirect a k v False w = Some w1"
      "apply_patch_components a m i (f OR prop_flag k) us w1 = Some (f', us', w')"
    | (ignored) "apply_patch_components a m i f us w = Some (f', us', w')"
    using Cons.prems kd by (auto simp: bind_eq_Some_conv split: if_splits)
  then show ?case
  proof cases
    case added
    then show ?thesis using Cons.IH timeless2D [OF timeless_AddComponentFromItemComponentDataPatch] keeps_trans by blast
  next
    case property
    then show ?thesis using Cons.IH timelessD [OF timeless_EntitySetPropertyDirect] keeps_trans by blast
  next
    case ignored
    then show ?thesis using Cons.IH by blast
  qed
qed simp

lemma timeless_ApplyPatchFromObjectPatch: "timeless (ApplyPatchFromObjectPatch a m)"
proof (rule timelessI)
  fix w w' assume r: "ApplyPatchFromObjectPatch a m w = Some w'"
  have o: "timeless (SetOwnerId a i)" for i unfolding SetOwnerId_def by (rule timeless_modify) simp
  let ?first = "(case op_Components m of
          None \<Rightarrow> Some (0, [], w)
        | Some m \<Rightarrow>
            let ComponentCount = GetRuntimeComponentsCount m
            in apply_patch_components a m 0 (if 0 < ComponentCount then FLAG_COMPONENTS else 0)
                 (replicate ComponentCount None) w)"
  obtain f us w1 where 1: "?first = Some (f, us, w1)"
    using r unfolding ApplyPatchFromObjectPatch_def by (cases ?first) auto
  obtain w2 w3 where 2: "SetOwnerId a (op_OwnerId m) w1 = Some w2" "SetParentIdDirect a (op_ParentId m) False w2 = Some w3"
    and w': "w' = w3 \<or> (\<exists>f. w' = update_event a f us w3)"
    using r unfolding ApplyPatchFromObjectPatch_def 1 by (auto simp: bind_eq_Some_conv Let_def split: if_splits)
  have "keeps_times w w1" using 1 timeless_apply_patch_components by (auto simp: Let_def split: option.splits)
  moreover have "keeps_times w1 w2" "keeps_times w2 w3"
    using 2 timelessD [OF o] timelessD [OF timeless_SetParentIdDirect] by blast+
  moreover have "keeps_times w3 w'" using w' by auto
  ultimately show "keeps_times w w'" by (meson keeps_trans)
qed

lemma timeless_deselect_owned: "deselect_owned i bs w = Some w' \<Longrightarrow> keeps_times w w'"
proof (induction bs arbitrary: w)
  case (Cons b bs)
  obtain e where e: "ent w b = Some e" using Cons.prems by (auto simp: bind_eq_Some_conv)
  obtain w1 where w1: "keeps_times w w1" "deselect_owned i bs w1 = Some w'"
  proof (cases "e_SelectedId e = i")
    case True
    then obtain x wd where "Deselect b w = Some (x, wd)"
      "deselect_owned i bs (wd\<lparr>SelectedEntities := remove1 b (SelectedEntities wd)\<rparr>) = Some w'"
      using Cons.prems e by (auto simp: bind_eq_Some_conv)
    then show ?thesis
      using that timeless2D [OF timeless_selection] keeps_trans [OF _ keeps_simple(4)] unfolding Deselect_def by blast
  next
    case False
    then show ?thesis using Cons.prems e that [OF keeps_refl] by simp
  qed
  then show ?case using Cons.IH keeps_trans by blast
qed simp

lemma timeless_LocalDestroyEntity: "timeless (LocalDestroyEntity a)"
  by (rule timelessI) (auto simp: LocalDestroyEntity_def RemoveEntity_def Let_def bind_eq_Some_conv keeps_times_def last_patch_def
      ent_def emit_event_def fun_eq_iff)

lemma timeless_destroy_matching: "destroy_matching i as w = Some w' \<Longrightarrow> keeps_times w w'"
proof (induction as arbitrary: w)
  case (Cons a as)
  obtain e where e: "ent w a = Some e" using Cons.prems by (auto simp: bind_eq_Some_conv)
  obtain w1 where w1: "keeps_times w w1" "destroy_matching i as w1 = Some w'"
  proof (cases "e_Id e = i")
    case True
    then obtain w0 w1 where "(if e_Type e = AvatarE then deselect_owned i (Entities w) w else Some w) = Some w0"
      "LocalDestroyEntity a w0 = Some w1" "destroy_matching i as w1 = Some w'"
      using Cons.prems e by (auto simp: bind_eq_Some_conv)
    moreover from this have "keeps_times w w0" using timeless_deselect_owned by (auto split: if_splits)
    ultimately show ?thesis using that timelessD [OF timeless_LocalDestroyEntity] keeps_trans by blast
  next
    case False
    then show ?thesis using Cons.prems e that [OF keeps_refl] by simp
  qed
  then show ?case using Cons.IH keeps_trans by blast
qed simp

lemma timeless_patch_matching: "patch_matching m as w = Some w' \<Longrightarrow> keeps_times w w'"
proof (induction as arbitrary: w)
  case (Cons a as)
  obtain e where e: "ent w a = Some e" using Cons.prems by (auto simp: bind_eq_Some_conv)
  show ?case
  proof (cases "e_Id e = op_Id m")
    case True
    then obtain w1 where "ApplyPatchFromObjectPatch a m w = Some w1" "patch_matching m as w1 = Some w'"
      using Cons.prems e by (auto simp: bind_eq_Some_conv split: if_splits)
    then show ?thesis using Cons.IH timelessD [OF timeless_ApplyPatchFromObjectPatch] keeps_trans by blast
  next
    case False
    then show ?thesis using Cons.prems e Cons.IH by simp
  qed
qed simp

lemma timeless_ApplyIncomingPatch: "timeless (ApplyIncomingPatch v)"
  by (rule timelessI)
    (auto simp: ApplyIncomingPatch_def bind_eq_Some_conv split: if_splits intro: timeless_destroy_matching timeless_patch_matching)

lemma timeless_QueueEntityUpdate: "timeless (QueueEntityUpdate a)"
proof (rule timelessI)
  fix w w' assume r: "QueueEntityUpdate a w = Some w'"
  then obtain e p where e: "ent w a = Some e" "e_StatePatcher e = Some p" by (auto simp: QueueEntityUpdate_def bind_eq_Some_conv)
  then have "w' = w \<or> w' = w\<lparr>PendingOutgoing := a # PendingOutgoing w\<rparr>"
    using r by (cases "IsModifiable (w_Kind w) e")
      (cases "HasPendingPatch p"; simp add: QueueEntityUpdate_def; metis)+
  then show "keeps_times w w'" by (elim disjE) (simp_all only: keeps_refl keeps_simple)
qed

subsection \<open>Messages, creation and destruction\<close>

lemma timeless_create_from_data: "create_from_data ca m w = Some w' \<Longrightarrow> keeps_times w w'"
proof (induction m arbitrary: w)
  case (Cons kv m)
  obtain k v where kv: "kv = (k, v)" by (cases kv)
  show ?case
  proof (cases "k = COMPONENT_KEY_COMPONENTTYPE")
    case True
    then show ?thesis using Cons kv by simp
  next
    case False
    then obtain f w1 where "modify_comp ca f w = Some w1" "create_from_data ca m (emit_event (Ev_OnCreated ca) w1) = Some w'"
      using Cons.prems kv by (auto simp: bind_eq_Some_conv)
    moreover from this(1) have "keeps_times w w1" by (auto simp: modify_comp_def bind_eq_Some_conv)
    ultimately show ?thesis using Cons.IH keeps_simple(1) keeps_trans by meson
  qed
qed simp

lemma timeless_AddComponentFromItemComponentData: "timeless (AddComponentFromItemComponentData a k d)"
proof (rule timelessI)
  fix w w' assume r: "AddComponentFromItemComponentData a k d w = Some w'"
  show "keeps_times w w'"
  proof (cases "w' = w")
    case False
    then obtain m c w2 where "create_from_data (fst (alloc_comp c w)) m (snd (alloc_comp c w)) = Some w2"
      "modify_ent a (\<lambda>e. e\<lparr>e_Components := omap_upd k (fst (alloc_comp c w)) (e_Components e)\<rparr>) w2 = Some w'"
      using r by (auto simp: AddComponentFromItemComponentData_def bind_eq_Some_conv split_beta split: if_splits option.splits)
    then show ?thesis
      using keeps_alloc_comp [OF surjective_pairing] timeless_create_from_data timelessD [OF timeless_components] keeps_trans by meson
  qed simp
qed

lemma timeless_load_message_components: "load_message_components a m w = Some w' \<Longrightarrow> keeps_times w w'"
proof (induction m arbitrary: w)
  case (Cons kd m)
  obtain k d where kd: "kd = (k, d)" by (cases kd)
  consider (component) w1 where "AddComponentFromItemComponentData a k d w = Some w1" "load_message_components a m w1 = Some w'"
    | (property) v w1 where "EntitySetPropertyDirect a k v False w = Some w1" "load_message_components a m w1 = Some w'"
    | (ignored) "load_message_components a m w = Some w'"
    using Cons.prems kd by (auto simp: bind_eq_Some_conv split: if_splits)
  then show ?case
    using Cons.IH timelessD [OF timeless_AddComponentFromItemComponentData] timelessD [OF timeless_EntitySetPropertyDirect] keeps_trans
    by cases blast+
qed simp

lemma timeless_set_component_properties: "set_component_properties a ca kvs w = Some w' \<Longrightarrow> keeps_times w w'"
  by (induction kvs arbitrary: w)
    (auto simp: bind_eq_Some_conv dest!: timelessD [OF timeless_ComponentSetPropertyDirect] intro: keeps_trans)

lemma timeless_local_delete_components: "local_delete_components cas w = Some w' \<Longrightarrow> keeps_times w w'"
  by (induction cas arbitrary: w) (auto simp: bind_eq_Some_conv intro: keeps_trans [OF keeps_simple(1)])

lemma timeless_process_child_updates: "process_child_updates cs w = Some w' \<Longrightarrow> keeps_times w w'"
proof (induction cs arbitrary: w)
  case (Cons c cs)
  have m: "timeless (RemoveParentId c)" unfolding RemoveParentId_def by (rule timeless_modify) simp
  obtain w1 w2 where "RemoveParentId c w = Some w1" "ResolveEntityHierarchy c w1 = Some w2"
    "process_child_updates cs (update_event c FLAG_PARENT [] w2) = Some w'" using Cons.prems by (auto simp: bind_eq_Some_conv)
  then show ?case using Cons.IH timelessD [OF m] timelessD [OF timeless_ResolveEntityHierarchy] keeps_simple(2) keeps_trans by meson
qed simp

lemma timeless_Online_DestroyEntity: "timeless (Online_DestroyEntity a)"
proof (rule timelessI)
  fix w w' assume r: "Online_DestroyEntity a w = Some w'"
  obtain cas w1 w3 w4 ev where "local_delete_components cas w = Some w1"
    "LocalProcessChildUpdates a (w1\<lparr>RootHierarchyEntities := remove1 a (RootHierarchyEntities w1)\<rparr>) = Some w3"
    "LocalDestroyEntity a w3 = Some w4" "w' = emit_event ev w4"
    using r by (auto simp: Online_DestroyEntity_def bind_eq_Some_conv Let_def)
  moreover from this(2) have "keeps_times w1 w3"
    by (auto simp: LocalProcessChildUpdates_def bind_eq_Some_conv dest!: timeless_process_child_updates intro: keeps_trans [OF keeps_simple(5)])
  ultimately show "keeps_times w w'"
    using timeless_local_delete_components timelessD [OF timeless_LocalDestroyEntity] keeps_simple(1) keeps_trans by meson
qed

lemma timeless_RemoveParentFromChildEntity: "timeless (RemoveParentFromChildEntity a i)"
proof (rule timelessI)
  fix w w' assume r: "RemoveParentFromChildEntity a i w = Some w'"
  have m: "timeless (modify_ent c (SetParent None))" for c by (rule timeless_modify) simp
  show "keeps_times w w'"
    using r timelessD [OF timeless_parent(2)] timelessD [OF m] keeps_trans
    by (auto simp: RemoveParentFromChildEntity_def bind_eq_Some_conv split: if_splits) blast
qed

lemma timeless_remove_parent_from_children: "remove_parent_from_children a i cs w = Some w' \<Longrightarrow> keeps_times w w'"
  by (induction cs arbitrary: i w)
    (auto simp: bind_eq_Some_conv dest!: timelessD [OF timeless_RemoveParentFromChildEntity] timelessD [OF timeless_ResolveEntityHierarchy]
      intro: keeps_trans [OF keeps_trans])

lemma timeless_RemoveParentChildRelationships: "timeless (RemoveParentChildRelationshipsFromEntity a)"
proof (rule timelessI)
  fix w w' assume r: "RemoveParentChildRelationshipsFromEntity a w = Some w'"
  have m: "timeless (modify_ent c (SetParent None))" "timeless (modify_ent c (remove_child b))" for b c
    by (rule timeless_modify; simp)+
  have "keeps_times w w1" if "RemoveAsChildFromParent a w = Some w1" for w1
    using that timelessD [OF m(1)] timelessD [OF m(2)] keeps_trans
    by (auto simp: RemoveAsChildFromParent_def bind_eq_Some_conv split: option.splits) blast
  then show "keeps_times w w'"
    using r timeless_remove_parent_from_children keeps_trans
    by (auto simp: RemoveParentChildRelationshipsFromEntity_def bind_eq_Some_conv split: if_splits)
qed

lemma timeless_AddPendingEntity: "timeless (AddPendingEntity a)"
proof (rule timelessI)
  fix w w' assume "AddPendingEntity a w = Some w'"
  then show "keeps_times w w'"
    by (auto simp: AddPendingEntity_def bind_eq_Some_conv Let_def split: if_splits entity_type.splits)
      (simp_all add: keeps_times_def last_patch_def ent_def fun_eq_iff)
qed

lemma timeless_process_adds: "process_adds added as w = Some w' \<Longrightarrow> keeps_times w w'"
proof (induction as arbitrary: added w)
  case (Cons a as)
  obtain w1 where w1: "(if a \<notin> set added then do { w' \<leftarrow> AddPendingEntity a w; ResolveEntityHierarchy a w' } else Some w) = Some w1"
    "process_adds (a # added) as (w1\<lparr>PendingAdds := as\<rparr>) = Some w'"
    using Cons.prems by (auto simp: bind_eq_Some_conv)
  have "keeps_times w w1"
    using w1(1) timelessD [OF timeless_AddPendingEntity] timelessD [OF timeless_ResolveEntityHierarchy] keeps_trans
    by (auto simp: bind_eq_Some_conv split: if_splits) blast
  then show ?case using Cons.IH [OF w1(2)] keeps_simple(9) keeps_trans by meson
qed simp

lemma timeless_process_incoming: "process_incoming vs w = Some w' \<Longrightarrow> keeps_times w w'"
proof (induction vs arbitrary: w)
  case (Cons v vs)
  then obtain w1 where "ApplyIncomingPatch v w = Some w1" "process_incoming vs (w1\<lparr>PendingIncomingUpdates := vs\<rparr>) = Some w'"
    by (auto simp: bind_eq_Some_conv)
  then show ?case using Cons.IH timelessD [OF timeless_ApplyIncomingPatch] keeps_simple(8) keeps_trans by meson
qed simp

text \<open>
  New entities get a patcher, removed ones lose theirs: an operation ages the engine when the times
  it leaves are those of before, or belong to entities that were not there.
\<close>

definition ages :: "world \<Rightarrow> world \<Rightarrow> bool" where
  "ages w w' \<longleftrightarrow> EntityPatchRate (w_Settings w') = EntityPatchRate (w_Settings w) \<and> w_NextAddr w \<le> w_NextAddr w'
     \<and> (\<forall>a l. last_patch w' a = Some l \<longrightarrow> last_patch w a = Some l \<or> w_NextAddr w \<le> a \<and> a < w_NextAddr w')"

lemma ages_of_keeps: "keeps_times w w' \<Longrightarrow> ages w w'"
  by (simp add: keeps_times_def ages_def)

lemma ages_refl [simp]: "ages w w"
  by (simp add: ages_def)

lemma ages_trans [trans]: "ages w1 w2 \<Longrightarrow> ages w2 w3 \<Longrightarrow> ages w1 w3"
proof -
  assume a: "ages w1 w2" "ages w2 w3"
  have "last_patch w1 a = Some l \<or> w_NextAddr w1 \<le> a \<and> a < w_NextAddr w3" if "last_patch w3 a = Some l" for a l
  proof (cases "last_patch w2 a = Some l")
    case True
    then have "last_patch w1 a = Some l \<or> w_NextAddr w1 \<le> a \<and> a < w_NextAddr w2" using a(1) unfolding ages_def by blast
    then show ?thesis using a(2) unfolding ages_def by (auto intro: less_le_trans)
  next
    case False
    then have "w_NextAddr w2 \<le> a \<and> a < w_NextAddr w3" using a(2) that unfolding ages_def by blast
    then show ?thesis using a(1) unfolding ages_def by (auto intro: le_trans)
  qed
  then show "ages w1 w3" using a unfolding ages_def by (simp add: le_trans [of "w_NextAddr w1" "w_NextAddr w2"])
qed

lemma ages_keeps [trans]: "ages w1 w2 \<Longrightarrow> keeps_times w2 w3 \<Longrightarrow> ages w1 w3"
  using ages_trans ages_of_keeps by blast

lemma ages_free_ent: "ages w (free_ent a w)"
  by (auto simp: ages_def free_ent_def last_patch_def ent_def)

lemma ages_alloc_ent: "alloc_ent e w = (a, w') \<Longrightarrow> ages w w'"
  by (auto simp: alloc_ent_def ages_def last_patch_def ent_def put_ent_def split: if_splits)

lemma ages_NewFromObjectMessage: "NewFromObjectMessage m w = Some (a, w') \<Longrightarrow> ages w w'"
  by (auto simp: NewFromObjectMessage_def Let_def split_beta bind_eq_Some_conv split: option.splits
      intro: ages_alloc_ent ages_keeps [OF ages_alloc_ent [OF surjective_pairing] timeless_load_message_components])

lemma ages_CreateRemotelyRetrievedEntity: "CreateRemotelyRetrievedEntity v w = Some (a, w') \<Longrightarrow> ages w w'"
  by (auto simp: CreateRemotelyRetrievedEntity_def bind_eq_Some_conv
      intro: ages_keeps [OF ages_NewFromObjectMessage keeps_simple(9)])

lemma keeps_remote_created: "keeps_times w (FireRemoteSpaceEntityCreatedCallback a w)"
  by (simp add: FireRemoteSpaceEntityCreatedCallback_def)

lemma ages_OnObjectMessage: "OnObjectMessage v w = Some w' \<Longrightarrow> ages w w'"
  by (auto simp: OnObjectMessage_def bind_eq_Some_conv intro: ages_keeps [OF ages_CreateRemotelyRetrievedEntity keeps_remote_created])

lemma ages_retrieve_items: "retrieve_items vs w = Some w' \<Longrightarrow> ages w w'"
proof (induction vs arbitrary: w)
  case (Cons v vs)
  then obtain a w1 where "CreateRemotelyRetrievedEntity v w = Some (a, w1)"
    "retrieve_items vs (FireRemoteSpaceEntityCreatedCallback a w1) = Some w'" by (auto simp: bind_eq_Some_conv)
  then show ?case using Cons.IH ages_CreateRemotelyRetrievedEntity keeps_remote_created ages_keeps ages_trans by meson
qed simp

lemma ages_BuildNewAvatar: "BuildNewAvatar i n t own tr pe A w = Some (a, w') \<Longrightarrow> ages w w'"
proof -
  assume r: "BuildNewAvatar i n t own tr pe A w = Some (a, w')"
  obtain w1 ca w2 where "alloc_ent (SpaceEntity_make (w_Kind w) AvatarE i n t own None tr pe) w = (a, w1)"
    "AddComponentByTypeId a CT_AvatarData w1 = Some (Some ca, w2)" "set_component_properties a ca (avatar_settings A) w2 = Some w'"
    using r by (auto simp: BuildNewAvatar_def bind_eq_Some_conv split_beta prod_eq_iff split: option.splits)
  then show ?thesis
    using ages_alloc_ent ages_keeps timeless2D [OF timeless_AddComponentByTypeId] timeless_set_component_properties by meson
qed

lemma ages_avatars:
  "SendNewAvatarObjectMessage n t A i w = Some w' \<Longrightarrow> ages w w'"
  "CreateNewLocalAvatar n t A i w = Some w' \<Longrightarrow> ages w w'"
proof -
  assume r: "SendNewAvatarObjectMessage n t A i w = Some w'"
  obtain own tr pe a w1 ev where "BuildNewAvatar i n t own tr pe A w = Some (a, w1)" "w' = free_ent a (emit_event ev w1)"
    using r by (auto simp: SendNewAvatarObjectMessage_def bind_eq_Some_conv)
  then show "ages w w'" using ages_BuildNewAvatar ages_keeps [OF _ keeps_simple(1)] ages_free_ent ages_trans by meson
next
  assume r: "CreateNewLocalAvatar n t A i w = Some w'"
  obtain own tr pe a w1 c self w2 ev where "BuildNewAvatar i n t own tr pe A w = Some (a, w1)"
    "SpaceEntity_ApplyLocalPatch a c self (w1\<lparr>Entities := Entities w1 @ [a], Avatars := Avatars w1 @ [a]\<rparr>) = Some w2"
    "w' = emit_event ev w2"
    using r by (auto simp: CreateNewLocalAvatar_def bind_eq_Some_conv Let_def)
  moreover have "keeps_times w1 (w1\<lparr>Entities := x, Avatars := y\<rparr>)" for x y
    by (auto simp: keeps_times_def last_patch_def ent_def fun_eq_iff)
  ultimately show "ages w w'"
    using ages_BuildNewAvatar ages_keeps timelessD [OF timeless_SpaceEntity_ApplyLocalPatch] keeps_simple(1) by meson
qed

lemma ages_CreateEntity:
  "CreateEntity_ids n t parent ans w = Some (x, w') \<Longrightarrow> ages w w'"
  "CreateEntity_sent a ex w = Some w' \<Longrightarrow> ages w w'"
proof -
  assume r: "CreateEntity_ids n t parent ans w = Some (x, w')"
  have "w' = emit_event (Ev_created None) w \<or> (\<exists>e a w1 ev. alloc_ent e w = (a, w1) \<and> w' = emit_event ev w1)"
    using r by (auto simp: CreateEntity_ids_def bind_eq_Some_conv split_beta prod_eq_iff split: sum.splits)
  then show "ages w w'" using ages_of_keeps [OF keeps_simple(1)] ages_keeps [OF ages_alloc_ent keeps_simple(1)] by auto
next
  assume r: "CreateEntity_sent a ex w = Some w'"
  have k: "keeps_times w1 (emit_event ev (w1\<lparr>Entities := x, Objects := y\<rparr>))" for w1 x y ev
    by (auto simp: keeps_times_def last_patch_def ent_def emit_event_def fun_eq_iff)
  show "ages w w'"
    using r k
    by (auto simp: CreateEntity_sent_def bind_eq_Some_conv Let_def split: if_splits
        intro!: ages_of_keeps intro: keeps_trans [OF timelessD [OF timeless_ResolveEntityHierarchy]])
qed

lemma ages_RemovePendingEntity: "RemovePendingEntity a w = Some w' \<Longrightarrow> ages w w'"
proof -
  assume r: "RemovePendingEntity a w = Some w'"
  have k: "keeps_times w (w\<lparr>Avatars := x, RootHierarchyEntities := y\<rparr>)" "keeps_times w (w\<lparr>Objects := x, RootHierarchyEntities := y\<rparr>)" for x y
    by (simp_all add: keeps_times_def last_patch_def ent_def fun_eq_iff)
  obtain w2 w3 where w2: "keeps_times w w2" and w3: "RemoveParentChildRelationshipsFromEntity a w2 = Some w3"
    "w' = free_ent a (w3\<lparr>Entities := remove1 a (Entities w3)\<rparr>)"
    using r by (auto simp: RemovePendingEntity_def bind_eq_Some_conv Let_def split: if_splits entity_type.splits) (blast intro: k)+
  have "keeps_times w w3" using w2 timelessD [OF timeless_RemoveParentChildRelationships w3(1)] keeps_trans by blast
  then have "keeps_times w (w3\<lparr>Entities := remove1 a (Entities w3)\<rparr>)" using keeps_simple(10) keeps_trans by blast
  then show ?thesis using w3(2) ages_of_keeps ages_free_ent ages_trans by blast
qed

lemma ages_process_removes: "process_removes removed as w = Some w' \<Longrightarrow> ages w w'"
proof (induction as arbitrary: removed w)
  case (Cons a as)
  then obtain w1 where w1: "(if a \<notin> set removed then RemovePendingEntity a w else Some w) = Some w1"
    "process_removes (a # removed) as (w1\<lparr>PendingRemoves := as\<rparr>) = Some w'" by (auto simp: bind_eq_Some_conv)
  then have "ages w w1" using ages_RemovePendingEntity by (auto split: if_splits)
  then show ?case using Cons.IH [OF w1(2)] keeps_simple(7) ages_keeps ages_trans by meson
qed simp

lemma ages_destroy_all: "destroy_all as w = Some w' \<Longrightarrow> ages w w'"
proof (induction as arbitrary: w)
  case (Cons a as)
  then obtain w1 where w1: "Online_DestroyEntity a w = Some w1 \<or> LocalDestroyEntity a w = Some w1"
    "destroy_all as (free_ent a w1) = Some w'" by (auto simp: bind_eq_Some_conv split: if_splits)
  then have "keeps_times w w1" using timelessD [OF timeless_Online_DestroyEntity] timelessD [OF timeless_LocalDestroyEntity] by blast
  then show ?case using Cons.IH [OF w1(2)] ages_of_keeps ages_free_ent ages_trans by meson
qed simp

lemma ages_leave: "LocalDestroyAllEntities w = Some w' \<Longrightarrow> ages w w'"
proof -
  assume "LocalDestroyAllEntities w = Some w'"
  then obtain w1 where w1: "destroy_all (Entities w) w = Some w1" "w' = w1\<lparr>Entities := [], Objects := [], Avatars := [],
     RootHierarchyEntities := [], PendingAdds := [], PendingRemoves := [], PendingIncomingUpdates := []\<rparr>"
    by (auto simp: LocalDestroyAllEntities_def bind_eq_Some_conv)
  have "keeps_times w1 w'" by (auto simp: w1(2) keeps_times_def last_patch_def ent_def fun_eq_iff)
  then show ?thesis using ages_destroy_all [OF w1(1)] ages_keeps by blast
qed

section \<open>Runs of the engine\<close>

definition SetEntityPatchRateLimitEnabled :: "bool \<Rightarrow> world \<Rightarrow> world" where
  "SetEntityPatchRateLimitEnabled Enabled w = w\<lparr>w_Settings := (w_Settings w)\<lparr>EntityPatchRateLimitEnabled := Enabled\<rparr>\<rparr>"

text \<open>
  What happens to the entities between two walks over the outgoing set: the client's operations on
  the engine, its entities and their components, the answers of the service to its requests, the
  messages and patches that arrive, the other parts of the tick, and leaving the space.
\<close>

inductive engine_step :: "world \<Rightarrow> world \<Rightarrow> bool" where
  set: "EntitySetProperty a k v w = Some (b, w') \<Longrightarrow> engine_step w w'"
| parent: "SetParentId a i w = Some w' \<Longrightarrow> engine_step w w'"
| unparent: "RemoveParentEntity a w = Some w' \<Longrightarrow> engine_step w w'"
| add_component: "AddComponentByTypeId a t w = Some (x, w') \<Longrightarrow> engine_step w w'"
| set_component: "ComponentSetPropertyDirect a ca key v w = Some w' \<Longrightarrow> engine_step w w'"
| remove_component: "RemoveComponent a k w = Some (b, w') \<Longrightarrow> engine_step w w'"
| lock: "Lock a w = Some (b, w') \<Longrightarrow> engine_step w w'"
| unlock: "Unlock a w = Some (b, w') \<Longrightarrow> engine_step w w'"
| select: "Select a w = Some (b, w') \<Longrightarrow> engine_step w w'"
| deselect: "Deselect a w = Some (b, w') \<Longrightarrow> engine_step w w'"
| queue: "QueueEntityUpdate a w = Some w' \<Longrightarrow> engine_step w w'"
| limit: "engine_step w (SetEntityPatchRateLimitEnabled b w)"
| create: "engine_step w (CreateEntity_request w)"
| create_ids: "CreateEntity_ids name transform ParentID answer w = Some (x, w') \<Longrightarrow> engine_step w w'"
| create_sent: "CreateEntity_sent a failed w = Some w' \<Longrightarrow> engine_step w w'"
| avatar_sent: "SendNewAvatarObjectMessage name transform A i w = Some w' \<Longrightarrow> engine_step w w'"
| avatar_made: "CreateNewLocalAvatar name transform A i w = Some w' \<Longrightarrow> engine_step w w'"
| avatar_failed: "engine_step w (CreateAvatar_failed w)"
| destroy: "Online_DestroyEntity a w = Some w' \<Longrightarrow> engine_step w w'"
| destroy_sent: "engine_step w (DestroyEntity_sent failed w)"
| object_arrives: "OnObjectMessage params w = Some w' \<Longrightarrow> engine_step w w'"
| object_requested: "OnRequestToSendObject params w = Some w' \<Longrightarrow> engine_step w w'"
| patch_arrives: "OnObjectPatch params w = Some w' \<Longrightarrow> engine_step w w'"
| patch_applied: "ApplyIncomingPatch v w = Some w' \<Longrightarrow> engine_step w w'"
| adds: "process_adds [] (PendingAdds w) w = Some w' \<Longrightarrow> engine_step w w'"
| incoming: "process_incoming (PendingIncomingUpdates w) w = Some w' \<Longrightarrow> engine_step w w'"
| removes: "process_removes [] (PendingRemoves w) w = Some w' \<Longrightarrow> engine_step w w'"
| page_requested: "engine_step w (GetEntitiesPaged offset limit w)"
| page_items: "retrieve_items items w = Some w' \<Longrightarrow> engine_step w w'"
| page_last: "engine_step w (emit_event (Ev_fetch_complete n) w)"
| leave: "LocalDestroyAllEntities w = Some w' \<Longrightarrow> engine_step w w'"

lemma engine_step_ages: "engine_step w w' \<Longrightarrow> ages w w'"
proof (induction rule: engine_step.induct)
  case (limit w b)
  then show ?case by (simp add: SetEntityPatchRateLimitEnabled_def ages_def last_patch_def ent_def)
next
  case (patch_arrives params w w')
  then show ?case by (auto simp: OnObjectPatch_def bind_eq_Some_conv intro: ages_of_keeps)
next
  case (object_requested params w w')
  then show ?case by (auto simp: OnRequestToSendObject_def bind_eq_Some_conv intro!: ages_of_keeps split: option.splits)
qed (use timeless2D [OF timeless_EntitySetProperty] timelessD [OF timeless_parent(1)] timelessD [OF timeless_parent(2)]
    timeless2D [OF timeless_AddComponentByTypeId] timelessD [OF timeless_ComponentSetPropertyDirect]
    timeless2D [OF timeless_RemoveComponent] timeless2D [OF timeless_Lock(1)] timeless2D [OF timeless_Lock(2)]
    timeless2D [OF timeless_selection] timelessD [OF timeless_QueueEntityUpdate] timelessD [OF timeless_ApplyIncomingPatch]
    timelessD [OF timeless_Online_DestroyEntity] timeless_process_adds timeless_process_incoming
    in \<open>auto simp: Select_def Deselect_def CreateEntity_request_def request_ids_def CreateAvatar_failed_def DestroyEntity_sent_def
      GetEntitiesPaged_def intro: ages_of_keeps ages_CreateEntity ages_avatars ages_OnObjectMessage ages_process_removes
      ages_retrieve_items ages_leave\<close>)

text \<open>
  A run, with the patches sent in it: the entity, the time of its patch, and whether the rate
  limit was on.
\<close>

type_synonym sent_patch = "addr \<times> nat \<times> bool"

inductive engine_run :: "world \<Rightarrow> sent_patch list \<Rightarrow> world \<Rightarrow> bool" where
  start: "engine_run w [] w"
| step: "engine_run w ps w1 \<Longrightarrow> engine_step w1 w2 \<Longrightarrow> engine_run w ps w2"
| send: "engine_run w ps w1 \<Longrightarrow> collect_outgoing Clock (PendingOutgoing w1) w1 = Some (sent, w2)
    \<Longrightarrow> process_outgoing Clock w1 = Some w3
    \<Longrightarrow> engine_run w (ps @ map (\<lambda>a. (a, Clock a, EntityPatchRateLimitEnabled (w_Settings w1))) sent) w3"

text \<open>The whole tick is such a run, and so is the answer with a page of entities, whose last one runs a tick.\<close>

lemma tick_is_a_run:
  assumes "engine_run w ps w1" "ProcessPendingEntityOperations Clock w1 = Some w2"
  shows "\<exists>qs. engine_run w (ps @ qs) w2"
proof -
  obtain a b c where "process_adds [] (PendingAdds w1) w1 = Some a" "process_incoming (PendingIncomingUpdates a) a = Some b"
    and c: "process_outgoing Clock b = Some c" and r: "process_removes [] (PendingRemoves c) c = Some w2"
    using assms(2) by (auto simp: ProcessPendingEntityOperations_def bind_eq_Some_conv)
  then have b: "engine_run w ps b" using assms(1) engine_run.step engine_step.adds engine_step.incoming by blast
  obtain sent b' where "collect_outgoing Clock (PendingOutgoing b) b = Some (sent, b')"
    using c by (auto simp: process_outgoing_def bind_eq_Some_conv)
  then show ?thesis using engine_run.send [OF b _ c] r engine_run.step engine_step.removes by blast
qed

lemma page_is_a_run:
  assumes "engine_run w ps w1" "RetrieveAllEntities_page Clock Offset Result w1 = Some w2"
  shows "\<exists>qs. engine_run w (ps @ qs) w2"
proof -
  obtain items a where "retrieve_items items w1 = Some a"
    and cases: "(\<exists>n m. w2 = GetEntitiesPaged n m a) \<or> (\<exists>n b. ProcessPendingEntityOperations Clock a = Some b \<and> w2 = emit_event (Ev_fetch_complete n) b)"
    using assms(2)
    by (auto simp: RetrieveAllEntities_page_def bind_eq_Some_conv Let_def split: sig_value.splits list.splits if_splits) blast+
  then have a: "engine_run w ps a" using assms(1) engine_run.step engine_step.page_items by blast
  from cases show ?thesis
  proof (elim disjE exE conjE)
    fix n m assume "w2 = GetEntitiesPaged n m a"
    then show ?thesis using engine_run.step [OF a engine_step.page_requested, of n m] by (metis append_Nil2)
  next
    fix n b assume b: "ProcessPendingEntityOperations Clock a = Some b" "w2 = emit_event (Ev_fetch_complete n) b"
    then show ?thesis using tick_is_a_run [OF a b(1)] engine_run.step engine_step.page_last by blast
  qed
qed

text \<open>
  Patches of the same entity are at least \<open>r\<close> apart when the limit was on at the later one. The
  clock is the system's, which can be set back: with the limit off nothing notices.
\<close>

definition spaced :: "nat \<Rightarrow> sent_patch list \<Rightarrow> bool" where
  "spaced r = sorted_wrt (\<lambda>(a, t, _) (b, u, limited). a = b \<and> limited \<longrightarrow> t + r \<le> u)"

definition clock_kept :: "sent_patch list \<Rightarrow> bool" where
  "clock_kept = sorted_wrt (\<lambda>(a, t, _) (b, u, limited). a = b \<and> \<not> limited \<longrightarrow> t \<le> u)"

definition patches_inv :: "sent_patch list \<Rightarrow> world \<Rightarrow> bool" where
  "patches_inv ps w \<longleftrightarrow> spaced (EntityPatchRate (w_Settings w)) ps \<and> (\<forall>a l. last_patch w a = Some l \<longrightarrow> a < w_NextAddr w)
     \<and> (\<forall>a t b. (a, t, b) \<in> set ps \<longrightarrow> a < w_NextAddr w \<and> (\<forall>l. last_patch w a = Some l \<longrightarrow> t \<le> l))"

lemma patches_inv_sent: "patches_inv ps w \<Longrightarrow> (a, t, b) \<in> set ps \<Longrightarrow> a < w_NextAddr w \<and> (\<forall>l. last_patch w a = Some l \<longrightarrow> t \<le> l)"
  unfolding patches_inv_def by blast

lemma patches_inv_ages:
  assumes "ages w w'" "patches_inv ps w"
  shows "patches_inv ps w'"
  unfolding patches_inv_def
proof (intro conjI allI impI)
  show "spaced (EntityPatchRate (w_Settings w')) ps" using assms by (simp add: ages_def patches_inv_def)
  fix a l assume "last_patch w' a = Some l"
  then have "last_patch w a = Some l \<or> a < w_NextAddr w'" using assms(1) unfolding ages_def by blast
  then show "a < w_NextAddr w'" using assms unfolding ages_def patches_inv_def by (meson less_le_trans)
next
  fix a t b assume m: "(a, t, b) \<in> set ps"
  note old = patches_inv_sent [OF assms(2) m]
  show "a < w_NextAddr w'" using old assms(1) by (simp add: ages_def)
  fix l assume "last_patch w' a = Some l"
  then have "last_patch w a = Some l" using old assms(1) unfolding ages_def by (meson leD)
  then show "t \<le> l" using old by blast
qed

lemma patches_inv_send:
  assumes i: "patches_inv ps w" and l: "last_patch w a = Some l" "b \<longrightarrow> l + EntityPatchRate (w_Settings w) \<le> c"
    and k: "clock_kept (ps @ [(a, c, b)])"
    and w': "last_patch w' = (last_patch w)(a \<mapsto> c)" "w_Settings w' = w_Settings w" "w_NextAddr w' = w_NextAddr w"
  shows "patches_inv (ps @ [(a, c, b)]) w'"
proof -
  have old: "t \<le> l" "\<not> b \<Longrightarrow> t \<le> c" if "(a, t, b') \<in> set ps" for t b'
    using patches_inv_sent [OF i that] l(1) k that by (fastforce simp: clock_kept_def sorted_wrt_append)+
  have "spaced (EntityPatchRate (w_Settings w)) (ps @ [(a, c, b)])"
    using i old(1) l(2) by (fastforce simp: patches_inv_def spaced_def sorted_wrt_append)
  moreover have "x < w_NextAddr w' \<and> (\<forall>m. last_patch w' x = Some m \<longrightarrow> t \<le> m)" if x: "(x, t, b') \<in> set (ps @ [(a, c, b)])" for x t b'
  proof (cases "x = a")
    case True
    then have "t \<le> c" using x old [of t b'] l(2) by (cases b) auto
    moreover have "a < w_NextAddr w" using i l(1) unfolding patches_inv_def by blast
    ultimately show ?thesis using True by (simp add: w'(1,3))
  next
    case False
    then show ?thesis using x patches_inv_sent [OF i, of x t b'] by (auto simp: w'(1,3))
  qed
  moreover have "\<forall>x m. last_patch w' x = Some m \<longrightarrow> x < w_NextAddr w'"
    using i l(1) unfolding patches_inv_def w'(1,3) by (auto simp: fun_upd_def split: if_splits)
  ultimately show ?thesis unfolding patches_inv_def w'(2) by blast
qed

lemma collect_outgoing_inv:
  "collect_outgoing Clock as w = Some (sent, w') \<Longrightarrow> patches_inv ps w \<Longrightarrow>
   clock_kept (ps @ map (\<lambda>a. (a, Clock a, EntityPatchRateLimitEnabled (w_Settings w))) sent) \<Longrightarrow>
   patches_inv (ps @ map (\<lambda>a. (a, Clock a, EntityPatchRateLimitEnabled (w_Settings w))) sent) w' \<and> w_Settings w' = w_Settings w"
proof (induction as arbitrary: ps w sent)
  case (Cons a as)
  let ?b = "EntityPatchRateLimitEnabled (w_Settings w)"
  obtain e p where e: "ent w a = Some e" "e_StatePatcher e = Some p"
    using Cons.prems(1) by (auto simp: bind_eq_Some_conv)
  have skip: "collect_outgoing Clock as w1 = Some (sent, w') \<Longrightarrow> keeps_times w w1 \<Longrightarrow> ?case" for w1
    using Cons.IH [OF _ patches_inv_ages [OF ages_of_keeps Cons.prems(2)]] Cons.prems(3) by (simp add: keeps_times_def)
  show ?case
  proof (cases "due (Clock a) (w_Settings w) p")
    case False
    then show ?thesis using Cons.prems(1) e skip [of w] by simp
  next
    case True
    then obtain m where m: "IsModifiable (w_Kind w) e = Some m" using Cons.prems(1) e by (auto simp: bind_eq_Some_conv)
    show ?thesis
    proof (cases "m = Modifiable")
      case False
      then show ?thesis using Cons.prems(1) e True m skip [of "w\<lparr>PendingOutgoing := remove1 a (PendingOutgoing w)\<rparr>"] by simp
    next
      case mod: True
      obtain w1 w2 w3 r where w1: "SetOwnerId a (local_client_id (w_Kind w)) w = Some w1"
        and w2: "w2 = (if PatchSentCallback p then emit_event (Ev_patch_sent a True) w1 else w1)"
        and w3: "modify_patcher a (SetTimeOfLastPatch (Clock a)) w2 = Some w3"
        and r: "collect_outgoing Clock as (w3\<lparr>PendingOutgoing := remove1 a (PendingOutgoing w3)\<rparr>) = Some (r, w')" "sent = a # r"
        using Cons.prems(1) e True m mod by (auto simp: bind_eq_Some_conv Let_def)
      have k2: "last_patch w2 = last_patch w" "w_Settings w2 = w_Settings w" "w_NextAddr w2 = w_NextAddr w"
        using w1 by (auto simp: w2 SetOwnerId_def modify_ent_def bind_eq_Some_conv last_patch_def ent_put_ent emit_event_def fun_eq_iff
            put_ent_def ent_def)
      obtain e2 where e2: "ent w2 a = Some e2" "w3 = put_ent a (e2\<lparr>e_StatePatcher := map_option (SetTimeOfLastPatch (Clock a)) (e_StatePatcher e2)\<rparr>) w2"
        using w3 by (auto simp: modify_patcher_def modify_ent_def bind_eq_Some_conv)
      have l: "last_patch w a = Some (TimeOfLastPatch p)" by (simp add: last_patch_def e)
      then have "last_patch w2 a = Some (TimeOfLastPatch p)" using k2(1) by simp
      then have "e_StatePatcher e2 \<noteq> None" by (auto simp: last_patch_def e2(1))
      let ?w = "w3\<lparr>PendingOutgoing := remove1 a (PendingOutgoing w3)\<rparr>"
      have "last_patch w3 = (last_patch w2)(a \<mapsto> Clock a)"
        using \<open>e_StatePatcher e2 \<noteq> None\<close> by (auto simp: fun_eq_iff last_patch_def e2(2) ent_put_ent)
      then have w: "last_patch ?w = (last_patch w)(a \<mapsto> Clock a)" "w_Settings ?w = w_Settings w" "w_NextAddr ?w = w_NextAddr w"
        using k2 by (simp_all add: e2(2) last_patch_def ent_def put_ent_def fun_eq_iff)
      have c: "clock_kept ((ps @ [(a, Clock a, ?b)]) @ map (\<lambda>a. (a, Clock a, ?b)) r)" using Cons.prems(3) by (simp add: r(2))
      then have k: "clock_kept (ps @ [(a, Clock a, ?b)])" unfolding clock_kept_def sorted_wrt_append [of _ "ps @ _"] by blast
      have d: "?b \<longrightarrow> TimeOfLastPatch p + EntityPatchRate (w_Settings w) \<le> Clock a" using True by (auto simp: due_def)
      have "patches_inv (ps @ [(a, Clock a, ?b)]) ?w" by (rule patches_inv_send [OF Cons.prems(2) l d k w])
      from Cons.IH [OF r(1) this] show ?thesis using c by (simp add: r(2) w(2))
    qed
  qed
qed simp

lemma timeless_apply_local_patches: "apply_local_patches as w = Some w' \<Longrightarrow> keeps_times w w'"
proof (induction as arbitrary: w)
  case (Cons a as)
  then obtain w1 where "SpaceEntity_ApplyLocalPatch a True (AllowSelfMessagingFlag (w_Settings w)) w = Some w1" "apply_local_patches as w1 = Some w'"
    by (auto simp: bind_eq_Some_conv)
  then show ?case using Cons.IH timelessD [OF timeless_SpaceEntity_ApplyLocalPatch] keeps_trans by blast
qed simp

lemma clock_kept_prefix: "clock_kept (ps @ qs) \<Longrightarrow> clock_kept ps"
  by (simp add: clock_kept_def sorted_wrt_append)

lemma engine_run_inv:
  "engine_run w ps w' \<Longrightarrow> heap_ok w \<Longrightarrow> clock_kept ps \<Longrightarrow>
   patches_inv ps w' \<and> EntityPatchRate (w_Settings w') = EntityPatchRate (w_Settings w)"
proof (induction rule: engine_run.induct)
  case (start w)
  then show ?case by (auto simp: patches_inv_def spaced_def heap_ok_def last_patch_def ent_def bind_eq_Some_conv)
next
  case (step w ps w1 w2)
  have a: "ages w1 w2" by (rule engine_step_ages [OF step.hyps(2)])
  have "EntityPatchRate (w_Settings w2) = EntityPatchRate (w_Settings w1)" using a by (simp add: ages_def)
  then show ?case using step.IH [OF step.prems] patches_inv_ages [OF a, of ps] by simp
next
  case (send w ps w1 Clock sent w2 w3)
  let ?ps = "ps @ map (\<lambda>a. (a, Clock a, EntityPatchRateLimitEnabled (w_Settings w1))) sent"
  have i: "patches_inv ps w1" "EntityPatchRate (w_Settings w1) = EntityPatchRate (w_Settings w)"
    using send.IH [OF send.prems(1) clock_kept_prefix [OF send.prems(2)]] by blast+
  have w2: "patches_inv ?ps w2" "w_Settings w2 = w_Settings w1" using collect_outgoing_inv [OF send.hyps(2) i(1) send.prems(2)] by blast+
  have k: "keeps_times w2 w3"
    using send.hyps(2,3) timeless_apply_local_patches
    by (auto simp: process_outgoing_def SendPatches_def bind_eq_Some_conv split: if_splits intro: keeps_trans [OF keeps_simple(1)])
  then have "patches_inv ?ps w3" using w2(1) ages_of_keeps patches_inv_ages by blast
  then show ?case using i(2) k w2(2) by (simp add: keeps_times_def)
qed


text \<open>
  The first patch at 90, a change at once after it, a tick at 150 that sends nothing, the second
  patch at 200, and with the limit off a third at 210.
\<close>

definition rate_world :: "nat \<Rightarrow> world" where
  "rate_world n =
     (let queue = (\<lambda>w. the (QueueEntityUpdate 0 w)); send = (\<lambda>t w. the (process_outgoing (\<lambda>_. t) w));
          name = (\<lambda>s w. snd (the (EntitySetProperty 0 KEY_NAME (RV_string s) w)))
      in fold id (take n [queue, send 90, name ''m'', queue, send 150, send 200, SetEntityPatchRateLimitEnabled False, name ''k'', queue, send 210])
           (online_one 1 pending_name))"

lemma rate_world_sends:
  assumes "n \<in> {1, 4, 5, 9}" "t = (if n = 1 then 90 else if n = 4 then 150 else if n = 5 then 200 else 210)"
  shows "\<exists>w'. collect_outgoing (\<lambda>_. t) (PendingOutgoing (rate_world n)) (rate_world n) = Some (if n = 4 then [] else [0], w')
    \<and> process_outgoing (\<lambda>_. t) (rate_world n) = Some (rate_world (Suc n))"
proof -
  have "map_option fst (collect_outgoing (\<lambda>_. t) (PendingOutgoing (rate_world n)) (rate_world n)) = Some (if n = 4 then [] else [0])
    \<and> process_outgoing (\<lambda>_. t) (rate_world n) \<noteq> None"
    using assms(1) unfolding assms(2) by (elim insertE emptyE; hypsubst; code_simp)
  moreover have "rate_world (Suc n) = the (process_outgoing (\<lambda>_. t) (rate_world n))"
    using assms by (auto simp: rate_world_def Let_def eval_nat_numeral)
  ultimately show ?thesis by (auto simp: prod_eq_iff)
qed

lemma rate_world_steps:
  assumes "n \<in> {0, 2, 3, 6, 7, 8}"
  shows "engine_step (rate_world n) (rate_world (Suc n))"
proof -
  have q: "engine_step (rate_world m) (rate_world (Suc m))" if "m \<in> {0, 3, 8}" for m
  proof -
    have "QueueEntityUpdate 0 (rate_world m) \<noteq> None" using that by (elim insertE emptyE; hypsubst; code_simp)
    moreover have "rate_world (Suc m) = the (QueueEntityUpdate 0 (rate_world m))"
      using that by (elim insertE emptyE; hypsubst; simp only: rate_world_def Let_def; simp add: eval_nat_numeral)
    ultimately show ?thesis using engine_step.queue [of 0 "rate_world m"] by simp
  qed
  have e: "engine_step (rate_world m) (rate_world (Suc m))"
    if "EntitySetProperty 0 KEY_NAME (RV_string s) (rate_world m) \<noteq> None"
      "rate_world (Suc m) = snd (the (EntitySetProperty 0 KEY_NAME (RV_string s) (rate_world m)))" for m s
    using that engine_step.set [of 0 KEY_NAME "RV_string s" "rate_world m"] by (metis option.collapse surjective_pairing)
  have n2: "EntitySetProperty 0 KEY_NAME (RV_string ''m'') (rate_world 2) \<noteq> None" by code_simp
  have s2: "rate_world (Suc 2) = snd (the (EntitySetProperty 0 KEY_NAME (RV_string ''m'') (rate_world 2)))"
    by (simp only: rate_world_def Let_def) (simp add: eval_nat_numeral)
  have n7: "EntitySetProperty 0 KEY_NAME (RV_string ''k'') (rate_world 7) \<noteq> None" by code_simp
  have s7: "rate_world (Suc 7) = snd (the (EntitySetProperty 0 KEY_NAME (RV_string ''k'') (rate_world 7)))"
    by (simp only: rate_world_def Let_def) (simp add: eval_nat_numeral)
  have s6: "rate_world (Suc 6) = SetEntityPatchRateLimitEnabled False (rate_world 6)"
    by (simp only: rate_world_def Let_def) (simp add: eval_nat_numeral)
  show ?thesis
    using assms
  proof (elim insertE emptyE)
    assume "n = 2" then show ?thesis using e [OF n2 s2] by (simp only:)
  next
    assume "n = 6" then show ?thesis using engine_step.limit [of "rate_world 6" False] s6 by (simp only:)
  next
    assume "n = 7" then show ?thesis using e [OF n7 s7] by (simp only:)
  qed (use q in \<open>blast+\<close>)
qed


end
