(* ===== verification/Online_Arrival.thy ===== *)
theory Online_Arrival
  imports Online_Lifecycle
begin

text \<open>
  How entities enter the online engine: from an object message, through the queue of pending
  entities, into the lists and the hierarchy. The order in which messages arrive does not matter.
\<close>

section \<open>Receiving an entity\<close>

lemma AddComponentFromItemComponentData_plain:
  assumes r: "AddComponentFromItemComponentData a k d w = Some w'" and a: "a \<in> dom (w_Ents w)"
  shows "plain w w'"
proof -
  obtain m t where d: "component_dict d = Some m" "component_type_in m = Some t"
    using r by (auto simp: AddComponentFromItemComponentData_def bind_eq_Some_conv)
  have run: "plain w1 w2" if "create_from_data ca m w1 = Some w2" "ca \<in> dom (w_Comps w1)" for ca m w1 w2
    using that
  proof (induction m arbitrary: w1)
    case (Cons kd m)
    obtain key v where kd: "kd = (key, v)" by (cases kd)
    show ?case
    proof (cases "key = COMPONENT_KEY_COMPONENTTYPE")
      case True
      then show ?thesis using Cons kd by simp
    next
      case False
      then obtain c where c: "create_from_data ca m (emit_event (Ev_OnCreated ca) (put_comp ca c w1)) = Some w2"
        using Cons.prems(1) kd by (auto simp: bind_eq_Some_conv modify_comp_def)
      have p: "plain w1 (emit_event (Ev_OnCreated ca) (put_comp ca c w1))"
        using plain_put_comp [OF Cons.prems(2)] plain_trans plain_emit by blast
      from Cons.IH [OF c plain_live_comp [OF p Cons.prems(2)]] show ?thesis using plain_trans [OF p] by blast
    qed
  qed simp
  show ?thesis
  proof (cases "t = CT_Invalid \<or> InstantiateComponent (Some (w_Registry w)) k t = None")
    case True
    then show ?thesis using r d by (auto simp: AddComponentFromItemComponentData_def split: if_splits)
  next
    case False
    then obtain c where c: "InstantiateComponent (Some (w_Registry w)) k t = Some c" "t \<noteq> CT_Invalid" by auto
    obtain ca w1 where al: "alloc_comp c w = (ca, w1)" by fastforce
    obtain w2 where w2: "create_from_data ca m w1 = Some w2"
      "modify_ent a (\<lambda>e. e\<lparr>e_Components := omap_upd k ca (e_Components e)\<rparr>) w2 = Some w'"
      using r d c al by (auto simp: AddComponentFromItemComponentData_def bind_eq_Some_conv)
    note p1 = plain_alloc_comp [OF al] note p2 = run [OF w2(1) p1(2)]
    have live: "a \<in> dom (w_Ents w2)" "ca \<in> dom (w_Comps w2)"
      using plain_live [OF plain_trans [OF p1(1) p2] a] plain_live_comp [OF p2 p1(2)] by blast+
    have "snd ` set (omap_upd k ca (e_Components (obj w2 a))) \<subseteq> snd ` set (e_Components (obj w2 a)) \<union> dom (w_Comps w2)"
      using snd_set_omap_upd [of k ca "e_Components (obj w2 a)"] live(2) by blast
    then have "plain w2 (upd_ent a (\<lambda>e. e\<lparr>e_Components := omap_upd k ca (e_Components e)\<rparr>) w2)"
      unfolding upd_ent_def using live(1) by (intro plain_put_ent) (simp_all add: shape_def)
    then have "plain w2 w'" using w2(2) unfolding modify_ent_live [OF live(1)] by simp
    then show ?thesis using p1(1) p2 plain_trans by blast
  qed
qed

lemma load_message_components_plain:
  "load_message_components a m w = Some w' \<Longrightarrow> a \<in> dom (w_Ents w) \<Longrightarrow> plain w w'"
proof (induction m arbitrary: w)
  case (Cons kd m)
  obtain k d where kd: "kd = (k, d)" by (cases kd)
  have set: "plain w w1" if sp: "EntitySetPropertyDirect a k v False w = Some w1" for v w1
  proof -
    note e = ent_Some [OF Cons.prems(2)]
    obtain e' where e': "prop_set k v (obj w a) = Inr e'" using sp e by (cases "prop_set k v (obj w a)") (simp_all add: EntitySetPropertyDirect_def)
    then have "w1 = put_ent a e' w" using sp e by (simp add: EntitySetPropertyDirect_def)
    then show ?thesis using prop_set_shape [OF e'] Cons.prems(2) by (auto intro!: plain_put_ent)
  qed
  obtain w1 where w1: "plain w w1" "load_message_components a m w1 = Some w'"
  proof (cases "k < COMPONENT_KEY_END_COMPONENTS")
    case True
    then obtain w1 where "AddComponentFromItemComponentData a k d w = Some w1" "load_message_components a m w1 = Some w'"
      using Cons.prems(1) kd by (auto simp: bind_eq_Some_conv)
    then show ?thesis using that AddComponentFromItemComponentData_plain [OF _ Cons.prems(2)] by blast
  next
    case False
    show ?thesis
    proof (cases "k \<in> set replicated_keys")
      case True
      then show ?thesis using that Cons.prems(1) kd False set by (auto simp: bind_eq_Some_conv)
    next
      case no: False
      then show ?thesis using that [OF plain_refl] Cons.prems(1) kd False by simp
    qed
  qed
  then show ?case using Cons.IH [OF w1(2) plain_live [OF w1(1) Cons.prems(2)]] plain_trans by blast
qed simp

text \<open>A new entity without links joins the hierarchy.\<close>

lemma hier_alloc:
  assumes h: "hier S {} w" and hp: "heap_ok w" and e: "e_Parent e = None" "e_ChildEntities e = []" "e_Components e = []"
    "e_Id e \<notin> (\<lambda>b. e_Id (obj w b)) ` S"
  shows "hier (insert (w_NextAddr w) S) {} (snd (alloc_ent e w))" "heap_ok (snd (alloc_ent e w))"
    "w_NextAddr w \<notin> dom (w_Ents w)"
proof -
  let ?a = "w_NextAddr w" let ?w = "snd (alloc_ent e w)"
  note hd = hierD [OF h]
  show fresh: "?a \<notin> dom (w_Ents w)" using heap_okD(2) [OF hp, of ?a] by blast
  then have new: "?a \<notin> S" using hd(1) by blast
  have o: "obj ?w b = (if b = ?a then e else obj w b)" for b by (simp add: alloc_ent_def obj_def ent_def put_ent_def)
  have f: "dom (w_Ents ?w) = insert ?a (dom (w_Ents w))" "known ?w = known w" "RootHierarchyEntities ?w = RootHierarchyEntities w"
    "w_Comps ?w = w_Comps w" "w_NextAddr ?w = Suc ?a"
    by (auto simp: alloc_ent_def known_def split: engine_kind.split)
  have kid: "?a \<notin> set (kids w p)" if "p \<in> S" for p using hd(10) [OF that] new by blast
  have par: "p \<noteq> ?a" if "b \<in> S" "e_Parent (obj w b) = Some p" for b p using hd(7) [OF that] new by blast
  show "hier (insert ?a S) {} ?w"
  proof (rule hierI; (unfold f)?)
    show "insert ?a S \<subseteq> insert ?a (dom (w_Ents w))" using hd(1) by blast
    show "inj_on (\<lambda>b. e_Id (obj ?w b)) (insert ?a S)"
    proof -
      have eq: "e_Id (obj ?w b) = e_Id (obj w b)" if "b \<in> S" for b using that new by (auto simp: o)
      have "inj_on (\<lambda>b. e_Id (obj ?w b)) S = inj_on (\<lambda>b. e_Id (obj w b)) S" by (rule inj_on_cong) (rule eq)
      moreover have "(\<lambda>b. e_Id (obj ?w b)) ` (S - {?a}) = (\<lambda>b. e_Id (obj w b)) ` (S - {?a})"
        by (rule image_cong) (simp_all add: eq)
      ultimately show ?thesis using hd(2) e(4) new by (simp add: o)
    qed
    show "set (known w) \<subseteq> insert ?a S" "set (RootHierarchyEntities w) \<subseteq> insert ?a S" using hd(3,4) by blast+
    show "e_ParentId (obj ?w b) = None" if "b \<in> set (RootHierarchyEntities w)" for b
      using that hd(6) [of b] hd(4) new by (auto simp: o)
    fix b p
    assume b: "b \<in> insert ?a S"
    show "p \<in> insert ?a S \<and> b \<in> set (kids ?w p)" if "e_Parent (obj ?w b) = Some p"
      using b that hd(7) [of b p] par [of b p] e(1) by (auto simp: o split: if_splits)
    show "e_ParentId (obj ?w b) = Some (e_Id (obj ?w p))" if "e_Parent (obj ?w b) = Some p"
      using b that hd(8) [of b p] par [of b p] e(1) by (auto simp: o split: if_splits)
    show "distinct (kids ?w b)" using b hd(9) [of b] e(2) by (auto simp: o)
    show "p \<in> insert ?a S \<and> e_Parent (obj ?w p) = Some b" if "p \<in> set (kids ?w b)"
      using b that hd(10) [of b p] kid [of b] e(2) by (auto simp: o split: if_splits)
  qed (fact hd(5))
  show "heap_ok ?w"
  proof (rule heap_okI; (unfold f)?)
    show "x \<in> dom (w_Comps w)" if "b \<in> insert ?a (dom (w_Ents w))" "x \<in> snd ` set (e_Components (obj ?w b))" for b x
      using that heap_okD(1) [OF hp, of b x] e(3) by (auto simp: o split: if_splits)
    show "b < Suc ?a" if "b \<in> insert ?a (dom (w_Ents w))" for b
      using that heap_okD(2) [OF hp, of b] by (auto simp: less_Suc_eq)
    show "x < Suc ?a" if "x \<in> dom (w_Comps w)" for x using heap_okD(3) [OF hp that] by simp
  qed
qed

definition joined :: "addr \<Rightarrow> ObjectMessage \<Rightarrow> world \<Rightarrow> bool" where
  "joined a m w \<longleftrightarrow> e_Id (obj w a) = om_Id m \<and> e_ParentId (obj w a) = om_ParentId m
     \<and> e_Parent (obj w a) = None \<and> kids w a = []"

text \<open>An engine whose entities \<open>S\<close> are consistent.\<close>

definition online_ok :: "addr set \<Rightarrow> world \<Rightarrow> bool" where
  "online_ok S w \<longleftrightarrow> hier S {} w \<and> heap_ok w \<and> w_Kind w \<noteq> Offline"

lemma OnObjectMessage_joins:
  assumes r: "OnObjectMessage (SArr [ObjectMessage_enc m]) w = Some w'" and ok: "components_ok (om_Components m)"
    and i: "online_ok S w" and new: "om_Id m \<notin> (\<lambda>b. e_Id (obj w b)) ` S"
  shows "\<exists>a. a \<notin> S \<and> online_ok (insert a S) w' \<and> joined a m w' \<and> PendingAdds w' = PendingAdds w @ [a]
    \<and> Entities w' = Entities w \<and> (\<forall>b \<in> S. shape (obj w' b) = shape (obj w b))"
proof -
  have read: "try_read ObjectMessage_Deserialize (ObjectMessage_enc m) = Some m"
    using ReadValue_root [OF reads_any_imp_reads [OF object_message.reads_custom [of m]]] ok by (simp add: try_read_def)
  let ?e = "SpaceEntity_make (w_Kind w) (entity_type_of (om_Type m)) (om_Id m) []
          UNIT_TRANSFORM (om_OwnerId m) (om_ParentId m) (om_IsTransferable m) (om_IsPersistent m)"
  let ?a = "w_NextAddr w"
  obtain w1 where al: "alloc_ent ?e w = (?a, w1)" by (simp add: alloc_ent_def)
  obtain w2 where w2: "NewFromObjectMessage m w = Some (?a, w2)"
      "w' = FireRemoteSpaceEntityCreatedCallback ?a (w2\<lparr>PendingAdds := PendingAdds w2 @ [?a]\<rparr>)"
    using r al by (auto simp: OnObjectMessage_def first_param_def CreateRemotelyRetrievedEntity_def read bind_eq_Some_conv
        NewFromObjectMessage_def split: option.splits)
  have h: "hier S {} w" "heap_ok w" "w_Kind w \<noteq> Offline" using i by (auto simp: online_ok_def)
  have A: "hier (insert ?a S) {} w1" "heap_ok w1" "?a \<notin> dom (w_Ents w)"
    using hier_alloc [OF h(1,2), of ?e] new by (simp_all add: al)
  have w1: "obj w1 b = (if b = ?a then ?e else obj w b)" "?a \<in> dom (w_Ents w1)" "PendingAdds w1 = PendingAdds w"
    "Entities w1 = Entities w" "w_Kind w1 = w_Kind w" for b
    using al by (auto simp: alloc_ent_def obj_def ent_def put_ent_def)
  have p: "plain w1 w2"
  proof (cases "om_Components m")
    case None
    then show ?thesis using w2(1) al by (simp add: NewFromObjectMessage_def)
  next
    case (Some c)
    then show ?thesis using w2(1) al load_message_components_plain [OF _ w1(2)]
      by (auto simp: NewFromObjectMessage_def bind_eq_Some_conv)
  qed
  have sh: "shape (obj w2 b) = shape (obj w1 b)" and l: "world_lists w2 = world_lists w1"
    and d: "dom (w_Ents w2) = dom (w_Ents w1)" and hp: "heap_ok w2" for b
    using p A(2) unfolding plain_def by blast+
  have w': "obj w' = obj w2" "w_Ents w' = w_Ents w2" "w_Comps w' = w_Comps w2" "w_NextAddr w' = w_NextAddr w2"
    "PendingAdds w' = PendingAdds w @ [?a]" "Entities w' = Entities w" "w_Kind w' = w_Kind w" "RootHierarchyEntities w' = RootHierarchyEntities w1"
    using l w1(3-5) by (auto simp: w2(2) FireRemoteSpaceEntityCreatedCallback_def emit_event_def obj_def ent_def world_lists_def fun_eq_iff)
  have kw: "known w' = known w1 @ [?a]"
    using h(3) w1(3-5) by (simp add: known_def w' split: engine_kind.split)
  note hd = hierD [OF A(1)]
  have f: "e_Id (obj w' b) = e_Id (obj w1 b)" "e_ParentId (obj w' b) = e_ParentId (obj w1 b)"
    "e_Parent (obj w' b) = e_Parent (obj w1 b)" "kids w' b = kids w1 b" for b
    using sh [of b] by (simp_all add: shape_def w'(1))
  have "hier (insert ?a S) {} w'"
  proof (rule hierI; (unfold f w'(8))?)
    show "insert ?a S \<subseteq> dom (w_Ents w')" using hd(1) d by (simp add: w'(2))
    show "set (known w') \<subseteq> insert ?a S" using hd(3) by (simp add: kw)
  qed (fact hd(2) hd(4) hd(5) | rule hd(6) hd(7) hd(8) hd(9) hd(10); assumption)+
  moreover have "heap_ok w'" using hp unfolding heap_ok_def w'(1-4) .
  moreover have "joined ?a m w'" using w1(1) by (simp add: joined_def f)
  moreover have "?a \<notin> S" using A(3) hierD(1) [OF h(1)] by blast
  moreover have "shape (obj w' b) = shape (obj w b)" if "b \<in> S" for b
    using that \<open>?a \<notin> S\<close> sh [of b] w1(1) [of b] by (auto simp: w'(1))
  ultimately show ?thesis using w'(5-7) h(3) by (intro exI [of _ ?a]) (simp add: online_ok_def)
qed

section \<open>Working off the pending entities\<close>

lemma hier_lists:
  assumes h: "hier S D w" and w': "w_Ents w' = w_Ents w" "RootHierarchyEntities w' = RootHierarchyEntities w" "set (known w') \<subseteq> S"
  shows "hier S D w'"
proof -
  have o: "obj w' = obj w" by (rule ext) (simp add: obj_def ent_def w'(1))
  note hd = hierD [OF h]
  show ?thesis
    by (rule hierI; (unfold o w'(1,2))?)
      (fact hd(1) hd(2) w'(3) hd(4) hd(5) | rule hd(6) hd(7) hd(8) hd(9) hd(10); assumption)+
qed

lemma entity_by_id_iff:
  assumes "hier S D w"
  shows "entity_by_id w i = Some p \<longleftrightarrow> p \<in> set (known w) \<and> e_Id (obj w p) = i"
proof
  assume p: "p \<in> set (known w) \<and> e_Id (obj w p) = i"
  then obtain q where q: "entity_by_id w i = Some q" unfolding entity_by_id_def by (metis (mono_tags, lifting) find_None_iff not_None_eq)
  then have "q \<in> set (known w)" "e_Id (obj w q) = e_Id (obj w p)" using entity_by_id_Some p by auto
  then show "entity_by_id w i = Some p" using q p hierD(2,3) [OF assms] unfolding inj_on_def by blast
qed (use entity_by_id_Some in blast)

lemma entity_by_id_same:
  assumes "hier S D w" "hier S' D' w'" "set (known w') = set (known w)" "\<And>b. e_Id (obj w' b) = e_Id (obj w b)"
  shows "entity_by_id w' = entity_by_id w"
proof
  fix i
  have "entity_by_id w' i = Some p \<longleftrightarrow> entity_by_id w i = Some p" for p
    by (simp add: entity_by_id_iff [OF assms(1)] entity_by_id_iff [OF assms(2)] assms(3,4))
  then show "entity_by_id w' i = entity_by_id w i" by (metis option.exhaust)
qed

lemma known_online: "w_Kind w \<noteq> Offline \<Longrightarrow> known w = Entities w @ PendingAdds w"
  by (simp add: known_def split: engine_kind.split)

lemma joined_heap_ok: "links_only w w' \<Longrightarrow> heap_ok w \<Longrightarrow> heap_ok w'"
  unfolding heap_ok_def by (simp add: links_only_fields links_only_lists)

lemma AddPendingEntity_adds:
  assumes "hier S {} w" "a \<in> S" "w_Kind w \<noteq> Offline" "a \<in> set (PendingAdds w)"
  shows "\<exists>w1. AddPendingEntity a w = Some w1 \<and> hier S {} w1 \<and> w_Ents w1 = w_Ents w \<and> w_Comps w1 = w_Comps w
    \<and> w_NextAddr w1 = w_NextAddr w \<and> w_Kind w1 = w_Kind w \<and> PendingAdds w1 = PendingAdds w
    \<and> set (Entities w1) = insert a (set (Entities w))"
proof -
  have live: "a \<in> dom (w_Ents w)" "set (Entities w) \<subseteq> dom (w_Ents w)" "set (Entities w) \<subseteq> S"
    using hierD(1,3) [OF assms(1)] assms(2) by (auto simp: known_def)
  have found: "find (\<lambda>b. e_Id (obj w b) = e_Id (obj w a)) (Entities w) = None \<longleftrightarrow> a \<notin> set (Entities w)"
    using hierD(2) [OF assms(1)] live(3) assms(2) unfolding find_None_iff inj_on_def by blast
  define w1 where "w1 = (if a \<in> set (Entities w) then w else
     (let wa = w\<lparr>Entities := Entities w @ [a]\<rparr> in
        case e_Type (obj w a) of
             AvatarE \<Rightarrow> wa\<lparr>Avatars := Avatars wa @ [a]\<rparr>
           | ObjectE \<Rightarrow> wa\<lparr>Objects := Objects wa @ [a]\<rparr>
           | UnknownE _ \<Rightarrow> wa))"
  have f: "w_Ents w1 = w_Ents w" "w_Comps w1 = w_Comps w" "w_NextAddr w1 = w_NextAddr w" "w_Kind w1 = w_Kind w"
    "PendingAdds w1 = PendingAdds w" "set (Entities w1) = insert a (set (Entities w))"
    "RootHierarchyEntities w1 = RootHierarchyEntities w"
    by (auto simp: w1_def Let_def split: entity_type.split)
  have "AddPendingEntity a w = Some w1"
    using found by (auto simp: AddPendingEntity_def ent_Some [OF live(1)] FindSpaceEntityById_def find_entity_live [OF live(2)] w1_def Let_def)
  moreover have "hier S {} w1"
    by (rule hier_lists [OF assms(1) f(1,7)])
      (use hierD(3) [OF assms(1)] assms(2,3) in \<open>simp add: known_online f\<close>)
  ultimately show ?thesis using f by blast
qed

lemma process_adds_joins:
  "online_ok S w \<Longrightarrow> PendingAdds w = as \<Longrightarrow> set added \<subseteq> set (Entities w) \<Longrightarrow>
   \<exists>w'. process_adds added as w = Some w' \<and> online_ok S w' \<and> PendingAdds w' = [] \<and> set (Entities w') = set (Entities w) \<union> set as
     \<and> (\<forall>b. e_Id (obj w' b) = e_Id (obj w b) \<and> e_ParentId (obj w' b) = e_ParentId (obj w b)
         \<and> e_Parent (obj w' b) = (if b \<in> set as - set added then Option.bind (e_ParentId (obj w b)) (entity_by_id w)
              else e_Parent (obj w b)))"
proof (induction as arbitrary: added w)
  case (Cons a as)
  have h: "hier S {} w" "heap_ok w" "w_Kind w \<noteq> Offline" using Cons.prems(1) by (auto simp: online_ok_def)
  have a: "a \<in> S" using hierD(3) [OF h(1)] Cons.prems(2) known_online [OF h(3)] by auto
  obtain w2 where w2: "(if a \<notin> set added then do { w' \<leftarrow> AddPendingEntity a w; ResolveEntityHierarchy a w' } else Some w) = Some w2"
    "hier S {} w2" "heap_ok w2" "w_Kind w2 = w_Kind w" "set (Entities w2) = insert a (set (Entities w))"
    "\<And>b. e_Id (obj w2 b) = e_Id (obj w b) \<and> e_ParentId (obj w2 b) = e_ParentId (obj w b)
       \<and> e_Parent (obj w2 b) = (if b = a \<and> a \<notin> set added then Option.bind (e_ParentId (obj w a)) (entity_by_id w) else e_Parent (obj w b))"
  proof (cases "a \<in> set added")
    case True
    then show ?thesis using that [of w] h Cons.prems(3) by auto
  next
    case False
    obtain w1 where w1: "AddPendingEntity a w = Some w1" "hier S {} w1" "w_Ents w1 = w_Ents w" "w_Comps w1 = w_Comps w"
      "w_NextAddr w1 = w_NextAddr w" "w_Kind w1 = w_Kind w" "PendingAdds w1 = PendingAdds w"
      "set (Entities w1) = insert a (set (Entities w))"
      using AddPendingEntity_adds [OF h(1) a h(3)] Cons.prems(2) by auto
    have o: "obj w1 = obj w" by (simp add: obj_def ent_def w1(3) fun_eq_iff)
    have "heap_ok w1" using h(2) unfolding heap_ok_def w1(3-5) o .
    have same: "entity_by_id w1 = entity_by_id w"
      by (rule entity_by_id_same [OF h(1) w1(2)]) (use h(3) Cons.prems(2) w1(6-8) in \<open>auto simp: known_online o\<close>)
    have live: "a \<in> dom (w_Ents w1)" using hierD(1) [OF w1(2)] a by blast
    note L = links_only_resolve [OF w1(2) a]
    note P = set_parent_spec_links_of(1,3) [OF w1(2) a, of "e_ParentId (obj w1 a)", folded resolve_spec_eq_set_parent [OF live]]
    have "hier S {} (resolve_spec a w1)" using hier_resolve_spec [OF w1(2) a] by simp
    then show ?thesis
      using that [of "resolve_spec a w1"] False w1(1,6,8) ResolveEntityHierarchy_refines [OF w1(2) a] joined_heap_ok [OF L \<open>heap_ok w1\<close>]
        links_only_lists [OF L] links_only_fields(2) [OF L] P by (simp add: o same)
  qed
  let ?w2 = "w2\<lparr>PendingAdds := as\<rparr>"
  have o2: "obj ?w2 = obj w2" by (simp add: obj_def ent_def fun_eq_iff)
  have k2: "set (known ?w2) = set (known w)" using w2(4,5) h(3) Cons.prems(2) by (auto simp: known_online)
  have h2: "hier S {} ?w2" by (rule hier_lists [OF w2(2)]) (use k2 hierD(3) [OF h(1)] in simp_all)
  have ok: "online_ok S ?w2" using h2 w2(3,4) h(3) unfolding online_ok_def heap_ok_def o2 by simp
  have same: "entity_by_id ?w2 = entity_by_id w"
    by (rule entity_by_id_same [OF h(1) h2 k2]) (use w2(6) in \<open>simp add: o2\<close>)
  obtain w' where w': "process_adds (a # added) as ?w2 = Some w'" "online_ok S w'" "PendingAdds w' = []"
    "set (Entities w') = set (Entities ?w2) \<union> set as"
    "\<And>b. e_Id (obj w' b) = e_Id (obj ?w2 b) \<and> e_ParentId (obj w' b) = e_ParentId (obj ?w2 b)
         \<and> e_Parent (obj w' b) = (if b \<in> set as - set (a # added) then Option.bind (e_ParentId (obj ?w2 b)) (entity_by_id ?w2)
              else e_Parent (obj ?w2 b))"
    using Cons.IH [OF ok, of "a # added"] w2(5) Cons.prems(3) by auto
  have run: "process_adds added (a # as) w = Some w'" using w2(1) w'(1) by simp
  show ?case
    using run w'(2-4) w2(5) w'(5) w2(6) by (intro exI [of _ w']) (auto simp: o2 same)
qed (auto simp: online_ok_def)

text \<open>Messages arriving one after the other.\<close>

fun receive_all :: "ObjectMessage list \<Rightarrow> world \<Rightarrow> world option" where
  "receive_all [] w = Some w"
| "receive_all (m # ms) w = do { w1 \<leftarrow> OnObjectMessage (SArr [ObjectMessage_enc m]) w; receive_all ms w1 }"

lemma joined_cong: "shape (obj w' a) = shape (obj w a) \<Longrightarrow> joined a m w' = joined a m w"
  by (simp add: joined_def shape_def)

lemma receive_all_joins:
  assumes "receive_all ms w = Some w'" "online_ok S w" "distinct (map om_Id ms)" "\<forall>m \<in> set ms. components_ok (om_Components m)"
    "\<forall>m \<in> set ms. om_Id m \<notin> (\<lambda>b. e_Id (obj w b)) ` S"
  shows "\<exists>as. online_ok (S \<union> set as) w' \<and> list_all2 (\<lambda>a m. joined a m w') as ms \<and> PendingAdds w' = PendingAdds w @ as
    \<and> Entities w' = Entities w \<and> (\<forall>b \<in> S. shape (obj w' b) = shape (obj w b))"
  using assms
proof (induction ms arbitrary: w S)
  case Nil
  then show ?case by (intro exI [of _ "[]"]) simp
next
  case (Cons m ms)
  obtain w1 where w1: "OnObjectMessage (SArr [ObjectMessage_enc m]) w = Some w1" "receive_all ms w1 = Some w'"
    using Cons.prems(1) by (auto simp: bind_eq_Some_conv)
  obtain a where a: "a \<notin> S" "online_ok (insert a S) w1" "joined a m w1" "PendingAdds w1 = PendingAdds w @ [a]"
    "Entities w1 = Entities w" "\<forall>b \<in> S. shape (obj w1 b) = shape (obj w b)"
    using OnObjectMessage_joins [OF w1(1) _ Cons.prems(2)] Cons.prems(4,5) by auto
  have ids: "e_Id (obj w1 b) = e_Id (obj w b)" if "b \<in> S" for b using a(6) that by (simp add: shape_def)
  have "om_Id m' \<notin> (\<lambda>b. e_Id (obj w1 b)) ` insert a S" if m': "m' \<in> set ms" for m'
  proof -
    have "om_Id m' \<noteq> om_Id m" using Cons.prems(3) m' by (auto simp: image_iff)
    then show ?thesis using Cons.prems(5) m' ids a(3) by (auto simp: joined_def)
  qed
  then obtain as where as: "online_ok (insert a S \<union> set as) w'" "list_all2 (\<lambda>a m. joined a m w') as ms"
    "PendingAdds w' = PendingAdds w1 @ as" "Entities w' = Entities w1" "\<forall>b \<in> insert a S. shape (obj w' b) = shape (obj w1 b)"
    using Cons.IH [OF w1(2) a(2)] Cons.prems(3,4) by auto
  have "joined a m w'" using a(3) joined_cong [of w' a w1 m] as(5) by simp
  then show ?case using as a(4-6) by (intro exI [of _ "a # as"]) (simp add: insert_commute)
qed

text \<open>
  C12. Entities announced by the service join the hierarchy in any order: whatever the order in which
  the messages arrive, a child may come before its parent, the next tick enters every
  announced entity, links each to the entity whose id it names as its parent, if there is one,
  among the old entities and the new, and leaves a consistent hierarchy.
\<close>

theorem announced_entities_join_in_any_order:
  assumes "receive_all ms w = Some w1" "online_ok (set (Entities w)) w" "PendingAdds w = []" "distinct (map om_Id ms)"
    "\<forall>m \<in> set ms. components_ok (om_Components m) \<and> om_Id m \<notin> (\<lambda>b. e_Id (obj w b)) ` set (Entities w)"
  shows "\<exists>w2. process_adds [] (PendingAdds w1) w1 = Some w2 \<and> online_ok (set (Entities w2)) w2 \<and> PendingAdds w2 = []
    \<and> set (Entities w) \<subseteq> set (Entities w2)
    \<and> (\<forall>m \<in> set ms. \<exists>a \<in> set (Entities w2). e_Id (obj w2 a) = om_Id m \<and> e_ParentId (obj w2 a) = om_ParentId m
         \<and> e_Parent (obj w2 a) = Option.bind (om_ParentId m) (entity_by_id w2))"
proof -
  obtain as where as: "online_ok (set (Entities w) \<union> set as) w1" "list_all2 (\<lambda>a m. joined a m w1) as ms"
    "PendingAdds w1 = as" "Entities w1 = Entities w"
    using receive_all_joins [OF assms(1,2,4)] assms(3,5) by auto
  obtain w2 where w2: "process_adds [] as w1 = Some w2" "online_ok (set (Entities w) \<union> set as) w2" "PendingAdds w2 = []"
    "set (Entities w2) = set (Entities w) \<union> set as"
    "\<And>b. e_Id (obj w2 b) = e_Id (obj w1 b) \<and> e_ParentId (obj w2 b) = e_ParentId (obj w1 b)
       \<and> e_Parent (obj w2 b) = (if b \<in> set as then Option.bind (e_ParentId (obj w1 b)) (entity_by_id w1) else e_Parent (obj w1 b))"
    using process_adds_joins [OF as(1,3), of "[]"] as(4) by auto
  have h: "hier (set (Entities w) \<union> set as) {} w1" "hier (set (Entities w) \<union> set as) {} w2" "w_Kind w1 \<noteq> Offline" "w_Kind w2 \<noteq> Offline"
    using as(1) w2(2) by (auto simp: online_ok_def)
  have same: "entity_by_id w2 = entity_by_id w1"
    by (rule entity_by_id_same [OF h(1,2)]) (use w2(3-5) as(3,4) h(3,4) in \<open>simp_all add: known_online\<close>)
  have "\<exists>a \<in> set (Entities w2). e_Id (obj w2 a) = om_Id m \<and> e_ParentId (obj w2 a) = om_ParentId m
         \<and> e_Parent (obj w2 a) = Option.bind (om_ParentId m) (entity_by_id w2)" if m: "m \<in> set ms" for m
  proof -
    have "list_all2 (\<lambda>a m. joined a m w1) as ms \<Longrightarrow> m \<in> set ms \<Longrightarrow> \<exists>a \<in> set as. joined a m w1"
      by (induction rule: list_all2_induct) auto
    then obtain a where "a \<in> set as" "joined a m w1" using as(2) m by blast
    then show ?thesis using w2(4) w2(5) [of a] by (auto simp: joined_def same)
  qed
  then show ?thesis using w2 as(3) by (intro exI [of _ w2]) auto
qed

definition announced_child :: ObjectMessage where
  "announced_child = \<lparr>om_Id = 2, om_Type = 2, om_IsTransferable = True, om_IsPersistent = True, om_OwnerId = 9,
     om_ParentId = Some 1, om_Components = None\<rparr>"

definition announced_parent :: ObjectMessage where
  "announced_parent = \<lparr>om_Id = 1, om_Type = 2, om_IsTransferable = True, om_IsPersistent = True, om_OwnerId = 9,
     om_ParentId = None, om_Components = None\<rparr>"

lemma announced_entities_join_in_any_order_witness:
  "\<exists>w1 w2. receive_all [announced_child, announced_parent] (new_world (Online 1) []) = Some w1
     \<and> process_adds [] (PendingAdds w1) w1 = Some w2
     \<and> (\<exists>a \<in> set (Entities w2). e_Id (obj w2 a) = 2 \<and> e_Parent (obj w2 a) = entity_by_id w2 1 \<and> entity_by_id w2 1 \<noteq> None)"
proof -
  let ?w = "new_world (Online 1) []"
  have read: "try_read ObjectMessage_Deserialize (ObjectMessage_enc m) = Some m" if "om_Components m = None" for m
    using ReadValue_root [OF reads_any_imp_reads [OF object_message.reads_custom [of m]]] that by (simp add: try_read_def)
  have c: "om_Components announced_child = None" "om_Components announced_parent = None"
    by (simp_all add: announced_child_def announced_parent_def)
  obtain w1 where w1: "receive_all [announced_child, announced_parent] ?w = Some w1"
    by (simp add: OnObjectMessage_def first_param_def CreateRemotelyRetrievedEntity_def read c NewFromObjectMessage_def alloc_ent_def)
  have ok: "online_ok (set (Entities ?w)) ?w"
    using hier_empty by (auto simp: online_ok_def heap_ok_def new_world_def)
  obtain w2 where w2: "process_adds [] (PendingAdds w1) w1 = Some w2" "online_ok (set (Entities w2)) w2" "PendingAdds w2 = []"
    "\<forall>m \<in> {announced_child, announced_parent}. \<exists>a \<in> set (Entities w2). e_Id (obj w2 a) = om_Id m
         \<and> e_Parent (obj w2 a) = Option.bind (om_ParentId m) (entity_by_id w2)"
    using announced_entities_join_in_any_order [OF w1 ok] by (auto simp: announced_child_def announced_parent_def new_world_def)
  obtain p where p: "p \<in> set (Entities w2)" "e_Id (obj w2 p) = 1" using w2(4) by (auto simp: announced_parent_def)
  have "hier (set (Entities w2)) {} w2" "known w2 = Entities w2"
    using w2(2,3) known_online [of w2] by (auto simp: online_ok_def)
  then have "entity_by_id w2 1 = Some p" using p entity_by_id_iff by simp
  moreover obtain a where "a \<in> set (Entities w2)" "e_Id (obj w2 a) = 2" "e_Parent (obj w2 a) = entity_by_id w2 1"
    using w2(4) by (auto simp: announced_child_def)
  ultimately show ?thesis using w1 w2(1) by auto
qed

end
