(* ===== verification/Messagepack.thy ===== *)
theory Messagepack
  imports Component_Packer
begin

text \<open>
  What a SignalR value has become when the other side receives it. The hub protocol packs values as
  MessagePack and rebuilds them (\<open>pack_messagepack\<close> and \<open>createValue\<close> of
  \<open>src/ThirdParty/signalrclient/src/messagepack_hub_protocol.cpp\<close>): MessagePack has one format for
  non-negative integers, which are read back as unsigned, and an empty map has no key whose type
  could be looked at, so it is read back as null. Nothing else changes. The messages of the
  library survive this.
\<close>

section \<open>Values over the wire\<close>

primrec wire :: "sig_value \<Rightarrow> sig_value" where
  "wire SNull = SNull"
| "wire (SBool b) = SBool b"
| "wire (SInt i) = (if 0 \<le> sint i then SUint i else SInt i)"
| "wire (SUint n) = SUint n"
| "wire (SDouble x) = SDouble x"
| "wire (SStr s) = SStr s"
| "wire (SRaw bs) = SRaw bs"
| "wire (SArr vs) = SArr (map wire vs)"
| "wire (SUMap m) = (if m = [] then SNull else SUMap (map (map_prod id wire) m))"
| "wire (SSMap m) = (if m = [] then SNull else SSMap (map (map_prod id wire) m))"

text \<open>A second trip changes nothing more.\<close>

lemma wire_idem: "wire (wire v) = wire v"
  by (induction v) (auto simp: map_idI prod.map_comp split: prod.splits intro!: map_cong prod.map_cong simp: snds.simps)

section \<open>Component values over the wire\<close>

text \<open>The component value that arrives: non-negative signed integers have become unsigned.\<close>

primrec arrived :: "icd \<Rightarrow> icd" where
  "arrived (IBool b) = IBool b"
| "arrived (IInt i) = (if 0 \<le> sint i then IUint i else IInt i)"
| "arrived (IUint n) = IUint n"
| "arrived (IFloat x) = IFloat x"
| "arrived (IFloatArr xs) = IFloatArr xs"
| "arrived (IDouble x) = IDouble x"
| "arrived (IStr s) = IStr s"
| "arrived (IU16Dict m) = IU16Dict (map (map_prod id arrived) m)"
| "arrived (IStrDict m) = IStrDict (map (map_prod id arrived) m)"

lemma wire_icd_enc: "wire (icd_enc x) = SArr [SUint (GetComponentEnum x), SArr [wire (icd_payload x)]]"
  by (simp add: icd_enc.simps)

lemma omap_ok_map_values: "omap_ok m \<Longrightarrow> omap_ok (map (map_prod id f) m)"
  by (induction m) (auto simp: image_iff)

lemma component_data_arrives:
  assumes "icd_ok x"
    "\<And>m kv. x = IU16Dict m \<Longrightarrow> kv \<in> set m \<Longrightarrow> reads_any (read_custom deser) (wire (icd_enc (snd kv))) (arrived (snd kv))"
    "\<And>m kv. x = IStrDict m \<Longrightarrow> kv \<in> set m \<Longrightarrow> reads_any (read_custom deser) (wire (icd_enc (snd kv))) (arrived (snd kv))"
  shows "DeserializeComponentData deser (GetComponentEnum x) (in_array (wire (icd_payload x) # vs) d st)
    = Inr (arrived x, in_array vs d st)"
proof (cases x)
  case (IFloatArr xs)
  then have "reads (read_vector read_float) (wire (icd_payload x)) xs"
    using assms(1) reads_float by (auto intro!: reads_vector simp: list_all2_conv_all_nth)
  with IFloatArr show ?thesis by (simp add: DeserializeComponentData_def dt_defs read_as_next)
next
  case (IU16Dict m)
  show ?thesis
  proof (cases "m = []")
    case False
    have "reads (read_uint_map ucast (read_custom deser)) (wire (icd_payload x)) (map (map_prod id arrived) m)"
      using assms(1) assms(2) [OF IU16Dict nth_mem] IU16Dict False omap_ok_map_values [of m arrived]
      by (auto intro!: reads_uint_map simp: list_all2_conv_all_nth)
    with IU16Dict False show ?thesis by (simp add: DeserializeComponentData_def dt_defs read_as_next)
  qed (simp add: IU16Dict DeserializeComponentData_def dt_defs Skip_def)
next
  case (IStrDict m)
  show ?thesis
  proof (cases "m = []")
    case False
    have "reads (read_string_map (read_custom deser)) (wire (icd_payload x)) (map (map_prod id arrived) m)"
      using assms(1) assms(3) [OF IStrDict nth_mem] IStrDict False omap_ok_map_values [of m arrived]
      by (auto intro!: reads_string_map simp: list_all2_conv_all_nth)
    with IStrDict False show ?thesis by (simp add: DeserializeComponentData_def dt_defs read_as_next)
  qed (simp add: IStrDict DeserializeComponentData_def dt_defs Skip_def)
next
  case (IFloat y)
  with assms(1) show ?thesis by (simp add: DeserializeComponentData_def dt_defs read_as_next reads_float)
qed (simp_all add: DeserializeComponentData_def dt_defs read_as_next reads_basic)

lemma icd_arrives_fuel:
  "icd_ok x \<Longrightarrow> size x < fuel
   \<Longrightarrow> icd_deserialize fuel (new_deserializer (wire (icd_enc x))) = Inr (arrived x, new_deserializer (wire (icd_enc x)))"
proof (induction fuel arbitrary: x)
  case (Suc fuel)
  have "reads_any (read_custom (icd_deserialize fuel)) (wire (icd_enc y)) (arrived y)" if "icd_ok y" "size y < fuel" for y
    using Suc.IH [OF that] by (simp add: reads_any_def read_custom_def)
  then have "DeserializeComponentData (icd_deserialize fuel) (GetComponentEnum x) (in_array (wire (icd_payload x) # vs) d st)
    = Inr (arrived x, in_array vs d st)" for vs d st
    using Suc.prems size_dict_elem [of _ _ "\<lambda>_. 0"] size_dict_elem [of _ _ "\<lambda>_. 0"]
    by (intro component_data_arrives) (fastforce simp: less_Suc_eq_le)+
  then show ?case
    by (simp add: wire_icd_enc StartReadArray_next)
qed simp

lemma icd_arrives:
  assumes "icd_ok x"
  shows "ItemComponentData_Deserialize (new_deserializer (wire (icd_enc x))) = Inr (arrived x, new_deserializer (wire (icd_enc x)))"
proof -
  let ?v = "wire (icd_enc x)"
  define n where "n = Suc (size x + size ?v)"
  have "icd_deserialize n (new_deserializer ?v) = Inr (arrived x, new_deserializer ?v)"
    using assms by (intro icd_arrives_fuel) (simp_all add: n_def)
  moreover have "size ?v < n" by (simp add: n_def)
  ultimately show ?thesis using deserialize_enough_fuel [of ?v n] by simp
qed

text \<open>Unpacking does not tell the two integer types apart.\<close>

lemma ToReplicatedMap_same:
  "\<forall>kv \<in> set m. ToReplicatedValue (f (snd kv)) = ToReplicatedValue (snd kv)
   \<Longrightarrow> ToReplicatedMap (map (map_prod id f) m) acc = ToReplicatedMap m acc"
  by (induction m arbitrary: acc) (auto intro!: rbind_cong)

lemma arrived_same_value: "ToReplicatedValue (arrived x) = ToReplicatedValue x"
proof (induction x)
  case (IStrDict m)
  then have "\<forall>kv \<in> set m. ToReplicatedValue (arrived (snd kv)) = ToReplicatedValue (snd kv)"
    by (auto intro: snds.intros)
  then show ?case by (simp add: ToReplicatedMap_same)
qed simp_all

text \<open>
  C25. A replicated value that is packed, serialised, sent as MessagePack, deserialised by the receiver
  and unpacked is the value sent, although its integers and empty maps arrive as other SignalR
  values than were sent.
\<close>

theorem replicated_value_survives_messagepack:
  assumes "rv_valid v"
  shows "rbind (rbind (map_sum id wire (serialize_root ItemComponentData_Serialize (ToItemComponentData v)))
      (deserialize_root ItemComponentData_Deserialize)) ToReplicatedValue = Inr v"
proof -
  have v: "ToReplicatedValue (ToItemComponentData v) = Inr v" "icd_ok (ToItemComponentData v)"
    using rv_roundtrip_valid(1) [OF assms] by auto
  show ?thesis
    using icd.write_root [OF v(2)] v(1) by (simp add: serialize_root_def deserialize_root_def icd_arrives [OF v(2)] arrived_same_value)
qed

lemma replicated_value_survives_messagepack_witness:
  "let v = RV_map [(''a'', RV_int 3), (''b'', RV_map []), (''c'', RV_int (- 3))]
   in rbind (rbind (map_sum id wire (serialize_root ItemComponentData_Serialize (ToItemComponentData v)))
      (deserialize_root ItemComponentData_Deserialize)) ToReplicatedValue = Inr v"
  unfolding Let_def
  by (rule replicated_value_survives_messagepack) (simp add: rv_constructors nul_free_def less_char_def less_list_code)

section \<open>Messages over the wire\<close>

text \<open>The component map that arrives: a map without components has become a missing one.\<close>

definition components_arrived :: "(u16, icd) omap option \<Rightarrow> (u16, icd) omap option" where
  "components_arrived c = (case c of None \<Rightarrow> None
     | Some m \<Rightarrow> if m = [] then None else Some (map (map_prod id arrived) m))"

definition components_of :: "(u16, icd) omap option \<Rightarrow> (u16, icd) omap" where
  "components_of c = (case c of None \<Rightarrow> [] | Some m \<Rightarrow> m)"

lemma read_components_arrives:
  "\<forall>kv \<in> set m. icd_ok (snd kv)
   \<Longrightarrow> read_components (length m) (d\<lparr>ObjectStack := IUMap (map (map_prod id wire) (enc_dict m)) # st\<rparr>) acc
     = Inr (foldl (\<lambda>a kv. omap_upd (fst kv) (snd kv) a) acc (map (map_prod id arrived) m), d\<lparr>ObjectStack := IUMap [] # st\<rparr>)"
proof (induction m arbitrary: acc)
  case (Cons kv m)
  have step: "ReadKeyValue_uint ucast (read_custom ItemComponentData_Deserialize)
      (d\<lparr>ObjectStack := IUMap (map (map_prod id wire) (enc_dict (kv # m))) # st\<rparr>)
    = Inr ((fst kv, arrived (snd kv)), d\<lparr>ObjectStack := IUMap (map (map_prod id wire) (enc_dict m)) # st\<rparr>)"
    using Cons.prems by (cases kv) (simp add: ReadKeyValue_uint_def enc_dict_def read_custom_def icd_arrives)
  have "\<forall>kv \<in> set m. icd_ok (snd kv)" using Cons.prems by simp
  note Cons.IH [OF this, of "omap_upd (fst kv) (arrived (snd kv)) acc"]
  then show ?case unfolding list.size(4) add_Suc_right add_0_right read_components.simps step by (simp add: id_def)
qed (simp add: enc_dict_def)

lemma DeserializeComponents_arrives:
  assumes "components_ok c"
  shows "DeserializeComponents (in_array (wire (components_enc c) # vs) d st) = Inr (components_arrived c, in_array vs d st)"
proof (cases "c = None \<or> c = Some []")
  case True
  then show ?thesis by (auto simp: DeserializeComponents_def components_enc_def components_arrived_def Skip_def enc_dict_def)
next
  case False
  then obtain m where m: "c = Some m" "m \<noteq> []" by auto
  then have ok: "omap_ok m" "\<forall>kv \<in> set m. icd_ok (snd kv)" using assms by auto
  have "foldl (\<lambda>a kv. omap_upd (fst kv) (snd kv) a) [] (map (map_prod id arrived) m) = map (map_prod id arrived) m"
    using foldl_omap_upd [of "[]" "map (map_prod id arrived) m"] omap_ok_map_values [OF ok(1), of arrived] by simp
  with m read_components_arrives [OF ok(2), of _ _ "[]"] show ?thesis
    by (simp add: DeserializeComponents_def components_enc_def components_arrived_def StartReadUintMap_next EndReadUintMap_def enc_dict_def)
qed

lemma TryReadValue_arrived:
  "TryReadValue (components_of (components_arrived c)) k = TryReadValue (components_of c) k"
proof (cases c)
  case (Some m)
  have "map_of (map (map_prod id arrived) m) k = map_option arrived (map_of m k)"
    by (induction m) auto
  then show ?thesis
    using Some by (auto simp: TryReadValue_def components_of_def components_arrived_def arrived_same_value split: option.split)
qed (simp add: components_of_def components_arrived_def)

lemma wire_parent: "wire (parent_enc p) = parent_enc p"
  by (simp add: parent_enc_def split: option.split)

lemma ObjectPatch_arrives:
  assumes "components_ok (op_Components p)"
  shows "\<exists>d. ObjectPatch_Deserialize (new_deserializer (wire (ObjectPatch_enc p)))
     = Inr (p\<lparr>op_Components := components_arrived (op_Components p)\<rparr>, d)"
  by (simp add: ObjectPatch_Deserialize_def ObjectPatch_enc_def StartReadArray_next wire_parent
      DeserializeComponents_arrives [OF assms])

lemma ObjectMessage_arrives:
  assumes "components_ok (om_Components m)"
  shows "\<exists>d. ObjectMessage_Deserialize (new_deserializer (wire (ObjectMessage_enc m)))
     = Inr (m\<lparr>om_Components := components_arrived (om_Components m)\<rparr>, d)"
  by (simp add: ObjectMessage_Deserialize_def ObjectMessage_enc_def StartReadArray_next wire_parent
      DeserializeComponents_arrives [OF assms])

text \<open>
  The same data, up to the one thing that the format does not keep: a non-negative integer arrives
  as an unsigned one. Dictionaries hold the same keys in the same order.
\<close>

inductive same_data :: "icd \<Rightarrow> icd \<Rightarrow> bool" where
  same: "same_data x x"
| unsigned: "0 \<le> sint i \<Longrightarrow> same_data (IInt i) (IUint i)"
| u16_dict: "list_all2 (\<lambda>kv kv'. fst kv' = fst kv \<and> same_data (snd kv) (snd kv')) m m' \<Longrightarrow> same_data (IU16Dict m) (IU16Dict m')"
| str_dict: "list_all2 (\<lambda>kv kv'. fst kv' = fst kv \<and> same_data (snd kv) (snd kv')) m m' \<Longrightarrow> same_data (IStrDict m) (IStrDict m')"

inductive_cases same_u16_dict: "same_data (IU16Dict m) y"

lemma same_data_arrived: "same_data x (arrived x)"
proof (induction x)
  case (IU16Dict m)
  then have "\<forall>kv \<in> set m. same_data (snd kv) (arrived (snd kv))" by (auto intro: snds.intros)
  then show ?case by (auto intro!: same_data.u16_dict list.rel_refl_strong simp: list_all2_map2)
next
  case (IStrDict m)
  then have "\<forall>kv \<in> set m. same_data (snd kv) (arrived (snd kv))" by (auto intro: snds.intros)
  then show ?case by (auto intro!: same_data.str_dict list.rel_refl_strong simp: list_all2_map2)
qed (auto intro: same_data.intros)

lemma ToReplicatedMap_same_data:
  "list_all2 (\<lambda>kv kv'. fst kv' = fst kv \<and> ToReplicatedValue (snd kv') = ToReplicatedValue (snd kv)) m m'
   \<Longrightarrow> ToReplicatedMap m' acc = ToReplicatedMap m acc"
  by (induction m m' arbitrary: acc rule: list_all2_induct) (auto intro!: rbind_cong)

text \<open>The same data is unpacked to the same value, also inside the dictionary of a component.\<close>

lemma same_data_value: "same_data x y \<Longrightarrow> ToReplicatedValue y = ToReplicatedValue x"
proof (induction rule: same_data.induct)
  case (str_dict m m')
  then have "list_all2 (\<lambda>kv kv'. fst kv' = fst kv \<and> ToReplicatedValue (snd kv') = ToReplicatedValue (snd kv)) m m'"
    by (auto elim: list_all2_mono)
  from ToReplicatedMap_same_data [OF this] show ?case by simp
qed simp_all

lemma same_data_entries:
  "list_all2 (\<lambda>kv kv'. fst kv' = fst kv \<and> same_data (snd kv) (snd kv')) m m'
   \<Longrightarrow> map fst m' = map fst m \<and> map (ToReplicatedValue \<circ> snd) m' = map (ToReplicatedValue \<circ> snd) m"
  by (induction m m' rule: list_all2_induct) (auto simp: same_data_value)

lemma same_data_component:
  "same_data (IU16Dict m) y \<Longrightarrow>
    \<exists>m'. y = IU16Dict m' \<and> map fst m' = map fst m \<and> map (ToReplicatedValue \<circ> snd) m' = map (ToReplicatedValue \<circ> snd) m"
  by (erule same_u16_dict) (use same_data_entries in blast)+

lemma components_arrived_same:
  "list_all2 (\<lambda>kv kv'. fst kv' = fst kv \<and> same_data (snd kv) (snd kv')) (components_of c) (components_of (components_arrived c))"
  by (auto simp: components_of_def components_arrived_def list_all2_map2 same_data_arrived split: option.split
      intro!: list.rel_refl_strong)

text \<open>
  C19. Patches sent as MessagePack arrive: every field of every patch is as it was sent, and so are
  the components, under the same keys and in the same order, each of them the same data down to
  the entries of its dictionary - except that a non-negative integer has become an unsigned one
  of the same value, and that an empty map of components cannot be told from a missing one. Under
  every key, the dictionaries of components included, the receiver unpacks the values that were sent.
\<close>

theorem patches_survive_messagepack:
  assumes "\<forall>p \<in> set ps. components_ok (op_Components p)"
  shows "\<exists>ps'. rbind (map_sum id wire (serialize_root (write_vector ObjectPatch_Serialize) ps))
      (deserialize_root (ReadValue (read_vector (read_custom ObjectPatch_Deserialize)))) = Inr ps'
    \<and> list_all2 (\<lambda>p p'. p = p'\<lparr>op_Components := op_Components p\<rparr>
        \<and> list_all2 (\<lambda>kv kv'. fst kv' = fst kv \<and> same_data (snd kv) (snd kv')
              \<and> (\<forall>m. snd kv = IU16Dict m \<longrightarrow> (\<exists>m'. snd kv' = IU16Dict m' \<and> map fst m' = map fst m
                   \<and> map (ToReplicatedValue \<circ> snd) m' = map (ToReplicatedValue \<circ> snd) m)))
            (components_of (op_Components p)) (components_of (op_Components p'))
        \<and> (\<forall>k. TryReadValue (components_of (op_Components p')) k = TryReadValue (components_of (op_Components p)) k)) ps ps'"
proof -
  let ?got = "\<lambda>p. p\<lparr>op_Components := components_arrived (op_Components p)\<rparr>"
  have "list_all2 (reads (read_custom ObjectPatch_Deserialize)) (map (\<lambda>p. wire (ObjectPatch_enc p)) ps) (map ?got ps)"
    unfolding list_all2_map1 list_all2_map2 using assms ObjectPatch_arrives
    by (intro list.rel_refl_strong) (fastforce simp: reads_def read_custom_def)
  then have "ReadValue (read_vector (read_custom ObjectPatch_Deserialize)) (new_deserializer (SArr (map (\<lambda>p. wire (ObjectPatch_enc p)) ps)))
    = Inr (map ?got ps, new_deserializer (SArr (map (\<lambda>p. wire (ObjectPatch_enc p)) ps)))"
    by (intro ReadValue_root reads_vector)
  moreover have "rbind (write_vector ObjectPatch_Serialize ps []) Serializer_Get = Inr (SArr (map ObjectPatch_enc ps))"
    using writes_asD [OF object_patch.vector_writes [OF assms]] by simp
  moreover have "list_all2 (\<lambda>kv kv'. fst kv' = fst kv \<and> same_data (snd kv) (snd kv')
      \<and> (\<forall>m. snd kv = IU16Dict m \<longrightarrow> (\<exists>m'. snd kv' = IU16Dict m' \<and> map fst m' = map fst m
           \<and> map (ToReplicatedValue \<circ> snd) m' = map (ToReplicatedValue \<circ> snd) m)))
    (components_of c) (components_of (components_arrived c))" for c
    by (rule list_all2_mono [OF components_arrived_same]) (metis same_data_component)
  ultimately show ?thesis
    by (intro exI [of _ "map ?got ps"]) (simp add: serialize_root_def deserialize_root_def o_def list_all2_conv_all_nth TryReadValue_arrived)
qed

text \<open>A patch with a component of type 7 that has two properties, and a property of the entity.\<close>

lemma patches_survive_messagepack_witness:
  "let p = \<lparr>op_Id = 5, op_OwnerId = 9, op_Destroy = False, op_ShouldUpdateParent = True, op_ParentId = None,
       op_Components = Some [(3, IU16Dict [(0, IInt 1), (1, IStr ''n''), (2, IUint 7)]), (4, IStrDict [])]\<rparr>
   in \<exists>p' m. rbind (map_sum id wire (serialize_root (write_vector ObjectPatch_Serialize) [p]))
      (deserialize_root (ReadValue (read_vector (read_custom ObjectPatch_Deserialize)))) = Inr [p']
    \<and> map_of (components_of (op_Components p')) 3 = Some (IU16Dict m) \<and> map fst m = [0, 1, 2]
    \<and> map (ToReplicatedValue \<circ> snd) m = [Inr (RV_int 1), Inr (RV_string ''n''), Inr (RV_int 7)]
    \<and> TryReadValue (components_of (op_Components p')) 4 = Inr (Some (RV_map []))"
proof -
  let ?p = "\<lparr>op_Id = 5, op_OwnerId = 9, op_Destroy = False, op_ShouldUpdateParent = True, op_ParentId = None,
       op_Components = Some [(3, IU16Dict [(0, IInt 1), (1, IStr ''n''), (2, IUint 7)]), (4, IStrDict [])]\<rparr>"
  have ok: "\<forall>p \<in> set [?p]. components_ok (op_Components p)" by (simp add: nul_free_def)
  obtain p' where p': "rbind (map_sum id wire (serialize_root (write_vector ObjectPatch_Serialize) [?p]))
      (deserialize_root (ReadValue (read_vector (read_custom ObjectPatch_Deserialize)))) = Inr [p']"
    and c: "list_all2 (\<lambda>kv kv'. fst kv' = fst kv \<and> same_data (snd kv) (snd kv')
        \<and> (\<forall>m. snd kv = IU16Dict m \<longrightarrow> (\<exists>m'. snd kv' = IU16Dict m' \<and> map fst m' = map fst m
             \<and> map (ToReplicatedValue \<circ> snd) m' = map (ToReplicatedValue \<circ> snd) m)))
      (components_of (op_Components ?p)) (components_of (op_Components p'))"
    and v: "\<forall>k. TryReadValue (components_of (op_Components p')) k = TryReadValue (components_of (op_Components ?p)) k"
    using patches_survive_messagepack [OF ok] unfolding list_all2_Cons1 by blast
  obtain m where "map_of (components_of (op_Components p')) 3 = Some (IU16Dict m)" "map fst m = [0, 1, 2]"
    "map (ToReplicatedValue \<circ> snd) m = [Inr (RV_int 1), Inr (RV_string ''n''), Inr (RV_int 7)]"
    using c by (auto simp: components_of_def list_all2_Cons1 c_str_def split: option.splits)
  moreover have "TryReadValue (components_of (op_Components p')) 4 = Inr (Some (RV_map []))"
    using v [rule_format, of 4] by (simp add: components_of_def TryReadValue_def)
  ultimately show ?thesis using p' unfolding Let_def by (intro exI conjI)
qed

end
