(* ===== verification/Csp_Uri.thy ===== *)
theory Csp_Uri
  imports Csp_String
begin

text \<open>
  Percent encoding of strings (\<open>src/Common/Encode.cpp\<close>), and the keys of hotspot sequences that are
  built, taken apart and sent in this encoding (\<open>src/Systems/HotspotSequence/HotspotSequenceSystem.cpp\<close>,
  \<open>GetSequenceKeyIndex\<close> of \<open>src/Multiplayer/NetworkEventSerialisation.cpp\<close>).
\<close>

section \<open>Encoding\<close>

definition is_unreserved :: "char \<Rightarrow> bool" where
  "is_unreserved c \<longleftrightarrow> (CHR ''a'' \<le> c \<and> c \<le> CHR ''z'') \<or> (CHR ''A'' \<le> c \<and> c \<le> CHR ''Z'')
     \<or> (CHR ''0'' \<le> c \<and> c \<le> CHR ''9'') \<or> c \<in> set ''-_.~''"

text \<open>A \<open>char\<close> promoted to \<open>int\<close>, and what \<open>sprintf\<close> prints of it under \<open>%X\<close>.\<close>

definition char_int :: "char \<Rightarrow> int" where
  "char_int c = (if (of_char c :: int) < 128 then of_char c else of_char c - 256)"

definition hex_digit :: "nat \<Rightarrow> char" where
  "hex_digit n = (if n < 10 then char_of (48 + n) else char_of (55 + n))"

fun to_hex :: "nat \<Rightarrow> string" where
  "to_hex n = (if n < 16 then [hex_digit n] else to_hex (n div 16) @ [hex_digit (n mod 16)])"

declare to_hex.simps [simp del]

definition encode_char :: "char \<Rightarrow> string" where
  "encode_char c =
     (if is_unreserved c then [c]
      else (if char_int c < 16 then ''%0'' else ''%'') @ to_hex (nat (char_int c mod 2 ^ 32)))"

definition Encode_URI1 :: "string \<Rightarrow> string" where
  "Encode_URI1 UriToEncode = String_of (concat (map encode_char (c_str UriToEncode)))"

definition Encode_URI :: "string \<Rightarrow> bool \<Rightarrow> string" where
  "Encode_URI UriToEncode DoubleEncode =
     (let ReturnValue = Encode_URI1 UriToEncode in if DoubleEncode then Encode_URI1 ReturnValue else ReturnValue)"

section \<open>Decoding\<close>

definition is_space :: "char \<Rightarrow> bool" where
  "is_space c \<longleftrightarrow> c \<in> {CHR '' '', CHR 0x09, CHR 0x0A, CHR 0x0B, CHR 0x0C, CHR 0x0D}"

definition hex_value :: "char \<Rightarrow> nat option" where
  "hex_value c =
     (if CHR ''0'' \<le> c \<and> c \<le> CHR ''9'' then Some (of_char c - 48)
      else if CHR ''A'' \<le> c \<and> c \<le> CHR ''F'' then Some (of_char c - 55)
      else if CHR ''a'' \<le> c \<and> c \<le> CHR ''f'' then Some (of_char c - 87)
      else None)"

fun hex_number :: "string \<Rightarrow> nat \<Rightarrow> nat" where
  "hex_number [] n = n"
| "hex_number (c # cs) n = (case hex_value c of Some d \<Rightarrow> hex_number cs (16 * n + d) | None \<Rightarrow> n)"

text \<open>
  \<open>sscanf\<close> with \<open>%x\<close> on at most two characters, into a variable that holds 0: white space is
  skipped, a sign is allowed, and without a digit the variable keeps its 0. (A prefix \<open>0x\<close> takes
  both characters and leaves 0 as well.)
\<close>

definition sscanf_hex :: "string \<Rightarrow> int" where
  "sscanf_hex s =
     (case dropWhile is_space s of
        CHR ''-'' # t \<Rightarrow> - int (hex_number t 0)
      | CHR ''+'' # t \<Rightarrow> int (hex_number t 0)
      | t \<Rightarrow> int (hex_number t 0))"

definition char_of_int :: "int \<Rightarrow> char" where
  "char_of_int i = char_of (nat (i mod 256))"

fun decode_from :: "string \<Rightarrow> string" where
  "decode_from [] = []"
| "decode_from (c # s) =
     (if c \<noteq> CHR ''%'' then c # decode_from s
      else char_of_int (sscanf_hex (take 2 s)) # decode_from (drop 2 s))"

definition Decode_URI1 :: "string \<Rightarrow> string" where
  "Decode_URI1 UriToDecode = String_of (decode_from (c_str UriToDecode))"

definition Decode_URI :: "string \<Rightarrow> bool \<Rightarrow> string" where
  "Decode_URI UriToDecode DoubleDecode =
     (let ReturnValue = Decode_URI1 UriToDecode in if DoubleDecode then Decode_URI1 ReturnValue else ReturnValue)"

section \<open>Sequence keys of hotspot groups\<close>

definition CreateKey :: "string \<Rightarrow> string \<Rightarrow> string" where
  "CreateKey Key SpaceId =
     String_Append Key (String_Append (String_of '':'') (String_Append SpaceId (String_of ''Hotspots:'')))"

definition DeconstructKey :: "string \<Rightarrow> string \<Rightarrow> string option" where
  "DeconstructKey Key SpaceId =
     (let ExpectedPrefix = String_Append (String_of '':'') (String_Append SpaceId (String_of ''Hotspots:''))
      in if length Key \<le> length ExpectedPrefix \<or> \<not> StartsWith ExpectedPrefix Key then None
         else Some (String_of_n (drop (length ExpectedPrefix) Key) (length Key - length ExpectedPrefix)))"

text \<open>The regular expression: \<open>n\<close> segments each ended by a colon, then the captured segment.\<close>

fun key_match :: "nat \<Rightarrow> string \<Rightarrow> string option" where
  "key_match 0 s = Some (takeWhile (\<lambda>c. c \<noteq> CHR '':'') s)"
| "key_match (Suc n) s = (case dropWhile (\<lambda>c. c \<noteq> CHR '':'') s of [] \<Rightarrow> None | c # r \<Rightarrow> key_match n r)"

definition GetSequenceKeyIndex :: "string \<Rightarrow> nat \<Rightarrow> string" where
  "GetSequenceKeyIndex SequenceKey Index =
     (case key_match Index (c_str SequenceKey) of None \<Rightarrow> [] | Some ParentIdString \<Rightarrow> String_of ParentIdString)"

section \<open>Encoding and decoding\<close>

definition ascii :: "string \<Rightarrow> bool" where
  "ascii s \<longleftrightarrow> (\<forall>c \<in> set s. 0 < (of_char c :: nat) \<and> (of_char c :: nat) < 128)"

lemma ascii_nul_free: "ascii s \<Longrightarrow> nul_free s"
  by (auto simp: ascii_def nul_free_def)

text \<open>The sixteen digits are checked one by one.\<close>

definition good_digit :: "nat \<Rightarrow> bool" where
  "good_digit d \<longleftrightarrow> hex_value (hex_digit d) = Some d \<and> \<not> is_space (hex_digit d)
     \<and> hex_digit d \<notin> set ''-+%:'' \<and> 0 < (of_char (hex_digit d) :: nat) \<and> (of_char (hex_digit d) :: nat) < 128"

lemma good_digits: "list_all good_digit [0..<16]"
  by code_simp

lemma good_digit: "d < 16 \<Longrightarrow> good_digit d"
  using good_digits by (simp add: list_all_iff)

text \<open>An ASCII character that is not copied becomes a percent sign and its two digits.\<close>

lemma to_hex_small: "n < 16 \<Longrightarrow> to_hex n = [hex_digit n]"
  "16 \<le> n \<Longrightarrow> n < 256 \<Longrightarrow> to_hex n = [hex_digit (n div 16), hex_digit (n mod 16)]"
  by (simp_all add: to_hex.simps [of n] to_hex.simps [of "n div 16"])

lemma encode_char_ascii:
  assumes "(of_char c :: nat) < 128" "\<not> is_unreserved c"
  shows "encode_char c = [CHR ''%'', hex_digit (of_char c div 16), hex_digit (of_char c mod 16)]"
proof -
  let ?n = "of_char c :: nat"
  have "(of_char c :: int) = int ?n" by (simp add: of_nat_of_char)
  then have i: "char_int c = int ?n" using assms(1) unfolding char_int_def by simp
  then have n: "nat (char_int c mod 2 ^ 32) = ?n" using assms(1) by simp
  show ?thesis
  proof (cases "?n < 16")
    case True
    moreover have "hex_digit 0 = CHR ''0''" by code_simp
    ultimately show ?thesis using assms(2) n i by (simp add: encode_char_def to_hex_small)
  next
    case False
    then show ?thesis using assms n i by (simp add: encode_char_def to_hex_small)
  qed
qed

lemma sscanf_two_digits:
  assumes "d < 16" "e < 16"
  shows "sscanf_hex [hex_digit d, hex_digit e] = int (16 * d + e)"
  using good_digit [OF assms(1)] good_digit [OF assms(2)]
  by (auto simp: sscanf_hex_def good_digit_def split: list.split char.split bool.split)

lemma percent_reserved: "\<not> is_unreserved CHR ''%''"
  by (simp add: is_unreserved_def less_eq_char_def)

lemma decode_encode_char:
  assumes "(of_char c :: nat) < 128"
  shows "decode_from (encode_char c @ s) = c # decode_from s"
proof (cases "is_unreserved c")
  case True
  then have "c \<noteq> CHR ''%''" using percent_reserved by metis
  then show ?thesis using True by (simp add: encode_char_def)
next
  case False
  have "int (16 * (of_char c div 16) + of_char c mod 16) = int (of_char c :: nat)" by simp
  then have "char_of_int (sscanf_hex [hex_digit (of_char c div 16), hex_digit (of_char c mod 16)]) = c"
    using assms sscanf_two_digits [of "of_char c div 16" "of_char c mod 16"] by (simp add: char_of_int_def)
  then show ?thesis using False assms by (simp add: encode_char_ascii)
qed

lemma decode_encode: "ascii s \<Longrightarrow> decode_from (concat (map encode_char s)) = s"
  by (induction s) (auto simp: ascii_def decode_encode_char)

text \<open>The encoded string is again ASCII, and free of the characters the encoding is there to remove.\<close>

definition encoded_char :: "char \<Rightarrow> bool" where
  "encoded_char c \<longleftrightarrow> 0 < (of_char c :: nat) \<and> (of_char c :: nat) < 128 \<and> c \<noteq> CHR '':''"

lemma encode_char_ok:
  assumes "0 < (of_char c :: nat)" "(of_char c :: nat) < 128" "x \<in> set (encode_char c)"
  shows "encoded_char x"
proof (cases "is_unreserved c")
  case True
  then have "c \<noteq> CHR '':''" by (auto simp: is_unreserved_def less_eq_char_def)
  then show ?thesis using True assms by (simp add: encode_char_def encoded_char_def)
next
  case False
  have "encoded_char (hex_digit d)" if "d < 16" for d
    using good_digit [OF that] by (simp add: good_digit_def encoded_char_def)
  moreover have "encoded_char CHR ''%''" by (simp add: encoded_char_def)
  ultimately show ?thesis using False assms by (auto simp: encode_char_ascii)
qed

lemma encoded_ascii:
  assumes "ascii s"
  shows "ascii (concat (map encode_char s)) \<and> CHR '':'' \<notin> set (concat (map encode_char s))"
proof -
  have "encoded_char x" if x: "x \<in> set (concat (map encode_char s))" for x
  proof -
    obtain c where "c \<in> set s" "x \<in> set (encode_char c)" using x by auto
    then show ?thesis using assms encode_char_ok [of c x] by (simp only: ascii_def)
  qed
  then show ?thesis unfolding ascii_def encoded_char_def by blast
qed

lemma Encode_URI1_ascii: "ascii s \<Longrightarrow> Encode_URI1 s = concat (map encode_char s)"
  using encoded_ascii by (simp add: Encode_URI1_def String_of_def ascii_nul_free)

lemma Decode_Encode_URI1: "ascii s \<Longrightarrow> Decode_URI1 (Encode_URI1 s) = s"
  using encoded_ascii [of s]
  by (simp add: Encode_URI1_ascii Decode_URI1_def decode_encode String_of_def ascii_nul_free)

lemma Encode_URI1_clean: "ascii s \<Longrightarrow> ascii (Encode_URI1 s)" "ascii s \<Longrightarrow> CHR '':'' \<notin> set (Encode_URI1 s)"
  using encoded_ascii [of s] by (simp_all add: Encode_URI1_ascii)

lemma Decode_Encode_URI:
  assumes "ascii s"
  shows "Decode_URI (Encode_URI s twice) twice = s" "ascii (Encode_URI s twice)"
  using assms Encode_URI1_clean(1) [of s] Encode_URI1_clean(1) [of "Encode_URI1 s"]
  by (cases twice, simp_all add: Encode_URI_def Decode_URI_def Decode_Encode_URI1 Let_def)+

text \<open>
  Decoding undoes encoding, once or twice, for every string of ASCII characters; the encoded
  string is ASCII and holds no colon.
\<close>

theorem uri_roundtrip:
  assumes "ascii s"
  shows "Decode_URI (Encode_URI s twice) twice = s
    \<and> ascii (Encode_URI s twice) \<and> CHR '':'' \<notin> set (Encode_URI s twice)"
  using Decode_Encode_URI [OF assms, of twice] Encode_URI1_clean [OF assms] Encode_URI1_clean(2) [of "Encode_URI1 s"]
  by (cases twice) (simp_all add: Encode_URI_def Let_def)

lemma uri_roundtrip_witness:
  "Decode_URI (Encode_URI ''a b:/%?'' True) True = ''a b:/%?'' \<and> ascii (Encode_URI ''a b:/%?'' True)
   \<and> CHR '':'' \<notin> set (Encode_URI ''a b:/%?'' True)"
  using uri_roundtrip [of "''a b:/%?''" True] by (simp add: ascii_def)

text \<open>
  Beyond ASCII the encoding is wrong: a character is negative as an \<open>int\<close>, is taken for one below 16
  and printed with all its eight digits, so it decodes to another string.
\<close>

lemma uri_non_ascii:
  "Encode_URI [CHR 0xC3] False = ''%0FFFFFFC3''" "Decode_URI ''%0FFFFFFC3'' False = CHR 0x0F # ''FFFFFC3''"
proof -
  have d: "hex_digit 3 = CHR ''3''" "hex_digit 12 = CHR ''C''" "hex_digit 15 = CHR ''F''" by code_simp+
  show "Encode_URI [CHR 0xC3] False = ''%0FFFFFFC3''"
    by (simp add: Encode_URI_def Encode_URI1_def c_str_def String_of_def encode_char_def d
        is_unreserved_def less_eq_char_def char_int_def to_hex.simps)
  show "Decode_URI ''%0FFFFFFC3'' False = CHR 0x0F # ''FFFFFC3''" by code_simp
qed

section \<open>Hotspot keys\<close>

lemma CreateKey_eq: "CreateKey Key SpaceId = ''Hotspots:'' @ SpaceId @ '':'' @ Key"
  by (simp add: CreateKey_def String_Append_def String_of_def c_str_def)

text \<open>The name of a group is recovered from its key, whatever it holds.\<close>

lemma DeconstructKey_CreateKey: "Key \<noteq> [] \<Longrightarrow> DeconstructKey (CreateKey Key SpaceId) SpaceId = Some Key"
  by (simp add: DeconstructKey_def CreateKey_eq String_Append_def String_of_def c_str_def StartsWith_iff String_of_n_def prefix_def)

lemma key_match_skip:
  "CHR '':'' \<notin> set p \<Longrightarrow> key_match (Suc n) (p @ CHR '':'' # s) = key_match n s"
  "CHR '':'' \<notin> set p \<Longrightarrow> key_match 0 (p @ CHR '':'' # s) = Some p"
  by (auto simp: dropWhile_append2 takeWhile_append2 dropWhile_append takeWhile_append)

text \<open>The parts of a key as the sequence events read them: the name only up to its first colon.\<close>

lemma GetSequenceKeyIndex_CreateKey:
  assumes "nul_free SpaceId" "CHR '':'' \<notin> set SpaceId" "nul_free Key"
  shows "GetSequenceKeyIndex (CreateKey Key SpaceId) 0 = ''Hotspots''"
    "GetSequenceKeyIndex (CreateKey Key SpaceId) 1 = SpaceId"
    "GetSequenceKeyIndex (CreateKey Key SpaceId) 2 = takeWhile (\<lambda>c. c \<noteq> CHR '':'') Key"
proof -
  have k: "CreateKey Key SpaceId = ''Hotspots'' @ CHR '':'' # SpaceId @ CHR '':'' # Key" by (simp add: CreateKey_eq)
  have n: "nul_free (CreateKey Key SpaceId)" using assms by (simp add: CreateKey_eq)
  have t: "nul_free (takeWhile P Key)" for P using assms(3) by (auto simp: nul_free_def dest: set_takeWhileD)
  have h: "CHR '':'' \<notin> set ''Hotspots''" by simp
  show "GetSequenceKeyIndex (CreateKey Key SpaceId) 0 = ''Hotspots''"
    using n key_match_skip(2) [OF h] by (simp add: GetSequenceKeyIndex_def String_of_def k)
  show "GetSequenceKeyIndex (CreateKey Key SpaceId) 1 = SpaceId"
    using n key_match_skip(1) [OF h, of 0] key_match_skip(2) [OF assms(2)] assms(1)
    by (simp add: GetSequenceKeyIndex_def String_of_def k)
  have "key_match 2 (CreateKey Key SpaceId) = Some (takeWhile (\<lambda>c. c \<noteq> CHR '':'') Key)"
    using key_match_skip(1) [OF h, of 1] key_match_skip(1) [OF assms(2), of 0] by (simp add: k numeral_2_eq_2)
  then show "GetSequenceKeyIndex (CreateKey Key SpaceId) 2 = takeWhile (\<lambda>c. c \<noteq> CHR '':'') Key"
    using n t by (simp add: GetSequenceKeyIndex_def String_of_def)
qed

end
