(* ===== verification/Network_Values.thy ===== *)
theory Network_Values
  imports Messagepack Csp_Uri
begin

text \<open>
  Network events on the wire: the arguments as the sender serialises them
  (\<open>src/Multiplayer/NetworkEventManagerImpl.cpp\<close>), and what the receiver parses out of an event
  message, in general and for each kind of event the library knows
  (\<open>src/Multiplayer/NetworkEventSerialisation.cpp\<close>). The parser reads SignalR values directly: a value
  of another type throws, an index past the end of a C++ vector is undefined behaviour, an index
  past the end of an \<open>Array\<close> throws.
\<close>

datatype event_error =
    Signalr_exception
  | Rv_exception rv_error
  | Event_invalid_argument
  | Out_of_range
  | Assertion_failed
  | Event_undefined

section \<open>Access to SignalR values\<close>

definition as_bool :: "sig_value \<Rightarrow> event_error + bool" where
  "as_bool v = (case v of SBool b \<Rightarrow> Inr b | _ \<Rightarrow> Inl Signalr_exception)"
definition as_integer :: "sig_value \<Rightarrow> event_error + u64" where
  "as_integer v = (case v of SInt i \<Rightarrow> Inr i | _ \<Rightarrow> Inl Signalr_exception)"
definition as_uinteger :: "sig_value \<Rightarrow> event_error + u64" where
  "as_uinteger v = (case v of SUint n \<Rightarrow> Inr n | _ \<Rightarrow> Inl Signalr_exception)"
definition as_double :: "sig_value \<Rightarrow> event_error + float64" where
  "as_double v = (case v of SDouble x \<Rightarrow> Inr x | _ \<Rightarrow> Inl Signalr_exception)"
definition as_string :: "sig_value \<Rightarrow> event_error + string" where
  "as_string v = (case v of SStr s \<Rightarrow> Inr s | _ \<Rightarrow> Inl Signalr_exception)"
definition as_array :: "sig_value \<Rightarrow> event_error + sig_value list" where
  "as_array v = (case v of SArr vs \<Rightarrow> Inr vs | _ \<Rightarrow> Inl Signalr_exception)"
definition as_uint_map :: "sig_value \<Rightarrow> event_error + (u64 \<times> sig_value) list" where
  "as_uint_map v = (case v of SUMap m \<Rightarrow> Inr m | _ \<Rightarrow> Inl Signalr_exception)"
definition as_string_map :: "sig_value \<Rightarrow> event_error + (string \<times> sig_value) list" where
  "as_string_map v = (case v of SSMap m \<Rightarrow> Inr m | _ \<Rightarrow> Inl Signalr_exception)"

lemmas as_defs = as_bool_def as_integer_def as_uinteger_def as_double_def as_string_def as_array_def
  as_uint_map_def as_string_map_def

definition vec_at :: "'a list \<Rightarrow> nat \<Rightarrow> event_error + 'a" where
  "vec_at xs i = (if i < length xs then Inr (xs ! i) else Inl Event_undefined)"

definition array_at :: "'a list \<Rightarrow> nat \<Rightarrow> event_error + 'a" where
  "array_at xs i = (if i < length xs then Inr (xs ! i) else Inl Out_of_range)"

definition map_at :: "('k \<times> 'a) list \<Rightarrow> 'k \<Rightarrow> event_error + 'a" where
  "map_at m k = (case map_of m k of Some x \<Rightarrow> Inr x | None \<Rightarrow> Inl Out_of_range)"

definition rv_throws :: "rv_error + 'a \<Rightarrow> event_error + 'a" where
  "rv_throws r = map_sum Rv_exception id r"

section \<open>Sending arguments\<close>

definition DT_NULLABLE_BOOL :: u64 where "DT_NULLABLE_BOOL = 1"
definition DT_NULLABLE_INT64 :: u64 where "DT_NULLABLE_INT64 = 17"
definition DT_NULLABLE_DOUBLE :: u64 where "DT_NULLABLE_DOUBLE = 29"
definition DT_STRING_ARRAY :: u64 where "DT_STRING_ARRAY = 33"
definition DT_NULLABLE_UINT16 :: u64 where "DT_NULLABLE_UINT16 = 51"

lemmas event_dt_defs = DT_NULLABLE_BOOL_def DT_NULLABLE_INT64_def DT_NULLABLE_DOUBLE_def DT_STRING_ARRAY_def
  DT_NULLABLE_UINT16_def DT_BOOL_def DT_STRING_def DT_FLOAT_ARRAY_def DT_STRING_DICTIONARY_def

definition item :: "u64 \<Rightarrow> sig_value \<Rightarrow> sig_value" where
  "item Type Value = SArr [SUint Type, SArr [Value]]"

definition float_fields :: "float32 list \<Rightarrow> sig_value" where
  "float_fields xs = SArr (map (\<lambda>x. SDouble (widen x)) xs)"

text \<open>The switch is on the tag, the getters look at tag and value.\<close>

fun SerialiseReplicatedValueToSignalRValue :: "rep_value \<Rightarrow> event_error + sig_value"
  and serialise_map :: "(string \<times> rep_value) list \<Rightarrow> (string, sig_value) omap \<Rightarrow> event_error + (string, sig_value) omap" where
  "SerialiseReplicatedValueToSignalRValue (RepVal i t) =
     (case t of
        RBoolean \<Rightarrow> rbind (rv_throws (GetBool (RepVal i t))) (\<lambda>b. Inr (item DT_NULLABLE_BOOL (SBool b)))
      | RInteger \<Rightarrow> rbind (rv_throws (GetInt (RepVal i t))) (\<lambda>n. Inr (item DT_NULLABLE_INT64 (SInt n)))
      | RFloat \<Rightarrow> rbind (rv_throws (GetFloat (RepVal i t))) (\<lambda>x. Inr (item DT_NULLABLE_DOUBLE (SDouble (widen x))))
      | RString \<Rightarrow> rbind (rv_throws (GetString (RepVal i t))) (\<lambda>s. Inr (item DT_STRING (SStr (c_str s))))
      | RVector2 \<Rightarrow> rbind (rv_throws (GetVector2 (RepVal i t))) (\<lambda>(x, y). Inr (item DT_FLOAT_ARRAY (float_fields [x, y])))
      | RVector3 \<Rightarrow> rbind (rv_throws (GetVector3 (RepVal i t))) (\<lambda>(x, y, z). Inr (item DT_FLOAT_ARRAY (float_fields [x, y, z])))
      | RVector4 \<Rightarrow> rbind (rv_throws (GetVector4 (RepVal i t)))
          (\<lambda>(x, y, z, w). Inr (item DT_FLOAT_ARRAY (float_fields [x, y, z, w])))
      | RStringMap \<Rightarrow>
          (case i of
             VMap m \<Rightarrow> rbind (serialise_map m []) (\<lambda>StringMap. Inr (item DT_STRING_DICTIONARY (SSMap StringMap)))
           | _ \<Rightarrow> Inl (Rv_exception Rv_bad_variant_access))
      | InvalidType \<Rightarrow> Inl Assertion_failed)"
| "serialise_map [] StringMap = Inr StringMap"
| "serialise_map (kv # m) StringMap =
     rbind (SerialiseReplicatedValueToSignalRValue (snd kv)) (\<lambda>v.
       serialise_map m (omap_upd (c_str (fst kv)) v StringMap))"

definition ALL_CLIENTS_ID :: u64 where "ALL_CLIENTS_ID = - 1"

fun serialise_arguments :: "nat \<Rightarrow> rep_value list \<Rightarrow> event_error + (u64, sig_value) omap" where
  "serialise_arguments i [] = Inr []"
| "serialise_arguments i (v # vs) =
     rbind (SerialiseReplicatedValueToSignalRValue v) (\<lambda>s.
     rbind (serialise_arguments (Suc i) vs) (\<lambda>m. Inr ((of_nat i, s) # m)))"

definition event_message :: "string \<Rightarrow> u64 \<Rightarrow> u64 \<Rightarrow> (u64, sig_value) omap \<Rightarrow> sig_value" where
  "event_message EventName ClientId TargetClientId Components =
     SArr [SStr (c_str EventName), SUint ClientId,
       (if TargetClientId = ALL_CLIENTS_ID then SNull else SUint TargetClientId), SUMap Components]"

text \<open>
  Without a connection the callback gets an error and nothing is sent; otherwise the hub method is
  invoked with the parameters returned here, and its answer goes to the callback.
\<close>

datatype send_result = Send_not_connected | Send_invoked sig_value

definition SendNetworkEvent :: "bool \<Rightarrow> u64 \<Rightarrow> string \<Rightarrow> rep_value list \<Rightarrow> u64 \<Rightarrow> event_error + send_result" where
  "SendNetworkEvent connection ClientId EventName Arguments TargetClientId =
     (if \<not> connection then Inr Send_not_connected
      else rbind (serialise_arguments 0 Arguments) (\<lambda>Components.
        Inr (Send_invoked (SArr [event_message EventName ClientId TargetClientId Components]))))"

section \<open>Parsing arguments\<close>

lemma size_snd_elem: "kv \<in> set m \<Longrightarrow> size (snd kv) < size (SSMap m)"
  by (rule sig_size_elem)

lemma vec_at_size: "vec_at xs i = Inr x \<Longrightarrow> size x < size (SArr xs)"
  by (auto simp: vec_at_def less_Suc_eq_le intro!: size_list_estimation' [OF nth_mem] split: if_splits)

function (sequential) ParseSignalRComponent :: "u64 \<Rightarrow> sig_value \<Rightarrow> event_error + rep_value"
  and ParseSignalRComponentFromItemComponent :: "sig_value \<Rightarrow> event_error + rep_value"
  and parse_map :: "(string \<times> sig_value) list \<Rightarrow> (string, rep_value) omap \<Rightarrow> event_error + (string, rep_value) omap" where
  "ParseSignalRComponent TypeId Component =
     (if Component = SNull then Inr RV_default
      else if TypeId = DT_BOOL then rbind (as_bool Component) (\<lambda>b. Inr (RV_bool b))
      else if TypeId = DT_NULLABLE_BOOL then rbind (as_bool Component) (\<lambda>b. Inr (RV_bool b))
      else if TypeId = DT_NULLABLE_INT64 then
        (case Component of
           SInt i \<Rightarrow> Inr (RV_int i)
         | _ \<Rightarrow> rbind (as_uinteger Component) (\<lambda>n. Inr (RV_int n)))
      else if TypeId = DT_NULLABLE_DOUBLE then rbind (as_double Component) (\<lambda>x. Inr (RV_float (narrow x)))
      else if TypeId = DT_STRING then rbind (as_string Component) (\<lambda>s. Inr (RV_string (c_str s)))
      else if TypeId = DT_FLOAT_ARRAY then
        rbind (as_array Component) (\<lambda>Array.
          case Array of
            [a, b, c] \<Rightarrow> rbind (as_double a) (\<lambda>x. rbind (as_double b) (\<lambda>y. rbind (as_double c) (\<lambda>z.
              Inr (RV_vector3 (narrow x) (narrow y) (narrow z)))))
          | [a, b, c, d] \<Rightarrow> rbind (as_double a) (\<lambda>x. rbind (as_double b) (\<lambda>y. rbind (as_double c) (\<lambda>z.
              rbind (as_double d) (\<lambda>w. Inr (RV_vector4 (narrow x) (narrow y) (narrow z) (narrow w))))))
          | _ \<Rightarrow> Inr RV_default)
      else if TypeId = DT_NULLABLE_UINT16 then rbind (as_uinteger Component) (\<lambda>n. Inr (RV_int n))
      else if TypeId = DT_STRING_DICTIONARY then
        (case Component of
           SSMap StringMap \<Rightarrow> rbind (parse_map StringMap []) (\<lambda>ResultMap. Inr (RV_map ResultMap))
         | _ \<Rightarrow> Inl Signalr_exception)
      else Inr RV_default)"
| "ParseSignalRComponentFromItemComponent ItemComponentData =
     (case ItemComponentData of
        SArr ItemComponentDataArray \<Rightarrow>
          rbind (vec_at ItemComponentDataArray 0) (\<lambda>t.
          rbind (as_uinteger t) (\<lambda>Type.
          rbind (vec_at ItemComponentDataArray 1) (\<lambda>f.
            case f of
              SArr Fields \<Rightarrow> rbind (vec_at Fields 0) (\<lambda>Value. ParseSignalRComponent Type Value)
            | _ \<Rightarrow> Inl Signalr_exception)))
      | _ \<Rightarrow> Inl Signalr_exception)"
| "parse_map [] ResultMap = Inr ResultMap"
| "parse_map (kv # StringMap) ResultMap =
     rbind (ParseSignalRComponentFromItemComponent (snd kv)) (\<lambda>v.
       parse_map StringMap (omap_upd (c_str (fst kv)) v ResultMap))"
  by pat_completeness auto
termination
  by (relation "measure (case_sum (\<lambda>(T, c). 2 * size c + 1)
      (case_sum (\<lambda>v. 2 * size v + 1) (\<lambda>(m, a). 2 * size (SSMap m))))")
    (auto dest!: vec_at_size)

section \<open>What arrives of an argument\<close>

text \<open>
  The encoding of a valid value. What arrives is the value itself, except that a two-dimensional
  vector, which the parser does not know, and an empty map, which MessagePack turns into null,
  arrive as the default value, of invalid type.
\<close>

fun event_enc :: "rep_value \<Rightarrow> sig_value" and event_map_enc :: "(string \<times> rep_value) list \<Rightarrow> (string \<times> sig_value) list" where
  "event_enc (RepVal i t) =
     (case i of
        VBool b \<Rightarrow> item DT_NULLABLE_BOOL (SBool b)
      | VInt n \<Rightarrow> item DT_NULLABLE_INT64 (SInt n)
      | VFloat x \<Rightarrow> item DT_NULLABLE_DOUBLE (SDouble (widen x))
      | VStr s \<Rightarrow> item DT_STRING (SStr s)
      | VVec2 x y \<Rightarrow> item DT_FLOAT_ARRAY (float_fields [x, y])
      | VVec3 x y z \<Rightarrow> item DT_FLOAT_ARRAY (float_fields [x, y, z])
      | VVec4 x y z w \<Rightarrow> item DT_FLOAT_ARRAY (float_fields [x, y, z, w])
      | VMap m \<Rightarrow> item DT_STRING_DICTIONARY (SSMap (event_map_enc m)))"
| "event_map_enc [] = []"
| "event_map_enc (kv # m) = (fst kv, event_enc (snd kv)) # event_map_enc m"

fun received :: "rep_value \<Rightarrow> rep_value" and received_map :: "(string \<times> rep_value) list \<Rightarrow> (string \<times> rep_value) list" where
  "received (RepVal i t) =
     (case i of
        VVec2 x y \<Rightarrow> RV_default
      | VMap m \<Rightarrow> if m = [] then RV_default else RepVal (VMap (received_map m)) t
      | _ \<Rightarrow> RepVal i t)"
| "received_map [] = []"
| "received_map (kv # m) = (fst kv, received (snd kv)) # received_map m"

lemma event_maps:
  "event_map_enc m = map (\<lambda>kv. (fst kv, event_enc (snd kv))) m"
  "received_map m = map (\<lambda>kv. (fst kv, received (snd kv))) m"
  by (induction m) simp_all

lemma omap_ok_values: "omap_ok m \<Longrightarrow> omap_ok (map (\<lambda>kv. (fst kv, f (snd kv))) m)"
  using omap_ok_map_keys [of m id f] by (simp add: strict_mono_def)

lemma rv_throws_Inr [simp]: "rv_throws (Inr x) = Inr x"
  by (simp add: rv_throws_def)

lemma serialise_enc:
  "rv_valid v \<Longrightarrow> SerialiseReplicatedValueToSignalRValue v = Inr (event_enc v)"
  "map_valid m \<Longrightarrow> omap_ok (acc @ event_map_enc m) \<Longrightarrow> serialise_map m acc = Inr (acc @ event_map_enc m)"
proof (induction v and m acc rule: SerialiseReplicatedValueToSignalRValue_serialise_map.induct)
  case (1 i t)
  then show ?case
    by (cases i) (simp_all add: rv_getters rv_get_def event_maps omap_ok_values)
next
  case (3 kv m acc)
  have "\<forall>k' \<in> fst ` set acc. k' < fst kv"
    using 3(4) by (auto simp: omap_ok_def sorted_wrt_append)
  then have "omap_upd (fst kv) (event_enc (snd kv)) acc = acc @ [(fst kv, event_enc (snd kv))]"
    by (rule omap_upd_append)
  with 3 show ?case by simp
qed simp

lemma wire_item: "wire (item T v) = item T (wire v)"
  by (simp add: item_def)

lemma parse_item: "ParseSignalRComponentFromItemComponent (item T v) = ParseSignalRComponent T v"
  by (simp add: item_def vec_at_def as_defs)

declare ParseSignalRComponent.simps [simp del] ParseSignalRComponentFromItemComponent.simps [simp del]

lemma parse_basic:
  "ParseSignalRComponent DT_NULLABLE_BOOL (SBool b) = Inr (RV_bool b)"
  "ParseSignalRComponent DT_NULLABLE_INT64 (wire (SInt n)) = Inr (RV_int n)"
  "ParseSignalRComponent DT_NULLABLE_DOUBLE (SDouble u) = Inr (RV_float (narrow u))"
  "ParseSignalRComponent DT_STRING (SStr s) = Inr (RV_string (c_str s))"
  "ParseSignalRComponent DT_FLOAT_ARRAY (wire (float_fields [x, y])) = Inr RV_default"
  "f32_quiet x = x \<Longrightarrow> f32_quiet y = y \<Longrightarrow> f32_quiet z = z
   \<Longrightarrow> ParseSignalRComponent DT_FLOAT_ARRAY (wire (float_fields [x, y, z])) = Inr (RV_vector3 x y z)"
  "f32_quiet x = x \<Longrightarrow> f32_quiet y = y \<Longrightarrow> f32_quiet z = z \<Longrightarrow> f32_quiet w = w
   \<Longrightarrow> ParseSignalRComponent DT_FLOAT_ARRAY (wire (float_fields [x, y, z, w])) = Inr (RV_vector4 x y z w)"
  "ParseSignalRComponent T SNull = Inr RV_default"
  "ParseSignalRComponent DT_STRING_DICTIONARY (SSMap m) = rbind (parse_map m []) (\<lambda>m. Inr (RV_map m))"
  by (simp_all add: ParseSignalRComponent.simps event_dt_defs as_defs float_fields_def narrow_widen)

lemma parse_map_values:
  "\<forall>kv \<in> set m. nul_free (fst kv) \<and> ParseSignalRComponentFromItemComponent (f (snd kv)) = Inr (g (snd kv))
   \<Longrightarrow> omap_ok (acc @ map (\<lambda>kv. (fst kv, g (snd kv))) m)
   \<Longrightarrow> parse_map (map (\<lambda>kv. (fst kv, f (snd kv))) m) acc = Inr (acc @ map (\<lambda>kv. (fst kv, g (snd kv))) m)"
proof (induction m arbitrary: acc)
  case (Cons kv m)
  have "\<forall>k' \<in> fst ` set acc. k' < fst kv"
    using Cons.prems(2) by (auto simp: omap_ok_def sorted_wrt_append)
  then have "omap_upd (fst kv) (g (snd kv)) acc = acc @ [(fst kv, g (snd kv))]"
    by (rule omap_upd_append)
  with Cons show ?case by simp
qed simp

lemma parse_received:
  "rv_valid v \<Longrightarrow> ParseSignalRComponentFromItemComponent (wire (event_enc v)) = Inr (received v)"
  "map_valid m \<Longrightarrow> \<forall>kv \<in> set m. nul_free (fst kv)
     \<and> ParseSignalRComponentFromItemComponent (wire (event_enc (snd kv))) = Inr (received (snd kv))"
proof (induction v and m rule: event_enc_event_map_enc.induct)
  case (1 i t)
  show ?case
  proof (cases i)
    case (VMap m)
    then have m: "omap_ok m" "\<forall>kv \<in> set m. nul_free (fst kv)
        \<and> ParseSignalRComponentFromItemComponent (wire (event_enc (snd kv))) = Inr (received (snd kv))" "t = RStringMap"
      using 1 by simp_all
    have e: "event_enc (RepVal i t) = item DT_STRING_DICTIONARY (SSMap (event_map_enc m))"
      "received (RepVal i t) = (if m = [] then RV_default else RV_map (received_map m))" using VMap m(3) by (simp_all add: RV_map_def)
    have w: "wire (SSMap (event_map_enc m)) = (if m = [] then SNull else SSMap (map (\<lambda>kv. (fst kv, wire (event_enc (snd kv)))) m))"
      by (simp add: event_maps o_def map_prod_def split_beta)
    show ?thesis
      using parse_map_values [of m "\<lambda>v. wire (event_enc v)" received "[]"] m(2) omap_ok_values [OF m(1), of received]
      unfolding e wire_item parse_item w by (simp add: parse_basic event_maps(2))
  qed (use 1 in \<open>simp_all add: wire_item parse_item parse_basic rv_constructors narrow_widen del: wire.simps(3,8)\<close>)
qed simp_all

end
