(* ===== verification/Network_Events.thy ===== *)
theory Network_Events
  imports Network_Values
begin

text \<open>
  The events that are parsed out of event messages (\<open>src/Multiplayer/NetworkEventSerialisation.cpp\<close>,
  data in \<open>include/CSP/Common/NetworkEventData.h\<close>): the part common to all events, and the data of the
  kinds of event the library knows.
\<close>

section \<open>Event data\<close>

record network_event =
  EventName :: string
  SenderClientId :: u64
  EventValues :: "rep_value list"

text \<open>Enumerations an arbitrary integer is cast to are kept as their underlying \<open>int\<close>.\<close>

definition EAssetChangeType_Invalid :: u32 where "EAssetChangeType_Invalid = 4"
definition EAssetChangeType_Num :: u64 where "EAssetChangeType_Num = 5"

datatype asset_type = IMAGE | THUMBNAIL | SIMULATION | MODEL | VIDEO | SCRIPT_LIBRARY | HOLOCAP_VIDEO
  | HOLOCAP_AUDIO | AUDIO | GAUSSIAN_SPLAT | MATERIAL | ANNOTATION | ANNOTATION_THUMBNAIL | TEXT

record asset_event = network_event +
  ChangeType :: u32
  AssetId :: string
  Version :: string
  AssetType :: asset_type
  AssetCollectionId :: string

record conversation_event = network_event +
  MessageType :: u32
  ConversationId :: string
  CreatedTimestamp :: string
  EditedTimestamp :: string
  MessageUserId :: string
  Message :: string
  MessageId :: string

datatype space_user_role = RoleOwner | RoleModerator | RoleUser | RoleInvalid
datatype EPermissionChangeType = PermissionCreated | PermissionUpdated | PermissionRemoved | PermissionInvalid

record access_event = network_event +
  AccessSpaceId :: string
  UserRoles :: "space_user_role list"
  AccessChange :: EPermissionChangeType
  UserId :: string

datatype sequence_update = SequenceCreate | SequenceUpdate | SequenceDelete | SequenceInvalid
datatype sequence_type = DefaultSequence | HotspotSequence

record sequence_event = network_event +
  UpdateType :: sequence_update
  SequenceType :: sequence_type
  SequenceKey :: string
  NewKey :: string
  SequenceSpaceId :: string

record async_call_event = network_event +
  OperationName :: string
  References :: "(string, string) omap"
  Success :: bool
  StatusReason :: string

section \<open>The common part\<close>

fun parse_components :: "(u64 \<times> sig_value) list \<Rightarrow> event_error + rep_value list" where
  "parse_components [] = Inr []"
| "parse_components (kv # m) =
     rbind (ParseSignalRComponentFromItemComponent (snd kv)) (\<lambda>v.
     rbind (parse_components m) (\<lambda>vs. Inr (v # vs)))"

definition PopulateCommonEventData :: "sig_value list \<Rightarrow> event_error + network_event" where
  "PopulateCommonEventData Values =
     rbind (vec_at Values 0) (\<lambda>v0.
     rbind (as_string v0) (\<lambda>Name.
     rbind (vec_at Values 1) (\<lambda>v1.
     rbind (as_uinteger v1) (\<lambda>Sender.
     rbind (vec_at Values 3) (\<lambda>v3.
     rbind (if v3 \<noteq> SNull then rbind (as_uint_map v3) parse_components else Inr []) (\<lambda>vs.
       Inr \<lparr>EventName = c_str Name, SenderClientId = Sender, EventValues = vs\<rparr>))))))"

definition DeserializeGeneralPurposeEvent :: "sig_value list \<Rightarrow> event_error + network_event" where
  "DeserializeGeneralPurposeEvent Values = PopulateCommonEventData Values"

section \<open>The kinds of event\<close>

definition event_int :: "network_event \<Rightarrow> nat \<Rightarrow> event_error + u64" where
  "event_int e i = rbind (array_at (EventValues e) i) (\<lambda>v. rv_throws (GetInt v))"

definition event_string :: "network_event \<Rightarrow> nat \<Rightarrow> event_error + string" where
  "event_string e i = rbind (array_at (EventValues e) i) (\<lambda>v. rv_throws (GetString v))"

definition ConvertDTOAssetDetailType :: "string \<Rightarrow> asset_type" where
  "ConvertDTOAssetDetailType s =
     (if String_eq s ''Image'' then IMAGE
      else if String_eq s ''Thumbnail'' then THUMBNAIL
      else if String_eq s ''Simulation'' then SIMULATION
      else if String_eq s ''Model'' then MODEL
      else if String_eq s ''Video'' then VIDEO
      else if String_eq s ''ScriptLibrary'' then SCRIPT_LIBRARY
      else if String_eq s ''HolocapVideo'' then HOLOCAP_VIDEO
      else if String_eq s ''HolocapAudio'' then HOLOCAP_AUDIO
      else if String_eq s ''Audio'' then AUDIO
      else if String_eq s ''GaussianSplat'' then GAUSSIAN_SPLAT
      else if String_eq s ''Material'' then MATERIAL
      else if String_eq s ''Annotation'' then ANNOTATION
      else if String_eq s ''AnnotationThumbnail'' then ANNOTATION_THUMBNAIL
      else if String_eq s ''Text'' then TEXT
      else IMAGE)"

text \<open>The number is checked against the upper end of the enumeration only.\<close>

definition DeserializeAssetDetailBlobChangedEvent :: "sig_value list \<Rightarrow> event_error + asset_event" where
  "DeserializeAssetDetailBlobChangedEvent Values =
     rbind (PopulateCommonEventData Values) (\<lambda>e.
     rbind (event_int e 0) (\<lambda>n.
     rbind (event_string e 1) (\<lambda>Asset.
     rbind (event_string e 2) (\<lambda>Vers.
     rbind (event_string e 3) (\<lambda>Typ.
     rbind (event_string e 4) (\<lambda>Collection.
       Inr (network_event.extend e
         (asset_event.fields (if sint n < sint EAssetChangeType_Num then scast n else EAssetChangeType_Invalid)
            Asset Vers (ConvertDTOAssetDetailType Typ) Collection))))))))"

definition DeserializeConversationEvent :: "sig_value list \<Rightarrow> event_error + conversation_event" where
  "DeserializeConversationEvent Values =
     rbind (PopulateCommonEventData Values) (\<lambda>e.
     rbind (event_int e 0) (\<lambda>n.
     rbind (event_string e 1) (\<lambda>Conversation.
     rbind (event_string e 2) (\<lambda>Created.
     rbind (event_string e 3) (\<lambda>Edited.
     rbind (event_string e 4) (\<lambda>User.
     rbind (event_string e 5) (\<lambda>Msg.
     rbind (event_string e 6) (\<lambda>MsgId.
       Inr (network_event.extend e
         (conversation_event.fields (scast n) Conversation Created Edited User Msg MsgId))))))))))"

definition component_string :: "(u64 \<times> sig_value) list \<Rightarrow> u64 \<Rightarrow> event_error + string" where
  "component_string Components Key =
     rbind (map_at Components Key) (\<lambda>v.
     rbind (as_array v) (\<lambda>Component.
     rbind (vec_at Component 0) (\<lambda>t.
     rbind (as_uinteger t) (\<lambda>Type.
     rbind (vec_at Component 1) (\<lambda>f.
     rbind (as_array f) (\<lambda>Fields.
     rbind (vec_at Fields 0) (\<lambda>Value.
     rbind (ParseSignalRComponent Type Value) (\<lambda>x. rv_throws (GetString x)))))))))"

definition user_role :: "string \<Rightarrow> space_user_role" where
  "user_role s = (if s = ''viewer'' then RoleUser else if s = ''creator'' then RoleModerator
     else if s = ''owner'' then RoleOwner else RoleInvalid)"

fun parse_roles :: "sig_value list \<Rightarrow> event_error + space_user_role list" where
  "parse_roles [] = Inr []"
| "parse_roles (v # vs) =
     rbind (as_string v) (\<lambda>s. rbind (parse_roles vs) (\<lambda>rs. Inr (user_role s # rs)))"

definition component_roles :: "(u64 \<times> sig_value) list \<Rightarrow> u64 \<Rightarrow> event_error + space_user_role list" where
  "component_roles Components Key =
     rbind (map_at Components Key) (\<lambda>v.
     rbind (as_array v) (\<lambda>RolesComponent.
     rbind (vec_at RolesComponent 0) (\<lambda>t.
     rbind (as_uinteger t) (\<lambda>Type.
       if Type = DT_STRING_ARRAY then
         rbind (vec_at RolesComponent 1) (\<lambda>f.
         rbind (as_array f) (\<lambda>Fields.
         rbind (vec_at Fields 0) (\<lambda>w.
         rbind (as_array w) parse_roles)))
       else Inr []))))"

definition permission_change :: "string \<Rightarrow> EPermissionChangeType" where
  "permission_change s =
     (if String_eq s ''Created'' then PermissionCreated
      else if String_eq s ''Updated'' then PermissionUpdated
      else if String_eq s ''Removed'' then PermissionRemoved
      else PermissionInvalid)"

definition DeserializeAccessControlChangedEvent :: "sig_value list \<Rightarrow> event_error + access_event" where
  "DeserializeAccessControlChangedEvent Values =
     rbind (PopulateCommonEventData Values) (\<lambda>e.
     rbind (vec_at Values 3) (\<lambda>v3.
       if v3 = SNull then Inl Event_invalid_argument
       else rbind (as_uint_map v3) (\<lambda>Components.
         rbind (component_string Components 1) (\<lambda>Space.
         rbind (component_roles Components 100) (\<lambda>Roles.
         rbind (component_string Components 101) (\<lambda>Change.
         rbind (component_string Components 102) (\<lambda>User.
           Inr (network_event.extend e (access_event.fields Space Roles (permission_change Change) User)))))))))"

definition ESequenceUpdateIntToUpdateType :: "u64 \<Rightarrow> sequence_update" where
  "ESequenceUpdateIntToUpdateType n =
     (if n = 0 then SequenceCreate else if n = 1 then SequenceUpdate else if n = 3 then SequenceDelete
      else SequenceInvalid)"

definition DecodeSequenceKey :: "rep_value \<Rightarrow> event_error + string" where
  "DecodeSequenceKey RawValue = rbind (rv_throws (GetString RawValue)) (\<lambda>s. Inr (Decode_URI s False))"

definition DeserializeSequenceChangedEvent :: "sig_value list \<Rightarrow> event_error + sequence_event" where
  "DeserializeSequenceChangedEvent Values =
     rbind (PopulateCommonEventData Values) (\<lambda>e.
       if length (EventValues e) \<noteq> 3 then Inl Event_invalid_argument
       else
         rbind (event_int e 0) (\<lambda>n.
         rbind (array_at (EventValues e) 1) (\<lambda>v1.
         rbind (DecodeSequenceKey v1) (\<lambda>Key.
         rbind (array_at (EventValues e) 2) (\<lambda>v2.
         rbind (if RType v2 = RString then rbind (rv_throws (GetString v2)) (\<lambda>s. Inr (Decode_URI s False)) else Inr [])
           (\<lambda>New.
             Inr (network_event.extend e
               (sequence_event.fields (ESequenceUpdateIntToUpdateType n) DefaultSequence Key New []))))))))"

fun parse_references :: "(string \<times> rep_value) list \<Rightarrow> (string, string) omap \<Rightarrow> event_error + (string, string) omap" where
  "parse_references [] Refs = Inr Refs"
| "parse_references (kv # m) Refs =
     rbind (rv_throws (GetString (snd kv))) (\<lambda>s. parse_references m (omap_upd (fst kv) s Refs))"

definition DeserializeAsyncCallCompletedEvent :: "sig_value list \<Rightarrow> event_error + async_call_event" where
  "DeserializeAsyncCallCompletedEvent Values =
     rbind (PopulateCommonEventData Values) (\<lambda>e.
     rbind (event_string e 0) (\<lambda>Operation.
     rbind (array_at (EventValues e) 1) (\<lambda>v1.
     rbind (rv_throws (GetStringMap v1)) (\<lambda>m.
     rbind (parse_references m []) (\<lambda>Refs.
     rbind (array_at (EventValues e) 2) (\<lambda>v2.
     rbind (rv_throws (GetBool v2)) (\<lambda>Ok.
     rbind (event_string e 3) (\<lambda>Reason.
       Inr (network_event.extend e (async_call_event.fields Operation Refs Ok Reason))))))))))"

end
