(* ===== verification/Network_Event_Bus.thy ===== *)
theory Network_Event_Bus
  imports Network_Events
begin

text \<open>
  The network event bus (\<open>include/CSP/Multiplayer/NetworkEventBus.h\<close>,
  \<open>src/Multiplayer/NetworkEventBus.cpp\<close>): receivers register callbacks for kinds of events, the bus
  parses each event message that arrives and calls the callbacks registered for it. A callback is a
  number; the result of a dispatch is the list of the calls made, with their data, in the order of
  the registrations.
\<close>

section \<open>State\<close>

record NetworkEventRegistration =
  EventReceiverId :: string
  RegEventName :: string

type_synonym callback = nat
type_synonym registrations = "(NetworkEventRegistration, callback) umap"

datatype NetworkEvent = AssetDetailBlobChanged | Conversation | SequenceChanged | AccessControlChanged
  | GeneralPurposeEvent | AsyncCallCompleted

record event_bus =
  RegisteredCustomEvents :: registrations
  RegisteredAccessControlChangedEvents :: registrations
  RegisteredAssetDetailBlobChangedEvents :: registrations
  RegisteredAsyncCallCompletedEvents :: registrations
  RegisteredConversationEvents :: registrations
  RegisteredSequenceChangedEvents :: registrations

definition new_bus :: event_bus where
  "new_bus = \<lparr>RegisteredCustomEvents = [], RegisteredAccessControlChangedEvents = [],
     RegisteredAssetDetailBlobChangedEvents = [], RegisteredAsyncCallCompletedEvents = [],
     RegisteredConversationEvents = [], RegisteredSequenceChangedEvents = []\<rparr>"

definition CustomDeserializationEventMap :: "(NetworkEvent \<times> string) list" where
  "CustomDeserializationEventMap = [(AssetDetailBlobChanged, ''AssetDetailBlobChanged''), (Conversation, ''Conversation''),
     (SequenceChanged, ''SequenceChanged''), (AccessControlChanged, ''AccessControlChanged''),
     (AsyncCallCompleted, ''AsyncCallCompleted'')]"

text \<open>Called with the keys of the map only; it throws for another one.\<close>

definition StringFromNetworkEvent :: "NetworkEvent \<Rightarrow> string" where
  "StringFromNetworkEvent Event = the (map_of CustomDeserializationEventMap Event)"

definition NetworkEventFromString :: "string \<Rightarrow> NetworkEvent" where
  "NetworkEventFromString EventString =
     (case find (\<lambda>(Key, Val). String_eq Val EventString) CustomDeserializationEventMap of
        Some (Key, Val) \<Rightarrow> Key
      | None \<Rightarrow> GeneralPurposeEvent)"

section \<open>Registering\<close>

definition RegisterEventCallback :: "string \<Rightarrow> string \<Rightarrow> callback option \<Rightarrow> registrations \<Rightarrow> registrations" where
  "RegisterEventCallback Receiver Name Callback RegisteredEvents =
     (if Name = [] then RegisteredEvents
      else if Receiver = [] then RegisteredEvents
      else case Callback of
        None \<Rightarrow> RegisteredEvents
      | Some cb \<Rightarrow>
          let Registration = \<lparr>EventReceiverId = Receiver, RegEventName = Name\<rparr>
          in if map_of RegisteredEvents Registration \<noteq> None then RegisteredEvents
             else umap_upd Registration cb RegisteredEvents)"

definition ListenCustomNetworkEvent :: "string \<Rightarrow> string \<Rightarrow> callback option \<Rightarrow> event_bus \<Rightarrow> event_bus" where
  "ListenCustomNetworkEvent Receiver Name Callback b =
     b\<lparr>RegisteredCustomEvents := RegisterEventCallback Receiver Name Callback (RegisteredCustomEvents b)\<rparr>"

definition ListenAccessControlChangedEvent :: "string \<Rightarrow> callback option \<Rightarrow> event_bus \<Rightarrow> event_bus" where
  "ListenAccessControlChangedEvent Receiver Callback b =
     b\<lparr>RegisteredAccessControlChangedEvents := RegisterEventCallback Receiver (StringFromNetworkEvent AccessControlChanged)
       Callback (RegisteredAccessControlChangedEvents b)\<rparr>"

definition ListenAssetDetailBlobChangedEvent :: "string \<Rightarrow> callback option \<Rightarrow> event_bus \<Rightarrow> event_bus" where
  "ListenAssetDetailBlobChangedEvent Receiver Callback b =
     b\<lparr>RegisteredAssetDetailBlobChangedEvents := RegisterEventCallback Receiver (StringFromNetworkEvent AssetDetailBlobChanged)
       Callback (RegisteredAssetDetailBlobChangedEvents b)\<rparr>"

definition ListenAsyncCallCompletedEvent :: "string \<Rightarrow> string \<Rightarrow> callback option \<Rightarrow> event_bus \<Rightarrow> event_bus" where
  "ListenAsyncCallCompletedEvent Receiver Operation Callback b =
     b\<lparr>RegisteredAsyncCallCompletedEvents := RegisterEventCallback Receiver Operation Callback (RegisteredAsyncCallCompletedEvents b)\<rparr>"

definition ListenConversationEvent :: "string \<Rightarrow> callback option \<Rightarrow> event_bus \<Rightarrow> event_bus" where
  "ListenConversationEvent Receiver Callback b =
     b\<lparr>RegisteredConversationEvents := RegisterEventCallback Receiver (StringFromNetworkEvent Conversation)
       Callback (RegisteredConversationEvents b)\<rparr>"

definition ListenSequenceChangedEvent :: "string \<Rightarrow> callback option \<Rightarrow> event_bus \<Rightarrow> event_bus" where
  "ListenSequenceChangedEvent Receiver Callback b =
     b\<lparr>RegisteredSequenceChangedEvents := RegisterEventCallback Receiver (StringFromNetworkEvent SequenceChanged)
       Callback (RegisteredSequenceChangedEvents b)\<rparr>"

section \<open>Deregistering\<close>

definition StopListenCustomNetworkEvent :: "string \<Rightarrow> string \<Rightarrow> event_bus \<Rightarrow> event_bus" where
  "StopListenCustomNetworkEvent Receiver Name b =
     b\<lparr>RegisteredCustomEvents := umap_del \<lparr>EventReceiverId = Receiver, RegEventName = Name\<rparr> (RegisteredCustomEvents b)\<rparr>"

definition StopListenAccessControlChangedEvent :: "string \<Rightarrow> event_bus \<Rightarrow> event_bus" where
  "StopListenAccessControlChangedEvent Receiver b =
     b\<lparr>RegisteredAccessControlChangedEvents :=
       umap_del \<lparr>EventReceiverId = Receiver, RegEventName = StringFromNetworkEvent AccessControlChanged\<rparr>
         (RegisteredAccessControlChangedEvents b)\<rparr>"

definition StopListenAssetDetailBlobChangedEvent :: "string \<Rightarrow> event_bus \<Rightarrow> event_bus" where
  "StopListenAssetDetailBlobChangedEvent Receiver b =
     b\<lparr>RegisteredAssetDetailBlobChangedEvents :=
       umap_del \<lparr>EventReceiverId = Receiver, RegEventName = StringFromNetworkEvent AssetDetailBlobChanged\<rparr>
         (RegisteredAssetDetailBlobChangedEvents b)\<rparr>"

definition StopListenAsyncCallCompletedEvent :: "string \<Rightarrow> string \<Rightarrow> event_bus \<Rightarrow> event_bus" where
  "StopListenAsyncCallCompletedEvent Receiver Operation b =
     b\<lparr>RegisteredAsyncCallCompletedEvents :=
       umap_del \<lparr>EventReceiverId = Receiver, RegEventName = Operation\<rparr> (RegisteredAsyncCallCompletedEvents b)\<rparr>"

definition StopListenConversationEvent :: "string \<Rightarrow> event_bus \<Rightarrow> event_bus" where
  "StopListenConversationEvent Receiver b =
     b\<lparr>RegisteredConversationEvents :=
       umap_del \<lparr>EventReceiverId = Receiver, RegEventName = StringFromNetworkEvent Conversation\<rparr> (RegisteredConversationEvents b)\<rparr>"

definition StopListenSequenceChangedEvent :: "string \<Rightarrow> event_bus \<Rightarrow> event_bus" where
  "StopListenSequenceChangedEvent Receiver b =
     b\<lparr>RegisteredSequenceChangedEvents :=
       umap_del \<lparr>EventReceiverId = Receiver, RegEventName = StringFromNetworkEvent SequenceChanged\<rparr>
         (RegisteredSequenceChangedEvents b)\<rparr>"

text \<open>The registrations of the receiver are collected first, then removed one by one.\<close>

definition StopListenMatchingEventReceivers ::
  "string \<Rightarrow> (event_bus \<Rightarrow> registrations) \<Rightarrow> (NetworkEventRegistration \<Rightarrow> event_bus \<Rightarrow> event_bus) \<Rightarrow> event_bus \<Rightarrow> event_bus" where
  "StopListenMatchingEventReceivers Receiver RegisteredEvents StopListenAction b =
     (let RegistrationsToRemove = filter (\<lambda>r. EventReceiverId r = Receiver) (map fst (RegisteredEvents b))
      in fold StopListenAction RegistrationsToRemove b)"

definition StopListenAllNetworkEvents :: "string \<Rightarrow> event_bus \<Rightarrow> event_bus" where
  "StopListenAllNetworkEvents Receiver b =
     (let b = StopListenMatchingEventReceivers Receiver RegisteredCustomEvents
            (\<lambda>r. StopListenCustomNetworkEvent (EventReceiverId r) (RegEventName r)) b;
          b = StopListenMatchingEventReceivers Receiver RegisteredAccessControlChangedEvents
            (\<lambda>r. StopListenAccessControlChangedEvent (EventReceiverId r)) b;
          b = StopListenMatchingEventReceivers Receiver RegisteredAssetDetailBlobChangedEvents
            (\<lambda>r. StopListenAssetDetailBlobChangedEvent (EventReceiverId r)) b;
          b = StopListenMatchingEventReceivers Receiver RegisteredAsyncCallCompletedEvents
            (\<lambda>r. StopListenAsyncCallCompletedEvent (EventReceiverId r) (RegEventName r)) b;
          b = StopListenMatchingEventReceivers Receiver RegisteredConversationEvents
            (\<lambda>r. StopListenConversationEvent (EventReceiverId r)) b
      in StopListenMatchingEventReceivers Receiver RegisteredSequenceChangedEvents
            (\<lambda>r. StopListenSequenceChangedEvent (EventReceiverId r)) b)"

definition AllRegistrations :: "event_bus \<Rightarrow> NetworkEventRegistration list" where
  "AllRegistrations b =
     map fst (RegisteredCustomEvents b) @ map fst (RegisteredAccessControlChangedEvents b)
     @ map fst (RegisteredAssetDetailBlobChangedEvents b) @ map fst (RegisteredAsyncCallCompletedEvents b)
     @ map fst (RegisteredConversationEvents b) @ map fst (RegisteredSequenceChangedEvents b)"

section \<open>Dispatching\<close>

datatype event_call =
    GeneralCall network_event
  | AssetCall asset_event
  | ConversationCall conversation_event
  | SequenceCall sequence_event
  | AccessCall access_event
  | AsyncCall async_call_event

text \<open>Whatever is thrown while an event is parsed is caught, and the event is not dispatched.\<close>

definition TryDeserializeEventData :: "event_error + 'a \<Rightarrow> event_error + 'a option" where
  "TryDeserializeEventData r =
     (case r of Inr x \<Rightarrow> Inr (Some x) | Inl e \<Rightarrow> if e = Event_undefined then Inl e else Inr None)"

definition call_all :: "registrations \<Rightarrow> event_call \<Rightarrow> (callback \<times> event_call) list" where
  "call_all Registered d = map (\<lambda>(Registration, Callback). (Callback, d)) Registered"

definition call_named :: "registrations \<Rightarrow> string \<Rightarrow> event_call \<Rightarrow> (callback \<times> event_call) list" where
  "call_named Registered Name d =
     map (\<lambda>(Registration, Callback). (Callback, d)) (filter (\<lambda>(Registration, Callback). String_eq (RegEventName Registration) Name) Registered)"

definition dispatch_event ::
  "registrations \<Rightarrow> event_error + 'a \<Rightarrow> ('a \<Rightarrow> (callback \<times> event_call) list) \<Rightarrow> event_error + (callback \<times> event_call) list" where
  "dispatch_event Registered r calls =
     (if length Registered > 0 then
        rbind (TryDeserializeEventData r) (\<lambda>d. case d of Some x \<Rightarrow> Inr (calls x) | None \<Rightarrow> Inr [])
      else Inr [])"

text \<open>A key of a hotspot sequence is taken apart.\<close>

definition hotspot_event :: "sequence_event \<Rightarrow> sequence_event" where
  "hotspot_event d =
     (if String_eq (GetSequenceKeyIndex (SequenceKey d) 0) ''Hotspots''
      then d\<lparr>SequenceType := HotspotSequence, SequenceSpaceId := GetSequenceKeyIndex (SequenceKey d) 1,
             SequenceKey := GetSequenceKeyIndex (SequenceKey d) 2, NewKey := GetSequenceKeyIndex (NewKey d) 2\<rparr>
      else d)"

definition EventDispatchCallback :: "event_bus \<Rightarrow> sig_value \<Rightarrow> event_error + (callback \<times> event_call) list" where
  "EventDispatchCallback b Result =
     (case Result of
        SArr (SArr (SStr Name # Rest) # _) \<Rightarrow>
          let Values = SStr Name # Rest; EventTypeStr = c_str Name
          in (case NetworkEventFromString EventTypeStr of
                AssetDetailBlobChanged \<Rightarrow>
                  dispatch_event (RegisteredAssetDetailBlobChangedEvents b) (DeserializeAssetDetailBlobChangedEvent Values)
                    (\<lambda>d. call_all (RegisteredAssetDetailBlobChangedEvents b) (AssetCall d))
              | Conversation \<Rightarrow>
                  dispatch_event (RegisteredConversationEvents b) (DeserializeConversationEvent Values)
                    (\<lambda>d. call_all (RegisteredConversationEvents b) (ConversationCall d))
              | SequenceChanged \<Rightarrow>
                  dispatch_event (RegisteredSequenceChangedEvents b) (DeserializeSequenceChangedEvent Values)
                    (\<lambda>d. call_all (RegisteredSequenceChangedEvents b) (SequenceCall (hotspot_event d)))
              | AccessControlChanged \<Rightarrow>
                  dispatch_event (RegisteredAccessControlChangedEvents b) (DeserializeAccessControlChangedEvent Values)
                    (\<lambda>d. call_all (RegisteredAccessControlChangedEvents b) (AccessCall d))
              | AsyncCallCompleted \<Rightarrow>
                  dispatch_event (RegisteredAsyncCallCompletedEvents b) (DeserializeAsyncCallCompletedEvent Values)
                    (\<lambda>d. call_named (RegisteredAsyncCallCompletedEvents b) (OperationName d) (AsyncCall d))
              | GeneralPurposeEvent \<Rightarrow>
                  dispatch_event (RegisteredCustomEvents b) (DeserializeGeneralPurposeEvent Values)
                    (\<lambda>d. call_named (RegisteredCustomEvents b) EventTypeStr (GeneralCall d)))
      | _ \<Rightarrow> Inr [])"

section \<open>The registrations\<close>

text \<open>The name every registration of a kind has, for the kinds with one fixed name.\<close>

definition fixed_name :: "registrations \<Rightarrow> NetworkEvent \<Rightarrow> bool" where
  "fixed_name m K \<longleftrightarrow> (\<forall>r \<in> fst ` set m. RegEventName r = StringFromNetworkEvent K)"

definition registrations_ok :: "registrations \<Rightarrow> bool" where
  "registrations_ok m \<longleftrightarrow> umap_ok m \<and> (\<forall>r \<in> fst ` set m. EventReceiverId r \<noteq> [] \<and> RegEventName r \<noteq> [])"

definition bus_ok :: "event_bus \<Rightarrow> bool" where
  "bus_ok b \<longleftrightarrow> registrations_ok (RegisteredCustomEvents b) \<and> registrations_ok (RegisteredAsyncCallCompletedEvents b)
     \<and> registrations_ok (RegisteredAccessControlChangedEvents b) \<and> fixed_name (RegisteredAccessControlChangedEvents b) AccessControlChanged
     \<and> registrations_ok (RegisteredAssetDetailBlobChangedEvents b) \<and> fixed_name (RegisteredAssetDetailBlobChangedEvents b) AssetDetailBlobChanged
     \<and> registrations_ok (RegisteredConversationEvents b) \<and> fixed_name (RegisteredConversationEvents b) Conversation
     \<and> registrations_ok (RegisteredSequenceChangedEvents b) \<and> fixed_name (RegisteredSequenceChangedEvents b) SequenceChanged"

lemma register_cases:
  obtains "RegisterEventCallback r n c m = m"
  | cb where "RegisterEventCallback r n c m = umap_upd \<lparr>EventReceiverId = r, RegEventName = n\<rparr> cb m" "r \<noteq> []" "n \<noteq> []"
  by (cases c; cases "n = [] \<or> r = [] \<or> map_of m \<lparr>EventReceiverId = r, RegEventName = n\<rparr> \<noteq> None")
    (auto simp: RegisterEventCallback_def Let_def)

lemma registrations_ok_register: "registrations_ok m \<Longrightarrow> registrations_ok (RegisterEventCallback r n c m)"
  by (rule register_cases [of r n c m]) (simp_all add: registrations_ok_def keys_umap_upd del: ball_simps(9))

lemma fixed_name_register: "fixed_name m K \<Longrightarrow> fixed_name (RegisterEventCallback r (StringFromNetworkEvent K) c m) K"
  by (rule register_cases [of r "StringFromNetworkEvent K" c m]) (simp_all add: fixed_name_def keys_umap_upd del: ball_simps(9))

lemma registrations_ok_del: "registrations_ok m \<Longrightarrow> registrations_ok (umap_del r m)"
  by (auto simp: registrations_ok_def keys_umap_del)

lemma fixed_name_del: "fixed_name m K \<Longrightarrow> fixed_name (umap_del r m) K"
  by (auto simp: fixed_name_def keys_umap_del)

lemmas bus_op_defs = ListenCustomNetworkEvent_def ListenAccessControlChangedEvent_def ListenAssetDetailBlobChangedEvent_def
  ListenAsyncCallCompletedEvent_def ListenConversationEvent_def ListenSequenceChangedEvent_def
  StopListenCustomNetworkEvent_def StopListenAccessControlChangedEvent_def StopListenAssetDetailBlobChangedEvent_def
  StopListenAsyncCallCompletedEvent_def StopListenConversationEvent_def StopListenSequenceChangedEvent_def

text \<open>The operations of the bus, as a client can call them.\<close>

datatype bus_op =
    OpListenCustom string string "callback option"
  | OpListenAsyncCall string string "callback option"
  | OpListen NetworkEvent string "callback option"
  | OpStopCustom string string
  | OpStopAsyncCall string string
  | OpStop NetworkEvent string
  | OpStopAll string

fun run_bus_op :: "bus_op \<Rightarrow> event_bus \<Rightarrow> event_bus" where
  "run_bus_op (OpListenCustom r n c) b = ListenCustomNetworkEvent r n c b"
| "run_bus_op (OpListenAsyncCall r n c) b = ListenAsyncCallCompletedEvent r n c b"
| "run_bus_op (OpListen K r c) b =
     (case K of AccessControlChanged \<Rightarrow> ListenAccessControlChangedEvent r c b
      | AssetDetailBlobChanged \<Rightarrow> ListenAssetDetailBlobChangedEvent r c b
      | Conversation \<Rightarrow> ListenConversationEvent r c b
      | SequenceChanged \<Rightarrow> ListenSequenceChangedEvent r c b
      | _ \<Rightarrow> b)"
| "run_bus_op (OpStopCustom r n) b = StopListenCustomNetworkEvent r n b"
| "run_bus_op (OpStopAsyncCall r n) b = StopListenAsyncCallCompletedEvent r n b"
| "run_bus_op (OpStop K r) b =
     (case K of AccessControlChanged \<Rightarrow> StopListenAccessControlChangedEvent r b
      | AssetDetailBlobChanged \<Rightarrow> StopListenAssetDetailBlobChangedEvent r b
      | Conversation \<Rightarrow> StopListenConversationEvent r b
      | SequenceChanged \<Rightarrow> StopListenSequenceChangedEvent r b
      | _ \<Rightarrow> b)"
| "run_bus_op (OpStopAll r) b = StopListenAllNetworkEvents r b"

section \<open>Removing all registrations of a receiver\<close>

definition others :: "string \<Rightarrow> registrations \<Rightarrow> registrations" where
  "others r m = filter (\<lambda>kv. EventReceiverId (fst kv) \<noteq> r) m"

lemma fold_umap_del: "fold umap_del ks m = filter (\<lambda>kv. fst kv \<notin> set ks) m"
  by (induction ks arbitrary: m) (auto simp: umap_del_def intro!: filter_cong)

lemma del_matching:
  "fold umap_del (filter (\<lambda>k. EventReceiverId k = r) (map fst m)) m = others r m"
  unfolding fold_umap_del others_def by (rule filter_cong) auto

text \<open>Removing by receiver and fixed name is removing the registration itself.\<close>

lemma fold_field:
  assumes "\<And>k b. k \<in> set ks \<Longrightarrow> step k b = put (umap_del k (get b)) b"
    "\<And>m b. get (put m b) = m" "\<And>m m' b. put m (put m' b) = put m b" "\<And>b. put (get b) b = b"
  shows "fold step ks b = put (fold umap_del ks (get b)) b"
  using assms(1) by (induction ks arbitrary: b) (simp_all add: assms(2-4))

lemma registration_eta: "\<lparr>EventReceiverId = EventReceiverId r, RegEventName = RegEventName r\<rparr> = r"
  by simp

lemma stop_matching:
  assumes "\<And>k b. k \<in> fst ` set (get b0) \<Longrightarrow> step k b = put (umap_del k (get b)) b"
    "\<And>m b. get (put m b) = m" "\<And>m m' b. put m (put m' b) = put m b" "\<And>b. put (get b) b = b"
  shows "StopListenMatchingEventReceivers r get step b0 = put (others r (get b0)) b0"
  unfolding StopListenMatchingEventReceivers_def Let_def del_matching [symmetric]
  by (rule fold_field) (use assms in auto)

lemma StopListenAll_others:
  assumes "bus_ok b"
  shows "StopListenAllNetworkEvents r b =
    b\<lparr>RegisteredCustomEvents := others r (RegisteredCustomEvents b),
      RegisteredAccessControlChangedEvents := others r (RegisteredAccessControlChangedEvents b),
      RegisteredAssetDetailBlobChangedEvents := others r (RegisteredAssetDetailBlobChangedEvents b),
      RegisteredAsyncCallCompletedEvents := others r (RegisteredAsyncCallCompletedEvents b),
      RegisteredConversationEvents := others r (RegisteredConversationEvents b),
      RegisteredSequenceChangedEvents := others r (RegisteredSequenceChangedEvents b)\<rparr>"
proof -
  have f: "fixed_name m K \<Longrightarrow> k \<in> fst ` set m
      \<Longrightarrow> \<lparr>EventReceiverId = EventReceiverId k, RegEventName = StringFromNetworkEvent K\<rparr> = k" for m K k
    by (auto simp: fixed_name_def intro: NetworkEventRegistration.equality)
  have custom: "StopListenMatchingEventReceivers r RegisteredCustomEvents
      (\<lambda>k. StopListenCustomNetworkEvent (EventReceiverId k) (RegEventName k)) b0
    = b0\<lparr>RegisteredCustomEvents := others r (RegisteredCustomEvents b0)\<rparr>" for b0
    by (rule stop_matching) (simp_all add: StopListenCustomNetworkEvent_def registration_eta)
  have async: "StopListenMatchingEventReceivers r RegisteredAsyncCallCompletedEvents
      (\<lambda>k. StopListenAsyncCallCompletedEvent (EventReceiverId k) (RegEventName k)) b0
    = b0\<lparr>RegisteredAsyncCallCompletedEvents := others r (RegisteredAsyncCallCompletedEvents b0)\<rparr>" for b0
    by (rule stop_matching) (simp_all add: StopListenAsyncCallCompletedEvent_def registration_eta)
  have access: "StopListenMatchingEventReceivers r RegisteredAccessControlChangedEvents
      (\<lambda>k. StopListenAccessControlChangedEvent (EventReceiverId k)) b0
    = b0\<lparr>RegisteredAccessControlChangedEvents := others r (RegisteredAccessControlChangedEvents b0)\<rparr>"
    if "fixed_name (RegisteredAccessControlChangedEvents b0) AccessControlChanged" for b0
    by (rule stop_matching) (simp_all add: StopListenAccessControlChangedEvent_def f [OF that])
  have asset: "StopListenMatchingEventReceivers r RegisteredAssetDetailBlobChangedEvents
      (\<lambda>k. StopListenAssetDetailBlobChangedEvent (EventReceiverId k)) b0
    = b0\<lparr>RegisteredAssetDetailBlobChangedEvents := others r (RegisteredAssetDetailBlobChangedEvents b0)\<rparr>"
    if "fixed_name (RegisteredAssetDetailBlobChangedEvents b0) AssetDetailBlobChanged" for b0
    by (rule stop_matching) (simp_all add: StopListenAssetDetailBlobChangedEvent_def f [OF that])
  have conv: "StopListenMatchingEventReceivers r RegisteredConversationEvents
      (\<lambda>k. StopListenConversationEvent (EventReceiverId k)) b0
    = b0\<lparr>RegisteredConversationEvents := others r (RegisteredConversationEvents b0)\<rparr>"
    if "fixed_name (RegisteredConversationEvents b0) Conversation" for b0
    by (rule stop_matching) (simp_all add: StopListenConversationEvent_def f [OF that])
  have sequ: "StopListenMatchingEventReceivers r RegisteredSequenceChangedEvents
      (\<lambda>k. StopListenSequenceChangedEvent (EventReceiverId k)) b0
    = b0\<lparr>RegisteredSequenceChangedEvents := others r (RegisteredSequenceChangedEvents b0)\<rparr>"
    if "fixed_name (RegisteredSequenceChangedEvents b0) SequenceChanged" for b0
    by (rule stop_matching) (simp_all add: StopListenSequenceChangedEvent_def f [OF that])
  show ?thesis
    using assms by (simp add: bus_ok_def StopListenAllNetworkEvents_def custom async access asset conv sequ)
qed

lemma bus_ok_others:
  "registrations_ok m \<Longrightarrow> registrations_ok (others r m)" "fixed_name m K \<Longrightarrow> fixed_name (others r m) K"
  by (auto simp: registrations_ok_def fixed_name_def others_def distinct_map_filter)

lemma bus_ok_op: "bus_ok b \<Longrightarrow> bus_ok (run_bus_op op b)"
  by (cases op)
    (auto simp: bus_ok_def bus_op_defs registrations_ok_register fixed_name_register registrations_ok_del fixed_name_del
      StopListenAll_others bus_ok_others split: NetworkEvent.split)

lemma bus_ok_run: "bus_ok b \<Longrightarrow> bus_ok (fold run_bus_op ops b)"
  by (induction ops arbitrary: b) (simp_all add: bus_ok_op)

lemma bus_ok_new: "bus_ok new_bus"
  by (simp add: bus_ok_def new_bus_def registrations_ok_def fixed_name_def)

text \<open>
  \<open>StopListenAllNetworkEvents\<close> removes exactly the registrations of the receiver: after any
  sequence of operations on a new bus, the registrations left, of all kinds, are those of the other
  receivers, in the order they had.
\<close>

theorem stop_listen_all_is_exact:
  "AllRegistrations (StopListenAllNetworkEvents r (fold run_bus_op ops new_bus))
     = filter (\<lambda>k. EventReceiverId k \<noteq> r) (AllRegistrations (fold run_bus_op ops new_bus))"
proof -
  have "map fst (others r m) = filter (\<lambda>k. EventReceiverId k \<noteq> r) (map fst m)" for m
    by (induction m) (auto simp: others_def)
  then show ?thesis by (simp add: StopListenAll_others [OF bus_ok_run [OF bus_ok_new]] AllRegistrations_def)
qed

end
