(* ===== verification/Network_Delivery.thy ===== *)
theory Network_Delivery
  imports Network_Event_Bus
begin

text \<open>
  Network events end to end: what the sender of \<open>src/Multiplayer/NetworkEventManagerImpl.cpp\<close> sends, put
  through the hub protocol and dispatched by the bus of the receiver, and the two places where an event
  does not arrive as it was meant.
\<close>

section \<open>From the sender to the listeners\<close>

definition arguments_enc :: "nat \<Rightarrow> rep_value list \<Rightarrow> (u64 \<times> sig_value) list" where
  "arguments_enc i vs = map (\<lambda>(j, v). (of_nat j, event_enc v)) (zip [i..<i + length vs] vs)"

lemma arguments_enc_Cons: "arguments_enc i (v # vs) = (of_nat i, event_enc v) # arguments_enc (Suc i) vs"
  by (simp add: arguments_enc_def upt_rec)

lemma serialise_arguments_enc:
  "\<forall>v \<in> set vs. rv_valid v \<Longrightarrow> serialise_arguments i vs = Inr (arguments_enc i vs)"
  by (induction vs arbitrary: i) (simp_all add: arguments_enc_Cons serialise_enc arguments_enc_def [of _ "[]"])

lemma parse_components_received:
  "\<forall>v \<in> set vs. rv_valid v \<Longrightarrow> parse_components (map (map_prod id wire) (arguments_enc i vs)) = Inr (map received vs)"
proof (induction vs arbitrary: i)
  case (Cons v vs)
  then show ?case using Cons.IH [of "Suc i"] by (simp add: arguments_enc_Cons parse_received id_def)
qed (simp add: arguments_enc_def)

lemma arguments_enc_Nil: "arguments_enc i vs = [] \<longleftrightarrow> vs = []"
  by (cases vs) (simp_all add: arguments_enc_def upt_rec)

lemma PopulateCommonEventData_received:
  assumes "\<forall>v \<in> set vs. rv_valid v" "nul_free name"
  shows "PopulateCommonEventData [SStr name, SUint cid, t, wire (SUMap (arguments_enc 0 vs))]
    = Inr \<lparr>EventName = name, SenderClientId = cid, EventValues = map received vs\<rparr>"
  using assms parse_components_received [of vs 0] by (simp add: PopulateCommonEventData_def vec_at_def as_defs arguments_enc_Nil)

text \<open>The event that arrives of one that was sent.\<close>

definition sent_event :: "string \<Rightarrow> u64 \<Rightarrow> rep_value list \<Rightarrow> network_event" where
  "sent_event name cid vs = \<lparr>EventName = name, SenderClientId = cid, EventValues = map received vs\<rparr>"

definition custom_listeners :: "event_bus \<Rightarrow> string \<Rightarrow> callback list" where
  "custom_listeners b name = map snd (filter (\<lambda>(r, cb). RegEventName r = name) (RegisteredCustomEvents b))"

text \<open>
  An event sent under a name the library does not reserve reaches, through the hub, the callbacks that
  are registered under this name and no others, each once; of each argument \<open>received\<close> says what
  arrives.
\<close>

lemma event_reaches_its_listeners:
  assumes "nul_free name" "NetworkEventFromString name = GeneralPurposeEvent" "\<forall>v \<in> set vs. rv_valid v"
    "\<forall>r \<in> fst ` set (RegisteredCustomEvents b). nul_free (RegEventName r)"
  shows "\<exists>params. SendNetworkEvent True cid name vs target = Inr (Send_invoked params)
    \<and> EventDispatchCallback b (wire params)
      = Inr (map (\<lambda>cb. (cb, GeneralCall (sent_event name cid vs))) (custom_listeners b name))"
proof -
  let ?m = "event_message name cid target (arguments_enc 0 vs)"
  have send: "SendNetworkEvent True cid name vs target = Inr (Send_invoked (SArr [?m]))"
    using assms(3) by (simp add: SendNetworkEvent_def serialise_arguments_enc)
  obtain t where m: "wire ?m = SArr [SStr name, SUint cid, t, wire (SUMap (arguments_enc 0 vs))]"
    using assms(1) by (simp add: event_message_def del: wire.simps(9))
  have parsed: "DeserializeGeneralPurposeEvent [SStr name, SUint cid, t, wire (SUMap (arguments_enc 0 vs))] = Inr (sent_event name cid vs)"
    using PopulateCommonEventData_received [OF assms(3,1)] by (simp add: DeserializeGeneralPurposeEvent_def sent_event_def)
  have named: "call_named (RegisteredCustomEvents b) name d = map (\<lambda>cb. (cb, d)) (custom_listeners b name)" for d
    using assms(1,4) unfolding call_named_def custom_listeners_def
    by (induction "RegisteredCustomEvents b") (auto simp: String_eq_iff split_beta intro!: map_cong filter_cong)
  have "EventDispatchCallback b (wire (SArr [?m]))
    = dispatch_event (RegisteredCustomEvents b) (Inr (sent_event name cid vs))
        (\<lambda>d. call_named (RegisteredCustomEvents b) name (GeneralCall d))"
    using assms(1,2) parsed by (simp add: EventDispatchCallback_def m Let_def del: wire.simps(9))
  also have "\<dots> = Inr (call_named (RegisteredCustomEvents b) name (GeneralCall (sent_event name cid vs)))"
    by (auto simp: dispatch_event_def TryDeserializeEventData_def call_named_def)
  finally show ?thesis using send named by simp
qed

text \<open>
  What the client may think of its custom registrations: a callback per receiver and name. The first
  one counts until it is removed, alone or with all of its receiver.
\<close>

type_synonym listeners = "string \<times> string \<Rightarrow> callback option"

fun spec_bus_op :: "bus_op \<Rightarrow> listeners \<Rightarrow> listeners" where
  "spec_bus_op (OpListenCustom r n c) f = (if n = [] \<or> r = [] \<or> c = None \<or> f (r, n) \<noteq> None then f else f((r, n) := c))"
| "spec_bus_op (OpStopCustom r n) f = f((r, n) := None)"
| "spec_bus_op (OpStopAll r) f = (\<lambda>(r', n). if r' = r then None else f (r', n))"
| "spec_bus_op _ f = f"

fun name_ok :: "bus_op \<Rightarrow> bool" where
  "name_ok (OpListenCustom r n c) = nul_free n"
| "name_ok _ = True"

definition registered :: "event_bus \<Rightarrow> listeners" where
  "registered b = (\<lambda>(r, n). map_of (RegisteredCustomEvents b) \<lparr>EventReceiverId = r, RegEventName = n\<rparr>)"

lemma map_of_others: "map_of (others r m) k = (if EventReceiverId k = r then None else map_of m k)"
  by (induction m) (auto simp: others_def)

lemma run_bus_op_registered: "bus_ok b \<Longrightarrow> registered (run_bus_op op b) = spec_bus_op op (registered b)"
  by (cases op)
    (auto simp: registered_def fun_eq_iff bus_op_defs RegisterEventCallback_def Let_def StopListenAll_others map_of_others
      split: NetworkEvent.split option.split)

lemma fold_bus_op_registered:
  "bus_ok b \<Longrightarrow> registered (fold run_bus_op ops b) = fold spec_bus_op ops (registered b)"
  by (induction ops arbitrary: b) (simp_all add: bus_ok_op run_bus_op_registered)

lemma fold_bus_op_names:
  assumes "bus_ok b" "\<forall>op \<in> set ops. name_ok op" "\<forall>k. map_of (RegisteredCustomEvents b) k \<noteq> None \<longrightarrow> nul_free (RegEventName k)"
  shows "\<forall>k. map_of (RegisteredCustomEvents (fold run_bus_op ops b)) k \<noteq> None \<longrightarrow> nul_free (RegEventName k)"
  using assms
proof (induction ops arbitrary: b)
  case (Cons op ops)
  have "nul_free (RegEventName k)" if "map_of (RegisteredCustomEvents (run_bus_op op b)) k \<noteq> None" for k
  proof -
    obtain r n where k: "k = \<lparr>EventReceiverId = r, RegEventName = n\<rparr>" by (cases k) auto
    then have "spec_bus_op op (registered b) (r, n) \<noteq> None"
      using that run_bus_op_registered [OF Cons.prems(1), of op] by (metis (mono_tags, lifting) case_prod_conv registered_def)
    then have "registered b (r, n) \<noteq> None \<or> nul_free n"
      using Cons.prems(2) by (cases op) (auto split: if_split_asm)
    then show ?thesis using Cons.prems(3) k by (auto simp: registered_def)
  qed
  then show ?case using Cons.IH [of "run_bus_op op b"] Cons.prems by (simp add: bus_ok_op)
qed simp

lemma listeners_of_registered:
  assumes "umap_ok (RegisteredCustomEvents b)"
  shows "\<exists>regs. custom_listeners b name = map snd regs \<and> distinct (map fst regs)
    \<and> (\<forall>r cb. (r, cb) \<in> set regs \<longleftrightarrow> registered b (r, name) = Some cb)"
proof (intro exI conjI)
  let ?m = "filter (\<lambda>(r, cb). RegEventName r = name) (RegisteredCustomEvents b)"
  let ?regs = "map (\<lambda>(k, cb). (EventReceiverId k, cb)) ?m"
  show "custom_listeners b name = map snd ?regs" by (simp add: custom_listeners_def case_prod_beta comp_def)
  have d: "distinct (map fst ?m)" using assms by (rule distinct_map_filter)
  have n: "\<forall>k \<in> set (map fst ?m). RegEventName k = name" by auto
  have "inj_on EventReceiverId (set (map fst ?m))"
    using n by (intro inj_onI) (metis NetworkEventRegistration.equality old.unit.exhaust)
  then have "distinct (map EventReceiverId (map fst ?m))" using d unfolding distinct_map [of EventReceiverId] by blast
  moreover have "map fst ?regs = map EventReceiverId (map fst ?m)" by (simp add: case_prod_beta comp_def)
  ultimately show "distinct (map fst ?regs)" by (simp only:)
  have "(r, cb) \<in> set ?regs \<longleftrightarrow> registered b (r, name) = Some cb" for r cb
  proof -
    have "(r, cb) \<in> set ?regs \<longleftrightarrow> (\<lparr>EventReceiverId = r, RegEventName = name\<rparr>, cb) \<in> set (RegisteredCustomEvents b)"
    proof -
      have k: "EventReceiverId k = r \<and> RegEventName k = name \<longleftrightarrow> k = \<lparr>EventReceiverId = r, RegEventName = name\<rparr>" for k
        by (cases k) auto
      have "(r, cb) \<in> set ?regs \<longleftrightarrow>
          (\<exists>k. (k, cb) \<in> set (RegisteredCustomEvents b) \<and> EventReceiverId k = r \<and> RegEventName k = name)"
        by (simp add: image_iff case_prod_beta Bex_def split_paired_Ex) blast
      then show ?thesis unfolding k by blast
    qed
    then show ?thesis using assms by (simp add: registered_def)
  qed
  then show "\<forall>r cb. (r, cb) \<in> set ?regs \<longleftrightarrow> registered b (r, name) = Some cb" by blast
qed

text \<open>Which arguments arrive as they were sent.\<close>

fun arrives_intact :: "rep_value \<Rightarrow> bool" and map_arrives_intact :: "(string \<times> rep_value) list \<Rightarrow> bool" where
  "arrives_intact (RepVal i t) =
     (case i of VVec2 x y \<Rightarrow> False | VMap m \<Rightarrow> m \<noteq> [] \<and> map_arrives_intact m | _ \<Rightarrow> True)"
| "map_arrives_intact [] = True"
| "map_arrives_intact (kv # m) = (arrives_intact (snd kv) \<and> map_arrives_intact m)"

lemma received_intact:
  "rv_valid v \<Longrightarrow> received v = v \<longleftrightarrow> arrives_intact v"
  "map_valid m \<Longrightarrow> received_map m = m \<longleftrightarrow> map_arrives_intact m"
proof (induction v and m rule: arrives_intact_map_arrives_intact.induct)
  case (1 i t)
  then show ?case by (cases i) (auto simp: RV_default_def)
qed (auto simp: prod_eq_iff)

lemma sent_event_intact:
  "\<forall>v \<in> set vs. rv_valid v \<Longrightarrow>
    sent_event name cid vs = \<lparr>EventName = name, SenderClientId = cid, EventValues = vs\<rparr> \<longleftrightarrow> (\<forall>v \<in> set vs. arrives_intact v)"
  by (induction vs) (auto simp: sent_event_def received_intact(1))

text \<open>
  C13. Whatever was registered and removed on the bus before, an event that a client sends under a
  name the library does not reserve reaches, through the hub, exactly the receivers whose
  registration for this name stands, each once through the callback it registered, with the name
  and the sender. The arguments arrive as \<open>received\<close> says, which is the values that were sent
  exactly when no Vector2 and no empty map is among them: those arrive as invalid values. Names
  have no NUL, and the values are such as the library's own constructors make.
\<close>

theorem custom_events_are_delivered:
  assumes "nul_free name" "NetworkEventFromString name = GeneralPurposeEvent" "\<forall>v \<in> set vs. rv_valid v"
    "\<forall>op \<in> set ops. name_ok op"
  shows "\<exists>params regs. SendNetworkEvent True cid name vs target = Inr (Send_invoked params)
    \<and> EventDispatchCallback (fold run_bus_op ops new_bus) (wire params)
      = Inr (map (\<lambda>(r, cb). (cb, GeneralCall (sent_event name cid vs))) regs)
    \<and> distinct (map fst regs)
    \<and> (\<forall>r cb. (r, cb) \<in> set regs \<longleftrightarrow> fold spec_bus_op ops (\<lambda>_. None) (r, name) = Some cb)
    \<and> (sent_event name cid vs = \<lparr>EventName = name, SenderClientId = cid, EventValues = vs\<rparr>
       \<longleftrightarrow> (\<forall>v \<in> set vs. arrives_intact v))"
proof -
  let ?b = "fold run_bus_op ops new_bus"
  have ok: "bus_ok ?b" by (rule bus_ok_run [OF bus_ok_new])
  have empty: "registered new_bus = (\<lambda>_. None)" by (auto simp: registered_def new_bus_def)
  have f: "registered ?b = fold spec_bus_op ops (\<lambda>_. None)"
    using fold_bus_op_registered [OF bus_ok_new, of ops] unfolding empty .
  have nf: "\<forall>r \<in> fst ` set (RegisteredCustomEvents ?b). nul_free (RegEventName r)"
    using fold_bus_op_names [OF bus_ok_new assms(4)] by (force simp: new_bus_def map_of_eq_None_iff)
  obtain params where p: "SendNetworkEvent True cid name vs target = Inr (Send_invoked params)"
    "EventDispatchCallback ?b (wire params) = Inr (map (\<lambda>cb. (cb, GeneralCall (sent_event name cid vs))) (custom_listeners ?b name))"
    using event_reaches_its_listeners [OF assms(1-3) nf] by blast
  obtain regs where "custom_listeners ?b name = map snd regs" "distinct (map fst regs)"
    "\<forall>r cb. (r, cb) \<in> set regs \<longleftrightarrow> registered ?b (r, name) = Some cb"
    using listeners_of_registered [of ?b name] ok by (auto simp: bus_ok_def registrations_ok_def)
  then show ?thesis using p sent_event_intact [OF assms(3)] unfolding f
    by (intro exI [of _ params] exI [of _ regs]) (simp add: case_prod_beta comp_def)
qed

lemma custom_events_are_delivered_witness:
  "let ops = [OpListenCustom ''me'' ''jump'' (Some 4), OpListenCustom ''you'' ''jump'' (Some 5), OpStopAll ''me''];
       vs = [RV_int 3, RV_vector3 1 2 3, RV_string ''s'']
   in \<exists>params regs. SendNetworkEvent True 7 ''jump'' vs ALL_CLIENTS_ID = Inr (Send_invoked params)
     \<and> EventDispatchCallback (fold run_bus_op ops new_bus) (wire params)
       = Inr (map (\<lambda>(r, cb). (cb, GeneralCall \<lparr>EventName = ''jump'', SenderClientId = 7, EventValues = vs\<rparr>)) regs)
     \<and> distinct (map fst regs)
     \<and> (\<forall>r cb. (r, cb) \<in> set regs \<longleftrightarrow> fold spec_bus_op ops (\<lambda>_. None) (r, ''jump'') = Some cb)"
proof -
  let ?ops = "[OpListenCustom ''me'' ''jump'' (Some 4), OpListenCustom ''you'' ''jump'' (Some 5), OpStopAll ''me'']"
  let ?vs = "[RV_int 3, RV_vector3 1 2 3, RV_string ''s'']"
  have h: "nul_free ''jump''" "NetworkEventFromString ''jump'' = GeneralPurposeEvent" "\<forall>v \<in> set ?vs. rv_valid v"
    "\<forall>op \<in> set ?ops. name_ok op" "\<forall>v \<in> set ?vs. arrives_intact v"
    by (simp_all add: rv_constructors f32_quiet_def f32_nan_def f32_exp_def NetworkEventFromString_def
        CustomDeserializationEventMap_def String_eq_def)
  note t = custom_events_are_delivered [OF h(1-4), of 7 ALL_CLIENTS_ID]
  have "sent_event ''jump'' 7 ?vs = \<lparr>EventName = ''jump'', SenderClientId = 7, EventValues = ?vs\<rparr>" using t h(5) by blast
  then show ?thesis unfolding Let_def using t by (elim exE conjE) (rule exI, rule exI, simp)
qed

text \<open>A callback registered under a reserved name as a custom event is never called.\<close>

lemma reserved_names_never_fire:
  assumes "EventDispatchCallback b v = Inr calls" "(cb, GeneralCall d) \<in> set calls"
  shows "NetworkEventFromString (EventName d) = GeneralPurposeEvent"
proof -
  have general: "DeserializeGeneralPurposeEvent (SStr Name # Rest) = Inr d' \<Longrightarrow> EventName d' = c_str Name" for Name Rest d'
    by (auto simp: DeserializeGeneralPurposeEvent_def PopulateCommonEventData_def vec_at_def as_string_def result_simps split: if_splits)
  have call: "\<exists>x. r = Inr x \<and> calls = f x" if "dispatch_event m r f = Inr calls" "calls \<noteq> []" for m r f
    using that by (auto simp: dispatch_event_def TryDeserializeEventData_def rbind_Inr_iff split: if_splits option.splits sum.splits)
  have ne: "calls \<noteq> []" using assms(2) by auto
  obtain Name Rest T where v: "v = SArr (SArr (SStr Name # Rest) # T)"
    using assms ne by (auto simp: EventDispatchCallback_def split: sig_value.splits list.splits)
  show ?thesis
    using assms call [OF _ ne] general
    by (auto simp: v EventDispatchCallback_def Let_def call_all_def call_named_def split: NetworkEvent.splits dest!: call [OF _ ne])
qed

text \<open>
  A completed call without references is lost: the empty map has become null on the wire, the
  parser reads an invalid value and its getter throws.
\<close>

lemma completed_call_without_references_is_lost:
  "EventDispatchCallback b (wire (SArr [SArr [SStr ''AsyncCallCompleted'', SUint cid, SNull,
     SUMap [(0, item DT_STRING (SStr op)), (1, item DT_STRING_DICTIONARY (SSMap [])), (2, item DT_BOOL (SBool True)),
       (3, item DT_STRING (SStr []))]]])) = Inr []"
proof -
  have n: "NetworkEventFromString ''AsyncCallCompleted'' = AsyncCallCompleted"
    by (simp add: NetworkEventFromString_def CustomDeserializationEventMap_def String_eq_def c_str_def)
  have b: "ParseSignalRComponent DT_BOOL (SBool True) = Inr (RV_bool True)"
    by (simp add: ParseSignalRComponent.simps event_dt_defs as_defs)
  show ?thesis
    by (simp add: EventDispatchCallback_def n c_str_def Let_def dispatch_event_def DeserializeAsyncCallCompletedEvent_def
        PopulateCommonEventData_def vec_at_def as_defs wire_item parse_item b parse_basic event_string_def array_at_def
        rv_getters rv_get_def rv_constructors rv_throws_def TryDeserializeEventData_def)
qed

section \<open>Sequence events\<close>

text \<open>The event the service sends when a sequence has changed, its keys encoded.\<close>

definition sequence_message :: "u64 \<Rightarrow> u64 \<Rightarrow> string \<Rightarrow> string \<Rightarrow> sig_value" where
  "sequence_message sender update Key New = SArr [SArr [SStr ''SequenceChanged'', SUint sender, SNull,
     SUMap [(0, item DT_NULLABLE_INT64 (SInt update)), (1, item DT_STRING (SStr (Encode_URI Key False))),
       (2, item DT_STRING (SStr (Encode_URI New False)))]]]"

text \<open>
  When a hotspot group is renamed, every listener is told the space and the old and the new name
  of the group, taken out of the encoded keys - of a name that contains a colon, only the part before
  the first colon, while the hotspot system itself takes the whole name for the group's.
\<close>

theorem hotspot_renames_are_reported:
  assumes "ascii Space" "CHR '':'' \<notin> set Space" "ascii Group" "ascii Group'"
  shows "EventDispatchCallback b (wire (sequence_message sender update (CreateKey Group Space) (CreateKey Group' Space)))
    = Inr (map (\<lambda>(r, cb). (cb, SequenceCall
        \<lparr>EventName = ''SequenceChanged'', SenderClientId = sender,
         EventValues = [RV_int update, RV_string (Encode_URI (CreateKey Group Space) False),
           RV_string (Encode_URI (CreateKey Group' Space) False)],
         UpdateType = ESequenceUpdateIntToUpdateType update, SequenceType = HotspotSequence,
         SequenceKey = takeWhile (\<lambda>c. c \<noteq> CHR '':'') Group, NewKey = takeWhile (\<lambda>c. c \<noteq> CHR '':'') Group',
         SequenceSpaceId = Space\<rparr>)) (RegisteredSequenceChangedEvents b))"
proof -
  have a: "ascii (CreateKey g Space)" if "ascii g" for g using that assms(1) by (auto simp: CreateKey_eq ascii_def)
  have e: "c_str (Encode_URI (CreateKey g Space) False) = Encode_URI (CreateKey g Space) False"
    "Decode_URI (Encode_URI (CreateKey g Space) False) False = CreateKey g Space" if "ascii g" for g
    using Decode_Encode_URI [OF a [OF that], of False] by (simp_all add: ascii_nul_free)
  have n: "NetworkEventFromString ''SequenceChanged'' = SequenceChanged"
    by (simp add: NetworkEventFromString_def CustomDeserializationEventMap_def String_eq_def c_str_def)
  note k0 = GetSequenceKeyIndex_CreateKey [OF ascii_nul_free [OF assms(1)] assms(2) ascii_nul_free [OF assms(3)]]
    GetSequenceKeyIndex_CreateKey [OF ascii_nul_free [OF assms(1)] assms(2) ascii_nul_free [OF assms(4)]]
  note k = k0 [unfolded One_nat_def]
  show ?thesis
    by (simp add: sequence_message_def EventDispatchCallback_def n c_str_def [of "''SequenceChanged''"] Let_def dispatch_event_def
        DeserializeSequenceChangedEvent_def PopulateCommonEventData_def vec_at_def as_defs wire_item parse_item parse_basic
        event_int_def array_at_def DecodeSequenceKey_def rv_getters rv_get_def rv_constructors e assms(3,4)
        TryDeserializeEventData_def network_event.defs sequence_event.defs hotspot_event_def k String_eq_iff call_all_def split_beta
        del: wire.simps(3))
qed

lemma hotspot_renames_are_reported_witness:
  "let b = ListenSequenceChangedEvent ''me'' (Some 4) new_bus
   in \<exists>e. EventDispatchCallback b (wire (sequence_message 7 1 (CreateKey ''tour:1'' ''s'') (CreateKey ''walk'' ''s'')))
       = Inr [(4, SequenceCall e)] \<and> SequenceKey e = ''tour'' \<and> NewKey e = ''walk'' \<and> SequenceSpaceId e = ''s''"
  unfolding Let_def
  by (subst hotspot_renames_are_reported)
    (simp_all add: ascii_def ListenSequenceChangedEvent_def RegisterEventCallback_def StringFromNetworkEvent_def
      CustomDeserializationEventMap_def new_bus_def umap_upd_def Let_def)

end
