(* ===== verification/Leadership.thy ===== *)
theory Leadership
  imports Network_Delivery
begin

text \<open>
  Scope leadership (\<open>src/Multiplayer/Election/ScopeLeadershipManager.cpp\<close>) and what the online engine
  and the scripts of entities (\<open>src/Multiplayer/OnlineRealtimeEngine.cpp\<close>,
  \<open>src/Multiplayer/Script/EntityScript.cpp\<close>) do with it: the services elect one client per scope, which
  runs the scripts and keeps its leadership with heartbeats; the other clients send it the scripts
  to run as network events. Times are nanoseconds of the steady clock; what a client sends and runs
  is recorded in a log.
\<close>

section \<open>The leadership manager\<close>

record ScopeLeaderData =
  LeaderClientId :: u64
  LastHeartbeatTime :: nat

type_synonym scopes = "(string, ScopeLeaderData option) umap"

definition LeaderElectionHeartbeatInterval :: nat where "LeaderElectionHeartbeatInterval = 3000000000"

definition RegisterScope :: "string \<Rightarrow> u64 option \<Rightarrow> scopes \<Rightarrow> scopes" where
  "RegisterScope ScopeId LeaderId Scopes =
     (case LeaderId of
        Some i \<Rightarrow> umap_upd ScopeId (Some \<lparr>LeaderClientId = i, LastHeartbeatTime = 0\<rparr>) Scopes
      | None \<Rightarrow> umap_upd ScopeId None Scopes)"

definition DeregisterScope :: "string \<Rightarrow> scopes \<Rightarrow> scopes" where
  "DeregisterScope ScopeId Scopes = umap_del ScopeId Scopes"

definition Manager_OnElectedScopeLeader :: "string \<Rightarrow> u64 \<Rightarrow> scopes \<Rightarrow> scopes" where
  "Manager_OnElectedScopeLeader ScopeId ClientId Scopes =
     (case map_of Scopes ScopeId of
        None \<Rightarrow> Scopes
      | Some Data \<Rightarrow> umap_upd ScopeId (Some \<lparr>LeaderClientId = ClientId, LastHeartbeatTime = 0\<rparr>) Scopes)"

definition Manager_OnVacatedAsScopeLeader :: "string \<Rightarrow> scopes \<Rightarrow> scopes" where
  "Manager_OnVacatedAsScopeLeader ScopeId Scopes =
     (case map_of Scopes ScopeId of
        None \<Rightarrow> Scopes
      | Some Data \<Rightarrow> (if Data \<noteq> None then umap_upd ScopeId None Scopes else Scopes))"

definition GetLeaderClientId :: "string \<Rightarrow> scopes \<Rightarrow> u64 option" where
  "GetLeaderClientId ScopeId Scopes =
     (case map_of Scopes ScopeId of
        None \<Rightarrow> None
      | Some LeaderData \<Rightarrow> (case LeaderData of None \<Rightarrow> None | Some d \<Rightarrow> Some (LeaderClientId d)))"

definition Manager_IsLocalClientLeader :: "u64 \<Rightarrow> string \<Rightarrow> scopes \<Rightarrow> bool" where
  "Manager_IsLocalClientLeader ClientId ScopeId Scopes =
     (case GetLeaderClientId ScopeId Scopes of None \<Rightarrow> False | Some i \<Rightarrow> i = ClientId)"

text \<open>The walk over the scopes, at one current time: the heartbeats sent, and the scopes left.\<close>

fun heartbeat_walk :: "u64 \<Rightarrow> nat \<Rightarrow> scopes \<Rightarrow> scopes \<Rightarrow> string list \<times> scopes" where
  "heartbeat_walk ClientId CurrentTime Scopes [] = ([], [])"
| "heartbeat_walk ClientId CurrentTime Scopes ((ScopeId, LeaderData) # rest) =
     (let (beats, rest') = heartbeat_walk ClientId CurrentTime Scopes rest
      in case LeaderData of
           Some d \<Rightarrow>
             if Manager_IsLocalClientLeader ClientId ScopeId Scopes
               \<and> int CurrentTime - int (LastHeartbeatTime d) > int LeaderElectionHeartbeatInterval
             then (ScopeId # beats, (ScopeId, Some (d\<lparr>LastHeartbeatTime := CurrentTime\<rparr>)) # rest')
             else (beats, (ScopeId, LeaderData) # rest')
         | None \<Rightarrow> (beats, (ScopeId, LeaderData) # rest'))"

definition SendHeartbeatIfElectedScopeLeader :: "u64 \<Rightarrow> nat \<Rightarrow> scopes \<Rightarrow> string list \<times> scopes" where
  "SendHeartbeatIfElectedScopeLeader ClientId CurrentTime Scopes = heartbeat_walk ClientId CurrentTime Scopes Scopes"

section \<open>The engine\<close>

datatype leader_event =
    Heartbeat string nat
  | Scripts_ticked
  | Script_run u64 string
  | Script_sent sig_value
  | Elected_callback string string
  | Vacated_callback string string
  | Scripts_ready

record leader_engine =
  LeaderElectionManager :: "scopes option"
  DefaultScopeId :: string
  EnableEntityTick :: bool
  l_ClientId :: u64
  l_Bus :: event_bus
  HasOnElectedCallback :: bool
  HasOnVacatedCallback :: bool
  HasScriptSystemReadyCallback :: bool
  l_Log :: "leader_event list"

definition l_emit :: "leader_event \<Rightarrow> leader_engine \<Rightarrow> leader_engine" where
  "l_emit e g = g\<lparr>l_Log := l_Log g @ [e]\<rparr>"

definition IsLeaderElectionEnabled :: "leader_engine \<Rightarrow> bool" where
  "IsLeaderElectionEnabled g \<longleftrightarrow> LeaderElectionManager g \<noteq> None"

definition RemoteRunScriptMessage :: string where "RemoteRunScriptMessage = ''RemoteRunScriptMessage''"
definition ScriptReceiver :: string where "ScriptReceiver = ''CSPInternal::ScriptEvent''"

text \<open>The callback that hands the values of an event to \<open>OnRemoteRunScriptEvent\<close>.\<close>

definition script_callback :: callback where "script_callback = 0"

definition DisableLeaderElection :: "leader_engine \<Rightarrow> leader_engine" where
  "DisableLeaderElection g =
     (if LeaderElectionManager g \<noteq> None
      then g\<lparr>l_Bus := StopListenCustomNetworkEvent ScriptReceiver RemoteRunScriptMessage (l_Bus g), LeaderElectionManager := None\<rparr>
      else g)"

definition EnableLeaderElection :: "leader_engine \<Rightarrow> leader_engine" where
  "EnableLeaderElection g = (DisableLeaderElection g)\<lparr>LeaderElectionManager := Some []\<rparr>"

definition RegisterDefaultScope :: "string \<Rightarrow> u64 option \<Rightarrow> leader_engine \<Rightarrow> leader_engine" where
  "RegisterDefaultScope ScopeId LeaderId g =
     (case LeaderElectionManager g of
        Some m \<Rightarrow> g\<lparr>LeaderElectionManager := Some (RegisterScope ScopeId LeaderId m), DefaultScopeId := c_str ScopeId\<rparr>
      | None \<Rightarrow> g)"

definition IsLocalClientLeader :: "leader_engine \<Rightarrow> bool" where
  "IsLocalClientLeader g =
     (case LeaderElectionManager g of
        None \<Rightarrow> True
      | Some m \<Rightarrow> Manager_IsLocalClientLeader (l_ClientId g) (DefaultScopeId g) m)"

definition CheckIfWeShouldRunScriptsLocally :: "leader_engine \<Rightarrow> bool" where
  "CheckIfWeShouldRunScriptsLocally g =
     (case LeaderElectionManager g of
        None \<Rightarrow> True
      | Some m \<Rightarrow> Manager_IsLocalClientLeader (l_ClientId g) (DefaultScopeId g) m)"

definition GetLeaderId :: "leader_engine \<Rightarrow> event_error + u64" where
  "GetLeaderId g =
     (case LeaderElectionManager g of
        None \<Rightarrow> Inl Event_undefined
      | Some m \<Rightarrow> Inr (case GetLeaderClientId (DefaultScopeId g) m of Some i \<Rightarrow> i | None \<Rightarrow> 0))"

definition param_string :: "sig_value list \<Rightarrow> nat \<Rightarrow> event_error + string" where
  "param_string ParamsV i = rbind (vec_at ParamsV i) as_string"

definition OnElectedScopeLeader :: "sig_value \<Rightarrow> leader_engine \<Rightarrow> event_error + leader_engine" where
  "OnElectedScopeLeader Params g =
     (case LeaderElectionManager g of
        None \<Rightarrow> Inr g
      | Some m \<Rightarrow>
          rbind (as_array Params) (\<lambda>ParamsV.
          rbind (param_string ParamsV 0) (\<lambda>ScopeId.
          rbind (param_string ParamsV 1) (\<lambda>UserId.
          rbind (vec_at ParamsV 2) (\<lambda>v2.
          rbind (as_uinteger v2) (\<lambda>ClientId.
            let g1 = g\<lparr>LeaderElectionManager := Some (Manager_OnElectedScopeLeader ScopeId ClientId m)\<rparr>
            in Inr (if HasOnElectedCallback g1 then l_emit (Elected_callback (c_str ScopeId) (c_str UserId)) g1 else g1)))))))"

definition OnVacatedAsScopeLeader :: "sig_value \<Rightarrow> leader_engine \<Rightarrow> event_error + leader_engine" where
  "OnVacatedAsScopeLeader Params g =
     (case LeaderElectionManager g of
        None \<Rightarrow> Inr g
      | Some m \<Rightarrow>
          rbind (as_array Params) (\<lambda>ParamsV.
          rbind (param_string ParamsV 0) (\<lambda>ScopeId.
          rbind (param_string ParamsV 1) (\<lambda>UserId.
            let g1 = g\<lparr>LeaderElectionManager := Some (Manager_OnVacatedAsScopeLeader ScopeId m)\<rparr>
            in Inr (if HasOnVacatedCallback g1 then l_emit (Vacated_callback (c_str ScopeId) (c_str UserId)) g1 else g1)))))"

text \<open>The part of \<open>TickEntities\<close> between the pending operations and the queueing of updates.\<close>

definition tick_leadership :: "nat \<Rightarrow> leader_engine \<Rightarrow> leader_engine" where
  "tick_leadership CurrentTime g =
     (if EnableEntityTick g then
        let g1 = (if IsLocalClientLeader g then l_emit Scripts_ticked g else g)
        in (case LeaderElectionManager g1 of
              None \<Rightarrow> g1
            | Some m \<Rightarrow>
                let (beats, m') = SendHeartbeatIfElectedScopeLeader (l_ClientId g1) CurrentTime m
                in fold (\<lambda>s. l_emit (Heartbeat s CurrentTime)) beats (g1\<lparr>LeaderElectionManager := Some m'\<rparr>))
      else g)"

text \<open>The end of fetching all entities, as far as it concerns scripts.\<close>

definition scripts_after_fetch :: "leader_engine \<Rightarrow> leader_engine" where
  "scripts_after_fetch g =
     (let g1 = g\<lparr>EnableEntityTick := True\<rparr>
      in if IsLeaderElectionEnabled g1 then
           let g2 = g1\<lparr>l_Bus := ListenCustomNetworkEvent ScriptReceiver RemoteRunScriptMessage (Some script_callback) (l_Bus g1)\<rparr>
           in (if HasScriptSystemReadyCallback g2 then l_emit Scripts_ready g2 else g2)
         else g1)"

section \<open>Running scripts on the leader\<close>

definition SendRemoteRunScriptEvent :: "u64 \<Rightarrow> u64 \<Rightarrow> string \<Rightarrow> leader_engine \<Rightarrow> event_error + leader_engine" where
  "SendRemoteRunScriptEvent TargetClientId ContextId ScriptText g =
     rbind (SendNetworkEvent True (l_ClientId g) RemoteRunScriptMessage [RV_int ContextId, RV_string ScriptText] TargetClientId)
       (\<lambda>r. Inr (case r of Send_invoked params \<Rightarrow> l_emit (Script_sent params) g | Send_not_connected \<Rightarrow> g))"

definition RunScriptRemotely :: "u64 \<Rightarrow> string \<Rightarrow> leader_engine \<Rightarrow> event_error + leader_engine" where
  "RunScriptRemotely ContextId ScriptText g =
     (case LeaderElectionManager g of
        None \<Rightarrow> Inl Event_undefined
      | Some m \<Rightarrow>
          (case GetLeaderClientId (DefaultScopeId g) m of
             Some LeaderId \<Rightarrow> SendRemoteRunScriptEvent LeaderId ContextId ScriptText g
           | None \<Rightarrow> Inr g))"

definition OnRemoteRunScriptEvent :: "rep_value list \<Rightarrow> leader_engine \<Rightarrow> event_error + leader_engine" where
  "OnRemoteRunScriptEvent Data g =
     rbind (array_at Data 0) (\<lambda>v0.
     rbind (rv_throws (GetInt v0)) (\<lambda>ContextId.
     rbind (array_at Data 1) (\<lambda>v1.
     rbind (rv_throws (GetString v1)) (\<lambda>ScriptText.
       case LeaderElectionManager g of
         None \<Rightarrow> Inl Event_undefined
       | Some m \<Rightarrow>
           Inr (if Manager_IsLocalClientLeader (l_ClientId g) (DefaultScopeId g) m
                then l_emit (Script_run ContextId ScriptText) g else g)))))"

text \<open>
  An entity's script: run at once without a connection, on the leader, and when there is no
  election; sent to the leader otherwise. Of the offline engine only the scripts it has run matter.
\<close>

datatype script_host = Null_engine | Offline_host "leader_event list" | Online_host leader_engine

definition RunScript :: "u64 \<Rightarrow> string \<Rightarrow> script_host \<Rightarrow> event_error + script_host" where
  "RunScript EntityId ScriptSource host =
     (case host of
        Null_engine \<Rightarrow> Inr Null_engine
      | Offline_host log \<Rightarrow> Inr (Offline_host (log @ [Script_run EntityId ScriptSource]))
      | Online_host g \<Rightarrow>
          if CheckIfWeShouldRunScriptsLocally g then Inr (Online_host (l_emit (Script_run EntityId ScriptSource) g))
          else rbind (RunScriptRemotely EntityId ScriptSource g) (\<lambda>g'. Inr (Online_host g')))"

text \<open>The parameters of the hub method that carries a script from one client to another.\<close>

definition script_params :: "u64 \<Rightarrow> u64 \<Rightarrow> u64 \<Rightarrow> string \<Rightarrow> sig_value" where
  "script_params sender target ContextId ScriptText =
     SArr [SArr [SStr RemoteRunScriptMessage, SUint sender, SUint target,
       SUMap (arguments_enc 0 [RV_int ContextId, RV_string ScriptText])]]"

text \<open>
  C15. Where a client knows who leads, a script of an entity runs at once and only there when the client
  is the leader itself; otherwise it does not run there but leaves in one message whose target is
  the leader and no other client. That message, as the hub passes it on, reaches the one callback
  that a leader has registered when it had fetched its entities, which runs the script with the
  context and the text that were sent. The leader's id is not the one that stands for all clients, the
  text has no NUL, and the leader has registered nothing else under the name of the message.
\<close>

theorem remote_scripts_run_on_the_leader:
  assumes "LeaderElectionManager g = Some m" "GetLeaderClientId (DefaultScopeId g) m = Some leader" "leader \<noteq> ALL_CLIENTS_ID"
    "nul_free ScriptText" "IsLeaderElectionEnabled h" "IsLocalClientLeader h"
    "\<forall>r \<in> fst ` set (RegisteredCustomEvents (l_Bus h)). nul_free (RegEventName r) \<and> RegEventName r \<noteq> RemoteRunScriptMessage"
  shows "let params = script_params (l_ClientId g) leader ContextId ScriptText
    in RunScript ContextId ScriptText (Online_host g)
        = Inr (Online_host (l_emit (if leader = l_ClientId g then Script_run ContextId ScriptText else Script_sent params) g))
    \<and> RunScriptRemotely ContextId ScriptText g = Inr (l_emit (Script_sent params) g)
    \<and> (\<exists>d. EventDispatchCallback (l_Bus (scripts_after_fetch h)) (wire params) = Inr [(script_callback, GeneralCall d)]
        \<and> OnRemoteRunScriptEvent (EventValues d) (scripts_after_fetch h)
          = Inr (l_emit (Script_run ContextId ScriptText) (scripts_after_fetch h)))"
proof -
  let ?vs = "[RV_int ContextId, RV_string ScriptText]" let ?b = "l_Bus (scripts_after_fetch h)"
  have n: "nul_free RemoteRunScriptMessage" "NetworkEventFromString RemoteRunScriptMessage = GeneralPurposeEvent"
    by (simp_all add: RemoteRunScriptMessage_def NetworkEventFromString_def CustomDeserializationEventMap_def String_eq_def)
  have fresh: "map_of (RegisteredCustomEvents (l_Bus h)) \<lparr>EventReceiverId = ScriptReceiver, RegEventName = RemoteRunScriptMessage\<rparr> = None"
    using assms(7) by (force simp: map_of_eq_None_iff)
  then have b: "RegisteredCustomEvents ?b
    = (\<lparr>EventReceiverId = ScriptReceiver, RegEventName = RemoteRunScriptMessage\<rparr>, script_callback) # RegisteredCustomEvents (l_Bus h)"
    using assms(5) by (simp add: scripts_after_fetch_def Let_def IsLeaderElectionEnabled_def l_emit_def ListenCustomNetworkEvent_def
        RegisterEventCallback_def umap_upd_def RemoteRunScriptMessage_def ScriptReceiver_def)
  have "filter (\<lambda>(r, cb). RegEventName r = RemoteRunScriptMessage) (RegisteredCustomEvents (l_Bus h)) = []"
    using assms(7) by (force simp: filter_empty_conv)
  then have l: "custom_listeners ?b RemoteRunScriptMessage = [script_callback]" by (simp add: custom_listeners_def b)
  have v: "\<forall>v \<in> set ?vs. rv_valid v" using assms(4) by (simp add: rv_constructors)
  let ?params = "script_params (l_ClientId g) leader ContextId ScriptText"
  obtain params where p: "SendNetworkEvent True (l_ClientId g) RemoteRunScriptMessage ?vs leader = Inr (Send_invoked params)"
    "EventDispatchCallback ?b (wire params)
     = Inr (map (\<lambda>cb. (cb, GeneralCall (sent_event RemoteRunScriptMessage (l_ClientId g) ?vs))) (custom_listeners ?b RemoteRunScriptMessage))"
    using event_reaches_its_listeners [OF n v, of ?b "l_ClientId g" leader] assms(7) n(1) b by auto
  have "SendNetworkEvent True (l_ClientId g) RemoteRunScriptMessage ?vs leader = Inr (Send_invoked ?params)"
    using serialise_arguments_enc [OF v] assms(3) n(1) by (simp add: SendNetworkEvent_def event_message_def script_params_def del: serialise_arguments.simps)
  then have params: "params = ?params" using p(1) by simp
  have k: "LeaderElectionManager (scripts_after_fetch h) = LeaderElectionManager h" "l_ClientId (scripts_after_fetch h) = l_ClientId h"
    "DefaultScopeId (scripts_after_fetch h) = DefaultScopeId h"
    by (simp_all add: scripts_after_fetch_def Let_def l_emit_def)
  have r: "RunScriptRemotely ContextId ScriptText g = Inr (l_emit (Script_sent ?params) g)"
    using assms(1,2) p(1) by (simp add: RunScriptRemotely_def SendRemoteRunScriptEvent_def params)
  moreover have "CheckIfWeShouldRunScriptsLocally g \<longleftrightarrow> leader = l_ClientId g"
    using assms(1,2) by (simp add: CheckIfWeShouldRunScriptsLocally_def Manager_IsLocalClientLeader_def)
  moreover have "OnRemoteRunScriptEvent ?vs (scripts_after_fetch h)
      = Inr (l_emit (Script_run ContextId ScriptText) (scripts_after_fetch h))"
    using assms(5,6)
    by (auto simp: OnRemoteRunScriptEvent_def k array_at_def rv_getters rv_get_def rv_constructors IsLeaderElectionEnabled_def
        IsLocalClientLeader_def)
  moreover have "EventValues (sent_event RemoteRunScriptMessage (l_ClientId g) ?vs) = ?vs"
    by (simp add: sent_event_def rv_constructors)
  ultimately show ?thesis
    using p(2) l unfolding Let_def params by (auto simp: RunScript_def)
qed

lemma remote_scripts_run_on_the_leader_witness:
  "let e = \<lparr>LeaderElectionManager = Some (RegisterScope ''space'' (Some 5) []), DefaultScopeId = ''space'', EnableEntityTick = False,
     l_ClientId = 5, l_Bus = new_bus, HasOnElectedCallback = False, HasOnVacatedCallback = False,
     HasScriptSystemReadyCallback = False, l_Log = []\<rparr>; g = e\<lparr>l_ClientId := 2\<rparr>
   in RunScript 9 ''f()'' (Online_host g) = Inr (Online_host (l_emit (Script_sent (script_params 2 5 9 ''f()'')) g))
     \<and> (\<exists>d. EventDispatchCallback (l_Bus (scripts_after_fetch e)) (wire (script_params 2 5 9 ''f()''))
            = Inr [(script_callback, GeneralCall d)]
         \<and> OnRemoteRunScriptEvent (EventValues d) (scripts_after_fetch e) = Inr (l_emit (Script_run 9 ''f()'') (scripts_after_fetch e)))"
proof -
  let ?m = "RegisterScope ''space'' (Some 5) []"
  let ?e = "\<lparr>LeaderElectionManager = Some ?m, DefaultScopeId = ''space'', EnableEntityTick = False,
     l_ClientId = 5, l_Bus = new_bus, HasOnElectedCallback = False, HasOnVacatedCallback = False,
     HasScriptSystemReadyCallback = False, l_Log = []\<rparr>"
  let ?g = "?e\<lparr>l_ClientId := 2\<rparr>"
  have h: "LeaderElectionManager ?g = Some ?m" "GetLeaderClientId (DefaultScopeId ?g) ?m = Some 5" "(5 :: u64) \<noteq> ALL_CLIENTS_ID"
    "nul_free ''f()''" "IsLeaderElectionEnabled ?e" "IsLocalClientLeader ?e"
    "\<forall>r \<in> fst ` set (RegisteredCustomEvents (l_Bus ?e)). nul_free (RegEventName r) \<and> RegEventName r \<noteq> RemoteRunScriptMessage"
    by (auto simp: RegisterScope_def umap_upd_def GetLeaderClientId_def IsLeaderElectionEnabled_def IsLocalClientLeader_def
        Manager_IsLocalClientLeader_def new_bus_def ALL_CLIENTS_ID_def)
  have d: "l_ClientId ?g = 2" "(5 :: u64) = 2 \<longleftrightarrow> False" by simp_all
  show ?thesis
    using remote_scripts_run_on_the_leader [OF h, of 9] unfolding Let_def d if_False by blast
qed

section \<open>Who leads\<close>

text \<open>
  The leader of a scope as the messages of the service tell it: the scope has to be registered; then
  the last election or vacation decides.
\<close>

datatype scope_op =
    Ticked nat
  | Registered string "u64 option"
  | Deregistered string
  | Elected string u64
  | Vacated string

fun run_scope_op :: "u64 \<Rightarrow> scope_op \<Rightarrow> scopes \<times> (string \<times> nat) list \<Rightarrow> scopes \<times> (string \<times> nat) list" where
  "run_scope_op me (Ticked t) (m, log) =
     (case SendHeartbeatIfElectedScopeLeader me t m of (beats, m') \<Rightarrow> (m', log @ map (\<lambda>s. (s, t)) beats))"
| "run_scope_op me (Registered s l) (m, log) = (RegisterScope s l m, log)"
| "run_scope_op me (Deregistered s) (m, log) = (DeregisterScope s m, log)"
| "run_scope_op me (Elected s c) (m, log) = (Manager_OnElectedScopeLeader s c m, log)"
| "run_scope_op me (Vacated s) (m, log) = (Manager_OnVacatedAsScopeLeader s m, log)"

fun leader_spec :: "string \<Rightarrow> scope_op \<Rightarrow> u64 option option \<Rightarrow> u64 option option" where
  "leader_spec s (Ticked t) l = l"
| "leader_spec s (Registered s' i) l = (if s' = s then Some i else l)"
| "leader_spec s (Deregistered s') l = (if s' = s then None else l)"
| "leader_spec s (Elected s' c) l = (if s' = s \<and> l \<noteq> None then Some (Some c) else l)"
| "leader_spec s (Vacated s') l = (if s' = s \<and> l \<noteq> None then Some None else l)"

definition due_beat :: "u64 \<Rightarrow> nat \<Rightarrow> ScopeLeaderData \<Rightarrow> bool" where
  "due_beat me t d \<longleftrightarrow> LeaderClientId d = me \<and> LastHeartbeatTime d + LeaderElectionHeartbeatInterval < t"

definition after_beat :: "u64 \<Rightarrow> nat \<Rightarrow> ScopeLeaderData option \<Rightarrow> ScopeLeaderData option" where
  "after_beat me t = map_option (\<lambda>d. if due_beat me t d then d\<lparr>LastHeartbeatTime := t\<rparr> else d)"

lemma heartbeat_walk_spec:
  assumes "umap_ok m" "set rest \<subseteq> set m" "umap_ok rest"
  shows "snd (heartbeat_walk me t m rest) = map (\<lambda>(s, l). (s, after_beat me t l)) rest
    \<and> fst (heartbeat_walk me t m rest) = map fst (filter (\<lambda>(s, l). case l of Some d \<Rightarrow> due_beat me t d | None \<Rightarrow> False) rest)"
  using assms(2,3)
proof (induction rest)
  case (Cons sl rest)
  obtain s l where sl: "sl = (s, l)" by (cases sl)
  have "map_of m s = Some l" using assms(1) Cons.prems(1) sl by auto
  then have "l = Some d \<Longrightarrow> Manager_IsLocalClientLeader me s m \<longleftrightarrow> LeaderClientId d = me" for d
    by (simp add: Manager_IsLocalClientLeader_def GetLeaderClientId_def)
  moreover obtain beats r' where "heartbeat_walk me t m rest = (beats, r')" by (cases "heartbeat_walk me t m rest")
  ultimately show ?case
    using Cons by (cases l) (auto simp: sl after_beat_def due_beat_def)
qed simp

lemma heartbeat_spec:
  assumes "umap_ok m"
  shows "SendHeartbeatIfElectedScopeLeader me t m =
    (map fst (filter (\<lambda>(s, l). case l of Some d \<Rightarrow> due_beat me t d | None \<Rightarrow> False) m), map (\<lambda>(s, l). (s, after_beat me t l)) m)"
  using heartbeat_walk_spec [OF assms _ assms, of me t] unfolding SendHeartbeatIfElectedScopeLeader_def
  by (simp add: prod_eq_iff)

lemma map_of_beats: "map_of (map (\<lambda>(s, l). (s, f l)) m) s = map_option f (map_of m s)"
  by (induction m) auto

lemma umap_ok_scope_op: "umap_ok m \<Longrightarrow> umap_ok (fst (run_scope_op me op (m, log)))"
  by (cases op)
    (auto simp: heartbeat_spec RegisterScope_def DeregisterScope_def Manager_OnElectedScopeLeader_def
      Manager_OnVacatedAsScopeLeader_def o_def split_beta split: option.split)

text \<open>The manager knows the leader: after any messages, its answer is what they say.\<close>

definition scope_leader :: "string \<Rightarrow> scopes \<Rightarrow> u64 option option" where
  "scope_leader s m = map_option (map_option LeaderClientId) (map_of m s)"

lemma scope_leader_op: "umap_ok m \<Longrightarrow> scope_leader s (fst (run_scope_op me op (m, log))) = leader_spec s op (scope_leader s m)"
  by (cases op)
    (auto simp: scope_leader_def heartbeat_spec RegisterScope_def DeregisterScope_def Manager_OnElectedScopeLeader_def
      Manager_OnVacatedAsScopeLeader_def map_of_beats after_beat_def option.map_comp o_def split: option.split
      simp del: map_of_eq_Some_iff Some_eq_map_of_iff intro!: option.map_cong0)

lemma scope_leader_run:
  "umap_ok m \<Longrightarrow> scope_leader s (fst (fold (run_scope_op me) ops (m, log))) = fold (leader_spec s) ops (scope_leader s m)"
proof (induction ops arbitrary: m log)
  case (Cons op ops)
  obtain m' log' where r: "run_scope_op me op (m, log) = (m', log')" by (cases "run_scope_op me op (m, log)")
  then have "umap_ok m'" using umap_ok_scope_op [OF Cons.prems, of me op log] by simp
  then show ?case using Cons.IH [of m' log'] scope_leader_op [OF Cons.prems, of s me op log] r by simp
qed simp

lemma GetLeaderClientId_scope_leader: "GetLeaderClientId s m = Option.bind (scope_leader s m) id"
  by (auto simp: GetLeaderClientId_def scope_leader_def split: option.split)

section \<open>Heartbeats\<close>

fun tick_times :: "scope_op list \<Rightarrow> nat list" where
  "tick_times [] = []"
| "tick_times (Ticked t # ops) = t # tick_times ops"
| "tick_times (_ # ops) = tick_times ops"

fun touches :: "string \<Rightarrow> scope_op \<Rightarrow> bool" where
  "touches s (Ticked t) = False"
| "touches s (Registered s' l) = (s' = s)"
| "touches s (Deregistered s') = (s' = s)"
| "touches s (Elected s' c) = (s' = s)"
| "touches s (Vacated s') = (s' = s)"

definition beats_of :: "string \<Rightarrow> (string \<times> nat) list \<Rightarrow> nat list" where
  "beats_of s log = map snd (filter (\<lambda>b. fst b = s) log)"

lemma beats_of_append [simp]: "beats_of s (l @ l') = beats_of s l @ beats_of s l'"
  by (simp add: beats_of_def)

lemma beats_of_tick:
  assumes "umap_ok m" "map_of m s = Some (Some d)"
  shows "beats_of s (map (\<lambda>s. (s, t)) (map fst (filter (\<lambda>(s, l). case l of Some d \<Rightarrow> due_beat me t d | None \<Rightarrow> False) m)))
    = (if due_beat me t d then [t] else [])"
  using assms
proof (induction m)
  case (Cons kv m)
  obtain k l where kv: "kv = (k, l)" by (cases kv)
  show ?case
  proof (cases "k = s")
    case True
    then have "\<forall>x \<in> set m. fst x \<noteq> s" using Cons.prems(1) kv by auto
    then have "filter (\<lambda>b. fst b = s) (map (\<lambda>s. (s, t)) (map fst (filter P m))) = []" for P by (auto simp: filter_empty_conv)
    then show ?thesis using True Cons.prems(2) kv by (auto simp: beats_of_def)
  next
    case False
    then show ?thesis using Cons kv by (auto simp: beats_of_def split: option.split)
  qed
qed simp

lemma heartbeats_alive:
  assumes "umap_ok m" "map_of m s = Some (Some d)" "LeaderClientId d = me" "\<forall>op \<in> set ops. \<not> touches s op"
    "sorted (tick_times ops)" "\<forall>t \<in> set (tick_times ops). LeaderElectionHeartbeatInterval < t \<and> LastHeartbeatTime d \<le> t"
    "sorted_wrt (\<lambda>h h'. h + LeaderElectionHeartbeatInterval < h') (beats_of s log)" "\<forall>h \<in> set (beats_of s log). h \<le> LastHeartbeatTime d"
    "LastHeartbeatTime d = 0 \<or> LastHeartbeatTime d \<in> set (beats_of s log)"
  shows "sorted_wrt (\<lambda>h h'. h + LeaderElectionHeartbeatInterval < h') (beats_of s (snd (fold (run_scope_op me) ops (m, log))))
    \<and> set (beats_of s log) \<subseteq> set (beats_of s (snd (fold (run_scope_op me) ops (m, log))))
    \<and> (\<forall>t \<in> set (tick_times ops). \<exists>h \<in> set (beats_of s (snd (fold (run_scope_op me) ops (m, log)))).
         h \<le> t \<and> t \<le> h + LeaderElectionHeartbeatInterval)"
  using assms
proof (induction ops arbitrary: m log d)
  case (Cons op ops)
  obtain m' log' where r: "run_scope_op me op (m, log) = (m', log')" by (cases "run_scope_op me op (m, log)")
  have ok: "umap_ok m'" using umap_ok_scope_op [OF Cons.prems(1), of me op log] r by simp
  show ?case
  proof (cases op)
    case (Ticked t)
    let ?d = "if due_beat me t d then d\<lparr>LastHeartbeatTime := t\<rparr> else d"
    have m': "m' = map (\<lambda>(s, l). (s, after_beat me t l)) m" "beats_of s log' = beats_of s log @ (if due_beat me t d then [t] else [])"
      using r Ticked beats_of_tick [OF Cons.prems(1,2), of t me] by (auto simp: heartbeat_spec [OF Cons.prems(1)])
    have t: "LeaderElectionHeartbeatInterval < t" "LastHeartbeatTime d \<le> t" "\<forall>u \<in> set (tick_times ops). t \<le> u" using Cons.prems(5,6) Ticked by auto
    have d: "map_of m' s = Some (Some ?d)" using Cons.prems(2) by (simp add: m'(1) map_of_beats after_beat_def)
    have h: "\<exists>h \<in> set (beats_of s log'). h \<le> t \<and> t \<le> h + LeaderElectionHeartbeatInterval"
    proof (cases "due_beat me t d")
      case True
      then show ?thesis by (intro bexI [of _ t]) (simp_all add: m'(2))
    next
      case False
      then have "t \<le> LastHeartbeatTime d + LeaderElectionHeartbeatInterval" using Cons.prems(3) by (simp add: due_beat_def)
      moreover from this have "LastHeartbeatTime d \<in> set (beats_of s log')" using Cons.prems(9) t(1) by (auto simp: m'(2))
      ultimately show ?thesis using t(2) by blast
    qed
    have "sorted_wrt (\<lambda>h h'. h + LeaderElectionHeartbeatInterval < h') (beats_of s log')"
      using Cons.prems(7,8) by (fastforce simp: m'(2) sorted_wrt_append due_beat_def)
    then have "sorted_wrt (\<lambda>h h'. h + LeaderElectionHeartbeatInterval < h') (beats_of s (snd (fold (run_scope_op me) ops (m', log'))))
      \<and> set (beats_of s log') \<subseteq> set (beats_of s (snd (fold (run_scope_op me) ops (m', log'))))
      \<and> (\<forall>t \<in> set (tick_times ops). \<exists>h \<in> set (beats_of s (snd (fold (run_scope_op me) ops (m', log')))).
           h \<le> t \<and> t \<le> h + LeaderElectionHeartbeatInterval)"
      using Cons.prems t by (intro Cons.IH [OF ok d]) (auto simp: m'(2) Ticked dest: le_trans)
    then show ?thesis using h r Ticked by (auto simp: m'(2))
  next
    case (Registered s' l)
    then show ?thesis using Cons.IH [OF ok, of d log'] Cons.prems r by (auto simp: RegisterScope_def split: option.splits)
  next
    case (Deregistered s')
    then show ?thesis using Cons.IH [OF ok, of d log'] Cons.prems r by (auto simp: DeregisterScope_def)
  next
    case (Elected s' c)
    then show ?thesis using Cons.IH [OF ok, of d log'] Cons.prems r
      by (auto simp: Manager_OnElectedScopeLeader_def simp del: map_of_eq_Some_iff split: option.splits)
  next
    case (Vacated s')
    then show ?thesis using Cons.IH [OF ok, of d log'] Cons.prems r
      by (auto simp: Manager_OnVacatedAsScopeLeader_def simp del: map_of_eq_Some_iff split: option.splits if_splits)
  qed
qed simp

text \<open>
  C14. While a client leads a scope, it keeps the scope alive and does not flood the service: whatever
  happens to other scopes, at every tick the last heartbeat for the scope is at most the interval
  old, and any two heartbeats are more than the interval apart. (The clock is past the
  interval when the client is elected.)
\<close>

theorem leader_keeps_its_scope_alive:
  assumes "umap_ok m" "map_of m s = Some (Some \<lparr>LeaderClientId = me, LastHeartbeatTime = 0\<rparr>)"
    "\<forall>op \<in> set ops. \<not> touches s op" "sorted (tick_times ops)" "\<forall>t \<in> set (tick_times ops). LeaderElectionHeartbeatInterval < t"
  shows "sorted_wrt (\<lambda>h h'. h + LeaderElectionHeartbeatInterval < h') (beats_of s (snd (fold (run_scope_op me) ops (m, []))))
    \<and> (\<forall>t \<in> set (tick_times ops). \<exists>h \<in> set (beats_of s (snd (fold (run_scope_op me) ops (m, [])))).
         h \<le> t \<and> t \<le> h + LeaderElectionHeartbeatInterval)"
  using heartbeats_alive [OF assms(1,2) _ assms(3,4), where log = "[]"] assms(5) by (simp add: beats_of_def)

lemma leader_keeps_its_scope_alive_witness:
  "let log = snd (fold (run_scope_op 5) [Ticked 4000000000, Ticked 5000000000, Elected ''b'' 7, Ticked 8000000000]
     ([(''a'', Some \<lparr>LeaderClientId = 5, LastHeartbeatTime = 0\<rparr>)], []))
   in sorted_wrt (\<lambda>h h'. h + LeaderElectionHeartbeatInterval < h') (beats_of ''a'' log)
    \<and> (\<forall>t \<in> set [4000000000, 5000000000, 8000000000]. \<exists>h \<in> set (beats_of ''a'' log). h \<le> t \<and> t \<le> h + LeaderElectionHeartbeatInterval)"
  unfolding Let_def
  using leader_keeps_its_scope_alive [of "[(''a'', Some \<lparr>LeaderClientId = 5, LastHeartbeatTime = 0\<rparr>)]" "''a''" 5
    "[Ticked 4000000000, Ticked 5000000000, Elected ''b'' 7, Ticked 8000000000]"]
  by (simp add: LeaderElectionHeartbeatInterval_def)

end
