(* ===== verification/Connection.thy ===== *)
theory Connection
  imports Network_Delivery Entity_World "HOL-Library.Multiset"
begin

text \<open>
  The connection to the multiplayer hub (\<open>src/Multiplayer/MultiplayerConnection.cpp\<close> on top of
  \<open>src/Multiplayer/SignalR/SignalRConnection.cpp\<close>): connecting is a chain of requests, each
  continued when the answer of the one before arrives; disconnecting waits until no request is
  under way. The SignalR client library delivers the answers; its state is the lists of what it has
  been asked and has not answered yet, and the answers are the steps of the machine. All
  continuations run in the thread that delivers the answer (\<open>include/CSP/Common/CSPAsyncScheduler.h\<close>).
  An exception is represented by its message.
\<close>

section \<open>Error codes\<close>

datatype error_code = EC_None | EC_Unknown | EC_NotConnected | EC_AlreadyConnected | EC_SpaceUserLimitExceeded

definition ErrorCodeMap :: "(string \<times> error_code) list" where
  "ErrorCodeMap = [(''Scopes_ConcurrentUsersQuota'', EC_SpaceUserLimitExceeded)]"

definition ERROR_CODE_KEY :: string where "ERROR_CODE_KEY = ''error code:''"

definition ParseMultiplayerError :: "string \<Rightarrow> error_code \<times> string" where
  "ParseMultiplayerError ErrorMessage =
     (case strstr ERROR_CODE_KEY ErrorMessage of
        None \<Rightarrow> (EC_Unknown, ErrorMessage)
      | Some Index \<Rightarrow>
          let rest = dropWhile is_space (drop (Index + length ERROR_CODE_KEY) ErrorMessage);
              ErrorCodeString = takeWhile (\<lambda>c. c \<noteq> CHR '','') rest
          in case map_of ErrorCodeMap ErrorCodeString of
               Some e \<Rightarrow> (e, ErrorMessage)
             | None \<Rightarrow> (EC_Unknown, ErrorMessage))"

definition ParseMultiplayerErrorFromExceptionPtr :: "string option \<Rightarrow> error_code \<times> string" where
  "ParseMultiplayerErrorFromExceptionPtr Exception =
     (case Exception of
        Some m \<Rightarrow> ParseMultiplayerError m
      | None \<Rightarrow> (EC_Unknown, ''MultiplayerConnection::ParseMultiplayerErrorFromExceptionPtr, Unexpectedly no exception was thrown.''))"

definition hub_method_name :: "hub_method \<Rightarrow> string" where
  "hub_method_name m =
     (case m of
        DELETE_OBJECTS \<Rightarrow> ''DeleteObjects'' | GENERATE_OBJECT_IDS \<Rightarrow> ''GenerateObjectIds''
      | GET_CLIENT_ID \<Rightarrow> ''GetClientId'' | PAGE_SCOPED_OBJECTS \<Rightarrow> ''PageScopedObjects''
      | RESET_SCOPES \<Rightarrow> ''ResetScopes'' | SEND_EVENT_MESSAGE \<Rightarrow> ''SendEventMessage''
      | SEND_OBJECT_MESSAGE \<Rightarrow> ''SendObjectMessage'' | SEND_OBJECT_NOT_FOUND \<Rightarrow> ''SendObjectNotFound''
      | SEND_OBJECT_PATCH \<Rightarrow> ''SendObjectPatch'' | SEND_OBJECT_PATCHES \<Rightarrow> ''SendObjectPatches''
      | SET_ALLOW_SELF_MESSAGING \<Rightarrow> ''SetAllowSelfMessaging'' | SET_SCOPES \<Rightarrow> ''SetScopes''
      | START_LISTENING \<Rightarrow> ''StartListening'' | STOP_LISTENING \<Rightarrow> ''StopListening''
      | ON_OBJECT_MESSAGE \<Rightarrow> ''OnObjectMessage'' | ON_OBJECT_PATCH \<Rightarrow> ''OnObjectPatch''
      | ON_REQUEST_TO_SEND_OBJECT \<Rightarrow> ''OnRequestToSendObject'' | ON_REQUEST_TO_DISCONNECT \<Rightarrow> ''OnRequestToDisconnect''
      | SEND_SCOPE_LEADER_HEARTBEAT \<Rightarrow> ''SendScopeLeaderHeartbeat'' | ASSUME_SCOPE_LEADERSHIP \<Rightarrow> ''AssumeScopeLeadership''
      | ON_ELECTED_SCOPE_LEADER \<Rightarrow> ''OnElectedScopeLeader'' | ON_VACATED_AS_SCOPE_LEADER \<Rightarrow> ''OnVacatedAsScopeLeader'')"

section \<open>State\<close>

text \<open>
  A callback is the client's, named by a number, or the promise that the handler of the service's
  request to disconnect waits for.
\<close>

datatype conn_callback = Client_callback nat | Disconnect_promise

text \<open>What waits for the answer of an invocation: a step of \<open>Connect\<close>, or a callback.\<close>

datatype continuation =
    After_delete conn_callback
  | After_client_id conn_callback
  | After_listening conn_callback
  | After_self_messaging bool conn_callback
  | After_event conn_callback
  | After_task

type_synonym stop_handler = "conn_callback \<times> string"

text \<open>A stop under way: its handler, or what \<open>Invoke\<close> passes on when the last request is answered.\<close>

datatype stop_request = Direct_stop stop_handler | Deferred_stop "string option"

datatype conn_event =
    Start_requested
  | Invoked string sig_value
  | Stop_requested
  | Answered conn_callback error_code
  | Notified_connected string
  | Notified_disconnected string
  | Bad_function_call

record conn =
  Connected :: bool
  c_ClientId :: u64
  AllowSelfMessaging :: bool
  EventsConnected :: bool
  HasConnectionCallback :: bool
  HasDisconnectionCallback :: bool
  PendingInvocations :: nat
  PendingStopCallback :: "stop_handler option"
  Starts :: "conn_callback list"
  Invocations :: "continuation list"
  Stops :: "stop_request list"
  c_Log :: "conn_event list"

definition c_emit :: "conn_event \<Rightarrow> conn \<Rightarrow> conn" where
  "c_emit e c = c\<lparr>c_Log := c_Log c @ [e]\<rparr>"

definition remove_nth :: "nat \<Rightarrow> 'a list \<Rightarrow> 'a list" where
  "remove_nth i xs = take i xs @ drop (Suc i) xs"

definition new_connection :: conn where
  "new_connection = \<lparr>Connected = False, c_ClientId = 0, AllowSelfMessaging = False, EventsConnected = False,
     HasConnectionCallback = False, HasDisconnectionCallback = False, PendingInvocations = 0, PendingStopCallback = None,
     Starts = [], Invocations = [], Stops = [], c_Log = []\<rparr>"

section \<open>The SignalR connection\<close>

definition SignalR_Start :: "conn_callback \<Rightarrow> conn \<Rightarrow> conn" where
  "SignalR_Start cb c = c_emit Start_requested (c\<lparr>Starts := Starts c @ [cb]\<rparr>)"

definition SignalR_Stop :: "stop_handler \<Rightarrow> conn \<Rightarrow> conn" where
  "SignalR_Stop h c =
     (if PendingInvocations c = 0
      then c_emit Stop_requested (c\<lparr>PendingStopCallback := None, Stops := Stops c @ [Direct_stop h]\<rparr>)
      else c\<lparr>PendingStopCallback := Some h\<rparr>)"

definition SignalR_Invoke :: "hub_method \<Rightarrow> sig_value \<Rightarrow> continuation \<Rightarrow> conn \<Rightarrow> conn" where
  "SignalR_Invoke m Arguments k c =
     c_emit (Invoked (hub_method_name m) Arguments)
       (c\<lparr>PendingInvocations := Suc (PendingInvocations c), Invocations := Invocations c @ [k]\<rparr>)"

section \<open>Disconnecting\<close>

definition c_answer :: "conn_callback \<Rightarrow> error_code \<Rightarrow> conn \<Rightarrow> conn" where
  "c_answer cb e c = c_emit (Answered cb e) c"

definition StopHandler :: "stop_handler \<Rightarrow> string option \<Rightarrow> conn \<Rightarrow> conn" where
  "StopHandler h Except c =
     (case h of (Callback, Reason) \<Rightarrow>
        let Error = (case Except of None \<Rightarrow> EC_None | Some m \<Rightarrow> fst (ParseMultiplayerErrorFromExceptionPtr (Some m)));
            c1 = c_answer Callback Error (c\<lparr>Connected := False\<rparr>)
        in if HasDisconnectionCallback c1 then c_emit (Notified_disconnected Reason) c1 else c1)"

definition Stop :: "stop_handler \<Rightarrow> conn \<Rightarrow> conn" where
  "Stop h c = (if \<not> Connected c then StopHandler h (Some ''No Connection!'') c else SignalR_Stop h c)"

definition DisconnectWithReason :: "string \<Rightarrow> conn_callback \<Rightarrow> conn \<Rightarrow> conn" where
  "DisconnectWithReason Reason Callback c = Stop (Callback, c_str Reason) c"

definition Disconnect :: "conn_callback \<Rightarrow> conn \<Rightarrow> conn" where
  "Disconnect Callback c =
     (if \<not> Connected c then c_answer Callback EC_NotConnected c
      else DisconnectWithReason ''Client called disconnect.'' Callback c)"

definition OnRequestToDisconnect :: "sig_value \<Rightarrow> conn \<Rightarrow> event_error + conn" where
  "OnRequestToDisconnect Params c =
     rbind (as_array Params) (\<lambda>ps. rbind (vec_at ps 0) (\<lambda>p. rbind (as_string p) (\<lambda>Reason.
       Inr (DisconnectWithReason Reason Disconnect_promise c))))"

text \<open>When the library has stopped the connection.\<close>

definition stop_answered :: "stop_request \<Rightarrow> string option \<Rightarrow> conn \<Rightarrow> conn" where
  "stop_answered r Except c =
     (case r of
        Direct_stop h \<Rightarrow> StopHandler h Except c
      | Deferred_stop e \<Rightarrow>
          (case PendingStopCallback c of
             None \<Rightarrow> c_emit Bad_function_call c
           | Some h \<Rightarrow> StopHandler h e (c\<lparr>PendingStopCallback := None\<rparr>)))"

section \<open>Connecting\<close>

text \<open>The end of the chain: what an exception of any of its steps leads to.\<close>

definition connect_failed :: "string \<Rightarrow> conn_callback \<Rightarrow> conn \<Rightarrow> conn" where
  "connect_failed Exception Callback c =
     (case ParseMultiplayerError Exception of (Error, ExceptionErrorMsg) \<Rightarrow> DisconnectWithReason ExceptionErrorMsg Callback c)"

definition ALL_ENTITIES_ID :: u64 where "ALL_ENTITIES_ID = - 1"

definition DeleteEntities :: "u64 \<Rightarrow> continuation \<Rightarrow> conn \<Rightarrow> string + conn" where
  "DeleteEntities EntityId k c =
     (if \<not> Connected c then Inl ''MultiplayerConnection::DeleteEntities, Error not connected.''
      else let ParamsVec = [if EntityId = ALL_ENTITIES_ID then SNull else SArr [SUint EntityId]]
           in Inr (SignalR_Invoke DELETE_OBJECTS (SArr ParamsVec) k c))"

definition RequestClientId :: "continuation \<Rightarrow> conn \<Rightarrow> string + conn" where
  "RequestClientId k c =
     (if \<not> Connected c then Inl ''MultiplayerConnection::RequestClientId, Error not connected.''
      else Inr (SignalR_Invoke GET_CLIENT_ID (SArr []) k c))"

definition StartListening :: "continuation \<Rightarrow> conn \<Rightarrow> string + conn" where
  "StartListening k c =
     (if \<not> Connected c then Inl ''MultiplayerConnection::StartListening, Error not connected.''
      else Inr (SignalR_Invoke START_LISTENING (SArr []) k c))"

text \<open>A step of the chain: an exception it throws goes to the end of the chain.\<close>

definition chained :: "conn_callback \<Rightarrow> (conn \<Rightarrow> string + conn) \<Rightarrow> conn \<Rightarrow> conn" where
  "chained Callback step c = (case step c of Inl e \<Rightarrow> connect_failed e Callback c | Inr c' \<Rightarrow> c')"

definition connect_succeeded :: "conn_callback \<Rightarrow> conn \<Rightarrow> conn" where
  "connect_succeeded Callback c =
     (let c1 = (if HasConnectionCallback c then c_emit (Notified_connected ''Successfully connected to SignalR hub.'') c else c)
      in c_answer Callback EC_None c1)"

definition Connect :: "conn_callback \<Rightarrow> conn \<Rightarrow> conn" where
  "Connect Callback c =
     (if Connected c then c_answer Callback EC_AlreadyConnected c
      else SignalR_Start Callback (c\<lparr>EventsConnected := True\<rparr>))"

definition start_answered :: "conn_callback \<Rightarrow> string option \<Rightarrow> conn \<Rightarrow> conn" where
  "start_answered Callback Except c =
     (case Except of
        Some m \<Rightarrow> connect_failed ''MultiplayerConnection::Start, Error when starting SignalR connection.'' Callback c
      | None \<Rightarrow> chained Callback (DeleteEntities ALL_ENTITIES_ID (After_delete Callback)) (c\<lparr>Connected := True\<rparr>))"

text \<open>
  What an answer is handed to. An answer to \<open>GetClientId\<close> that is not a number leaves with an
  exception that nothing catches; \<open>None\<close> stands for that.
\<close>

definition continue_with :: "continuation \<Rightarrow> sig_value \<Rightarrow> string option \<Rightarrow> conn \<Rightarrow> conn option" where
  "continue_with k Result Except c =
     (case k of
        After_delete cb \<Rightarrow> Some
          (case Except of
             Some m \<Rightarrow> connect_failed ''MultiplayerConnection::DeleteEntities, Unexpected error response from SignalR \"DeleteObjects\" invocation.'' cb c
           | None \<Rightarrow> chained cb (RequestClientId (After_client_id cb)) c)
      | After_client_id cb \<Rightarrow>
          (case Except of
             Some m \<Rightarrow> Some (connect_failed ''MultiplayerConnection::RequestClientId, Error when starting requesting Client Id.'' cb c)
           | None \<Rightarrow>
               (case as_uinteger Result of
                  Inl _ \<Rightarrow> None
                | Inr i \<Rightarrow> Some (chained cb (StartListening (After_listening cb)) (c\<lparr>c_ClientId := i\<rparr>))))
      | After_listening cb \<Rightarrow> Some
          (case Except of
             Some m \<Rightarrow> connect_failed (''Multiplayer Error. '' @ m) cb c
           | None \<Rightarrow> connect_succeeded cb c)
      | After_self_messaging flag cb \<Rightarrow> Some
          (case Except of
             Some m \<Rightarrow> c_answer cb (fst (ParseMultiplayerErrorFromExceptionPtr (Some m))) c
           | None \<Rightarrow> c_answer cb EC_None (c\<lparr>AllowSelfMessaging := flag\<rparr>))
      | After_event cb \<Rightarrow> Some
          (case Except of
             Some m \<Rightarrow> c_answer cb (fst (ParseMultiplayerErrorFromExceptionPtr (Some m))) c
           | None \<Rightarrow> c_answer cb EC_None c)
      | After_task \<Rightarrow> Some c)"

definition invocation_answered :: "continuation \<Rightarrow> sig_value \<Rightarrow> string option \<Rightarrow> conn \<Rightarrow> conn" where
  "invocation_answered k Result Except c =
     (case continue_with k Result Except c of
        None \<Rightarrow> c
      | Some c1 \<Rightarrow>
          let c2 = c1\<lparr>PendingInvocations := PendingInvocations c1 - 1\<rparr>
          in if PendingStopCallback c2 \<noteq> None \<and> PendingInvocations c2 = 0
             then c_emit Stop_requested (c2\<lparr>Stops := Stops c2 @ [Deferred_stop Except]\<rparr>)
             else c2)"

section \<open>Other requests\<close>

definition SetScopes :: "string \<Rightarrow> conn \<Rightarrow> string + conn" where
  "SetScopes InSpaceId c =
     (if \<not> Connected c then Inl ''MultiplayerConnection::SetScopes, Error not connected.''
      else Inr (SignalR_Invoke SET_SCOPES (SArr [SArr [SStr (c_str InSpaceId)]]) After_task c))"

definition ResetScopes :: "conn \<Rightarrow> string + conn" where
  "ResetScopes c =
     (if \<not> Connected c then Inl ''MultiplayerConnection::ResetScopes, Error not connected.''
      else Inr (SignalR_Invoke RESET_SCOPES (SArr []) After_task c))"

definition StopListening :: "conn \<Rightarrow> string + conn" where
  "StopListening c =
     (if \<not> Connected c then Inl ''MultiplayerConnection::StopListening, Error not connected.''
      else Inr (SignalR_Invoke STOP_LISTENING (SArr []) After_task c))"

definition SetAllowSelfMessagingFlag :: "bool \<Rightarrow> conn_callback \<Rightarrow> conn \<Rightarrow> conn" where
  "SetAllowSelfMessagingFlag InAllowSelfMessaging Callback c =
     (if \<not> Connected c then c_answer Callback EC_NotConnected c
      else SignalR_Invoke SET_ALLOW_SELF_MESSAGING (SArr [SBool InAllowSelfMessaging])
             (After_self_messaging InAllowSelfMessaging Callback) c)"

definition SendNetworkEventToClient ::
    "string \<Rightarrow> rep_value list \<Rightarrow> u64 \<Rightarrow> conn_callback \<Rightarrow> conn \<Rightarrow> event_error + conn" where
  "SendNetworkEventToClient Event Args TargetClientId Callback c =
     rbind (SendNetworkEvent (EventsConnected c) (c_ClientId c) Event Args TargetClientId) (\<lambda>r.
       Inr (case r of
              Send_not_connected \<Rightarrow> c_answer Callback EC_NotConnected c
            | Send_invoked params \<Rightarrow> SignalR_Invoke SEND_EVENT_MESSAGE params (After_event Callback) c))"

section \<open>Runs\<close>

text \<open>
  What the client and the service do to a connection: calls, and answers to the request at a
  position of the list of those under way.
\<close>

datatype conn_op =
    Op_connect nat
  | Op_disconnect nat
  | Op_request_to_disconnect sig_value
  | Op_self_messaging bool nat
  | Op_send_event string "rep_value list" u64 nat
  | Op_set_scopes string
  | Op_reset_scopes
  | Op_stop_listening
  | Op_start_listening
  | Op_started nat "string option"
  | Op_answered nat sig_value "string option"
  | Op_stopped nat "string option"

definition or_same :: "'e + conn \<Rightarrow> conn \<Rightarrow> conn" where
  "or_same r c = (case r of Inl _ \<Rightarrow> c | Inr c' \<Rightarrow> c')"

fun conn_step :: "conn_op \<Rightarrow> conn \<Rightarrow> conn" where
  "conn_step (Op_connect n) c = Connect (Client_callback n) c"
| "conn_step (Op_disconnect n) c = Disconnect (Client_callback n) c"
| "conn_step (Op_request_to_disconnect ps) c = or_same (OnRequestToDisconnect ps c) c"
| "conn_step (Op_self_messaging b n) c = SetAllowSelfMessagingFlag b (Client_callback n) c"
| "conn_step (Op_send_event e vs t n) c = or_same (SendNetworkEventToClient e vs t (Client_callback n) c) c"
| "conn_step (Op_set_scopes s) c = or_same (SetScopes s c) c"
| "conn_step Op_reset_scopes c = or_same (ResetScopes c) c"
| "conn_step Op_stop_listening c = or_same (StopListening c) c"
| "conn_step Op_start_listening c = or_same (StartListening After_task c) c"
| "conn_step (Op_started i ex) c =
     (if i < length (Starts c) then start_answered (Starts c ! i) ex (c\<lparr>Starts := remove_nth i (Starts c)\<rparr>) else c)"
| "conn_step (Op_answered i v ex) c =
     (if i < length (Invocations c)
      then invocation_answered (Invocations c ! i) v ex (c\<lparr>Invocations := remove_nth i (Invocations c)\<rparr>) else c)"
| "conn_step (Op_stopped i ex) c =
     (if i < length (Stops c) then stop_answered (Stops c ! i) ex (c\<lparr>Stops := remove_nth i (Stops c)\<rparr>) else c)"

definition conn_run :: "conn_op list \<Rightarrow> conn \<Rightarrow> conn" where
  "conn_run ops c = fold conn_step ops c"


section \<open>Connecting reports its outcome\<close>

text \<open>What the client has been told, and the state between connections.\<close>

fun log_answers :: "conn_event list \<Rightarrow> (conn_callback \<times> error_code) list" where
  "log_answers [] = []"
| "log_answers (Answered cb e # es) = (cb, e) # log_answers es"
| "log_answers (_ # es) = log_answers es"

definition answers :: "conn \<Rightarrow> (conn_callback \<times> error_code) list" where
  "answers c = log_answers (c_Log c)"

definition idle :: "conn \<Rightarrow> bool" where
  "idle c \<longleftrightarrow> \<not> Connected c \<and> PendingInvocations c = 0 \<and> PendingStopCallback c = None
     \<and> Starts c = [] \<and> Invocations c = [] \<and> Stops c = []"

lemma log_answers_append [simp]: "log_answers (es @ es') = log_answers es @ log_answers es'"
proof (induction es)
  case (Cons e es)
  then show ?case by (cases e) auto
qed simp

lemma answers_emit [simp]:
  "answers (c_emit e c) = answers c @ log_answers [e]" "answers (c_answer cb e' c) = answers c @ [(cb, e')]"
  by (simp_all add: answers_def c_emit_def c_answer_def)

lemmas conn_defs = Connect_def Disconnect_def DisconnectWithReason_def Stop_def StopHandler_def SignalR_Start_def SignalR_Stop_def
  SignalR_Invoke_def start_answered_def continue_with_def invocation_answered_def stop_answered_def chained_def connect_failed_def
  connect_succeeded_def DeleteEntities_def RequestClientId_def StartListening_def remove_nth_def c_emit_def c_answer_def
  ParseMultiplayerErrorFromExceptionPtr_def

lemma connect_start_fails:
  assumes "idle c"
  shows "idle (conn_run [Op_connect n, Op_started 0 (Some m)] c)"
    and "answers (conn_run [Op_connect n, Op_started 0 (Some m)] c) = answers c @ [(Client_callback n, EC_Unknown)]"
  using assms by (simp_all add: idle_def conn_run_def conn_defs Let_def answers_def ParseMultiplayerError_def ERROR_CODE_KEY_def)

text \<open>While the chain waits for one answer.\<close>

definition waiting :: "continuation \<Rightarrow> conn \<Rightarrow> bool" where
  "waiting k c \<longleftrightarrow> Connected c \<and> PendingInvocations c = 1 \<and> PendingStopCallback c = None
     \<and> Starts c = [] \<and> Invocations c = [k] \<and> Stops c = []"

lemma connect_stages:
  "idle c \<Longrightarrow> waiting (After_delete (Client_callback n)) (conn_run [Op_connect n, Op_started 0 None] c)
    \<and> answers (conn_run [Op_connect n, Op_started 0 None] c) = answers c"
  "waiting (After_delete cb) c \<Longrightarrow> waiting (After_client_id cb) (conn_step (Op_answered 0 u None) c)
    \<and> answers (conn_step (Op_answered 0 u None) c) = answers c"
  "waiting (After_client_id cb) c \<Longrightarrow> waiting (After_listening cb) (conn_step (Op_answered 0 (SUint i) None) c)
    \<and> c_ClientId (conn_step (Op_answered 0 (SUint i) None) c) = i \<and> answers (conn_step (Op_answered 0 (SUint i) None) c) = answers c"
  "waiting (After_listening cb) c \<Longrightarrow> Connected (conn_step (Op_answered 0 w None) c)
    \<and> c_ClientId (conn_step (Op_answered 0 w None) c) = c_ClientId c \<and> Invocations (conn_step (Op_answered 0 w None) c) = []
    \<and> answers (conn_step (Op_answered 0 w None) c) = answers c @ [(cb, EC_None)]"
  by (simp_all add: waiting_def idle_def conn_run_def conn_defs Let_def answers_def as_defs)

lemma failed_answer_stops:
  assumes "waiting k c" "k \<in> {After_delete cb, After_client_id cb, After_listening cb}"
  shows "idle (conn_run [Op_answered 0 w (Some m), Op_stopped 0 ex] c)"
    and "answers (conn_run [Op_answered 0 w (Some m), Op_stopped 0 ex] c) = answers c @ [(cb, fst (ParseMultiplayerError m))]"
proof -
  obtain reason where "continue_with k w (Some m) (c\<lparr>Invocations := []\<rparr>)
    = Some (c\<lparr>Invocations := [], PendingStopCallback := Some (cb, reason)\<rparr>)"
    using assms by (auto simp: continue_with_def waiting_def connect_failed_def DisconnectWithReason_def Stop_def SignalR_Stop_def
        case_prod_beta)
  then show "idle (conn_run [Op_answered 0 w (Some m), Op_stopped 0 ex] c)"
    "answers (conn_run [Op_answered 0 w (Some m), Op_stopped 0 ex] c) = answers c @ [(cb, fst (ParseMultiplayerError m))]"
    using assms(1)
    by (simp_all add: waiting_def idle_def conn_run_def invocation_answered_def stop_answered_def StopHandler_def remove_nth_def
        ParseMultiplayerErrorFromExceptionPtr_def c_emit_def c_answer_def answers_def Let_def)
qed

lemma connect_request_fails:
  assumes "idle c" "ops \<in> {[], [Op_answered 0 u None], [Op_answered 0 u None, Op_answered 0 (SUint i) None]}"
  shows "idle (conn_run ([Op_connect n, Op_started 0 None] @ ops @ [Op_answered 0 w (Some m), Op_stopped 0 ex]) c)"
    and "answers (conn_run ([Op_connect n, Op_started 0 None] @ ops @ [Op_answered 0 w (Some m), Op_stopped 0 ex]) c)
      = answers c @ [(Client_callback n, fst (ParseMultiplayerError m))]"
proof -
  let ?cb = "Client_callback n" let ?c1 = "conn_run [Op_connect n, Op_started 0 None] c"
  have run: "conn_run (xs @ ys) z = conn_run ys (conn_run xs z)" for xs ys z by (simp add: conn_run_def)
  have run1: "conn_run [] z = z" "conn_run [op] z = conn_step op z" "conn_run [op, op'] z = conn_step op' (conn_step op z)" for op op' z
    by (simp_all add: conn_run_def del: conn_step.simps)
  note s1 = connect_stages(1) [OF assms(1), of n]
  note s2 = connect_stages(2) [OF conjunct1 [OF s1], of u]
  note s3 = connect_stages(3) [OF conjunct1 [OF s2], of i]
  have "\<exists>k. waiting k (conn_run ops ?c1) \<and> k \<in> {After_delete ?cb, After_client_id ?cb, After_listening ?cb}
    \<and> answers (conn_run ops ?c1) = answers c"
    using assms(2) s1 s2 s3 unfolding run1 by (auto simp: run1 simp del: conn_step.simps)
  then obtain k where "waiting k (conn_run ops ?c1)" "k \<in> {After_delete ?cb, After_client_id ?cb, After_listening ?cb}"
    "answers (conn_run ops ?c1) = answers c"
    by blast
  then show "idle (conn_run ([Op_connect n, Op_started 0 None] @ ops @ [Op_answered 0 w (Some m), Op_stopped 0 ex]) c)"
    "answers (conn_run ([Op_connect n, Op_started 0 None] @ ops @ [Op_answered 0 w (Some m), Op_stopped 0 ex]) c)
      = answers c @ [(?cb, fst (ParseMultiplayerError m))]"
    unfolding run using failed_answer_stops [of k "conn_run ops ?c1" ?cb w m ex] by simp_all
qed

lemma connect_succeeds:
  assumes "idle c"
  shows "let c' = conn_run [Op_connect n, Op_started 0 None, Op_answered 0 u None, Op_answered 0 (SUint i) None, Op_answered 0 w None] c
    in Connected c' \<and> c_ClientId c' = i \<and> Invocations c' = [] \<and> answers c' = answers c @ [(Client_callback n, EC_None)]"
proof -
  note s1 = connect_stages(1) [OF assms, of n]
  note s2 = connect_stages(2) [OF conjunct1 [OF s1], of u]
  note s3 = connect_stages(3) [OF conjunct1 [OF s2], of i]
  note s4 = connect_stages(4) [OF conjunct1 [OF s3], of w]
  show ?thesis using s1 s2 s3 s4 by (simp add: conn_run_def Let_def del: conn_step.simps)
qed

text \<open>
  C4. Connecting tells the client how it ended, once: when the socket does not start, that the
  error is unknown; when the service fails any of the three requests that follow, the error that
  the service's message names, as soon as the socket has been stopped, whatever stopping said; and
  when all succeed, no error, with the client id the service gave. After a failure the
  connection is back in the state it was.
\<close>

theorem connect_reports_its_outcome:
  assumes "idle c"
  shows "(let c' = conn_run [Op_connect n, Op_started 0 (Some m)] c
      in idle c' \<and> answers c' = answers c @ [(Client_callback n, EC_Unknown)])
    \<and> (\<forall>ops \<in> {[], [Op_answered 0 u None], [Op_answered 0 u None, Op_answered 0 (SUint i) None]}.
      let c' = conn_run ([Op_connect n, Op_started 0 None] @ ops @ [Op_answered 0 w (Some m), Op_stopped 0 ex]) c
      in idle c' \<and> answers c' = answers c @ [(Client_callback n, fst (ParseMultiplayerError m))])
    \<and> (let c' = conn_run [Op_connect n, Op_started 0 None, Op_answered 0 u None, Op_answered 0 (SUint i) None, Op_answered 0 w None] c
      in Connected c' \<and> c_ClientId c' = i \<and> Invocations c' = [] \<and> answers c' = answers c @ [(Client_callback n, EC_None)])"
  using connect_start_fails [OF assms] connect_request_fails [OF assms] connect_succeeds [OF assms]
  unfolding Let_def by (intro conjI ballI) simp_all

lemma connect_reports_its_outcome_witness:
  "let m = ''error code: Scopes_ConcurrentUsersQuota, too many users''
   in answers (conn_run [Op_connect 7, Op_started 0 None, Op_answered 0 SNull (Some m), Op_stopped 0 None] new_connection)
        = [(Client_callback 7, EC_SpaceUserLimitExceeded)]"
proof -
  have i: "idle new_connection" by (simp add: idle_def new_connection_def)
  have p: "fst (ParseMultiplayerError ''error code: Scopes_ConcurrentUsersQuota, too many users'') = EC_SpaceUserLimitExceeded"
    by code_simp
  show ?thesis
    using connect_reports_its_outcome [OF i, of 7 "''error code: Scopes_ConcurrentUsersQuota, too many users''" SNull 0 SNull None]
    unfolding Let_def p by (simp add: answers_def new_connection_def)
qed

text \<open>The error of the full space is recognised in any message that carries its code.\<close>

lemma user_limit_is_recognised:
  assumes "strstr ERROR_CODE_KEY m = Some (length before)" "m = before @ ERROR_CODE_KEY @ spaces @ ''Scopes_ConcurrentUsersQuota'' @ after"
    "list_all is_space spaces" "after = [] \<or> hd after = CHR '',''"
  shows "fst (ParseMultiplayerError m) = EC_SpaceUserLimitExceeded"
proof -
  have "takeWhile (\<lambda>c. c \<noteq> CHR '','') after = []" using assms(4) by (cases after) auto
  moreover have "dropWhile is_space (spaces @ ''Scopes_ConcurrentUsersQuota'' @ after) = ''Scopes_ConcurrentUsersQuota'' @ after"
    using assms(3) by (subst dropWhile_append2) (auto simp: list_all_iff is_space_def)
  ultimately show ?thesis using assms(1) by (simp add: ParseMultiplayerError_def Let_def assms(2) ErrorCodeMap_def)
qed


section \<open>Every request is answered once\<close>

text \<open>The callbacks the connection still holds, and those with the ones it has called.\<close>

fun held_by :: "continuation \<Rightarrow> conn_callback multiset" where
  "held_by (After_delete cb) = {#cb#}"
| "held_by (After_client_id cb) = {#cb#}"
| "held_by (After_listening cb) = {#cb#}"
| "held_by (After_self_messaging b cb) = {#cb#}"
| "held_by (After_event cb) = {#cb#}"
| "held_by After_task = {#}"

fun held_by_stop :: "stop_request \<Rightarrow> conn_callback multiset" where
  "held_by_stop (Direct_stop h) = {#fst h#}"
| "held_by_stop (Deferred_stop e) = {#}"

definition pending_stop :: "conn \<Rightarrow> conn_callback multiset" where
  "pending_stop c = (case PendingStopCallback c of None \<Rightarrow> {#} | Some h \<Rightarrow> {#fst h#})"

definition account :: "conn \<Rightarrow> conn_callback multiset" where
  "account c = mset (map fst (answers c)) + mset (Starts c) + (\<Sum>k \<leftarrow> Invocations c. held_by k)
     + pending_stop c + (\<Sum>r \<leftarrow> Stops c. held_by_stop r)"

lemma sum_remove_nth:
  fixes f :: "'a \<Rightarrow> 'b multiset"
  assumes "i < length xs"
  shows "(\<Sum>x \<leftarrow> xs. f x) = f (xs ! i) + (\<Sum>x \<leftarrow> remove_nth i xs. f x)"
  by (subst id_take_nth_drop [OF assms]) (simp add: remove_nth_def del: append_take_drop_id)

lemma mset_remove_nth: "i < length xs \<Longrightarrow> mset xs = add_mset (xs ! i) (mset (remove_nth i xs))"
  by (subst id_take_nth_drop [of i xs]) (simp_all add: remove_nth_def del: append_take_drop_id)

text \<open>
  An operation settles an account when the callbacks \<open>X\<close> it is given are called or held
  afterwards, none twice; only an operation that stops a connected socket while another stop
  waits may lose one.
\<close>

definition settles :: "(conn \<Rightarrow> conn) \<Rightarrow> conn_callback multiset \<Rightarrow> conn \<Rightarrow> bool" where
  "settles f X c \<longleftrightarrow> account (f c) \<subseteq># account c + X \<and> (PendingStopCallback c = None \<or> \<not> Connected c \<longrightarrow> account (f c) = account c + X)"

named_theorems settling \<open>how the operations settle accounts\<close>

lemma account_emit [simp]: "account (c_emit e c) = account c + mset (map fst (log_answers [e]))"
  by (simp add: account_def pending_stop_def) (simp add: c_emit_def)

lemma account_answer [simp]: "account (c_answer cb e c) = account c + {#cb#}"
  by (simp add: c_answer_def)

lemma account_fields [simp]:
  "account (c\<lparr>Connected := b\<rparr>) = account c" "account (c\<lparr>c_ClientId := i\<rparr>) = account c"
  "account (c\<lparr>AllowSelfMessaging := b\<rparr>) = account c" "account (c\<lparr>EventsConnected := b\<rparr>) = account c"
  "account (c\<lparr>PendingInvocations := n\<rparr>) = account c"
  by (simp_all add: account_def answers_def pending_stop_def)

lemma StopHandler_account [simp]: "account (StopHandler h Except c) = account c + {#fst h#}"
  by (simp add: StopHandler_def Let_def split: prod.split)

lemma SignalR_Start_account [simp]: "account (SignalR_Start cb c) = account c + {#cb#}"
  by (simp add: SignalR_Start_def) (simp add: account_def answers_def pending_stop_def)

lemma SignalR_Invoke_account [simp]: "account (SignalR_Invoke m v k c) = account c + held_by k"
  by (simp add: SignalR_Invoke_def) (simp add: account_def answers_def pending_stop_def)

lemma Stop_settles [settling]: "settles (Stop h) {#fst h#} c"
proof -
  have "account (c\<lparr>PendingStopCallback := None, Stops := Stops c @ [Direct_stop h]\<rparr>) + pending_stop c = account c + {#fst h#}"
    "account (c\<lparr>PendingStopCallback := Some h\<rparr>) + pending_stop c = account c + {#fst h#}"
    by (simp_all add: account_def answers_def pending_stop_def)
  then have a: "account (SignalR_Stop h c) + pending_stop c = account c + {#fst h#}" by (simp add: SignalR_Stop_def)
  then have "account (SignalR_Stop h c) \<subseteq># account c + {#fst h#}" by (metis mset_subset_eq_add_left)
  moreover have "PendingStopCallback c = None \<Longrightarrow> pending_stop c = {#}" by (simp add: pending_stop_def)
  ultimately show ?thesis using a by (auto simp: settles_def Stop_def)
qed

lemma connect_failed_settles [settling]: "settles (connect_failed e cb) {#cb#} c"
  using Stop_settles [of "(cb, c_str (snd (ParseMultiplayerError e)))" c]
  by (simp add: settles_def connect_failed_def DisconnectWithReason_def case_prod_beta)

lemma Disconnect_settles [settling]: "settles (Disconnect cb) {#cb#} c"
  using Stop_settles [of "(cb, c_str ''Client called disconnect.'')" c]
  by (simp add: settles_def Disconnect_def DisconnectWithReason_def)

lemma chained_settles [settling]:
  assumes "\<And>c'. step c = Inr c' \<Longrightarrow> account c' = account c + {#cb#}"
  shows "settles (chained cb step) {#cb#} c"
  using assms connect_failed_settles [of _ cb c] by (auto simp: settles_def chained_def split: sum.split)

lemma start_answered_settles [settling]: "settles (start_answered cb Except) {#cb#} c"
  using connect_failed_settles [of _ cb c]
  by (simp add: settles_def start_answered_def chained_def DeleteEntities_def Let_def split: option.split)

lemma start_succeeded_account: "account (start_answered cb None c) = account c + {#cb#}"
  by (simp add: start_answered_def chained_def DeleteEntities_def Let_def)

lemma connect_succeeded_account [simp]: "account (connect_succeeded cb c) = account c + {#cb#}"
  by (simp add: connect_succeeded_def Let_def)


text \<open>An answer that \<open>GetClientId\<close> can use.\<close>

definition usable :: "continuation \<Rightarrow> sig_value \<Rightarrow> string option \<Rightarrow> bool" where
  "usable k v ex \<longleftrightarrow> (case k of After_client_id cb \<Rightarrow> ex \<noteq> None \<or> isl (as_uinteger v) = False | _ \<Rightarrow> True)"

definition in_chain :: "continuation \<Rightarrow> bool" where
  "in_chain k \<longleftrightarrow> (case k of After_delete cb \<Rightarrow> True | After_client_id cb \<Rightarrow> True | After_listening cb \<Rightarrow> True | _ \<Rightarrow> False)"

text \<open>Whether an answer makes the chain of \<open>Connect\<close> stop the socket again.\<close>

definition fails_chain :: "continuation \<Rightarrow> string option \<Rightarrow> conn \<Rightarrow> bool" where
  "fails_chain k ex c \<longleftrightarrow> Connected c \<and> in_chain k \<and> ex \<noteq> None"

lemma continue_with_account:
  assumes "continue_with k v ex c = Some c'"
  shows "account c' \<subseteq># account c + held_by k"
    "PendingStopCallback c = None \<or> \<not> fails_chain k ex c \<Longrightarrow> account c' = account c + held_by k"
proof -
  have f: "settles (connect_failed e cb) {#cb#} c" for e cb by (rule connect_failed_settles)
  have g: "account (chained cb (RequestClientId (After_client_id cb)) c) = account c + {#cb#}" for cb
    using connect_failed_settles [of _ cb c] by (auto simp: chained_def RequestClientId_def settles_def)
  have h: "account (chained cb (StartListening (After_listening cb)) (c\<lparr>c_ClientId := i\<rparr>)) = account c + {#cb#}" for cb i
    using connect_failed_settles [of _ cb "c\<lparr>c_ClientId := i\<rparr>"] by (auto simp: chained_def StartListening_def settles_def)
  show "account c' \<subseteq># account c + held_by k"
    "PendingStopCallback c = None \<or> \<not> fails_chain k ex c \<Longrightarrow> account c' = account c + held_by k"
    using assms f g h
    by (cases k; auto simp: continue_with_def settles_def in_chain_def fails_chain_def split: option.splits sum.splits)+
qed

lemma invocation_answered_account:
  "account (invocation_answered k v ex c) \<subseteq># account c + held_by k"
  "PendingStopCallback c = None \<or> \<not> fails_chain k ex c \<Longrightarrow> usable k v ex
    \<Longrightarrow> account (invocation_answered k v ex c) = account c + held_by k"
proof -
  have d: "account (c1\<lparr>PendingInvocations := n, Stops := Stops c1 @ [Deferred_stop e]\<rparr>) = account c1" for c1 n e
    by (simp add: account_def answers_def pending_stop_def)
  have "continue_with k v ex c = None \<Longrightarrow> \<not> usable k v ex"
    by (auto simp: continue_with_def usable_def split: continuation.splits option.splits sum.splits)
  then show "account (invocation_answered k v ex c) \<subseteq># account c + held_by k"
    "PendingStopCallback c = None \<or> \<not> fails_chain k ex c \<Longrightarrow> usable k v ex
      \<Longrightarrow> account (invocation_answered k v ex c) = account c + held_by k"
    using continue_with_account [of k v ex c] d
    by (auto simp: invocation_answered_def Let_def split: option.split)
qed

lemma stop_answered_account: "account (stop_answered r ex c) = account c + held_by_stop r"
proof -
  have "account (c\<lparr>PendingStopCallback := None\<rparr>) + pending_stop c = account c"
    by (simp add: account_def answers_def pending_stop_def)
  then show ?thesis by (cases r) (auto simp: stop_answered_def pending_stop_def split: option.split)
qed

text \<open>What a step asks of the connection, and when it is orderly.\<close>

fun requested :: "conn_op \<Rightarrow> conn \<Rightarrow> conn_callback multiset" where
  "requested (Op_connect n) c = {#Client_callback n#}"
| "requested (Op_disconnect n) c = {#Client_callback n#}"
| "requested (Op_request_to_disconnect ps) c =
     (case OnRequestToDisconnect ps c of Inl _ \<Rightarrow> {#} | Inr _ \<Rightarrow> {#Disconnect_promise#})"
| "requested (Op_self_messaging b n) c = {#Client_callback n#}"
| "requested (Op_send_event e vs t n) c =
     (case SendNetworkEventToClient e vs t (Client_callback n) c of Inl _ \<Rightarrow> {#} | Inr _ \<Rightarrow> {#Client_callback n#})"
| "requested _ c = {#}"

text \<open>
  The steps that make the connection stop its socket: a disconnection of a connected client, asked
  for by the client or by the service, and a failed start or answer in the chain of \<open>Connect\<close>.
  A step is orderly unless it does so while an earlier stop waits for its turn, or hands the chain
  a client id that is not a number.
\<close>

fun stops_socket :: "conn_op \<Rightarrow> conn \<Rightarrow> bool" where
  "stops_socket (Op_disconnect n) c = Connected c"
| "stops_socket (Op_request_to_disconnect ps) c = (Connected c \<and> \<not> isl (OnRequestToDisconnect ps c))"
| "stops_socket (Op_started i ex) c = (Connected c \<and> i < length (Starts c) \<and> ex \<noteq> None)"
| "stops_socket (Op_answered i v ex) c = (i < length (Invocations c) \<and> fails_chain (Invocations c ! i) ex c)"
| "stops_socket _ c = False"

fun gives_client_id :: "conn_op \<Rightarrow> conn \<Rightarrow> bool" where
  "gives_client_id (Op_answered i v ex) c = (i < length (Invocations c) \<longrightarrow> usable (Invocations c ! i) v ex)"
| "gives_client_id _ c = True"

definition orderly :: "conn_op \<Rightarrow> conn \<Rightarrow> bool" where
  "orderly op c \<longleftrightarrow> (stops_socket op c \<longrightarrow> PendingStopCallback c = None) \<and> gives_client_id op c"

fun requested_run :: "conn_op list \<Rightarrow> conn \<Rightarrow> conn_callback multiset" where
  "requested_run [] c = {#}"
| "requested_run (op # ops) c = requested op c + requested_run ops (conn_step op c)"

fun orderly_run :: "conn_op list \<Rightarrow> conn \<Rightarrow> bool" where
  "orderly_run [] c = True"
| "orderly_run (op # ops) c = (orderly op c \<and> orderly_run ops (conn_step op c))"

lemma account_Starts: "i < length (Starts c) \<Longrightarrow> account c = account (c\<lparr>Starts := remove_nth i (Starts c)\<rparr>) + {#Starts c ! i#}"
  by (simp add: account_def answers_def pending_stop_def mset_remove_nth)

lemma account_Invocations:
  "i < length (Invocations c) \<Longrightarrow> account c = account (c\<lparr>Invocations := remove_nth i (Invocations c)\<rparr>) + held_by (Invocations c ! i)"
  by (simp add: account_def answers_def pending_stop_def sum_remove_nth [of i "Invocations c"])

lemma account_Stops:
  "i < length (Stops c) \<Longrightarrow> account c = account (c\<lparr>Stops := remove_nth i (Stops c)\<rparr>) + held_by_stop (Stops c ! i)"
  by (simp add: account_def answers_def pending_stop_def sum_remove_nth [of i "Stops c"])

lemma sent_event_cases:
  "SendNetworkEventToClient e vs t cb c = Inr c' \<Longrightarrow>
    c' = c_answer cb EC_NotConnected c \<or> (\<exists>params. c' = SignalR_Invoke SEND_EVENT_MESSAGE params (After_event cb) c)"
  by (cases "SendNetworkEvent (EventsConnected c) (c_ClientId c) e vs t")
    (auto simp: SendNetworkEventToClient_def split: send_result.split_asm)

lemma step_account:
  "account (conn_step op c) \<subseteq># account c + requested op c \<and> (orderly op c \<longrightarrow> account (conn_step op c) = account c + requested op c)"
proof (cases op)
  case (Op_disconnect n)
  then show ?thesis using Disconnect_settles [of "Client_callback n" c] by (auto simp: settles_def orderly_def)
next
  case (Op_request_to_disconnect ps)
  have "OnRequestToDisconnect ps c = Inr c' \<Longrightarrow> account c' \<subseteq># account c + {#Disconnect_promise#}
    \<and> (PendingStopCallback c = None \<or> \<not> Connected c \<longrightarrow> account c' = account c + {#Disconnect_promise#})" for c'
    using Stop_settles [of "(Disconnect_promise, r)" c for r]
    by (auto simp: OnRequestToDisconnect_def result_simps DisconnectWithReason_def settles_def)
  then show ?thesis using Op_request_to_disconnect by (auto simp: or_same_def orderly_def split: sum.splits)
next
  case (Op_started i ex)
  show ?thesis
  proof (cases "i < length (Starts c)")
    case True
    then show ?thesis
      using start_answered_settles [of "Starts c ! i" ex "c\<lparr>Starts := remove_nth i (Starts c)\<rparr>"] account_Starts [OF True] Op_started
        start_succeeded_account [of "Starts c ! i" "c\<lparr>Starts := remove_nth i (Starts c)\<rparr>"]
      by (cases ex) (auto simp: settles_def orderly_def)
  qed (simp add: Op_started)
next
  case (Op_answered i v ex)
  show ?thesis
  proof (cases "i < length (Invocations c)")
    case True
    then show ?thesis
      using invocation_answered_account [where c = "c\<lparr>Invocations := remove_nth i (Invocations c)\<rparr>" and k = "Invocations c ! i" and v = v and ex = ex]
        account_Invocations [OF True] Op_answered
      by (auto simp: orderly_def fails_chain_def)
  qed (simp add: Op_answered)
next
  case (Op_stopped i ex)
  then show ?thesis
    using stop_answered_account [of "Stops c ! i" ex "c\<lparr>Stops := remove_nth i (Stops c)\<rparr>"] account_Stops [of i c]
    by (cases "i < length (Stops c)") auto
next
  case (Op_send_event e vs t n)
  have "SendNetworkEventToClient e vs t (Client_callback n) c = Inr c' \<Longrightarrow> account c' = account c + {#Client_callback n#}" for c'
    by (auto dest: sent_event_cases)
  then show ?thesis using Op_send_event by (auto simp: or_same_def split: sum.split)
qed (auto simp: Connect_def SetAllowSelfMessagingFlag_def SetScopes_def ResetScopes_def StopListening_def StartListening_def or_same_def)

lemma run_account:
  "account (conn_run ops c) \<subseteq># account c + requested_run ops c
    \<and> (orderly_run ops c \<longrightarrow> account (conn_run ops c) = account c + requested_run ops c)"
proof (induction ops arbitrary: c)
  case (Cons op ops)
  have "account (conn_run (op # ops) c) = account (conn_run ops (conn_step op c))" by (simp add: conn_run_def)
  moreover have "account (conn_step op c) + requested_run ops (conn_step op c) \<subseteq># account c + requested op c + requested_run ops (conn_step op c)"
    using step_account [of op c] by (simp add: subset_mset.add_right_mono)
  ultimately show ?case
    using Cons.IH [of "conn_step op c"] step_account [of op c] by (auto simp: ac_simps intro: subset_mset.order_trans)
qed (simp add: conn_run_def)


text \<open>
  As many invocations are pending as are under way, and a stop that waits has something to wait
  for.
\<close>

definition gap :: "conn \<Rightarrow> int" where
  "gap c = int (PendingInvocations c) - int (length (Invocations c))"

definition stop_ok :: "conn \<Rightarrow> bool" where
  "stop_ok c \<longleftrightarrow> (PendingStopCallback c \<noteq> None \<longrightarrow> 0 < PendingInvocations c \<or> (\<exists>e. Deferred_stop e \<in> set (Stops c)))"

definition keeps_pending :: "conn \<Rightarrow> conn \<Rightarrow> bool" where
  "keeps_pending c c' \<longleftrightarrow> gap c' = gap c \<and> (stop_ok c \<longrightarrow> stop_ok c')"

lemma keeps_pending_refl [simp]: "keeps_pending c c" by (simp add: keeps_pending_def)

lemma keeps_pending_emit [simp]:
  "keeps_pending c (c_emit e c') = keeps_pending c c'" "keeps_pending c (c_answer cb er c') = keeps_pending c c'"
  "keeps_pending c (c'\<lparr>Connected := b\<rparr>) = keeps_pending c c'" "keeps_pending c (c'\<lparr>c_ClientId := i\<rparr>) = keeps_pending c c'"
  "keeps_pending c (c'\<lparr>AllowSelfMessaging := b\<rparr>) = keeps_pending c c'" "keeps_pending c (c'\<lparr>EventsConnected := b\<rparr>) = keeps_pending c c'"
  "keeps_pending c (c'\<lparr>Starts := cbs\<rparr>) = keeps_pending c c'"
  by (simp_all add: keeps_pending_def c_answer_def c_emit_def gap_def stop_ok_def)

lemma keeps_pending_from [simp]:
  "keeps_pending (c\<lparr>Connected := b\<rparr>) c' = keeps_pending c c'" "keeps_pending (c\<lparr>c_ClientId := i\<rparr>) c' = keeps_pending c c'"
  "keeps_pending (c\<lparr>Starts := cbs\<rparr>) c' = keeps_pending c c'" "keeps_pending (c\<lparr>EventsConnected := b\<rparr>) c' = keeps_pending c c'"
  by (simp_all add: keeps_pending_def gap_def stop_ok_def)

lemma keeps_pending_StopHandler [simp]: "keeps_pending c (StopHandler h ex c') = keeps_pending c c'"
  by (simp add: StopHandler_def Let_def split: prod.split)

lemma keeps_pending_Stop [simp]: "keeps_pending c (Stop h c)"
  by (auto simp: Stop_def SignalR_Stop_def) (auto simp: keeps_pending_def gap_def stop_ok_def)

lemma keeps_pending_Invoke [simp]: "keeps_pending c c' \<Longrightarrow> keeps_pending c (SignalR_Invoke m v k c')"
  by (simp add: SignalR_Invoke_def) (auto simp: keeps_pending_def gap_def stop_ok_def)

lemma keeps_pending_connect_failed [simp]: "keeps_pending c (connect_failed e cb c)"
  by (simp add: connect_failed_def DisconnectWithReason_def case_prod_beta)

lemma keeps_pending_chained:
  assumes "\<And>c'. step c = Inr c' \<Longrightarrow> keeps_pending c c'"
  shows "keeps_pending c (chained cb step c)"
  using assms by (auto simp: chained_def split: sum.split)

lemma keeps_pending_continue: "continue_with k v ex c = Some c' \<Longrightarrow> keeps_pending c c'"
proof -
  have "keeps_pending c (chained cb (RequestClientId (After_client_id cb)) c)" for cb
    by (rule keeps_pending_chained) (auto simp: RequestClientId_def split: if_splits)
  moreover have "keeps_pending (c\<lparr>c_ClientId := i\<rparr>) (chained cb (StartListening (After_listening cb)) (c\<lparr>c_ClientId := i\<rparr>))" for cb i
    by (rule keeps_pending_chained) (auto simp: StartListening_def split: if_splits)
  moreover have "keeps_pending c (connect_succeeded cb c)" for cb by (simp add: connect_succeeded_def Let_def)
  ultimately show "continue_with k v ex c = Some c' \<Longrightarrow> keeps_pending c c'"
    by (cases k) (auto simp: continue_with_def split: option.splits sum.splits)
qed


lemma keeps_pending_start: "keeps_pending c (start_answered cb ex c)"
proof -
  have "keeps_pending (c\<lparr>Connected := True\<rparr>) (chained cb (DeleteEntities ALL_ENTITIES_ID (After_delete cb)) (c\<lparr>Connected := True\<rparr>))"
    by (rule keeps_pending_chained) (auto simp: DeleteEntities_def split: if_splits)
  then show ?thesis by (simp add: start_answered_def split: option.split)
qed

definition conn_ok :: "conn \<Rightarrow> bool" where
  "conn_ok c \<longleftrightarrow> gap c = 0 \<and> stop_ok c"

lemma keeps_pending_ok: "keeps_pending c c' \<Longrightarrow> conn_ok c \<Longrightarrow> conn_ok c'"
  by (simp add: keeps_pending_def conn_ok_def)

lemma length_remove_nth: "i < length xs \<Longrightarrow> Suc (length (remove_nth i xs)) = length xs"
  by (simp add: remove_nth_def)

lemma invocation_answered_ok:
  assumes "conn_ok c" "i < length (Invocations c)" "usable (Invocations c ! i) v ex"
  shows "conn_ok (invocation_answered (Invocations c ! i) v ex (c\<lparr>Invocations := remove_nth i (Invocations c)\<rparr>))"
proof -
  let ?c = "c\<lparr>Invocations := remove_nth i (Invocations c)\<rparr>" let ?k = "Invocations c ! i"
  obtain c' where c': "continue_with ?k v ex ?c = Some c'"
    using assms(3) by (cases "continue_with ?k v ex ?c")
      (auto simp: continue_with_def usable_def split: continuation.splits option.splits sum.splits)
  have "gap c' = 1"
    using keeps_pending_continue [OF c'] assms(1) length_remove_nth [OF assms(2)] by (simp add: keeps_pending_def conn_ok_def gap_def)
  then have "PendingInvocations c' = Suc (length (Invocations c'))" by (simp add: gap_def)
  then show ?thesis by (auto simp: invocation_answered_def c' Let_def conn_ok_def gap_def stop_ok_def c_emit_def)
qed

lemma stop_answered_ok:
  assumes "conn_ok c" "i < length (Stops c)"
  shows "conn_ok (stop_answered (Stops c ! i) ex (c\<lparr>Stops := remove_nth i (Stops c)\<rparr>))"
proof -
  have s: "set (Stops c) = insert (Stops c ! i) (set (remove_nth i (Stops c)))"
    using arg_cong [OF mset_remove_nth [OF assms(2)], of set_mset] by simp
  show ?thesis
  proof (cases "Stops c ! i")
    case (Direct_stop h)
    have "conn_ok (c\<lparr>Stops := remove_nth i (Stops c)\<rparr>)" using assms(1) s Direct_stop by (auto simp: conn_ok_def gap_def stop_ok_def)
    then show ?thesis using keeps_pending_ok [OF keeps_pending_StopHandler [THEN iffD2, OF keeps_pending_refl]] Direct_stop
      by (simp add: stop_answered_def)
  next
    case (Deferred_stop e)
    have "conn_ok (c\<lparr>Stops := x, PendingStopCallback := None\<rparr>)" for x using assms(1) by (simp add: conn_ok_def gap_def stop_ok_def)
    then have "conn_ok (StopHandler h e (c\<lparr>Stops := x, PendingStopCallback := None\<rparr>))" for h x
      using keeps_pending_ok [OF keeps_pending_StopHandler [THEN iffD2, OF keeps_pending_refl]] by blast
    moreover have "PendingStopCallback c = None \<Longrightarrow> conn_ok (c_emit Bad_function_call (c\<lparr>Stops := x\<rparr>))" for x
      using assms(1) by (simp add: conn_ok_def gap_def stop_ok_def c_emit_def)
    ultimately show ?thesis using Deferred_stop by (auto simp: stop_answered_def split: option.split)
  qed
qed

lemma step_ok:
  assumes "conn_ok c" "orderly op c"
  shows "conn_ok (conn_step op c)"
proof (cases op)
  case (Op_answered i v ex)
  then show ?thesis using assms invocation_answered_ok by (auto simp: orderly_def)
next
  case (Op_stopped i ex)
  then show ?thesis using assms stop_answered_ok by auto
next
  case (Op_started i ex)
  then show ?thesis
    using assms(1) keeps_pending_ok [OF keeps_pending_start [of "c\<lparr>Starts := remove_nth i (Starts c)\<rparr>", simplified]] by auto
next
  case (Op_send_event e vs t n)
  have "SendNetworkEventToClient e vs t (Client_callback n) c = Inr c' \<Longrightarrow> keeps_pending c c'" for c'
    by (auto dest: sent_event_cases)
  then show ?thesis using assms(1) Op_send_event by (auto simp: or_same_def intro: keeps_pending_ok split: sum.split)
next
  case (Op_request_to_disconnect ps)
  have "OnRequestToDisconnect ps c = Inr c' \<Longrightarrow> keeps_pending c c'" for c'
    by (auto simp: OnRequestToDisconnect_def rbind_Inr_iff DisconnectWithReason_def)
  then show ?thesis using assms(1) Op_request_to_disconnect by (auto simp: or_same_def intro: keeps_pending_ok split: sum.split)
next
  case (Op_connect n)
  have "keeps_pending c (Connect cb c)" for cb by (simp add: Connect_def SignalR_Start_def)
  then show ?thesis using assms(1) Op_connect keeps_pending_ok by auto
qed (use assms(1) in \<open>auto simp: Disconnect_def DisconnectWithReason_def SetAllowSelfMessagingFlag_def SetScopes_def ResetScopes_def
    StopListening_def StartListening_def or_same_def intro: keeps_pending_ok [OF keeps_pending_Invoke [OF keeps_pending_refl]] keeps_pending_ok [OF keeps_pending_Stop]
    keeps_pending_ok [OF keeps_pending_emit(2) [THEN iffD2, OF keeps_pending_refl]]\<close>)

lemma run_ok: "conn_ok c \<Longrightarrow> orderly_run ops c \<Longrightarrow> conn_ok (conn_run ops c)"
  by (induction ops arbitrary: c) (auto simp: conn_run_def step_ok simp del: conn_step.simps)

text \<open>
  The first exclusion is exactly the loss: a step that stops the socket while another stop waits
  drops that stop's callback.
\<close>

lemma Stop_replaces: "Connected c \<Longrightarrow> account (Stop h c) + pending_stop c = account c + {#fst h#}"
  by (auto simp: Stop_def SignalR_Stop_def) (simp_all add: account_def answers_def pending_stop_def)

lemma disorderly_disconnect_loses:
  assumes "PendingStopCallback c = Some (cb, r)" "stops_socket (Op_disconnect n) c"
  shows "account (conn_step (Op_disconnect n) c) + {#cb#} = account c + {#Client_callback n#}"
  using assms Stop_replaces [of c "(Client_callback n, r')" for r']
  by (simp add: Disconnect_def DisconnectWithReason_def pending_stop_def)

text \<open>
  C5. No callback the client hands to the connection is called twice, whatever the client and the
  service do in whatever order. And none is forgotten: when nothing is under way any more, every
  one has been called exactly once, provided that no step stopped a connected socket (a
  disconnection, or a failure in the chain of \<open>Connect\<close>) while an earlier stop was waiting for its
  turn, and the service gave a number for the client id.
\<close>

theorem every_request_is_answered_once:
  assumes "idle c"
  shows "mset (map fst (answers (conn_run ops c))) \<subseteq># mset (map fst (answers c)) + requested_run ops c
    \<and> (orderly_run ops c \<and> Starts (conn_run ops c) = [] \<and> Invocations (conn_run ops c) = [] \<and> Stops (conn_run ops c) = []
       \<longrightarrow> mset (map fst (answers (conn_run ops c))) = mset (map fst (answers c)) + requested_run ops c)"
proof (intro conjI impI)
  let ?c = "conn_run ops c"
  have a: "account c = mset (map fst (answers c))" using assms by (simp add: idle_def account_def pending_stop_def)
  have "mset (map fst (answers ?c)) \<subseteq># account ?c" by (simp add: account_def add.assoc)
  then show "mset (map fst (answers ?c)) \<subseteq># mset (map fst (answers c)) + requested_run ops c"
    using run_account [of ops c] unfolding a by (blast intro: subset_mset.order_trans)
  assume l: "orderly_run ops c \<and> Starts ?c = [] \<and> Invocations ?c = [] \<and> Stops ?c = []"
  have "conn_ok c" using assms by (simp add: idle_def conn_ok_def gap_def stop_ok_def)
  then have "conn_ok ?c" using l by (auto intro: run_ok)
  then have "PendingStopCallback ?c = None" using l by (cases "PendingStopCallback ?c") (auto simp: conn_ok_def gap_def stop_ok_def)
  then have "account ?c = mset (map fst (answers ?c))" using l by (simp add: account_def pending_stop_def)
  then show "mset (map fst (answers ?c)) = mset (map fst (answers c)) + requested_run ops c"
    using run_account [of ops c] l unfolding a by simp
qed

lemma every_request_is_answered_once_witness:
  "let ops = [Op_connect 1, Op_started 0 None, Op_disconnect 2, Op_self_messaging True 3, Op_answered 0 SNull None,
       Op_answered 0 SNull (Some ''x''), Op_answered 0 (SUint 4) None, Op_answered 0 SNull None, Op_stopped 0 None]
   in orderly_run ops new_connection
    \<and> mset (map fst (answers (conn_run ops new_connection))) = {#Client_callback 1, Client_callback 2, Client_callback 3#}"
proof -
  let ?ops = "[Op_connect 1, Op_started 0 None, Op_disconnect 2, Op_self_messaging True 3, Op_answered 0 SNull None,
    Op_answered 0 SNull (Some ''x''), Op_answered 0 (SUint 4) None, Op_answered 0 SNull None, Op_stopped 0 None]"
  have i: "idle new_connection" by (simp add: idle_def new_connection_def)
  have o: "orderly_run ?ops new_connection"
    by (simp add: orderly_def fails_chain_def new_connection_def conn_defs SetAllowSelfMessagingFlag_def as_defs usable_def in_chain_def)
  have e: "Starts (conn_run ?ops new_connection) = []" "Invocations (conn_run ?ops new_connection) = []"
    "Stops (conn_run ?ops new_connection) = []" "answers new_connection = []"
    "requested_run ?ops new_connection = {#Client_callback 1, Client_callback 2, Client_callback 3#}"
    by (simp_all add: conn_run_def new_connection_def conn_defs SetAllowSelfMessagingFlag_def as_defs answers_def)
  have "mset (map fst (answers (conn_run ?ops new_connection))) = mset (map fst (answers new_connection)) + requested_run ?ops new_connection"
    using every_request_is_answered_once [OF i, of ?ops] o e(1-3) by blast
  then show ?thesis unfolding Let_def using o by (simp only: e list.map mset.simps add_0 simp_thms)
qed


section \<open>Stops that get in each other's way\<close>

text \<open>
  Disconnecting again while the first stop waits for a request: the first callback is never
  called, although everything ends.
\<close>

lemma second_disconnect_loses_the_first:
  assumes "waiting After_task c"
  shows "let c' = conn_run [Op_disconnect 1, Op_disconnect 2, Op_answered 0 SNull None, Op_stopped 0 None] c
    in idle c' \<and> answers c' = answers c @ [(Client_callback 2, EC_None)]"
  using assms by (simp add: waiting_def idle_def conn_run_def conn_defs Let_def answers_def)

text \<open>
  Disconnecting again while the library carries out the deferred stop: it resets the handler the
  deferred stop is going to call.
\<close>

lemma stop_during_deferred_stop_crashes:
  assumes "waiting After_task c" "HasDisconnectionCallback c = False"
  shows "last (c_Log (conn_run [Op_disconnect 1, Op_answered 0 SNull None, Op_disconnect 2, Op_stopped 0 None] c)) = Bad_function_call"
  using assms by (simp add: waiting_def conn_run_def conn_defs Let_def answers_def)

text \<open>
  The deferred stop reports the outcome of the last request: a stop that fails is reported
  as a success, and a stop that succeeds with the error of an unrelated request.
\<close>

lemma deferred_stop_reports_the_request:
  assumes "waiting After_task c"
  shows "answers (conn_run [Op_disconnect 1, Op_answered 0 SNull ex, Op_stopped 0 ex'] c)
    = answers c @ [(Client_callback 1, case ex of None \<Rightarrow> EC_None | Some m \<Rightarrow> fst (ParseMultiplayerError m))]"
  using assms by (simp add: waiting_def conn_run_def conn_defs Let_def answers_def split: option.split)

text \<open>
  A client id that is not a number: the callback of \<open>Connect\<close> is lost, and the invocation counts as
  pending for ever, so that no later disconnection ever takes place.
\<close>

lemma bad_client_id_blocks_disconnecting:
  assumes "waiting (After_client_id cb) c"
  shows "let c' = conn_run [Op_answered 0 SNull None, Op_disconnect n] c
    in answers c' = answers c \<and> Starts c' = [] \<and> Invocations c' = [] \<and> Stops c' = [] \<and> Connected c'"
  using assms by (simp add: waiting_def conn_run_def conn_defs Let_def answers_def as_defs)

end
