(* ===== verification/Accessors.thy ===== *)
theory Accessors
  imports Component_Base
begin

text \<open>
  The accessors of the built-in components (\<open>src/Multiplayer/Components/*.cpp\<close>): for every class the
  members that get and set a property, in the order of the source, as a table of name, type and
  property key, and what a member of each form does. An enumeration is represented by its number, an
  \<open>int\<close> sign-extended to the 64 bits of the property.
\<close>

section \<open>What an accessor does\<close>

datatype access_kind = A_bool | A_int | A_float | A_string | A_vector2 | A_vector3 | A_vector4 | A_enum

datatype accessor =
    Getter string access_kind u32
  | Setter string access_kind u32
  | TransformGetter u32 u32 u32
  | TransformSetter u32 u32 u32
  | VolumeSetter u32

definition enum_cast :: "u64 \<Rightarrow> u64" where
  "enum_cast i = scast (ucast i :: u32)"

definition get_property :: "access_kind \<Rightarrow> u32 \<Rightarrow> component \<Rightarrow> rep_value" where
  "get_property k Key c =
     (case k of
        A_bool \<Rightarrow> RV_bool (GetBooleanProperty c Key)
      | A_int \<Rightarrow> RV_int (GetIntegerProperty c Key)
      | A_float \<Rightarrow> RV_float (GetFloatProperty c Key)
      | A_string \<Rightarrow> RV_string (GetStringProperty c Key)
      | A_vector2 \<Rightarrow> (case GetVector2Property c Key of (x, y) \<Rightarrow> RV_vector2 x y)
      | A_vector3 \<Rightarrow> (case GetVector3Property c Key of (x, y, z) \<Rightarrow> RV_vector3 x y z)
      | A_vector4 \<Rightarrow> (case GetVector4Property c Key of (x, y, z, w) \<Rightarrow> RV_vector4 x y z w)
      | A_enum \<Rightarrow> RV_int (enum_cast (GetIntegerProperty c Key)))"

definition set_property :: "bool \<Rightarrow> u32 \<Rightarrow> rep_value \<Rightarrow> component \<Rightarrow> component" where
  "set_property modifiable Key v c = fst (SetPropertyDirect modifiable Key v c)"

text \<open>A float from 0 to 1, as \<open>SetVolume\<close> accepts; minus zero compares equal to zero.\<close>

definition unit_interval :: "float32 \<Rightarrow> bool" where
  "unit_interval x \<longleftrightarrow> x \<le> 0x3F800000 \<or> x = 0x80000000"

definition volume_of :: "rep_value \<Rightarrow> float32" where
  "volume_of v = (case RVal v of VFloat x \<Rightarrow> x | _ \<Rightarrow> 0)"

fun call_getter :: "accessor \<Rightarrow> component \<Rightarrow> rep_value list option" where
  "call_getter (Getter n k Key) c = Some [get_property k Key c]"
| "call_getter (TransformGetter p r s) c = Some [get_property A_vector3 p c, get_property A_vector4 r c, get_property A_vector3 s c]"
| "call_getter _ c = None"

fun call_setter :: "bool \<Rightarrow> accessor \<Rightarrow> rep_value list \<Rightarrow> component \<Rightarrow> component option" where
  "call_setter m (Setter n k Key) [v] c = Some (set_property m Key v c)"
| "call_setter m (TransformSetter p r s) [vp, vr, vs] c = Some (set_property m s vs (set_property m r vr (set_property m p vp c)))"
| "call_setter m (VolumeSetter Key) [v] c = Some (if unit_interval (volume_of v) then set_property m Key v c else c)"
| "call_setter _ _ _ _ = None"

section \<open>The accessors of each class\<close>

definition StaticModel_accessors :: "accessor list" where
  "StaticModel_accessors = [
     Getter ''GetExternalResourceAssetId'' A_string 1,
     Setter ''SetExternalResourceAssetId'' A_string 1,
     Getter ''GetExternalResourceAssetCollectionId'' A_string 2,
     Setter ''SetExternalResourceAssetCollectionId'' A_string 2]"

definition StaticModel_accessors2 :: "accessor list" where
  "StaticModel_accessors2 = [
     Getter ''GetPosition'' A_vector3 3,
     Setter ''SetPosition'' A_vector3 3,
     Getter ''GetRotation'' A_vector4 4,
     Setter ''SetRotation'' A_vector4 4,
     Getter ''GetScale'' A_vector3 5,
     Setter ''SetScale'' A_vector3 5,
     TransformGetter 3 4 5,
     TransformSetter 3 4 5,
     Getter ''GetIsVisible'' A_bool 6,
     Setter ''SetIsVisible'' A_bool 6,
     Getter ''GetIsARVisible'' A_bool 7,
     Setter ''SetIsARVisible'' A_bool 7,
     Getter ''GetIsVirtualVisible'' A_bool 11,
     Setter ''SetIsVirtualVisible'' A_bool 11,
     Getter ''GetThirdPartyComponentRef'' A_string 8,
     Setter ''SetThirdPartyComponentRef'' A_string 8,
     Getter ''GetIsShadowCaster'' A_bool 9,
     Setter ''SetIsShadowCaster'' A_bool 9,
     Getter ''GetShowAsHoldoutInAR'' A_bool 12,
     Setter ''SetShowAsHoldoutInAR'' A_bool 12,
     Getter ''GetShowAsHoldoutInVirtual'' A_bool 13,
     Setter ''SetShowAsHoldoutInVirtual'' A_bool 13]"

definition AnimatedModel_accessors :: "accessor list" where
  "AnimatedModel_accessors = [
     Getter ''GetExternalResourceAssetId'' A_string 1,
     Setter ''SetExternalResourceAssetId'' A_string 1,
     Getter ''GetExternalResourceAssetCollectionId'' A_string 2,
     Setter ''SetExternalResourceAssetCollectionId'' A_string 2,
     Getter ''GetPosition'' A_vector3 3,
     Setter ''SetPosition'' A_vector3 3,
     Getter ''GetRotation'' A_vector4 4,
     Setter ''SetRotation'' A_vector4 4,
     Getter ''GetScale'' A_vector3 5,
     Setter ''SetScale'' A_vector3 5,
     TransformGetter 3 4 5,
     TransformSetter 3 4 5,
     Getter ''GetIsLoopPlayback'' A_bool 6,
     Setter ''SetIsLoopPlayback'' A_bool 6,
     Getter ''GetIsPlaying'' A_bool 7,
     Setter ''SetIsPlaying'' A_bool 7,
     Getter ''GetAnimationIndex'' A_int 10,
     Setter ''SetAnimationIndex'' A_int 10]"

definition AnimatedModel_accessors2 :: "accessor list" where
  "AnimatedModel_accessors2 = [
     Getter ''GetIsVisible'' A_bool 8,
     Setter ''SetIsVisible'' A_bool 8,
     Getter ''GetIsARVisible'' A_bool 11,
     Setter ''SetIsARVisible'' A_bool 11,
     Getter ''GetIsVirtualVisible'' A_bool 15,
     Setter ''SetIsVirtualVisible'' A_bool 15,
     Getter ''GetThirdPartyComponentRef'' A_string 12,
     Setter ''SetThirdPartyComponentRef'' A_string 12,
     Getter ''GetIsShadowCaster'' A_bool 13,
     Setter ''SetIsShadowCaster'' A_bool 13,
     Getter ''GetShowAsHoldoutInAR'' A_bool 16,
     Setter ''SetShowAsHoldoutInAR'' A_bool 16,
     Getter ''GetShowAsHoldoutInVirtual'' A_bool 17,
     Setter ''SetShowAsHoldoutInVirtual'' A_bool 17]"

definition VideoPlayer_accessors :: "accessor list" where
  "VideoPlayer_accessors = [
     Getter ''GetName'' A_string 0,
     Setter ''SetName'' A_string 0,
     Getter ''GetVideoAssetId'' A_string 1,
     Setter ''SetVideoAssetId'' A_string 1,
     Getter ''GetVideoAssetURL'' A_string 2,
     Setter ''SetVideoAssetURL'' A_string 2,
     Getter ''GetAssetCollectionId'' A_string 3,
     Setter ''SetAssetCollectionId'' A_string 3,
     Getter ''GetPosition'' A_vector3 4,
     Setter ''SetPosition'' A_vector3 4,
     Getter ''GetRotation'' A_vector4 5,
     Setter ''SetRotation'' A_vector4 5,
     Getter ''GetScale'' A_vector3 6,
     Setter ''SetScale'' A_vector3 6,
     TransformGetter 4 5 6,
     TransformSetter 4 5 6,
     Getter ''GetIsStateShared'' A_bool 7,
     Setter ''SetIsStateShared'' A_bool 7,
     Getter ''GetIsAutoPlay'' A_bool 8,
     Setter ''SetIsAutoPlay'' A_bool 8,
     Getter ''GetIsLoopPlayback'' A_bool 9,
     Setter ''SetIsLoopPlayback'' A_bool 9,
     Getter ''GetIsAutoResize'' A_bool 10,
     Setter ''SetIsAutoResize'' A_bool 10,
     Getter ''GetPlaybackState'' A_enum 12,
     Setter ''SetPlaybackState'' A_enum 12,
     Getter ''GetCurrentPlayheadPosition'' A_float 13,
     Setter ''SetCurrentPlayheadPosition'' A_float 13,
     Getter ''GetTimeSincePlay'' A_float 14,
     Setter ''SetTimeSincePlay'' A_float 14,
     Getter ''GetVideoPlayerSourceType'' A_enum 15]"

definition VideoPlayer_accessors2 :: "accessor list" where
  "VideoPlayer_accessors2 = [
     Setter ''SetVideoPlayerSourceType'' A_enum 15,
     Getter ''GetStereoVideoType'' A_enum 21,
     Setter ''SetStereoVideoType'' A_enum 21,
     Getter ''GetIsStereoFlipped'' A_bool 22,
     Setter ''SetIsStereoFlipped'' A_bool 22,
     Getter ''GetIsVisible'' A_bool 16,
     Setter ''SetIsVisible'' A_bool 16,
     Getter ''GetIsARVisible'' A_bool 17,
     Setter ''SetIsARVisible'' A_bool 17,
     Getter ''GetIsVirtualVisible'' A_bool 20,
     Setter ''SetIsVirtualVisible'' A_bool 20,
     Getter ''GetAttenuationRadius'' A_float 11,
     Setter ''SetAttenuationRadius'' A_float 11,
     Getter ''GetAudioType'' A_enum 24,
     Setter ''SetAudioType'' A_enum 24,
     Getter ''GetVolume'' A_float 23,
     VolumeSetter 23,
     Getter ''GetIsEnabled'' A_bool 19,
     Setter ''SetIsEnabled'' A_bool 19]"

definition Image_accessors :: "accessor list" where
  "Image_accessors = [
     Getter ''GetImageAssetId'' A_string 1,
     Setter ''SetImageAssetId'' A_string 1,
     Getter ''GetAssetCollectionId'' A_string 2,
     Setter ''SetAssetCollectionId'' A_string 2,
     Getter ''GetName'' A_string 0,
     Setter ''SetName'' A_string 0,
     Getter ''GetPosition'' A_vector3 3,
     Setter ''SetPosition'' A_vector3 3,
     Getter ''GetRotation'' A_vector4 4,
     Setter ''SetRotation'' A_vector4 4,
     Getter ''GetScale'' A_vector3 5,
     Setter ''SetScale'' A_vector3 5,
     TransformGetter 3 4 5,
     TransformSetter 3 4 5,
     Getter ''GetIsEmissive'' A_bool 10,
     Setter ''SetIsEmissive'' A_bool 10,
     Getter ''GetIsVisible'' A_bool 6,
     Setter ''SetIsVisible'' A_bool 6,
     Getter ''GetIsARVisible'' A_bool 9,
     Setter ''SetIsARVisible'' A_bool 9,
     Getter ''GetIsVirtualVisible'' A_bool 11,
     Setter ''SetIsVirtualVisible'' A_bool 11,
     Getter ''GetBillboardMode'' A_enum 7,
     Setter ''SetBillboardMode'' A_enum 7,
     Getter ''GetDisplayMode'' A_enum 8,
     Setter ''SetDisplayMode'' A_enum 8]"

definition ExternalLink_accessors :: "accessor list" where
  "ExternalLink_accessors = [
     Getter ''GetName'' A_string 0,
     Setter ''SetName'' A_string 0,
     Getter ''GetLinkUrl'' A_string 1,
     Setter ''SetLinkUrl'' A_string 1,
     Getter ''GetPosition'' A_vector3 2,
     Setter ''SetPosition'' A_vector3 2,
     Getter ''GetRotation'' A_vector4 3,
     Setter ''SetRotation'' A_vector4 3,
     Getter ''GetScale'' A_vector3 4,
     Setter ''SetScale'' A_vector3 4,
     TransformGetter 2 3 4,
     TransformSetter 2 3 4,
     Getter ''GetDisplayText'' A_string 5,
     Setter ''SetDisplayText'' A_string 5,
     Getter ''GetIsEnabled'' A_bool 6,
     Setter ''SetIsEnabled'' A_bool 6,
     Getter ''GetIsVisible'' A_bool 7,
     Setter ''SetIsVisible'' A_bool 7,
     Getter ''GetIsARVisible'' A_bool 8,
     Setter ''SetIsARVisible'' A_bool 8,
     Getter ''GetIsVirtualVisible'' A_bool 9,
     Setter ''SetIsVirtualVisible'' A_bool 9]"

definition AvatarData_accessors :: "accessor list" where
  "AvatarData_accessors = [
     Getter ''GetAvatarId'' A_string 0,
     Setter ''SetAvatarId'' A_string 0,
     Getter ''GetUserId'' A_string 1,
     Setter ''SetUserId'' A_string 1,
     Getter ''GetState'' A_enum 2,
     Setter ''SetState'' A_enum 2,
     Getter ''GetAvatarPlayMode'' A_enum 12,
     Setter ''SetAvatarPlayMode'' A_enum 12,
     Getter ''GetAgoraUserId'' A_string 4,
     Setter ''SetAgoraUserId'' A_string 4,
     Getter ''GetIsHandIKEnabled'' A_bool 6,
     Setter ''SetIsHandIKEnabled'' A_bool 6,
     Getter ''GetTargetHandIKTargetLocation'' A_vector3 7,
     Setter ''SetTargetHandIKTargetLocation'' A_vector3 7,
     Getter ''GetHandRotation'' A_vector4 8,
     Setter ''SetHandRotation'' A_vector4 8,
     Getter ''GetHeadRotation'' A_vector4 9,
     Setter ''SetHeadRotation'' A_vector4 9,
     Getter ''GetWalkRunBlendPercentage'' A_float 10,
     Setter ''SetWalkRunBlendPercentage'' A_float 10,
     Getter ''GetTorsoTwistAlpha'' A_float 11,
     Setter ''SetTorsoTwistAlpha'' A_float 11,
     Getter ''GetMovementDirection'' A_vector3 13,
     Setter ''SetMovementDirection'' A_vector3 13,
     Getter ''GetLocomotionModel'' A_enum 14,
     Setter ''SetLocomotionModel'' A_enum 14,
     Getter ''GetIsVisible'' A_bool 15,
     Setter ''SetIsVisible'' A_bool 15,
     Getter ''GetIsARVisible'' A_bool 16,
     Setter ''SetIsARVisible'' A_bool 16,
     Getter ''GetIsVirtualVisible'' A_bool 17]"

definition AvatarData_accessors2 :: "accessor list" where
  "AvatarData_accessors2 = [
     Setter ''SetIsVirtualVisible'' A_bool 17,
     Getter ''GetAvatarUrl'' A_string 18,
     Setter ''SetAvatarUrl'' A_string 18]"

definition Light_accessors :: "accessor list" where
  "Light_accessors = [
     Getter ''GetLightType'' A_enum 1,
     Setter ''SetLightType'' A_enum 1,
     Getter ''GetColor'' A_vector3 2,
     Setter ''SetColor'' A_vector3 2,
     Getter ''GetIntensity'' A_float 3,
     Setter ''SetIntensity'' A_float 3,
     Getter ''GetRange'' A_float 4,
     Setter ''SetRange'' A_float 4,
     Getter ''GetInnerConeAngle'' A_float 5,
     Setter ''SetInnerConeAngle'' A_float 5,
     Getter ''GetOuterConeAngle'' A_float 6,
     Setter ''SetOuterConeAngle'' A_float 6,
     Getter ''GetPosition'' A_vector3 7,
     Setter ''SetPosition'' A_vector3 7,
     Getter ''GetRotation'' A_vector4 8,
     Setter ''SetRotation'' A_vector4 8,
     Getter ''GetIsVisible'' A_bool 9,
     Setter ''SetIsVisible'' A_bool 9,
     Getter ''GetIsARVisible'' A_bool 13,
     Setter ''SetIsARVisible'' A_bool 13,
     Getter ''GetIsVirtualVisible'' A_bool 16,
     Setter ''SetIsVirtualVisible'' A_bool 16,
     Getter ''GetLightCookieAssetId'' A_string 10,
     Setter ''SetLightCookieAssetId'' A_string 10,
     Getter ''GetLightCookieAssetCollectionId'' A_string 11,
     Setter ''SetLightCookieAssetCollectionId'' A_string 11,
     Getter ''GetLightCookieType'' A_enum 12,
     Setter ''SetLightCookieType'' A_enum 12,
     Getter ''GetThirdPartyComponentRef'' A_string 14,
     Setter ''SetThirdPartyComponentRef'' A_string 14,
     Getter ''GetLightShadowType'' A_enum 15,
     Setter ''SetLightShadowType'' A_enum 15]"

definition ScriptData_accessors :: "accessor list" where
  "ScriptData_accessors = [
     Getter ''GetScriptSource'' A_string 1]"

definition ScriptData_accessors2 :: "accessor list" where
  "ScriptData_accessors2 = [
     Getter ''GetOwnerId'' A_int 2,
     Setter ''SetOwnerId'' A_int 2,
     Getter ''GetScriptScope'' A_enum 3,
     Setter ''SetScriptScope'' A_enum 3]"

definition Button_accessors :: "accessor list" where
  "Button_accessors = [
     Getter ''GetLabelText'' A_string 1,
     Setter ''SetLabelText'' A_string 1,
     Getter ''GetIconAssetId'' A_string 2,
     Setter ''SetIconAssetId'' A_string 2,
     Getter ''GetAssetCollectionId'' A_string 3,
     Setter ''SetAssetCollectionId'' A_string 3,
     Getter ''GetPosition'' A_vector3 4,
     Setter ''SetPosition'' A_vector3 4,
     Getter ''GetRotation'' A_vector4 5,
     Setter ''SetRotation'' A_vector4 5,
     Getter ''GetScale'' A_vector3 6,
     Setter ''SetScale'' A_vector3 6,
     TransformGetter 4 5 6,
     TransformSetter 4 5 6,
     Getter ''GetIsEnabled'' A_bool 8,
     Setter ''SetIsEnabled'' A_bool 8,
     Getter ''GetIsVisible'' A_bool 7,
     Setter ''SetIsVisible'' A_bool 7,
     Getter ''GetIsARVisible'' A_bool 9,
     Setter ''SetIsARVisible'' A_bool 9,
     Getter ''GetIsVirtualVisible'' A_bool 10,
     Setter ''SetIsVirtualVisible'' A_bool 10]"

definition Custom_accessors :: "accessor list" where
  "Custom_accessors = [
     Getter ''GetApplicationOrigin'' A_string 0,
     Setter ''SetApplicationOrigin'' A_string 0]"

definition Portal_accessors :: "accessor list" where
  "Portal_accessors = [
     Getter ''GetSpaceId'' A_string 0,
     Setter ''SetSpaceId'' A_string 0,
     Getter ''GetPosition'' A_vector3 5,
     Setter ''SetPosition'' A_vector3 5,
     Getter ''GetRadius'' A_float 6,
     Setter ''SetRadius'' A_float 6,
     Getter ''GetIsEnabled'' A_bool 4,
     Setter ''SetIsEnabled'' A_bool 4]"

definition Conversation_accessors :: "accessor list" where
  "Conversation_accessors = [
     Getter ''GetIsVisible'' A_bool 1,
     Setter ''SetIsVisible'' A_bool 1,
     Getter ''GetIsActive'' A_bool 2,
     Getter ''GetPosition'' A_vector3 3,
     Setter ''SetPosition'' A_vector3 3,
     Getter ''GetRotation'' A_vector4 4,
     Setter ''SetRotation'' A_vector4 4,
     Setter ''SetIsActive'' A_bool 2,
     Setter ''SetTitle'' A_string 5,
     Getter ''GetTitle'' A_string 5,
     Setter ''SetResolved'' A_bool 8,
     Getter ''GetResolved'' A_bool 8,
     Setter ''SetConversationCameraPosition'' A_vector3 9,
     Getter ''GetConversationCameraPosition'' A_vector3 9,
     Setter ''SetConversationCameraRotation'' A_vector4 10,
     Getter ''GetConversationCameraRotation'' A_vector4 10]"

definition Conversation_accessors2 :: "accessor list" where
  "Conversation_accessors2 = [
     Setter ''SetConversationId'' A_string 0]"

definition Conversation_accessors3 :: "accessor list" where
  "Conversation_accessors3 = [
     Getter ''GetConversationId'' A_string 0]"

definition Audio_accessors :: "accessor list" where
  "Audio_accessors = [
     Getter ''GetPosition'' A_vector3 0,
     Setter ''SetPosition'' A_vector3 0,
     Getter ''GetPlaybackState'' A_enum 1,
     Setter ''SetPlaybackState'' A_enum 1,
     Getter ''GetAudioAssetId'' A_string 3,
     Setter ''SetAudioAssetId'' A_string 3,
     Getter ''GetAssetCollectionId'' A_string 4,
     Setter ''SetAssetCollectionId'' A_string 4,
     Getter ''GetIsLoopPlayback'' A_bool 6,
     Setter ''SetIsLoopPlayback'' A_bool 6,
     Getter ''GetTimeSincePlay'' A_float 7,
     Setter ''SetTimeSincePlay'' A_float 7,
     Getter ''GetIsEnabled'' A_bool 9,
     Setter ''SetIsEnabled'' A_bool 9,
     Getter ''GetThirdPartyComponentRef'' A_string 10,
     Setter ''SetThirdPartyComponentRef'' A_string 10,
     Getter ''GetAttenuationRadius'' A_float 5,
     Setter ''SetAttenuationRadius'' A_float 5,
     Getter ''GetAudioType'' A_enum 2,
     Setter ''SetAudioType'' A_enum 2,
     Getter ''GetVolume'' A_float 8,
     VolumeSetter 8]"

definition Collision_accessors :: "accessor list" where
  "Collision_accessors = [
     Getter ''GetPosition'' A_vector3 0,
     Setter ''SetPosition'' A_vector3 0,
     Getter ''GetRotation'' A_vector4 1,
     Setter ''SetRotation'' A_vector4 1,
     Getter ''GetScale'' A_vector3 2,
     Setter ''SetScale'' A_vector3 2,
     TransformGetter 0 1 2,
     TransformSetter 0 1 2,
     Getter ''GetCollisionShape'' A_enum 3,
     Setter ''SetCollisionShape'' A_enum 3,
     Getter ''GetCollisionMode'' A_enum 4,
     Setter ''SetCollisionMode'' A_enum 4,
     Getter ''GetCollisionAssetId'' A_string 5,
     Setter ''SetCollisionAssetId'' A_string 5,
     Getter ''GetAssetCollectionId'' A_string 6,
     Setter ''SetAssetCollectionId'' A_string 6]"

definition Collision_accessors2 :: "accessor list" where
  "Collision_accessors2 = [
     Getter ''GetThirdPartyComponentRef'' A_string 7,
     Setter ''SetThirdPartyComponentRef'' A_string 7,
     Getter ''GetIsEnabled'' A_bool 8,
     Setter ''SetIsEnabled'' A_bool 8]"

definition Reflection_accessors :: "accessor list" where
  "Reflection_accessors = [
     Getter ''GetReflectionAssetId'' A_string 1,
     Setter ''SetReflectionAssetId'' A_string 1,
     Getter ''GetAssetCollectionId'' A_string 2,
     Setter ''SetAssetCollectionId'' A_string 2,
     Getter ''GetName'' A_string 0,
     Setter ''SetName'' A_string 0,
     Getter ''GetPosition'' A_vector3 3,
     Setter ''SetPosition'' A_vector3 3,
     Getter ''GetScale'' A_vector3 5,
     Setter ''SetScale'' A_vector3 5,
     Getter ''GetReflectionShape'' A_enum 6,
     Setter ''SetReflectionShape'' A_enum 6,
     Getter ''GetThirdPartyComponentRef'' A_string 7,
     Setter ''SetThirdPartyComponentRef'' A_string 7]"

definition Fog_accessors :: "accessor list" where
  "Fog_accessors = [
     Getter ''GetFogMode'' A_enum 0,
     Setter ''SetFogMode'' A_enum 0,
     Getter ''GetPosition'' A_vector3 1,
     Setter ''SetPosition'' A_vector3 1,
     Getter ''GetRotation'' A_vector4 2,
     Setter ''SetRotation'' A_vector4 2,
     Getter ''GetScale'' A_vector3 3,
     Setter ''SetScale'' A_vector3 3,
     TransformGetter 1 2 3,
     TransformSetter 1 2 3,
     Getter ''GetStartDistance'' A_float 4,
     Setter ''SetStartDistance'' A_float 4,
     Getter ''GetEndDistance'' A_float 5,
     Setter ''SetEndDistance'' A_float 5,
     Getter ''GetColor'' A_vector3 6,
     Setter ''SetColor'' A_vector3 6,
     Getter ''GetDensity'' A_float 7,
     Setter ''SetDensity'' A_float 7,
     Getter ''GetHeightFalloff'' A_float 8,
     Setter ''SetHeightFalloff'' A_float 8,
     Getter ''GetMaxOpacity'' A_float 9,
     Setter ''SetMaxOpacity'' A_float 9,
     Getter ''GetIsVolumetric'' A_bool 10,
     Setter ''SetIsVolumetric'' A_bool 10,
     Getter ''GetIsVisible'' A_bool 11,
     Setter ''SetIsVisible'' A_bool 11,
     Getter ''GetIsARVisible'' A_bool 12,
     Setter ''SetIsARVisible'' A_bool 12,
     Getter ''GetIsVirtualVisible'' A_bool 14,
     Setter ''SetIsVirtualVisible'' A_bool 14,
     Getter ''GetThirdPartyComponentRef'' A_string 13,
     Setter ''SetThirdPartyComponentRef'' A_string 13]"

definition ECommerce_accessors :: "accessor list" where
  "ECommerce_accessors = [
     Getter ''GetPosition'' A_vector3 0,
     Setter ''SetPosition'' A_vector3 0,
     Getter ''GetProductId'' A_string 1,
     Setter ''SetProductId'' A_string 1]"

definition CinematicCamera_accessors :: "accessor list" where
  "CinematicCamera_accessors = [
     Getter ''GetPosition'' A_vector3 0,
     Setter ''SetPosition'' A_vector3 0,
     Getter ''GetRotation'' A_vector4 1,
     Setter ''SetRotation'' A_vector4 1,
     Getter ''GetFocalLength'' A_float 3,
     Setter ''SetFocalLength'' A_float 3,
     Getter ''GetAspectRatio'' A_float 4,
     Setter ''SetAspectRatio'' A_float 4,
     Getter ''GetSensorSize'' A_vector2 5,
     Setter ''SetSensorSize'' A_vector2 5,
     Getter ''GetNearClip'' A_float 6,
     Setter ''SetNearClip'' A_float 6,
     Getter ''GetFarClip'' A_float 7,
     Setter ''SetFarClip'' A_float 7,
     Getter ''GetIso'' A_float 8,
     Setter ''SetIso'' A_float 8,
     Getter ''GetShutterSpeed'' A_float 9,
     Setter ''SetShutterSpeed'' A_float 9,
     Getter ''GetAperture'' A_float 10,
     Setter ''SetAperture'' A_float 10,
     Getter ''GetFocusDistance'' A_float 13,
     Setter ''SetFocusDistance'' A_float 13,
     Getter ''GetDepthOfFieldEnabled'' A_bool 14,
     Setter ''SetDepthOfFieldEnabled'' A_bool 14,
     Getter ''GetIsViewerCamera'' A_bool 11,
     Setter ''SetIsViewerCamera'' A_bool 11,
     Getter ''GetIsEnabled'' A_bool 2,
     Setter ''SetIsEnabled'' A_bool 2,
     Getter ''GetThirdPartyComponentRef'' A_string 12,
     Setter ''SetThirdPartyComponentRef'' A_string 12]"

definition FiducialMarker_accessors :: "accessor list" where
  "FiducialMarker_accessors = [
     Getter ''GetMarkerAssetId'' A_string 1,
     Setter ''SetMarkerAssetId'' A_string 1,
     Getter ''GetAssetCollectionId'' A_string 2,
     Setter ''SetAssetCollectionId'' A_string 2,
     Getter ''GetName'' A_string 0,
     Setter ''SetName'' A_string 0,
     Getter ''GetPosition'' A_vector3 3,
     Setter ''SetPosition'' A_vector3 3,
     Getter ''GetRotation'' A_vector4 4,
     Setter ''SetRotation'' A_vector4 4,
     Getter ''GetScale'' A_vector3 5,
     Setter ''SetScale'' A_vector3 5,
     TransformGetter 3 4 5,
     TransformSetter 3 4 5,
     Getter ''GetIsVisible'' A_bool 6,
     Setter ''SetIsVisible'' A_bool 6,
     Getter ''GetIsARVisible'' A_bool 7,
     Setter ''SetIsARVisible'' A_bool 7,
     Getter ''GetIsVirtualVisible'' A_bool 8,
     Setter ''SetIsVirtualVisible'' A_bool 8]"

definition GaussianSplat_accessors :: "accessor list" where
  "GaussianSplat_accessors = [
     Getter ''GetExternalResourceAssetId'' A_string 1,
     Setter ''SetExternalResourceAssetId'' A_string 1,
     Getter ''GetExternalResourceAssetCollectionId'' A_string 2,
     Setter ''SetExternalResourceAssetCollectionId'' A_string 2,
     Getter ''GetPosition'' A_vector3 3,
     Setter ''SetPosition'' A_vector3 3,
     Getter ''GetRotation'' A_vector4 4,
     Setter ''SetRotation'' A_vector4 4,
     Getter ''GetScale'' A_vector3 5,
     Setter ''SetScale'' A_vector3 5,
     TransformGetter 3 4 5,
     TransformSetter 3 4 5,
     Getter ''GetIsVisible'' A_bool 6,
     Setter ''SetIsVisible'' A_bool 6,
     Getter ''GetIsARVisible'' A_bool 7,
     Setter ''SetIsARVisible'' A_bool 7,
     Getter ''GetIsVirtualVisible'' A_bool 10,
     Setter ''SetIsVirtualVisible'' A_bool 10,
     Getter ''GetIsShadowCaster'' A_bool 8,
     Setter ''SetIsShadowCaster'' A_bool 8,
     Getter ''GetTint'' A_vector3 9,
     Setter ''SetTint'' A_vector3 9]"

definition Text_accessors :: "accessor list" where
  "Text_accessors = [
     Getter ''GetText'' A_string 3,
     Setter ''SetText'' A_string 3,
     Getter ''GetTextColor'' A_vector3 4,
     Setter ''SetTextColor'' A_vector3 4,
     Getter ''GetBackgroundColor'' A_vector3 5,
     Setter ''SetBackgroundColor'' A_vector3 5,
     Getter ''GetIsBackgroundVisible'' A_bool 6,
     Setter ''SetIsBackgroundVisible'' A_bool 6,
     Getter ''GetWidth'' A_float 7,
     Setter ''SetWidth'' A_float 7,
     Getter ''GetHeight'' A_float 8,
     Setter ''SetHeight'' A_float 8,
     Getter ''GetPosition'' A_vector3 0,
     Setter ''SetPosition'' A_vector3 0,
     Getter ''GetRotation'' A_vector4 1,
     Setter ''SetRotation'' A_vector4 1,
     Getter ''GetScale'' A_vector3 2,
     Setter ''SetScale'' A_vector3 2,
     TransformGetter 0 1 2,
     TransformSetter 0 1 2,
     Getter ''GetIsVisible'' A_bool 10,
     Setter ''SetIsVisible'' A_bool 10,
     Getter ''GetIsARVisible'' A_bool 11,
     Setter ''SetIsARVisible'' A_bool 11,
     Getter ''GetIsVirtualVisible'' A_bool 12,
     Setter ''SetIsVirtualVisible'' A_bool 12,
     Getter ''GetBillboardMode'' A_enum 9,
     Setter ''SetBillboardMode'' A_enum 9]"

definition Hotspot_accessors :: "accessor list" where
  "Hotspot_accessors = [
     Getter ''GetName'' A_string 2,
     Setter ''SetName'' A_string 2,
     Getter ''GetIsTeleportPoint'' A_bool 3,
     Setter ''SetIsTeleportPoint'' A_bool 3,
     Getter ''GetIsSpawnPoint'' A_bool 4,
     Setter ''SetIsSpawnPoint'' A_bool 4]"

definition Hotspot_accessors2 :: "accessor list" where
  "Hotspot_accessors2 = [
     Getter ''GetPosition'' A_vector3 0,
     Setter ''SetPosition'' A_vector3 0,
     Getter ''GetRotation'' A_vector4 1,
     Setter ''SetRotation'' A_vector4 1,
     Getter ''GetIsVisible'' A_bool 5,
     Setter ''SetIsVisible'' A_bool 5,
     Getter ''GetIsARVisible'' A_bool 6,
     Setter ''SetIsARVisible'' A_bool 6,
     Getter ''GetIsVirtualVisible'' A_bool 7,
     Setter ''SetIsVirtualVisible'' A_bool 7]"

definition ScreenSharing_accessors :: "accessor list" where
  "ScreenSharing_accessors = [
     Getter ''GetUserId'' A_string 6,
     Setter ''SetUserId'' A_string 6,
     Getter ''GetDefaultImageCollectionId'' A_string 7,
     Setter ''SetDefaultImageCollectionId'' A_string 7,
     Getter ''GetDefaultImageAssetId'' A_string 8,
     Setter ''SetDefaultImageAssetId'' A_string 8,
     Getter ''GetAttenuationRadius'' A_float 9,
     Setter ''SetAttenuationRadius'' A_float 9,
     Getter ''GetPosition'' A_vector3 0,
     Setter ''SetPosition'' A_vector3 0,
     Getter ''GetRotation'' A_vector4 1,
     Setter ''SetRotation'' A_vector4 1,
     Getter ''GetScale'' A_vector3 2,
     Setter ''SetScale'' A_vector3 2,
     TransformGetter 0 1 2,
     TransformSetter 0 1 2,
     Getter ''GetIsVisible'' A_bool 3,
     Setter ''SetIsVisible'' A_bool 3,
     Getter ''GetIsARVisible'' A_bool 4,
     Setter ''SetIsARVisible'' A_bool 4,
     Getter ''GetIsVirtualVisible'' A_bool 10,
     Setter ''SetIsVirtualVisible'' A_bool 10,
     Getter ''GetIsShadowCaster'' A_bool 5,
     Setter ''SetIsShadowCaster'' A_bool 5]"

definition AIChatbot_accessors :: "accessor list" where
  "AIChatbot_accessors = [
     Getter ''GetVoice'' A_string 1,
     Setter ''SetVoice'' A_string 1,
     Getter ''GetGuardrailAssetCollectionId'' A_string 2,
     Setter ''SetGuardrailAssetCollectionId'' A_string 2,
     Getter ''GetVisualState'' A_enum 3,
     Setter ''SetVisualState'' A_enum 3,
     Getter ''GetPosition'' A_vector3 0,
     Setter ''SetPosition'' A_vector3 0]"

definition builtin_accessors :: "(component_schema \<times> accessor list) list" where
  "builtin_accessors = [(StaticModel_schema, StaticModel_accessors @ StaticModel_accessors2),
     (AnimatedModel_schema, AnimatedModel_accessors @ AnimatedModel_accessors2),
     (VideoPlayer_schema, VideoPlayer_accessors @ VideoPlayer_accessors2),
     (Image_schema, Image_accessors),
     (ExternalLink_schema, ExternalLink_accessors),
     (AvatarData_schema, AvatarData_accessors @ AvatarData_accessors2),
     (Light_schema, Light_accessors),
     (ScriptData_schema, ScriptData_accessors @ ScriptData_accessors2),
     (Button_schema, Button_accessors),
     (Custom_schema, Custom_accessors),
     (Portal_schema, Portal_accessors),
     (Conversation_schema, Conversation_accessors @ Conversation_accessors2 @ Conversation_accessors3),
     (Audio_schema, Audio_accessors),
     (Collision_schema, Collision_accessors @ Collision_accessors2),
     (Reflection_schema, Reflection_accessors),
     (Fog_schema, Fog_accessors),
     (ECommerce_schema, ECommerce_accessors),
     (CinematicCamera_schema, CinematicCamera_accessors),
     (FiducialMarker_schema, FiducialMarker_accessors),
     (GaussianSplat_schema, GaussianSplat_accessors),
     (Text_schema, Text_accessors),
     (Hotspot_schema, Hotspot_accessors @ Hotspot_accessors2),
     (ScreenSharing_schema, ScreenSharing_accessors),
     (AIChatbot_schema, AIChatbot_accessors)]"

section \<open>Every accessor has a property of its type\<close>

fun kind_type :: "access_kind \<Rightarrow> rv_type" where
  "kind_type A_bool = RBoolean" | "kind_type A_int = RInteger" | "kind_type A_float = RFloat" | "kind_type A_string = RString"
| "kind_type A_vector2 = RVector2" | "kind_type A_vector3 = RVector3" | "kind_type A_vector4 = RVector4" | "kind_type A_enum = RInteger"

fun slots :: "accessor \<Rightarrow> (access_kind \<times> u32) list" where
  "slots (Getter n k Key) = [(k, Key)]"
| "slots (Setter n k Key) = [(k, Key)]"
| "slots (TransformGetter p r s) = [(A_vector3, p), (A_vector4, r), (A_vector3, s)]"
| "slots (TransformSetter p r s) = [(A_vector3, p), (A_vector4, r), (A_vector3, s)]"
| "slots (VolumeSetter Key) = [(A_float, Key)]"

definition fits :: "component_schema \<Rightarrow> accessor \<Rightarrow> bool" where
  "fits s a \<longleftrightarrow> distinct (map snd (slots a)) \<and> list_all (\<lambda>(k, Key). Key < 100 \<and>
     (case FindSchemaProperty s (ucast Key) of Some p \<Rightarrow> RType (cp_DefaultValue p) = kind_type k | None \<Rightarrow> False)) (slots a)"


lemma accessors_fit: "list_all (\<lambda>(s, accs). list_all (fits s) accs) builtin_accessors"
  by code_simp

text \<open>The arguments a setter takes.\<close>

definition takes :: "access_kind \<Rightarrow> rep_value \<Rightarrow> bool" where
  "takes k v \<longleftrightarrow> RType v = kind_type k \<and> rv_tagged v \<and> (k = A_enum \<longrightarrow> (case RVal v of VInt i \<Rightarrow> enum_cast i = i | _ \<Rightarrow> True))"

fun accepted :: "accessor \<Rightarrow> rep_value list \<Rightarrow> bool" where
  "accepted (VolumeSetter Key) vs = list_all (\<lambda>v. unit_interval (volume_of v)) vs"
| "accepted a vs = True"

definition nearly :: "rep_value \<Rightarrow> rep_value \<Rightarrow> bool" where
  "nearly u v \<longleftrightarrow> u = v \<or> rep_eq u v"

lemma rep_eq_tagged: "rep_eq u v \<Longrightarrow> rv_tagged v \<Longrightarrow> rv_tagged u"
  by (cases u; cases v; cases "RVal u"; cases "RVal v") (auto simp: rv_tagged_def)

lemma set_property_same:
  "nearly (GetPropertyDirect (set_property True Key v c) Key) v"
  by (auto simp: nearly_def set_property_def SetPropertyDirect_def GetPropertyDirect_def split: option.split_asm)

lemma set_property_other:
  "Key' \<noteq> Key \<Longrightarrow> GetPropertyDirect (set_property m Key v c) Key' = GetPropertyDirect c Key'"
  by (simp add: set_property_def SetPropertyDirect_def GetPropertyDirect_def)

lemma get_property_nearly:
  assumes "takes k v" "nearly (GetPropertyDirect c Key) v"
  shows "nearly (get_property k Key c) v"
proof -
  let ?u = "GetPropertyDirect c Key"
  have u: "RType ?u = kind_type k" "rv_tagged ?u"
    using assms rep_eq_type [of ?u v] rep_eq_tagged [of ?u v] by (auto simp: nearly_def takes_def)
  have e: "k = A_enum \<Longrightarrow> ?u = v"
    using assms by (cases ?u; cases v; cases "RVal ?u"; cases "RVal v") (auto simp: nearly_def takes_def rv_tagged_def)
  have "get_property k Key c = ?u"
  proof (cases k)
    case A_enum
    then show ?thesis using u assms(1) e
      by (cases ?u; cases "RVal ?u") (auto simp: get_property_def GetIntegerProperty_def rv_getters rv_get_def rv_tagged_def takes_def rv_constructors)
  qed (use u in \<open>cases ?u; cases "RVal ?u"; auto simp: get_property_def GetBooleanProperty_def GetIntegerProperty_def GetFloatProperty_def
      GetStringProperty_def GetVector2Property_def GetVector3Property_def GetVector4Property_def rv_getters rv_get_def rv_tagged_def rv_constructors\<close>)+
  then show ?thesis using assms(2) by simp
qed

lemma ucast_small_key: "Key < 100 \<Longrightarrow> ucast (ucast (Key :: u32) :: u16) = Key"
  by (rule word_unat_eq_iff [THEN iffD2]) (simp add: word_less_nat_alt unsigned_ucast_eq unsigned_take_bit_eq take_bit_nat_eq_self)

lemma set_property_typed:
  assumes "fits own a" "(k, Key) \<in> set (slots a)" "schema_extends own s" "schema_typed s c" "takes k v"
  shows "schema_typed s (set_property m Key v c)"
proof -
  obtain p where p: "Key < 100" "FindSchemaProperty own (ucast Key) = Some p" "RType (cp_DefaultValue p) = kind_type k"
    using assms(1,2) by (auto simp: fits_def list_all_iff split: option.splits)
  moreover obtain q where "FindSchemaProperty s (ucast Key) = Some q" "RType (cp_DefaultValue q) = RType (cp_DefaultValue p)"
    using assms(3) FindSchemaProperty_Some [OF p(2)] by (auto simp: schema_extends_iff)
  ultimately show ?thesis
    using SetPropertyDirect_typed [OF assms(4), of "ucast Key" q v m] assms(5) by (simp add: set_property_def takes_def ucast_small_key)
qed


lemma list_all2_single: "list_all2 P [x] ys \<longleftrightarrow> (\<exists>y. ys = [y] \<and> P x y)"
  by (cases ys) auto



end
