(* ===== verification/Special_Components.thy ===== *)
theory Special_Components
  imports Accessors Csp_String
begin

text \<open>
  Built-in components that keep more than one value per property: the custom component
  (\<open>CustomSpaceComponent.cpp\<close>), whose properties are found by the hash of a name and whose names are a
  list in one string, the spline (\<open>SplineSpaceComponent.cpp\<close>), whose waypoints are
  numbered properties, and the material overrides of the model components
  (\<open>StaticModelSpaceComponent.cpp\<close>, \<open>AnimatedModelSpaceComponent.cpp\<close>). The hash is the standard
  library's and a parameter.
\<close>

definition HasKey :: "component \<Rightarrow> u32 \<Rightarrow> bool" where
  "HasKey c Key \<longleftrightarrow> map_of (c_Properties c) Key \<noteq> None"

definition put :: "bool \<Rightarrow> u32 \<Rightarrow> rep_value \<Rightarrow> component \<Rightarrow> component" where
  "put modifiable Key v c = fst (SetPropertyDirect modifiable Key v c)"

section \<open>Custom components\<close>

definition KEY_CustomPropertyList :: u32 where "KEY_CustomPropertyList = 1"
definition KEY_Num :: u32 where "KEY_Num = 2"

definition GetCustomPropertySubscriptionKey :: "(string \<Rightarrow> u64) \<Rightarrow> string \<Rightarrow> u32" where
  "GetCustomPropertySubscriptionKey hash Key = ucast (ucast (hash (c_str Key)) :: u16) + KEY_Num"

definition HasCustomProperty :: "(string \<Rightarrow> u64) \<Rightarrow> string \<Rightarrow> component \<Rightarrow> bool" where
  "HasCustomProperty hash Key c = HasKey c (GetCustomPropertySubscriptionKey hash Key)"

definition GetCustomProperty :: "(string \<Rightarrow> u64) \<Rightarrow> string \<Rightarrow> component \<Rightarrow> rep_value" where
  "GetCustomProperty hash Key c = GetPropertyDirect c (GetCustomPropertySubscriptionKey hash Key)"

text \<open>\<open>GetString\<close> where the type has been checked before.\<close>

definition string_of :: "rep_value \<Rightarrow> string" where
  "string_of v = (case GetString v of Inr s \<Rightarrow> s | Inl _ \<Rightarrow> [])"

definition AddKey :: "bool \<Rightarrow> string \<Rightarrow> component \<Rightarrow> component" where
  "AddKey m Value c =
     (if HasKey c KEY_CustomPropertyList then
        let RepVal = GetPropertyDirect c KEY_CustomPropertyList
        in if RType RepVal \<noteq> RString then c
           else let ReturnKeys = string_of RepVal
                in if length ReturnKeys \<noteq> 0
                   then put m KEY_CustomPropertyList (RV_string (String_Append Value (String_Append '','' ReturnKeys))) c
                   else put m KEY_CustomPropertyList (RV_string Value) c
      else put m KEY_CustomPropertyList (RV_string Value) c)"

fun list_contains :: "string \<Rightarrow> string list \<Rightarrow> bool" where
  "list_contains Item [] = False"
| "list_contains Item (x # xs) = (if String_eq x Item then True else list_contains Item xs)"

fun list_remove_item :: "string \<Rightarrow> string list \<Rightarrow> string list" where
  "list_remove_item Item [] = []"
| "list_remove_item Item (x # xs) = (if String_eq x Item then xs else x # list_remove_item Item xs)"

fun rejoin :: "string list \<Rightarrow> string" where
  "rejoin [] = []"
| "rejoin (k # ks) = foldl (\<lambda>ReturnKeys x. String_Append x (String_Append '','' ReturnKeys)) k ks"

definition key_list :: "string \<Rightarrow> string list" where
  "key_list s = split_from CHR '','' s"

definition RemoveKey :: "bool \<Rightarrow> string \<Rightarrow> component \<Rightarrow> component" where
  "RemoveKey m Key c =
     (let KeyList = key_list (GetStringProperty c KEY_CustomPropertyList)
      in if list_contains Key KeyList
         then put m KEY_CustomPropertyList (RV_string (rejoin (list_remove_item Key KeyList))) c
         else c)"

definition SetCustomProperty :: "(string \<Rightarrow> u64) \<Rightarrow> bool \<Rightarrow> string \<Rightarrow> rep_value \<Rightarrow> component \<Rightarrow> component" where
  "SetCustomProperty hash m Key Value c =
     (if RType Value \<noteq> InvalidType then
        let PropertyKey = GetCustomPropertySubscriptionKey hash Key;
            c1 = (if \<not> HasKey c PropertyKey then AddKey m Key c else c)
        in put m PropertyKey Value c1
      else c)"

definition RemoveCustomProperty :: "(string \<Rightarrow> u64) \<Rightarrow> bool \<Rightarrow> string \<Rightarrow> component \<Rightarrow> component" where
  "RemoveCustomProperty hash m Key c =
     (let PropertyKey = GetCustomPropertySubscriptionKey hash Key
      in if HasKey c PropertyKey then RemoveKey m Key (RemoveProperty PropertyKey c) else c)"

definition GetCustomPropertyKeys :: "component \<Rightarrow> string list" where
  "GetCustomPropertyKeys c =
     (if HasKey c KEY_CustomPropertyList then
        let RepVal = GetPropertyDirect c KEY_CustomPropertyList
        in if RType RepVal = RString \<and> length (string_of RepVal) \<noteq> 0 then key_list (string_of RepVal) else []
      else [])"

definition GetNumProperties :: "component \<Rightarrow> nat" where
  "GetNumProperties c =
     (if HasKey c KEY_CustomPropertyList then length (c_Properties c) - 1 else length (c_Properties c))"

section \<open>The custom properties are a map\<close>

text \<open>
  What a client may think of: names with values in the order in which they were first set. Setting a
  value that is nearly equal to the stored one keeps the stored one.
\<close>

type_synonym custom_map = "(string \<times> rep_value) list"

fun spec_set :: "string \<Rightarrow> rep_value \<Rightarrow> custom_map \<Rightarrow> custom_map" where
  "spec_set n v [] = [(n, v)]"
| "spec_set n v ((n', u) # m) = (if n' = n then (n, if rep_eq u v then u else v) # m else (n', u) # spec_set n v m)"

definition spec_remove :: "string \<Rightarrow> custom_map \<Rightarrow> custom_map" where
  "spec_remove n m = filter (\<lambda>nu. fst nu \<noteq> n) m"

text \<open>
  Names that can be told apart: not empty, without a comma and a NUL, and with keys of their own.
\<close>

definition good_names :: "(string \<Rightarrow> u64) \<Rightarrow> string list \<Rightarrow> bool" where
  "good_names hash ns \<longleftrightarrow> list_all (\<lambda>n. n \<noteq> [] \<and> nul_free n \<and> CHR '','' \<notin> set n) ns
     \<and> distinct (map (GetCustomPropertySubscriptionKey hash) ns)"

definition key_string :: "string list \<Rightarrow> string" where
  "key_string ns = butlast (closed_parts CHR '','' ns)"

definition represents :: "(string \<Rightarrow> u64) \<Rightarrow> string list \<Rightarrow> custom_map \<Rightarrow> component \<Rightarrow> bool" where
  "represents hash ns m c \<longleftrightarrow> omap_ok (c_Properties c) \<and> distinct (map fst m) \<and> set (map fst m) \<subseteq> set ns
     \<and> (\<forall>n \<in> set ns. map_of (c_Properties c) (GetCustomPropertySubscriptionKey hash n) = map_of m n)
     \<and> (case map_of (c_Properties c) KEY_CustomPropertyList of
          None \<Rightarrow> m = [] | Some v \<Rightarrow> v = RV_string (key_string (map fst m)))"

lemma spec_set_keys: "map fst (spec_set n v m) = (if n \<in> fst ` set m then map fst m else map fst m @ [n])"
  by (induction n v m rule: spec_set.induct) auto

lemma spec_set_map_of:
  "map_of (spec_set n v m) n' = (if n' = n then Some (case map_of m n of Some u \<Rightarrow> if rep_eq u v then u else v | None \<Rightarrow> v)
     else map_of m n')"
  by (induction n v m rule: spec_set.induct) auto

lemma spec_remove_keys: "map fst (spec_remove n m) = filter (\<lambda>x. x \<noteq> n) (map fst m)"
  by (simp add: spec_remove_def filter_map o_def)

lemma spec_remove_map_of: "map_of (spec_remove n m) n' = (if n' = n then None else map_of m n')"
  by (induction m) (auto simp: spec_remove_def)

lemma key_string_Nil [simp]: "key_string [] = []"
  by (simp add: key_string_def closed_parts_def)

lemma key_string_snoc:
  assumes "n \<noteq> []" "\<forall>x \<in> set ns. x \<noteq> []"
  shows "key_string (ns @ [n]) = (if ns = [] then n else key_string ns @ '','' @ n)"
proof -
  have "ns \<noteq> [] \<Longrightarrow> \<exists>w. closed_parts CHR '','' ns = w @ '',''"
    using assms(2)
  proof (induction ns rule: rev_induct)
    case (snoc x xs)
    then show ?case by (cases "x = []") (auto simp: closed_parts_def)
  qed simp
  then show ?thesis using assms by (auto simp: key_string_def closed_parts_def butlast_append)
qed

lemma key_string_empty: "\<forall>x \<in> set ns. x \<noteq> [] \<Longrightarrow> key_string ns = [] \<longleftrightarrow> ns = []"
proof (induction ns rule: rev_induct)
  case (snoc n ns)
  then show ?case by (auto simp: key_string_snoc)
qed simp

lemma key_list_key_string:
  assumes "\<forall>x \<in> set ns. x \<noteq> [] \<and> nul_free x \<and> CHR '','' \<notin> set x" "ns \<noteq> []"
  shows "key_list (key_string ns) = ns"
  unfolding key_list_def key_string_def using assms by (intro split_unclosed) auto

lemma rejoin_snoc: "rejoin (ns @ [n]) = (if ns = [] then n else String_Append n (String_Append '','' (rejoin ns)))"
  by (cases ns) auto

lemma rejoin_key_string: "\<forall>x \<in> set ns. x \<noteq> [] \<Longrightarrow> rejoin ns = key_string ns"
proof (induction ns rule: rev_induct)
  case (snoc n ns)
  then show ?case by (auto simp: rejoin_snoc key_string_snoc String_Append_def)
qed simp

lemma list_contains_iff: "\<forall>x \<in> set (n # ns). nul_free x \<Longrightarrow> list_contains n ns \<longleftrightarrow> n \<in> set ns"
  by (induction ns) (auto simp: String_eq_iff)

lemma list_remove_item_distinct:
  "\<forall>x \<in> set (n # ns). nul_free x \<Longrightarrow> distinct ns \<Longrightarrow> list_remove_item n ns = filter (\<lambda>x. x \<noteq> n) ns"
  by (induction ns) (auto simp: String_eq_iff filter_id_conv [THEN iffD2] intro!: filter_id_conv [THEN iffD2, symmetric])


lemma sub_key_not_list [simp]: "GetCustomPropertySubscriptionKey hash n \<noteq> KEY_CustomPropertyList"
proof -
  have "unat (ucast (ucast (hash (c_str n)) :: u16) :: u32) = unat (ucast (hash (c_str n)) :: u16)" by (rule unat_ucast_u16_u32)
  then have "unat (ucast (ucast (hash (c_str n)) :: u16) :: u32) < 65536"
    using unsigned_less [of "ucast (hash (c_str n)) :: u16"] by simp
  then have "unat (GetCustomPropertySubscriptionKey hash n) = unat (ucast (ucast (hash (c_str n)) :: u16) :: u32) + 2"
    unfolding GetCustomPropertySubscriptionKey_def KEY_Num_def by (subst unat_add_lem [THEN iffD1]) auto
  then show ?thesis by (auto simp: KEY_CustomPropertyList_def)
qed

lemma good_namesD:
  assumes "good_names hash ns" "n \<in> set ns"
  shows "n \<noteq> []" "nul_free n" "CHR '','' \<notin> set n"
    "n' \<in> set ns \<Longrightarrow> GetCustomPropertySubscriptionKey hash n = GetCustomPropertySubscriptionKey hash n' \<longleftrightarrow> n = n'"
  using assms by (auto simp: good_names_def list_all_iff distinct_map inj_on_def)

lemma map_of_put:
  "map_of (c_Properties (put True k v c)) k' =
     (if k' = k then Some (case map_of (c_Properties c) k of Some u \<Rightarrow> if rep_eq u v then u else v | None \<Rightarrow> v)
      else map_of (c_Properties c) k')"
  by (auto simp: put_def SetPropertyDirect_def split: option.split)

lemma omap_ok_put [simp]: "omap_ok (c_Properties c) \<Longrightarrow> omap_ok (c_Properties (put m k v c))"
  by (simp add: put_def SetPropertyDirect_def)

lemma rep_eq_string: "rep_eq (RV_string s) (RV_string t) \<longleftrightarrow> s = t"
  by (simp add: rv_constructors)

text \<open>The string of names, after a name was added or removed.\<close>

definition names_are :: "string list \<Rightarrow> component \<Rightarrow> bool" where
  "names_are ks c \<longleftrightarrow> (case map_of (c_Properties c) KEY_CustomPropertyList of
     None \<Rightarrow> ks = [] | Some v \<Rightarrow> v = RV_string (key_string ks))"

lemma AddKey_names:
  assumes "names_are ks c" "\<forall>x \<in> set (n # ks). x \<noteq> []"
  shows "names_are (ks @ [n]) (AddKey True n c)"
    "k \<noteq> KEY_CustomPropertyList \<Longrightarrow> map_of (c_Properties (AddKey True n c)) k = map_of (c_Properties c) k"
    "omap_ok (c_Properties c) \<Longrightarrow> omap_ok (c_Properties (AddKey True n c))"
proof -
  show "names_are (ks @ [n]) (AddKey True n c)"
  proof (cases "map_of (c_Properties c) KEY_CustomPropertyList")
    case None
    then have "ks = []" using assms(1) by (simp add: names_are_def)
    then show ?thesis using None assms(2) key_string_snoc [of n "[]"]
      by (simp add: names_are_def AddKey_def HasKey_def map_of_put)
  next
    case (Some v)
    then have v: "v = RV_string (key_string ks)" using assms(1) by (simp add: names_are_def)
    have s: "RType v = RString" "string_of v = key_string ks"
      by (simp_all add: v string_of_def rv_getters rv_get_def rv_constructors)
    have "ks = [] \<longleftrightarrow> length (key_string ks) = 0" using key_string_empty [of ks] assms(2) by simp
    then show ?thesis using Some s assms(2) key_string_snoc [of n ks]
      by (simp add: names_are_def AddKey_def HasKey_def GetPropertyDirect_def map_of_put Let_def v rep_eq_string String_Append_def)
  qed
  show "k \<noteq> KEY_CustomPropertyList \<Longrightarrow> map_of (c_Properties (AddKey True n c)) k = map_of (c_Properties c) k"
    "omap_ok (c_Properties c) \<Longrightarrow> omap_ok (c_Properties (AddKey True n c))"
    by (auto simp: AddKey_def Let_def map_of_put)
qed

lemma RemoveKey_names:
  assumes "names_are ks c" "\<forall>x \<in> set (n # ks). x \<noteq> [] \<and> nul_free x \<and> CHR '','' \<notin> set x" "distinct ks" "n \<in> set ks"
  shows "names_are (filter (\<lambda>x. x \<noteq> n) ks) (RemoveKey True n c)"
    "k \<noteq> KEY_CustomPropertyList \<Longrightarrow> map_of (c_Properties (RemoveKey True n c)) k = map_of (c_Properties c) k"
    "omap_ok (c_Properties c) \<Longrightarrow> omap_ok (c_Properties (RemoveKey True n c))"
proof -
  have v: "map_of (c_Properties c) KEY_CustomPropertyList = Some (RV_string (key_string ks))"
    using assms(1,4) by (auto simp: names_are_def split: option.splits)
  have l: "key_list (GetStringProperty c KEY_CustomPropertyList) = ks"
    using assms(2,4) by (subst key_list_key_string [symmetric])
      (auto simp: GetStringProperty_def GetPropertyDirect_def v rv_getters rv_get_def rv_constructors)
  have r: "rejoin (list_remove_item n ks) = key_string (filter (\<lambda>x. x \<noteq> n) ks)" "list_contains n ks"
    using assms(2-4) list_remove_item_distinct [of n ks] list_contains_iff [of n ks] rejoin_key_string [of "filter (\<lambda>x. x \<noteq> n) ks"] by auto
  show "names_are (filter (\<lambda>x. x \<noteq> n) ks) (RemoveKey True n c)"
    by (simp add: names_are_def RemoveKey_def l r map_of_put v rep_eq_string)
  show "k \<noteq> KEY_CustomPropertyList \<Longrightarrow> map_of (c_Properties (RemoveKey True n c)) k = map_of (c_Properties c) k"
    "omap_ok (c_Properties c) \<Longrightarrow> omap_ok (c_Properties (RemoveKey True n c))"
    by (auto simp: RemoveKey_def Let_def map_of_put)
qed

lemma represents_names: "represents hash ns m c \<longleftrightarrow> omap_ok (c_Properties c) \<and> distinct (map fst m) \<and> set (map fst m) \<subseteq> set ns
  \<and> (\<forall>n \<in> set ns. map_of (c_Properties c) (GetCustomPropertySubscriptionKey hash n) = map_of m n) \<and> names_are (map fst m) c"
  by (simp add: represents_def names_are_def split: option.split)

lemma SetCustomProperty_represents:
  assumes "good_names hash ns" "n \<in> set ns" "RType v \<noteq> InvalidType" "represents hash ns m c"
  shows "represents hash ns (spec_set n v m) (SetCustomProperty hash True n v c)"
proof -
  note r = assms(4) [unfolded represents_names]
  let ?k = "GetCustomPropertySubscriptionKey hash" let ?c1 = "if \<not> HasKey c (?k n) then AddKey True n c else c"
  have "x \<in> set (n # map fst m) \<Longrightarrow> x \<in> set ns" for x using assms(2) r by auto
  then have ne: "\<forall>x \<in> set (n # map fst m). x \<noteq> []" using good_namesD(1) [OF assms(1)] by blast
  have new: "\<not> HasKey c (?k n) \<longleftrightarrow> n \<notin> fst ` set m"
    using r assms(2) by (auto simp: HasKey_def map_of_eq_None_iff)
  note add = AddKey_names [of "map fst m" c n, OF _ ne]
  have c1: "omap_ok (c_Properties ?c1)" "\<forall>x \<in> set ns. map_of (c_Properties ?c1) (?k x) = map_of m x"
    "names_are (map fst (spec_set n v m)) ?c1"
    using r add new by (auto simp: spec_set_keys)
  have "names_are ks (put True (?k n) v ?c1) = names_are ks ?c1" for ks
    by (simp add: names_are_def map_of_put sub_key_not_list [symmetric] del: sub_key_not_list)
  moreover have "\<forall>x \<in> set ns. map_of (c_Properties (put True (?k n) v ?c1)) (?k x) = map_of (spec_set n v m) x"
    using c1(2) good_namesD(4) [OF assms(1)] assms(2) by (auto simp: map_of_put spec_set_map_of)
  moreover have "distinct (map fst (spec_set n v m))" "set (map fst (spec_set n v m)) \<subseteq> set ns"
    using r assms(2) by (auto simp: spec_set_keys)
  ultimately show ?thesis using c1(1,3) assms(3) by (simp add: represents_names SetCustomProperty_def Let_def)
qed

lemma RemoveCustomProperty_represents:
  assumes "good_names hash ns" "n \<in> set ns" "represents hash ns m c"
  shows "represents hash ns (spec_remove n m) (RemoveCustomProperty hash True n c)"
proof -
  note r = assms(3) [unfolded represents_names]
  let ?k = "GetCustomPropertySubscriptionKey hash"
  have has: "HasKey c (?k n) \<longleftrightarrow> n \<in> fst ` set m"
    using r assms(2) by (auto simp: HasKey_def map_of_eq_None_iff)
  show ?thesis
  proof (cases "n \<in> fst ` set m")
    case False
    then have "spec_remove n m = m" by (force simp: spec_remove_def filter_id_conv)
    then show ?thesis using False has assms(3) by (simp add: RemoveCustomProperty_def)
  next
    case True
    let ?c1 = "RemoveProperty (?k n) c"
    have in_ns: "x \<in> set (n # map fst m) \<Longrightarrow> x \<in> set ns" for x using assms(2) r by auto
    have ok: "\<forall>x \<in> set (n # map fst m). x \<noteq> [] \<and> nul_free x \<and> CHR '','' \<notin> set x"
      using good_namesD(1-3) [OF assms(1)] assms(2) in_ns by blast
    have del: "map_of (c_Properties ?c1) k = (if k = ?k n then None else map_of (c_Properties c) k)" for k
      using r by (simp add: RemoveProperty_def map_of_omap_del omap_ok_distinct)
    have names: "names_are (map fst m) ?c1" using r by (simp add: names_are_def del sub_key_not_list [symmetric] del: sub_key_not_list)
    note rem = RemoveKey_names [OF names ok]
    have "names_are (map fst (spec_remove n m)) (RemoveKey True n ?c1)"
      using rem(1) r True by (simp add: spec_remove_keys)
    moreover have "\<forall>x \<in> set ns. map_of (c_Properties (RemoveKey True n ?c1)) (?k x) = map_of (spec_remove n m) x"
      using rem(2) r True good_namesD(4) [OF assms(1)] assms(2) by (auto simp: del spec_remove_map_of)
    moreover have "omap_ok (c_Properties (RemoveKey True n ?c1))" using rem(3) r True by (simp add: RemoveProperty_def)
    moreover have "distinct (map fst (spec_remove n m))" "set (map fst (spec_remove n m)) \<subseteq> set ns"
      using r by (auto simp: spec_remove_keys)
    ultimately show ?thesis using True has by (simp add: represents_names RemoveCustomProperty_def Let_def)
  qed
qed


datatype custom_op = Set_custom string rep_value | Remove_custom string

fun op_name :: "custom_op \<Rightarrow> string" where
  "op_name (Set_custom n v) = n"
| "op_name (Remove_custom n) = n"

fun op_valid :: "custom_op \<Rightarrow> bool" where
  "op_valid (Set_custom n v) = (RType v \<noteq> InvalidType)"
| "op_valid (Remove_custom n) = True"

fun run_custom :: "(string \<Rightarrow> u64) \<Rightarrow> custom_op \<Rightarrow> component \<Rightarrow> component" where
  "run_custom hash (Set_custom n v) c = SetCustomProperty hash True n v c"
| "run_custom hash (Remove_custom n) c = RemoveCustomProperty hash True n c"

fun spec_custom :: "custom_op \<Rightarrow> custom_map \<Rightarrow> custom_map" where
  "spec_custom (Set_custom n v) m = spec_set n v m"
| "spec_custom (Remove_custom n) m = spec_remove n m"

lemma run_custom_represents:
  assumes "good_names hash ns" "\<forall>op \<in> set ops. op_name op \<in> set ns \<and> op_valid op" "represents hash ns m c"
  shows "represents hash ns (fold spec_custom ops m) (fold (run_custom hash) ops c)"
  using assms(2,3)
proof (induction ops arbitrary: m c)
  case (Cons op ops)
  then have "represents hash ns (spec_custom op m) (run_custom hash op c)"
    using SetCustomProperty_represents [OF assms(1)] RemoveCustomProperty_represents [OF assms(1)] by (cases op) auto
  then show ?case using Cons by simp
qed simp

lemma represents_reads:
  assumes "good_names hash ns" "represents hash ns m c"
  shows "GetCustomPropertyKeys c = map fst m"
    "n \<in> set ns \<Longrightarrow> HasCustomProperty hash n c \<longleftrightarrow> n \<in> fst ` set m"
    "n \<in> set ns \<Longrightarrow> map_of m n = Some v \<Longrightarrow> GetCustomProperty hash n c = v"
proof -
  note r = assms(2) [unfolded represents_names]
  have in_ns: "x \<in> set (map fst m) \<Longrightarrow> x \<in> set ns" for x using r by blast
  then have ok: "\<forall>x \<in> set (map fst m). x \<noteq> [] \<and> nul_free x \<and> CHR '','' \<notin> set x"
    using good_namesD(1-3) [OF assms(1)] by blast
  show "GetCustomPropertyKeys c = map fst m"
  proof (cases "map_of (c_Properties c) KEY_CustomPropertyList")
    case (Some v)
    then have v: "v = RV_string (key_string (map fst m))" using r by (simp add: names_are_def)
    have s: "RType v = RString" "string_of v = key_string (map fst m)"
      by (simp_all add: v string_of_def rv_getters rv_get_def rv_constructors)
    show ?thesis
      using Some s key_list_key_string [OF ok] key_string_empty [of "map fst m"] ok
      by (cases "m = []") (auto simp: GetCustomPropertyKeys_def HasKey_def GetPropertyDirect_def)
  qed (use r in \<open>simp add: GetCustomPropertyKeys_def HasKey_def names_are_def\<close>)
  show "n \<in> set ns \<Longrightarrow> HasCustomProperty hash n c \<longleftrightarrow> n \<in> fst ` set m"
    using r by (auto simp: HasCustomProperty_def HasKey_def map_of_eq_None_iff)
  show "n \<in> set ns \<Longrightarrow> map_of m n = Some v \<Longrightarrow> GetCustomProperty hash n c = v"
    using r by (simp add: GetCustomProperty_def GetPropertyDirect_def)
qed

lemma fresh_custom_represents:
  assumes "\<forall>n \<in> set ns. GetCustomPropertySubscriptionKey hash n \<noteq> COMPONENT_KEY_NAME"
  shows "represents hash ns [] (component_of_schema Custom_schema)"
proof -
  have "GetCustomPropertySubscriptionKey hash n \<noteq> 0" for n
  proof
    assume "GetCustomPropertySubscriptionKey hash n = 0"
    then have "(ucast (ucast (hash (c_str n)) :: u16) :: u32) = - 2" by (simp add: GetCustomPropertySubscriptionKey_def KEY_Num_def eq_neg_iff_add_eq_0)
    then have "unat (ucast (hash (c_str n)) :: u16) = unat (- 2 :: u32)" using unat_ucast_u16_u32 by metis
    moreover have "unat (ucast (hash (c_str n)) :: u16) < 2 ^ LENGTH(16)" by (rule unsigned_less)
    ultimately show False by simp
  qed
  then show ?thesis using assms
    by (simp add: represents_def component_of_schema_def Let_def new_component_def Custom_schema_def property_def KEY_CustomPropertyList_def
        COMPONENT_KEY_NAME_def)
qed

text \<open>
  C29. A custom component is a map from names to values, in the order in which the names were first
  set: after any calls that set and remove properties, the list of names, the presence of a
  name and the value read under it are those of the map, as long as the names have no comma
  and their hashes lead to different keys, none of them that of the component's own name.
\<close>

theorem custom_component_is_a_map:
  assumes "good_names hash ns" "\<forall>n \<in> set ns. GetCustomPropertySubscriptionKey hash n \<noteq> COMPONENT_KEY_NAME"
    "\<forall>op \<in> set ops. op_name op \<in> set ns \<and> op_valid op"
  shows "let c = fold (run_custom hash) ops (component_of_schema Custom_schema); m = fold spec_custom ops []
    in GetCustomPropertyKeys c = map fst m
     \<and> (\<forall>n \<in> set ns. (HasCustomProperty hash n c \<longleftrightarrow> n \<in> fst ` set m) \<and> (\<forall>v. map_of m n = Some v \<longrightarrow> GetCustomProperty hash n c = v))"
  unfolding Let_def
  using represents_reads [OF assms(1) run_custom_represents [OF assms(1,3) fresh_custom_represents [OF assms(2)]]] by blast

lemma custom_component_is_a_map_witness:
  "let hash = (\<lambda>s. of_nat (length s)); ops = [Set_custom ''a'' (RV_int 1), Set_custom ''bc'' (RV_bool True), Set_custom ''a'' (RV_int 2), Remove_custom ''bc'']
   in GetCustomPropertyKeys (fold (run_custom hash) ops (component_of_schema Custom_schema)) = [''a'']
    \<and> GetCustomProperty hash ''a'' (fold (run_custom hash) ops (component_of_schema Custom_schema)) = RV_int 2"
proof -
  have g: "good_names (\<lambda>s. of_nat (length s)) [''a'', ''bc'']" by code_simp
  have k: "\<forall>n \<in> set [''a'', ''bc'']. GetCustomPropertySubscriptionKey (\<lambda>s. of_nat (length s)) n \<noteq> COMPONENT_KEY_NAME" by code_simp
  show ?thesis
    unfolding Let_def
    using custom_component_is_a_map [OF g k, of "[Set_custom ''a'' (RV_int 1), Set_custom ''bc'' (RV_bool True), Set_custom ''a'' (RV_int 2), Remove_custom ''bc'']"]
    unfolding Let_def by (simp add: rv_constructors spec_remove_def)
qed

text \<open>A name with a comma is listed as two; names whose hashes agree share one value.\<close>

lemma comma_splits_the_name:
  "GetCustomPropertyKeys (SetCustomProperty (\<lambda>s. of_nat (length s)) True ''a,b'' (RV_int 1) (component_of_schema Custom_schema)) = [''a'', ''b'']"
  by code_simp

lemma colliding_names_share_a_value:
  "let hash = (\<lambda>s. of_nat (length s));
       c = SetCustomProperty hash True ''b'' (RV_int 2) (SetCustomProperty hash True ''a'' (RV_int 1) (component_of_schema Custom_schema))
   in GetCustomProperty hash ''a'' c = RV_int 2 \<and> GetCustomPropertyKeys c = [''a'']"
  by code_simp

section \<open>Spline waypoints\<close>

text \<open>
  The number of waypoints is the property 0, the waypoints are the properties from 1 on. The loop's
  counter is an \<open>int\<close>: lists of less than \<open>2 ^ 31\<close> waypoints are within its range.
\<close>

definition KEY_Waypoints :: u32 where "KEY_Waypoints = 0"

definition waypoint_key :: "nat \<Rightarrow> u32" where
  "waypoint_key i = KEY_Waypoints + 1 + of_nat i"

definition GetWaypoints :: "component \<Rightarrow> (float32 \<times> float32 \<times> float32) list" where
  "GetWaypoints c =
     (let RepVal = sint (GetIntegerProperty c KEY_Waypoints)
      in map (\<lambda>i. GetVector3Property c (waypoint_key i)) [0..<nat RepVal])"

definition RV_of_vector3 :: "float32 \<times> float32 \<times> float32 \<Rightarrow> rep_value" where
  "RV_of_vector3 p = (case p of (x, y, z) \<Rightarrow> RV_vector3 x y z)"

definition SetWaypoints :: "bool \<Rightarrow> (float32 \<times> float32 \<times> float32) list \<Rightarrow> component \<Rightarrow> component" where
  "SetWaypoints m Waypoints c =
     fold (\<lambda>i. put m (waypoint_key i) (RV_of_vector3 (Waypoints ! i))) [0..<length Waypoints]
       (put m KEY_Waypoints (RV_int (of_nat (length Waypoints))) c)"

lemma waypoint_key_inj:
  assumes "i < 2 ^ 31" "j < 2 ^ 31"
  shows "waypoint_key i = waypoint_key j \<longleftrightarrow> i = j" and "waypoint_key i \<noteq> KEY_Waypoints"
proof -
  have u: "unat (waypoint_key i) = i + 1" if "i < 2 ^ 31" for i
  proof -
    have "waypoint_key i = of_nat (i + 1)" by (simp add: waypoint_key_def KEY_Waypoints_def)
    moreover have "unat (of_nat (i + 1) :: u32) = i + 1"
      using that by (simp only: unsigned_of_nat) (simp add: take_bit_nat_eq_self)
    ultimately show ?thesis by (simp only:)
  qed
  show "waypoint_key i = waypoint_key j \<longleftrightarrow> i = j" using u [OF assms(1)] u [OF assms(2)] by (auto simp: word_unat_eq_iff)
  show "waypoint_key i \<noteq> KEY_Waypoints" using u [OF assms(1)] by (auto simp: word_unat_eq_iff KEY_Waypoints_def)
qed

lemma put_lookup:
  "map_of (c_Properties (put True k v c)) k' =
     (if k' = k then Some (case map_of (c_Properties c) k of Some u \<Rightarrow> if rep_eq u v then u else v | None \<Rightarrow> v)
      else map_of (c_Properties c) k')"
  by (auto simp: put_def SetPropertyDirect_def split: option.split)

lemma put_nearly: "\<exists>u. map_of (c_Properties (put True k v c)) k = Some u \<and> nearly u v"
  by (auto simp: put_lookup nearly_def split: option.split)

lemma rep_eq_int: "rep_eq u (RV_int n) \<longleftrightarrow> u = RV_int n"
  by (cases u; cases "RVal u") (auto simp: rv_constructors)

lemma sint_small_u64:
  assumes "n < 2 ^ 31" shows "sint (of_nat n :: u64) = int n"
proof -
  have "take_bit 64 n = n" using assms by (intro take_bit_nat_eq_self) simp
  moreover have "signed_take_bit 63 (int n) = int n" using assms by (intro signed_take_bit_int_eq_self) simp_all
  ultimately show ?thesis by (simp add: sint_uint unsigned_of_nat)
qed

lemma nearly_vector3:
  assumes "nearly u (RV_of_vector3 w)"
  shows "RType u = RVector3" and "RV_of_vector3 (case GetVector3 u of Inr x \<Rightarrow> x | Inl _ \<Rightarrow> (0, 0, 0)) = u"
  using assms by (cases u; cases "RVal u"; cases w;
    auto simp: nearly_def RV_of_vector3_def rv_constructors rv_getters rv_get_def)+

lemma fold_put_lookup:
  assumes "n < 2 ^ 31"
  shows "(\<forall>i < n. \<exists>u. map_of (c_Properties (fold (\<lambda>i. put True (waypoint_key i) (f i)) [0..<n] c)) (waypoint_key i) = Some u \<and> nearly u (f i))
    \<and> map_of (c_Properties (fold (\<lambda>i. put True (waypoint_key i) (f i)) [0..<n] c)) KEY_Waypoints = map_of (c_Properties c) KEY_Waypoints"
  using assms
proof (induction n)
  case (Suc n)
  let ?c = "fold (\<lambda>i. put True (waypoint_key i) (f i)) [0..<n] c"
  have step: "fold (\<lambda>i. put True (waypoint_key i) (f i)) [0..<Suc n] c = put True (waypoint_key n) (f n) ?c" by simp
  have "\<exists>u. map_of (c_Properties (put True (waypoint_key n) (f n) ?c)) (waypoint_key i) = Some u \<and> nearly u (f i)" if "i < Suc n" for i
  proof (cases "i = n")
    case True then show ?thesis using put_nearly by simp
  next
    case False
    then have "i < n" using that by simp
    moreover have "waypoint_key i \<noteq> waypoint_key n" using waypoint_key_inj(1) [of i n] False Suc.prems \<open>i < n\<close> by simp
    ultimately show ?thesis using Suc by (simp add: put_lookup)
  qed
  moreover have "waypoint_key n \<noteq> KEY_Waypoints" using waypoint_key_inj(2) [of n n] Suc.prems by simp
  ultimately show ?case using Suc unfolding step by (simp add: put_lookup)
qed simp

text \<open>
  C0. The waypoints of a spline are read back as they were set, in number and in order, whatever the
  component held before; a waypoint that was already there with nearly the same
  coordinates keeps the old ones.
\<close>

theorem waypoints_read_as_set:
  assumes "length ws < 2 ^ 31"
  shows "list_all2 (\<lambda>p w. nearly (RV_of_vector3 p) (RV_of_vector3 w)) (GetWaypoints (SetWaypoints True ws c)) ws"
proof -
  let ?start = "put True KEY_Waypoints (RV_int (of_nat (length ws))) c" and ?f = "\<lambda>i. RV_of_vector3 (ws ! i)"
  let ?c = "SetWaypoints True ws c"
  have f: "(\<forall>i < length ws. \<exists>u. map_of (c_Properties ?c) (waypoint_key i) = Some u \<and> nearly u (?f i))"
    "map_of (c_Properties ?c) KEY_Waypoints = map_of (c_Properties ?start) KEY_Waypoints"
    using fold_put_lookup [OF assms, where f = ?f and c = ?start] by (simp_all add: SetWaypoints_def)
  have "map_of (c_Properties ?start) KEY_Waypoints = Some (RV_int (of_nat (length ws)))"
    using put_nearly [of KEY_Waypoints "RV_int (of_nat (length ws))" c] rep_eq_int by (auto simp: nearly_def)
  then have n: "nat (sint (GetIntegerProperty ?c KEY_Waypoints)) = length ws"
    using f assms sint_small_u64 [of "length ws"] by (simp add: GetIntegerProperty_def GetPropertyDirect_def rv_constructors rv_getters rv_get_def)
  have "nearly (RV_of_vector3 (GetVector3Property ?c (waypoint_key i))) (RV_of_vector3 (ws ! i))" if i: "i < length ws" for i
  proof -
    obtain u where u: "map_of (c_Properties ?c) (waypoint_key i) = Some u" "nearly u (RV_of_vector3 (ws ! i))" using f i by blast
    then show ?thesis using nearly_vector3 [OF u(2)] by (simp add: GetVector3Property_def GetPropertyDirect_def)
  qed
  then show ?thesis using n by (simp add: GetWaypoints_def Let_def list_all2_conv_all_nth)
qed

lemma waypoints_read_as_set_witness:
  "list_all2 (\<lambda>p w. nearly (RV_of_vector3 p) (RV_of_vector3 w))
     (GetWaypoints (SetWaypoints True [(1, 2, 3), (4, 5, 6)] (component_of_schema Spline_schema))) [(1, 2, 3), (4, 5, 6)]"
  by (rule waypoints_read_as_set) simp

text \<open>The schema declares the property a float, the count is an integer: through the schema it cannot be set.\<close>

lemma waypoint_count_is_not_of_the_schema:
  "SetProperty True 0 (RV_int 1) (component_of_schema Spline_schema) = (component_of_schema Spline_schema, False)"
  "map_option RType (map_of (c_Properties (SetWaypoints True [] (component_of_schema Spline_schema))) KEY_Waypoints) = Some RInteger"
  by code_simp+

section \<open>Material overrides\<close>

text \<open>
  The model components keep a map from model paths to material identifiers as one string-map value,
  the static model under the key 10, the animated model under the key 14. Reading a value of
  another type throws, the result \<open>None\<close>.
\<close>

definition KEY_StaticModel_MaterialOverrides :: u32 where "KEY_StaticModel_MaterialOverrides = 10"
definition KEY_AnimatedModel_MaterialOverrides :: u32 where "KEY_AnimatedModel_MaterialOverrides = 14"

fun override_strings :: "(string, rep_value) omap \<Rightarrow> (string, string) omap option" where
  "override_strings [] = Some []"
| "override_strings ((k, v) # m) =
     (case GetString v of Inl _ \<Rightarrow> None | Inr s \<Rightarrow> map_option (omap_upd k s) (override_strings m))"

definition GetMaterialOverrides :: "u32 \<Rightarrow> component \<Rightarrow> (string, string) omap option" where
  "GetMaterialOverrides Key c = override_strings (GetStringMapProperty c Key)"

definition AddMaterialOverride :: "u32 \<Rightarrow> bool \<Rightarrow> string \<Rightarrow> string \<Rightarrow> component \<Rightarrow> component" where
  "AddMaterialOverride Key m ModelPath MaterialId c =
     put m Key (RV_map (omap_upd ModelPath (RV_string MaterialId) (GetStringMapProperty c Key))) c"

definition RemoveMaterialOverride :: "u32 \<Rightarrow> bool \<Rightarrow> string \<Rightarrow> component \<Rightarrow> component" where
  "RemoveMaterialOverride Key m ModelPath c = put m Key (RV_map (omap_del ModelPath (GetStringMapProperty c Key))) c"

datatype override_op = Add_override string string | Remove_override string

fun run_override :: "u32 \<Rightarrow> override_op \<Rightarrow> component \<Rightarrow> component" where
  "run_override Key (Add_override p i) c = AddMaterialOverride Key True p i c"
| "run_override Key (Remove_override p) c = RemoveMaterialOverride Key True p c"

fun spec_override :: "override_op \<Rightarrow> (string, string) omap \<Rightarrow> (string, string) omap" where
  "spec_override (Add_override p i) m = omap_upd p i m"
| "spec_override (Remove_override p) m = omap_del p m"

abbreviation string_values :: "(string, string) omap \<Rightarrow> (string, rep_value) omap" where
  "string_values m \<equiv> map (\<lambda>kv. (fst kv, RV_string (snd kv))) m"

lemma string_values_upd: "omap_upd k (RV_string v) (string_values m) = string_values (omap_upd k v m)"
  by (induction k v m rule: omap_upd.induct) auto

lemma string_values_del: "omap_del k (string_values m) = string_values (omap_del k m)"
  by (induction k m rule: omap_del.induct) auto

lemma rep_eq_RV_string: "rep_eq u (RV_string s) \<longleftrightarrow> u = RV_string s"
  by (cases u; cases "RVal u") (auto simp: rv_constructors)

lemma map_eq_string_values: "map_eq m (string_values n) \<longleftrightarrow> m = string_values n"
proof (induction n arbitrary: m)
  case Nil then show ?case by (cases m) auto
next
  case IH: (Cons kv n)
  show ?case
  proof (cases m)
    case (Cons k m')
    then show ?thesis by (cases k) (simp add: rep_eq_RV_string IH)
  qed simp
qed

lemma rep_eq_RV_map: "rep_eq u (RV_map n) \<longleftrightarrow> (\<exists>m. u = RV_map m \<and> map_eq m n)"
  by (cases u; cases "RVal u") (auto simp: RV_map_def)

lemma put_string_values: "map_of (c_Properties (put True Key (RV_map (string_values m)) c)) Key = Some (RV_map (string_values m))"
proof (cases "map_of (c_Properties c) Key")
  case (Some u)
  have "rep_eq u (RV_map (string_values m)) \<longleftrightarrow> u = RV_map (string_values m)"
    unfolding rep_eq_RV_map map_eq_string_values by blast
  with Some show ?thesis by (simp only: put_lookup option.case if_True refl split: if_split) blast
qed (simp add: put_lookup)

definition overrides_are :: "u32 \<Rightarrow> (string, string) omap \<Rightarrow> component \<Rightarrow> bool" where
  "overrides_are Key m c \<longleftrightarrow> omap_ok m \<and> map_of (c_Properties c) Key = Some (RV_map (string_values m))"

lemma overrides_are_map: "overrides_are Key m c \<Longrightarrow> GetStringMapProperty c Key = string_values m"
  by (simp add: overrides_are_def GetStringMapProperty_def GetPropertyDirect_def) (simp add: rv_constructors rv_getters rv_get_def)

lemma overrides_are_put: "omap_ok m \<Longrightarrow> overrides_are Key m (put True Key (RV_map (string_values m)) c)"
  unfolding overrides_are_def using put_string_values by blast

lemma run_override_refines:
  assumes "overrides_are Key m c"
  shows "overrides_are Key (spec_override op m) (run_override Key op c)"
proof -
  have ok: "omap_ok m" using assms by (simp add: overrides_are_def)
  show ?thesis
  proof (cases op)
    case (Add_override p i)
    then show ?thesis
      using overrides_are_put [OF omap_ok_upd [OF ok]] by (simp add: AddMaterialOverride_def overrides_are_map [OF assms] string_values_upd)
  next
    case (Remove_override p)
    then show ?thesis
      using overrides_are_put [OF omap_ok_del [OF ok]] by (simp add: RemoveMaterialOverride_def overrides_are_map [OF assms] string_values_del)
  qed
qed

lemma override_strings_values: "omap_ok m \<Longrightarrow> override_strings (string_values m) = Some m"
proof (induction m)
  case (Cons kv m)
  obtain k v where kv: "kv = (k, v)" by force
  have "omap_upd k v m = (k, v) # m" using Cons.prems kv by (cases m) auto
  moreover have "GetString (RV_string v) = Inr v" by (simp add: rv_constructors rv_getters rv_get_def)
  ultimately show ?case using Cons kv by simp
qed simp

lemma overrides_read: "overrides_are Key m c \<Longrightarrow> GetMaterialOverrides Key c = Some m"
  using overrides_are_map [of Key m c] override_strings_values [of m] by (simp add: GetMaterialOverrides_def overrides_are_def)

lemma overrides_fold:
  "overrides_are Key m c \<Longrightarrow> overrides_are Key (fold spec_override ops m) (fold (run_override Key) ops c)"
  by (induction ops arbitrary: m c) (auto intro: run_override_refines)

lemma model_overrides_start_empty:
  "overrides_are KEY_StaticModel_MaterialOverrides [] (component_of_schema StaticModel_schema)"
  "overrides_are KEY_AnimatedModel_MaterialOverrides [] (component_of_schema AnimatedModel_schema)"
  by code_simp+

text \<open>
  C0. The material overrides of a model component are a map from paths to materials: starting with
  none, any additions and removals leave exactly the overrides that the same updates leave in a
  map, and reading them never fails.
\<close>

theorem material_overrides_are_a_map:
  "GetMaterialOverrides KEY_StaticModel_MaterialOverrides
     (fold (run_override KEY_StaticModel_MaterialOverrides) ops (component_of_schema StaticModel_schema)) = Some (fold spec_override ops [])
   \<and> GetMaterialOverrides KEY_AnimatedModel_MaterialOverrides
     (fold (run_override KEY_AnimatedModel_MaterialOverrides) ops (component_of_schema AnimatedModel_schema)) = Some (fold spec_override ops [])"
  using model_overrides_start_empty [THEN overrides_fold, THEN overrides_read, of ops] by simp_all

end
