(* ===== verification/Schema_Json.thy ===== *)
theory Schema_Json
  imports Component_Base
begin

text \<open>
  The JSON form of component schemas (\<open>src/Multiplayer/ComponentSchema.cpp\<close>, written with
  \<open>src/Json/JsonSerializer.h\<close>, read from RapidJSON's document). A document is a value of \<open>json\<close>:
  numbers without fraction are integers between \<open>- 2 ^ 63\<close> and \<open>2 ^ 64\<close>, other numbers are doubles,
  objects keep their members in order and are searched from the front. RapidJSON's printer and
  parser between documents and text are parameters.
\<close>

section \<open>Documents\<close>

datatype 'd json =
    JNull
  | JBool bool
  | JInt int
  | JDouble 'd
  | JString string
  | JArray "'d json list"
  | JObject "(string \<times> 'd json) list"

type_synonym document = "float64 json"

fun IsNumber :: "document \<Rightarrow> bool" where
  "IsNumber (JInt n) = True" | "IsNumber (JDouble x) = True" | "IsNumber _ = False"

definition double_of_int :: "int \<Rightarrow> float64" where
  "double_of_int n =
     (let s = (if n < 0 then 1 else 0); m = nat \<bar>n\<bar>; k = lead_bit m
      in if m = 0 then 0
         else if k \<le> 52 then mk64 s (1023 + k) (m * 2 ^ (52 - k) - 2 ^ 52)
         else mk64 s (1023 + k) (rne m (k - 52) - 2 ^ 52))"

fun GetFloatNumber :: "document \<Rightarrow> float32" where
  "GetFloatNumber (JInt n) = narrow (double_of_int n)"
| "GetFloatNumber (JDouble x) = narrow x"
| "GetFloatNumber _ = 0"

text \<open>\<open>HasMember\<close> together with \<open>operator[]\<close>.\<close>

fun Member :: "document \<Rightarrow> string \<Rightarrow> document option" where
  "Member (JObject ms) Key = map_of ms Key"
| "Member _ Key = None"

section \<open>Writing\<close>

text \<open>The members written so far of the object that is being written.\<close>

type_synonym members = "(string \<times> document) list"

definition SerializeMember :: "string \<Rightarrow> document \<Rightarrow> members \<Rightarrow> members" where
  "SerializeMember Key Value ms = ms @ [(Key, Value)]"

definition SerializeString :: "string \<Rightarrow> document" where "SerializeString Value = JString (c_str Value)"
definition SerializeFloat :: "float32 \<Rightarrow> document" where "SerializeFloat Value = JDouble (widen Value)"
definition SerializeInt64 :: "u64 \<Rightarrow> document" where "SerializeInt64 Value = JInt (sint Value)"
definition SerializeUint64 :: "u64 \<Rightarrow> document" where "SerializeUint64 Value = JInt (uint Value)"
definition SerializeUint32 :: "u32 \<Rightarrow> document" where "SerializeUint32 Value = JInt (uint Value)"
definition SerializeArray :: "('a \<Rightarrow> document) \<Rightarrow> 'a list \<Rightarrow> document" where
  "SerializeArray SerializeValue Value = JArray (map SerializeValue Value)"

definition SerializeObject :: "(members \<Rightarrow> members) \<Rightarrow> document" where
  "SerializeObject ToJson = JObject (ToJson [])"

definition SerializeStringProperty :: "string \<Rightarrow> members \<Rightarrow> members" where
  "SerializeStringProperty Value ms =
     SerializeMember ''defaultValue'' (SerializeString Value) (SerializeMember ''type'' (SerializeString ''string'') ms)"

definition SerializeFloatProperty :: "float32 \<Rightarrow> members \<Rightarrow> members" where
  "SerializeFloatProperty Value ms =
     SerializeMember ''defaultValue'' (SerializeFloat Value) (SerializeMember ''type'' (SerializeString ''float'') ms)"

definition SerializeIntProperty :: "u64 \<Rightarrow> members \<Rightarrow> members" where
  "SerializeIntProperty Value ms =
     SerializeMember ''defaultValue'' (SerializeInt64 Value) (SerializeMember ''type'' (SerializeString ''int'') ms)"

definition SerializeBoolProperty :: "bool \<Rightarrow> members \<Rightarrow> members" where
  "SerializeBoolProperty Value ms =
     SerializeMember ''defaultValue'' (JBool Value) (SerializeMember ''type'' (SerializeString ''bool'') ms)"

definition SerializeVec2Property :: "float32 \<times> float32 \<Rightarrow> members \<Rightarrow> members" where
  "SerializeVec2Property Vector ms =
     (case Vector of (x, y) \<Rightarrow>
        SerializeMember ''defaultValue'' (SerializeArray SerializeFloat [x, y])
          (SerializeMember ''type'' (SerializeString ''vec2'') ms))"

definition SerializeVec3Property :: "float32 \<times> float32 \<times> float32 \<Rightarrow> members \<Rightarrow> members" where
  "SerializeVec3Property Vector ms =
     (case Vector of (x, y, z) \<Rightarrow>
        SerializeMember ''defaultValue'' (SerializeArray SerializeFloat [x, y, z])
          (SerializeMember ''type'' (SerializeString ''vec3'') ms))"

definition SerializeVec4Property :: "float32 \<times> float32 \<times> float32 \<times> float32 \<Rightarrow> members \<Rightarrow> members" where
  "SerializeVec4Property Vector ms =
     (case Vector of (x, y, z, w) \<Rightarrow>
        SerializeMember ''defaultValue'' (SerializeArray SerializeFloat [x, y, z, w])
          (SerializeMember ''type'' (SerializeString ''vec4'') ms))"

text \<open>A getter throws when the variant holds another type than the tag says; \<open>or_nothing\<close> is never reached then.\<close>

definition with_got :: "'e + 'a \<Rightarrow> ('a \<Rightarrow> members \<Rightarrow> members) \<Rightarrow> members \<Rightarrow> members" where
  "with_got r f ms = (case r of Inr x \<Rightarrow> f x ms | Inl _ \<Rightarrow> ms)"

definition ToJson_property :: "component_property \<Rightarrow> members \<Rightarrow> members" where
  "ToJson_property p ms =
     (let ms1 = SerializeMember ''name'' (SerializeString (cp_Name p))
            (SerializeMember ''key'' (SerializeUint32 (ucast (cp_Key p))) ms);
          Value = cp_DefaultValue p
      in case RType Value of
           RString \<Rightarrow> with_got (GetString Value) SerializeStringProperty ms1
         | RFloat \<Rightarrow> with_got (GetFloat Value) SerializeFloatProperty ms1
         | RInteger \<Rightarrow> with_got (GetInt Value) SerializeIntProperty ms1
         | RBoolean \<Rightarrow> with_got (GetBool Value) SerializeBoolProperty ms1
         | RVector2 \<Rightarrow> with_got (GetVector2 Value) SerializeVec2Property ms1
         | RVector3 \<Rightarrow> with_got (GetVector3 Value) SerializeVec3Property ms1
         | RVector4 \<Rightarrow> with_got (GetVector4 Value) SerializeVec4Property ms1
         | _ \<Rightarrow> ms1)"

definition ToJson_schema :: "component_schema \<Rightarrow> members \<Rightarrow> members" where
  "ToJson_schema Schema ms =
     SerializeMember ''properties'' (SerializeArray (\<lambda>p. SerializeObject (ToJson_property p)) (sc_Properties Schema))
       (SerializeMember ''name'' (SerializeString (sc_Name Schema))
         (SerializeMember ''typeId'' (SerializeUint64 (sc_TypeId Schema)) ms))"

definition ToJson :: "(document \<Rightarrow> string) \<Rightarrow> component_schema \<Rightarrow> string" where
  "ToJson print_json Schema = print_json (SerializeObject (ToJson_schema Schema))"

section \<open>Reading\<close>

fun IsFloatArray :: "document \<Rightarrow> nat \<Rightarrow> bool" where
  "IsFloatArray (JArray vs) ExpectedSize = (length vs = ExpectedSize \<and> list_all IsNumber vs)"
| "IsFloatArray _ _ = False"

fun elements :: "document \<Rightarrow> document list" where
  "elements (JArray vs) = vs" | "elements _ = []"

fun TryParseString :: "document \<Rightarrow> string option" where
  "TryParseString (JString s) = Some (c_str s)" | "TryParseString _ = None"

definition TryParseFloat :: "document \<Rightarrow> float32 option" where
  "TryParseFloat Value = (if \<not> IsNumber Value then None else Some (GetFloatNumber Value))"

fun TryParseInt :: "document \<Rightarrow> u64 option" where
  "TryParseInt (JInt n) = (if - (2 ^ 63) \<le> n \<and> n < 2 ^ 63 then Some (of_int n) else None)"
| "TryParseInt _ = None"

fun TryParseBool :: "document \<Rightarrow> bool option" where
  "TryParseBool (JBool b) = Some b" | "TryParseBool _ = None"

definition TryParseVec2 :: "document \<Rightarrow> (float32 \<times> float32) option" where
  "TryParseVec2 Value =
     (if \<not> IsFloatArray Value 2 then None
      else let f = (\<lambda>i. GetFloatNumber (elements Value ! i)) in Some (f 0, f 1))"

definition TryParseVec3 :: "document \<Rightarrow> (float32 \<times> float32 \<times> float32) option" where
  "TryParseVec3 Value =
     (if \<not> IsFloatArray Value 3 then None
      else let f = (\<lambda>i. GetFloatNumber (elements Value ! i)) in Some (f 0, f 1, f 2))"

definition TryParseVec4 :: "document \<Rightarrow> (float32 \<times> float32 \<times> float32 \<times> float32) option" where
  "TryParseVec4 Value =
     (if \<not> IsFloatArray Value 4 then None
      else let f = (\<lambda>i. GetFloatNumber (elements Value ! i)) in Some (f 0, f 1, f 2, f 3))"

definition TryParse :: "string \<Rightarrow> document \<Rightarrow> rep_value option" where
  "TryParse Type Value =
     (if Type = ''string'' then map_option RV_string (TryParseString Value)
      else if Type = ''float'' then map_option RV_float (TryParseFloat Value)
      else if Type = ''int'' then map_option RV_int (TryParseInt Value)
      else if Type = ''bool'' then map_option RV_bool (TryParseBool Value)
      else if Type = ''vec2'' then map_option (\<lambda>(x, y). RV_vector2 x y) (TryParseVec2 Value)
      else if Type = ''vec3'' then map_option (\<lambda>(x, y, z). RV_vector3 x y z) (TryParseVec3 Value)
      else if Type = ''vec4'' then map_option (\<lambda>(x, y, z, w). RV_vector4 x y z w) (TryParseVec4 Value)
      else None)"

text \<open>\<open>IsUint\<close> and \<open>GetUint\<close>; \<open>IsUint64\<close> and \<open>GetUint64\<close>.\<close>

fun TryUint :: "document \<Rightarrow> u32 option" where
  "TryUint (JInt n) = (if 0 \<le> n \<and> n < 2 ^ 32 then Some (of_int n) else None)" | "TryUint _ = None"

fun TryUint64 :: "document \<Rightarrow> u64 option" where
  "TryUint64 (JInt n) = (if 0 \<le> n \<and> n < 2 ^ 64 then Some (of_int n) else None)" | "TryUint64 _ = None"

fun TryArray :: "document \<Rightarrow> document list option" where
  "TryArray (JArray vs) = Some vs" | "TryArray _ = None"

definition TryParseProperty :: "document \<Rightarrow> component_property option" where
  "TryParseProperty Value = do {
     Key \<leftarrow> Option.bind (Member Value ''key'') TryUint;
     Name \<leftarrow> Option.bind (Member Value ''name'') TryParseString;
     Type \<leftarrow> Option.bind (Member Value ''type'') TryParseString;
     JsonValue \<leftarrow> Member Value ''defaultValue'';
     DefaultValue \<leftarrow> TryParse Type JsonValue;
     Some \<lparr>cp_Key = ucast Key, cp_Name = Name, cp_DefaultValue = DefaultValue\<rparr> }"

fun TryParseProperties :: "document list \<Rightarrow> component_property list option" where
  "TryParseProperties [] = Some []"
| "TryParseProperties (Element # JsonProperties) =
     (case TryParseProperty Element of
        None \<Rightarrow> None
      | Some p \<Rightarrow> map_option ((#) p) (TryParseProperties JsonProperties))"

definition TryParseSchema :: "document \<Rightarrow> component_schema option" where
  "TryParseSchema Value = do {
     TypeId \<leftarrow> Option.bind (Member Value ''typeId'') TryUint64;
     Name \<leftarrow> Option.bind (Member Value ''name'') TryParseString;
     JsonProperties \<leftarrow> Option.bind (Member Value ''properties'') TryArray;
     Properties \<leftarrow> TryParseProperties JsonProperties;
     Some \<lparr>sc_TypeId = TypeId, sc_Name = Name, sc_Properties = Properties\<rparr> }"

text \<open>The parser is \<open>None\<close> on a parse error.\<close>

definition FromJson :: "(string \<Rightarrow> document option) \<Rightarrow> string \<Rightarrow> component_schema option" where
  "FromJson parse_json Json =
     (case parse_json (c_str Json) of None \<Rightarrow> None | Some Doc \<Rightarrow> TryParseSchema Doc)"

definition schemas_of_document :: "document \<Rightarrow> component_schema list" where
  "schemas_of_document Doc =
     (case TryArray Doc of
        None \<Rightarrow> []
      | Some es \<Rightarrow> foldl (\<lambda>Collected Element.
          case TryParseSchema Element of None \<Rightarrow> Collected | Some Schema \<Rightarrow> Collected @ [Schema]) [] es)"

definition ComponentSchemasFromJson :: "(string \<Rightarrow> document option) \<Rightarrow> string list \<Rightarrow> component_schema list" where
  "ComponentSchemasFromJson parse_json JsonDocuments =
     foldl (\<lambda>Collected JsonDoc.
       case parse_json (c_str JsonDoc) of None \<Rightarrow> Collected | Some Doc \<Rightarrow> Collected @ schemas_of_document Doc) [] JsonDocuments"

section \<open>Round trip\<close>

text \<open>
  What JSON can say of a default value: no maps, no untyped values, no infinities. RapidJSON's
  default parser reads a double up to a few units of its last place away from the one that was
  printed: \<open>reread\<close> stands for that, and all that matters is that narrowing gives the same \<open>float\<close>.
\<close>

fun printable_impl :: "rv_impl \<Rightarrow> bool" where
  "printable_impl (VFloat x) = f32_finite x"
| "printable_impl (VStr s) = nul_free s"
| "printable_impl (VVec2 x y) = (f32_finite x \<and> f32_finite y)"
| "printable_impl (VVec3 x y z) = (f32_finite x \<and> f32_finite y \<and> f32_finite z)"
| "printable_impl (VVec4 x y z w) = (f32_finite x \<and> f32_finite y \<and> f32_finite z \<and> f32_finite w)"
| "printable_impl (VMap m) = False"
| "printable_impl _ = True"

definition printable_value :: "rep_value \<Rightarrow> bool" where
  "printable_value v \<longleftrightarrow> RType v = rv_tag (RVal v) \<and> printable_impl (RVal v)"

definition printable_schema :: "component_schema \<Rightarrow> bool" where
  "printable_schema s \<longleftrightarrow> nul_free (sc_Name s)
     \<and> list_all (\<lambda>p. nul_free (cp_Name p) \<and> printable_value (cp_DefaultValue p)) (sc_Properties s)"

definition faithful :: "(float64 \<Rightarrow> float64) \<Rightarrow> bool" where
  "faithful reread \<longleftrightarrow> (\<forall>x. f32_finite x \<longrightarrow> narrow (reread (widen x)) = x)"

lemmas serializers = SerializeStringProperty_def SerializeFloatProperty_def SerializeIntProperty_def SerializeBoolProperty_def
  SerializeVec2Property_def SerializeVec3Property_def SerializeVec4Property_def SerializeMember_def SerializeString_def
  SerializeFloat_def SerializeInt64_def SerializeArray_def

lemmas parsers = TryParse_def TryParseFloat_def TryParseVec2_def TryParseVec3_def TryParseVec4_def

lemma sint_u64_range: "- (2 ^ 63) \<le> sint (i :: u64)" "sint (i :: u64) < 2 ^ 63"
  using sint_range_size [of i] by (simp_all add: word_size)

lemma property_written:
  assumes "printable_value (cp_DefaultValue p)" "faithful reread"
  obtains T j where
    "ToJson_property p ms = ms @ [(''key'', SerializeUint32 (ucast (cp_Key p))), (''name'', SerializeString (cp_Name p)),
       (''type'', JString T), (''defaultValue'', j)]"
    "nul_free T" "TryParse T (map_json reread j) = Some (cp_DefaultValue p)"
proof -
  obtain i t where v: "cp_DefaultValue p = RepVal i t" by (cases "cp_DefaultValue p")
  then have t: "t = rv_tag i" "printable_impl i" using assms(1) by (simp_all add: printable_value_def)
  have f: "f32_finite x \<Longrightarrow> narrow (reread (widen x)) = x" for x using assms(2) by (simp add: faithful_def)
  have "\<exists>T j. ToJson_property p ms = ms @ [(''key'', SerializeUint32 (ucast (cp_Key p))), (''name'', SerializeString (cp_Name p)),
       (''type'', JString T), (''defaultValue'', j)] \<and> nul_free T \<and> TryParse T (map_json reread j) = Some (RepVal i t)"
    using t(2) sint_u64_range
    by (cases i) (auto simp: t(1) v ToJson_property_def with_got_def rv_getters rv_get_def serializers parsers rv_constructors f
      nul_free_def c_str_def Let_def)
  then show thesis using that v by auto
qed

lemma ucast_key: "ucast (of_int (uint (ucast (k :: u16) :: u32)) :: u32) = k" "uint (ucast (k :: u16) :: u32) < 2 ^ 32"
proof -
  have "unat k < 2 ^ 16" using unsigned_less [of k] by simp
  then have "ucast (ucast k :: u32) = k"
    by (simp add: word_unat_eq_iff unat_ucast_u16_u32 unsigned_ucast_eq unsigned_take_bit_eq take_bit_nat_eq_self)
  then show "ucast (of_int (uint (ucast (k :: u16) :: u32)) :: u32) = k" by simp
  have "uint (ucast k :: u32) < 2 ^ LENGTH(32)" by (rule unsigned_less)
  then show "uint (ucast k :: u32) < 2 ^ 32" by simp
qed

lemma uint_u64_less: "uint (i :: u64) < 2 ^ 64"
proof -
  have "uint i < 2 ^ LENGTH(64)" by (rule unsigned_less)
  then show ?thesis by simp
qed

lemma property_read:
  assumes "nul_free (cp_Name p)" "printable_value (cp_DefaultValue p)" "faithful reread"
  shows "TryParseProperty (map_json reread (SerializeObject (ToJson_property p))) = Some p"
proof -
  obtain T j where w: "ToJson_property p [] = [] @ [(''key'', SerializeUint32 (ucast (cp_Key p))), (''name'', SerializeString (cp_Name p)),
       (''type'', JString T), (''defaultValue'', j)]"
    and T: "nul_free T" "TryParse T (map_json reread j) = Some (cp_DefaultValue p)"
    using property_written [OF assms(2,3), of "[]"] by blast
  show ?thesis
    using T assms(1) ucast_key(2) [of "cp_Key p"] ucast_key(1) [of "cp_Key p"]
    by (simp add: SerializeObject_def w TryParseProperty_def SerializeUint32_def SerializeString_def)
qed

lemma properties_read:
  assumes "list_all (\<lambda>p. nul_free (cp_Name p) \<and> printable_value (cp_DefaultValue p)) ps" "faithful reread"
  shows "TryParseProperties (map (map_json reread) (map (\<lambda>p. SerializeObject (ToJson_property p)) ps)) = Some ps"
  using assms(1) by (induction ps) (simp_all add: property_read [OF _ _ assms(2)])

lemma schema_read:
  assumes "printable_schema s" "faithful reread"
  shows "TryParseSchema (map_json reread (SerializeObject (ToJson_schema s))) = Some s"
  using assms(1) properties_read [OF _ assms(2), of "sc_Properties s"] uint_u64_less [of "sc_TypeId s"]
  by (simp add: printable_schema_def TryParseSchema_def SerializeObject_def ToJson_schema_def SerializeMember_def SerializeUint64_def
      SerializeString_def SerializeArray_def)

text \<open>
  C26. A schema that is written as JSON and read back is the same schema: types and names, keys, default
  values bit by bit, in the same order. It must not have a default value that JSON cannot
  carry (a map, an untyped value, an infinite number). Of RapidJSON it is assumed that it reads the
  document it printed, with doubles that narrow to the \<open>float\<close> they came from.
\<close>

theorem schema_survives_json:
  assumes "printable_schema s" "faithful reread"
    "parse_json (c_str (ToJson print_json s)) = Some (map_json reread (SerializeObject (ToJson_schema s)))"
  shows "FromJson parse_json (ToJson print_json s) = Some s"
  using assms(3) schema_read [OF assms(1,2)] by (simp add: FromJson_def)

lemma faithful_id: "faithful id"
proof -
  have "\<not> f32_nan x" if "f32_finite x" for x using that by (auto simp: f32_finite_def f32_nan_def)
  then show ?thesis by (simp add: faithful_def narrow_widen_id)
qed

lemma schema_survives_json_witness:
  "FromJson (\<lambda>t. if t = ''fog'' then Some (SerializeObject (ToJson_schema Fog_schema)) else None) (ToJson (\<lambda>_. ''fog'') Fog_schema) = Some Fog_schema"
proof (rule schema_survives_json [OF _ faithful_id])
  show "printable_schema Fog_schema"
    by (simp add: printable_schema_def printable_value_def Fog_schema_def property_def rv_constructors nul_free_def f32_finite_def f32_exp_def)
qed (simp add: ToJson_def json.map_id0 c_str_def)

section \<open>Injected documents\<close>

lemma foldl_collect: "foldl (\<lambda>acc x. case f x of None \<Rightarrow> acc | Some y \<Rightarrow> acc @ [y]) acc xs = acc @ List.map_filter f xs"
  by (induction xs arbitrary: acc) (auto simp: List.map_filter_simps split: option.split)

lemma schemas_of_document_eq: "schemas_of_document (JArray es) = List.map_filter TryParseSchema es"
  by (simp add: schemas_of_document_def foldl_collect)

abbreviation printed :: "(float64 \<Rightarrow> float64) \<Rightarrow> component_schema list \<Rightarrow> document list" where
  "printed reread ss \<equiv> map (\<lambda>s. map_json reread (SerializeObject (ToJson_schema s))) ss"

text \<open>A broken entry of a document costs this entry only.\<close>

lemma broken_entries_are_skipped:
  assumes "list_all printable_schema (ss @ ss')" "faithful reread" "TryParseSchema bad = None"
  shows "schemas_of_document (JArray (printed reread ss @ [bad] @ printed reread ss')) = ss @ ss'"
proof -
  have "List.map_filter TryParseSchema (printed reread xs) = xs" if "list_all printable_schema xs" for xs
    using that by (induction xs) (simp_all add: List.map_filter_simps schema_read [OF _ assms(2)])
  then show ?thesis using assms(1,3) by (simp add: schemas_of_document_eq List.map_filter_def)
qed

text \<open>
  A default value without a JSON form leaves out its type, and the reader then refuses the whole schema:
  so it is with the schemas of the model components, which have a map.
\<close>

lemma unprintable_property:
  "RType (cp_DefaultValue p) \<in> {RStringMap, InvalidType} \<Longrightarrow> TryParseProperty (SerializeObject (ToJson_property p)) = None"
  by (auto simp: TryParseProperty_def SerializeObject_def ToJson_property_def Let_def SerializeMember_def split: bind_splits)

lemma properties_unreadable:
  "\<exists>e \<in> set es. TryParseProperty e = None \<Longrightarrow> TryParseProperties es = None"
  by (induction es) (auto split: option.split)

lemma map_default_is_not_readable:
  assumes "p \<in> set (sc_Properties s)" "RType (cp_DefaultValue p) \<in> {RStringMap, InvalidType}"
  shows "TryParseSchema (SerializeObject (ToJson_schema s)) = None"
  using assms properties_unreadable [of "map (\<lambda>p. SerializeObject (ToJson_property p)) (sc_Properties s)"] unprintable_property
  by (force simp: TryParseSchema_def SerializeObject_def [of "ToJson_schema s"] ToJson_schema_def SerializeMember_def SerializeArray_def
      split: bind_splits)

lemma model_schemas_are_not_readable:
  "TryParseSchema (SerializeObject (ToJson_schema StaticModel_schema)) = None"
  "TryParseSchema (SerializeObject (ToJson_schema AnimatedModel_schema)) = None"
  by (rule map_default_is_not_readable [of "property 10 [] (RV_map [])"], simp_all add: StaticModel_schema_def property_def rv_constructors)
    (rule map_default_is_not_readable [of "property 14 [] (RV_map [])"], simp_all add: AnimatedModel_schema_def property_def rv_constructors)

text \<open>The key of a property is cut to 16 bits without a check: two keys of a document become one.\<close>

lemma property_keys_wrap:
  "map_option (map cp_Key) (TryParseProperties (map (\<lambda>k. JObject [(''key'', JInt k), (''name'', JString ''a''),
     (''type'', JString ''bool''), (''defaultValue'', JBool True)]) [1, 65537])) = Some [1, 1]"
  by code_simp

end
