(* ===== verification/Space_Entry.thy ===== *)
theory Space_Entry
  imports Csp_String "HOL-Library.Multiset"
begin

unbundle bit_operations_syntax

text \<open>
  Entering and leaving a space (\<open>src/Systems/Spaces/SpaceSystem.cpp\<close>, with \<open>GetScopesBySpace\<close> of
  \<open>src/Systems/Multiplayer/MultiplayerSystem.cpp\<close> and \<open>RefreshMultiplayerConnectionToEnactScopeChange\<close> of
  \<open>src/Multiplayer/OnlineRealtimeEngine.cpp\<close>). Entering an online space is a chain of requests to
  web services and to the hub; what the chain waits for is kept in \<open>Waiting\<close>, and the answers are
  operations of the run, in any order. The services' answers are arguments. Of a space, the fields
  this flow does not look at are left out, and callbacks are taken to be set.
\<close>

section \<open>State\<close>

datatype EResultCode = RC_Init | RC_InProgress | RC_Success | RC_Failed

record space_data =
  sp_Id :: string
  sp_Name :: string
  sp_Attributes :: "8 word"
  sp_CreatedBy :: string
  sp_OwnerId :: string
  sp_UserIds :: "string list"
  sp_ModeratorIds :: "string list"

definition empty_space :: space_data where
  "empty_space = \<lparr>sp_Id = [], sp_Name = [], sp_Attributes = 0, sp_CreatedBy = [], sp_OwnerId = [], sp_UserIds = [], sp_ModeratorIds = []\<rparr>"

definition SpaceAttributes_RequiresInvite :: "8 word" where "SpaceAttributes_RequiresInvite = 2"

definition HasFlag :: "8 word \<Rightarrow> 8 word \<Rightarrow> bool" where
  "HasFlag v flag \<longleftrightarrow> v AND flag = flag"

record space_result =
  sr_Code :: EResultCode
  sr_Http :: nat
  sr_Space :: space_data

text \<open>A realtime engine as the client hands it over: its address, its kind, whether it has the callback it needs.\<close>

record engine_ref =
  er_Engine :: nat
  er_Online :: bool
  er_HasFetchCallback :: bool

text \<open>What a chain waits for; in the exit chain, and in the enter chain with what it carries along.\<close>

datatype enter_step = Get_space | Add_user | Stop_listening | Set_scopes | Start_listening | Get_scopes | Get_leader

record entering =
  en_SpaceId :: string
  en_Engine :: nat
  en_Callback :: nat
  en_Space :: space_data

datatype waiting_step = Entering enter_step entering | Exit_stop_listening nat | Exit_reset_scopes nat

datatype space_event =
    Enter_event string
  | Exit_event string
  | Reported nat EResultCode nat
  | Abandoned nat
  | Leader_election_enabled nat
  | Default_scope_registered nat string "u64 option"
  | Fetch_started nat string

record space_system =
  CurrentSpace :: space_data
  ConnectionUp :: bool
  ConnectionEngine :: "nat option"
  ss_UserId :: string
  Waiting :: "waiting_step list"
  ss_Log :: "space_event list"

definition ss_emit :: "space_event \<Rightarrow> space_system \<Rightarrow> space_system" where
  "ss_emit e s = s\<lparr>ss_Log := ss_Log s @ [e]\<rparr>"

definition wait_for :: "waiting_step \<Rightarrow> space_system \<Rightarrow> space_system" where
  "wait_for w s = s\<lparr>Waiting := Waiting s @ [w]\<rparr>"

definition report :: "nat \<Rightarrow> EResultCode \<Rightarrow> nat \<Rightarrow> space_system \<Rightarrow> space_system" where
  "report cb Code Http s = ss_emit (Reported cb Code Http) s"

section \<open>Entering\<close>

definition UserIsKnownToSpace :: "string \<Rightarrow> space_data \<Rightarrow> bool" where
  "UserIsKnownToSpace UserId sp \<longleftrightarrow>
     list_ex (\<lambda>i. String_eq i UserId) (sp_UserIds sp) \<or> list_ex (\<lambda>i. String_eq i UserId) (sp_ModeratorIds sp)
     \<or> String_eq UserId (sp_OwnerId sp)"

definition FireEnterSpaceEvent :: "space_data \<Rightarrow> space_system \<Rightarrow> space_system" where
  "FireEnterSpaceEvent sp s = (ss_emit (Enter_event (sp_Id sp)) s)\<lparr>CurrentSpace := sp\<rparr>"

text \<open>
  The end of the chain: an expected exception resets the space and reports an invalid result, whatever
  result the exception carries. Any other exception, such as that of a promise destroyed before it
  was kept, is not reported at all; \<open>Abandoned\<close> marks it in the log.
\<close>

definition enter_failed :: "entering \<Rightarrow> space_system \<Rightarrow> space_system" where
  "enter_failed en s = report (en_Callback en) RC_Failed 0 (s\<lparr>CurrentSpace := empty_space\<rparr>)"

definition enter_abandoned :: "entering \<Rightarrow> space_system \<Rightarrow> space_system" where
  "enter_abandoned en s = ss_emit (Abandoned (en_Callback en)) s"

definition finish_entering :: "entering \<Rightarrow> space_system \<Rightarrow> space_system" where
  "finish_entering en s =
     report (en_Callback en) RC_Success 200
       (ss_emit (Fetch_started (en_Engine en) (sp_Id (en_Space en))) (FireEnterSpaceEvent (en_Space en) s))"

text \<open>A request of the refresh: the first throws into the chain, the others into a task nobody looks at.\<close>

definition refresh_connection :: "entering \<Rightarrow> space_system \<Rightarrow> space_system" where
  "refresh_connection en s =
     (if \<not> ConnectionUp s then enter_failed en s else wait_for (Entering Stop_listening en) s)"

definition refresh_next :: "enter_step \<Rightarrow> entering \<Rightarrow> string option \<Rightarrow> space_system \<Rightarrow> space_system" where
  "refresh_next step en Except s =
     (if Except \<noteq> None \<or> \<not> ConnectionUp s then enter_abandoned en s else wait_for (Entering step en) s)"

definition user_added :: "entering \<Rightarrow> space_result \<Rightarrow> space_system \<Rightarrow> space_system" where
  "user_added en r s =
     (if sr_Code r \<noteq> RC_Success then enter_failed en s
      else refresh_connection (en\<lparr>en_Space := sr_Space r\<rparr>) s)"

definition AddUserToSpaceIfNecessary :: "entering \<Rightarrow> space_result \<Rightarrow> space_system \<Rightarrow> space_system" where
  "AddUserToSpaceIfNecessary en r s =
     (let SpaceToJoin = sr_Space r;
          JoiningSpaceRequiresInvite = HasFlag (sp_Attributes SpaceToJoin) SpaceAttributes_RequiresInvite;
          UserIsRecognizedBySpace = UserIsKnownToSpace (ss_UserId s) SpaceToJoin
      in if JoiningSpaceRequiresInvite \<and> \<not> UserIsRecognizedBySpace then enter_failed en s
         else if \<not> UserIsRecognizedBySpace then wait_for (Entering Add_user en) s
         else user_added en r s)"

definition space_got :: "entering \<Rightarrow> space_result \<Rightarrow> space_system \<Rightarrow> space_system" where
  "space_got en r s = (if sr_Code r \<noteq> RC_Success then enter_failed en s else AddUserToSpaceIfNecessary en r s)"

text \<open>\<open>RegisterScopesInSpace\<close>; the scopes are known by identifier and whether they are global.\<close>

definition scopes_got :: "entering \<Rightarrow> (string \<times> bool) list \<Rightarrow> space_system \<Rightarrow> space_system" where
  "scopes_got en Scopes s =
     (if length Scopes < 1 then enter_failed en s
      else if length Scopes > 1 then enter_failed en s
      else if \<not> snd (Scopes ! 0) then enter_failed en s
      else wait_for (Entering Get_leader en) (ss_emit (Leader_election_enabled (en_Engine en)) s))"

definition GetScopesBySpace :: "entering \<Rightarrow> space_system \<Rightarrow> space_system" where
  "GetScopesBySpace en s =
     (if \<not> String_eq (sp_Id (CurrentSpace s)) (sp_Id (en_Space en)) then scopes_got en [] s
      else wait_for (Entering Get_scopes en) s)"

definition leader_got :: "entering \<Rightarrow> EResultCode \<Rightarrow> string \<Rightarrow> u64 \<Rightarrow> space_system \<Rightarrow> space_system" where
  "leader_got en Code ScopeId ScopeClientId s =
     (if Code = RC_InProgress then wait_for (Entering Get_leader en) s
      else let LeaderUserId = (if ScopeClientId \<noteq> 0 then Some ScopeClientId else None)
           in finish_entering en (ss_emit (Default_scope_registered (en_Engine en) ScopeId LeaderUserId) s))"

definition listening_started :: "entering \<Rightarrow> string option \<Rightarrow> space_system \<Rightarrow> space_system" where
  "listening_started en Except s =
     (if Except \<noteq> None then enter_abandoned en s else GetScopesBySpace en (FireEnterSpaceEvent (en_Space en) s))"

definition GetSpace :: "entering \<Rightarrow> space_system \<Rightarrow> space_system" where
  "GetSpace en s = (if en_SpaceId en = [] then enter_abandoned en s else wait_for (Entering Get_space en) s)"

definition LocalClientID :: string where "LocalClientID = ''9007199254740991''"

definition local_space :: "string \<Rightarrow> space_data" where
  "local_space SpaceId = empty_space\<lparr>sp_Id := SpaceId, sp_Name := ''Offline Space'', sp_CreatedBy := LocalClientID,
     sp_OwnerId := LocalClientID, sp_UserIds := [LocalClientID], sp_ModeratorIds := [LocalClientID]\<rparr>"

definition EnterSpace :: "string \<Rightarrow> engine_ref option \<Rightarrow> nat \<Rightarrow> space_system \<Rightarrow> space_system" where
  "EnterSpace SpaceId RealtimeEngine Callback s =
     (case RealtimeEngine of
        None \<Rightarrow> report Callback RC_Failed 400 s
      | Some e \<Rightarrow>
          let en = \<lparr>en_SpaceId = SpaceId, en_Engine = er_Engine e, en_Callback = Callback, en_Space = empty_space\<rparr>
          in if \<not> er_HasFetchCallback e then report Callback RC_Failed 400 s
             else if er_Online e \<and> \<not> ConnectionUp s then report Callback RC_Failed 400 s
             else if er_Online e then GetSpace en (s\<lparr>ConnectionEngine := Some (er_Engine e)\<rparr>)
             else let sp = local_space SpaceId
                  in finish_entering (en\<lparr>en_Space := sp\<rparr>) (FireEnterSpaceEvent sp s))"

section \<open>Leaving\<close>

definition exit_done :: "nat \<Rightarrow> EResultCode \<Rightarrow> nat \<Rightarrow> space_system \<Rightarrow> space_system" where
  "exit_done cb Code Http s = report cb Code Http (s\<lparr>ConnectionEngine := None\<rparr>)"

definition ExitSpace :: "nat \<Rightarrow> space_system \<Rightarrow> space_system" where
  "ExitSpace Callback s =
     (let s1 = (if ConnectionUp s then wait_for (Exit_stop_listening Callback) s else report Callback RC_Success 200 s)
      in (ss_emit (Exit_event (sp_Id (CurrentSpace s1))) s1)\<lparr>CurrentSpace := empty_space\<rparr>)"

definition exit_next :: "nat \<Rightarrow> string option \<Rightarrow> space_system \<Rightarrow> space_system" where
  "exit_next cb Except s =
     (if Except \<noteq> None \<or> \<not> ConnectionUp s then exit_done cb RC_Failed 0 s else wait_for (Exit_reset_scopes cb) s)"

definition IsInSpace :: "space_system \<Rightarrow> bool" where
  "IsInSpace s \<longleftrightarrow> sp_Id (CurrentSpace s) \<noteq> []"

section \<open>Answers\<close>

datatype answer =
    Space_answer space_result
  | Hub_answer "string option"
  | Scopes_answer "(string \<times> bool) list"
  | Leader_answer EResultCode string u64

text \<open>What an answer of the type of the request leads to.\<close>

fun resume :: "waiting_step \<Rightarrow> answer \<Rightarrow> space_system \<Rightarrow> space_system option" where
  "resume (Entering Get_space en) (Space_answer r) s = Some (space_got en r s)"
| "resume (Entering Add_user en) (Space_answer r) s = Some (user_added en r s)"
| "resume (Entering Stop_listening en) (Hub_answer ex) s = Some (refresh_next Set_scopes en ex s)"
| "resume (Entering Set_scopes en) (Hub_answer ex) s = Some (refresh_next Start_listening en ex s)"
| "resume (Entering Start_listening en) (Hub_answer ex) s = Some (listening_started en ex s)"
| "resume (Entering Get_scopes en) (Scopes_answer scopes) s = Some (scopes_got en scopes s)"
| "resume (Entering Get_leader en) (Leader_answer Code ScopeId c) s = Some (leader_got en Code ScopeId c s)"
| "resume (Exit_stop_listening cb) (Hub_answer ex) s = Some (exit_next cb ex s)"
| "resume (Exit_reset_scopes cb) (Hub_answer ex) s =
     Some (if ex \<noteq> None then exit_done cb RC_Failed 0 s else exit_done cb RC_Success 200 s)"
| "resume _ _ s = None"

definition answered :: "nat \<Rightarrow> answer \<Rightarrow> space_system \<Rightarrow> space_system" where
  "answered i a s =
     (if i < length (Waiting s)
      then case resume (Waiting s ! i) a (s\<lparr>Waiting := take i (Waiting s) @ drop (Suc i) (Waiting s)\<rparr>) of
             Some s' \<Rightarrow> s' | None \<Rightarrow> s
      else s)"

section \<open>Every callback is accounted for\<close>

fun told_of :: "space_event list \<Rightarrow> nat multiset" where
  "told_of [] = {#}"
| "told_of (Reported cb c h # es) = add_mset cb (told_of es)"
| "told_of (_ # es) = told_of es"

fun lost_of :: "space_event list \<Rightarrow> nat multiset" where
  "lost_of [] = {#}"
| "lost_of (Abandoned cb # es) = add_mset cb (lost_of es)"
| "lost_of (_ # es) = lost_of es"

fun callback_of :: "waiting_step \<Rightarrow> nat" where
  "callback_of (Entering step en) = en_Callback en"
| "callback_of (Exit_stop_listening cb) = cb"
| "callback_of (Exit_reset_scopes cb) = cb"

definition space_account :: "space_system \<Rightarrow> nat multiset" where
  "space_account s = told_of (ss_Log s) + lost_of (ss_Log s) + mset (map callback_of (Waiting s))"

inductive space_run :: "space_system \<Rightarrow> nat multiset \<Rightarrow> space_system \<Rightarrow> bool" for s where
  run_start: "space_run s {#} s"
| run_enter: "space_run s cbs t \<Longrightarrow> space_run s (add_mset cb cbs) (EnterSpace SpaceId e cb t)"
| run_exit: "space_run s cbs t \<Longrightarrow> space_run s (add_mset cb cbs) (ExitSpace cb t)"
| run_answer: "space_run s cbs t \<Longrightarrow> space_run s cbs (answered i a t)"
| run_connection: "space_run s cbs t \<Longrightarrow> space_run s cbs (t\<lparr>ConnectionUp := up\<rparr>)"

lemma told_append [simp]: "told_of (xs @ ys) = told_of xs + told_of ys"
  by (induction xs rule: told_of.induct) auto

lemma lost_append [simp]: "lost_of (xs @ ys) = lost_of xs + lost_of ys"
  by (induction xs rule: lost_of.induct) auto

text \<open>Each part of a chain passes its callback on: it is told, lost or waits.\<close>

named_theorems accounts

lemma account_basic [accounts]:
  "space_account (report cb c h s) = add_mset cb (space_account s)"
  "space_account (wait_for w s) = add_mset (callback_of w) (space_account s)"
  "space_account (ss_emit (Abandoned cb) s) = add_mset cb (space_account s)"
  "space_account (ss_emit (Enter_event i) s) = space_account s" "space_account (ss_emit (Exit_event i) s) = space_account s"
  "space_account (ss_emit (Leader_election_enabled n) s) = space_account s"
  "space_account (ss_emit (Default_scope_registered n i l) s) = space_account s"
  "space_account (ss_emit (Fetch_started n i) s) = space_account s"
  "space_account (s\<lparr>CurrentSpace := sp\<rparr>) = space_account s" "space_account (s\<lparr>ConnectionEngine := o'\<rparr>) = space_account s"
  "space_account (s\<lparr>ConnectionUp := up\<rparr>) = space_account s"
  by (simp_all add: space_account_def report_def wait_for_def ss_emit_def)

lemma account_enter [accounts]:
  "space_account (FireEnterSpaceEvent sp s) = space_account s"
  "space_account (enter_failed en s) = add_mset (en_Callback en) (space_account s)"
  "space_account (enter_abandoned en s) = add_mset (en_Callback en) (space_account s)"
  "space_account (finish_entering en s) = add_mset (en_Callback en) (space_account s)"
  "space_account (refresh_connection en s) = add_mset (en_Callback en) (space_account s)"
  "space_account (refresh_next step en ex s) = add_mset (en_Callback en) (space_account s)"
  "space_account (scopes_got en scopes s) = add_mset (en_Callback en) (space_account s)"
  by (simp_all add: accounts FireEnterSpaceEvent_def enter_failed_def enter_abandoned_def finish_entering_def refresh_connection_def
      refresh_next_def scopes_got_def)

lemma account_chain [accounts]:
  "space_account (user_added en r s) = add_mset (en_Callback en) (space_account s)"
  "space_account (GetScopesBySpace en s) = add_mset (en_Callback en) (space_account s)"
  "space_account (leader_got en c i l s) = add_mset (en_Callback en) (space_account s)"
  "space_account (GetSpace en s) = add_mset (en_Callback en) (space_account s)"
  "space_account (exit_done cb c h s) = add_mset cb (space_account s)"
  "space_account (exit_next cb ex s) = add_mset cb (space_account s)"
  by (simp_all add: accounts user_added_def GetScopesBySpace_def leader_got_def GetSpace_def exit_next_def exit_done_def Let_def)

lemma account_steps [accounts]:
  "space_account (listening_started en ex s) = add_mset (en_Callback en) (space_account s)"
  "space_account (space_got en r s) = add_mset (en_Callback en) (space_account s)"
  "space_account (EnterSpace i e cb s) = add_mset cb (space_account s)"
  "space_account (ExitSpace cb s) = add_mset cb (space_account s)"
  by (simp_all add: accounts listening_started_def space_got_def AddUserToSpaceIfNecessary_def EnterSpace_def ExitSpace_def Let_def
      split: option.split)

lemma account_resume: "resume w a s = Some s' \<Longrightarrow> space_account s' = add_mset (callback_of w) (space_account s)"
  by (induction w a s rule: resume.induct) (auto simp: accounts)

lemma account_answered: "space_account (answered i a s) = space_account s"
proof (cases "i < length (Waiting s)")
  case True
  let ?t = "s\<lparr>Waiting := take i (Waiting s) @ drop (Suc i) (Waiting s)\<rparr>"
  have "mset (map callback_of (Waiting s)) = mset (map callback_of (take i (Waiting s) @ Waiting s ! i # drop (Suc i) (Waiting s)))"
    by (simp only: id_take_nth_drop [OF True, symmetric])
  then have "mset (map callback_of (Waiting s)) = add_mset (callback_of (Waiting s ! i)) (mset (map callback_of (Waiting ?t)))" by simp
  then have "space_account s = add_mset (callback_of (Waiting s ! i)) (space_account ?t)"
    by (simp add: space_account_def)
  then show ?thesis
    using True account_resume [of "Waiting s ! i" a ?t] by (auto simp: answered_def split: option.split)
qed (simp add: answered_def)

text \<open>
  C7. Whatever calls the client makes and in whatever order the services answer, every callback passed
  to \<open>EnterSpace\<close> or \<open>ExitSpace\<close> is called at most once, and is called unless its request still waits
  for an answer or its chain was abandoned.
\<close>

theorem space_callbacks_are_accounted_for:
  assumes "space_run s cbs t" "Waiting s = []" "ss_Log s = []"
  shows "told_of (ss_Log t) + lost_of (ss_Log t) + mset (map callback_of (Waiting t)) = cbs"
proof -
  have "space_account t = space_account s + cbs"
    using assms(1) by induction (simp_all add: accounts account_answered)
  then show ?thesis using assms(2,3) by (simp add: space_account_def)
qed

lemma space_callbacks_are_accounted_for_witness:
  "let t = answered 0 (Space_answer \<lparr>sr_Code = RC_Failed, sr_Http = 403, sr_Space = empty_space\<rparr>)
       (ExitSpace 2 (EnterSpace ''a'' (Some \<lparr>er_Engine = 1, er_Online = True, er_HasFetchCallback = True\<rparr>) 1
         \<lparr>CurrentSpace = empty_space, ConnectionUp = True, ConnectionEngine = None, ss_UserId = ''u'', Waiting = [], ss_Log = []\<rparr>))
   in told_of (ss_Log t) + lost_of (ss_Log t) + mset (map callback_of (Waiting t)) = {#2, 1#}"
  unfolding Let_def
  by (rule space_callbacks_are_accounted_for [OF run_answer [OF run_exit [OF run_enter [OF run_start]]]]) simp_all

section \<open>How entering ends\<close>

text \<open>What the services and the hub answer to one call of \<open>EnterSpace\<close>.\<close>

record service =
  sv_Space :: space_result
  sv_Added :: space_result
  sv_Stop :: "string option"
  sv_SetScopes :: "string option"
  sv_Start :: "string option"
  sv_Scopes :: "(string \<times> bool) list"
  sv_LeaderScope :: string
  sv_LeaderClient :: u64

definition user_known :: "service \<Rightarrow> space_system \<Rightarrow> bool" where
  "user_known v s \<longleftrightarrow> UserIsKnownToSpace (ss_UserId s) (sr_Space (sv_Space v))"

definition service_answers :: "service \<Rightarrow> space_system \<Rightarrow> answer list" where
  "service_answers v s =
     [Space_answer (sv_Space v)] @ (if user_known v s then [] else [Space_answer (sv_Added v)])
     @ [Hub_answer (sv_Stop v), Hub_answer (sv_SetScopes v), Hub_answer (sv_Start v), Scopes_answer (sv_Scopes v),
        Leader_answer RC_Success (sv_LeaderScope v) (sv_LeaderClient v)]"

definition enter_with :: "string \<Rightarrow> engine_ref \<Rightarrow> nat \<Rightarrow> service \<Rightarrow> space_system \<Rightarrow> space_system" where
  "enter_with SpaceId e cb v s = fold (answered 0) (service_answers v s) (EnterSpace SpaceId (Some e) cb s)"

definition admitted :: "service \<Rightarrow> space_system \<Rightarrow> bool" where
  "admitted v s \<longleftrightarrow> sr_Code (sv_Space v) = RC_Success
     \<and> (user_known v s \<or> \<not> HasFlag (sp_Attributes (sr_Space (sv_Space v))) SpaceAttributes_RequiresInvite \<and> sr_Code (sv_Added v) = RC_Success)"

definition joined_space :: "service \<Rightarrow> space_system \<Rightarrow> space_data" where
  "joined_space v s = (if user_known v s then sr_Space (sv_Space v) else sr_Space (sv_Added v))"

definition scopes_refreshed :: "service \<Rightarrow> bool" where
  "scopes_refreshed v \<longleftrightarrow> sv_Stop v = None \<and> sv_SetScopes v = None \<and> sv_Start v = None"

definition one_global_scope :: "service \<Rightarrow> bool" where
  "one_global_scope v \<longleftrightarrow> (\<exists>i. sv_Scopes v = [(i, True)])"

lemma String_eq_refl: "String_eq s s"
  by (simp add: String_eq_def strcmp_eq)

text \<open>With nothing waiting, an answer changes nothing.\<close>

lemma answered_idle: "Waiting s = [] \<Longrightarrow> fold (answered 0) as s = s"
  by (induction as) (simp_all add: answered_def)

text \<open>With one step waiting, an answer continues this step.\<close>

lemma answered_one:
  assumes "Waiting s = [w]" "resume w a (s\<lparr>Waiting := []\<rparr>) = Some s'"
  shows "answered 0 a s = s'"
  using assms by (simp add: answered_def)

lemmas space_steps = space_got_def AddUserToSpaceIfNecessary_def user_added_def refresh_connection_def refresh_next_def
  listening_started_def GetScopesBySpace_def scopes_got_def leader_got_def

lemmas space_effects = enter_failed_def enter_abandoned_def finish_entering_def FireEnterSpaceEvent_def report_def ss_emit_def wait_for_def

lemma enter_requested:
  assumes "Waiting s = []" "ConnectionUp s" "er_Online e" "er_HasFetchCallback e" "SpaceId \<noteq> []"
  shows "EnterSpace SpaceId (Some e) cb s = s\<lparr>ConnectionEngine := Some (er_Engine e),
    Waiting := [Entering Get_space \<lparr>en_SpaceId = SpaceId, en_Engine = er_Engine e, en_Callback = cb, en_Space = empty_space\<rparr>]\<rparr>"
  using assms by (simp add: EnterSpace_def GetSpace_def wait_for_def)

text \<open>The first half of the chain: until the user is let in.\<close>

lemma admission:
  fixes cb :: nat and e :: engine_ref
  assumes "Waiting s = []" "ConnectionUp s" "er_Online e" "er_HasFetchCallback e" "SpaceId \<noteq> []"
  defines "en \<equiv> \<lparr>en_SpaceId = SpaceId, en_Engine = er_Engine e, en_Callback = cb, en_Space = empty_space\<rparr>"
  defines "s0 \<equiv> s\<lparr>ConnectionEngine := Some (er_Engine e)\<rparr>"
  shows "fold (answered 0) ([Space_answer (sv_Space v)] @ (if user_known v s then [] else [Space_answer (sv_Added v)]))
      (EnterSpace SpaceId (Some e) cb s)
    = (if admitted v s then s0\<lparr>Waiting := [Entering Stop_listening (en\<lparr>en_Space := joined_space v s\<rparr>)]\<rparr> else enter_failed en s0)"
  unfolding enter_requested [OF assms(1-5)] using assms(1,2)
  by (auto simp: answered_def space_steps space_effects admitted_def joined_space_def user_known_def Let_def s0_def en_def)

text \<open>The second half: from the scopes to the end.\<close>

lemma after_admission:
  assumes "Waiting s = [Entering Stop_listening en]" "ConnectionUp s"
  shows "fold (answered 0) [Hub_answer (sv_Stop v), Hub_answer (sv_SetScopes v), Hub_answer (sv_Start v), Scopes_answer (sv_Scopes v),
        Leader_answer RC_Success (sv_LeaderScope v) (sv_LeaderClient v)] s
    = (let s0 = s\<lparr>Waiting := []\<rparr>; s1 = FireEnterSpaceEvent (en_Space en) s0
       in if \<not> scopes_refreshed v then enter_abandoned en s0
          else if \<not> one_global_scope v then enter_failed en s1
          else finish_entering en (ss_emit (Default_scope_registered (en_Engine en) (sv_LeaderScope v)
                 (if sv_LeaderClient v \<noteq> 0 then Some (sv_LeaderClient v) else None))
               (ss_emit (Leader_election_enabled (en_Engine en)) s1)))"
proof -
  consider (stop) x where "sv_Stop v = Some x" | (scopes) x where "sv_Stop v = None" "sv_SetScopes v = Some x"
    | (start) x where "sv_Stop v = None" "sv_SetScopes v = None" "sv_Start v = Some x"
    | (refreshed) "sv_Stop v = None" "sv_SetScopes v = None" "sv_Start v = None"
    by (cases "sv_Stop v"; cases "sv_SetScopes v"; cases "sv_Start v") auto
  then show ?thesis
  proof cases
    case refreshed
    have r: "scopes_refreshed v" using refreshed by (simp add: scopes_refreshed_def)
    show ?thesis
    proof (cases "one_global_scope v")
      case True
      then obtain i where "sv_Scopes v = [(i, True)]" by (auto simp: one_global_scope_def)
      then show ?thesis using assms refreshed r True
        by (simp add: answered_def space_steps space_effects String_eq_refl Let_def)
    next
      case False
      then have "length (sv_Scopes v) < 1 \<or> length (sv_Scopes v) > 1 \<or> \<not> snd (sv_Scopes v ! 0)"
        by (cases "sv_Scopes v") (auto simp: one_global_scope_def)
      then show ?thesis using assms refreshed r False
        by (auto simp: answered_def space_steps space_effects String_eq_refl Let_def)
    qed
  qed (use assms in \<open>simp_all add: answered_def space_steps space_effects scopes_refreshed_def Let_def\<close>)
qed

text \<open>The results told to the client.\<close>

fun reports_of :: "space_event list \<Rightarrow> (nat \<times> EResultCode \<times> nat) list" where
  "reports_of [] = []"
| "reports_of (Reported cb c h # es) = (cb, c, h) # reports_of es"
| "reports_of (_ # es) = reports_of es"

lemma reports_append [simp]: "reports_of (xs @ ys) = reports_of xs @ reports_of ys"
  by (induction xs rule: reports_of.induct) auto

text \<open>
  C6. Entering an online space succeeds exactly when the space can be read, the user is known to it or
  may be added and is, the hub takes the change of scopes, and the space has one scope, a global one;
  then the client is in the space it joined, the scope is registered with its leader, and success is
  reported once. If the user is not let in or the scopes are not as expected, failure is reported
  once and the client is in no space. But if the hub fails, nothing is ever reported.
\<close>

theorem entering_ends_as_specified:
  assumes "Waiting s = []" "ConnectionUp s" "er_Online e" "er_HasFetchCallback e" "SpaceId \<noteq> []"
  shows "let t = enter_with SpaceId e cb v s
    in Waiting t = [] \<and> ConnectionEngine t = Some (er_Engine e)
     \<and> (if admitted v s \<and> \<not> scopes_refreshed v
        then CurrentSpace t = CurrentSpace s \<and> reports_of (ss_Log t) = reports_of (ss_Log s)
        else if admitted v s \<and> one_global_scope v
        then CurrentSpace t = joined_space v s \<and> reports_of (ss_Log t) = reports_of (ss_Log s) @ [(cb, RC_Success, 200)]
          \<and> Default_scope_registered (er_Engine e) (sv_LeaderScope v)
              (if sv_LeaderClient v \<noteq> 0 then Some (sv_LeaderClient v) else None) \<in> set (ss_Log t)
        else CurrentSpace t = empty_space \<and> reports_of (ss_Log t) = reports_of (ss_Log s) @ [(cb, RC_Failed, 0)])"
proof -
  let ?first = "[Space_answer (sv_Space v)] @ (if user_known v s then [] else [Space_answer (sv_Added v)])"
  let ?rest = "[Hub_answer (sv_Stop v), Hub_answer (sv_SetScopes v), Hub_answer (sv_Start v), Scopes_answer (sv_Scopes v),
        Leader_answer RC_Success (sv_LeaderScope v) (sv_LeaderClient v)]"
  have "service_answers v s = ?first @ ?rest" by (simp add: service_answers_def)
  then have split: "enter_with SpaceId e cb v s = fold (answered 0) ?rest (fold (answered 0) ?first (EnterSpace SpaceId (Some e) cb s))"
    by (simp only: enter_with_def fold_append comp_apply)
  show ?thesis
  proof (cases "admitted v s")
    case True
    let ?en = "\<lparr>en_SpaceId = SpaceId, en_Engine = er_Engine e, en_Callback = cb, en_Space = joined_space v s\<rparr>"
    let ?s = "s\<lparr>ConnectionEngine := Some (er_Engine e), Waiting := [Entering Stop_listening ?en]\<rparr>"
    have "enter_with SpaceId e cb v s = fold (answered 0) ?rest ?s"
      unfolding split admission [OF assms] using True by simp
    also have "\<dots> = (let s0 = ?s\<lparr>Waiting := []\<rparr>; s1 = FireEnterSpaceEvent (en_Space ?en) s0
       in if \<not> scopes_refreshed v then enter_abandoned ?en s0
          else if \<not> one_global_scope v then enter_failed ?en s1
          else finish_entering ?en (ss_emit (Default_scope_registered (en_Engine ?en) (sv_LeaderScope v)
                 (if sv_LeaderClient v \<noteq> 0 then Some (sv_LeaderClient v) else None))
               (ss_emit (Leader_election_enabled (en_Engine ?en)) s1)))"
      by (rule after_admission) (use assms(2) in simp_all)
    finally show ?thesis using True by (simp add: Let_def space_effects)
  next
    case False
    have "enter_with SpaceId e cb v s = enter_failed
        \<lparr>en_SpaceId = SpaceId, en_Engine = er_Engine e, en_Callback = cb, en_Space = empty_space\<rparr> (s\<lparr>ConnectionEngine := Some (er_Engine e)\<rparr>)"
      unfolding split admission [OF assms] using False assms(1) by (simp add: answered_idle enter_failed_def report_def ss_emit_def del: fold.simps)
    then show ?thesis using False assms(1) by (simp add: Let_def space_effects)
  qed
qed

definition sample_service :: service where
  "sample_service = \<lparr>sv_Space = \<lparr>sr_Code = RC_Success, sr_Http = 200, sr_Space = empty_space\<lparr>sp_Id := ''a'', sp_OwnerId := ''u''\<rparr>\<rparr>,
     sv_Added = \<lparr>sr_Code = RC_Failed, sr_Http = 500, sr_Space = empty_space\<rparr>, sv_Stop = None, sv_SetScopes = None, sv_Start = None,
     sv_Scopes = [(''global'', True)], sv_LeaderScope = ''global'', sv_LeaderClient = 5\<rparr>"

definition sample_system :: space_system where
  "sample_system = \<lparr>CurrentSpace = empty_space, ConnectionUp = True, ConnectionEngine = None, ss_UserId = ''u'', Waiting = [], ss_Log = []\<rparr>"

lemma entering_ends_as_specified_witness:
  "let t = enter_with ''a'' \<lparr>er_Engine = 1, er_Online = True, er_HasFetchCallback = True\<rparr> 9 sample_service sample_system
   in IsInSpace t \<and> reports_of (ss_Log t) = [(9, RC_Success, 200)]"
proof -
  have k: "user_known sample_service sample_system"
    by (simp add: user_known_def UserIsKnownToSpace_def sample_service_def sample_system_def empty_space_def String_eq_refl)
  then have a: "admitted sample_service sample_system" "scopes_refreshed sample_service" "one_global_scope sample_service"
    by (simp_all add: admitted_def scopes_refreshed_def one_global_scope_def) (simp_all add: sample_service_def)
  have "joined_space sample_service sample_system = empty_space\<lparr>sp_Id := ''a'', sp_OwnerId := ''u''\<rparr>"
    using k by (simp add: joined_space_def) (simp add: sample_service_def)
  then show ?thesis
    using entering_ends_as_specified [of sample_system "\<lparr>er_Engine = 1, er_Online = True, er_HasFetchCallback = True\<rparr>" "''a''" 9 sample_service] a
    by (simp add: sample_system_def Let_def IsInSpace_def)
qed

section \<open>Where the flow departs from what it means to do\<close>

text \<open>An empty identifier: the exception is not an expected one, so the callback is never called.\<close>

lemma empty_space_id_is_never_reported:
  assumes "ConnectionUp s" "er_Online e" "er_HasFetchCallback e"
  shows "Waiting (EnterSpace [] (Some e) cb s) = Waiting s \<and> reports_of (ss_Log (EnterSpace [] (Some e) cb s)) = reports_of (ss_Log s)"
  using assms by (simp add: EnterSpace_def GetSpace_def space_effects Let_def)

text \<open>Leaving while entering: the chain goes on and puts the client back into the space it has left.\<close>

lemma leaving_while_entering_is_undone:
  assumes "Waiting s = [Entering Start_listening en]" "sp_Id (en_Space en) \<noteq> []"
  shows "\<not> IsInSpace (ExitSpace cb s) \<and> IsInSpace (answered 0 (Hub_answer None) (ExitSpace cb s))"
  using assms
  by (simp add: IsInSpace_def ExitSpace_def answered_def listening_started_def GetScopesBySpace_def String_eq_refl space_effects
      empty_space_def Let_def)

text \<open>A user who is not let in is told that the request failed, not why: the exception's result is not looked at.\<close>

lemma denied_access_is_reported_without_reason:
  assumes "sr_Code r = RC_Success" "HasFlag (sp_Attributes (sr_Space r)) SpaceAttributes_RequiresInvite"
    "\<not> UserIsKnownToSpace (ss_UserId s) (sr_Space r)"
  shows "reports_of (ss_Log (space_got en r s)) = reports_of (ss_Log s) @ [(en_Callback en, RC_Failed, 0)]"
  using assms by (simp add: space_steps space_effects Let_def)

text \<open>When the leader cannot be found out, the default scope is registered under the empty identifier.\<close>

lemma failed_leader_request_registers_no_scope:
  "Default_scope_registered (en_Engine en) [] None \<in> set (ss_Log (leader_got en RC_Failed [] 0 s))"
  by (simp add: space_steps space_effects Let_def)

text \<open>A failed entry leaves the engine attached to the connection, and so does leaving without a connection.\<close>

lemma failed_entry_keeps_the_engine: "ConnectionEngine (enter_failed en s) = ConnectionEngine s"
  by (simp add: space_effects)

lemma leaving_unconnected_keeps_the_engine: "\<not> ConnectionUp s \<Longrightarrow> ConnectionEngine (ExitSpace cb s) = ConnectionEngine s"
  by (simp add: ExitSpace_def space_effects Let_def)

end
