(* ===== verification/Csp_Array.thy ===== *)
theory Csp_Array
  imports Csp_List
begin

text \<open>
  Arrays as the systems use them (\<open>Library/include/CSP/Common/Array.h\<close>): values passed to and from
  services, turned into a list to be changed and back into an array. An array is the list of its
  elements; the list in between is the resizable list of \<open>Csp_List\<close>.
\<close>

text \<open>\<open>ToList\<close> appends to a list of the array's capacity and hands the list over by a move.\<close>

definition append_all :: "'a list \<Rightarrow> 'a csp_list \<Rightarrow> 'a csp_list option" where
  "append_all xs l = fold (\<lambda>x r. Option.bind r (Append x)) xs (Some l)"

definition Array_ToList :: "'a list \<Rightarrow> 'a csp_list option" where
  "Array_ToList xs = map_option (fst \<circ> List_move) (append_all xs (List_sized (of_nat (length xs))))"

text \<open>All elements of the array made from a list; \<open>None\<close> when one was never written.\<close>

definition array_elements :: "'a csp_list \<Rightarrow> 'a list option" where
  "array_elements l =
     (case ToArray l of None \<Rightarrow> None | Some xs \<Rightarrow> if None \<in> set xs then None else Some (map the xs))"

lemma append_all_refines:
  assumes "list_inv l" "length (list_abs l) + length xs \<le> 2 ^ 63"
  shows "\<exists>l'. append_all xs l = Some l' \<and> list_inv l' \<and> list_abs l' = list_abs l @ xs"
  using assms
proof (induction xs arbitrary: l)
  case Nil
  then show ?case by (simp add: append_all_def)
next
  case (Cons x xs)
  obtain l1 where l1: "Append x l = Some l1" "list_inv l1" "list_abs l1 = list_abs l @ [x]"
    using Append_refines [of l x] Cons.prems by auto
  then show ?case using Cons.IH [of l1] Cons.prems by (simp add: append_all_def)
qed

lemma List_sized_refines:
  assumes "n \<le> 2 ^ 63"
  shows "list_inv (List_sized (of_nat n) :: 'a csp_list) \<and> list_abs (List_sized (of_nat n) :: 'a csp_list) = []"
proof -
  have "unat (next_pow2 (of_nat n)) \<le> 2 ^ 63"
  proof (cases "n = 0")
    case True
    then show ?thesis by (simp add: next_pow2_def Let_def)
  next
    case False
    have "unat (of_nat n :: u64) = n" using assms by (intro unat_of_nat_u64) simp
    then show ?thesis using next_pow2_ge_nat [of "of_nat n"] False assms by (auto simp: Suc_le_eq)
  qed
  then show ?thesis
    using list_invI [of "List_sized (of_nat n) :: 'a csp_list" "[]" "replicate (unat (next_pow2 (of_nat n))) None"]
    by (simp add: List_sized_def AllocList_def blank_list_def)
qed

lemma List_move_refines: "list_inv l \<Longrightarrow> list_inv (fst (List_move l)) \<and> list_abs (fst (List_move l)) = list_abs l"
  using List_new_refines [where 'a = 'a]
  by (auto simp: List_move_def List_new_def list_inv_def list_abs_def split: option.splits)

lemma Array_ToList_refines:
  assumes "length xs \<le> 2 ^ 63"
  shows "\<exists>l. Array_ToList xs = Some l \<and> list_inv l \<and> list_abs l = xs"
proof -
  obtain l where l: "append_all xs (List_sized (of_nat (length xs))) = Some l" "list_inv l" "list_abs l = xs"
    using append_all_refines [of "List_sized (of_nat (length xs))" xs] List_sized_refines [where 'a = 'a, OF assms] assms by auto
  then show ?thesis using List_move_refines [OF l(2)] by (simp add: Array_ToList_def)
qed

lemma array_elements_refines: "list_inv l \<Longrightarrow> array_elements l = Some (list_abs l)"
  by (elim list_invE) (auto simp: array_elements_def ToArray_def comp_def)

end
