(* ===== verification/User_Settings.thy ===== *)
theory User_Settings
  imports Csp_Array Csp_String Space_Entry
begin

text \<open>
  The lists a user keeps with the settings service (\<open>src/Systems/Settings/SettingsSystem.cpp\<close>): the
  spaces visited last, at most 50, and the spaces the user has blocked, each one string of the
  service in which the identifiers are joined by commas; and the two flags. The service is a
  parameter: what it stores for the user (\<open>'s\<close>), and its answers to reading and writing a key of a
  context. Answers that only report progress are not passed on and are left out, an operation is
  one run from its request to its last answer, and callbacks are taken to be set.
  A list operation that fails an assertion has no result.
\<close>

definition MAX_RECENT_SPACES :: nat where "MAX_RECENT_SPACES = 50"

record 's settings_api =
  settingsPut :: "string \<Rightarrow> (string, string) omap \<Rightarrow> 's \<Rightarrow> EResultCode \<times> 's"
  settingsGet :: "string \<Rightarrow> string list \<Rightarrow> 's \<Rightarrow> EResultCode \<times> (string, string) omap"

section \<open>Single values\<close>

definition SetSettingValue :: "'s settings_api \<Rightarrow> string \<Rightarrow> string \<Rightarrow> string \<Rightarrow> 's \<Rightarrow> EResultCode \<times> 's" where
  "SetSettingValue api Context Key Value s = settingsPut api Context [(Key, Value)] s"

definition GetSettingValue :: "'s settings_api \<Rightarrow> string \<Rightarrow> string \<Rightarrow> 's \<Rightarrow> EResultCode \<times> string" where
  "GetSettingValue api Context Key s =
     (case settingsGet api Context [Key] s of (code, Settings) \<Rightarrow>
        (code, if code = RC_Success then (case map_of Settings Key of Some v \<Rightarrow> v | None \<Rightarrow> []) else []))"

definition flag_string :: "bool \<Rightarrow> string" where "flag_string b = (if b then ''true'' else ''false'')"

definition SetNDAStatus :: "'s settings_api \<Rightarrow> bool \<Rightarrow> 's \<Rightarrow> EResultCode \<times> 's" where
  "SetNDAStatus api b = SetSettingValue api ''UserSettings'' ''NDAStatus'' (flag_string b)"
definition GetNDAStatus :: "'s settings_api \<Rightarrow> 's \<Rightarrow> EResultCode \<times> bool" where
  "GetNDAStatus api s = map_prod id (\<lambda>v. String_eq v ''true'') (GetSettingValue api ''UserSettings'' ''NDAStatus'' s)"
definition SetNewsletterStatus :: "'s settings_api \<Rightarrow> bool \<Rightarrow> 's \<Rightarrow> EResultCode \<times> 's" where
  "SetNewsletterStatus api b = SetSettingValue api ''UserSettings'' ''Newsletter'' (flag_string b)"
definition GetNewsletterStatus :: "'s settings_api \<Rightarrow> 's \<Rightarrow> EResultCode \<times> bool" where
  "GetNewsletterStatus api s = map_prod id (\<lambda>v. String_eq v ''true'') (GetSettingValue api ''UserSettings'' ''Newsletter'' s)"

section \<open>Lists of spaces\<close>

definition GetSpaceList :: "string \<Rightarrow> 's settings_api \<Rightarrow> 's \<Rightarrow> EResultCode \<times> string list" where
  "GetSpaceList Key api s =
     (case GetSettingValue api ''UserSettings'' Key s of (code, v) \<Rightarrow>
        (code, if code = RC_Success \<and> v \<noteq> [] then split_from CHR '','' v else []))"

definition GetRecentlyVisitedSpaces :: "'s settings_api \<Rightarrow> 's \<Rightarrow> EResultCode \<times> string list" where
  "GetRecentlyVisitedSpaces = GetSpaceList ''RecentSpaces''"
definition GetBlockedSpaces :: "'s settings_api \<Rightarrow> 's \<Rightarrow> EResultCode \<times> string list" where
  "GetBlockedSpaces = GetSpaceList ''BlockedSpaces''"

definition ClearRecentlyVisitedSpaces :: "'s settings_api \<Rightarrow> 's \<Rightarrow> EResultCode \<times> 's" where
  "ClearRecentlyVisitedSpaces api = SetSettingValue api ''UserSettings'' ''RecentSpaces'' []"
definition ClearBlockedSpaces :: "'s settings_api \<Rightarrow> 's \<Rightarrow> EResultCode \<times> 's" where
  "ClearBlockedSpaces api = SetSettingValue api ''UserSettings'' ''BlockedSpaces'' []"

text \<open>The loop from the last index down to 1.\<close>

fun remove_duplicate :: "string \<Rightarrow> nat \<Rightarrow> string csp_list \<Rightarrow> string csp_list option" where
  "remove_duplicate SpaceID 0 l = Some l"
| "remove_duplicate SpaceID (Suc i) l =
     (case List_at l (Suc i) of
        None \<Rightarrow> None
      | Some x \<Rightarrow> if String_eq x SpaceID then Remove (Suc i) l else remove_duplicate SpaceID i l)"

definition remove_last_entry :: "string csp_list \<Rightarrow> string csp_list option" where
  "remove_last_entry l = (if CurrentSize l > MAX_RECENT_SPACES then Remove MAX_RECENT_SPACES l else Some l)"

text \<open>What is to be stored after a visit, from the list that was read.\<close>

definition visited_string :: "string \<Rightarrow> string list \<Rightarrow> string option" where
  "visited_string SpaceID RecentSpacesArray =
     Option.bind (Array_ToList RecentSpacesArray) (\<lambda>l.
     Option.bind (Insert 0 SpaceID l) (\<lambda>l.
     Option.bind (remove_duplicate SpaceID (CurrentSize l - 1) l) (\<lambda>l.
     Option.bind (remove_last_entry l) (\<lambda>l.
     map_option (\<lambda>xs. Join xs (Some CHR '','')) (array_elements l)))))"

definition AddRecentlyVisitedSpace :: "'s settings_api \<Rightarrow> string \<Rightarrow> 's \<Rightarrow> (EResultCode \<times> 's) option" where
  "AddRecentlyVisitedSpace api SpaceID s =
     (case GetRecentlyVisitedSpaces api s of (code, RecentSpacesArray) \<Rightarrow>
        if code = RC_Failed then Some (code, s)
        else map_option (\<lambda>v. SetSettingValue api ''UserSettings'' ''RecentSpaces'' v s) (visited_string SpaceID RecentSpacesArray))"

definition AddBlockedSpace :: "'s settings_api \<Rightarrow> string \<Rightarrow> 's \<Rightarrow> (EResultCode \<times> 's) option" where
  "AddBlockedSpace api SpaceID s =
     (case GetBlockedSpaces api s of (code, BlockedSpacesArray) \<Rightarrow>
        if code = RC_Failed then Some (code, s)
        else if list_ex (\<lambda>x. String_eq x SpaceID) BlockedSpacesArray then Some (code, s)
        else Option.bind (Array_ToList BlockedSpacesArray) (\<lambda>l.
             Option.bind (Insert 0 SpaceID l) (\<lambda>l.
             map_option (\<lambda>xs. SetSettingValue api ''UserSettings'' ''BlockedSpaces'' (Join xs (Some CHR '','')) s)
               (array_elements l))))"

text \<open>The elements hold no NUL, so the removal of an equal string is that of the string up to its NUL.\<close>

definition RemoveBlockedSpace :: "'s settings_api \<Rightarrow> string \<Rightarrow> 's \<Rightarrow> (EResultCode \<times> 's) option" where
  "RemoveBlockedSpace api SpaceID s =
     (case GetBlockedSpaces api s of (code, BlockedSpacesArray) \<Rightarrow>
        if code = RC_Failed then Some (code, s)
        else if \<not> list_ex (\<lambda>x. String_eq x SpaceID) BlockedSpacesArray then Some (code, s)
        else Option.bind (Array_ToList BlockedSpacesArray) (\<lambda>l.
             Option.bind (RemoveItem (c_str SpaceID) l) (\<lambda>l.
             map_option (\<lambda>xs. SetSettingValue api ''UserSettings'' ''BlockedSpaces'' (Join xs (Some CHR '','')) s)
               (array_elements l))))"

section \<open>The lists as the user means them\<close>

definition visit :: "string \<Rightarrow> string list \<Rightarrow> string list" where
  "visit x xs = take MAX_RECENT_SPACES (x # filter (\<lambda>y. y \<noteq> x) xs)"

definition space_id_ok :: "string \<Rightarrow> bool" where
  "space_id_ok x \<longleftrightarrow> x \<noteq> [] \<and> nul_free x \<and> CHR '','' \<notin> set x"

definition space_list_ok :: "string list \<Rightarrow> bool" where
  "space_list_ok xs \<longleftrightarrow> distinct xs \<and> (\<forall>x \<in> set xs. space_id_ok x)"

lemma String_eq_ok: "space_id_ok x \<Longrightarrow> space_id_ok y \<Longrightarrow> String_eq x y \<longleftrightarrow> x = y"
  by (simp add: space_id_ok_def String_eq_iff)

lemma List_at_refines: "list_inv l \<Longrightarrow> i < length (list_abs l) \<Longrightarrow> List_at l i = Some (list_abs l ! i)"
  by (elim list_invE) (auto simp: List_at_def nth_append)

lemma CurrentSize_refines: "list_inv l \<Longrightarrow> CurrentSize l = length (list_abs l)"
  by (elim list_invE) simp

text \<open>In a list \<open>x # xs\<close> with \<open>xs\<close> distinct the loop removes the one other occurrence of \<open>x\<close>.\<close>

lemma remove_duplicate_refines:
  assumes "list_inv l" "list_abs l = x # xs" "distinct xs" "\<forall>y \<in> set (x # xs). space_id_ok y"
    "i \<le> length xs" "x \<notin> set (drop i xs)"
  shows "\<exists>l'. remove_duplicate x i l = Some l' \<and> list_inv l' \<and> list_abs l' = x # filter (\<lambda>y. y \<noteq> x) xs"
  using assms(5,6)
proof (induction i)
  case 0
  then have "filter (\<lambda>y. y \<noteq> x) xs = xs" by (intro filter_True) auto
  then show ?case using assms by simp
next
  case (Suc i)
  have at: "List_at l (Suc i) = Some (xs ! i)" using List_at_refines [of l "Suc i"] assms Suc.prems by simp
  have ok: "String_eq (xs ! i) x \<longleftrightarrow> xs ! i = x" using String_eq_ok assms(4) Suc.prems by simp
  have dr: "drop i xs = xs ! i # drop (Suc i) xs" using Suc.prems by (simp add: Cons_nth_drop_Suc)
  show ?case
  proof (cases "xs ! i = x")
    case False
    then show ?thesis using Suc at ok dr by auto
  next
    case True
    have xs: "xs = take i xs @ x # drop (Suc i) xs" using True dr append_take_drop_id [of i xs] by simp
    have "x \<notin> set (take i xs)" using assms(3) xs by (metis distinct_append disjoint_iff list.set_intros(1))
    then have "filter (\<lambda>y. y \<noteq> x) (take i xs) = take i xs" "filter (\<lambda>y. y \<noteq> x) (drop (Suc i) xs) = drop (Suc i) xs"
      using Suc.prems by (intro filter_True; auto)+
    then have f: "filter (\<lambda>y. y \<noteq> x) xs = take i xs @ drop (Suc i) xs" by (subst xs) simp
    show ?thesis using Remove_refines [of l "Suc i"] assms(1,2) Suc.prems at ok True f by auto
  qed
qed

lemma remove_last_entry_refines:
  assumes "list_inv l" "length (list_abs l) \<le> Suc MAX_RECENT_SPACES"
  shows "\<exists>l'. remove_last_entry l = Some l' \<and> list_inv l' \<and> list_abs l' = take MAX_RECENT_SPACES (list_abs l)"
  using assms Remove_refines [of l MAX_RECENT_SPACES] CurrentSize_refines [OF assms(1)]
  by (auto simp: remove_last_entry_def)

lemma visited_string_refines:
  assumes "space_list_ok xs" "length xs \<le> MAX_RECENT_SPACES" "space_id_ok x"
  shows "visited_string x xs = Some (Join (visit x xs) (Some CHR '',''))"
proof -
  have len: "length xs \<le> 2 ^ 63" "length xs < 2 ^ 63" using assms(2) by (simp_all add: MAX_RECENT_SPACES_def)
  obtain l1 where l1: "Array_ToList xs = Some l1" "list_inv l1" "list_abs l1 = xs"
    using Array_ToList_refines [OF len(1)] by blast
  obtain l2 where l2: "Insert 0 x l1 = Some l2" "list_inv l2" "list_abs l2 = x # xs"
    using Insert_refines [of l1 0 x] l1 len by auto
  have size: "CurrentSize l2 - 1 = length xs" using CurrentSize_refines [OF l2(2)] l2(3) by simp
  obtain l3 where l3: "remove_duplicate x (length xs) l2 = Some l3" "list_inv l3" "list_abs l3 = x # filter (\<lambda>y. y \<noteq> x) xs"
    using remove_duplicate_refines [of l2 x xs "length xs"] l2 assms by (auto simp: space_list_ok_def)
  have "length (list_abs l3) \<le> Suc MAX_RECENT_SPACES"
    using l3(3) assms(2) le_trans [OF length_filter_le [of "\<lambda>y. y \<noteq> x" xs]] by simp
  then obtain l4 where l4: "remove_last_entry l3 = Some l4" "list_inv l4" "list_abs l4 = visit x xs"
    using remove_last_entry_refines [OF l3(2)] l3(3) by (auto simp: visit_def)
  show ?thesis using l1 l2 l3 l4 size array_elements_refines [OF l4(2)] by (simp add: visited_string_def)
qed

section \<open>What the service does\<close>

text \<open>
  The service keeps one value for a key of a context: what is written is read back until it is
  written again, and the other keys keep theirs.
\<close>

definition settings_service :: "'s settings_api \<Rightarrow> ('s \<Rightarrow> string \<Rightarrow> string \<Rightarrow> string option) \<Rightarrow> bool" where
  "settings_service api val \<longleftrightarrow>
     (\<forall>s c k v. fst (settingsPut api c [(k, v)] s) = RC_Success
        \<and> val (snd (settingsPut api c [(k, v)] s)) = (val s)(c := (val s c)(k \<mapsto> v)))
     \<and> (\<forall>s c k. fst (settingsGet api c [k] s) = RC_Success \<and> map_of (snd (settingsGet api c [k] s)) k = val s c k)"

lemma SetSettingValue_law:
  assumes "settings_service api val"
  shows "fst (SetSettingValue api c k v s) = RC_Success"
    "val (snd (SetSettingValue api c k v s)) = (val s)(c := (val s c)(k \<mapsto> v))"
  using assms by (simp_all add: settings_service_def SetSettingValue_def)

lemma GetSettingValue_law:
  assumes "settings_service api val"
  shows "GetSettingValue api c k s = (RC_Success, case val s c k of None \<Rightarrow> [] | Some v \<Rightarrow> v)"
proof -
  obtain code m where g: "settingsGet api c [k] s = (code, m)" by fastforce
  have "fst (settingsGet api c [k] s) = RC_Success" "map_of (snd (settingsGet api c [k] s)) k = val s c k"
    using assms by (simp_all only: settings_service_def)
  then show ?thesis by (simp add: GetSettingValue_def g split: option.split)
qed

text \<open>What the stored string of a list says.\<close>

definition stored_list :: "string option \<Rightarrow> string list" where
  "stored_list v = (case v of None \<Rightarrow> [] | Some v \<Rightarrow> if v = [] then [] else split_from CHR '','' v)"

lemma GetSpaceList_law:
  assumes "settings_service api val"
  shows "GetSpaceList Key api s = (RC_Success, stored_list (val s ''UserSettings'' Key))"
  using GetSettingValue_law [OF assms, of "''UserSettings''" Key s]
  by (auto simp: GetSpaceList_def stored_list_def split: option.split)

lemma stored_list_Join:
  assumes "\<forall>x \<in> set xs. space_id_ok x"
  shows "stored_list (Some (Join xs (Some CHR '',''))) = xs"
proof (cases "xs = []")
  case True
  then show ?thesis by (simp add: stored_list_def Join_def)
next
  case False
  have ne: "[] \<notin> set xs" "\<exists>p \<in> set xs. p \<noteq> []" using assms False by (auto simp: space_id_ok_def) (metis last_in_set)
  have ok: "\<forall>p \<in> set xs. nul_free p" "\<forall>p \<in> set xs. nul_free p \<and> CHR '','' \<notin> set p"
    using assms by (auto simp: space_id_ok_def)
  have J: "Join xs (Some CHR '','') = butlast (closed_parts CHR '','' xs)"
    using Join_closed [OF ne(2) ok(1)] ne(1) by simp
  have S: "split_from CHR '','' (Join xs (Some CHR '','')) = xs"
    using split_unclosed [OF _ ok(2) False ne(1)] J by simp
  have "Join xs (Some CHR '','') \<noteq> []"
  proof
    assume e: "Join xs (Some CHR '','') = []"
    then have "xs = [[]]" using S split_from_last [of "[]" "CHR '',''"] by simp
    then show False using ne(1) by simp
  qed
  then show ?thesis using S by (simp add: stored_list_def)
qed

section \<open>The operations are those of the lists\<close>

datatype settings_op = Visit string | Clear_visited | Block string | Unblock string | Clear_blocked | Set_nda bool | Set_news bool

record user_lists =
  ul_Visited :: "string list"
  ul_Blocked :: "string list"
  ul_Nda :: bool
  ul_News :: bool

fun run_settings_op :: "'s settings_api \<Rightarrow> settings_op \<Rightarrow> 's \<Rightarrow> (EResultCode \<times> 's) option" where
  "run_settings_op api (Visit x) s = AddRecentlyVisitedSpace api x s"
| "run_settings_op api Clear_visited s = Some (ClearRecentlyVisitedSpaces api s)"
| "run_settings_op api (Block x) s = AddBlockedSpace api x s"
| "run_settings_op api (Unblock x) s = RemoveBlockedSpace api x s"
| "run_settings_op api Clear_blocked s = Some (ClearBlockedSpaces api s)"
| "run_settings_op api (Set_nda b) s = Some (SetNDAStatus api b s)"
| "run_settings_op api (Set_news b) s = Some (SetNewsletterStatus api b s)"

text \<open>A run, which counts the operations that did not report success.\<close>

fun run_settings_ops :: "'s settings_api \<Rightarrow> settings_op list \<Rightarrow> 's \<Rightarrow> (nat \<times> 's) option" where
  "run_settings_ops api [] s = Some (0, s)"
| "run_settings_ops api (op # ops) s =
     Option.bind (run_settings_op api op s) (\<lambda>(code, s1).
     map_option (map_prod (\<lambda>n. if code = RC_Success then n else Suc n) id) (run_settings_ops api ops s1))"

fun user_lists_op :: "settings_op \<Rightarrow> user_lists \<Rightarrow> user_lists" where
  "user_lists_op (Visit x) u = u\<lparr>ul_Visited := visit x (ul_Visited u)\<rparr>"
| "user_lists_op Clear_visited u = u\<lparr>ul_Visited := []\<rparr>"
| "user_lists_op (Block x) u = u\<lparr>ul_Blocked := List.insert x (ul_Blocked u)\<rparr>"
| "user_lists_op (Unblock x) u = u\<lparr>ul_Blocked := filter (\<lambda>y. y \<noteq> x) (ul_Blocked u)\<rparr>"
| "user_lists_op Clear_blocked u = u\<lparr>ul_Blocked := []\<rparr>"
| "user_lists_op (Set_nda b) u = u\<lparr>ul_Nda := b\<rparr>"
| "user_lists_op (Set_news b) u = u\<lparr>ul_News := b\<rparr>"

fun settings_op_ok :: "settings_op \<Rightarrow> bool" where
  "settings_op_ok (Visit x) \<longleftrightarrow> space_id_ok x"
| "settings_op_ok (Block x) \<longleftrightarrow> space_id_ok x"
| "settings_op_ok (Unblock x) \<longleftrightarrow> space_id_ok x"
| "settings_op_ok _ \<longleftrightarrow> True"

text \<open>What the user's getters read.\<close>

definition user_lists_of :: "'s settings_api \<Rightarrow> 's \<Rightarrow> user_lists" where
  "user_lists_of api s = \<lparr>ul_Visited = snd (GetRecentlyVisitedSpaces api s), ul_Blocked = snd (GetBlockedSpaces api s),
     ul_Nda = snd (GetNDAStatus api s), ul_News = snd (GetNewsletterStatus api s)\<rparr>"

definition user_lists_ok :: "user_lists \<Rightarrow> bool" where
  "user_lists_ok u \<longleftrightarrow> space_list_ok (ul_Visited u) \<and> length (ul_Visited u) \<le> MAX_RECENT_SPACES \<and> space_list_ok (ul_Blocked u)"

lemma user_lists_of_val:
  assumes "settings_service api val"
  shows "user_lists_of api s = (let v = val s ''UserSettings'' in
    \<lparr>ul_Visited = stored_list (v ''RecentSpaces''), ul_Blocked = stored_list (v ''BlockedSpaces''),
     ul_Nda = (case v ''NDAStatus'' of None \<Rightarrow> False | Some x \<Rightarrow> String_eq x ''true''),
     ul_News = (case v ''Newsletter'' of None \<Rightarrow> False | Some x \<Rightarrow> String_eq x ''true'')\<rparr>)"
  using GetSettingValue_law [OF assms] GetSpaceList_law [OF assms]
  by (auto simp: user_lists_of_def Let_def GetRecentlyVisitedSpaces_def GetBlockedSpaces_def GetNDAStatus_def
      GetNewsletterStatus_def String_eq_def c_str_def split: option.split)

lemma user_lists_op_ok: "user_lists_ok u \<Longrightarrow> settings_op_ok op \<Longrightarrow> user_lists_ok (user_lists_op op u)"
  by (cases op) (auto simp: user_lists_ok_def space_list_ok_def visit_def MAX_RECENT_SPACES_def dest: in_set_takeD)

lemma flag_string_eq: "String_eq (flag_string b) ''true'' \<longleftrightarrow> b"
  by (simp add: flag_string_def String_eq_def c_str_def)

lemma list_ex_String_eq:
  assumes "\<forall>y \<in> set xs. space_id_ok y" "space_id_ok x"
  shows "list_ex (\<lambda>y. String_eq y x) xs \<longleftrightarrow> x \<in> set xs"
  using assms String_eq_ok by (auto simp: list_ex_iff)

lemma AddBlockedSpace_refines:
  assumes "settings_service api val" "GetBlockedSpaces api s = (RC_Success, xs)" "space_list_ok xs" "length xs < 2 ^ 63" "space_id_ok x"
  shows "AddBlockedSpace api x s = Some (if x \<in> set xs then (RC_Success, s)
    else SetSettingValue api ''UserSettings'' ''BlockedSpaces'' (Join (x # xs) (Some CHR '','')) s)"
proof -
  have ex: "list_ex (\<lambda>y. String_eq y x) xs \<longleftrightarrow> x \<in> set xs" using list_ex_String_eq assms(3,5) by (simp add: space_list_ok_def)
  obtain l where l: "Array_ToList xs = Some l" "list_inv l" "list_abs l = xs" using Array_ToList_refines [of xs] assms(4) by auto
  obtain l' where l': "Insert 0 x l = Some l'" "list_inv l'" "list_abs l' = x # xs" using Insert_refines [of l 0 x] l assms(4) by auto
  show ?thesis using l l' array_elements_refines [OF l'(2)] ex by (simp add: AddBlockedSpace_def assms(2))
qed

lemma RemoveBlockedSpace_refines:
  assumes "settings_service api val" "GetBlockedSpaces api s = (RC_Success, xs)" "space_list_ok xs" "length xs < 2 ^ 63" "space_id_ok x"
  shows "RemoveBlockedSpace api x s = Some (if x \<notin> set xs then (RC_Success, s)
    else SetSettingValue api ''UserSettings'' ''BlockedSpaces'' (Join (filter (\<lambda>y. y \<noteq> x) xs) (Some CHR '','')) s)"
proof -
  have ex: "list_ex (\<lambda>y. String_eq y x) xs \<longleftrightarrow> x \<in> set xs" using list_ex_String_eq assms(3,5) by (simp add: space_list_ok_def)
  have c: "c_str x = x" using assms(5) by (simp add: space_id_ok_def)
  obtain l where l: "Array_ToList xs = Some l" "list_inv l" "list_abs l = xs" using Array_ToList_refines [of xs] assms(4) by auto
  obtain l' where l': "RemoveItem x l = Some l'" "list_inv l'" "list_abs l' = remove1 x xs" using RemoveItem_refines [of l x] l by auto
  have "remove1 x xs = filter (\<lambda>y. y \<noteq> x) xs"
    using assms(3) by (simp add: space_list_ok_def distinct_remove1_removeAll removeAll_filter_not_eq eq_commute)
  then show ?thesis using l l' array_elements_refines [OF l'(2)] ex c by (simp add: RemoveBlockedSpace_def assms(2))
qed

text \<open>One operation.\<close>

lemma settings_op_refines:
  assumes "settings_service api val" "user_lists_ok (user_lists_of api s)" "length (ul_Blocked (user_lists_of api s)) < 2 ^ 63"
    "settings_op_ok op"
  shows "\<exists>s'. run_settings_op api op s = Some (RC_Success, s') \<and> user_lists_of api s' = user_lists_op op (user_lists_of api s)"
proof -
  let ?u = "user_lists_of api s"
  note u = user_lists_of_val [OF assms(1)] and set = SetSettingValue_law [OF assms(1)] and ok = assms(2) [unfolded user_lists_ok_def]
  have put: "\<exists>s'. SetSettingValue api ''UserSettings'' k v s = (RC_Success, s') \<and> val s' = (val s)(''UserSettings'' := (val s ''UserSettings'')(k \<mapsto> v))"
    for k v using set [of "''UserSettings''" k v s] by (cases "SetSettingValue api ''UserSettings'' k v s") simp
  have recent: "GetRecentlyVisitedSpaces api s = (RC_Success, ul_Visited ?u)"
    using GetSpaceList_law [OF assms(1)] by (simp add: GetRecentlyVisitedSpaces_def user_lists_of_def)
  have blocked: "GetBlockedSpaces api s = (RC_Success, ul_Blocked ?u)"
    using GetSpaceList_law [OF assms(1)] by (simp add: GetBlockedSpaces_def user_lists_of_def)
  have clear: "stored_list (Some []) = []" by (simp add: stored_list_def)
  show ?thesis
  proof (cases op)
    case (Visit x)
    then have "visited_string x (ul_Visited ?u) = Some (Join (visit x (ul_Visited ?u)) (Some CHR '',''))"
      using visited_string_refines ok assms(4) by simp
    moreover have "stored_list (Some (Join (visit x (ul_Visited ?u)) (Some CHR '',''))) = visit x (ul_Visited ?u)"
      using user_lists_op_ok [OF assms(2,4)] Visit by (intro stored_list_Join) (auto simp: user_lists_ok_def space_list_ok_def)
    ultimately show ?thesis using Visit put [of "''RecentSpaces''" "Join (visit x (ul_Visited ?u)) (Some CHR '','')"] recent
      by (auto simp: AddRecentlyVisitedSpace_def u Let_def)
  next
    case Clear_visited
    then show ?thesis using put [of "''RecentSpaces''" "[]"] clear by (auto simp: ClearRecentlyVisitedSpaces_def u Let_def)
  next
    case (Block x)
    then have "stored_list (Some (Join (x # ul_Blocked ?u) (Some CHR '',''))) = x # ul_Blocked ?u"
      using ok assms(4) by (intro stored_list_Join) (auto simp: space_list_ok_def)
    then show ?thesis using Block AddBlockedSpace_refines [OF assms(1) blocked _ assms(3)] ok assms(4)
        put [of "''BlockedSpaces''" "Join (x # ul_Blocked ?u) (Some CHR '','')"]
      by (auto simp: u Let_def)
  next
    case (Unblock x)
    then have "stored_list (Some (Join (filter (\<lambda>y. y \<noteq> x) (ul_Blocked ?u)) (Some CHR '',''))) = filter (\<lambda>y. y \<noteq> x) (ul_Blocked ?u)"
      using ok by (intro stored_list_Join) (auto simp: space_list_ok_def)
    moreover have "x \<notin> set (ul_Blocked ?u) \<Longrightarrow> filter (\<lambda>y. y \<noteq> x) (ul_Blocked ?u) = ul_Blocked ?u" by (intro filter_True) auto
    ultimately show ?thesis using Unblock RemoveBlockedSpace_refines [OF assms(1) blocked _ assms(3)] ok assms(4)
        put [of "''BlockedSpaces''" "Join (filter (\<lambda>y. y \<noteq> x) (ul_Blocked ?u)) (Some CHR '','')"]
      by (auto simp: u Let_def)
  next
    case Clear_blocked
    then show ?thesis using put [of "''BlockedSpaces''" "[]"] clear by (auto simp: ClearBlockedSpaces_def u Let_def)
  next
    case (Set_nda b)
    then show ?thesis using put [of "''NDAStatus''" "flag_string b"] flag_string_eq by (auto simp: SetNDAStatus_def u Let_def)
  next
    case (Set_news b)
    then show ?thesis using put [of "''Newsletter''" "flag_string b"] flag_string_eq by (auto simp: SetNewsletterStatus_def u Let_def)
  qed
qed

lemma user_lists_op_grows: "length (ul_Blocked (user_lists_op op u)) \<le> Suc (length (ul_Blocked u))"
  by (cases op) (auto simp: List.insert_def le_SucI)

text \<open>
  C30. Against a settings service that keeps what it is given and never fails, any sequence of visits, blocks, unblocks,
  clearings and flag changes reports success for every operation and leaves the user with the lists
  these operations stand for: the last 50 different spaces visited, most recent first, and the blocked
  spaces, each once - read back through the comma-separated strings, as long as identifiers are
  non-empty and hold neither a comma nor a NUL.
\<close>

theorem settings_lists_refine:
  assumes "settings_service api val" "user_lists_ok (user_lists_of api s)" "list_all settings_op_ok ops"
    "length (ul_Blocked (user_lists_of api s)) + length ops < 2 ^ 63"
  shows "\<exists>s'. run_settings_ops api ops s = Some (0, s')
    \<and> user_lists_of api s' = fold user_lists_op ops (user_lists_of api s) \<and> user_lists_ok (user_lists_of api s')"
  using assms(2-)
proof (induction ops arbitrary: s)
  case Nil
  then show ?case by simp
next
  case (Cons op ops)
  let ?u = "user_lists_of api s"
  obtain s1 where s1: "run_settings_op api op s = Some (RC_Success, s1)" "user_lists_of api s1 = user_lists_op op ?u"
    using settings_op_refines [OF assms(1) Cons.prems(1), of op] Cons.prems by auto
  have "user_lists_ok (user_lists_of api s1)" using s1(2) user_lists_op_ok Cons.prems by simp
  moreover have "length (ul_Blocked (user_lists_of api s1)) + length ops < 2 ^ 63"
    using user_lists_op_grows [of op ?u] Cons.prems(3) s1(2) by simp
  ultimately show ?case using Cons.IH [of s1] Cons.prems s1 by auto
qed

text \<open>A service that keeps its values in a map from contexts and keys.\<close>

definition map_settings :: "((string \<times> string) \<Rightarrow> string option) settings_api" where
  "map_settings = \<lparr>settingsPut = (\<lambda>c m s. (RC_Success, foldl (\<lambda>s (k, v). s((c, k) \<mapsto> v)) s m)),
     settingsGet = (\<lambda>c ks s. (RC_Success, List.map_filter (\<lambda>k. map_option (Pair k) (s (c, k))) ks))\<rparr>"

lemma map_settings_service: "settings_service map_settings (\<lambda>s c k. s (c, k))"
  by (auto simp: settings_service_def map_settings_def fun_eq_iff List.map_filter_def split: option.split)

lemma settings_lists_refine_witness:
  "\<exists>s'. run_settings_ops map_settings [Visit ''a'', Visit ''b'', Block ''c'', Visit ''a''] (\<lambda>_. None) = Some (0, s')
     \<and> user_lists_of map_settings s' = \<lparr>ul_Visited = [''a'', ''b''], ul_Blocked = [''c''], ul_Nda = False, ul_News = False\<rparr>"
proof -
  have u: "user_lists_of map_settings (\<lambda>_. None) = \<lparr>ul_Visited = [], ul_Blocked = [], ul_Nda = False, ul_News = False\<rparr>"
    by (simp add: user_lists_of_val [OF map_settings_service] stored_list_def)
  show ?thesis
    using settings_lists_refine [OF map_settings_service, of "\<lambda>_. None" "[Visit ''a'', Visit ''b'', Block ''c'', Visit ''a'']"]
    by (auto simp: u user_lists_ok_def space_list_ok_def space_id_ok_def nul_free_def visit_def MAX_RECENT_SPACES_def)
qed

section \<open>What is not kept\<close>

text \<open>
  A visit reads the list, changes it and writes it whole. Of two visits whose readings both come before
  their writings, only one stays.
\<close>

lemma overlapping_visits_lose_one:
  assumes "settings_service api val" "user_lists_ok (user_lists_of api s)" "space_id_ok a" "space_id_ok b"
    "a \<noteq> b" "a \<notin> set (ul_Visited (user_lists_of api s))"
  shows "\<exists>v w. let read = snd (GetRecentlyVisitedSpaces api s); put = \<lambda>v s. snd (SetSettingValue api ''UserSettings'' ''RecentSpaces'' v s)
    in visited_string a read = Some v \<and> visited_string b read = Some w
      \<and> a \<notin> set (snd (GetRecentlyVisitedSpaces api (put w (put v s))))"
proof -
  let ?r = "ul_Visited (user_lists_of api s)"
  have r2: "stored_list (val s ''UserSettings'' ''RecentSpaces'') = ?r"
    by (simp add: user_lists_of_def GetRecentlyVisitedSpaces_def GetSpaceList_law [OF assms(1)])
  have ok: "space_list_ok ?r" "length ?r \<le> MAX_RECENT_SPACES" using assms(2) by (simp_all add: user_lists_ok_def)
  have "\<forall>y \<in> set (visit b ?r). space_id_ok y" using ok(1) assms(4) by (auto simp: visit_def space_list_ok_def dest!: in_set_takeD)
  then have "stored_list (Some (Join (visit b ?r) (Some CHR '',''))) = visit b ?r" by (rule stored_list_Join)
  moreover have "a \<notin> set (visit b ?r)" using assms(5,6) by (auto simp: visit_def dest!: in_set_takeD)
  ultimately show ?thesis
    using visited_string_refines [OF ok assms(3)] visited_string_refines [OF ok assms(4)] SetSettingValue_law [OF assms(1)]
    by (simp add: Let_def r2 GetRecentlyVisitedSpaces_def GetSpaceList_law [OF assms(1)])
qed

text \<open>An identifier with a comma comes back as two.\<close>

lemma comma_splits_identifier: "stored_list (Some (Join [''a,b''] (Some CHR '',''))) = [''a'', ''b'']"
  by code_simp

text \<open>A failed reading is reported and nothing is stored.\<close>

lemma failed_reading_stores_nothing:
  assumes "fst (settingsGet api ''UserSettings'' [''RecentSpaces''] s) = RC_Failed"
  shows "AddRecentlyVisitedSpace api x s = Some (RC_Failed, s)"
  using assms
  by (auto simp: AddRecentlyVisitedSpace_def GetRecentlyVisitedSpaces_def GetSpaceList_def GetSettingValue_def split: prod.split)

end
