(* ===== verification/Event_System.thy ===== *)
theory Event_System
  imports Floats Csp_String "HOL-Library.Multiset"
begin

text \<open>
  The internal events (\<open>src/Events/Event.cpp\<close>, \<open>EventDispatcher.cpp\<close>, \<open>EventSystem.cpp\<close>) and the
  scheduler (\<open>src/Common/Scheduler.h\<close>). An event carries parameters by name; listeners, named by
  numbers, are called when the queue is processed. What a listener does in its turn is a
  parameter: the events it puts into the queue. (A listener that changes the list it is called from
  breaks the loop over the list and is left out.) Identifiers are hashes of names.
\<close>

section \<open>Events\<close>

datatype event_param = TypeInt u32 | TypeFloat float32 | TypeString string | TypeBool bool

type_synonym event_id = "u64 \<times> u64"

record csp_event =
  ev_Id :: event_id
  ev_Parameters :: "(string, event_param) omap"

definition AllocateEvent :: "event_id \<Rightarrow> csp_event" where
  "AllocateEvent EId = \<lparr>ev_Id = EId, ev_Parameters = []\<rparr>"

text \<open>\<open>insert\<close> keeps the parameter that is there. Names and strings end at a NUL.\<close>

definition insert_param :: "string \<Rightarrow> event_param \<Rightarrow> csp_event \<Rightarrow> csp_event" where
  "insert_param Key p e =
     (if map_of (ev_Parameters e) (c_str Key) = None
      then e\<lparr>ev_Parameters := omap_upd (c_str Key) p (ev_Parameters e)\<rparr> else e)"

definition AddInt :: "string \<Rightarrow> u32 \<Rightarrow> csp_event \<Rightarrow> csp_event" where
  "AddInt Key Value = insert_param Key (TypeInt Value)"
definition AddString :: "string \<Rightarrow> string \<Rightarrow> csp_event \<Rightarrow> csp_event" where
  "AddString Key Value = insert_param Key (TypeString (c_str Value))"
definition AddFloat :: "string \<Rightarrow> float32 \<Rightarrow> csp_event \<Rightarrow> csp_event" where
  "AddFloat Key Value = insert_param Key (TypeFloat Value)"
definition AddBool :: "string \<Rightarrow> bool \<Rightarrow> csp_event \<Rightarrow> csp_event" where
  "AddBool Key Value = insert_param Key (TypeBool Value)"

text \<open>A parameter of another type fails an assertion: \<open>None\<close>.\<close>

definition EventGetInt :: "string \<Rightarrow> csp_event \<Rightarrow> u32 option" where
  "EventGetInt Key e =
     (case map_of (ev_Parameters e) (c_str Key) of None \<Rightarrow> Some 0 | Some (TypeInt x) \<Rightarrow> Some x | Some _ \<Rightarrow> None)"
definition EventGetString :: "string \<Rightarrow> csp_event \<Rightarrow> string option option" where
  "EventGetString Key e =
     (case map_of (ev_Parameters e) (c_str Key) of None \<Rightarrow> Some None | Some (TypeString x) \<Rightarrow> Some (Some x) | Some _ \<Rightarrow> None)"
definition EventGetFloat :: "string \<Rightarrow> csp_event \<Rightarrow> float32 option" where
  "EventGetFloat Key e =
     (case map_of (ev_Parameters e) (c_str Key) of None \<Rightarrow> Some 0 | Some (TypeFloat x) \<Rightarrow> Some x | Some _ \<Rightarrow> None)"
definition EventGetBool :: "string \<Rightarrow> csp_event \<Rightarrow> bool option" where
  "EventGetBool Key e =
     (case map_of (ev_Parameters e) (c_str Key) of None \<Rightarrow> Some False | Some (TypeBool x) \<Rightarrow> Some x | Some _ \<Rightarrow> None)"

section \<open>Listeners\<close>

record event_system =
  Dispatchers :: "(event_id, nat list) umap"
  EventQueue :: "csp_event list"

definition GetDispatcher :: "event_id \<Rightarrow> event_system \<Rightarrow> nat list \<times> event_system" where
  "GetDispatcher EId s =
     (case map_of (Dispatchers s) EId of
        Some ls \<Rightarrow> (ls, s)
      | None \<Rightarrow> ([], s\<lparr>Dispatchers := umap_upd EId [] (Dispatchers s)\<rparr>))"

definition Dispatcher_RegisterListener :: "nat \<Rightarrow> nat list \<Rightarrow> nat list" where
  "Dispatcher_RegisterListener l CallbackList = filter (\<lambda>x. x \<noteq> l) CallbackList @ [l]"

definition Dispatcher_UnRegisterListener :: "nat \<Rightarrow> nat list \<Rightarrow> nat list" where
  "Dispatcher_UnRegisterListener l CallbackList = filter (\<lambda>x. x \<noteq> l) CallbackList"

definition RegisterListener :: "event_id \<Rightarrow> nat \<Rightarrow> event_system \<Rightarrow> event_system" where
  "RegisterListener EId l s =
     (let (ls, s1) = GetDispatcher EId s in s1\<lparr>Dispatchers := umap_upd EId (Dispatcher_RegisterListener l ls) (Dispatchers s1)\<rparr>)"

definition UnRegisterListener :: "event_id \<Rightarrow> nat \<Rightarrow> event_system \<Rightarrow> event_system" where
  "UnRegisterListener EId l s =
     (let (ls, s1) = GetDispatcher EId s in s1\<lparr>Dispatchers := umap_upd EId (Dispatcher_UnRegisterListener l ls) (Dispatchers s1)\<rparr>)"

definition UnRegisterAllListeners :: "event_system \<Rightarrow> event_system" where
  "UnRegisterAllListeners s = s\<lparr>Dispatchers := []\<rparr>"

definition EnqueueEvent :: "csp_event \<Rightarrow> event_system \<Rightarrow> event_system" where
  "EnqueueEvent e s = s\<lparr>EventQueue := EventQueue s @ [e]\<rparr>"

section \<open>Processing\<close>

text \<open>
  The calls made so far are the log. The loop ends when the queue is empty, which it need not be ever:
  no result is \<open>None\<close>.
\<close>

type_synonym reaction = "nat \<Rightarrow> csp_event \<Rightarrow> csp_event list"
type_synonym event_log = "(nat \<times> csp_event) list"

fun Dispatch :: "reaction \<Rightarrow> csp_event \<Rightarrow> nat list \<Rightarrow> event_system \<times> event_log \<Rightarrow> event_system \<times> event_log" where
  "Dispatch react e [] sl = sl"
| "Dispatch react e (l # ls) (s, log) = Dispatch react e ls (fold EnqueueEvent (react l e) s, log @ [(l, e)])"

definition process_one :: "reaction \<Rightarrow> csp_event \<Rightarrow> event_system \<times> event_log \<Rightarrow> event_system \<times> event_log" where
  "process_one react e sl =
     (case sl of (s, log) \<Rightarrow>
        let (ls, s1) = GetDispatcher (ev_Id e) (s\<lparr>EventQueue := tl (EventQueue s)\<rparr>) in Dispatch react e ls (s1, log))"

partial_function (option) ProcessEvents :: "reaction \<Rightarrow> event_system \<times> event_log \<Rightarrow> (event_system \<times> event_log) option" where
  "ProcessEvents react sl =
     (case EventQueue (fst sl) of
        [] \<Rightarrow> Some sl
      | e # q \<Rightarrow> ProcessEvents react (process_one react e sl))"

declare ProcessEvents.simps [code]

section \<open>Who is called\<close>

definition listeners_of :: "event_system \<Rightarrow> event_id \<Rightarrow> nat list" where
  "listeners_of s EId = (case map_of (Dispatchers s) EId of None \<Rightarrow> [] | Some ls \<Rightarrow> ls)"

lemma fold_EnqueueEvent: "fold EnqueueEvent es s = s\<lparr>EventQueue := EventQueue s @ es\<rparr>"
  by (induction es arbitrary: s) (simp_all add: EnqueueEvent_def)

lemma Dispatch_eq:
  "Dispatch react e ls (s, log)
    = (s\<lparr>EventQueue := EventQueue s @ concat (map (\<lambda>l. react l e) ls)\<rparr>, log @ map (\<lambda>l. (l, e)) ls)"
  by (induction ls arbitrary: s log) (simp_all add: fold_EnqueueEvent)

lemma GetDispatcher_listeners:
  "fst (GetDispatcher EId s) = listeners_of s EId" "listeners_of (snd (GetDispatcher EId s)) = listeners_of s"
  "EventQueue (snd (GetDispatcher EId s)) = EventQueue s"
  by (auto simp: GetDispatcher_def listeners_of_def fun_eq_iff split: option.split)

lemma process_one_eq:
  assumes "EventQueue s = e # q" "process_one react e (s, log) = (s', log')"
  shows "listeners_of s' = listeners_of s" "log' = log @ map (\<lambda>l. (l, e)) (listeners_of s (ev_Id e))"
    "EventQueue s' = q @ concat (map (\<lambda>l. react l e) (listeners_of s (ev_Id e)))"
proof -
  let ?t = "s\<lparr>EventQueue := q\<rparr>"
  have t: "listeners_of ?t = listeners_of s" by (simp add: listeners_of_def fun_eq_iff)
  have "process_one react e (s, log) = Dispatch react e (fst (GetDispatcher (ev_Id e) ?t)) (snd (GetDispatcher (ev_Id e) ?t), log)"
    using assms(1) by (simp add: process_one_def case_prod_beta)
  then have eq: "s' = (snd (GetDispatcher (ev_Id e) ?t))\<lparr>EventQueue := q @ concat (map (\<lambda>l. react l e) (listeners_of s (ev_Id e)))\<rparr>"
    "log' = log @ map (\<lambda>l. (l, e)) (listeners_of s (ev_Id e))"
    using assms(2) GetDispatcher_listeners [of "ev_Id e" ?t] t by (simp_all add: Dispatch_eq)
  show "log' = log @ map (\<lambda>l. (l, e)) (listeners_of s (ev_Id e))" by (rule eq(2))
  show "EventQueue s' = q @ concat (map (\<lambda>l. react l e) (listeners_of s (ev_Id e)))" by (simp add: eq(1))
  have "listeners_of s' = listeners_of (snd (GetDispatcher (ev_Id e) ?t))" by (simp add: eq(1) listeners_of_def fun_eq_iff)
  then show "listeners_of s' = listeners_of s" using GetDispatcher_listeners(2) [of "ev_Id e" ?t] t by simp
qed

text \<open>Which events are processed, in which order: the queue, then what the listeners add, as a queue.\<close>

inductive processed :: "reaction \<Rightarrow> (event_id \<Rightarrow> nat list) \<Rightarrow> csp_event list \<Rightarrow> csp_event list \<Rightarrow> bool" for react ls where
  processed_none: "processed react ls [] []"
| processed_next: "processed react ls (q @ concat (map (\<lambda>l. react l e) (ls (ev_Id e)))) es \<Longrightarrow> processed react ls (e # q) (e # es)"

inductive_cases processed_NilE: "processed react ls [] es"
inductive_cases processed_ConsE: "processed react ls (e # q) es"

lemma ProcessEvents_processed:
  assumes "processed react ls q es" "EventQueue s = q" "listeners_of s = ls"
  shows "\<exists>s'. ProcessEvents react (s, log) = Some (s', log @ concat (map (\<lambda>e. map (\<lambda>l. (l, e)) (ls (ev_Id e))) es))
    \<and> EventQueue s' = [] \<and> listeners_of s' = ls"
  using assms
proof (induction arbitrary: s log rule: processed.induct)
  case processed_none
  then show ?case by (subst ProcessEvents.simps) simp
next
  case (processed_next q e es)
  obtain s' log' where p: "process_one react e (s, log) = (s', log')" by fastforce
  note one = process_one_eq [OF processed_next.prems(1) p]
  have step: "ProcessEvents react (s, log) = ProcessEvents react (s', log')"
    using p processed_next.prems(1) by (subst ProcessEvents.simps) simp
  have "EventQueue s' = q @ concat (map (\<lambda>l. react l e) (ls (ev_Id e)))" "listeners_of s' = ls"
    using one processed_next.prems(2) by simp_all
  from processed_next.IH [OF this, of log'] show ?case
    using one(2) processed_next.prems(2) by (simp add: step)
qed

text \<open>Listeners that only add events of a smaller rank cannot keep the loop going for ever.\<close>

lemma processed_exists:
  assumes "\<And>l e e'. e' \<in> set (react l e) \<Longrightarrow> rank e' < (rank e :: nat)"
  shows "\<exists>es. processed react ls q es"
proof (induction q rule: wf_induct_rule [OF wf_inv_image [OF wf_mult [OF wf_less], of "\<lambda>q. image_mset rank (mset q)"]])
  case (1 q)
  show ?case
  proof (cases q)
    case Nil then show ?thesis using processed_none by blast
  next
    case (Cons e q')
    let ?new = "concat (map (\<lambda>l. react l e) (ls (ev_Id e)))"
    have "image_mset rank (mset ?new) = {#} \<or> (\<forall>k \<in># image_mset rank (mset ?new). k < rank e)"
      using assms by auto
    then have "(image_mset rank (mset (q' @ ?new)), image_mset rank (mset q)) \<in> mult {(x, y). x < y}"
      using one_step_implies_mult [of "{#rank e#}" "image_mset rank (mset ?new)" "{(x, y). x < y}" "image_mset rank (mset q')"] Cons
      by auto
    then obtain es where "processed react ls (q' @ ?new) es" using 1 [of "q' @ ?new"] by (auto simp: in_inv_image)
    then show ?thesis using Cons processed_next by blast
  qed
qed

text \<open>
  C31. Processing the events returns whenever the events that listeners add in their turn descend in rank,
  and then every event that was queued or added has been given to each listener of its kind exactly
  once, in the order in which the events came into the queue and the listeners were registered;
  the queue is empty and the registrations are as before.
\<close>

theorem events_reach_their_listeners:
  assumes "\<And>l e e'. e' \<in> set (react l e) \<Longrightarrow> rank e' < (rank e :: nat)"
  shows "\<exists>s' es. processed react (listeners_of s) (EventQueue s) es
    \<and> ProcessEvents react (s, []) = Some (s', concat (map (\<lambda>e. map (\<lambda>l. (l, e)) (listeners_of s (ev_Id e))) es))
    \<and> EventQueue s' = [] \<and> listeners_of s' = listeners_of s"
proof -
  obtain es where "processed react (listeners_of s) (EventQueue s) es"
    using processed_exists [where react = react and rank = rank and ls = "listeners_of s" and q = "EventQueue s"] assms
    by blast
  then show ?thesis using ProcessEvents_processed [where s = s and log = "[]", OF _ refl refl] by fastforce
qed

lemma events_reach_their_listeners_witness:
  "let e = AllocateEvent (1, 2); f = AddInt ''n'' 7 (AllocateEvent (1, 3));
       s = EnqueueEvent e (RegisterListener (1, 3) 5 (RegisterListener (1, 2) 6 (RegisterListener (1, 2) 4 \<lparr>Dispatchers = [], EventQueue = []\<rparr>)));
       react = (\<lambda>l x. if l = 6 \<and> x = e then [f] else [])
   in \<exists>s'. ProcessEvents react (s, []) = Some (s', [(4, e), (6, e), (5, f)])"
proof -
  define e where "e = AllocateEvent (1, 2)"
  define f where "f = AddInt ''n'' 7 (AllocateEvent (1, 3))"
  define s where "s = EnqueueEvent e (RegisterListener (1, 3) 5 (RegisterListener (1, 2) 6 (RegisterListener (1, 2) 4 \<lparr>Dispatchers = [], EventQueue = []\<rparr>)))"
  define react where "react = (\<lambda>(l::nat) x. if l = 6 \<and> x = e then [f] else [])"
  have id: "ev_Id e = (1, 2)" "ev_Id f = (1, 3)" "f \<noteq> e"
    by (simp_all add: e_def f_def AllocateEvent_def AddInt_def insert_param_def)
  have ls: "listeners_of s (1, 2) = [4, 6]" "listeners_of s (1, 3) = [5]" "EventQueue s = [e]"
    by (simp_all add: s_def EnqueueEvent_def RegisterListener_def UnRegisterListener_def GetDispatcher_def listeners_of_def
        Dispatcher_RegisterListener_def umap_upd_def)
  have p: "es = [e, f]" if "processed react (listeners_of s) (EventQueue s) es" for es
    using that by (auto simp: ls id react_def elim!: processed_ConsE processed_NilE)
  obtain s' es where "processed react (listeners_of s) (EventQueue s) es"
    "ProcessEvents react (s, []) = Some (s', concat (map (\<lambda>e. map (\<lambda>l. (l, e)) (listeners_of s (ev_Id e))) es))"
    using events_reach_their_listeners [where rank = "\<lambda>x. if x = e then 1 else 0" and react = react and s = s] id(3)
    by (auto simp: react_def split: if_splits)
  then have "ProcessEvents react (s, []) = Some (s', [(4, e), (6, e), (5, f)])" using p [of es] by (simp add: id ls)
  then show ?thesis unfolding Let_def s_def react_def e_def f_def by blast
qed

text \<open>A listener is called once for an event however often it was registered.\<close>

lemma registered_once:
  "listeners_of (RegisterListener EId l s) EId = filter (\<lambda>x. x \<noteq> l) (listeners_of s EId) @ [l]"
  "EId' \<noteq> EId \<Longrightarrow> listeners_of (RegisterListener EId l s) EId' = listeners_of s EId'"
  "listeners_of (UnRegisterListener EId l s) EId = filter (\<lambda>x. x \<noteq> l) (listeners_of s EId)"
  by (auto simp: RegisterListener_def UnRegisterListener_def GetDispatcher_def listeners_of_def
      Dispatcher_RegisterListener_def Dispatcher_UnRegisterListener_def split: option.split)

text \<open>A parameter keeps its first value: adding under a name that is there has no effect.\<close>

lemma parameter_keeps_first_value:
  "EventGetInt Key (AddInt Key y (AddInt Key x (AllocateEvent EId))) = Some x"
  by (simp add: EventGetInt_def AddInt_def insert_param_def AllocateEvent_def)

section \<open>The scheduler\<close>

text \<open>
  Tasks are to be run at a time. A task made by \<open>ScheduleEvery\<close> starts its function and schedules
  itself again, which takes the lock of the list of tasks; the thread holds this lock, which is not
  recursive, while it calls the task, so the call does not come back: \<open>None\<close>. Times are the ticks of
  the system clock, a function is a number, and the log holds the functions started.
\<close>

datatype task_func = Once nat | Every int nat

record function_timer =
  ft_Func :: task_func
  ft_Time :: int
  ft_Id :: u32

record scheduler =
  Tasks :: "function_timer list"
  IdCounter :: u32
  Started :: "nat list"

definition Scheduler_new :: scheduler where "Scheduler_new = \<lparr>Tasks = [], IdCounter = 1, Started = []\<rparr>"

definition FunctionTimer_less :: "function_timer \<Rightarrow> function_timer \<Rightarrow> bool" where
  "FunctionTimer_less a b \<longleftrightarrow> ft_Time a > ft_Time b"

text \<open>\<open>std::list::sort\<close> by that order, which keeps equal elements in place.\<close>

definition sort_tasks :: "function_timer list \<Rightarrow> function_timer list" where
  "sort_tasks ts = sort_key (\<lambda>t. - ft_Time t) ts"

definition ScheduleAtIntern :: "int \<Rightarrow> task_func \<Rightarrow> scheduler \<Rightarrow> u32 \<times> scheduler" where
  "ScheduleAtIntern Time f s =
     (IdCounter s, s\<lparr>Tasks := sort_tasks (Tasks s @ [\<lparr>ft_Func = f, ft_Time = Time, ft_Id = IdCounter s\<rparr>]), IdCounter := IdCounter s + 1\<rparr>)"

definition ScheduleAt :: "int \<Rightarrow> nat \<Rightarrow> scheduler \<Rightarrow> u32 \<times> scheduler" where
  "ScheduleAt Time f = ScheduleAtIntern Time (Once f)"

definition ScheduleEvery :: "int \<Rightarrow> int \<Rightarrow> nat \<Rightarrow> scheduler \<Rightarrow> scheduler" where
  "ScheduleEvery now Interval f s = snd (ScheduleAtIntern (now + Interval) (Every Interval f) s)"

definition CancelTask :: "u32 \<Rightarrow> scheduler \<Rightarrow> scheduler" where
  "CancelTask EId s = s\<lparr>Tasks := filter (\<lambda>t. ft_Id t \<noteq> EId) (Tasks s)\<rparr>"

text \<open>One turn of the thread, and turns at given times.\<close>

definition thread_turn :: "int \<Rightarrow> scheduler \<Rightarrow> scheduler option" where
  "thread_turn now s =
     (case Tasks s of
        [] \<Rightarrow> Some s
      | t # ts \<Rightarrow>
          if ft_Time t \<le> now
          then (case ft_Func t of Once f \<Rightarrow> Some (s\<lparr>Tasks := ts, Started := Started s @ [f]\<rparr>) | Every _ _ \<Rightarrow> None)
          else Some s)"

fun thread_turns :: "int list \<Rightarrow> scheduler \<Rightarrow> scheduler option" where
  "thread_turns [] s = Some s"
| "thread_turns (now # nows) s = Option.bind (thread_turn now s) (thread_turns nows)"

definition tasks_sorted :: "scheduler \<Rightarrow> bool" where
  "tasks_sorted s \<longleftrightarrow> sorted_wrt (\<lambda>a b. \<not> FunctionTimer_less b a) (Tasks s)"

lemma sort_tasks_sorted: "sorted_wrt (\<lambda>a b. \<not> FunctionTimer_less b a) (sort_tasks ts)"
  using sorted_sort_key [of "\<lambda>t. - ft_Time t" ts] by (simp add: sort_tasks_def sorted_map FunctionTimer_less_def not_less)

lemma scheduler_operations_sorted:
  "tasks_sorted (snd (ScheduleAtIntern Time f s))" "tasks_sorted s \<Longrightarrow> tasks_sorted (CancelTask EId s)"
  by (simp_all add: tasks_sorted_def ScheduleAtIntern_def sort_tasks_sorted CancelTask_def sorted_wrt_filter)

text \<open>The list is sorted with the last task first: nothing is started while any task is in the future.\<close>

lemma late_task_holds_back_the_others:
  assumes "tasks_sorted s" "thread_turn now s = Some s'" "Started s' \<noteq> Started s"
  shows "\<forall>t \<in> set (Tasks s). ft_Time t \<le> now"
  using assms by (auto simp: thread_turn_def tasks_sorted_def FunctionTimer_less_def split: list.splits if_splits task_func.splits)

lemma due_task_waits_for_the_last:
  "thread_turns [50, 150, 999] (snd (ScheduleAt 1000 2 (snd (ScheduleAt 10 1 Scheduler_new))))
     = Some (snd (ScheduleAt 1000 2 (snd (ScheduleAt 10 1 Scheduler_new))))"
  by (simp add: Scheduler_new_def ScheduleAt_def ScheduleAtIntern_def sort_tasks_def thread_turn_def)

text \<open>A repeated task stops the thread, with the lock held.\<close>

lemma repeated_task_stops_the_thread:
  "0 \<le> Interval \<Longrightarrow> thread_turn (now + Interval) (ScheduleEvery now Interval f Scheduler_new) = None"
  by (simp add: ScheduleEvery_def Scheduler_new_def ScheduleAtIntern_def sort_tasks_def thread_turn_def)

text \<open>Once all tasks are due, each turn starts one, the last first.\<close>

lemma due_tasks_are_started:
  assumes "list_all (\<lambda>t. (\<exists>f. ft_Func t = Once f) \<and> ft_Time t \<le> now) (Tasks s)" "\<forall>n \<in> set nows. now \<le> n" "length nows = length (Tasks s)"
  shows "\<exists>s'. thread_turns nows s = Some s' \<and> Tasks s' = [] \<and> map Once (Started s') = map Once (Started s) @ map ft_Func (Tasks s)"
  using assms
proof (induction nows arbitrary: s)
  case (Cons n nows)
  then obtain t ts f where t: "Tasks s = t # ts" "ft_Func t = Once f" "ft_Time t \<le> n" by (cases "Tasks s") force+
  then have "thread_turn n s = Some (s\<lparr>Tasks := ts, Started := Started s @ [f]\<rparr>)" by (simp add: thread_turn_def)
  then show ?case using Cons.IH [of "s\<lparr>Tasks := ts, Started := Started s @ [f]\<rparr>"] Cons.prems t by auto
qed simp

text \<open>A cancelled task is not started any more.\<close>

lemma cancelled_task_is_gone: "\<forall>t \<in> set (Tasks (CancelTask EId s)). ft_Id t \<noteq> EId"
  by (simp add: CancelTask_def)

end
