(* ===== verification/Hotspot_Groups.thy ===== *)
theory Hotspot_Groups
  imports Csp_Array Csp_Uri Space_Entry
begin

text \<open>
  Hotspot groups (\<open>src/Systems/HotspotSequence/HotspotSequenceSystem.cpp\<close>) on the sequences of the
  aggregation service (\<open>src/Systems/Sequence/SequenceSystem.cpp\<close>, \<open>Sequence.cpp\<close>). A group is a
  sequence whose key is made of the space and the name of the group, percent-encoded on its way to the
  service. The service is a parameter: the sequences it keeps (\<open>'s\<close>) and its answers, the
  last of which may be preceded by answers that report progress. A result is what a callback is given;
  callbacks are taken to be set, and the current space is an argument.
\<close>

section \<open>Sequences\<close>

record seq =
  seq_Key :: string
  seq_ReferenceType :: string
  seq_ReferenceId :: string
  seq_Items :: "string list"
  seq_MetaData :: "(string, string) omap"

definition empty_seq :: seq where
  "empty_seq = \<lparr>seq_Key = [], seq_ReferenceType = [], seq_ReferenceId = [], seq_Items = [], seq_MetaData = []\<rparr>"

type_synonym 'a answer = "EResultCode \<times> nat \<times> 'a"

text \<open>The requests: keys, regular expression, reference type and ids, and items are each optional in a query.\<close>

record 's sequence_api =
  sequencesPut :: "string option \<Rightarrow> seq \<Rightarrow> 's \<Rightarrow> seq answer list \<times> 's"
  sequencesGet :: "string list option \<Rightarrow> string option \<Rightarrow> string option \<Rightarrow> string list option \<Rightarrow> string list option \<Rightarrow> 's \<Rightarrow> seq list answer list"
  sequencesKeysKeyGet :: "string \<Rightarrow> 's \<Rightarrow> seq answer list"
  sequencesKeysDelete :: "string list \<Rightarrow> 's \<Rightarrow> unit answer list \<times> 's"

definition CreateSequenceDto :: "string \<Rightarrow> string \<Rightarrow> string \<Rightarrow> string list \<Rightarrow> (string, string) omap \<Rightarrow> seq" where
  "CreateSequenceDto SequenceKey ReferenceType ReferenceId Items MetaData =
     \<lparr>seq_Key = Encode_URI SequenceKey False, seq_ReferenceType = ReferenceType, seq_ReferenceId = ReferenceId,
      seq_Items = Items, seq_MetaData = MetaData\<rparr>"

definition SequenceDtoToSequence :: "seq \<Rightarrow> seq" where
  "SequenceDtoToSequence Dto = Dto\<lparr>seq_Key := Decode_URI (seq_Key Dto) False\<rparr>"

definition ValidateKey :: "string \<Rightarrow> bool" where
  "ValidateKey Key \<longleftrightarrow> CHR ''/'' \<notin> set (c_str Key) \<and> CHR ''#'' \<notin> set (c_str Key) \<and> CHR ''%'' \<notin> set (c_str Key)"

text \<open>What is read of an answer: only a success carries sequences.\<close>

definition SequenceResult :: "seq answer \<Rightarrow> seq answer" where
  "SequenceResult = (\<lambda>(code, http, q). (code, http, if code = RC_Success then SequenceDtoToSequence q else empty_seq))"

definition SequencesResult :: "seq list answer \<Rightarrow> seq list answer" where
  "SequencesResult = (\<lambda>(code, http, qs). (code, http, if code = RC_Success then map SequenceDtoToSequence qs else []))"

definition CreateSequence :: "'s sequence_api \<Rightarrow> string \<Rightarrow> string \<Rightarrow> string \<Rightarrow> string list \<Rightarrow> (string, string) omap \<Rightarrow> 's \<Rightarrow> seq answer list \<times> 's" where
  "CreateSequence api SequenceKey ReferenceType ReferenceId Items MetaData s =
     (if \<not> ValidateKey SequenceKey then ([(RC_Failed, 0, empty_seq)], s)
      else map_prod (map SequenceResult) id
        (sequencesPut api None (CreateSequenceDto SequenceKey ReferenceType ReferenceId Items MetaData) s))"

definition UpdateSequence :: "'s sequence_api \<Rightarrow> string \<Rightarrow> string \<Rightarrow> string \<Rightarrow> string list \<Rightarrow> (string, string) omap \<Rightarrow> 's \<Rightarrow> seq answer list \<times> 's" where
  "UpdateSequence api SequenceKey ReferenceType ReferenceId Items MetaData s =
     (if \<not> ValidateKey SequenceKey then ([(RC_Failed, 0, empty_seq)], s)
      else map_prod (map SequenceResult) id
        (sequencesPut api (Some (Encode_URI SequenceKey False)) (CreateSequenceDto SequenceKey ReferenceType ReferenceId Items MetaData) s))"

definition GetSequence :: "'s sequence_api \<Rightarrow> string \<Rightarrow> 's \<Rightarrow> seq answer list" where
  "GetSequence api SequenceKey s =
     (if \<not> ValidateKey SequenceKey then [(RC_Failed, 0, empty_seq)]
      else map SequenceResult (sequencesKeysKeyGet api (Encode_URI SequenceKey True) s))"

text \<open>Every answer but a success is passed on; a success is followed by the request that renames.\<close>

definition rename_answer :: "'s sequence_api \<Rightarrow> string \<Rightarrow> seq answer \<Rightarrow> 's \<Rightarrow> seq answer list \<times> 's" where
  "rename_answer api NewSequenceKey Result s =
     (case Result of (code, http, q) \<Rightarrow>
        if code \<noteq> RC_Success then ([Result], s)
        else map_prod (map SequenceResult) id
          (sequencesPut api (Some (Encode_URI NewSequenceKey False))
             (CreateSequenceDto (seq_Key q) (seq_ReferenceType q) (seq_ReferenceId q) (seq_Items q) (seq_MetaData q)) s))"

fun answer_all :: "('b \<Rightarrow> 's \<Rightarrow> 'a list \<times> 's) \<Rightarrow> 'b list \<Rightarrow> 's \<Rightarrow> 'a list \<times> 's" where
  "answer_all f [] s = ([], s)"
| "answer_all f (a # as) s = (let (r, s) = f a s; (rs, s) = answer_all f as s in (r @ rs, s))"

definition RenameSequence :: "'s sequence_api \<Rightarrow> string \<Rightarrow> string \<Rightarrow> 's \<Rightarrow> seq answer list \<times> 's" where
  "RenameSequence api OldSequenceKey NewSequenceKey s =
     (if \<not> ValidateKey OldSequenceKey then ([(RC_Failed, 0, empty_seq)], s)
      else if \<not> ValidateKey NewSequenceKey then ([(RC_Failed, 0, empty_seq)], s)
      else answer_all (rename_answer api NewSequenceKey) (GetSequence api OldSequenceKey s) s)"

definition GetSequencesByCriteria :: "'s sequence_api \<Rightarrow> string list \<Rightarrow> string option \<Rightarrow> string option \<Rightarrow> string list \<Rightarrow> 's \<Rightarrow> seq list answer list" where
  "GetSequencesByCriteria api InSequenceKeys InKeyRegex InReferenceType InReferenceIds s =
     (if \<not> list_all ValidateKey InSequenceKeys then [(RC_Failed, 0, [])]
      else if (InReferenceType \<noteq> None) = (InReferenceIds = []) then [(RC_Failed, 0, [])]
      else map SequencesResult (sequencesGet api (Some (map (\<lambda>k. Encode_URI k False) InSequenceKeys))
        (map_option (\<lambda>r. Encode_URI r False) InKeyRegex) InReferenceType (Some InReferenceIds) None s))"

definition GetAllSequencesContainingItems :: "'s sequence_api \<Rightarrow> string list \<Rightarrow> string option \<Rightarrow> string list \<Rightarrow> 's \<Rightarrow> seq list answer list" where
  "GetAllSequencesContainingItems api InItems InReferenceType InReferenceIds s =
     map SequencesResult (sequencesGet api None None InReferenceType (Some InReferenceIds) (Some InItems) s)"

definition DeleteSequences :: "'s sequence_api \<Rightarrow> string list \<Rightarrow> 's \<Rightarrow> unit answer list \<times> 's" where
  "DeleteSequences api InSequenceKeys s =
     (if \<not> list_all ValidateKey InSequenceKeys then ([(RC_Failed, 0, ())], s)
      else sequencesKeysDelete api (map (\<lambda>k. Encode_URI k False) InSequenceKeys) s)"

section \<open>Groups\<close>

record hotspot_group =
  hg_Name :: string
  hg_Items :: "string list"

definition empty_group :: hotspot_group where "empty_group = \<lparr>hg_Name = [], hg_Items = []\<rparr>"

text \<open>What the callback of a request for one group makes of an answer.\<close>

definition group_result :: "string \<Rightarrow> seq answer \<Rightarrow> hotspot_group answer option" where
  "group_result SpaceId Result =
     (case Result of (code, http, Data) \<Rightarrow>
        if code = RC_InProgress then None
        else if code = RC_Failed then Some (code, http, empty_group)
        else (case DeconstructKey (seq_Key Data) SpaceId of
                Some Name \<Rightarrow> Some (code, http, \<lparr>hg_Name = Name, hg_Items = seq_Items Data\<rparr>)
              | None \<Rightarrow> Some (RC_Failed, 0, empty_group)))"

definition group_results :: "string \<Rightarrow> seq answer list \<Rightarrow> hotspot_group answer list" where
  "group_results SpaceId = List.map_filter (group_result SpaceId)"

definition CreateHotspotGroup :: "'s sequence_api \<Rightarrow> string \<Rightarrow> string \<Rightarrow> string list \<Rightarrow> 's \<Rightarrow> hotspot_group answer list \<times> 's" where
  "CreateHotspotGroup api SpaceId GroupName HotspotIds s =
     map_prod (group_results SpaceId) id (CreateSequence api (CreateKey GroupName SpaceId) ''GroupId'' SpaceId HotspotIds [] s)"

definition RenameHotspotGroup :: "'s sequence_api \<Rightarrow> string \<Rightarrow> string \<Rightarrow> string \<Rightarrow> 's \<Rightarrow> hotspot_group answer list \<times> 's" where
  "RenameHotspotGroup api SpaceId GroupName NewGroupName s =
     map_prod (group_results SpaceId) id (RenameSequence api (CreateKey GroupName SpaceId) (CreateKey NewGroupName SpaceId) s)"

definition UpdateHotspotGroup :: "'s sequence_api \<Rightarrow> string \<Rightarrow> string \<Rightarrow> string list \<Rightarrow> 's \<Rightarrow> hotspot_group answer list \<times> 's" where
  "UpdateHotspotGroup api SpaceId GroupName HotspotIds s =
     map_prod (group_results SpaceId) id (UpdateSequence api (CreateKey GroupName SpaceId) ''GroupId'' SpaceId HotspotIds [] s)"

definition GetHotspotGroup :: "'s sequence_api \<Rightarrow> string \<Rightarrow> string \<Rightarrow> 's \<Rightarrow> hotspot_group answer list" where
  "GetHotspotGroup api SpaceId GroupName s = group_results SpaceId (GetSequence api (CreateKey GroupName SpaceId) s)"

text \<open>In a list of groups, a key that is not one of the space's leaves the group without a name.\<close>

definition groups_result :: "string \<Rightarrow> seq list answer \<Rightarrow> hotspot_group list answer option" where
  "groups_result SpaceId Result =
     (case Result of (code, http, Data) \<Rightarrow>
        if code = RC_InProgress then None
        else if code = RC_Failed then Some (code, http, [])
        else Some (code, http, map (\<lambda>q. \<lparr>hg_Name = (case DeconstructKey (seq_Key q) SpaceId of Some n \<Rightarrow> n | None \<Rightarrow> []),
                                         hg_Items = seq_Items q\<rparr>) Data))"

definition GetHotspotGroups :: "'s sequence_api \<Rightarrow> string \<Rightarrow> 's \<Rightarrow> hotspot_group list answer list" where
  "GetHotspotGroups api SpaceId s =
     List.map_filter (groups_result SpaceId) (GetSequencesByCriteria api [] (Some SpaceId) (Some ''GroupId'') [SpaceId] s)"

text \<open>Unlike the others this one passes answers about progress on.\<close>

definition DeleteHotspotGroup :: "'s sequence_api \<Rightarrow> string \<Rightarrow> string \<Rightarrow> 's \<Rightarrow> unit answer list \<times> 's" where
  "DeleteHotspotGroup api SpaceId GroupName s = DeleteSequences api [CreateKey GroupName SpaceId] s"

section \<open>Removing an item from all groups\<close>

definition DeleteSequences_of :: "'s sequence_api \<Rightarrow> seq list \<Rightarrow> 's \<Rightarrow> 's" where
  "DeleteSequences_of api Sequences s = snd (DeleteSequences api (map seq_Key Sequences) s)"

definition remove_item_of :: "string \<Rightarrow> string list \<Rightarrow> string list option" where
  "remove_item_of ItemToRemove Items = Option.bind (Array_ToList Items) (\<lambda>l. Option.bind (RemoveItem ItemToRemove l) array_elements)"

fun UpdateSequences :: "'s sequence_api \<Rightarrow> seq list \<Rightarrow> string \<Rightarrow> 's \<Rightarrow> 's option" where
  "UpdateSequences api [] ItemToRemove s = Some s"
| "UpdateSequences api (q # qs) ItemToRemove s =
     Option.bind (remove_item_of ItemToRemove (seq_Items q)) (\<lambda>Items.
     UpdateSequences api qs ItemToRemove
       (snd (UpdateSequence api (seq_Key q) (seq_ReferenceType q) (seq_ReferenceId q) Items (seq_MetaData q) s)))"

definition remove_item_answer :: "'s sequence_api \<Rightarrow> string \<Rightarrow> seq list answer \<Rightarrow> 's \<Rightarrow> 's option" where
  "remove_item_answer api ItemID Result s =
     (case Result of (code, http, Sequences) \<Rightarrow>
        if code = RC_InProgress then Some s
        else let SequencesToDelete = filter (\<lambda>q. length (seq_Items q) = 1) Sequences;
                 SequencesToUpdate = filter (\<lambda>q. length (seq_Items q) \<noteq> 1) Sequences
             in UpdateSequences api SequencesToUpdate ItemID (DeleteSequences_of api SequencesToDelete s))"

definition RemoveItemFromGroups :: "'s sequence_api \<Rightarrow> string \<Rightarrow> string \<Rightarrow> 's \<Rightarrow> 's option" where
  "RemoveItemFromGroups api SpaceId ItemID s =
     fold (\<lambda>a r. Option.bind r (remove_item_answer api ItemID a))
       (GetAllSequencesContainingItems api [ItemID] (Some ''GroupId'') [SpaceId] s) (Some s)"

section \<open>What the service does\<close>

definition ends_with :: "'a answer list \<Rightarrow> EResultCode \<Rightarrow> 'a \<Rightarrow> bool" where
  "ends_with as code x \<longleftrightarrow> (\<exists>p http. as = p @ [(code, http, x)] \<and> list_all (\<lambda>a. fst a = RC_InProgress) p)"

text \<open>
  Names a key may hold: ASCII, without the characters the documentation of the sequence system rules out
  (spaces, which \<open>ValidateKey\<close> lets pass, and \<open>/\<close> and \<open>%\<close>) and without the \<open>#\<close> that the code rules
  out as well. Keys reach the service encoded.
\<close>

definition name_ok :: "string \<Rightarrow> bool" where
  "name_ok N \<longleftrightarrow> ascii N \<and> CHR ''/'' \<notin> set N \<and> CHR ''#'' \<notin> set N \<and> CHR ''%'' \<notin> set N \<and> CHR '' '' \<notin> set N"

definition stored_key :: "string \<Rightarrow> bool" where
  "stored_key k \<longleftrightarrow> (\<exists>raw. name_ok raw \<and> k = Encode_URI raw False)"

text \<open>
  The service keeps sequences under their encoded keys. A put replaces the sequence under the key it
  carries, and moves it to the new key when there is one; the key in the path of a request for one
  sequence is decoded once on its way; a query by an item lists the sequences of the references that
  hold the item. Only of requests with valid keys is anything known.
\<close>

definition sequence_service :: "'s sequence_api \<Rightarrow> ('s \<Rightarrow> string \<Rightarrow> seq option) \<Rightarrow> bool" where
  "sequence_service api st \<longleftrightarrow>
     (\<forall>s k q. st s k = Some q \<longrightarrow> seq_Key q = k)
     \<and> (\<forall>q s. stored_key (seq_Key q) \<longrightarrow> ends_with (fst (sequencesPut api None q s)) RC_Success q
          \<and> st (snd (sequencesPut api None q s)) = (st s)(seq_Key q \<mapsto> q))
     \<and> (\<forall>k q s. stored_key k \<and> stored_key (seq_Key q) \<longrightarrow>
          ends_with (fst (sequencesPut api (Some k) q s)) RC_Success (q\<lparr>seq_Key := k\<rparr>)
          \<and> st (snd (sequencesPut api (Some k) q s)) = (st s)(seq_Key q := None, k \<mapsto> q\<lparr>seq_Key := k\<rparr>))
     \<and> (\<forall>k s. stored_key k \<longrightarrow> (case st s k of
            Some q \<Rightarrow> ends_with (sequencesKeysKeyGet api (Encode_URI1 k) s) RC_Success q
          | None \<Rightarrow> ends_with (sequencesKeysKeyGet api (Encode_URI1 k) s) RC_Failed empty_seq))
     \<and> (\<forall>ks s. list_all stored_key ks \<longrightarrow> ends_with (fst (sequencesKeysDelete api ks s)) RC_Success ()
          \<and> st (snd (sequencesKeysDelete api ks s)) = (\<lambda>k. if k \<in> set ks then None else st s k))
     \<and> (\<forall>t ids i s. \<exists>qs. ends_with (sequencesGet api None None (Some t) (Some ids) (Some [i]) s) RC_Success qs
          \<and> distinct (map seq_Key qs)
          \<and> set qs = {q. st s (seq_Key q) = Some q \<and> seq_ReferenceType q = t \<and> seq_ReferenceId q \<in> set ids \<and> i \<in> set (seq_Items q)})"

lemma ends_with_map: "ends_with as code x \<Longrightarrow> (\<And>c h y. f (c, h, y) = (c, h, g c y)) \<Longrightarrow> ends_with (map f as) code (g code x)"
  by (fastforce simp: ends_with_def list_all_iff)

lemma ends_with_SequenceResult: "ends_with as code q \<Longrightarrow> ends_with (map SequenceResult as) code (if code = RC_Success then SequenceDtoToSequence q else empty_seq)"
  by (rule ends_with_map [where g = "\<lambda>c q. if c = RC_Success then SequenceDtoToSequence q else empty_seq"]) (simp_all add: SequenceResult_def)

lemma ends_with_SequencesResult: "ends_with as RC_Success qs \<Longrightarrow> ends_with (map SequencesResult as) RC_Success (map SequenceDtoToSequence qs)"
  using ends_with_map [where g = "\<lambda>c qs. if c = RC_Success then map SequenceDtoToSequence qs else []" and f = SequencesResult and code = RC_Success]
  by (simp add: SequencesResult_def)

section \<open>Names and keys\<close>

definition group_name_ok :: "string \<Rightarrow> bool" where
  "group_name_ok N \<longleftrightarrow> N \<noteq> [] \<and> name_ok N"

definition group_key :: "string \<Rightarrow> string \<Rightarrow> string" where
  "group_key SpaceId N = Encode_URI (CreateKey N SpaceId) False"

lemma CreateKey_ok: "name_ok S \<Longrightarrow> name_ok N \<Longrightarrow> name_ok (CreateKey N S)"
  by (auto simp: name_ok_def CreateKey_eq ascii_def)

lemma stored_key_ascii: "stored_key k \<Longrightarrow> ascii k"
  using Decode_Encode_URI(2) [of _ False] by (auto simp: stored_key_def name_ok_def)

lemma stored_group_key: "name_ok S \<Longrightarrow> group_name_ok N \<Longrightarrow> stored_key (group_key S N)"
  using CreateKey_ok by (auto simp: stored_key_def group_key_def group_name_ok_def)

lemma ValidateKey_ok: "name_ok K \<Longrightarrow> ValidateKey K"
  by (simp add: name_ok_def ValidateKey_def ascii_nul_free)

lemma Decode_Encode_ok: "name_ok K \<Longrightarrow> Decode_URI (Encode_URI K False) False = K"
  by (simp add: name_ok_def Decode_Encode_URI)

lemma group_key_eq:
  assumes "name_ok S" "name_ok N" "name_ok N'"
  shows "group_key S N = group_key S N' \<longleftrightarrow> N = N'"
proof
  assume "group_key S N = group_key S N'"
  then have "Decode_URI (group_key S N) False = Decode_URI (group_key S N') False" by simp
  then have "CreateKey N S = CreateKey N' S" using CreateKey_ok assms Decode_Encode_ok by (simp add: group_key_def)
  then show "N = N'" by (simp add: CreateKey_eq)
qed simp

lemma Encode_twice: "Encode_URI K True = Encode_URI1 (Encode_URI K False)"
  by (simp add: Encode_URI_def Let_def)

text \<open>What the callback makes of the last answer of a request for a group.\<close>

lemma group_results_append: "group_results S (as @ bs) = group_results S as @ group_results S bs"
  by (simp add: group_results_def List.map_filter_def)

lemma group_results_progress: "list_all (\<lambda>a. fst a = RC_InProgress) p \<Longrightarrow> group_results S (map SequenceResult p) = []"
  by (induction p) (auto simp: group_results_def List.map_filter_def group_result_def SequenceResult_def)

lemma group_results_success:
  assumes "ends_with as RC_Success q" "name_ok S" "group_name_ok N" "seq_Key q = group_key S N"
  shows "\<exists>http. group_results S (map SequenceResult as) = [(RC_Success, http, \<lparr>hg_Name = N, hg_Items = seq_Items q\<rparr>)]"
proof -
  obtain p http where p: "as = p @ [(RC_Success, http, q)]" "list_all (\<lambda>a. fst a = RC_InProgress) p"
    using assms(1) by (auto simp: ends_with_def)
  have "Decode_URI (seq_Key q) False = CreateKey N S"
    using Decode_Encode_ok CreateKey_ok assms by (simp add: group_key_def group_name_ok_def)
  then have "DeconstructKey (seq_Key (SequenceDtoToSequence q)) S = Some N"
    using DeconstructKey_CreateKey [of N S] assms(3) by (simp add: SequenceDtoToSequence_def group_name_ok_def)
  then have "group_result S (SequenceResult (RC_Success, http, q)) = Some (RC_Success, http, \<lparr>hg_Name = N, hg_Items = seq_Items q\<rparr>)"
    by (simp add: SequenceResult_def group_result_def) (simp add: SequenceDtoToSequence_def)
  then show ?thesis using group_results_progress [OF p(2), of S]
    by (simp add: p(1) group_results_append) (simp add: group_results_def List.map_filter_def)
qed

lemma group_results_failed:
  assumes "ends_with as RC_Failed q"
  shows "\<exists>http. group_results S (map SequenceResult as) = [(RC_Failed, http, empty_group)]"
proof -
  obtain p http where p: "as = p @ [(RC_Failed, http, q)]" "list_all (\<lambda>a. fst a = RC_InProgress) p"
    using assms(1) by (auto simp: ends_with_def)
  show ?thesis using group_results_progress [OF p(2), of S]
    by (simp add: p(1) group_results_append) (simp add: group_results_def List.map_filter_def group_result_def SequenceResult_def)
qed

section \<open>The groups of a space\<close>

definition groups_of :: "('s \<Rightarrow> string \<Rightarrow> seq option) \<Rightarrow> string \<Rightarrow> 's \<Rightarrow> string \<Rightarrow> string list option" where
  "groups_of st SpaceId s N = (if group_name_ok N then map_option seq_Items (st s (group_key SpaceId N)) else None)"

text \<open>Sequences are stored under encoded valid keys, and the groups of the space refer to it.\<close>

definition stored_ok :: "string \<Rightarrow> (string \<Rightarrow> seq option) \<Rightarrow> bool" where
  "stored_ok SpaceId m \<longleftrightarrow>
     (\<forall>k q. m k = Some q \<longrightarrow> seq_Key q = k \<and> length (seq_Items q) \<le> 2 ^ 63 \<and> (\<exists>raw. name_ok raw \<and> k = Encode_URI raw False))
     \<and> (\<forall>N q. group_name_ok N \<longrightarrow> m (group_key SpaceId N) = Some q \<longrightarrow> seq_ReferenceType q = ''GroupId'' \<and> seq_ReferenceId q = SpaceId)"

lemma stored_okD:
  assumes "stored_ok S m" "m k = Some q"
  shows "seq_Key q = k \<and> length (seq_Items q) \<le> 2 ^ 63 \<and> (\<exists>raw. name_ok raw \<and> k = Encode_URI raw False)"
proof -
  have "m k = Some q \<longrightarrow> seq_Key q = k \<and> length (seq_Items q) \<le> 2 ^ 63 \<and> (\<exists>raw. name_ok raw \<and> k = Encode_URI raw False)"
    using assms(1) unfolding stored_ok_def by (elim conjE allE)
  then show ?thesis using assms(2) by (rule mp)
qed

lemma stored_ok_refs:
  assumes "stored_ok S m" "group_name_ok N" "m (group_key S N) = Some q"
  shows "seq_ReferenceType q = ''GroupId'' \<and> seq_ReferenceId q = S"
  using assms unfolding stored_ok_def by blast

datatype group_op = Create_group string "string list" | Update_group string "string list" | Rename_group string string
  | Get_group string | Delete_group string | Remove_item string

type_synonym group_outcome = "(EResultCode \<times> hotspot_group) list"

fun run_group_op :: "'s sequence_api \<Rightarrow> string \<Rightarrow> group_op \<Rightarrow> 's \<Rightarrow> (group_outcome \<times> 's) option" where
  "run_group_op api S (Create_group N ids) s = Some (map_prod (map (\<lambda>(c, h, g). (c, g))) id (CreateHotspotGroup api S N ids s))"
| "run_group_op api S (Update_group N ids) s = Some (map_prod (map (\<lambda>(c, h, g). (c, g))) id (UpdateHotspotGroup api S N ids s))"
| "run_group_op api S (Rename_group N N') s = Some (map_prod (map (\<lambda>(c, h, g). (c, g))) id (RenameHotspotGroup api S N N' s))"
| "run_group_op api S (Get_group N) s = Some (map (\<lambda>(c, h, g). (c, g)) (GetHotspotGroup api S N s), s)"
| "run_group_op api S (Delete_group N) s =
     Some (map_prod (map (\<lambda>(c, h, g). (c, empty_group))) id (DeleteHotspotGroup api S N s))"
| "run_group_op api S (Remove_item i) s = map_option (Pair []) (RemoveItemFromGroups api S i s)"

definition without_item :: "string \<Rightarrow> string list \<Rightarrow> string list option" where
  "without_item i ids = (if i \<notin> set ids then Some ids else if length ids = 1 then None else Some (remove1 i ids))"

fun group_op_spec :: "group_op \<Rightarrow> (string \<Rightarrow> string list option) \<Rightarrow> group_outcome \<times> (string \<Rightarrow> string list option)" where
  "group_op_spec (Create_group N ids) g = ([(RC_Success, \<lparr>hg_Name = N, hg_Items = ids\<rparr>)], g(N \<mapsto> ids))"
| "group_op_spec (Update_group N ids) g = ([(RC_Success, \<lparr>hg_Name = N, hg_Items = ids\<rparr>)], g(N \<mapsto> ids))"
| "group_op_spec (Rename_group N N') g =
     (case g N of None \<Rightarrow> ([(RC_Failed, empty_group)], g)
      | Some ids \<Rightarrow> ([(RC_Success, \<lparr>hg_Name = N', hg_Items = ids\<rparr>)], g(N := None, N' \<mapsto> ids)))"
| "group_op_spec (Get_group N) g =
     (case g N of None \<Rightarrow> ([(RC_Failed, empty_group)], g) | Some ids \<Rightarrow> ([(RC_Success, \<lparr>hg_Name = N, hg_Items = ids\<rparr>)], g))"
| "group_op_spec (Delete_group N) g = ([(RC_Success, empty_group)], g(N := None))"
| "group_op_spec (Remove_item i) g = ([], \<lambda>N. Option.bind (g N) (without_item i))"

text \<open>
  What a callback is given: the outcome, once; only the callback of a deletion may hear of progress
  before. The one of the removal of an item is never called.
\<close>

fun reports :: "group_op \<Rightarrow> group_outcome \<Rightarrow> group_outcome \<Rightarrow> bool" where
  "reports (Delete_group N) out expected \<longleftrightarrow> (\<exists>p. out = p @ expected \<and> list_all (\<lambda>(c, g). c = RC_InProgress) p)"
| "reports _ out expected \<longleftrightarrow> out = expected"

fun group_op_ok :: "group_op \<Rightarrow> bool" where
  "group_op_ok (Create_group N ids) \<longleftrightarrow> group_name_ok N \<and> length ids \<le> 2 ^ 63"
| "group_op_ok (Update_group N ids) \<longleftrightarrow> group_name_ok N \<and> length ids \<le> 2 ^ 63"
| "group_op_ok (Rename_group N N') \<longleftrightarrow> group_name_ok N \<and> group_name_ok N'"
| "group_op_ok (Get_group N) \<longleftrightarrow> group_name_ok N"
| "group_op_ok (Delete_group N) \<longleftrightarrow> group_name_ok N"
| "group_op_ok (Remove_item i) \<longleftrightarrow> True"

section \<open>Storing\<close>

definition group_seq :: "string \<Rightarrow> string \<Rightarrow> string list \<Rightarrow> seq" where
  "group_seq S N ids = CreateSequenceDto (CreateKey N S) ''GroupId'' S ids []"

lemma group_seq_simps:
  "seq_Key (group_seq S N ids) = group_key S N" "seq_Items (group_seq S N ids) = ids"
  "seq_ReferenceType (group_seq S N ids) = ''GroupId''" "seq_ReferenceId (group_seq S N ids) = S"
  by (simp_all add: group_seq_def CreateSequenceDto_def group_key_def)

text \<open>A group sequence put under its key is the group, and the rest of the store is as before.\<close>

lemma groups_of_put:
  assumes "name_ok S" "group_name_ok N" "st s' = (st s)(group_key S N \<mapsto> q)"
  shows "groups_of st S s' = (groups_of st S s)(N \<mapsto> seq_Items q)"
  using assms group_key_eq [of S] by (auto simp: groups_of_def fun_eq_iff group_name_ok_def)

lemma groups_of_drop:
  assumes "name_ok S" "group_name_ok N" "st s' = (st s)(group_key S N := None)"
  shows "groups_of st S s' = (groups_of st S s)(N := None)"
  using assms group_key_eq [of S] by (auto simp: groups_of_def fun_eq_iff group_name_ok_def)

lemma stored_ok_put:
  assumes "stored_ok S m" "name_ok S" "group_name_ok N" "seq_Key q = group_key S N" "length (seq_Items q) \<le> 2 ^ 63"
    "seq_ReferenceType q = ''GroupId''" "seq_ReferenceId q = S"
  shows "stored_ok S (m(group_key S N \<mapsto> q))"
  unfolding stored_ok_def
proof (intro conjI allI impI)
  fix k q' assume q': "(m(group_key S N \<mapsto> q)) k = Some q'"
  have "\<exists>raw. name_ok raw \<and> group_key S N = Encode_URI raw False"
    using CreateKey_ok assms(2,3) by (auto simp: group_key_def group_name_ok_def)
  then show "seq_Key q' = k" "length (seq_Items q') \<le> 2 ^ 63" "\<exists>raw. name_ok raw \<and> k = Encode_URI raw False"
    using q' assms by (auto simp: stored_ok_def split: if_splits)
next
  fix N' q' assume "group_name_ok N'" "(m(group_key S N \<mapsto> q)) (group_key S N') = Some q'"
  then show "seq_ReferenceType q' = ''GroupId''" "seq_ReferenceId q' = S"
    using assms by (auto simp: stored_ok_def split: if_splits)
qed

lemma stored_ok_drop: "stored_ok S m \<Longrightarrow> stored_ok S (m(k := None))"
  by (auto simp: stored_ok_def split: if_splits)

lemma stored_ok_restrict: "stored_ok S m \<Longrightarrow> stored_ok S (\<lambda>k. if k \<in> K then None else m k)"
  by (auto simp: stored_ok_def split: if_splits)

text \<open>The laws of the service for the requests that the operations make.\<close>

lemma put_new_law:
  assumes "sequence_service api st" "stored_key (seq_Key q)"
  obtains as s' where "sequencesPut api None q s = (as, s')" "ends_with as RC_Success q" "st s' = (st s)(seq_Key q \<mapsto> q)"
proof -
  have "ends_with (fst (sequencesPut api None q s)) RC_Success q" "st (snd (sequencesPut api None q s)) = (st s)(seq_Key q \<mapsto> q)"
    using assms by (simp_all add: sequence_service_def)
  then show thesis using that by (cases "sequencesPut api None q s") simp
qed

lemma put_key_law:
  assumes "sequence_service api st" "stored_key k" "stored_key (seq_Key q)"
  obtains as s' where "sequencesPut api (Some k) q s = (as, s')" "ends_with as RC_Success (q\<lparr>seq_Key := k\<rparr>)"
    "st s' = (st s)(seq_Key q := None, k \<mapsto> q\<lparr>seq_Key := k\<rparr>)"
proof -
  have "ends_with (fst (sequencesPut api (Some k) q s)) RC_Success (q\<lparr>seq_Key := k\<rparr>)"
    "st (snd (sequencesPut api (Some k) q s)) = (st s)(seq_Key q := None, k \<mapsto> q\<lparr>seq_Key := k\<rparr>)"
    using assms by (simp_all add: sequence_service_def)
  then show thesis using that by (cases "sequencesPut api (Some k) q s") simp
qed

lemma get_law:
  assumes "sequence_service api st" "stored_key k"
  shows "st s k = Some q \<Longrightarrow> ends_with (sequencesKeysKeyGet api (Encode_URI1 k) s) RC_Success q"
    "st s k = None \<Longrightarrow> ends_with (sequencesKeysKeyGet api (Encode_URI1 k) s) RC_Failed empty_seq"
proof -
  have "case st s k of Some q \<Rightarrow> ends_with (sequencesKeysKeyGet api (Encode_URI1 k) s) RC_Success q
    | None \<Rightarrow> ends_with (sequencesKeysKeyGet api (Encode_URI1 k) s) RC_Failed empty_seq"
    using assms(1) [unfolded sequence_service_def, THEN conjunct2, THEN conjunct2, THEN conjunct2, THEN conjunct1] assms(2)
    by blast
  then show "st s k = Some q \<Longrightarrow> ends_with (sequencesKeysKeyGet api (Encode_URI1 k) s) RC_Success q"
    "st s k = None \<Longrightarrow> ends_with (sequencesKeysKeyGet api (Encode_URI1 k) s) RC_Failed empty_seq" by simp_all
qed

lemma delete_law:
  assumes "sequence_service api st" "list_all stored_key ks"
  obtains as s' where "sequencesKeysDelete api ks s = (as, s')" "ends_with as RC_Success ()"
    "st s' = (\<lambda>k. if k \<in> set ks then None else st s k)"
proof -
  have "ends_with (fst (sequencesKeysDelete api ks s)) RC_Success ()"
    "st (snd (sequencesKeysDelete api ks s)) = (\<lambda>k. if k \<in> set ks then None else st s k)"
    using assms by (simp_all add: sequence_service_def)
  then show thesis using that by (cases "sequencesKeysDelete api ks s") simp
qed

lemma items_law:
  assumes "sequence_service api st"
  shows "\<exists>qs. ends_with (sequencesGet api None None (Some t) (Some ids) (Some [i]) s) RC_Success qs \<and> distinct (map seq_Key qs)
    \<and> set qs = {q. st s (seq_Key q) = Some q \<and> seq_ReferenceType q = t \<and> seq_ReferenceId q \<in> set ids \<and> i \<in> set (seq_Items q)}"
  using assms [unfolded sequence_service_def, THEN conjunct2, THEN conjunct2, THEN conjunct2, THEN conjunct2, THEN conjunct2]
  by (elim allE)

text \<open>The key of a group passes the check of the keys.\<close>

lemma group_key_valid: "name_ok S \<Longrightarrow> group_name_ok N \<Longrightarrow> ValidateKey (CreateKey N S)"
  using ValidateKey_ok CreateKey_ok by (simp add: group_name_ok_def)

lemma outcome_success:
  "\<exists>http. rs = [(c, http, g)] \<Longrightarrow> map (\<lambda>(c, h, g). (c, g)) rs = [(c, g)]"
  by auto

lemma create_group:
  assumes "sequence_service api st" "name_ok S" "stored_ok S (st s)" "group_op_ok (Create_group N ids)"
  shows "\<exists>s'. run_group_op api S (Create_group N ids) s = Some ([(RC_Success, \<lparr>hg_Name = N, hg_Items = ids\<rparr>)], s')
    \<and> groups_of st S s' = (groups_of st S s)(N \<mapsto> ids) \<and> stored_ok S (st s')"
proof -
  let ?q = "group_seq S N ids"
  have N: "group_name_ok N" "length ids \<le> 2 ^ 63" using assms(4) by simp_all
  obtain as s' where put: "sequencesPut api None ?q s = (as, s')" "ends_with as RC_Success ?q" "st s' = (st s)(seq_Key ?q \<mapsto> ?q)"
    using put_new_law [OF assms(1), of ?q] stored_group_key [OF assms(2) N(1)] by (auto simp: group_seq_simps)
  have "\<exists>http. group_results S (map SequenceResult as) = [(RC_Success, http, \<lparr>hg_Name = N, hg_Items = ids\<rparr>)]"
    using group_results_success [OF put(2) assms(2) N(1)] by (simp add: group_seq_simps)
  note out = outcome_success [OF this]
  have "run_group_op api S (Create_group N ids) s = Some ([(RC_Success, \<lparr>hg_Name = N, hg_Items = ids\<rparr>)], s')"
    using put(1) group_key_valid [OF assms(2) N(1)] out by (simp add: CreateHotspotGroup_def CreateSequence_def group_seq_def)
  moreover have "groups_of st S s' = (groups_of st S s)(N \<mapsto> ids)"
    using groups_of_put [OF assms(2) N(1), of st s' s ?q] put(3) by (simp add: group_seq_simps)
  moreover have "stored_ok S (st s')"
    using stored_ok_put [OF assms(3,2) N(1), of ?q] N(2) put(3) by (simp add: group_seq_simps)
  ultimately show ?thesis by blast
qed

lemma update_group:
  assumes "sequence_service api st" "name_ok S" "stored_ok S (st s)" "group_op_ok (Update_group N ids)"
  shows "\<exists>s'. run_group_op api S (Update_group N ids) s = Some ([(RC_Success, \<lparr>hg_Name = N, hg_Items = ids\<rparr>)], s')
    \<and> groups_of st S s' = (groups_of st S s)(N \<mapsto> ids) \<and> stored_ok S (st s')"
proof -
  let ?q = "group_seq S N ids" let ?k = "group_key S N"
  have N: "group_name_ok N" "length ids \<le> 2 ^ 63" using assms(4) by simp_all
  have q: "?q\<lparr>seq_Key := ?k\<rparr> = ?q" by (simp add: group_seq_def CreateSequenceDto_def group_key_def)
  obtain as s' where put: "sequencesPut api (Some ?k) ?q s = (as, s')" "ends_with as RC_Success ?q" "st s' = (st s)(?k \<mapsto> ?q)"
    using put_key_law [OF assms(1), of ?k ?q s] stored_group_key [OF assms(2) N(1)] by (auto simp: q group_seq_simps)
  have "\<exists>http. group_results S (map SequenceResult as) = [(RC_Success, http, \<lparr>hg_Name = N, hg_Items = ids\<rparr>)]"
    using group_results_success [OF put(2) assms(2) N(1)] by (simp add: group_seq_simps)
  note out = outcome_success [OF this]
  have "run_group_op api S (Update_group N ids) s = Some ([(RC_Success, \<lparr>hg_Name = N, hg_Items = ids\<rparr>)], s')"
    using put(1) group_key_valid [OF assms(2) N(1)] out
    by (simp add: UpdateHotspotGroup_def UpdateSequence_def group_seq_def group_key_def)
  moreover have "groups_of st S s' = (groups_of st S s)(N \<mapsto> ids)"
    using groups_of_put [OF assms(2) N(1), of st s' s ?q] put(3) by (simp add: group_seq_simps)
  moreover have "stored_ok S (st s')"
    using stored_ok_put [OF assms(3,2) N(1), of ?q] N(2) put(3) by (simp add: group_seq_simps)
  ultimately show ?thesis by blast
qed

lemma get_group:
  assumes "sequence_service api st" "name_ok S" "stored_ok S (st s)" "group_name_ok N"
  shows "run_group_op api S (Get_group N) s = Some (fst (group_op_spec (Get_group N) (groups_of st S s)), s)"
proof -
  let ?as = "sequencesKeysKeyGet api (Encode_URI1 (group_key S N)) s"
  have run: "GetHotspotGroup api S N s = group_results S (map SequenceResult ?as)"
    using group_key_valid [OF assms(2,4)] by (simp add: GetHotspotGroup_def GetSequence_def Encode_twice group_key_def)
  have k: "stored_key (group_key S N)" by (rule stored_group_key [OF assms(2,4)])
  show ?thesis
  proof (cases "st s (group_key S N)")
    case None
    then show ?thesis using outcome_success [OF group_results_failed [OF get_law(2) [OF assms(1) k None]]] run assms(4)
      by (simp add: groups_of_def)
  next
    case (Some q)
    then have "seq_Key q = group_key S N" using assms(3) by (simp add: stored_ok_def)
    then show ?thesis using outcome_success [OF group_results_success [OF get_law(1) [OF assms(1) k Some] assms(2,4)]] run assms(4) Some
      by (simp add: groups_of_def)
  qed
qed

lemma delete_group:
  assumes "sequence_service api st" "name_ok S" "stored_ok S (st s)" "group_name_ok N"
  shows "\<exists>out s'. run_group_op api S (Delete_group N) s = Some (out, s') \<and> reports (Delete_group N) out [(RC_Success, empty_group)]
    \<and> groups_of st S s' = (groups_of st S s)(N := None) \<and> stored_ok S (st s')"
proof -
  obtain as s' where del: "sequencesKeysDelete api [group_key S N] s = (as, s')" "ends_with as RC_Success ()"
    "st s' = (\<lambda>k. if k \<in> set [group_key S N] then None else st s k)"
    using delete_law [OF assms(1), of "[group_key S N]"] stored_group_key [OF assms(2,4)] by auto
  have st': "st s' = (st s)(group_key S N := None)" using del(3) by auto
  let ?out = "map (\<lambda>(c, h, g). (c, empty_group)) as"
  have "reports (Delete_group N) ?out [(RC_Success, empty_group)]"
    using del(2) by (auto simp: ends_with_def list_all_iff split_beta)
  moreover have "run_group_op api S (Delete_group N) s = Some (?out, s')"
    using del(1) group_key_valid [OF assms(2,4)] by (simp add: DeleteHotspotGroup_def DeleteSequences_def group_key_def)
  ultimately show ?thesis using groups_of_drop [OF assms(2,4) st'] stored_ok_drop [OF assms(3)] st' by auto
qed

section \<open>Renaming\<close>

lemma answer_all_append:
  "answer_all f (as @ bs) s = (let (r, s) = answer_all f as s; (rs, s) = answer_all f bs s in (r @ rs, s))"
  by (induction as arbitrary: s) (simp_all add: split_beta Let_def)

lemma rename_progress:
  assumes "list_all (\<lambda>a. fst a = RC_InProgress) p"
  shows "answer_all (rename_answer api K) (map SequenceResult p) s = (map SequenceResult p, s)"
  using assms by (induction p) (auto simp: rename_answer_def SequenceResult_def)

lemma stored_seq_decoded:
  assumes "stored_ok S m" "m k = Some q"
  obtains raw where "name_ok raw" "k = Encode_URI raw False" "seq_Key (SequenceDtoToSequence q) = raw" "seq_Key q = k"
proof -
  obtain raw where raw: "name_ok raw" "k = Encode_URI raw False" "seq_Key q = k" using assms by (auto simp: stored_ok_def)
  then show thesis using that Decode_Encode_ok [OF raw(1)] by (simp add: SequenceDtoToSequence_def)
qed

lemma rename_failed:
  "rename_answer api K (SequenceResult (RC_Failed, http, q)) s = ([SequenceResult (RC_Failed, http, q)], s)"
  by (simp add: rename_answer_def SequenceResult_def)

text \<open>A sequence read and written again is the one that was stored.\<close>

lemma sequence_dto_roundtrip:
  assumes "name_ok raw" "seq_Key q = Encode_URI raw False"
  shows "CreateSequenceDto (seq_Key (SequenceDtoToSequence q)) (seq_ReferenceType (SequenceDtoToSequence q))
     (seq_ReferenceId (SequenceDtoToSequence q)) ids (seq_MetaData (SequenceDtoToSequence q)) = q\<lparr>seq_Items := ids\<rparr>"
  using assms Decode_Encode_ok [OF assms(1)] by (simp add: CreateSequenceDto_def SequenceDtoToSequence_def)

lemma rename_group:
  assumes "sequence_service api st" "name_ok S" "stored_ok S (st s)" "group_name_ok N" "group_name_ok N'"
  shows "\<exists>s'. run_group_op api S (Rename_group N N') s = Some (fst (group_op_spec (Rename_group N N') (groups_of st S s)), s')
    \<and> groups_of st S s' = snd (group_op_spec (Rename_group N N') (groups_of st S s)) \<and> stored_ok S (st s')"
proof -
  let ?k = "group_key S N" let ?k' = "group_key S N'" let ?as = "sequencesKeysKeyGet api (Encode_URI1 ?k) s"
  have run: "RenameHotspotGroup api S N N' s
      = map_prod (group_results S) id (answer_all (rename_answer api (CreateKey N' S)) (map SequenceResult ?as) s)"
    using group_key_valid [OF assms(2)] assms(4,5)
    by (simp add: RenameHotspotGroup_def RenameSequence_def GetSequence_def Encode_twice group_key_def)
  have k: "stored_key ?k" "stored_key ?k'" using stored_group_key [OF assms(2)] assms(4,5) by simp_all
  show ?thesis
  proof (cases "st s ?k")
    case None
    obtain p http where p: "?as = p @ [(RC_Failed, http, empty_seq)]" "list_all (\<lambda>a. fst a = RC_InProgress) p"
      using get_law(2) [OF assms(1) k(1) None] by (auto simp: ends_with_def)
    have "answer_all (rename_answer api (CreateKey N' S)) (map SequenceResult ?as) s = (map SequenceResult ?as, s)"
      using rename_progress [OF p(2), of api "CreateKey N' S" s] by (simp add: p(1) answer_all_append rename_failed)
    then show ?thesis using outcome_success [OF group_results_failed [OF get_law(2) [OF assms(1) k(1) None]]] run None assms(3,4)
      by (simp add: groups_of_def)
  next
    case (Some q)
    obtain raw where raw: "name_ok raw" "?k = Encode_URI raw False" "seq_Key (SequenceDtoToSequence q) = raw" "seq_Key q = ?k"
      using stored_seq_decoded [OF assms(3) Some] by blast
    obtain p http where p: "?as = p @ [(RC_Success, http, q)]" "list_all (\<lambda>a. fst a = RC_InProgress) p"
      using get_law(1) [OF assms(1) k(1) Some] by (auto simp: ends_with_def)
    let ?q' = "q\<lparr>seq_Key := ?k'\<rparr>"
    obtain as' s' where put: "sequencesPut api (Some ?k') q s = (as', s')" "ends_with as' RC_Success ?q'"
      "st s' = (st s)(seq_Key q := None, ?k' \<mapsto> ?q')" using put_key_law [OF assms(1) k(2), of q] k(1) raw(4) by auto
    have "CreateSequenceDto (seq_Key (SequenceDtoToSequence q)) (seq_ReferenceType (SequenceDtoToSequence q))
       (seq_ReferenceId (SequenceDtoToSequence q)) (seq_Items (SequenceDtoToSequence q)) (seq_MetaData (SequenceDtoToSequence q)) = q"
      using sequence_dto_roundtrip [OF raw(1), of q "seq_Items (SequenceDtoToSequence q)"] raw(2,4) by (simp add: SequenceDtoToSequence_def)
    then have "rename_answer api (CreateKey N' S) (SequenceResult (RC_Success, http, q)) s = (map SequenceResult as', s')"
      using put(1) by (simp add: rename_answer_def SequenceResult_def group_key_def)
    then have all: "answer_all (rename_answer api (CreateKey N' S)) (map SequenceResult ?as) s = (map SequenceResult p @ map SequenceResult as', s')"
      using rename_progress [OF p(2), of api "CreateKey N' S" s] by (simp add: p(1) answer_all_append)
    have "\<exists>http. group_results S (map SequenceResult as') = [(RC_Success, http, \<lparr>hg_Name = N', hg_Items = seq_Items q\<rparr>)]"
      using group_results_success [OF put(2) assms(2,5)] by simp
    then have "\<exists>http. group_results S (map SequenceResult p @ map SequenceResult as') = [(RC_Success, http, \<lparr>hg_Name = N', hg_Items = seq_Items q\<rparr>)]"
      using group_results_progress [OF p(2), of S] by (simp add: group_results_append)
    note out = outcome_success [OF this]
    have g: "groups_of st S s N = Some (seq_Items q)" using Some assms(4) by (simp add: groups_of_def)
    have ref: "seq_ReferenceType q = ''GroupId''" "seq_ReferenceId q = S" "length (seq_Items q) \<le> 2 ^ 63"
      using assms(3,4) Some by (auto simp: stored_ok_def)
    have "stored_ok S (st s')"
      using stored_ok_put [OF stored_ok_drop [OF assms(3), of ?k] assms(2,5), of ?q'] put(3) raw(4) ref by simp
    moreover have "groups_of st S s' = (groups_of st S s)(N := None, N' \<mapsto> seq_Items q)"
      using put(3) raw(4) assms(2,4,5) group_key_eq [of S] by (auto simp: groups_of_def fun_eq_iff group_name_ok_def)
    ultimately show ?thesis using run all out g by simp
  qed
qed

section \<open>Removing an item\<close>

lemma remove_item_of_refines: "length ids \<le> 2 ^ 63 \<Longrightarrow> remove_item_of i ids = Some (remove1 i ids)"
  using Array_ToList_refines [of ids] RemoveItem_refines [where x = i] array_elements_refines
  by (fastforce simp: remove_item_of_def)

definition item_removed :: "string \<Rightarrow> seq \<Rightarrow> seq" where "item_removed i q = q\<lparr>seq_Items := remove1 i (seq_Items q)\<rparr>"

lemma UpdateSequences_effect:
  assumes "sequence_service api st" "distinct (map seq_Key qs)"
    "\<forall>q \<in> set qs. length (seq_Items q) \<le> 2 ^ 63 \<and> (\<exists>raw. name_ok raw \<and> seq_Key q = Encode_URI raw False)"
  shows "\<exists>s'. UpdateSequences api (map SequenceDtoToSequence qs) i s = Some s'
    \<and> st s' = st s ++ map_of (map (\<lambda>q. (seq_Key q, item_removed i q)) qs)"
  using assms(2,3)
proof (induction qs arbitrary: s)
  case Nil
  then show ?case by simp
next
  case (Cons q qs)
  obtain raw where raw: "name_ok raw" "seq_Key q = Encode_URI raw False" using Cons.prems by auto
  have dec: "seq_Key (SequenceDtoToSequence q) = raw" using Decode_Encode_ok [OF raw(1)] raw(2) by (simp add: SequenceDtoToSequence_def)
  have items: "remove_item_of i (seq_Items (SequenceDtoToSequence q)) = Some (remove1 i (seq_Items q))"
    using remove_item_of_refines Cons.prems by (simp add: SequenceDtoToSequence_def)
  have same: "(item_removed i q)\<lparr>seq_Key := seq_Key q\<rparr> = item_removed i q" "seq_Key (item_removed i q) = seq_Key q"
    by (simp_all add: item_removed_def)
  have key: "stored_key (seq_Key q)" using raw by (auto simp: stored_key_def)
  obtain as s1 where put: "sequencesPut api (Some (seq_Key q)) (item_removed i q) s = (as, s1)" "st s1 = (st s)(seq_Key q \<mapsto> item_removed i q)"
    using put_key_law [OF assms(1) key key [folded same(2)], of s, unfolded same fun_upd_upd] by metis
  have upd: "snd (UpdateSequence api (seq_Key (SequenceDtoToSequence q)) (seq_ReferenceType (SequenceDtoToSequence q))
      (seq_ReferenceId (SequenceDtoToSequence q)) (remove1 i (seq_Items q)) (seq_MetaData (SequenceDtoToSequence q)) s) = s1"
    using put(1) sequence_dto_roundtrip [OF raw, of "remove1 i (seq_Items q)"] ValidateKey_ok [OF raw(1)] raw(2)
    by (simp add: UpdateSequence_def dec item_removed_def)
  obtain s' where s': "UpdateSequences api (map SequenceDtoToSequence qs) i s1 = Some s'"
    "st s' = st s1 ++ map_of (map (\<lambda>q. (seq_Key q, item_removed i q)) qs)" using Cons.IH [of s1] Cons.prems by auto
  have "seq_Key q \<notin> dom (map_of (map (\<lambda>q. (seq_Key q, item_removed i q)) qs))"
    using Cons.prems(1) by (simp add: dom_map_of_conv_image_fst image_image)
  then have "st s' = st s ++ map_of (map (\<lambda>q. (seq_Key q, item_removed i q)) (q # qs))"
    using s'(2) put(2) by (auto simp: map_add_def fun_eq_iff split: option.split)
  moreover have "UpdateSequences api (map SequenceDtoToSequence (q # qs)) i s = Some s'" using s'(1) upd items by simp
  ultimately show ?case by blast
qed

lemma stored_ok_changed_items:
  assumes "stored_ok S m"
    "\<And>k q'. m' k = Some q' \<Longrightarrow> \<exists>q ids. m k = Some q \<and> q' = q\<lparr>seq_Items := ids\<rparr> \<and> length ids \<le> length (seq_Items q)"
  shows "stored_ok S m'"
  unfolding stored_ok_def
proof (intro conjI allI impI)
  fix k q' assume "m' k = Some q'"
  then obtain q ids where q: "m k = Some q" "q' = q\<lparr>seq_Items := ids\<rparr>" "length ids \<le> length (seq_Items q)" using assms(2) by blast
  note ok = stored_okD [OF assms(1) q(1)]
  show "seq_Key q' = k" using ok q(2) by simp
  show "length (seq_Items q') \<le> 2 ^ 63" using le_trans [OF q(3), of "2 ^ 63"] ok q(2) by simp
  show "\<exists>raw. name_ok raw \<and> k = Encode_URI raw False" using ok by blast
next
  fix N q' assume N: "group_name_ok N" "m' (group_key S N) = Some q'"
  then obtain q ids where q: "m (group_key S N) = Some q" "q' = q\<lparr>seq_Items := ids\<rparr>" using assms(2) by blast
  then show "seq_ReferenceType q' = ''GroupId''" "seq_ReferenceId q' = S" using stored_ok_refs [OF assms(1) N(1) q(1)] by simp_all
qed

text \<open>What becomes of one sequence of the store.\<close>

definition item_effect :: "string \<Rightarrow> string \<Rightarrow> seq \<Rightarrow> seq option" where
  "item_effect S i q =
     (if seq_ReferenceType q = ''GroupId'' \<and> seq_ReferenceId q = S \<and> i \<in> set (seq_Items q)
      then (if length (seq_Items q) = 1 then None else Some (item_removed i q)) else Some q)"

lemma remove_item_store:
  assumes "sequence_service api st" "stored_ok S (st s)"
  shows "\<exists>s'. RemoveItemFromGroups api S i s = Some s' \<and> st s' = (\<lambda>k. Option.bind (st s k) (item_effect S i))"
proof -
  let ?get = "sequencesGet api None None (Some ''GroupId'') (Some [S]) (Some [i]) s"
  obtain qs where qs: "ends_with ?get RC_Success qs" "distinct (map seq_Key qs)"
    "set qs = {q. st s (seq_Key q) = Some q \<and> seq_ReferenceType q = ''GroupId'' \<and> seq_ReferenceId q \<in> set [S] \<and> i \<in> set (seq_Items q)}"
    using items_law [OF assms(1)] by blast
  obtain p http where p: "?get = p @ [(RC_Success, http, qs)]" "list_all (\<lambda>a. fst a = RC_InProgress) p"
    using qs(1) by (auto simp: ends_with_def)
  have skip: "fold (\<lambda>a r. Option.bind r (remove_item_answer api i a)) (map SequencesResult p) (Some s) = Some s"
    using p(2) by (induction p) (auto simp: SequencesResult_def remove_item_answer_def)
  let ?one = "filter (\<lambda>q. length (seq_Items q) = 1) qs" let ?more = "filter (\<lambda>q. length (seq_Items q) \<noteq> 1) qs"
  have items: "seq_Items (SequenceDtoToSequence q) = seq_Items q" for q by (simp add: SequenceDtoToSequence_def)
  have split: "filter (\<lambda>q. length (seq_Items q) = 1) (map SequenceDtoToSequence qs) = map SequenceDtoToSequence ?one"
    "filter (\<lambda>q. length (seq_Items q) \<noteq> 1) (map SequenceDtoToSequence qs) = map SequenceDtoToSequence ?more"
    by (simp_all add: filter_map comp_def items)
  have raw: "\<exists>raw. name_ok raw \<and> seq_Key q = Encode_URI raw False \<and> seq_Key (SequenceDtoToSequence q) = raw" if "q \<in> set qs" for q
    using stored_seq_decoded [OF assms(2), of "seq_Key q" q] that qs(3) by auto
  have keys: "list_all ValidateKey (map seq_Key (map SequenceDtoToSequence ?one))"
    "map (\<lambda>k. Encode_URI k False) (map seq_Key (map SequenceDtoToSequence ?one)) = map seq_Key ?one"
    using raw ValidateKey_ok by (fastforce simp: list_all_iff)+
  have one: "list_all stored_key (map seq_Key ?one)" using raw by (auto simp: list_all_iff stored_key_def)
  obtain as s1 where del: "sequencesKeysDelete api (map seq_Key ?one) s = (as, s1)"
    "st s1 = (\<lambda>k. if k \<in> set (map seq_Key ?one) then None else st s k)"
    using delete_law [OF assms(1) one] by blast
  have s1: "DeleteSequences_of api (map SequenceDtoToSequence ?one) s = s1"
    using del(1) keys by (simp add: DeleteSequences_of_def DeleteSequences_def del: map_map)
  have "distinct (map seq_Key ?more)" using qs(2) by (rule distinct_map_filter)
  moreover have "\<forall>q \<in> set ?more. length (seq_Items q) \<le> 2 ^ 63 \<and> (\<exists>raw. name_ok raw \<and> seq_Key q = Encode_URI raw False)"
    using raw qs(3) assms(2) by (fastforce simp: stored_ok_def)
  ultimately obtain s' where s': "UpdateSequences api (map SequenceDtoToSequence ?more) i s1 = Some s'"
    "st s' = st s1 ++ map_of (map (\<lambda>q. (seq_Key q, item_removed i q)) ?more)"
    using UpdateSequences_effect [OF assms(1)] by blast
  have "RemoveItemFromGroups api S i s = Some s'"
    using skip s1 s'(1) split
    by (simp add: RemoveItemFromGroups_def GetAllSequencesContainingItems_def p(1)) (simp add: SequencesResult_def remove_item_answer_def)
  moreover have "st s' k = Option.bind (st s k) (item_effect S i)" for k
  proof (cases "st s k")
    case None
    then have "k \<notin> seq_Key ` set qs" using qs(3) by auto
    then have "map_of (map (\<lambda>q. (seq_Key q, item_removed i q)) ?more) k = None" by (auto simp: map_of_eq_None_iff)
    then show ?thesis using s'(2) del(2) None by (simp add: map_add_def)
  next
    case (Some q)
    have k: "seq_Key q = k" using Some assms(2) by (simp add: stored_ok_def)
    have other: "q' = q" if "q' \<in> set qs" "seq_Key q' = k" for q' using that qs(3) Some by auto
    have mem: "q \<in> set qs \<longleftrightarrow> seq_ReferenceType q = ''GroupId'' \<and> seq_ReferenceId q = S \<and> i \<in> set (seq_Items q)"
      using qs(3) Some k by auto
    show ?thesis
    proof (cases "q \<in> set ?more")
      case True
      then have "map_of (map (\<lambda>q. (seq_Key q, item_removed i q)) ?more) k = Some (item_removed i q)"
        using \<open>distinct (map seq_Key ?more)\<close> k by (intro map_of_is_SomeI) (auto simp: comp_def)
      then show ?thesis using True s'(2) mem Some by (simp add: map_add_def item_effect_def)
    next
      case False
      have "seq_Key q' \<noteq> k" if q': "q' \<in> set ?more" for q'
      proof
        assume "seq_Key q' = k"
        moreover have "q' \<in> set qs" using q' by simp
        ultimately have "q' = q" using other by blast
        then show False using q' False by blast
      qed
      then have "k \<notin> seq_Key ` set ?more" by blast
      then have "map_of (map (\<lambda>q. (seq_Key q, item_removed i q)) ?more) k = None"
        by (simp add: map_of_eq_None_iff image_image del: set_filter)
      then have "st s' k = st s1 k" using s'(2) by (simp add: map_add_def)
      moreover have "k \<in> set (map seq_Key ?one) \<longleftrightarrow> q \<in> set qs \<and> length (seq_Items q) = 1" using other k by auto
      ultimately show ?thesis using False del(2) mem Some by (auto simp: item_effect_def)
    qed
  qed
  ultimately show ?thesis by blast
qed

lemma remove_item_group:
  assumes "sequence_service api st" "name_ok S" "stored_ok S (st s)"
  shows "\<exists>s'. run_group_op api S (Remove_item i) s = Some ([], s')
    \<and> groups_of st S s' = (\<lambda>N. Option.bind (groups_of st S s N) (without_item i)) \<and> stored_ok S (st s')"
proof -
  obtain s' where s': "RemoveItemFromGroups api S i s = Some s'" "st s' = (\<lambda>k. Option.bind (st s k) (item_effect S i))"
    using remove_item_store [OF assms(1,3)] by blast
  have "groups_of st S s' N = Option.bind (groups_of st S s N) (without_item i)" for N
  proof (cases "group_name_ok N \<and> st s (group_key S N) \<noteq> None")
    case True
    then obtain q where q: "st s (group_key S N) = Some q" "group_name_ok N" by blast
    then have "seq_ReferenceType q = ''GroupId''" "seq_ReferenceId q = S" using assms(3) by (auto simp: stored_ok_def)
    then show ?thesis using q by (simp add: groups_of_def s'(2) item_effect_def without_item_def item_removed_def)
  qed (auto simp: groups_of_def s'(2))
  moreover have "stored_ok S (st s')"
  proof (rule stored_ok_changed_items [OF assms(3)])
    fix k q' assume "st s' k = Some q'"
    then obtain q where q: "st s k = Some q" "item_effect S i q = Some q'" by (auto simp: s'(2) bind_eq_Some_conv)
    have "\<exists>ids. q' = q\<lparr>seq_Items := ids\<rparr> \<and> length ids \<le> length (seq_Items q)"
    proof (cases "q' = q")
      case True
      then show ?thesis by (intro exI [of _ "seq_Items q"]) simp
    next
      case False
      then have "q' = item_removed i q" using q(2) by (auto simp: item_effect_def split: if_splits)
      then show ?thesis by (intro exI [of _ "remove1 i (seq_Items q)"]) (simp add: item_removed_def length_remove1)
    qed
    then show "\<exists>q ids. st s k = Some q \<and> q' = q\<lparr>seq_Items := ids\<rparr> \<and> length ids \<le> length (seq_Items q)" using q(1) by blast
  qed
  ultimately show ?thesis using s'(1) by auto
qed

section \<open>Groups are a map from names to items\<close>

lemma group_op_refines:
  assumes "sequence_service api st" "name_ok S" "stored_ok S (st s)" "group_op_ok op"
  shows "\<exists>out s'. run_group_op api S op s = Some (out, s') \<and> reports op out (fst (group_op_spec op (groups_of st S s)))
    \<and> groups_of st S s' = snd (group_op_spec op (groups_of st S s)) \<and> stored_ok S (st s')"
proof (cases op)
  case (Create_group N ids)
  then show ?thesis using create_group [OF assms(1-3), of N ids] assms(4) by auto
next
  case (Update_group N ids)
  then show ?thesis using update_group [OF assms(1-3), of N ids] assms(4) by auto
next
  case (Rename_group N N')
  then show ?thesis using rename_group [OF assms(1-3), of N N'] assms(4) by simp
next
  case (Get_group N)
  then show ?thesis using get_group [OF assms(1-3), of N] assms(3,4) by (auto split: option.splits)
next
  case (Delete_group N)
  then show ?thesis using delete_group [OF assms(1-3), of N] assms(4) by simp
next
  case (Remove_item i)
  then show ?thesis using remove_item_group [OF assms(1-3), of i] by simp
qed

fun run_group_ops :: "'s sequence_api \<Rightarrow> string \<Rightarrow> group_op list \<Rightarrow> 's \<Rightarrow> (group_outcome list \<times> 's) option" where
  "run_group_ops api S [] s = Some ([], s)"
| "run_group_ops api S (op # ops) s =
     Option.bind (run_group_op api S op s) (\<lambda>(out, s1). map_option (map_prod (Cons out) id) (run_group_ops api S ops s1))"

fun group_ops_spec :: "group_op list \<Rightarrow> (string \<Rightarrow> string list option) \<Rightarrow> group_outcome list \<times> (string \<Rightarrow> string list option)" where
  "group_ops_spec [] g = ([], g)"
| "group_ops_spec (op # ops) g = (let (out, g) = group_op_spec op g in map_prod (Cons out) id (group_ops_spec ops g))"

fun all_report :: "group_op list \<Rightarrow> group_outcome list \<Rightarrow> group_outcome list \<Rightarrow> bool" where
  "all_report (op # ops) (out # outs) (e # es) \<longleftrightarrow> reports op out e \<and> all_report ops outs es"
| "all_report ops outs es \<longleftrightarrow> ops = [] \<and> outs = [] \<and> es = []"

text \<open>
  C16. The hotspot groups of a space are a map from names to items: any sequence of creating, updating,
  renaming, getting and deleting groups and of removing an item from all of them leaves the map these
  operations stand for - through keys that are put together, encoded, decoded and taken apart again -
  on any service that stores sequences under valid keys. Every operation but the removal of an item
  gives its callback what the map says, the failures included, once; a deletion may report
  progress to its callback before; the removal of an item never calls its callback. Names are of
  ASCII characters other than space, slash, hash and percent sign.
\<close>

theorem hotspot_groups_are_a_map:
  assumes "sequence_service api st" "name_ok S" "stored_ok S (st s)" "list_all group_op_ok ops"
  shows "\<exists>outs s'. run_group_ops api S ops s = Some (outs, s') \<and> all_report ops outs (fst (group_ops_spec ops (groups_of st S s)))
    \<and> groups_of st S s' = snd (group_ops_spec ops (groups_of st S s)) \<and> stored_ok S (st s')"
  using assms(3,4)
proof (induction ops arbitrary: s)
  case Nil
  then show ?case by simp
next
  case (Cons op ops)
  obtain out s1 where s1: "run_group_op api S op s = Some (out, s1)" "reports op out (fst (group_op_spec op (groups_of st S s)))"
    "groups_of st S s1 = snd (group_op_spec op (groups_of st S s))" "stored_ok S (st s1)"
    using group_op_refines [OF assms(1,2) Cons.prems(1), of op] Cons.prems(2) by auto
  then show ?case using Cons.IH [of s1] Cons.prems by (auto simp: split_beta Let_def)
qed

text \<open>A service that keeps its sequences in a list, one for a key.\<close>

definition list_put :: "seq \<Rightarrow> seq list \<Rightarrow> seq list" where
  "list_put q s = q # filter (\<lambda>r. seq_Key r \<noteq> seq_Key q) s"

definition list_find :: "seq list \<Rightarrow> string \<Rightarrow> seq option" where
  "list_find s k = List.find (\<lambda>q. seq_Key q = k) s"

definition list_sequences :: "seq list sequence_api" where
  "list_sequences =
     \<lparr>sequencesPut = (\<lambda>k q s. case k of
          None \<Rightarrow> ([(RC_InProgress, 0, empty_seq), (RC_Success, 200, q)], list_put q s)
        | Some k \<Rightarrow> ([(RC_Success, 200, q\<lparr>seq_Key := k\<rparr>)], list_put (q\<lparr>seq_Key := k\<rparr>) (filter (\<lambda>r. seq_Key r \<noteq> seq_Key q) s))),
      sequencesGet = (\<lambda>ks r t ids is s. [(RC_Success, 200, remdups (filter (\<lambda>q. list_find s (seq_Key q) = Some q
          \<and> (case t of None \<Rightarrow> True | Some t \<Rightarrow> seq_ReferenceType q = t)
          \<and> (case ids of None \<Rightarrow> True | Some ids \<Rightarrow> seq_ReferenceId q \<in> set ids)
          \<and> (case is of None \<Rightarrow> True | Some is \<Rightarrow> set is \<inter> set (seq_Items q) \<noteq> {})) s))]),
      sequencesKeysKeyGet = (\<lambda>k s. case List.find (\<lambda>q. ascii (seq_Key q) \<and> Encode_URI1 (seq_Key q) = k) s of
          None \<Rightarrow> [(RC_Failed, 404, empty_seq)] | Some q \<Rightarrow> [(RC_Success, 200, q)]),
      sequencesKeysDelete = (\<lambda>ks s. ([(RC_InProgress, 0, ()), (RC_Success, 204, ())], filter (\<lambda>q. seq_Key q \<notin> set ks) s))\<rparr>"

lemma find_filter:
  "List.find P (filter Q s) = List.find (\<lambda>x. Q x \<and> P x) s"
  by (induction s) auto

lemma list_find_put: "list_find (list_put q s) = (list_find s)(seq_Key q \<mapsto> q)"
proof
  fix k
  have "List.find (\<lambda>x. seq_Key x \<noteq> seq_Key q \<and> seq_Key x = k) s = List.find (\<lambda>x. seq_Key x = k) s" if "seq_Key q \<noteq> k"
    using that by (intro arg_cong [where f = "\<lambda>P. List.find P s"]) auto
  then show "list_find (list_put q s) k = ((list_find s)(seq_Key q \<mapsto> q)) k"
    by (auto simp: list_find_def list_put_def find_filter)
qed

lemma list_find_filter: "list_find (filter (\<lambda>q. seq_Key q \<notin> K) s) = (\<lambda>k. if k \<in> K then None else list_find s k)"
proof
  fix k
  show "list_find (filter (\<lambda>q. seq_Key q \<notin> K) s) k = (if k \<in> K then None else list_find s k)"
    by (induction s) (auto simp: list_find_def)
qed

lemma list_find_drop: "list_find (filter (\<lambda>q. seq_Key q \<noteq> k) s) = (list_find s)(k := None)"
  using list_find_filter [of "{k}" s] by (auto simp: fun_eq_iff)

lemma list_find_key: "list_find s k = Some q \<Longrightarrow> seq_Key q = k \<and> q \<in> set s"
  by (auto simp: list_find_def find_Some_iff)

lemma Encode_URI1_eq: "ascii a \<Longrightarrow> ascii b \<Longrightarrow> Encode_URI1 a = Encode_URI1 b \<longleftrightarrow> a = b"
  using Decode_Encode_URI1 by metis

lemma list_find_encoded:
  assumes "ascii k"
  shows "List.find (\<lambda>q. ascii (seq_Key q) \<and> Encode_URI1 (seq_Key q) = Encode_URI1 k) s = list_find s k"
proof -
  have "(\<lambda>q :: seq. ascii (seq_Key q) \<and> Encode_URI1 (seq_Key q) = Encode_URI1 k) = (\<lambda>q. seq_Key q = k)"
    using assms Encode_URI1_eq by (auto simp: fun_eq_iff)
  then show ?thesis by (simp add: list_find_def)
qed

lemma ends_with_one: "ends_with [(c, h, x)] c x" "ends_with [(RC_InProgress, h', y), (c, h, x)] c x"
  unfolding ends_with_def
  by (intro exI [of _ "[]"] exI [of _ h]; simp) (intro exI [of _ "[(RC_InProgress, h', y)]"] exI [of _ h]; simp)

lemma list_sequences_service: "sequence_service list_sequences list_find"
  unfolding sequence_service_def
proof (intro conjI allI impI)
  fix s k q assume "list_find s k = Some q"
  then show "seq_Key q = k" using list_find_key by blast
next
  fix q :: seq and s
  show "ends_with (fst (sequencesPut list_sequences None q s)) RC_Success q"
    "list_find (snd (sequencesPut list_sequences None q s)) = (list_find s)(seq_Key q \<mapsto> q)"
    by (simp_all add: list_sequences_def ends_with_one list_find_put)
next
  fix k q s
  show "ends_with (fst (sequencesPut list_sequences (Some k) q s)) RC_Success (q\<lparr>seq_Key := k\<rparr>)"
    "list_find (snd (sequencesPut list_sequences (Some k) q s)) = (list_find s)(seq_Key q := None, k \<mapsto> q\<lparr>seq_Key := k\<rparr>)"
    by (simp_all add: list_sequences_def ends_with_one list_find_put list_find_drop)
next
  fix k s assume "stored_key k"
  then have "ascii k" by (rule stored_key_ascii)
  then show "case list_find s k of Some q \<Rightarrow> ends_with (sequencesKeysKeyGet list_sequences (Encode_URI1 k) s) RC_Success q
      | None \<Rightarrow> ends_with (sequencesKeysKeyGet list_sequences (Encode_URI1 k) s) RC_Failed empty_seq"
    by (auto simp: list_sequences_def list_find_encoded ends_with_one split: option.split)
next
  fix ks s
  show "ends_with (fst (sequencesKeysDelete list_sequences ks s)) RC_Success ()"
    "list_find (snd (sequencesKeysDelete list_sequences ks s)) = (\<lambda>k. if k \<in> set ks then None else list_find s k)"
    by (simp_all add: list_sequences_def ends_with_one list_find_filter)
next
  fix t ids i s
  let ?qs = "remdups (filter (\<lambda>q. list_find s (seq_Key q) = Some q \<and> seq_ReferenceType q = t \<and> seq_ReferenceId q \<in> set ids \<and> i \<in> set (seq_Items q)) s)"
  have get: "sequencesGet list_sequences None None (Some t) (Some ids) (Some [i]) s = [(RC_Success, 200, ?qs)]"
    by (simp add: list_sequences_def)
  have "inj_on seq_Key (set ?qs)"
  proof (rule inj_onI)
    fix x y assume m: "x \<in> set ?qs" "y \<in> set ?qs" and eq: "seq_Key x = seq_Key y"
    have "list_find s (seq_Key x) = Some x" using m(1) by simp
    moreover have "list_find s (seq_Key y) = Some y" using m(2) by simp
    ultimately show "x = y" by (metis eq option.inject)
  qed
  then have dist: "distinct (map seq_Key ?qs)" by (simp only: distinct_map distinct_remdups simp_thms)
  have set: "set ?qs = {q. list_find s (seq_Key q) = Some q \<and> seq_ReferenceType q = t \<and> seq_ReferenceId q \<in> set ids \<and> i \<in> set (seq_Items q)}"
    using list_find_key by auto
  show "\<exists>qs. ends_with (sequencesGet list_sequences None None (Some t) (Some ids) (Some [i]) s) RC_Success qs \<and> distinct (map seq_Key qs)
    \<and> set qs = {q. list_find s (seq_Key q) = Some q \<and> seq_ReferenceType q = t \<and> seq_ReferenceId q \<in> set ids \<and> i \<in> set (seq_Items q)}"
    by (intro exI [of _ ?qs] conjI dist set) (simp only: get ends_with_one)
qed

lemma hotspot_groups_are_a_map_witness:
  "let ops = [Create_group ''a'' [''1'', ''2''], Create_group ''b'' [''1''], Remove_item ''1'', Rename_group ''a'' ''x:y'', Get_group ''b'',
      Delete_group ''x:y'', Get_group ''x:y'']
   in \<exists>outs s'. run_group_ops list_sequences ''sp'' ops [] = Some (outs, s')
     \<and> all_report ops outs [[(RC_Success, \<lparr>hg_Name = ''a'', hg_Items = [''1'', ''2'']\<rparr>)], [(RC_Success, \<lparr>hg_Name = ''b'', hg_Items = [''1'']\<rparr>)],
          [], [(RC_Success, \<lparr>hg_Name = ''x:y'', hg_Items = [''2'']\<rparr>)], [(RC_Failed, empty_group)],
          [(RC_Success, empty_group)], [(RC_Failed, empty_group)]]"
proof -
  let ?ops = "[Create_group ''a'' [''1'', ''2''], Create_group ''b'' [''1''], Remove_item ''1'', Rename_group ''a'' ''x:y'', Get_group ''b'',
    Delete_group ''x:y'', Get_group ''x:y'']"
  have ok: "name_ok ''sp''" "group_name_ok ''a''" "group_name_ok ''b''" "group_name_ok ''x:y''"
    by (simp_all add: name_ok_def group_name_ok_def ascii_def)
  have none: "stored_ok ''sp'' (list_find [])" "groups_of list_find ''sp'' [] = (\<lambda>_. None)"
    by (auto simp: stored_ok_def groups_of_def list_find_def)
  have "list_all group_op_ok ?ops" using ok by simp
  note t = hotspot_groups_are_a_map [OF list_sequences_service ok(1) none(1) this]
  have "fst (group_ops_spec ?ops (groups_of list_find ''sp'' []))
    = [[(RC_Success, \<lparr>hg_Name = ''a'', hg_Items = [''1'', ''2'']\<rparr>)], [(RC_Success, \<lparr>hg_Name = ''b'', hg_Items = [''1'']\<rparr>)],
        [], [(RC_Success, \<lparr>hg_Name = ''x:y'', hg_Items = [''2'']\<rparr>)], [(RC_Failed, empty_group)],
        [(RC_Success, empty_group)], [(RC_Failed, empty_group)]]"
    by (simp add: none(2) without_item_def Let_def split_beta)
  then show ?thesis using t unfolding Let_def by metis
qed

text \<open>A key with a space passes the check, although the documentation says that the call fails.\<close>

lemma space_in_key_is_valid: "ValidateKey ''b c''"
  by (simp add: ValidateKey_def c_str_def)

section \<open>What goes wrong\<close>

text \<open>A group without a name is stored, and reported as a failure.\<close>

lemma nameless_group_is_stored:
  assumes "sequence_service api st" "name_ok S"
  shows "\<exists>s'. CreateHotspotGroup api S [] ids s = ([(RC_Failed, 0, empty_group)], s') \<and> st s' (group_key S []) = Some (group_seq S [] ids)"
proof -
  have n: "name_ok (CreateKey [] S)" using CreateKey_ok [OF assms(2), of "[]"] by (simp add: name_ok_def ascii_def)
  then have key: "stored_key (seq_Key (group_seq S [] ids))" by (auto simp: stored_key_def group_seq_simps group_key_def)
  obtain as s' where put: "sequencesPut api None (group_seq S [] ids) s = (as, s')" "ends_with as RC_Success (group_seq S [] ids)"
    "st s' = (st s)(seq_Key (group_seq S [] ids) \<mapsto> group_seq S [] ids)" using put_new_law [OF assms(1) key] by blast
  obtain p http where p: "as = p @ [(RC_Success, http, group_seq S [] ids)]" "list_all (\<lambda>a. fst a = RC_InProgress) p"
    using put(2) by (auto simp: ends_with_def)
  have "DeconstructKey (CreateKey [] S) S = None"
    by (simp add: DeconstructKey_def CreateKey_eq String_Append_def String_of_def c_str_def)
  then have "group_results S (map SequenceResult as) = [(RC_Failed, 0, empty_group)]"
    using group_results_progress [OF p(2), of S] Decode_Encode_ok [OF n]
    by (simp add: p(1) group_results_append)
      (simp add: group_results_def List.map_filter_def SequenceResult_def group_result_def SequenceDtoToSequence_def group_seq_simps group_key_def)
  then show ?thesis using put(1,3) ValidateKey_ok [OF n]
    by (auto simp: CreateHotspotGroup_def CreateSequence_def group_seq_def [symmetric] group_seq_simps)
qed

text \<open>An item that a group holds twice stays in it once.\<close>

lemma item_held_twice_stays: "without_item i [i, i] = Some [i]"
  by (simp add: without_item_def)

text \<open>When the query fails the service is still asked to delete, with no keys.\<close>

lemma failed_query_asks_to_delete:
  "remove_item_answer api i (RC_Failed, http, []) s = Some (snd (sequencesKeysDelete api [] s))"
  by (simp add: remove_item_answer_def DeleteSequences_of_def DeleteSequences_def)

end
