(* ===== verification/Lod_Chain.thy ===== *)
theory Lod_Chain
  imports Csp_String Space_Entry "HOL-Library.Multiset"
begin

text \<open>
  Levels of detail (\<open>src/Systems/Assets/LODHelpers.cpp\<close>, \<open>RegisterAssetToLODChain\<close> and
  \<open>GetLODChain\<close> of \<open>AssetSystem.cpp\<close>): the level of an asset is kept in one of its style strings. Of an
  asset, the fields these functions do not look at are left out. The order that \<open>std::sort\<close> gives to
  assets of the same level is not fixed by the language, so the sort is a parameter.
\<close>

section \<open>Numbers in strings\<close>

definition digit_char :: "nat \<Rightarrow> char" where "digit_char n = char_of (48 + n)"

fun nat_string :: "nat \<Rightarrow> string" where
  "nat_string n = (if n < 10 then [digit_char n] else nat_string (n div 10) @ [digit_char (n mod 10)])"

declare nat_string.simps [simp del]

definition to_string :: "int \<Rightarrow> string" where
  "to_string i = (if i < 0 then CHR ''-'' # nat_string (nat (- i)) else nat_string (nat i))"

text \<open>\<open>stoi\<close> of at most one character: an exception (\<open>None\<close>) unless it is a digit.\<close>

definition stoi1 :: "string \<Rightarrow> int option" where
  "stoi1 s =
     (case s of [] \<Rightarrow> None
      | c # _ \<Rightarrow> if CHR ''0'' \<le> c \<and> c \<le> CHR ''9'' then Some (of_char c - 48) else None)"

section \<open>Levels in styles\<close>

definition CreateLODStyleVar :: "int \<Rightarrow> string" where
  "CreateLODStyleVar LODLevel = String_of (''lod:'' @ to_string LODLevel)"

text \<open>The first style that holds \<open>lod:\<close> anywhere gives the level, from its fifth character; -1 when there is none.\<close>

fun GetLODLevelFromStylesArray :: "string list \<Rightarrow> int option" where
  "GetLODLevelFromStylesArray [] = Some (-1)"
| "GetLODLevelFromStylesArray (Style # Styles) =
     (let Style = c_str Style
      in if strstr ''lod:'' Style \<noteq> None then stoi1 (take 1 (drop 4 Style))
         else GetLODLevelFromStylesArray Styles)"

record lod_source =
  as_Id :: string
  as_Styles :: "string list"

record lod_asset =
  la_Asset :: lod_source
  la_Level :: int

record lod_chain =
  lc_CollectionId :: string
  lc_Assets :: "lod_asset list"

section \<open>Chains\<close>

fun leveled_assets :: "lod_source list \<Rightarrow> lod_asset list option" where
  "leveled_assets [] = Some []"
| "leveled_assets (a # as) =
     (case GetLODLevelFromStylesArray (as_Styles a) of
        None \<Rightarrow> None
      | Some LODLevel \<Rightarrow>
          map_option (if LODLevel = -1 then id else Cons \<lparr>la_Asset = a, la_Level = LODLevel\<rparr>) (leveled_assets as))"

definition single_asset :: "lod_source \<Rightarrow> lod_asset list option" where
  "single_asset a =
     (case GetLODLevelFromStylesArray (as_Styles a) of
        None \<Rightarrow> None
      | Some LODLevel \<Rightarrow> Some [\<lparr>la_Asset = a, la_Level = (if LODLevel = -1 then 0 else LODLevel)\<rparr>])"

definition CreateLODChainFromAssets :: "(lod_asset list \<Rightarrow> lod_asset list) \<Rightarrow> lod_source list \<Rightarrow> string \<Rightarrow> lod_chain option" where
  "CreateLODChainFromAssets std_sort Assets AssetCollectionId =
     map_option (\<lambda>l. \<lparr>lc_CollectionId = AssetCollectionId, lc_Assets = std_sort l\<rparr>)
       (case Assets of [a] \<Rightarrow> single_asset a | _ \<Rightarrow> leveled_assets Assets)"

definition ValidateNewLODLevelForChain :: "lod_chain \<Rightarrow> int \<Rightarrow> bool" where
  "ValidateNewLODLevelForChain Chain LODLevel \<longleftrightarrow> \<not> list_ex (\<lambda>a. la_Level a = LODLevel) (lc_Assets Chain)"

text \<open>
  What the handler of the query does with its answer: nothing, a call of the callback with the code of
  the answer, or a request to update the asset, whose answer goes to the callback.
\<close>

datatype register_step = Wait | Report EResultCode | Update_asset lod_source | Raise

definition register_answer :: "(lod_asset list \<Rightarrow> lod_asset list) \<Rightarrow> string \<Rightarrow> lod_source \<Rightarrow> int \<Rightarrow> EResultCode \<Rightarrow> lod_source list \<Rightarrow> register_step" where
  "register_answer std_sort CollectionId InAsset LODLevel code Assets =
     (if code = RC_InProgress then Wait
      else if code = RC_Failed then Report code
      else case CreateLODChainFromAssets std_sort Assets CollectionId of
        None \<Rightarrow> Raise
      | Some Chain \<Rightarrow>
          if \<not> ValidateNewLODLevelForChain Chain LODLevel then Report code
          else Update_asset (InAsset\<lparr>as_Styles := as_Styles InAsset @ [CreateLODStyleVar LODLevel]\<rparr>))"

section \<open>The level comes back while it has one digit\<close>

lemma digits_ok: "list_all (\<lambda>n. CHR ''0'' \<le> digit_char n \<and> digit_char n \<le> CHR ''9'' \<and> (of_char (digit_char n) :: int) = 48 + int n) [0..<10]"
  by code_simp

lemma digit_char_ok:
  assumes "n < 10"
  shows "stoi1 [digit_char n] = Some (int n)" "digit_char n \<noteq> CHR 0x00"
proof -
  have d: "CHR ''0'' \<le> digit_char n" "digit_char n \<le> CHR ''9''" "(of_char (digit_char n) :: int) = 48 + int n"
    using digits_ok assms by (simp_all add: list_all_iff)
  then show "stoi1 [digit_char n] = Some (int n)" by (simp add: stoi1_def)
  show "digit_char n \<noteq> CHR 0x00" using d(3) by auto
qed

definition no_lod :: "string list \<Rightarrow> bool" where
  "no_lod Styles \<longleftrightarrow> (\<forall>s \<in> set Styles. strstr ''lod:'' (c_str s) = None)"

lemma level_of_no_lod: "no_lod Styles \<Longrightarrow> GetLODLevelFromStylesArray (Styles @ rest) = GetLODLevelFromStylesArray rest"
  by (induction Styles) (auto simp: no_lod_def)

lemma strstr_self: "strstr ''lod:'' (''lod:'' @ t) = Some 0"
  by simp

text \<open>A level that is written as one digit is read back from the styles it was added to.\<close>

lemma level_of_style_digit:
  assumes "no_lod Styles" "0 \<le> LODLevel" "LODLevel < 10"
  shows "GetLODLevelFromStylesArray (Styles @ [CreateLODStyleVar LODLevel]) = Some LODLevel"
proof -
  have "to_string LODLevel = [digit_char (nat LODLevel)]" using assms(2,3) by (simp add: to_string_def nat_string.simps)
  then have "CreateLODStyleVar LODLevel = ''lod:'' @ [digit_char (nat LODLevel)]"
    using digit_char_ok(2) [of "nat LODLevel"] assms(2,3) by (simp add: CreateLODStyleVar_def String_of_def c_str_def)
  moreover have "c_str (''lod:'' @ [digit_char (nat LODLevel)]) = ''lod:'' @ [digit_char (nat LODLevel)]"
    using digit_char_ok(2) [of "nat LODLevel"] assms(2,3) by (simp add: c_str_def)
  ultimately show ?thesis
    using level_of_no_lod [OF assms(1)] digit_char_ok(1) [of "nat LODLevel"] assms(2,3) by (simp add: Let_def)
qed

text \<open>Of a longer number only the first digit is read, and a negative one raises an exception.\<close>

lemma level_of_style_long:
  "GetLODLevelFromStylesArray [CreateLODStyleVar 10] = Some 1" "GetLODLevelFromStylesArray [CreateLODStyleVar (-1)] = None"
  by code_simp+

section \<open>Chains are sorted and hold every asset that has a level\<close>

definition sort_ok :: "(lod_asset list \<Rightarrow> lod_asset list) \<Rightarrow> bool" where
  "sort_ok std_sort \<longleftrightarrow> (\<forall>l. mset (std_sort l) = mset l \<and> sorted (map la_Level (std_sort l)))"

lemma leveled_assets_spec:
  "leveled_assets as = Some ls \<Longrightarrow>
     ls = map (\<lambda>a. \<lparr>la_Asset = a, la_Level = the (GetLODLevelFromStylesArray (as_Styles a))\<rparr>)
            (filter (\<lambda>a. GetLODLevelFromStylesArray (as_Styles a) \<noteq> Some (-1)) as)"
  by (induction as arbitrary: ls) (auto split: option.splits if_splits)

lemma chain_of_many:
  "length Assets \<noteq> 1 \<Longrightarrow> CreateLODChainFromAssets std_sort Assets cid
    = map_option (\<lambda>l. \<lparr>lc_CollectionId = cid, lc_Assets = std_sort l\<rparr>) (leveled_assets Assets)"
  by (auto simp: CreateLODChainFromAssets_def split: list.split)

lemma chain_is_sorted:
  assumes "sort_ok std_sort" "CreateLODChainFromAssets std_sort Assets cid = Some Chain" "length Assets \<noteq> 1"
  shows "sorted (map la_Level (lc_Assets Chain))
    \<and> mset (lc_Assets Chain) = mset (map (\<lambda>a. \<lparr>la_Asset = a, la_Level = the (GetLODLevelFromStylesArray (as_Styles a))\<rparr>)
        (filter (\<lambda>a. GetLODLevelFromStylesArray (as_Styles a) \<noteq> Some (-1)) Assets))"
proof -
  note chain = chain_of_many [OF assms(3), of std_sort cid]
  obtain ls where "leveled_assets Assets = Some ls" "lc_Assets Chain = std_sort ls"
    using assms(2) chain by (cases "leveled_assets Assets") auto
  then show ?thesis using leveled_assets_spec [of Assets ls] assms(1) by (simp add: sort_ok_def)
qed

text \<open>
  An accepted registration gives the asset a level of its own: the chain of the collection with the
  updated asset in its place has again no level twice.
\<close>

definition chain_levels :: "lod_source list \<Rightarrow> int list" where
  "chain_levels Assets = filter (\<lambda>l. l \<noteq> -1) (map (\<lambda>a. the (GetLODLevelFromStylesArray (as_Styles a))) Assets)"

lemma leveled_assets_levels: "leveled_assets as = Some ls \<Longrightarrow> map la_Level ls = chain_levels as"
  by (induction as arbitrary: ls) (auto simp: chain_levels_def split: option.splits if_splits)

lemma registered_levels_stay_distinct:
  assumes "sort_ok std_sort" "register_answer std_sort cid a LODLevel RC_Success (xs @ a # ys) = Update_asset a'"
    "no_lod (as_Styles a)" "0 \<le> LODLevel" "LODLevel < 10" "xs @ ys \<noteq> []" "distinct (chain_levels (xs @ a # ys))"
  shows "distinct (chain_levels (xs @ a' # ys)) \<and> LODLevel \<in> set (chain_levels (xs @ a' # ys))
    \<and> set (chain_levels (xs @ a # ys)) \<subseteq> set (chain_levels (xs @ a' # ys))"
proof -
  have len: "length (xs @ a # ys) \<noteq> 1" using assms(6) by auto
  obtain Chain where c: "CreateLODChainFromAssets std_sort (xs @ a # ys) cid = Some Chain"
    "ValidateNewLODLevelForChain Chain LODLevel" "a' = a\<lparr>as_Styles := as_Styles a @ [CreateLODStyleVar LODLevel]\<rparr>"
    using assms(2) by (auto simp: register_answer_def split: option.splits if_splits)
  note chain = chain_of_many [OF len, of std_sort cid]
  obtain ls where ls: "leveled_assets (xs @ a # ys) = Some ls" "lc_Assets Chain = std_sort ls"
    using c(1) chain by (cases "leveled_assets (xs @ a # ys)") auto
  have m: "mset (std_sort ls) = mset ls" using assms(1) by (simp add: sort_ok_def)
  have "set (std_sort ls) = set ls" using mset_eq_setD [OF m] .
  then have new: "LODLevel \<notin> set (chain_levels (xs @ a # ys))"
    using c(2) ls(2) leveled_assets_levels [OF ls(1), symmetric] by (auto simp: ValidateNewLODLevelForChain_def list_ex_iff)
  have "GetLODLevelFromStylesArray (as_Styles a') = Some LODLevel" using level_of_style_digit [OF assms(3-5)] c(3) by simp
  moreover have "GetLODLevelFromStylesArray (as_Styles a) = Some (-1)" using level_of_no_lod [OF assms(3), of "[]"] by simp
  ultimately have "chain_levels (xs @ a # ys) = chain_levels xs @ chain_levels ys"
    "chain_levels (xs @ a' # ys) = chain_levels xs @ LODLevel # chain_levels ys"
    using assms(4) by (simp_all add: chain_levels_def)
  then show ?thesis using new assms(7) by auto
qed

text \<open>A level that is taken is refused, with the code of the query, which is success.\<close>

lemma taken_level_reports_success:
  assumes "CreateLODChainFromAssets std_sort Assets cid = Some Chain" "\<not> ValidateNewLODLevelForChain Chain LODLevel"
  shows "register_answer std_sort cid a LODLevel RC_Success Assets = Report RC_Success"
  using assms by (simp add: register_answer_def)

text \<open>An asset alone in its collection cannot be given level 0, which it is taken to have; with a second one it is no part of the chain.\<close>

lemma lone_asset_has_no_level:
  assumes "sort_ok std_sort" "no_lod (as_Styles a)"
  shows "register_answer std_sort cid a 0 RC_Success [a] = Report RC_Success"
    "leveled_assets [a, b] = leveled_assets [b]"
proof -
  have l: "GetLODLevelFromStylesArray (as_Styles a) = Some (-1)" using level_of_no_lod [OF assms(2), of "[]"] by simp
  have m: "mset (std_sort [x]) = mset [x]" for x using assms(1) by (simp add: sort_ok_def)
  have "std_sort [x] = [x]" for x using m [of x] by simp
  then show "register_answer std_sort cid a 0 RC_Success [a] = Report RC_Success"
    by (simp add: register_answer_def CreateLODChainFromAssets_def single_asset_def l ValidateNewLODLevelForChain_def)
  show "leveled_assets [a, b] = leveled_assets [b]" by (simp add: l id_def option.map_id0 split: option.split)
qed

end
