(* ===== verification/Materials.thy ===== *)
theory Materials
  imports Schema_Json Space_Entry
begin

text \<open>
  Materials (\<open>src/Systems/Assets/Material.cpp\<close>, \<open>GLTFMaterial.cpp\<close>, \<open>AlphaVideoMaterial.cpp\<close>,
  \<open>TextureInfo.cpp\<close>, the material functions of \<open>AssetSystem.cpp\<close>) and the JSON they are stored as,
  over the documents of \<open>Schema_Json\<close>. The deserialiser's stack of values is the nesting of the
  readers: a reader is given the value on top. A reader has no result (\<open>None\<close>) where RapidJSON fails
  an assertion, where an index is out of range, and where a variable would be used that was never
  written. Values of enumerations are the numbers they are converted to and from.
\<close>

section \<open>Reading members\<close>

fun is_object :: "document \<Rightarrow> bool" where "is_object (JObject ms) = True" | "is_object _ = False"

fun doc_String :: "document \<Rightarrow> string option" where
  "doc_String (JString s) = Some (c_str s)" | "doc_String _ = None"

fun doc_int :: "document \<Rightarrow> u32 option" where
  "doc_int (JInt n) = (if - (2 ^ 31) \<le> n \<and> n < 2 ^ 31 then Some (of_int n) else None)" | "doc_int _ = None"

fun doc_bool :: "document \<Rightarrow> bool option" where
  "doc_bool (JBool b) = Some b" | "doc_bool _ = None"

definition doc_float :: "document \<Rightarrow> float32 option" where
  "doc_float d = (if IsNumber d then Some (GetFloatNumber d) else None)"

fun doc_all :: "(document \<Rightarrow> 'a option) \<Rightarrow> document list \<Rightarrow> 'a list option" where
  "doc_all r [] = Some []"
| "doc_all r (d # ds) = Option.bind (r d) (\<lambda>x. map_option (Cons x) (doc_all r ds))"

fun doc_Array :: "(document \<Rightarrow> 'a option) \<Rightarrow> document \<Rightarrow> 'a list option" where
  "doc_Array r (JArray ds) = doc_all r ds" | "doc_Array r _ = None"

definition DeserializeMember :: "(document \<Rightarrow> 'a option) \<Rightarrow> string \<Rightarrow> document \<Rightarrow> 'a option" where
  "DeserializeMember r Key d = (if is_object d then Option.bind (Member d Key) r else None)"

text \<open>\<open>Val\<close> keeps its value when there is no such member; the flag says whether there is.\<close>

definition SafeDeserializeMember :: "(document \<Rightarrow> 'a option) \<Rightarrow> string \<Rightarrow> 'a \<Rightarrow> document \<Rightarrow> (bool \<times> 'a) option" where
  "SafeDeserializeMember r Key Val d =
     (if \<not> is_object d then None
      else case Member d Key of None \<Rightarrow> Some (False, Val) | Some v \<Rightarrow> map_option (Pair True) (r v))"

text \<open>Into a member of the object; into a variable that is used afterwards and was not written before.\<close>

definition member :: "(document \<Rightarrow> 'a option) \<Rightarrow> string \<Rightarrow> 'a \<Rightarrow> document \<Rightarrow> 'a option" where
  "member r Key Val d = map_option snd (SafeDeserializeMember r Key Val d)"

definition fresh_member :: "(document \<Rightarrow> 'a option) \<Rightarrow> string \<Rightarrow> document \<Rightarrow> 'a option" where
  "fresh_member r Key d =
     Option.bind (SafeDeserializeMember (map_option Some \<circ> r) Key None d) snd"

definition vector2_of :: "float32 list \<Rightarrow> (float32 \<times> float32) option" where
  "vector2_of a = (if 2 \<le> length a then Some (a ! 0, a ! 1) else None)"
definition vector3_of :: "float32 list \<Rightarrow> (float32 \<times> float32 \<times> float32) option" where
  "vector3_of a = (if 3 \<le> length a then Some (a ! 0, a ! 1, a ! 2) else None)"
definition vector4_of :: "float32 list \<Rightarrow> (float32 \<times> float32 \<times> float32 \<times> float32) option" where
  "vector4_of a = (if 4 \<le> length a then Some (a ! 0, a ! 1, a ! 2, a ! 3) else None)"

definition doc_vector :: "(float32 list \<Rightarrow> 'a option) \<Rightarrow> document \<Rightarrow> 'a option" where
  "doc_vector f d = Option.bind (doc_Array doc_float d) f"

section \<open>Textures\<close>

definition ETextureResourceType_ImageAsset :: u32 where "ETextureResourceType_ImageAsset = 1"
definition ETextureResourceType_Component :: u32 where "ETextureResourceType_Component = 0"

definition float_one :: float32 where "float_one = 0x3F800000"

record texture_info =
  ti_AssetCollectionId :: string
  ti_AssetId :: string
  ti_EntityComponentId :: string
  ti_SourceType :: u32
  ti_UVOffset :: "float32 \<times> float32"
  ti_UVRotation :: float32
  ti_UVScale :: "float32 \<times> float32"
  ti_StereoVideoType :: u32
  ti_IsStereoFlipped :: bool
  ti_TexCoord :: u32
  ti_Set :: bool

definition TextureInfo_new :: texture_info where
  "TextureInfo_new = \<lparr>ti_AssetCollectionId = [], ti_AssetId = [], ti_EntityComponentId = [],
     ti_SourceType = ETextureResourceType_ImageAsset, ti_UVOffset = (0, 0), ti_UVRotation = 0, ti_UVScale = (float_one, float_one),
     ti_StereoVideoType = 0, ti_IsStereoFlipped = False, ti_TexCoord = 0, ti_Set = True\<rparr>"

definition SetCollectionAndAssetId :: "string \<Rightarrow> string \<Rightarrow> texture_info \<Rightarrow> texture_info" where
  "SetCollectionAndAssetId InAssetCollectionId InAssetId t =
     t\<lparr>ti_AssetCollectionId := InAssetCollectionId, ti_AssetId := InAssetId, ti_SourceType := ETextureResourceType_ImageAsset\<rparr>"

definition SetEntityComponentId :: "string \<Rightarrow> texture_info \<Rightarrow> texture_info" where
  "SetEntityComponentId ComponentId t = t\<lparr>ti_EntityComponentId := ComponentId, ti_SourceType := ETextureResourceType_Component\<rparr>"

definition TextureInfo_of_asset :: "string \<Rightarrow> string \<Rightarrow> texture_info" where
  "TextureInfo_of_asset InAssetCollectionId InAssetId = SetCollectionAndAssetId InAssetCollectionId InAssetId TextureInfo_new"

definition TextureInfo_of_component :: "string \<Rightarrow> texture_info" where
  "TextureInfo_of_component ComponentId = SetEntityComponentId ComponentId TextureInfo_new"

definition SetTexture :: "bool \<Rightarrow> texture_info \<Rightarrow> texture_info" where "SetTexture Value t = t\<lparr>ti_Set := Value\<rparr>"

definition SerializeInt32 :: "u32 \<Rightarrow> document" where "SerializeInt32 Value = JInt (sint Value)"
definition SerializeVec2 :: "float32 \<times> float32 \<Rightarrow> document" where
  "SerializeVec2 v = SerializeArray SerializeFloat [fst v, snd v]"
definition SerializeVec3 :: "float32 \<times> float32 \<times> float32 \<Rightarrow> document" where
  "SerializeVec3 v = (case v of (x, y, z) \<Rightarrow> SerializeArray SerializeFloat [x, y, z])"
definition SerializeVec4 :: "float32 \<times> float32 \<times> float32 \<times> float32 \<Rightarrow> document" where
  "SerializeVec4 v = (case v of (x, y, z, w) \<Rightarrow> SerializeArray SerializeFloat [x, y, z, w])"

definition ToJson_texture :: "texture_info \<Rightarrow> members \<Rightarrow> members" where
  "ToJson_texture t ms =
     (if ti_SourceType t = ETextureResourceType_ImageAsset
      then SerializeMember ''assetId'' (SerializeString (ti_AssetId t))
             (SerializeMember ''assetCollectionId'' (SerializeString (ti_AssetCollectionId t)) ms)
      else SerializeMember ''entityComponentId'' (SerializeString (ti_EntityComponentId t)) ms)
     @ [(''sourceType'', SerializeUint32 (ti_SourceType t)), (''uvOffset'', SerializeVec2 (ti_UVOffset t)),
        (''uvRotation'', SerializeFloat (ti_UVRotation t)), (''uvScale'', SerializeVec2 (ti_UVScale t)),
        (''texCoord'', SerializeInt32 (ti_TexCoord t)), (''stereoVideoType'', SerializeUint32 (ti_StereoVideoType t)),
        (''isStereoFlipped'', JBool (ti_IsStereoFlipped t))]"

definition FromJson_texture :: "texture_info \<Rightarrow> document \<Rightarrow> texture_info option" where
  "FromJson_texture Obj d = do {
     SourceType \<leftarrow> fresh_member TryUint ''sourceType'' d;
     Obj \<leftarrow> (if SourceType = ETextureResourceType_ImageAsset
        then do {
          CollectionId \<leftarrow> member doc_String ''assetCollectionId'' (ti_AssetCollectionId Obj) d;
          AssetId \<leftarrow> member doc_String ''assetId'' (ti_AssetId Obj) d;
          Some (Obj\<lparr>ti_SourceType := SourceType, ti_AssetCollectionId := CollectionId, ti_AssetId := AssetId\<rparr>) }
        else do {
          ComponentId \<leftarrow> member doc_String ''entityComponentId'' (ti_EntityComponentId Obj) d;
          Some (Obj\<lparr>ti_SourceType := SourceType, ti_EntityComponentId := ComponentId\<rparr>) });
     UVOffsetArray \<leftarrow> member (doc_Array doc_float) ''uvOffset'' [] d;
     UVOffset \<leftarrow> vector2_of UVOffsetArray;
     UVRotation \<leftarrow> member doc_float ''uvRotation'' (ti_UVRotation Obj) d;
     UVScaleArray \<leftarrow> member (doc_Array doc_float) ''uvScale'' [] d;
     UVScale \<leftarrow> vector2_of UVScaleArray;
     TexCoord \<leftarrow> member doc_int ''texCoord'' (ti_TexCoord Obj) d;
     StereoVideoType \<leftarrow> fresh_member TryUint ''stereoVideoType'' d;
     IsStereoFlipped \<leftarrow> member doc_bool ''isStereoFlipped'' (ti_IsStereoFlipped Obj) d;
     Some (Obj\<lparr>ti_UVOffset := UVOffset, ti_UVRotation := UVRotation, ti_UVScale := UVScale, ti_TexCoord := TexCoord,
       ti_StereoVideoType := StereoVideoType, ti_IsStereoFlipped := IsStereoFlipped\<rparr>) }"

section \<open>Materials\<close>

definition EShaderType_Standard :: u32 where "EShaderType_Standard = 0"
definition EShaderType_AlphaVideo :: u32 where "EShaderType_AlphaVideo = 1"

record material =
  ma_Name :: string
  ma_Type :: u32
  ma_Version :: u32
  ma_CollectionId :: string
  ma_Id :: string

record gltf_material = material +
  gm_AlphaMode :: u32
  gm_AlphaCutoff :: float32
  gm_IsDoubleSided :: bool
  gm_BaseColorFactor :: "float32 \<times> float32 \<times> float32 \<times> float32"
  gm_MetallicFactor :: float32
  gm_RoughnessFactor :: float32
  gm_EmissiveFactor :: "float32 \<times> float32 \<times> float32"
  gm_EmissiveStrength :: float32
  gm_BaseColorTexture :: texture_info
  gm_MetallicRoughnessTexture :: texture_info
  gm_NormalTexture :: texture_info
  gm_OcclusionTexture :: texture_info
  gm_EmissiveTexture :: texture_info

record alpha_material = material +
  am_ColorTexture :: texture_info
  am_IsDoubleSided :: bool
  am_IsEmissive :: bool
  am_ReadAlphaFromChannel :: u32
  am_BlendMode :: u32
  am_FresnelFactor :: float32
  am_MaterialTint :: "float32 \<times> float32 \<times> float32"
  am_AlphaFactor :: float32
  am_EmissiveIntensity :: float32
  am_AlphaMask :: float32

abbreviation unset_texture :: texture_info where "unset_texture \<equiv> SetTexture False TextureInfo_new"

definition GLTFMaterial_new :: "string \<Rightarrow> string \<Rightarrow> string \<Rightarrow> gltf_material" where
  "GLTFMaterial_new Name AssetCollectionId AssetId =
     \<lparr>ma_Name = Name, ma_Type = EShaderType_Standard, ma_Version = 2, ma_CollectionId = AssetCollectionId, ma_Id = AssetId,
      gm_AlphaMode = 0, gm_AlphaCutoff = 0x3F000000, gm_IsDoubleSided = False,
      gm_BaseColorFactor = (float_one, float_one, float_one, float_one), gm_MetallicFactor = float_one, gm_RoughnessFactor = float_one,
      gm_EmissiveFactor = (0, 0, 0), gm_EmissiveStrength = float_one, gm_BaseColorTexture = unset_texture,
      gm_MetallicRoughnessTexture = unset_texture, gm_NormalTexture = unset_texture, gm_OcclusionTexture = unset_texture,
      gm_EmissiveTexture = unset_texture\<rparr>"

definition AlphaVideoMaterial_new :: "string \<Rightarrow> string \<Rightarrow> string \<Rightarrow> alpha_material" where
  "AlphaVideoMaterial_new Name AssetCollectionId AssetId =
     \<lparr>ma_Name = Name, ma_Type = EShaderType_AlphaVideo, ma_Version = 1, ma_CollectionId = AssetCollectionId, ma_Id = AssetId,
      am_ColorTexture = unset_texture, am_IsDoubleSided = False, am_IsEmissive = True, am_ReadAlphaFromChannel = 3, am_BlendMode = 0,
      am_FresnelFactor = 0, am_MaterialTint = (float_one, float_one, float_one), am_AlphaFactor = float_one,
      am_EmissiveIntensity = float_one, am_AlphaMask = 0x3CA3D70A\<rparr>" \<comment> \<open>\<open>0.02f\<close>\<close>

definition texture_member :: "string \<Rightarrow> texture_info \<Rightarrow> members \<Rightarrow> members" where
  "texture_member Key t ms = (if ti_Set t then SerializeMember Key (SerializeObject (ToJson_texture t)) ms else ms)"

definition ToJson_gltf :: "gltf_material \<Rightarrow> members \<Rightarrow> members" where
  "ToJson_gltf Obj ms =
     texture_member ''emissiveTexture'' (gm_EmissiveTexture Obj)
    (texture_member ''occlusionTexture'' (gm_OcclusionTexture Obj)
    (texture_member ''normalTexture'' (gm_NormalTexture Obj)
    (texture_member ''metallicRoughnessTexture'' (gm_MetallicRoughnessTexture Obj)
    (texture_member ''baseColorTexture'' (gm_BaseColorTexture Obj)
       (ms @ [(''name'', SerializeString (ma_Name Obj)), (''shaderType'', SerializeUint32 (ma_Type Obj)),
          (''version'', SerializeInt32 (ma_Version Obj)), (''alphaMode'', SerializeUint32 (gm_AlphaMode Obj)),
          (''alphaCutoff'', SerializeFloat (gm_AlphaCutoff Obj)), (''doubleSided'', JBool (gm_IsDoubleSided Obj)),
          (''baseColorFactor'', SerializeVec4 (gm_BaseColorFactor Obj)), (''metallicFactor'', SerializeFloat (gm_MetallicFactor Obj)),
          (''roughnessFactor'', SerializeFloat (gm_RoughnessFactor Obj)), (''emissiveFactor'', SerializeVec3 (gm_EmissiveFactor Obj)),
          (''emissiveStrength'', SerializeFloat (gm_EmissiveStrength Obj))])))))"

text \<open>A texture that is read is set, whatever it was before.\<close>

definition doc_texture :: "string \<Rightarrow> texture_info \<Rightarrow> document \<Rightarrow> texture_info option" where
  "doc_texture Key t d =
     map_option (\<lambda>(found, t). if found then SetTexture True t else t) (SafeDeserializeMember (FromJson_texture t) Key t d)"

definition FromJson_gltf :: "gltf_material \<Rightarrow> document \<Rightarrow> gltf_material option" where
  "FromJson_gltf Obj d = do {
     Name \<leftarrow> member doc_String ''name'' (ma_Name Obj) d;
     ShaderType \<leftarrow> fresh_member TryUint ''shaderType'' d;
     Version \<leftarrow> member doc_int ''version'' (ma_Version Obj) d;
     AlphaMode \<leftarrow> fresh_member TryUint ''alphaMode'' d;
     AlphaCutoff \<leftarrow> member doc_float ''alphaCutoff'' (gm_AlphaCutoff Obj) d;
     IsDoubleSided \<leftarrow> member doc_bool ''doubleSided'' (gm_IsDoubleSided Obj) d;
     BaseColorFactor \<leftarrow> member (doc_vector vector4_of) ''baseColorFactor'' (gm_BaseColorFactor Obj) d;
     MetallicFactor \<leftarrow> member doc_float ''metallicFactor'' (gm_MetallicFactor Obj) d;
     RoughnessFactor \<leftarrow> member doc_float ''roughnessFactor'' (gm_RoughnessFactor Obj) d;
     EmissiveFactor \<leftarrow> member (doc_vector vector3_of) ''emissiveFactor'' (gm_EmissiveFactor Obj) d;
     EmissiveStrength \<leftarrow> member doc_float ''emissiveStrength'' (gm_EmissiveStrength Obj) d;
     BaseColorTexture \<leftarrow> doc_texture ''baseColorTexture'' (gm_BaseColorTexture Obj) d;
     MetallicRoughnessTexture \<leftarrow> doc_texture ''metallicRoughnessTexture'' (gm_MetallicRoughnessTexture Obj) d;
     NormalTexture \<leftarrow> doc_texture ''normalTexture'' (gm_NormalTexture Obj) d;
     OcclusionTexture \<leftarrow> doc_texture ''occlusionTexture'' (gm_OcclusionTexture Obj) d;
     EmissiveTexture \<leftarrow> doc_texture ''emissiveTexture'' (gm_EmissiveTexture Obj) d;
     Some (Obj\<lparr>ma_Name := Name, ma_Type := ShaderType, ma_Version := Version, gm_AlphaMode := AlphaMode, gm_AlphaCutoff := AlphaCutoff,
       gm_IsDoubleSided := IsDoubleSided, gm_BaseColorFactor := BaseColorFactor, gm_MetallicFactor := MetallicFactor,
       gm_RoughnessFactor := RoughnessFactor, gm_EmissiveFactor := EmissiveFactor, gm_EmissiveStrength := EmissiveStrength,
       gm_BaseColorTexture := BaseColorTexture, gm_MetallicRoughnessTexture := MetallicRoughnessTexture,
       gm_NormalTexture := NormalTexture, gm_OcclusionTexture := OcclusionTexture, gm_EmissiveTexture := EmissiveTexture\<rparr>) }"

definition ToJson_alpha :: "alpha_material \<Rightarrow> members \<Rightarrow> members" where
  "ToJson_alpha Obj ms =
     texture_member ''colorTexture'' (am_ColorTexture Obj)
       (ms @ [(''name'', SerializeString (ma_Name Obj)), (''shaderType'', SerializeUint32 (ma_Type Obj)),
          (''version'', SerializeInt32 (ma_Version Obj))])
     @ [(''doubleSided'', JBool (am_IsDoubleSided Obj)), (''isEmissive'', JBool (am_IsEmissive Obj)),
        (''readAlphaFromChannel'', SerializeUint32 (am_ReadAlphaFromChannel Obj)), (''blendMode'', SerializeUint32 (am_BlendMode Obj)),
        (''fresnelFactor'', SerializeFloat (am_FresnelFactor Obj)), (''tint'', SerializeVec3 (am_MaterialTint Obj)),
        (''emissiveIntensity'', SerializeFloat (am_EmissiveIntensity Obj)), (''alphaFactor'', SerializeFloat (am_AlphaFactor Obj)),
        (''alphaMask'', SerializeFloat (am_AlphaMask Obj))]"

definition FromJson_alpha :: "alpha_material \<Rightarrow> document \<Rightarrow> alpha_material option" where
  "FromJson_alpha Obj d = do {
     Name \<leftarrow> member doc_String ''name'' (ma_Name Obj) d;
     ShaderType \<leftarrow> fresh_member TryUint ''shaderType'' d;
     Version \<leftarrow> member doc_int ''version'' (ma_Version Obj) d;
     ColorTexture \<leftarrow> doc_texture ''colorTexture'' (am_ColorTexture Obj) d;
     IsDoubleSided \<leftarrow> member doc_bool ''doubleSided'' (am_IsDoubleSided Obj) d;
     IsEmissive \<leftarrow> member doc_bool ''isEmissive'' (am_IsEmissive Obj) d;
     ReadAlphaFromChannel \<leftarrow> fresh_member TryUint ''readAlphaFromChannel'' d;
     BlendMode \<leftarrow> fresh_member TryUint ''blendMode'' d;
     FresnelFactor \<leftarrow> member doc_float ''fresnelFactor'' (am_FresnelFactor Obj) d;
     MaterialTint \<leftarrow> member (doc_vector vector3_of) ''tint'' (am_MaterialTint Obj) d;
     EmissiveIntensity \<leftarrow> member doc_float ''emissiveIntensity'' (am_EmissiveIntensity Obj) d;
     AlphaFactor \<leftarrow> member doc_float ''alphaFactor'' (am_AlphaFactor Obj) d;
     AlphaMask \<leftarrow> member doc_float ''alphaMask'' (am_AlphaMask Obj) d;
     Some (Obj\<lparr>ma_Name := Name, ma_Type := ShaderType, ma_Version := Version, am_ColorTexture := ColorTexture,
       am_IsDoubleSided := IsDoubleSided, am_IsEmissive := IsEmissive, am_ReadAlphaFromChannel := ReadAlphaFromChannel,
       am_BlendMode := BlendMode, am_FresnelFactor := FresnelFactor, am_MaterialTint := MaterialTint,
       am_EmissiveIntensity := EmissiveIntensity, am_AlphaFactor := AlphaFactor, am_AlphaMask := AlphaMask\<rparr>) }"

section \<open>Materials of either type\<close>

datatype material_obj = Gltf_object gltf_material | Alpha_object alpha_material

definition InstantiateMaterialOfType :: "u32 \<Rightarrow> string \<Rightarrow> string \<Rightarrow> string \<Rightarrow> material_obj option" where
  "InstantiateMaterialOfType ShaderType Name AssetCollectionId AssetId =
     (if ShaderType = EShaderType_Standard then Some (Gltf_object (GLTFMaterial_new Name AssetCollectionId AssetId))
      else if ShaderType = EShaderType_AlphaVideo then Some (Alpha_object (AlphaVideoMaterial_new Name AssetCollectionId AssetId))
      else None)"

text \<open>The casts are unchecked: a type that is not that of the object has no result.\<close>

definition SerializeMaterialOfType :: "(document \<Rightarrow> string) \<Rightarrow> u32 \<Rightarrow> material_obj \<Rightarrow> string option" where
  "SerializeMaterialOfType print_json ShaderType m =
     (case m of
        Gltf_object g \<Rightarrow> if ShaderType = EShaderType_Standard then Some (print_json (SerializeObject (ToJson_gltf g))) else None
      | Alpha_object a \<Rightarrow> if ShaderType = EShaderType_AlphaVideo then Some (print_json (SerializeObject (ToJson_alpha a))) else None)"

text \<open>\<open>Some None\<close> is the text that is not JSON.\<close>

definition DeserializeIntoMaterialOfType :: "(string \<Rightarrow> document option) \<Rightarrow> string \<Rightarrow> u32 \<Rightarrow> material_obj \<Rightarrow> material_obj option option" where
  "DeserializeIntoMaterialOfType parse_json MaterialData ShaderType m =
     (case m of
        Gltf_object g \<Rightarrow>
          if ShaderType \<noteq> EShaderType_Standard then None
          else (case parse_json MaterialData of None \<Rightarrow> Some None | Some d \<Rightarrow> map_option (\<lambda>g. Some (Gltf_object g)) (FromJson_gltf g d))
      | Alpha_object a \<Rightarrow>
          if ShaderType \<noteq> EShaderType_AlphaVideo then None
          else (case parse_json MaterialData of None \<Rightarrow> Some None | Some d \<Rightarrow> map_option (\<lambda>a. Some (Alpha_object a)) (FromJson_alpha a d)))"

definition ConvertShaderTypeToString :: "u32 \<Rightarrow> string option" where
  "ConvertShaderTypeToString ShaderType =
     (if ShaderType = EShaderType_Standard then Some ''Standard''
      else if ShaderType = EShaderType_AlphaVideo then Some ''AlphaVideo'' else None)"

definition ConvertStringToShaderType :: "string \<Rightarrow> u32 option" where
  "ConvertStringToShaderType ShaderType =
     (if String_eq ShaderType ''AlphaVideo'' then Some EShaderType_AlphaVideo
      else if String_eq ShaderType ''Standard'' then Some EShaderType_Standard else None)"

definition GetShaderTypeFromMaterialCollection :: "(string, string) omap \<Rightarrow> u32 option" where
  "GetShaderTypeFromMaterialCollection Metadata =
     (case map_of Metadata ''ShaderType'' of
        Some v \<Rightarrow> ConvertStringToShaderType v
      | None \<Rightarrow> Some EShaderType_Standard)"

text \<open>What \<open>GetMaterialFromUri\<close> reports, from the metadata of the collection and the downloaded data.\<close>

datatype material_report = Invalid_material | Material_code EResultCode | Found_material material_obj

definition GetMaterialFromUri :: "(string \<Rightarrow> document option) \<Rightarrow> (string, string) omap \<Rightarrow> string \<Rightarrow> string \<Rightarrow> EResultCode \<Rightarrow> string \<Rightarrow> material_report option" where
  "GetMaterialFromUri parse_json Metadata AssetCollectionId AssetId code MaterialData =
     (case GetShaderTypeFromMaterialCollection Metadata of
        None \<Rightarrow> Some Invalid_material
      | Some ShaderType \<Rightarrow>
          if code \<noteq> RC_Success then Some (Material_code code)
          else Option.bind (InstantiateMaterialOfType ShaderType [] AssetCollectionId AssetId) (\<lambda>m.
               case DeserializeIntoMaterialOfType parse_json (c_str MaterialData) ShaderType m of
                 None \<Rightarrow> None
               | Some None \<Rightarrow> Some Invalid_material
               | Some (Some m) \<Rightarrow> Some (Found_material m)))"

definition CreateUniqueMaterialAssetCollectionName :: "string \<Rightarrow> string \<Rightarrow> string" where
  "CreateUniqueMaterialAssetCollectionName Name SpaceId = ''ASSET_COLLECTION_MATERIAL_'' @ SpaceId @ ''_'' @ Name"
definition CreateUniqueMaterialAssetName :: "string \<Rightarrow> string \<Rightarrow> string" where
  "CreateUniqueMaterialAssetName Name SpaceId = ''ASSET_MATERIAL_'' @ SpaceId @ ''_'' @ Name"
definition CreateUniqueMaterialFileName :: "string \<Rightarrow> string \<Rightarrow> string" where
  "CreateUniqueMaterialFileName Name SpaceId = ''ASSET_MATERIAL_FILE_'' @ SpaceId @ ''_'' @ Name @ ''.json''"

section \<open>What is read is what was written\<close>

lemma sint_u32_range: "- (2 ^ 31) \<le> sint (i :: u32)" "sint (i :: u32) < 2 ^ 31"
  using sint_range_size [of i] by (simp_all add: word_size)

lemma uint_u32_less: "uint (i :: u32) < 2 ^ 32"
proof -
  have "uint i < 2 ^ LENGTH(32)" by (rule unsigned_less)
  then show ?thesis by simp
qed

lemma read_written:
  assumes "faithful reread"
  shows "nul_free s \<Longrightarrow> doc_String (map_json reread (SerializeString s)) = Some s"
    "doc_int (map_json reread (SerializeInt32 i)) = Some i" "TryUint (map_json reread (SerializeUint32 i)) = Some i"
    "f32_finite x \<Longrightarrow> doc_float (map_json reread (SerializeFloat x)) = Some x"
    "f32_finite (fst p) \<Longrightarrow> f32_finite (snd p) \<Longrightarrow> doc_Array doc_float (map_json reread (SerializeVec2 p)) = Some [fst p, snd p]"
    "f32_finite a \<Longrightarrow> f32_finite b \<Longrightarrow> f32_finite c \<Longrightarrow> doc_vector vector3_of (map_json reread (SerializeVec3 (a, b, c))) = Some (a, b, c)"
    "f32_finite a \<Longrightarrow> f32_finite b \<Longrightarrow> f32_finite c \<Longrightarrow> f32_finite e
      \<Longrightarrow> doc_vector vector4_of (map_json reread (SerializeVec4 (a, b, c, e))) = Some (a, b, c, e)"
  using assms sint_u32_range [of i] uint_u32_less [of i]
  by (simp_all add: faithful_def SerializeString_def SerializeInt32_def SerializeUint32_def SerializeFloat_def doc_float_def
      SerializeVec2_def SerializeVec3_def SerializeVec4_def SerializeArray_def doc_vector_def vector3_of_def vector4_of_def)

lemma map_json_object: "map_json f (JObject ms) = JObject (map (map_prod id (map_json f)) ms)"
  by simp

lemma map_of_documents: "map_of (map (map_prod id f) ms) k = map_option f (map_of ms k)"
  by (induction ms) auto

lemma map_option_bind_snd: "Option.bind (map_option (\<lambda>x. (True, Some x)) y) snd = y"
  by (cases y) auto

text \<open>Reading a member of a written object.\<close>

lemma member_written:
  "member r k v (map_json f (JObject ms)) = (case map_of ms k of None \<Rightarrow> Some v | Some d \<Rightarrow> r (map_json f d))"
  "fresh_member r k (map_json f (JObject ms)) = (case map_of ms k of None \<Rightarrow> None | Some d \<Rightarrow> r (map_json f d))"
  "doc_texture k t (map_json f (JObject ms))
    = (case map_of ms k of None \<Rightarrow> Some t | Some d \<Rightarrow> map_option (SetTexture True) (FromJson_texture t (map_json f d)))"
  unfolding map_json_object
  by (auto simp: member_def fresh_member_def doc_texture_def SafeDeserializeMember_def map_of_documents option.map_comp comp_def
      option.map_ident map_option_bind_snd split: option.split)

definition printable_texture :: "texture_info \<Rightarrow> bool" where
  "printable_texture t \<longleftrightarrow> nul_free (ti_AssetCollectionId t) \<and> nul_free (ti_AssetId t) \<and> nul_free (ti_EntityComponentId t)
     \<and> f32_finite (fst (ti_UVOffset t)) \<and> f32_finite (snd (ti_UVOffset t)) \<and> f32_finite (ti_UVRotation t)
     \<and> f32_finite (fst (ti_UVScale t)) \<and> f32_finite (snd (ti_UVScale t))"

text \<open>
  What is kept of a texture: nothing when it is not set, otherwise all but the address of the kind of
  source that it does not have.
\<close>

definition kept_texture :: "texture_info \<Rightarrow> texture_info" where
  "kept_texture t =
     (if \<not> ti_Set t then unset_texture
      else if ti_SourceType t = ETextureResourceType_ImageAsset then t\<lparr>ti_EntityComponentId := []\<rparr>
      else t\<lparr>ti_AssetCollectionId := [], ti_AssetId := []\<rparr>)"

lemma texture_read:
  assumes "printable_texture t" "faithful reread" "ti_Set t"
  shows "map_option (SetTexture True) (FromJson_texture unset_texture (map_json reread (SerializeObject (ToJson_texture t)))) = Some (kept_texture t)"
proof (cases "ti_SourceType t = ETextureResourceType_ImageAsset")
  case True
  note r = read_written [OF assms(2)]
  have "FromJson_texture unset_texture (map_json reread (JObject (ToJson_texture t [])))
    = Some ((SetTexture False t)\<lparr>ti_EntityComponentId := []\<rparr>)"
    unfolding FromJson_texture_def member_written
    using assms(1) True
    by (simp add: ToJson_texture_def SerializeMember_def r printable_texture_def vector2_of_def SetTexture_def TextureInfo_new_def)
  then show ?thesis using True assms(3) by (simp add: SerializeObject_def kept_texture_def SetTexture_def)
next
  case False
  note r = read_written [OF assms(2)]
  have "FromJson_texture unset_texture (map_json reread (JObject (ToJson_texture t [])))
    = Some ((SetTexture False t)\<lparr>ti_AssetCollectionId := [], ti_AssetId := []\<rparr>)"
    unfolding FromJson_texture_def member_written
    using assms(1) False
    by (simp add: ToJson_texture_def SerializeMember_def r printable_texture_def vector2_of_def SetTexture_def TextureInfo_new_def)
  then show ?thesis using False assms(3) by (simp add: SerializeObject_def kept_texture_def SetTexture_def)
qed

lemma map_of_texture_member:
  "map_of (texture_member Key t ms) k
    = (case map_of ms k of Some d \<Rightarrow> Some d
       | None \<Rightarrow> if ti_Set t \<and> k = Key then Some (SerializeObject (ToJson_texture t)) else None)"
  by (simp add: texture_member_def SerializeMember_def map_add_def split: option.split)

definition printable_gltf :: "gltf_material \<Rightarrow> bool" where
  "printable_gltf g \<longleftrightarrow> nul_free (ma_Name g)
     \<and> list_all f32_finite [gm_AlphaCutoff g, gm_MetallicFactor g, gm_RoughnessFactor g, gm_EmissiveStrength g]
     \<and> (case gm_BaseColorFactor g of (a, b, c, e) \<Rightarrow> list_all f32_finite [a, b, c, e])
     \<and> (case gm_EmissiveFactor g of (a, b, c) \<Rightarrow> list_all f32_finite [a, b, c])
     \<and> list_all printable_texture [gm_BaseColorTexture g, gm_MetallicRoughnessTexture g, gm_NormalTexture g, gm_OcclusionTexture g, gm_EmissiveTexture g]"

definition printable_alpha :: "alpha_material \<Rightarrow> bool" where
  "printable_alpha a \<longleftrightarrow> nul_free (ma_Name a) \<and> printable_texture (am_ColorTexture a)
     \<and> list_all f32_finite [am_FresnelFactor a, am_AlphaFactor a, am_EmissiveIntensity a, am_AlphaMask a]
     \<and> (case am_MaterialTint a of (x, y, z) \<Rightarrow> list_all f32_finite [x, y, z])"

definition kept_gltf :: "gltf_material \<Rightarrow> gltf_material" where
  "kept_gltf g = g\<lparr>gm_BaseColorTexture := kept_texture (gm_BaseColorTexture g),
     gm_MetallicRoughnessTexture := kept_texture (gm_MetallicRoughnessTexture g), gm_NormalTexture := kept_texture (gm_NormalTexture g),
     gm_OcclusionTexture := kept_texture (gm_OcclusionTexture g), gm_EmissiveTexture := kept_texture (gm_EmissiveTexture g)\<rparr>"

definition kept_alpha :: "alpha_material \<Rightarrow> alpha_material" where
  "kept_alpha a = a\<lparr>am_ColorTexture := kept_texture (am_ColorTexture a)\<rparr>"

text \<open>A texture member of a written material, by whether it is there.\<close>

lemma texture_member_read:
  assumes "printable_texture t" "faithful reread"
    "map_of ms Key = (if ti_Set t then Some (SerializeObject (ToJson_texture t)) else None)"
  shows "doc_texture Key unset_texture (map_json reread (JObject ms)) = Some (kept_texture t)"
proof (cases "ti_Set t")
  case True
  then show ?thesis using assms(3) texture_read [OF assms(1,2) True] unfolding member_written by simp
next
  case False
  then show ?thesis using assms(3) unfolding member_written by (simp add: kept_texture_def)
qed

lemma gltf_read:
  assumes "printable_gltf g" "faithful reread"
  shows "FromJson_gltf (GLTFMaterial_new [] (ma_CollectionId g) (ma_Id g)) (map_json reread (SerializeObject (ToJson_gltf g))) = Some (kept_gltf g)"
proof -
  define d where "d = map_json reread (JObject (ToJson_gltf g []))"
  note r = read_written [OF assms(2)] and m = ToJson_gltf_def map_of_texture_member
  obtain a b c e where base: "gm_BaseColorFactor g = (a, b, c, e)" by (cases "gm_BaseColorFactor g")
  obtain x y z where emis: "gm_EmissiveFactor g = (x, y, z)" by (cases "gm_EmissiveFactor g")
  note ok = assms(1) [unfolded printable_gltf_def base emis, simplified]
  have written: "member doc_String ''name'' v1 d = Some (ma_Name g)" "fresh_member TryUint ''shaderType'' d = Some (ma_Type g)"
    "member doc_int ''version'' v2 d = Some (ma_Version g)" "fresh_member TryUint ''alphaMode'' d = Some (gm_AlphaMode g)"
    "member doc_float ''alphaCutoff'' v3 d = Some (gm_AlphaCutoff g)" "member doc_bool ''doubleSided'' v4 d = Some (gm_IsDoubleSided g)"
    "member (doc_vector vector4_of) ''baseColorFactor'' v5 d = Some (gm_BaseColorFactor g)"
    "member doc_float ''metallicFactor'' v3 d = Some (gm_MetallicFactor g)"
    "member doc_float ''roughnessFactor'' v3 d = Some (gm_RoughnessFactor g)"
    "member (doc_vector vector3_of) ''emissiveFactor'' v6 d = Some (gm_EmissiveFactor g)"
    "member doc_float ''emissiveStrength'' v3 d = Some (gm_EmissiveStrength g)" for v1 v2 v3 v4 v5 v6
    unfolding d_def member_written using ok by (simp_all add: m r base emis)
  have textures: "doc_texture ''baseColorTexture'' unset_texture d = Some (kept_texture (gm_BaseColorTexture g))"
    "doc_texture ''metallicRoughnessTexture'' unset_texture d = Some (kept_texture (gm_MetallicRoughnessTexture g))"
    "doc_texture ''normalTexture'' unset_texture d = Some (kept_texture (gm_NormalTexture g))"
    "doc_texture ''occlusionTexture'' unset_texture d = Some (kept_texture (gm_OcclusionTexture g))"
    "doc_texture ''emissiveTexture'' unset_texture d = Some (kept_texture (gm_EmissiveTexture g))"
    using ok unfolding d_def by (intro texture_member_read [OF _ assms(2)]; simp add: m)+
  have "FromJson_gltf (GLTFMaterial_new [] (ma_CollectionId g) (ma_Id g)) d = Some (kept_gltf g)"
    by (simp add: FromJson_gltf_def written GLTFMaterial_new_def textures kept_gltf_def)
  then show ?thesis by (simp add: SerializeObject_def d_def)
qed

lemma alpha_read:
  assumes "printable_alpha a" "faithful reread"
  shows "FromJson_alpha (AlphaVideoMaterial_new [] (ma_CollectionId a) (ma_Id a)) (map_json reread (SerializeObject (ToJson_alpha a))) = Some (kept_alpha a)"
proof -
  define d where "d = map_json reread (JObject (ToJson_alpha a []))"
  note r = read_written [OF assms(2)] and m = ToJson_alpha_def map_of_texture_member
  obtain x y z where tint: "am_MaterialTint a = (x, y, z)" by (cases "am_MaterialTint a")
  note ok = assms(1) [unfolded printable_alpha_def tint, simplified]
  have written: "member doc_String ''name'' v1 d = Some (ma_Name a)" "fresh_member TryUint ''shaderType'' d = Some (ma_Type a)"
    "member doc_int ''version'' v2 d = Some (ma_Version a)" "member doc_bool ''doubleSided'' v4 d = Some (am_IsDoubleSided a)"
    "member doc_bool ''isEmissive'' v4 d = Some (am_IsEmissive a)"
    "fresh_member TryUint ''readAlphaFromChannel'' d = Some (am_ReadAlphaFromChannel a)"
    "fresh_member TryUint ''blendMode'' d = Some (am_BlendMode a)" "member doc_float ''fresnelFactor'' v3 d = Some (am_FresnelFactor a)"
    "member (doc_vector vector3_of) ''tint'' v5 d = Some (am_MaterialTint a)"
    "member doc_float ''emissiveIntensity'' v3 d = Some (am_EmissiveIntensity a)"
    "member doc_float ''alphaFactor'' v3 d = Some (am_AlphaFactor a)" "member doc_float ''alphaMask'' v3 d = Some (am_AlphaMask a)"
    for v1 v2 v3 v4 v5
    unfolding d_def member_written using ok by (simp_all add: m r tint map_add_def)
  have texture: "doc_texture ''colorTexture'' unset_texture d = Some (kept_texture (am_ColorTexture a))"
    using ok unfolding d_def by (intro texture_member_read [OF _ assms(2)]; simp add: m map_add_def)
  have "FromJson_alpha (AlphaVideoMaterial_new [] (ma_CollectionId a) (ma_Id a)) d = Some (kept_alpha a)"
    by (simp add: FromJson_alpha_def written AlphaVideoMaterial_new_def texture kept_alpha_def)
  then show ?thesis by (simp add: SerializeObject_def d_def)
qed

section \<open>Stored and read back\<close>

fun object_material :: "material_obj \<Rightarrow> material" where
  "object_material (Gltf_object g) = \<lparr>ma_Name = ma_Name g, ma_Type = ma_Type g, ma_Version = ma_Version g, ma_CollectionId = ma_CollectionId g, ma_Id = ma_Id g\<rparr>"
| "object_material (Alpha_object a) = \<lparr>ma_Name = ma_Name a, ma_Type = ma_Type a, ma_Version = ma_Version a, ma_CollectionId = ma_CollectionId a, ma_Id = ma_Id a\<rparr>"

fun kept_material :: "material_obj \<Rightarrow> material_obj" where
  "kept_material (Gltf_object g) = Gltf_object (kept_gltf g)"
| "kept_material (Alpha_object a) = Alpha_object (kept_alpha a)"

fun material_document :: "material_obj \<Rightarrow> document" where
  "material_document (Gltf_object g) = SerializeObject (ToJson_gltf g)"
| "material_document (Alpha_object a) = SerializeObject (ToJson_alpha a)"

text \<open>The type a material says it has is that of its class, and JSON can carry what it holds.\<close>

fun printable_material :: "material_obj \<Rightarrow> bool" where
  "printable_material (Gltf_object g) \<longleftrightarrow> ma_Type g = EShaderType_Standard \<and> printable_gltf g"
| "printable_material (Alpha_object a) \<longleftrightarrow> ma_Type a = EShaderType_AlphaVideo \<and> printable_alpha a"

lemma shader_type_roundtrip:
  "ConvertShaderTypeToString ty = Some v \<Longrightarrow> ConvertStringToShaderType v = Some ty"
  by (auto simp: ConvertShaderTypeToString_def ConvertStringToShaderType_def String_eq_def c_str_def split: if_splits)

text \<open>
  C27. A material of either kind that is written to the service and fetched again is the same
  material: every factor bit by bit, every set texture with its source and its placement, the unset
  textures unset. Only the address of the kind of source that a texture does not have is forgotten. The
  collection's metadata names the type, and of RapidJSON it is assumed that it reads the document it
  printed, with doubles that narrow to the \<open>float\<close> they came from.
\<close>

theorem materials_survive_json:
  assumes "printable_material m" "faithful reread"
    "ConvertShaderTypeToString (ma_Type (object_material m)) = Some v" "map_of Metadata ''ShaderType'' = Some v"
    "parse_json (c_str (print_json (material_document m))) = Some (map_json reread (material_document m))"
  shows "\<exists>Json. SerializeMaterialOfType print_json (ma_Type (object_material m)) m = Some Json
    \<and> GetMaterialFromUri parse_json Metadata (ma_CollectionId (object_material m)) (ma_Id (object_material m)) RC_Success Json
        = Some (Found_material (kept_material m))"
proof -
  have ty: "GetShaderTypeFromMaterialCollection Metadata = Some (ma_Type (object_material m))"
    using shader_type_roundtrip [OF assms(3)] assms(4) by (simp add: GetShaderTypeFromMaterialCollection_def)
  show ?thesis
  proof (cases m)
    case (Gltf_object g)
    then show ?thesis using assms(1,5) ty gltf_read [OF _ assms(2), of g]
      by (simp add: SerializeMaterialOfType_def GetMaterialFromUri_def InstantiateMaterialOfType_def DeserializeIntoMaterialOfType_def)
  next
    case (Alpha_object a)
    then show ?thesis using assms(1,5) ty alpha_read [OF _ assms(2), of a]
      by (simp add: SerializeMaterialOfType_def GetMaterialFromUri_def InstantiateMaterialOfType_def DeserializeIntoMaterialOfType_def
          EShaderType_Standard_def EShaderType_AlphaVideo_def)
  qed
qed

lemma materials_survive_json_witness:
  "let m = Gltf_object ((GLTFMaterial_new ''wood'' ''c'' ''a'')\<lparr>gm_NormalTexture := TextureInfo_of_asset ''c'' ''t''\<rparr>);
       pr = (\<lambda>_. ''text''); pa = (\<lambda>t. if t = ''text'' then Some (material_document m) else None)
   in \<exists>Json. SerializeMaterialOfType pr 0 m = Some Json
     \<and> GetMaterialFromUri pa [(''ShaderType'', ''Standard'')] ''c'' ''a'' RC_Success Json = Some (Found_material m)"
proof -
  define m where "m = Gltf_object ((GLTFMaterial_new ''wood'' ''c'' ''a'')\<lparr>gm_NormalTexture := TextureInfo_of_asset ''c'' ''t''\<rparr>)"
  have o: "object_material m = \<lparr>ma_Name = ''wood'', ma_Type = 0, ma_Version = 2, ma_CollectionId = ''c'', ma_Id = ''a''\<rparr>"
    by (simp add: m_def GLTFMaterial_new_def EShaderType_Standard_def)
  have p: "printable_material m"
    by (simp add: m_def GLTFMaterial_new_def printable_gltf_def printable_texture_def nul_free_def TextureInfo_of_asset_def
        SetCollectionAndAssetId_def TextureInfo_new_def SetTexture_def f32_finite_def f32_exp_def float_one_def)
  have k: "kept_material m = m"
    by (simp add: m_def GLTFMaterial_new_def kept_gltf_def kept_texture_def TextureInfo_of_asset_def SetCollectionAndAssetId_def
        TextureInfo_new_def SetTexture_def)
  have "\<exists>Json. SerializeMaterialOfType (\<lambda>_. ''text'') (ma_Type (object_material m)) m = Some Json
    \<and> GetMaterialFromUri (\<lambda>t. if t = ''text'' then Some (material_document m) else None) [(''ShaderType'', ''Standard'')]
        (ma_CollectionId (object_material m)) (ma_Id (object_material m)) RC_Success Json = Some (Found_material (kept_material m))"
    by (rule materials_survive_json [OF p faithful_id, where v = "''Standard''"])
      (simp_all add: o ConvertShaderTypeToString_def EShaderType_Standard_def json.map_id0 c_str_def)
  then show ?thesis unfolding Let_def m_def [symmetric] by (simp add: o k)
qed

section \<open>What reading does not check\<close>

text \<open>
  A missing type is not noticed: the variable it would be read into is used without having been written.
\<close>

lemma missing_shader_type_is_undefined:
  "map_of ms ''shaderType'' = None \<Longrightarrow> FromJson_gltf g (JObject ms) = None"
  by (simp add: FromJson_gltf_def fresh_member_def SafeDeserializeMember_def split: bind_splits)

text \<open>A colour with three components is read past its end.\<close>

lemma short_colour_is_undefined: "doc_vector vector4_of (JArray [JInt 1, JInt 1, JInt 1]) = None"
  by (simp add: doc_vector_def doc_float_def vector4_of_def)

text \<open>
  The type in the document replaces that of the class: a material of the standard class that read
  type 1 is then cast to the other class when it is written.
\<close>

lemma document_type_replaces_class_type:
  assumes "FromJson_gltf g d = Some g'" "map_of ms ''shaderType'' = Some (JInt 1)" "d = JObject ms"
  shows "ma_Type g' = EShaderType_AlphaVideo \<and> SerializeMaterialOfType pr (ma_Type g') (Gltf_object g') = None"
proof -
  have "fresh_member TryUint ''shaderType'' d = Some 1"
    using assms(2,3) by (simp add: fresh_member_def SafeDeserializeMember_def)
  then have "ma_Type g' = 1" using assms(1) by (auto simp: FromJson_gltf_def split: bind_splits)
  then show ?thesis by (simp add: SerializeMaterialOfType_def EShaderType_Standard_def EShaderType_AlphaVideo_def)
qed

end
