(* ===== verification/Web_Client.thy ===== *)
theory Web_Client
  imports Csp_String
begin

text \<open>
  Web requests (\<open>src/Common/Web/WebClient.cpp\<close>, \<open>HttpRequest.cpp\<close>, \<open>HttpPayload.cpp\<close>): requests are
  queued for four worker threads, sent, retried when the service is unavailable, answered through
  their handler at once or when the client polls, and counted by references. An access token that is
  about to expire is refreshed by a request of its own (\<open>AuthContext::RefreshToken\<close> in
  \<open>src/Systems/Users/UserSystem.cpp\<close>), for which the workers wait. This is the build with threads, not
  the one for browsers.

  A request lives at an address, which is the number of requests made before it; an operation on a freed
  request has no result (\<open>None\<close>). The steps of the workers are operations of a run, in any order. What
  \<open>ProcessRequest\<close> does after a request has been sent is one step: a retry that it issues is held back
  for 100 ms, in which the step is taken to end. Sending is a parameter of the run: its outcome. The
  body of the request that refreshes the token is generated code; its headers are a field of the state.
  Reports of progress and log output are left out.
\<close>

section \<open>Requests\<close>

datatype handler = Client_handler | Refresh_handler

datatype cancel_token = Own_token nat | Client_token nat

record http_request =
  rq_Headers :: "(string, string) omap"
  RequiresBearerToken :: bool
  rq_Callback :: "handler option"
  rq_ResponseCode :: u16
  IsCallbackAsync :: bool
  IsAutoRetryEnabled :: bool
  RetryCount :: u32
  RefCount :: u32
  SendDelay :: nat
  rq_Token :: cancel_token

definition DefaultNumRequestRetries :: u32 where "DefaultNumRequestRetries = 4"

definition DefaultRetriesDelayInMs :: nat where "DefaultRetriesDelayInMs = 100"

definition CSP_MAX_CONCURRENT_REQUESTS :: nat where "CSP_MAX_CONCURRENT_REQUESTS = 4"

definition new_request :: "(string, string) omap \<Rightarrow> bool \<Rightarrow> handler option \<Rightarrow> cancel_token \<Rightarrow> bool \<Rightarrow> http_request" where
  "new_request Headers Bearer cb tok async =
     \<lparr>rq_Headers = Headers, RequiresBearerToken = Bearer, rq_Callback = cb, rq_ResponseCode = 404, IsCallbackAsync = async,
      IsAutoRetryEnabled = True, RetryCount = 0, RefCount = 0, SendDelay = 0, rq_Token = tok\<rparr>"

definition AddHeader :: "string \<Rightarrow> string \<Rightarrow> http_request \<Rightarrow> http_request" where
  "AddHeader Key Value r = r\<lparr>rq_Headers := omap_upd (c_str Key) (c_str Value) (rq_Headers r)\<rparr>"

text \<open>The header is written through a buffer of 1024 characters.\<close>

definition RefreshBearerToken :: "string \<Rightarrow> http_request \<Rightarrow> http_request" where
  "RefreshBearerToken Token r =
     (if \<not> RequiresBearerToken r then r
      else AddHeader ''Authorization'' (take 1023 (''Bearer '' @ c_str Token)) r)"

definition ResultCodeValidForRetry :: "u16 \<Rightarrow> bool" where
  "ResultCodeValidForRetry Status \<longleftrightarrow> Status = 429 \<or> Status = 408 \<or> 500 \<le> Status"

fun ReturnFirstDigit :: "nat \<Rightarrow> nat" where
  "ReturnFirstDigit x = (if 10 \<le> x then ReturnFirstDigit (x div 10) else x)"

declare ReturnFirstDigit.simps [simp del]

definition IsValidResponseCode :: "u16 \<Rightarrow> u16 \<Rightarrow> bool" where
  "IsValidResponseCode a b \<longleftrightarrow> ReturnFirstDigit (unat a) = ReturnFirstDigit (unat b)"

section \<open>The client\<close>

text \<open>
  Where a worker is in its job: waiting for a refresh to end, past the wait, about to mark the refresh as
  started, past the mark, holding back, and waiting for the outcome of sending.
\<close>

datatype job_phase = Job_waiting | Job_passed | Job_marking | Job_marked | Job_delaying | Job_sending

datatype web_event =
    Issued nat "handler option" bool cancel_token
  | Sent nat "(string, string) omap"
  | Responded nat u16

record web_client =
  wc_Heap :: "nat \<Rightarrow> http_request option"
  Allocated :: nat
  Requests :: "nat set"
  RequestCount :: u32
  Jobs :: "nat list"
  Running :: "(nat \<times> job_phase) list"
  PollRequests :: "nat list"
  CancelledTokens :: "cancel_token set"
  RefreshNeeded :: bool
  RefreshStarted :: bool
  AutoRefreshEnabled :: bool
  WAFBypassValue :: "string option"
  AccessToken :: string
  LoggedIn :: bool
  RefreshDue :: bool
  RefreshPayload :: "(string, string) omap \<times> bool"
  wc_Log :: "web_event list"

definition new_web_client :: "bool \<Rightarrow> (string, string) omap \<times> bool \<Rightarrow> web_client" where
  "new_web_client AutoRefresh payload =
     \<lparr>wc_Heap = (\<lambda>_. None), Allocated = 0, Requests = {}, RequestCount = 0, Jobs = [], Running = [], PollRequests = [],
      CancelledTokens = {}, RefreshNeeded = False, RefreshStarted = False, AutoRefreshEnabled = AutoRefresh, WAFBypassValue = None,
      AccessToken = [], LoggedIn = False, RefreshDue = False, RefreshPayload = payload, wc_Log = []\<rparr>"

definition wc_emit :: "web_event \<Rightarrow> web_client \<Rightarrow> web_client" where
  "wc_emit e w = w\<lparr>wc_Log := wc_Log w @ [e]\<rparr>"

definition upd_req :: "nat \<Rightarrow> (http_request \<Rightarrow> http_request) \<Rightarrow> web_client \<Rightarrow> web_client option" where
  "upd_req a f w = (case wc_Heap w a of None \<Rightarrow> None | Some r \<Rightarrow> Some (w\<lparr>wc_Heap := (wc_Heap w)(a \<mapsto> f r)\<rparr>))"

definition Cancelled :: "web_client \<Rightarrow> http_request \<Rightarrow> bool" where
  "Cancelled w r \<longleftrightarrow> rq_Token r \<in> CancelledTokens w"

text \<open>The constructor of a request: without a token of the client it has one of its own.\<close>

definition make_request ::
    "(string, string) omap \<Rightarrow> bool \<Rightarrow> handler option \<Rightarrow> nat option \<Rightarrow> bool \<Rightarrow> web_client \<Rightarrow> web_client" where
  "make_request Headers Bearer cb tok async w =
     (let a = Allocated w; t = (case tok of None \<Rightarrow> Own_token a | Some n \<Rightarrow> Client_token n);
          r = new_request Headers Bearer cb t async;
          r1 = (case WAFBypassValue w of None \<Rightarrow> r | Some v \<Rightarrow> AddHeader ''X-WAF-Bypass'' v r)
      in wc_emit (Issued a cb async t) (w\<lparr>wc_Heap := (wc_Heap w)(a \<mapsto> r1), Allocated := a + 1\<rparr>))"

text \<open>The part of \<open>AddRequest\<close> after the check of the token.\<close>

definition enqueue_request :: "nat \<Rightarrow> nat \<Rightarrow> web_client \<Rightarrow> web_client option" where
  "enqueue_request a Delay w = do {
     w1 \<leftarrow> upd_req a (\<lambda>r. r\<lparr>RefCount := RefCount r + 1, SendDelay := Delay\<rparr>) w;
     Some (w1\<lparr>Requests := insert a (Requests w1), RequestCount := RequestCount w1 + 1, Jobs := Jobs w1 @ [a]\<rparr>) }"

text \<open>
  The refresh is a request to the service. On its own way through \<open>AddRequest\<close> the token is not checked
  again, since \<open>RefreshNeeded\<close> is set.
\<close>

definition RefreshToken :: "web_client \<Rightarrow> web_client option" where
  "RefreshToken w =
     (if \<not> LoggedIn w then Some w
      else enqueue_request (Allocated w) 0
             (make_request (fst (RefreshPayload w)) (snd (RefreshPayload w)) (Some Refresh_handler) None True w))"

definition RefreshIfExpired :: "web_client \<Rightarrow> web_client option" where
  "RefreshIfExpired w =
     (if \<not> AutoRefreshEnabled w \<or> RefreshNeeded w then Some w
      else if RefreshDue w then RefreshToken (w\<lparr>RefreshNeeded := True\<rparr>)
      else Some w)"

definition AddRequest :: "nat \<Rightarrow> nat \<Rightarrow> web_client \<Rightarrow> web_client option" where
  "AddRequest a Delay w = Option.bind (RefreshIfExpired w) (enqueue_request a Delay)"

definition SendRequest ::
    "(string, string) omap \<Rightarrow> bool \<Rightarrow> bool \<Rightarrow> nat option \<Rightarrow> bool \<Rightarrow> web_client \<Rightarrow> web_client option" where
  "SendRequest Headers Bearer HasCallback tok AsyncResponse w =
     AddRequest (Allocated w) 0
       (make_request Headers Bearer (if HasCallback then Some Client_handler else None) tok AsyncResponse w)"

definition DestroyRequest :: "nat \<Rightarrow> web_client \<Rightarrow> web_client option" where
  "DestroyRequest a w = do {
     r \<leftarrow> wc_Heap w a;
     let w1 = w\<lparr>Requests := Requests w - {a}, RequestCount := RequestCount w - 1\<rparr>;
     Some (w1\<lparr>wc_Heap := (wc_Heap w1)(a := if RefCount r - 1 = 0 then None else Some (r\<lparr>RefCount := RefCount r - 1\<rparr>))\<rparr>) }"

section \<open>Answers\<close>

text \<open>
  The handler of the refresh (\<open>LoginStateResult::OnResponse\<close> and the callback of \<open>RefreshIfExpired\<close>). A
  successful answer carries the data of the login, unless it cannot be read.
\<close>

definition refresh_answered :: "u16 \<Rightarrow> string option \<Rightarrow> web_client \<Rightarrow> web_client" where
  "refresh_answered Code Login w =
     (if IsValidResponseCode Code 200
      then let w1 = (case Login of None \<Rightarrow> w | Some t \<Rightarrow> w\<lparr>LoggedIn := True, RefreshDue := False, AccessToken := t\<rparr>)
           in w1\<lparr>RefreshNeeded := False, RefreshStarted := False\<rparr>
      else w\<lparr>AccessToken := [], LoggedIn := False, RefreshDue := False, RefreshNeeded := True, RefreshStarted := False\<rparr>)"

definition OnHttpResponse :: "handler \<Rightarrow> nat \<Rightarrow> string option \<Rightarrow> web_client \<Rightarrow> web_client option" where
  "OnHttpResponse h a Login w = do {
     r \<leftarrow> wc_Heap w a;
     let w1 = wc_emit (Responded a (rq_ResponseCode r)) w;
     Some (case h of Client_handler \<Rightarrow> w1 | Refresh_handler \<Rightarrow> refresh_answered (rq_ResponseCode r) Login w1) }"

definition Retry :: "nat \<Rightarrow> u32 \<Rightarrow> web_client \<Rightarrow> (bool \<times> web_client) option" where
  "Retry a MaxRetries w = do {
     r \<leftarrow> wc_Heap w a;
     if ResultCodeValidForRetry (rq_ResponseCode r) \<and> RetryCount r < MaxRetries
     then do {
       w1 \<leftarrow> upd_req a (\<lambda>r. r\<lparr>RetryCount := RetryCount r + 1\<rparr>) w;
       w2 \<leftarrow> AddRequest a DefaultRetriesDelayInMs w1;
       Some (True, w2) }
     else Some (False, w) }"

definition CheckForAutoRetry :: "nat \<Rightarrow> u32 \<Rightarrow> web_client \<Rightarrow> (bool \<times> web_client) option" where
  "CheckForAutoRetry a MaxRetries w = do {
     r \<leftarrow> wc_Heap w a;
     if IsAutoRetryEnabled r \<and> rq_ResponseCode r \<noteq> 200 \<and> rq_ResponseCode r \<noteq> 201 \<and> rq_ResponseCode r \<noteq> 204
     then Retry a MaxRetries w else Some (False, w) }"

text \<open>\<open>ProcessRequest\<close> from the attempt to retry on.\<close>

definition request_finished :: "nat \<Rightarrow> string option \<Rightarrow> web_client \<Rightarrow> web_client option" where
  "request_finished a Login w = do {
     (RetryIssued, w1) \<leftarrow> CheckForAutoRetry a DefaultNumRequestRetries w;
     r \<leftarrow> wc_Heap w1 a;
     case rq_Callback r of
       Some h \<Rightarrow>
         if IsCallbackAsync r
         then do {
           w2 \<leftarrow> (if \<not> RetryIssued then OnHttpResponse h a Login w1 else Some w1);
           DestroyRequest a w2 }
         else if \<not> RetryIssued then Some (w1\<lparr>PollRequests := PollRequests w1 @ [a]\<rparr>)
         else Some w1
     | None \<Rightarrow> DestroyRequest a w1 }"

fun ProcessResponses :: "nat \<Rightarrow> web_client \<Rightarrow> web_client option" where
  "ProcessResponses 0 w = Some w"
| "ProcessResponses (Suc n) w =
     (case PollRequests w of
        [] \<Rightarrow> Some w
      | a # as \<Rightarrow> do {
          let w1 = w\<lparr>PollRequests := as\<rparr>;
          r \<leftarrow> wc_Heap w1 a;
          w2 \<leftarrow> (case rq_Callback r of
                 Some h \<Rightarrow> if \<not> Cancelled w1 r then OnHttpResponse h a None w1 else Some w1
               | None \<Rightarrow> Some w1);
          w3 \<leftarrow> DestroyRequest a w2;
          ProcessResponses n w3 })"

section \<open>Workers\<close>

definition TakeJob :: "web_client \<Rightarrow> web_client" where
  "TakeJob w =
     (case Jobs w of
        [] \<Rightarrow> w
      | a # as \<Rightarrow> if length (Running w) < CSP_MAX_CONCURRENT_REQUESTS
                 then w\<lparr>Jobs := as, Running := Running w @ [(a, Job_waiting)]\<rparr> else w)"

definition set_phase :: "nat \<Rightarrow> job_phase \<Rightarrow> web_client \<Rightarrow> web_client" where
  "set_phase a p w = w\<lparr>Running := map (\<lambda>(b, q). (b, if b = a then p else q)) (Running w)\<rparr>"

definition leave :: "nat \<Rightarrow> web_client \<Rightarrow> web_client" where
  "leave a w = w\<lparr>Running := filter (\<lambda>(b, q). b \<noteq> a) (Running w)\<rparr>"

definition wait_passed :: "nat \<Rightarrow> web_client \<Rightarrow> web_client" where
  "wait_passed a w = (if RefreshStarted w then w else set_phase a Job_passed w)"

definition check_refresh :: "nat \<Rightarrow> web_client \<Rightarrow> web_client" where
  "check_refresh a w = set_phase a (if RefreshNeeded w \<and> \<not> RefreshStarted w then Job_marking else Job_marked) w"

definition mark_started :: "nat \<Rightarrow> web_client \<Rightarrow> web_client" where
  "mark_started a w = set_phase a Job_marked (w\<lparr>RefreshStarted := True\<rparr>)"

text \<open>The header is set before the request is marked as one that needs it.\<close>

definition prepare :: "nat \<Rightarrow> web_client \<Rightarrow> web_client option" where
  "prepare a w = do {
     w1 \<leftarrow> upd_req a (RefreshBearerToken (AccessToken w)) w;
     w2 \<leftarrow> upd_req a (\<lambda>r. r\<lparr>RequiresBearerToken := True\<rparr>) w1;
     Some (set_phase a Job_delaying w2) }"

definition deliver :: "nat \<Rightarrow> web_client \<Rightarrow> web_client option" where
  "deliver a w = do {
     r \<leftarrow> wc_Heap w a;
     if \<not> Cancelled w r then Some (wc_emit (Sent a (rq_Headers r)) (set_phase a Job_sending w))
     else do {
       w1 \<leftarrow> upd_req a (\<lambda>r. r\<lparr>rq_ResponseCode := 408, IsAutoRetryEnabled := False\<rparr>) w;
       request_finished a None (leave a w1) } }"

text \<open>The outcome of sending: a response, or an exception.\<close>

datatype outcome = Response u16 "string option" | Threw

definition sending_ended :: "nat \<Rightarrow> outcome \<Rightarrow> web_client \<Rightarrow> web_client option" where
  "sending_ended a out w = do {
     w1 \<leftarrow> upd_req a (\<lambda>r. r\<lparr>rq_ResponseCode := (case out of Response c _ \<Rightarrow> c | Threw \<Rightarrow> 503)\<rparr>) w;
     request_finished a (case out of Response _ l \<Rightarrow> l | Threw \<Rightarrow> None) (leave a w1) }"

text \<open>The first step of the destructor.\<close>

definition CancelRequests :: "web_client \<Rightarrow> web_client option" where
  "CancelRequests w =
     (if \<exists>a \<in> Requests w. wc_Heap w a = None then None
      else Some (w\<lparr>CancelledTokens := CancelledTokens w \<union> (\<lambda>a. rq_Token (the (wc_Heap w a))) ` Requests w\<rparr>))"

section \<open>Runs\<close>

datatype web_op =
    Op_send "(string, string) omap" bool bool "nat option" bool
  | Op_take
  | Op_pass nat
  | Op_check nat
  | Op_mark nat
  | Op_prepare nat
  | Op_deliver nat
  | Op_ended nat outcome
  | Op_poll nat
  | Op_cancel nat
  | Op_cancel_all
  | Op_session bool bool string
  | Op_bypass "string option"

definition in_phase :: "nat \<Rightarrow> job_phase \<Rightarrow> web_client \<Rightarrow> bool" where
  "in_phase a p w \<longleftrightarrow> (a, p) \<in> set (Running w)"

fun web_step :: "web_op \<Rightarrow> web_client \<Rightarrow> web_client option" where
  "web_step (Op_send hs b cb tok async) w = SendRequest hs b cb tok async w"
| "web_step Op_take w = Some (TakeJob w)"
| "web_step (Op_pass a) w = (if in_phase a Job_waiting w then Some (wait_passed a w) else Some w)"
| "web_step (Op_check a) w = (if in_phase a Job_passed w then Some (check_refresh a w) else Some w)"
| "web_step (Op_mark a) w = (if in_phase a Job_marking w then Some (mark_started a w) else Some w)"
| "web_step (Op_prepare a) w = (if in_phase a Job_marked w then prepare a w else Some w)"
| "web_step (Op_deliver a) w = (if in_phase a Job_delaying w then deliver a w else Some w)"
| "web_step (Op_ended a out) w = (if in_phase a Job_sending w then sending_ended a out w else Some w)"
| "web_step (Op_poll n) w = ProcessResponses n w"
| "web_step (Op_cancel t) w = Some (w\<lparr>CancelledTokens := insert (Client_token t) (CancelledTokens w)\<rparr>)"
| "web_step Op_cancel_all w = CancelRequests w"
| "web_step (Op_session l d t) w = Some (w\<lparr>LoggedIn := l, RefreshDue := d, AccessToken := t\<rparr>)"
| "web_step (Op_bypass v) w = Some (w\<lparr>WAFBypassValue := v\<rparr>)"

fun web_run :: "web_op list \<Rightarrow> web_client \<Rightarrow> web_client option" where
  "web_run [] w = Some w"
| "web_run (op # ops) w = Option.bind (web_step op w) (web_run ops)"

lemma web_run_append: "web_run (ops @ ops') w = Option.bind (web_run ops w) (web_run ops')"
  by (induction ops arbitrary: w) (auto split: Option.bind_splits)


section \<open>The accounting\<close>

fun issued_of :: "web_event list \<Rightarrow> (nat \<times> handler option \<times> bool \<times> cancel_token) list" where
  "issued_of [] = []"
| "issued_of (Issued a cb async tok # es) = (a, cb, async, tok) # issued_of es"
| "issued_of (_ # es) = issued_of es"

fun sent_of :: "web_event list \<Rightarrow> nat list" where
  "sent_of [] = []"
| "sent_of (Sent a hs # es) = a # sent_of es"
| "sent_of (_ # es) = sent_of es"

fun responded_of :: "web_event list \<Rightarrow> nat list" where
  "responded_of [] = []"
| "responded_of (Responded a c # es) = a # responded_of es"
| "responded_of (_ # es) = responded_of es"

definition sends :: "web_client \<Rightarrow> nat \<Rightarrow> nat" where "sends w a = count_list (sent_of (wc_Log w)) a"

definition responses :: "web_client \<Rightarrow> nat \<Rightarrow> nat" where "responses w a = count_list (responded_of (wc_Log w)) a"

definition under_way :: "web_client \<Rightarrow> nat list" where
  "under_way w = Jobs w @ map fst (Running w) @ PollRequests w"

definition polled :: "http_request \<Rightarrow> bool" where "polled r \<longleftrightarrow> rq_Callback r \<noteq> None \<and> \<not> IsCallbackAsync r"

text \<open>
  Between the steps of an operation, \<open>H\<close> are the requests its thread holds, \<open>N\<close> those it still has to
  count, and \<open>D\<close> those it has already answered. A request that is polled keeps a reference for each of
  its retries.
\<close>

definition held :: "nat list \<Rightarrow> web_client \<Rightarrow> nat \<Rightarrow> nat" where "held H w a = count_list (under_way w @ H) a"

definition early :: "web_client \<Rightarrow> nat \<Rightarrow> bool" where
  "early w a \<longleftrightarrow> a \<in> set (Jobs w) \<or> (\<exists>p. (a, p) \<in> set (Running w) \<and> p \<noteq> Job_sending)"

definition request_ok :: "nat list \<Rightarrow> nat list \<Rightarrow> web_client \<Rightarrow> nat \<Rightarrow> http_request \<Rightarrow> bool" where
  "request_ok H N w a r \<longleftrightarrow> a < Allocated w \<and> unat (RetryCount r) \<le> 4
     \<and> RefCount r + of_nat (count_list N a) = of_nat (held H w a) + (if polled r then RetryCount r else 0)
     \<and> (RefCount r = 0 \<longrightarrow> a \<in> set N)
     \<and> (a \<in> set (PollRequests w) \<longrightarrow> polled r)
     \<and> (rq_Callback r = Some Refresh_handler \<longrightarrow> IsCallbackAsync r)
     \<and> sends w a \<le> unat (RetryCount r) + (if early w a then 0 else 1)
     \<and> (a, rq_Callback r, IsCallbackAsync r, rq_Token r) \<in> set (issued_of (wc_Log w))"

definition address_ok :: "nat list \<Rightarrow> nat list \<Rightarrow> web_client \<Rightarrow> nat \<Rightarrow> bool" where
  "address_ok H N w a \<longleftrightarrow>
     (case wc_Heap w a of
        None \<Rightarrow> held H w a = 0 \<and> a \<notin> Requests w \<and> a \<notin> set N \<and> sends w a \<le> 5 \<and> (Allocated w \<le> a \<longrightarrow> sends w a = 0 \<and> responses w a = 0)
      | Some r \<Rightarrow> request_ok H N w a r)"

definition issue_ok :: "nat list \<Rightarrow> nat set \<Rightarrow> web_client \<Rightarrow> nat \<times> handler option \<times> bool \<times> cancel_token \<Rightarrow> bool" where
  "issue_ok H D w = (\<lambda>(a, cb, async, tok).
     a < Allocated w
     \<and> (\<forall>r. wc_Heap w a = Some r \<longrightarrow> rq_Callback r = cb \<and> IsCallbackAsync r = async \<and> rq_Token r = tok)
     \<and> responses w a \<le> (if cb = None then 0 else 1)
     \<and> (if held H w a > 0 \<and> a \<notin> D then responses w a = 0
        else cb = None \<or> responses w a = 1 \<or> \<not> async \<and> tok \<in> CancelledTokens w))"

definition refs :: "web_client \<Rightarrow> nat \<Rightarrow> u32" where
  "refs w a = (case wc_Heap w a of None \<Rightarrow> 0 | Some r \<Rightarrow> RefCount r)"

definition accounted :: "nat list \<Rightarrow> nat list \<Rightarrow> nat set \<Rightarrow> web_client \<Rightarrow> bool" where
  "accounted H N D w \<longleftrightarrow> (\<forall>a. address_ok H N w a) \<and> (\<forall>i \<in> set (issued_of (wc_Log w)). issue_ok H D w i)
     \<and> RequestCount w = (\<Sum>a<Allocated w. refs w a)"

lemma log_append [simp]:
  "issued_of (es @ es') = issued_of es @ issued_of es'"
  "sent_of (es @ es') = sent_of es @ sent_of es'"
  "responded_of (es @ es') = responded_of es @ responded_of es'"
proof (induction es)
  case (Cons e es)
  { case 1 then show ?case using Cons by (cases e) auto next
    case 2 then show ?case using Cons by (cases e) auto next
    case 3 then show ?case using Cons by (cases e) auto }
qed simp_all

lemma held_Cons: "held (a # H) w b = held H w b + (if b = a then 1 else 0)"
  by (simp add: held_def)

lemmas accounting_defs = held_def under_way_def early_def sends_def responses_def wc_emit_def

lemma accounted_new: "accounted [] [] {} (new_web_client auto payload)"
  by (simp add: accounted_def address_ok_def new_web_client_def accounting_defs)

text \<open>What an operation on one request leaves of the others.\<close>

lemma address_ok_frame:
  assumes "address_ok H N w b" "wc_Heap w' b = wc_Heap w b" "held H' w' b = held H w b" "count_list N' b = count_list N b"
    "Allocated w \<le> Allocated w'" "sends w' b = sends w b" "responses w' b = responses w b" "early w' b \<longrightarrow> early w b"
    "b \<in> set (PollRequests w') \<longrightarrow> b \<in> set (PollRequests w)" "b \<in> Requests w' \<longrightarrow> b \<in> Requests w"
    "set (issued_of (wc_Log w)) \<subseteq> set (issued_of (wc_Log w'))"
  shows "address_ok H' N' w' b"
proof -
  have N: "b \<in> set N' \<longleftrightarrow> b \<in> set N" using assms(4) by (metis count_list_0_iff)
  show ?thesis
  proof (cases "wc_Heap w b")
    case None
    then show ?thesis using assms(1,5,10) by (auto simp: address_ok_def assms(2,3,6,7) N)
  next
    case (Some r)
    then have "request_ok H N w b r" using assms(1) by (simp add: address_ok_def)
    then have "request_ok H' N' w' b r"
      using assms(5,8,9,11) by (auto simp: request_ok_def assms(3,4,6) N split: if_splits)
    then show ?thesis using Some by (simp add: address_ok_def assms(2))
  qed
qed

lemma issue_ok_frame:
  assumes "issue_ok H D w (b, cb, async, tok)" "\<forall>r. wc_Heap w' b = Some r \<longrightarrow> (\<exists>q. wc_Heap w b = Some q \<and> rq_Callback q = rq_Callback r
      \<and> IsCallbackAsync q = IsCallbackAsync r \<and> rq_Token q = rq_Token r)"
    "held H' w' b > 0 \<and> b \<notin> D' \<longleftrightarrow> held H w b > 0 \<and> b \<notin> D"
    "Allocated w \<le> Allocated w'" "responses w' b = responses w b" "CancelledTokens w \<subseteq> CancelledTokens w'"
  shows "issue_ok H' D' w' (b, cb, async, tok)"
  using assms by (auto simp: issue_ok_def)

lemma address_ok_fresh: "address_ok H N w b \<Longrightarrow> Allocated w \<le> b \<Longrightarrow> wc_Heap w b = None"
  by (auto simp: address_ok_def request_ok_def split: option.splits)

lemma accounted_fresh:
  assumes "accounted H N D w" "Allocated w \<le> b"
  shows "wc_Heap w b = None" "held H w b = 0" "b \<notin> set N" "sends w b = 0" "responses w b = 0" "b \<notin> set (PollRequests w)"
proof -
  have a: "address_ok H N w b" using assms(1) by (simp add: accounted_def)
  show none: "wc_Heap w b = None" using a assms(2) by (rule address_ok_fresh)
  show "held H w b = 0" "b \<notin> set N" "sends w b = 0" "responses w b = 0" using a assms(2) by (simp_all add: address_ok_def none)
  then show "b \<notin> set (PollRequests w)" by (simp add: held_def under_way_def count_list_0_iff)
qed

lemma accounted_make:
  assumes "accounted H N D w" "cb = Some Refresh_handler \<longrightarrow> async" "\<forall>d \<in> D. d < Allocated w"
  shows "accounted (Allocated w # H) (Allocated w # N) D (make_request hs b cb tok async w)"
    and "held (Allocated w # H) (make_request hs b cb tok async w) (Allocated w) = 1"
proof -
  let ?a = "Allocated w" and ?w = "make_request hs b cb tok async w"
  have none: "wc_Heap w ?a = None" using assms(1) by (auto simp: accounted_def intro: address_ok_fresh)
  then have new: "held H w ?a = 0" "?a \<notin> set N" "sends w ?a = 0" "responses w ?a = 0"
    using assms(1) by (auto simp: accounted_def address_ok_def dest!: spec [where x = ?a])
  have w: "Allocated ?w = ?a + 1" "Requests ?w = Requests w" "RequestCount ?w = RequestCount w" "Jobs ?w = Jobs w" "Running ?w = Running w"
    "PollRequests ?w = PollRequests w" "CancelledTokens ?w = CancelledTokens w"
    "sends ?w = sends w" "responses ?w = responses w" "early ?w = early w"
    by (simp_all add: make_request_def Let_def accounting_defs fun_eq_iff)
  obtain t r where r: "wc_Log ?w = wc_Log w @ [Issued ?a cb async t]" "wc_Heap ?w = (wc_Heap w)(?a \<mapsto> r)"
    "rq_Callback r = cb" "IsCallbackAsync r = async" "rq_Token r = t" "RefCount r = 0" "RetryCount r = 0"
    by (auto simp: make_request_def Let_def wc_emit_def new_request_def AddHeader_def split: option.splits)
  have h: "held (?a # H) ?w b' = held H w b' + (if b' = ?a then 1 else 0)" for b'
    by (simp add: held_def under_way_def w)
  show held: "held (?a # H) ?w ?a = 1" by (simp add: h new)
  have "address_ok (?a # H) (?a # N) ?w b'" for b'
  proof (cases "b' = ?a")
    case True
    moreover have "\<not> early w ?a" "?a \<notin> set (PollRequests w)" using new(1) by (auto simp: held_def under_way_def early_def count_list_0_iff image_iff)
    ultimately show ?thesis
      using assms(2) new held by (simp add: address_ok_def request_ok_def r w count_list_0_iff polled_def)
  next
    case False
    have "address_ok H N w b'" using assms(1) by (simp add: accounted_def)
    then show ?thesis by (rule address_ok_frame) (use False in \<open>auto simp: w r h\<close>)
  qed
  moreover have "issue_ok (?a # H) D ?w i" if i: "i \<in> set (issued_of (wc_Log ?w))" for i
  proof -
    obtain c cb' as tk where [simp]: "i = (c, cb', as, tk)" by (cases i) auto
    show ?thesis
    proof (cases "i = (?a, cb, async, t)")
      case True
      then show ?thesis using new held assms(3) by (auto simp: issue_ok_def w r)
    next
      case False
      then have "i \<in> set (issued_of (wc_Log w))" using i by (auto simp: r(1))
      then have "issue_ok H D w (c, cb', as, tk)" using assms(1) by (auto simp: accounted_def)
      then show ?thesis unfolding \<open>i = _\<close>
        by (rule issue_ok_frame) (use \<open>issue_ok H D w (c, cb', as, tk)\<close> in \<open>auto simp: w r h issue_ok_def\<close>)
    qed
  qed
  moreover have "(\<Sum>x<Allocated ?w. refs ?w x) = (\<Sum>x<?a. refs w x)"
    using r(6) by (simp add: w refs_def r(2))
  ultimately show "accounted (?a # H) (?a # N) D ?w"
    using assms(1) by (simp add: accounted_def w)
qed

lemma accounted_request:
  assumes "accounted H N D w" "held H w a > 0 \<or> a \<in> set N"
  obtains r where "wc_Heap w a = Some r" "request_ok H N w a r"
  using assms by (cases "wc_Heap w a") (auto simp: accounted_def address_ok_def dest!: spec [where x = a])

lemma refs_fun_upd: "a < n \<Longrightarrow> (\<Sum>x<n. (f(a := v)) x) = (\<Sum>x<n. f x) - f a + (v :: u32)" for f :: "nat \<Rightarrow> u32"
proof -
  assume a: "a < n"
  have "(\<Sum>x<n. (f(a := v)) x) = v + (\<Sum>x \<in> {..<n} - {a}. f x)"
    using a by (subst sum.remove [where x = a]) (auto intro!: sum.cong)
  moreover have "(\<Sum>x<n. f x) = f a + (\<Sum>x \<in> {..<n} - {a}. f x)" using a by (intro sum.remove) auto
  ultimately show ?thesis by simp
qed

text \<open>Counting a request and handing it to the workers.\<close>

lemma accounted_enqueue:
  assumes "accounted (a # H) (a # N) D w" "held (a # H) w a \<le> 2" "a \<notin> set N" "a \<notin> set (PollRequests w)"
    "\<And>r. wc_Heap w a = Some r \<Longrightarrow> sends w a \<le> unat (RetryCount r)"
  shows "\<exists>w'. enqueue_request a d w = Some w' \<and> accounted H N D w' \<and> (\<forall>b. held H w' b = held (a # H) w b)
    \<and> (\<exists>r. wc_Heap w a = Some r \<and> wc_Heap w' a = Some (r\<lparr>RefCount := RefCount r + 1, SendDelay := d\<rparr>))
    \<and> wc_Log w' = wc_Log w"
proof -
  obtain r where r: "wc_Heap w a = Some r" "request_ok (a # H) (a # N) w a r"
    by (rule accounted_request [OF assms(1), where a = a]) auto
  define w' where "w' = w\<lparr>wc_Heap := (wc_Heap w)(a \<mapsto> r\<lparr>RefCount := RefCount r + 1, SendDelay := d\<rparr>),
    Requests := insert a (Requests w), RequestCount := RequestCount w + 1, Jobs := Jobs w @ [a]\<rparr>"
  have e: "enqueue_request a d w = Some w'" by (simp add: enqueue_request_def upd_req_def r(1) w'_def)
  have h: "held H w' b = held (a # H) w b" for b by (simp add: held_def under_way_def w'_def)
  have l: "wc_Log w' = wc_Log w" "sends w' = sends w" "responses w' = responses w" "Allocated w' = Allocated w" "PollRequests w' = PollRequests w"
    "CancelledTokens w' = CancelledTokens w"
    by (simp_all add: w'_def sends_def responses_def fun_eq_iff)
  have "address_ok H N w' b" for b
  proof (cases "b = a")
    case True
    define q where "q = r\<lparr>RefCount := RefCount r + 1, SendDelay := d\<rparr>"
    have q: "wc_Heap w' a = Some q" "early w' a" "rq_Callback q = rq_Callback r" "IsCallbackAsync q = IsCallbackAsync r"
      "rq_Token q = rq_Token r" "RetryCount q = RetryCount r" "RefCount q = RefCount r + 1" "polled q = polled r"
      by (simp_all add: q_def w'_def early_def polled_def)
    have "unat (RetryCount r) \<le> 4" and n: "held (a # H) w a = 1 \<or> held (a # H) w a = 2"
      using r(2) assms(2) by (auto simp: request_ok_def held_def under_way_def)
    have "RefCount r + 1 = of_nat (held (a # H) w a) + (if polled r then RetryCount r else 0)"
      using r(2) assms(3) by (simp add: request_ok_def count_list_0_iff)
    moreover have "of_nat (held (a # H) w a) + (if polled r then RetryCount r else 0) \<noteq> (0 :: u32)"
      using n \<open>unat (RetryCount r) \<le> 4\<close> by (auto simp: unat_arith_simps)
    ultimately have "RefCount q \<noteq> 0" by (simp add: q)
    then have "request_ok H N w' a q"
      using r(2) assms(3,4) assms(5) [OF r(1)] by (simp add: request_ok_def l h q count_list_0_iff)
    then show ?thesis using True by (simp add: address_ok_def q)
  next
    case False
    have "address_ok (a # H) (a # N) w b" using assms(1) by (simp add: accounted_def)
    then show ?thesis by (rule address_ok_frame) (use False in \<open>auto simp: h l, auto simp: w'_def early_def\<close>)
  qed
  moreover have "issue_ok H D w' i" if i: "i \<in> set (issued_of (wc_Log w'))" for i
  proof -
    obtain c cb as tk where ic: "i = (c, cb, as, tk)" by (cases i) auto
    have "issue_ok (a # H) D w (c, cb, as, tk)" using i assms(1) by (simp add: accounted_def l ic)
    then show ?thesis unfolding ic by (rule issue_ok_frame) (auto simp: l h, auto simp: w'_def r split: if_splits)
  qed
  moreover have "RequestCount w' = (\<Sum>x<Allocated w'. refs w' x)"
  proof -
    have "refs w' = (refs w)(a := RefCount r + 1)" by (auto simp: refs_def w'_def fun_eq_iff)
    moreover have "a < Allocated w" "RequestCount w = (\<Sum>x<Allocated w. refs w x)" "refs w a = RefCount r"
      using r assms(1) by (auto simp: request_ok_def accounted_def refs_def)
    ultimately show ?thesis by (simp add: l(4) refs_fun_upd w'_def del: fun_upd_apply)
  qed
  ultimately have "accounted H N D w'" by (simp add: accounted_def)
  then show ?thesis using e h l(1) r(1) by (auto simp: w'_def)
qed


text \<open>Changes that do not touch the accounts.\<close>

lemma accounted_same:
  assumes "accounted H N D w" "wc_Heap w' = wc_Heap w" "Allocated w' = Allocated w" "Requests w' \<subseteq> Requests w"
    "RequestCount w' = RequestCount w" "\<And>b. held H' w' b = held H w b" "\<And>b. early w' b \<longrightarrow> early w b"
    "set (PollRequests w') \<subseteq> set (PollRequests w)" "CancelledTokens w \<subseteq> CancelledTokens w'" "wc_Log w' = wc_Log w"
  shows "accounted H' N D w'"
proof -
  have l: "sends w' = sends w" "responses w' = responses w" by (simp_all add: sends_def responses_def assms(10) fun_eq_iff)
  have "address_ok H' N w' b" for b
  proof -
    have "address_ok H N w b" using assms(1) by (simp add: accounted_def)
    then show ?thesis by (rule address_ok_frame) (use assms(4,7,8) in \<open>auto simp: assms(2,3,6,10) l\<close>)
  qed
  moreover have "issue_ok H' D w' i" if i: "i \<in> set (issued_of (wc_Log w'))" for i
  proof -
    obtain c cb as tk where ic: "i = (c, cb, as, tk)" by (cases i) auto
    have "issue_ok H D w (c, cb, as, tk)" using i assms(1) by (simp add: accounted_def assms(10) ic)
    then show ?thesis unfolding ic by (rule issue_ok_frame) (use assms(9) in \<open>auto simp: l assms(2,3,6)\<close>)
  qed
  moreover have "RequestCount w' = (\<Sum>x<Allocated w'. refs w' x)"
    using assms(1) by (simp add: accounted_def assms(2,3,5) refs_def)
  ultimately show ?thesis by (simp add: accounted_def)
qed

lemma accounted_update:
  assumes "accounted H N D w" "upd_req a f w = Some w'"
    "\<And>r. RefCount (f r) = RefCount r \<and> RetryCount (f r) = RetryCount r \<and> rq_Callback (f r) = rq_Callback r
      \<and> IsCallbackAsync (f r) = IsCallbackAsync r \<and> rq_Token (f r) = rq_Token r"
  shows "accounted H N D w'" "held H w' = held H w" "wc_Log w' = wc_Log w"
proof -
  obtain r where r: "wc_Heap w a = Some r" "w' = w\<lparr>wc_Heap := (wc_Heap w)(a \<mapsto> f r)\<rparr>"
    using assms(2) by (auto simp: upd_req_def split: option.splits)
  have l: "sends w' = sends w" "responses w' = responses w" "held H w' = held H w" "early w' = early w" "wc_Log w' = wc_Log w"
    "Allocated w' = Allocated w" "PollRequests w' = PollRequests w" "Requests w' = Requests w" "CancelledTokens w' = CancelledTokens w"
    by (simp_all add: accounting_defs r(2) fun_eq_iff)
  show "held H w' = held H w" "wc_Log w' = wc_Log w" by (simp_all add: l)
  have p: "polled (f q) = polled q" for q using assms(3) [of q] by (simp add: polled_def)
  have "address_ok H N w' b" for b
  proof -
    have b: "address_ok H N w b" using assms(1) by (simp add: accounted_def)
    show ?thesis
    proof (cases "b = a")
      case True
      have "wc_Heap w' a = Some (f r)" by (simp add: r(2))
      then show ?thesis using b assms(3) [of r] by (simp add: address_ok_def True r(1) request_ok_def l p)
    next
      case False
      show ?thesis using b by (rule address_ok_frame) (use False in \<open>auto simp: l, auto simp: r(2)\<close>)
    qed
  qed
  moreover have "issue_ok H D w' i" if i: "i \<in> set (issued_of (wc_Log w'))" for i
  proof -
    obtain c cb as tk where ic: "i = (c, cb, as, tk)" by (cases i) auto
    have "issue_ok H D w (c, cb, as, tk)" using i assms(1) by (simp add: accounted_def l ic)
    then show ?thesis unfolding ic
      by (rule issue_ok_frame) (use assms(3) in \<open>auto simp: l, auto simp: r split: if_splits\<close>)
  qed
  moreover have "refs w' = refs w" using assms(3) by (auto simp: refs_def r fun_eq_iff)
  ultimately show "accounted H N D w'" using assms(1) by (simp add: accounted_def l r(2))
qed

text \<open>Answering, and giving a reference back.\<close>

lemma accounted_answer:
  assumes "accounted H N {} w" "held H w a > 0" "wc_Heap w a = Some r" "rq_Callback r = Some h"
  shows "\<exists>w'. OnHttpResponse h a l w = Some w' \<and> accounted H N {a} w' \<and> wc_Heap w' = wc_Heap w \<and> held H w' = held H w
    \<and> CancelledTokens w' = CancelledTokens w \<and> PollRequests w' = PollRequests w"
proof -
  define w1 where "w1 = wc_emit (Responded a (rq_ResponseCode r)) w"
  define w' where "w' = (case h of Client_handler \<Rightarrow> w1 | Refresh_handler \<Rightarrow> refresh_answered (rq_ResponseCode r) l w1)"
  have e: "OnHttpResponse h a l w = Some w'" unfolding w'_def w1_def by (simp add: OnHttpResponse_def assms(3) Let_def)
  have s: "wc_Heap w' = wc_Heap w" "Allocated w' = Allocated w" "Requests w' = Requests w" "RequestCount w' = RequestCount w"
    "Jobs w' = Jobs w" "Running w' = Running w" "PollRequests w' = PollRequests w" "CancelledTokens w' = CancelledTokens w"
    "wc_Log w' = wc_Log w @ [Responded a (rq_ResponseCode r)]"
    by (simp_all add: w'_def w1_def wc_emit_def refresh_answered_def Let_def split: handler.splits option.splits)
  have l: "sends w' = sends w" "responses w' b = responses w b + (if b = a then 1 else 0)" "held H w' = held H w" "early w' = early w" for b
    by (simp_all add: accounting_defs s fun_eq_iff)
  have "address_ok H N w' b" for b
  proof -
    have b: "address_ok H N w b" using assms(1) by (simp add: accounted_def)
    show ?thesis
    proof (cases "b = a")
      case True
      show ?thesis using b by (simp add: True address_ok_def s assms(3) request_ok_def l)
    next
      case False
      show ?thesis using b by (rule address_ok_frame) (use False in \<open>auto simp: l s\<close>)
    qed
  qed
  moreover have "issue_ok H {a} w' i" if i: "i \<in> set (issued_of (wc_Log w'))" for i
  proof -
    obtain c cb as tk where ic: "i = (c, cb, as, tk)" by (cases i) auto
    have "issue_ok H {} w (c, cb, as, tk)" using i assms(1) by (auto simp: accounted_def s ic)
    then show ?thesis using assms(2-4) by (auto simp: ic issue_ok_def l s)
  qed
  moreover have "refs w' = refs w" by (simp add: refs_def s fun_eq_iff)
  ultimately have "accounted H N {a} w'" using assms(1) by (simp add: accounted_def s)
  then show ?thesis using e by (simp add: s l)
qed

lemma accounted_destroy:
  assumes "accounted (a # H) N D w" "a \<notin> set N" "held (a # H) w a \<le> 2" "D \<subseteq> {a}" "wc_Heap w a = Some r"
    "held H w a > 0 \<Longrightarrow> a \<notin> D"
    "held H w a = 0 \<Longrightarrow> a \<in> D \<or> rq_Callback r = None \<or> \<not> IsCallbackAsync r \<and> Cancelled w r"
  shows "\<exists>w'. DestroyRequest a w = Some w' \<and> accounted H N {} w' \<and> (\<forall>b. held H w' b = held H w b)"
proof -
  define v where "v = (if RefCount r - 1 = 0 then None else Some (r\<lparr>RefCount := RefCount r - 1\<rparr>))"
  define w' where "w' = w\<lparr>wc_Heap := (wc_Heap w)(a := v), Requests := Requests w - {a}, RequestCount := RequestCount w - 1\<rparr>"
  have e: "DestroyRequest a w = Some w'" by (simp add: DestroyRequest_def assms(5) w'_def v_def)
  have s: "Allocated w' = Allocated w" "Jobs w' = Jobs w" "Running w' = Running w" "PollRequests w' = PollRequests w"
    "CancelledTokens w' = CancelledTokens w" "wc_Log w' = wc_Log w" "wc_Heap w' a = v" "\<And>b. b \<noteq> a \<Longrightarrow> wc_Heap w' b = wc_Heap w b"
    "Requests w' = Requests w - {a}"
    by (simp_all add: w'_def)
  have l: "sends w' = sends w" "responses w' = responses w" "early w' = early w" "held H w' = held H w"
    by (simp_all add: accounting_defs s fun_eq_iff)
  have h: "held (a # H) w b = held H w b + (if b = a then 1 else 0)" for b by (simp add: held_def)
  have ok: "request_ok (a # H) N w a r"
    using assms(1,5) by (auto simp: accounted_def address_ok_def dest!: spec [where x = a])
  have rc: "RefCount r - 1 = of_nat (held H w a) + (if polled r then RetryCount r else 0)"
    using ok assms(2) by (simp add: request_ok_def h count_list_0_iff)
  have "held H w a \<le> 1" "unat (RetryCount r) \<le> 4" using assms(3) ok by (simp_all add: h request_ok_def)
  then have zero: "RefCount r - 1 = 0 \<longleftrightarrow> held H w a = 0 \<and> (polled r \<longrightarrow> RetryCount r = 0)"
    unfolding rc by (auto simp: le_Suc_eq unat_arith_simps)
  have "address_ok H N w' b" for b
  proof -
    have b: "address_ok (a # H) N w b" using assms(1) by (simp add: accounted_def)
    show ?thesis
    proof (cases "b = a")
      case True
      show ?thesis
      proof (cases "RefCount r - 1 = 0")
        case True
        have "sends w a \<le> 5" using ok by (auto simp: request_ok_def split: if_splits)
        then show ?thesis using True zero ok assms(2) by (simp add: \<open>b = a\<close> address_ok_def s v_def l request_ok_def)
      next
        case False
        then have v: "wc_Heap w' a = Some (r\<lparr>RefCount := RefCount r - 1\<rparr>)" by (simp add: s v_def)
        have "request_ok H N w' a (r\<lparr>RefCount := RefCount r - 1\<rparr>)"
          using ok False rc assms(2) by (simp add: request_ok_def s l polled_def h count_list_0_iff)
        then show ?thesis by (simp add: \<open>b = a\<close> address_ok_def v)
      qed
    next
      case False
      show ?thesis using b by (rule address_ok_frame) (use False in \<open>auto simp: l s h\<close>)
    qed
  qed
  moreover have "issue_ok H {} w' i" if i: "i \<in> set (issued_of (wc_Log w'))" for i
  proof -
    obtain c cb as tk where ic: "i = (c, cb, as, tk)" by (cases i) auto
    have c: "issue_ok (a # H) D w (c, cb, as, tk)" using i assms(1) by (auto simp: accounted_def s ic)
    show ?thesis
    proof (cases "c = a")
      case True
      then show ?thesis using c assms(4-7) h
        by (auto simp: ic issue_ok_def l s v_def Cancelled_def split: if_splits)
    next
      case False
      show ?thesis unfolding ic using c by (rule issue_ok_frame) (use False assms(4) in \<open>auto simp: l s h\<close>)
    qed
  qed
  moreover have "RequestCount w' = (\<Sum>x<Allocated w'. refs w' x)"
  proof -
    have "refs w' = (refs w)(a := RefCount r - 1)" by (auto simp: refs_def s v_def fun_eq_iff)
    moreover have "a < Allocated w" "RequestCount w = (\<Sum>x<Allocated w. refs w x)" "refs w a = RefCount r"
      using ok assms(1,5) by (auto simp: request_ok_def accounted_def refs_def)
    ultimately show ?thesis by (simp add: s(1) refs_fun_upd w'_def del: fun_upd_apply)
  qed
  ultimately have "accounted H N {} w'" by (simp add: accounted_def)
  then show ?thesis using e l(4) by simp
qed


section \<open>Operations keep the accounts\<close>

text \<open>A refresh adds at most a request of its own and leaves the others.\<close>

lemma RefreshIfExpired_ok:
  assumes "accounted H N {} w"
  shows "\<exists>w'. RefreshIfExpired w = Some w' \<and> accounted H N {} w' \<and> Allocated w \<le> Allocated w'
    \<and> (\<forall>b < Allocated w. wc_Heap w' b = wc_Heap w b \<and> held H w' b = held H w b)
    \<and> (\<forall>b \<ge> Allocated w. held H w' b \<le> 1) \<and> sends w' = sends w \<and> PollRequests w' = PollRequests w"
proof -
  have old: "held H w b = 0" if "Allocated w \<le> b" for b
    using accounted_fresh [OF assms that] by simp
  show ?thesis
  proof (cases "AutoRefreshEnabled w \<and> \<not> RefreshNeeded w \<and> RefreshDue w \<and> LoggedIn w")
    case False
    define w' where "w' = (if AutoRefreshEnabled w \<and> \<not> RefreshNeeded w \<and> RefreshDue w then w\<lparr>RefreshNeeded := True\<rparr> else w)"
    have "RefreshIfExpired w = Some w'" using False by (auto simp: RefreshIfExpired_def RefreshToken_def w'_def)
    moreover have "accounted H N {} w'"
      by (rule accounted_same [OF assms]) (simp_all add: w'_def held_def under_way_def early_def)
    moreover have "held H w' = held H w" "sends w' = sends w" "wc_Heap w' = wc_Heap w" "Allocated w' = Allocated w" "PollRequests w' = PollRequests w"
      by (simp_all add: w'_def held_def under_way_def sends_def fun_eq_iff)
    ultimately show ?thesis using old by simp
  next
    case True
    define w0 where "w0 = w\<lparr>RefreshNeeded := True\<rparr>"
    have w0: "accounted H N {} w0" by (rule accounted_same [OF assms]) (simp_all add: w0_def held_def under_way_def early_def)
    define w1 where "w1 = make_request (fst (RefreshPayload w)) (snd (RefreshPayload w)) (Some Refresh_handler) None True w0"
    have al: "Allocated w0 = Allocated w" by (simp add: w0_def)
    have a1: "accounted (Allocated w # H) (Allocated w # N) {} w1" "held (Allocated w # H) w1 (Allocated w) = 1"
      using accounted_make [OF w0, of "Some Refresh_handler" True] by (simp_all add: w1_def al)
    have w1: "b \<noteq> Allocated w \<Longrightarrow> wc_Heap w1 b = wc_Heap w b" "sends w1 = sends w" "PollRequests w1 = PollRequests w"
      "Allocated w1 = Allocated w + 1" "held H w1 b = held H w b" for b
      by (simp_all add: w1_def w0_def make_request_def Let_def accounting_defs fun_eq_iff)
    note fresh = accounted_fresh [OF assms order_refl]
    obtain w' where w': "enqueue_request (Allocated w) 0 w1 = Some w'" "accounted H N {} w'"
      "\<forall>b. held H w' b = held (Allocated w # H) w1 b" "wc_Log w' = wc_Log w1"
      using accounted_enqueue [OF a1(1), where d = 0] a1(2) fresh by (auto simp: w1)
    have s: "Allocated w' = Allocated w + 1" "PollRequests w' = PollRequests w" "sends w' = sends w" "b \<noteq> Allocated w \<Longrightarrow> wc_Heap w' b = wc_Heap w b" for b
      using w'(1) w1(1) [of b] w1(2-4) w'(4) by (auto simp: enqueue_request_def upd_req_def sends_def fun_eq_iff split: option.splits)
    have "RefreshIfExpired w = Some w'"
      using True w'(1) by (simp add: RefreshIfExpired_def RefreshToken_def w1_def w0_def)
    moreover have "held H w' b = held H w b + (if b = Allocated w then 1 else 0)" for b
      using w'(3) by (simp add: held_Cons w1(5))
    ultimately show ?thesis using w'(2) s old by auto
  qed
qed

lemma AddRequest_ok:
  assumes "accounted (a # H) (a # N) {} w" "held (a # H) w a \<le> 2" "\<And>b. b \<noteq> a \<Longrightarrow> held (a # H) w b \<le> 1" "a \<notin> set N"
    "a \<notin> set (PollRequests w)" "wc_Heap w a = Some r" "sends w a \<le> unat (RetryCount r)"
  shows "\<exists>w' d'. AddRequest a d w = Some w' \<and> accounted H N {} w' \<and> held H w' a = held (a # H) w a \<and> (\<forall>b. b \<noteq> a \<longrightarrow> held H w' b \<le> 1)
    \<and> wc_Heap w' a = Some (r\<lparr>RefCount := RefCount r + 1, SendDelay := d\<rparr>)"
proof -
  have a: "a < Allocated w" using assms(1,6) by (auto simp: accounted_def address_ok_def request_ok_def dest!: spec [where x = a])
  obtain w1 where w1: "RefreshIfExpired w = Some w1" "accounted (a # H) (a # N) {} w1"
    "\<forall>b < Allocated w. wc_Heap w1 b = wc_Heap w b \<and> held (a # H) w1 b = held (a # H) w b"
    "\<forall>b \<ge> Allocated w. held (a # H) w1 b \<le> 1" "sends w1 = sends w" "PollRequests w1 = PollRequests w"
    using RefreshIfExpired_ok [OF assms(1)] by blast
  have heap: "wc_Heap w1 a = Some r" using w1(3) a assms(6) by simp
  obtain w' where w': "enqueue_request a d w1 = Some w'" "accounted H N {} w'" "\<forall>b. held H w' b = held (a # H) w1 b"
    "wc_Heap w' a = Some (r\<lparr>RefCount := RefCount r + 1, SendDelay := d\<rparr>)"
    using accounted_enqueue [OF w1(2), where d = d] w1(3,5,6) a assms(2,4,5,7) heap by auto
  moreover have "held H w' b \<le> 1" if "b \<noteq> a" for b
    using w'(3) w1(3,4) assms(3) [OF that] by (cases "b < Allocated w") auto
  moreover have "AddRequest a d w = Some w'" using w1(1) w'(1) by (simp add: AddRequest_def)
  ultimately show ?thesis using w1(3) a by auto
qed

definition web_ok :: "web_client \<Rightarrow> bool" where
  "web_ok w \<longleftrightarrow> accounted [] [] {} w \<and> (\<forall>a. held [] w a \<le> 1)"

lemma SendRequest_ok:
  assumes "web_ok w"
  shows "\<exists>w'. SendRequest hs b cb tok async w = Some w' \<and> web_ok w'"
proof -
  let ?a = "Allocated w" and ?w = "make_request hs b (if cb then Some Client_handler else None) tok async w"
  have m: "accounted [?a] [?a] {} ?w" "held [?a] ?w ?a = 1"
    using accounted_make [of "[]" "[]" "{}" w "if cb then Some Client_handler else None" async hs b tok] assms by (auto simp: web_ok_def)
  obtain r where r: "wc_Heap ?w ?a = Some r" by (simp add: make_request_def Let_def wc_emit_def)
  have none: "sends w ?a = 0" "held [] w ?a = 0"
    using assms accounted_fresh [of "[]" "[]" "{}" w ?a] by (simp_all add: web_ok_def)
  have s: "sends ?w ?a = 0" "PollRequests ?w = PollRequests w" "b \<noteq> ?a \<Longrightarrow> held [?a] ?w b = held [] w b" for b
    using none by (simp_all add: make_request_def Let_def accounting_defs)
  have "?a \<notin> set (PollRequests ?w)" using none(2) by (simp add: s held_def under_way_def count_list_0_iff)
  then obtain w' where "AddRequest ?a 0 ?w = Some w'" "accounted [] [] {} w'" "held [] w' ?a = 1" "\<forall>b. b \<noteq> ?a \<longrightarrow> held [] w' b \<le> 1"
    using AddRequest_ok [OF m(1) _ _ _ _ r, where d = 0] m(2) s assms by (auto simp: web_ok_def)
  then show ?thesis unfolding SendRequest_def web_ok_def by (metis order_refl)
qed


text \<open>The two ways on from the end of sending.\<close>

definition will_retry :: "http_request \<Rightarrow> bool" where
  "will_retry r \<longleftrightarrow> IsAutoRetryEnabled r \<and> rq_ResponseCode r \<notin> {200, 201, 204} \<and> ResultCodeValidForRetry (rq_ResponseCode r)
     \<and> RetryCount r < DefaultNumRequestRetries"

definition count_retry :: "nat \<Rightarrow> http_request \<Rightarrow> web_client \<Rightarrow> web_client" where
  "count_retry a r w = w\<lparr>wc_Heap := (wc_Heap w)(a \<mapsto> r\<lparr>RetryCount := RetryCount r + 1\<rparr>)\<rparr>"

lemma CheckForAutoRetry_cases:
  assumes "wc_Heap w a = Some r"
  shows "CheckForAutoRetry a DefaultNumRequestRetries w =
    (if will_retry r then map_option (Pair True) (AddRequest a DefaultRetriesDelayInMs (count_retry a r w)) else Some (False, w))"
  by (auto simp: CheckForAutoRetry_def Retry_def will_retry_def count_retry_def upd_req_def assms map_option_case split: option.splits)

lemma accounted_retry:
  assumes "accounted [a] [] {} w" "held [a] w a = 1" "wc_Heap w a = Some r" "RetryCount r < 4"
  shows "accounted (if polled r then [a] else [a, a]) [a] {} (count_retry a r w)"
    and "sends (count_retry a r w) a \<le> unat (RetryCount r + 1)"
    and "held H (count_retry a r w) = held H w"
proof -
  let ?w = "count_retry a r w" and ?H = "if polled r then [a] else [a, a]" and ?q = "r\<lparr>RetryCount := RetryCount r + 1\<rparr>"
  have s: "Allocated ?w = Allocated w" "PollRequests ?w = PollRequests w" "CancelledTokens ?w = CancelledTokens w" "wc_Log ?w = wc_Log w"
    "sends ?w = sends w" "responses ?w = responses w" "early ?w = early w" "held G ?w = held G w" "Requests ?w = Requests w"
    "RequestCount ?w = RequestCount w" for G
    by (simp_all add: count_retry_def accounting_defs fun_eq_iff)
  have c: "unat (RetryCount r) < 4" using assms(4) by (simp add: word_less_nat_alt)
  then have c': "unat (RetryCount r + 1) = unat (RetryCount r) + 1" by (simp add: unat_word_ariths)
  have ok: "request_ok [a] [] w a r" using assms(1,3) by (auto simp: accounted_def address_ok_def dest!: spec [where x = a])
  have "\<not> early w a" using assms(2) by (auto simp: held_def under_way_def early_def count_list_0_iff image_iff)
  then show sent: "sends ?w a \<le> unat (RetryCount r + 1)" using ok c' by (simp add: s request_ok_def)
  show "held H ?w = held H w" by (simp add: s)
  have n: "held ?H w b = held [a] w b + (if b = a \<and> \<not> polled r then 1 else 0)" for b by (auto simp: held_Cons)
  have "address_ok ?H [a] ?w b" for b
  proof (cases "b = a")
    case True
    have "held [a, a] w a = 2" using held_Cons [of a "[a]" w a] assms(2) by simp
    then have "request_ok ?H [a] ?w a ?q"
      using ok sent c c' assms(2) \<open>\<not> early w a\<close> by (auto simp: request_ok_def s n polled_def)
    then show ?thesis using True by (simp add: address_ok_def count_retry_def)
  next
    case False
    have "address_ok [a] [] w b" using assms(1) by (simp add: accounted_def)
    then show ?thesis by (rule address_ok_frame) (use False in \<open>auto simp: s n, auto simp: count_retry_def\<close>)
  qed
  moreover have "issue_ok ?H {} ?w i" if i: "i \<in> set (issued_of (wc_Log ?w))" for i
  proof -
    obtain c cb as tk where ic: "i = (c, cb, as, tk)" by (cases i) auto
    have "issue_ok [a] {} w (c, cb, as, tk)" using i assms(1) by (auto simp: accounted_def s ic)
    then show ?thesis unfolding ic
      by (rule issue_ok_frame) (use assms(2,3) in \<open>auto simp: s n, auto simp: count_retry_def split: if_splits\<close>)
  qed
  moreover have "refs ?w = refs w" by (auto simp: refs_def count_retry_def assms(3) fun_eq_iff)
  ultimately show "accounted ?H [a] {} ?w" using assms(1) by (simp add: accounted_def s)
qed

lemma accounted_poll:
  assumes "accounted [a] [] {} w" "wc_Heap w a = Some r" "polled r"
  shows "accounted [] [] {} (w\<lparr>PollRequests := PollRequests w @ [a]\<rparr>)"
    and "held [] (w\<lparr>PollRequests := PollRequests w @ [a]\<rparr>) = held [a] w"
proof -
  let ?w = "w\<lparr>PollRequests := PollRequests w @ [a]\<rparr>"
  have s: "sends ?w = sends w" "responses ?w = responses w" "early ?w = early w" "held [] ?w = held [a] w" "refs ?w = refs w"
    by (simp_all add: accounting_defs refs_def fun_eq_iff)
  show "held [] ?w = held [a] w" by (simp add: s)
  have "address_ok [] [] ?w b" for b
  proof -
    have "address_ok [a] [] w b" using assms(1) by (simp add: accounted_def)
    then show ?thesis
      using assms(2,3) by (cases "b = a") (auto simp: address_ok_def request_ok_def s split: option.splits)
  qed
  moreover have "issue_ok [] {} ?w i" if "i \<in> set (issued_of (wc_Log ?w))" for i
    using assms(1) that by (auto simp: accounted_def issue_ok_def s)
  ultimately show "accounted [] [] {} ?w" using assms(1) by (simp add: accounted_def s)
qed

lemma request_finished_ok:
  assumes "accounted [a] [] {} w" "held [a] w a = 1" "\<And>b. b \<noteq> a \<Longrightarrow> held [a] w b \<le> 1"
  shows "\<exists>w'. request_finished a l w = Some w' \<and> web_ok w'"
proof -
  obtain r where r: "wc_Heap w a = Some r" "request_ok [a] [] w a r"
    by (rule accounted_request [OF assms(1), where a = a]) (use assms(2) in auto)
  have p: "a \<notin> set (PollRequests w)" "held [] w a = 0" using assms(2) by (auto simp: held_def under_way_def count_list_0_iff)
  note c = CheckForAutoRetry_cases [OF r(1)]
  show ?thesis
  proof (cases "will_retry r")
    case True
    let ?w = "count_retry a r w" and ?q = "r\<lparr>RetryCount := RetryCount r + 1\<rparr>"
    have "RetryCount r < 4" using True by (simp add: will_retry_def DefaultNumRequestRetries_def)
    note retry = accounted_retry [OF assms(1,2) r(1) this]
    have q: "wc_Heap ?w a = Some ?q" "PollRequests ?w = PollRequests w" by (simp_all add: count_retry_def)
    show ?thesis
    proof (cases "polled r")
      case polled: True
      then have acc: "accounted [a] [a] {} ?w" using retry(1) by simp
      obtain w' q' where w': "AddRequest a DefaultRetriesDelayInMs ?w = Some w'" "accounted [] [] {} w'" "held [] w' a = 1"
        "\<forall>b. b \<noteq> a \<longrightarrow> held [] w' b \<le> 1" "wc_Heap w' a = Some (?q\<lparr>RefCount := RefCount ?q + 1, SendDelay := DefaultRetriesDelayInMs\<rparr>)"
        using AddRequest_ok [OF acc _ _ _ _ q(1), where d = DefaultRetriesDelayInMs] assms(2,3) p retry(2)
        by (auto simp: retry(3) q(2))
      then have "request_finished a l w = Some w'"
        using polled True by (auto simp: request_finished_def c polled_def)
      then show ?thesis using w' by (metis web_ok_def order_refl)
    next
      case unpolled: False
      then have acc: "accounted [a, a] [a] {} ?w" using retry(1) by simp
      obtain w' where w': "AddRequest a DefaultRetriesDelayInMs ?w = Some w'" "accounted [a] [] {} w'" "held [a] w' a = 2"
        "\<forall>b. b \<noteq> a \<longrightarrow> held [a] w' b \<le> 1" "wc_Heap w' a = Some (?q\<lparr>RefCount := RefCount ?q + 1, SendDelay := DefaultRetriesDelayInMs\<rparr>)"
        using AddRequest_ok [OF acc _ _ _ _ q(1), where d = DefaultRetriesDelayInMs] assms(2,3) p retry(2)
        by (auto simp: retry(3) q(2) held_Cons)
      then have h: "held [] w' a = 1" "b \<noteq> a \<Longrightarrow> held [] w' b \<le> 1" for b by (auto simp: held_Cons)
      obtain w'' where w'': "DestroyRequest a w' = Some w''" "accounted [] [] {} w''" "\<forall>b. held [] w'' b = held [] w' b"
        using accounted_destroy [OF w'(2) _ _ _ w'(5)] w'(3) h by auto
      have "request_finished a l w = Some w''"
        using unpolled True w'(1,5) w''(1) by (auto simp: request_finished_def c polled_def split: option.splits)
      then show ?thesis using w'' h by (metis web_ok_def order_refl)
    qed
  next
    case False
    have free: "web_ok w''" if "accounted [] [] {} w''" "\<forall>b. held [] w'' b = held [] w' b" "held [] w' = held [] w" for w' w''
    proof -
      have "held [] w b \<le> 1" for b using p(2) assms(3) [of b] by (cases "b = a") (simp_all add: held_Cons)
      then show ?thesis using that by (simp add: web_ok_def)
    qed
    show ?thesis
    proof (cases "rq_Callback r")
      case None
      obtain w'' where "DestroyRequest a w = Some w''" "accounted [] [] {} w''" "\<forall>b. held [] w'' b = held [] w b"
        using accounted_destroy [OF assms(1) _ _ _ r(1)] None assms(2) p by auto
      then show ?thesis using False None r(1) free [of w'' w] by (simp add: request_finished_def c)
    next
      case (Some h)
      show ?thesis
      proof (cases "IsCallbackAsync r")
        case True
        obtain w' where w': "OnHttpResponse h a l w = Some w'" "accounted [a] [] {a} w'" "wc_Heap w' = wc_Heap w" "held [a] w' = held [a] w"
          using accounted_answer [OF assms(1) _ r(1) Some, where l = l] assms(2) by auto
        have h: "held [] w' = held [] w" using w'(4) by (auto simp: held_Cons fun_eq_iff)
        obtain w'' where "DestroyRequest a w' = Some w''" "accounted [] [] {} w''" "\<forall>b. held [] w'' b = held [] w' b"
          using accounted_destroy [OF w'(2)] w'(3,4) r(1) assms(2) p h by auto
        then show ?thesis using False Some r(1) True w'(1) free [of w'' w'] h by (simp add: request_finished_def c)
      next
        case async: False
        then have "polled r" using Some by (simp add: polled_def)
        note poll = accounted_poll [OF assms(1) r(1) this]
        have "web_ok (w\<lparr>PollRequests := PollRequests w @ [a]\<rparr>)"
          using poll assms(2,3) unfolding web_ok_def by (metis order_refl)
        then show ?thesis using False Some r(1) async by (simp add: request_finished_def c)
      qed
    qed
  qed
qed


text \<open>The steps of the workers.\<close>

lemma set_phase_simps [simp]:
  "wc_Heap (set_phase a p w) = wc_Heap w" "Allocated (set_phase a p w) = Allocated w" "Requests (set_phase a p w) = Requests w"
  "RequestCount (set_phase a p w) = RequestCount w" "Jobs (set_phase a p w) = Jobs w" "PollRequests (set_phase a p w) = PollRequests w"
  "CancelledTokens (set_phase a p w) = CancelledTokens w" "wc_Log (set_phase a p w) = wc_Log w"
  "RefreshStarted (set_phase a p w) = RefreshStarted w" "RefreshNeeded (set_phase a p w) = RefreshNeeded w"
  "map fst (Running (set_phase a p w)) = map fst (Running w)"
  "held H (set_phase a p w) = held H w"
  by (simp_all add: set_phase_def held_def under_way_def fun_eq_iff comp_def case_prod_beta)

lemma running_once:
  assumes "web_ok w" "in_phase a p w"
  shows "a \<notin> set (Jobs w)" "a \<notin> set (PollRequests w)" "count_list (map fst (Running w)) a = 1" "held [] w a = 1"
proof -
  have m: "a \<in> set (map fst (Running w))" using assms(2) by (force simp: in_phase_def)
  then have c: "count_list (map fst (Running w)) a > 0" by (metis count_list_0_iff gr0I)
  have "held [] w a \<le> 1" using assms(1) by (simp add: web_ok_def)
  then have h: "count_list (Jobs w) a = 0 \<and> count_list (PollRequests w) a = 0 \<and> count_list (map fst (Running w)) a = 1 \<and> held [] w a = 1"
    using c by (simp add: held_def under_way_def)
  then show "a \<notin> set (Jobs w)" "a \<notin> set (PollRequests w)" "count_list (map fst (Running w)) a = 1" "held [] w a = 1"
    by (simp_all add: count_list_0_iff)
qed

lemma early_set_phase:
  assumes "web_ok w" "in_phase a q w" "q \<noteq> Job_sending"
  shows "early (set_phase a p w) b \<longrightarrow> early w b" and "\<not> early (set_phase a Job_sending w) a" and "early w a"
  using assms running_once(1) [OF assms(1,2)] by (auto simp: early_def set_phase_def in_phase_def split: if_splits)

lemma set_phase_ok:
  assumes "web_ok w" "in_phase a q w" "q \<noteq> Job_sending"
  shows "web_ok (set_phase a p w)"
proof -
  have "accounted [] [] {} w" using assms(1) by (simp add: web_ok_def)
  then have "accounted [] [] {} (set_phase a p w)"
    by (rule accounted_same) (simp_all add: early_set_phase [OF assms])
  then show ?thesis using assms(1) by (simp add: web_ok_def)
qed

lemma web_ok_same:
  assumes "web_ok w" "wc_Heap w' = wc_Heap w" "Allocated w' = Allocated w" "Requests w' = Requests w" "RequestCount w' = RequestCount w"
    "Jobs w' = Jobs w" "Running w' = Running w" "PollRequests w' = PollRequests w" "CancelledTokens w \<subseteq> CancelledTokens w'"
    "wc_Log w' = wc_Log w"
  shows "web_ok w'"
proof -
  have h: "held [] w' = held [] w" by (simp add: held_def under_way_def assms(6-8) fun_eq_iff)
  have "accounted [] [] {} w" using assms(1) by (simp add: web_ok_def)
  then have "accounted [] [] {} w'" by (rule accounted_same) (use assms(9) in \<open>auto simp: assms(2-8,10) h early_def\<close>)
  then show ?thesis using assms(1) by (simp add: web_ok_def h)
qed

lemma TakeJob_ok:
  assumes "web_ok w" shows "web_ok (TakeJob w)"
proof (cases "Jobs w")
  case (Cons a as)
  have h: "held [] (TakeJob w) = held [] w" by (auto simp: TakeJob_def Cons held_def under_way_def fun_eq_iff)
  have "accounted [] [] {} w" using assms by (simp add: web_ok_def)
  then have "accounted [] [] {} (TakeJob w)"
    by (rule accounted_same) (simp_all add: h, auto simp: TakeJob_def Cons early_def split: if_splits)
  then show ?thesis using assms by (simp add: web_ok_def h)
qed (simp add: TakeJob_def assms)

lemma running_request:
  assumes "web_ok w" "in_phase a p w"
  obtains r where "wc_Heap w a = Some r"
proof -
  have "accounted [] [] {} w" "held [] w a > 0" using assms running_once(4) [OF assms] by (simp_all add: web_ok_def)
  then show ?thesis using that accounted_request by blast
qed

lemma upd_req_ok:
  assumes "web_ok w" "in_phase a p w"
    "\<And>r. RefCount (f r) = RefCount r \<and> RetryCount (f r) = RetryCount r \<and> rq_Callback (f r) = rq_Callback r
      \<and> IsCallbackAsync (f r) = IsCallbackAsync r \<and> rq_Token (f r) = rq_Token r"
  shows "\<exists>w'. upd_req a f w = Some w' \<and> web_ok w' \<and> Running w' = Running w"
proof -
  obtain r where r: "wc_Heap w a = Some r" by (rule running_request [OF assms(1,2)])
  then obtain w' where w': "upd_req a f w = Some w'" by (simp add: upd_req_def)
  have "Running w' = Running w" using w' by (auto simp: upd_req_def r)
  moreover have "accounted [] [] {} w" using assms(1) by (simp add: web_ok_def)
  note accounted_update [OF this w' assms(3)]
  ultimately show ?thesis using w' assms(1) by (auto simp: web_ok_def)
qed

lemma prepare_ok:
  assumes "web_ok w" "in_phase a Job_marked w"
  shows "\<exists>w'. prepare a w = Some w' \<and> web_ok w'"
proof -
  have f: "RefCount (RefreshBearerToken t r) = RefCount r \<and> RetryCount (RefreshBearerToken t r) = RetryCount r
    \<and> rq_Callback (RefreshBearerToken t r) = rq_Callback r \<and> IsCallbackAsync (RefreshBearerToken t r) = IsCallbackAsync r
    \<and> rq_Token (RefreshBearerToken t r) = rq_Token r" for t r
    by (simp add: RefreshBearerToken_def AddHeader_def)
  obtain w1 where w1: "upd_req a (RefreshBearerToken (AccessToken w)) w = Some w1" "web_ok w1" "Running w1 = Running w"
    using upd_req_ok [OF assms, where f = "RefreshBearerToken (AccessToken w)"] f by auto
  then have p1: "in_phase a Job_marked w1" using assms(2) by (simp add: in_phase_def)
  obtain w2 where w2: "upd_req a (\<lambda>r. r\<lparr>RequiresBearerToken := True\<rparr>) w1 = Some w2" "web_ok w2" "Running w2 = Running w1"
    using upd_req_ok [OF w1(2) p1, where f = "\<lambda>r. r\<lparr>RequiresBearerToken := True\<rparr>"] by auto
  then have "web_ok (set_phase a Job_delaying w2)" using p1 by (intro set_phase_ok) (auto simp: in_phase_def)
  then show ?thesis using w1(1) w2(1) by (simp add: prepare_def)
qed

lemma leave_ok:
  assumes "web_ok w" "in_phase a p w"
  shows "accounted [a] [] {} (leave a w)" "held [a] (leave a w) = held [] w" "wc_Heap (leave a w) = wc_Heap w"
proof -
  have f: "count_list (map fst (filter (\<lambda>(b, q). b \<noteq> a) xs)) b = (if b = a then 0 else count_list (map fst xs) b)"
    for xs :: "(nat \<times> job_phase) list" and b by (induction xs) auto
  show h: "held [a] (leave a w) = held [] w"
    using running_once(3) [OF assms] by (auto simp: held_def under_way_def leave_def f fun_eq_iff)
  show "wc_Heap (leave a w) = wc_Heap w" by (simp add: leave_def)
  have "accounted [] [] {} w" using assms(1) by (simp add: web_ok_def)
  then show "accounted [a] [] {} (leave a w)" by (rule accounted_same) (simp_all add: h, auto simp: leave_def early_def)
qed

lemma finish_ok:
  assumes "web_ok w" "in_phase a p w"
  shows "\<exists>w'. request_finished a l (leave a w) = Some w' \<and> web_ok w'"
  by (rule request_finished_ok) (use assms leave_ok [OF assms] running_once(4) [OF assms] in \<open>auto simp: web_ok_def\<close>)

lemma leave_update: "upd_req a f w = Some w' \<Longrightarrow> upd_req a f (leave a w) = Some (leave a w')"
  by (auto simp: upd_req_def leave_def split: option.splits)

lemma sending_ended_ok:
  assumes "web_ok w" "in_phase a Job_sending w"
  shows "\<exists>w'. sending_ended a out w = Some w' \<and> web_ok w'"
proof -
  let ?f = "\<lambda>r. r\<lparr>rq_ResponseCode := (case out of Response c _ \<Rightarrow> c | Threw \<Rightarrow> 503)\<rparr>"
  obtain w1 where w1: "upd_req a ?f w = Some w1" "web_ok w1" "Running w1 = Running w"
    using upd_req_ok [OF assms, where f = ?f] by auto
  then have "in_phase a Job_sending w1" using assms(2) by (simp add: in_phase_def)
  then show ?thesis using w1(1) finish_ok [OF w1(2)] by (simp add: sending_ended_def)
qed

lemma deliver_ok:
  assumes "web_ok w" "in_phase a Job_delaying w"
  shows "\<exists>w'. deliver a w = Some w' \<and> web_ok w'"
proof -
  obtain r where r: "wc_Heap w a = Some r" by (rule running_request [OF assms])
  show ?thesis
  proof (cases "Cancelled w r")
    case True
    let ?f = "\<lambda>r. r\<lparr>rq_ResponseCode := 408, IsAutoRetryEnabled := False\<rparr>"
    obtain w1 where w1: "upd_req a ?f w = Some w1" "web_ok w1" "Running w1 = Running w"
      using upd_req_ok [OF assms, where f = ?f] by auto
    then have "in_phase a Job_delaying w1" using assms(2) by (simp add: in_phase_def)
    then show ?thesis using w1(1) finish_ok [OF w1(2)] True r by (simp add: deliver_def)
  next
    case False
    define w1 where "w1 = set_phase a Job_sending w"
    define w' where "w' = wc_emit (Sent a (rq_Headers r)) w1"
    have e: "deliver a w = Some w'" using False by (simp add: deliver_def r w'_def w1_def)
    have ok: "web_ok w1" unfolding w1_def using assms by (rule set_phase_ok) simp
    have ea: "early w a" "\<not> early w1 a" using early_set_phase [OF assms] by (simp_all add: w1_def)
    have s: "wc_Heap w' = wc_Heap w1" "Allocated w' = Allocated w1" "Requests w' = Requests w1" "RequestCount w' = RequestCount w1"
      "PollRequests w' = PollRequests w1" "CancelledTokens w' = CancelledTokens w1" "held [] w' = held [] w1" "early w' = early w1"
      "responses w' = responses w1" "refs w' = refs w1" "issued_of (wc_Log w') = issued_of (wc_Log w1)"
      "sends w' b = sends w1 b + (if b = a then 1 else 0)" for b
      by (simp_all add: w'_def accounting_defs refs_def fun_eq_iff)
    have "request_ok [] [] w a r"
      using assms(1) r by (auto simp: web_ok_def accounted_def address_ok_def dest!: spec [where x = a])
    then have sent: "sends w1 a \<le> unat (RetryCount r)" using ea(1) by (simp add: request_ok_def w1_def sends_def)
    have "address_ok [] [] w' b" for b
    proof -
      have b: "address_ok [] [] w1 b" using ok by (simp add: web_ok_def accounted_def)
      show ?thesis
      proof (cases "b = a")
        case True
        have "wc_Heap w1 a = Some r" by (simp add: w1_def r)
        then have "request_ok [] [] w1 a r" using b by (simp add: True address_ok_def)
        then have "request_ok [] [] w' a r" using sent ea(2) unfolding request_ok_def s by auto
        then show ?thesis using \<open>wc_Heap w1 a = Some r\<close> by (simp add: True address_ok_def s)
      next
        case False
        show ?thesis using b by (rule address_ok_frame) (use False in \<open>auto simp: s\<close>)
      qed
    qed
    moreover have "issue_ok [] {} w' i" if "i \<in> set (issued_of (wc_Log w'))" for i
      using ok that by (auto simp: web_ok_def accounted_def s issue_ok_def)
    ultimately have "web_ok w'" using ok by (simp add: web_ok_def accounted_def s)
    then show ?thesis using e by simp
  qed
qed

lemma ProcessResponses_ok: "web_ok w \<Longrightarrow> \<exists>w'. ProcessResponses n w = Some w' \<and> web_ok w'"
proof (induction n arbitrary: w)
  case (Suc n)
  show ?case
  proof (cases "PollRequests w")
    case (Cons a as)
    define w1 where "w1 = w\<lparr>PollRequests := as\<rparr>"
    have h: "held [a] w1 = held [] w" by (auto simp: held_def under_way_def w1_def Cons fun_eq_iff)
    have "accounted [] [] {} w" using Suc.prems by (simp add: web_ok_def)
    then have acc: "accounted [a] [] {} w1"
      by (rule accounted_same) (simp_all add: h, auto simp: w1_def Cons early_def)
    have one: "held [] w a = 1" using Suc.prems by (auto simp: web_ok_def held_def under_way_def Cons dest!: spec [where x = a])
    obtain r where r: "wc_Heap w a = Some r" "request_ok [] [] w a r"
      by (rule accounted_request [OF \<open>accounted [] [] {} w\<close>, where a = a]) (use one in auto)
    then have "polled r" by (simp add: request_ok_def Cons)
    then obtain h where cb: "rq_Callback r = Some h" "\<not> IsCallbackAsync r" by (auto simp: polled_def)
    have r1: "wc_Heap w1 a = Some r" by (simp add: w1_def r)
    have free: "web_ok w''" if "accounted [] [] {} w''" "\<forall>b. held [] w'' b = held [] w' b" "held [a] w' = held [a] w1" for w' w''
    proof -
      have "held [] w' b \<le> 1" for b using that(3) h Suc.prems held_Cons [of a "[]" w' b] by (simp add: web_ok_def) (metis add_leD1 One_nat_def)
      then show ?thesis using that by (simp add: web_ok_def)
    qed
    show ?thesis
    proof (cases "Cancelled w1 r")
      case True
      have "held [] w1 a = 0" using one h held_Cons [of a "[]" w1 a] by simp
      then obtain w2 where w2: "DestroyRequest a w1 = Some w2" "accounted [] [] {} w2" "\<forall>b. held [] w2 b = held [] w1 b"
        using accounted_destroy [OF acc _ _ _ r1] True cb one h by auto
      then show ?thesis using True cb(1) r(1) Suc.IH [OF free [OF w2(2,3) refl]] by (simp add: Cons w1_def)
    next
      case False
      obtain w2 where w2: "OnHttpResponse h a None w1 = Some w2" "accounted [a] [] {a} w2" "wc_Heap w2 = wc_Heap w1" "held [a] w2 = held [a] w1"
        using accounted_answer [OF acc _ r1 cb(1), where l = None] one h by auto
      have "held [] w2 a = 0" using one h w2(4) held_Cons [of a "[]" w2 a] by simp
      then obtain w3 where w3: "DestroyRequest a w2 = Some w3" "accounted [] [] {} w3" "\<forall>b. held [] w3 b = held [] w2 b"
        using accounted_destroy [OF w2(2)] w2(3,4) r1 one h by auto
      then show ?thesis using False cb(1) r(1) w2(1) Suc.IH [OF free [OF w3(2,3) w2(4)]] by (simp add: Cons w1_def)
    qed
  qed (simp add: Suc.prems)
qed simp

lemma CancelRequests_ok:
  assumes "web_ok w" shows "\<exists>w'. CancelRequests w = Some w' \<and> web_ok w'"
proof -
  have "wc_Heap w a \<noteq> None" if "a \<in> Requests w" for a
    using that assms by (auto simp: web_ok_def accounted_def address_ok_def split: option.splits dest!: spec [where x = a])
  moreover have "web_ok (w\<lparr>CancelledTokens := CancelledTokens w \<union> (\<lambda>a. rq_Token (the (wc_Heap w a))) ` Requests w\<rparr>)"
    by (rule web_ok_same [OF assms]) auto
  ultimately show ?thesis by (auto simp: CancelRequests_def)
qed

lemma web_step_ok:
  assumes "web_ok w" shows "\<exists>w'. web_step op w = Some w' \<and> web_ok w'"
proof (cases op)
  case (Op_pass a)
  then show ?thesis using assms set_phase_ok [OF assms, of a Job_waiting] by (auto simp: wait_passed_def)
next
  case (Op_check a)
  then show ?thesis using assms set_phase_ok [OF assms, of a Job_passed] by (auto simp: check_refresh_def)
next
  case (Op_mark a)
  have "web_ok (w\<lparr>RefreshStarted := True\<rparr>)" by (rule web_ok_same [OF assms]) auto
  then show ?thesis using Op_mark assms set_phase_ok [of "w\<lparr>RefreshStarted := True\<rparr>" a Job_marking]
    by (auto simp: mark_started_def in_phase_def)
next
  case (Op_cancel t)
  have "web_ok (w\<lparr>CancelledTokens := insert (Client_token t) (CancelledTokens w)\<rparr>)" by (rule web_ok_same [OF assms]) auto
  then show ?thesis by (simp add: Op_cancel)
next
  case (Op_session l d t)
  have "web_ok (w\<lparr>LoggedIn := l, RefreshDue := d, AccessToken := t\<rparr>)" by (rule web_ok_same [OF assms]) auto
  then show ?thesis by (simp add: Op_session)
next
  case (Op_bypass v)
  have "web_ok (w\<lparr>WAFBypassValue := v\<rparr>)" by (rule web_ok_same [OF assms]) auto
  then show ?thesis by (simp add: Op_bypass)
qed (use assms SendRequest_ok TakeJob_ok prepare_ok deliver_ok sending_ended_ok ProcessResponses_ok CancelRequests_ok
      in \<open>auto simp: in_phase_def\<close>)

lemma web_run_ok: "web_ok w \<Longrightarrow> \<exists>w'. web_run ops w = Some w' \<and> web_ok w'"
proof (induction ops arbitrary: w)
  case (Cons op ops)
  then show ?case using web_step_ok [OF Cons.prems, of op] by fastforce
qed simp


section \<open>Every request is answered at most once\<close>

lemma web_ok_new: "web_ok (new_web_client auto payload)"
  by (simp add: web_ok_def accounted_new) (simp add: new_web_client_def held_def under_way_def)

lemma web_ok_request:
  assumes "web_ok w" "(a, cb, async, tok) \<in> set (issued_of (wc_Log w))"
  shows "sends w a \<le> 5" "responses w a \<le> (if cb = None then 0 else 1)" "a \<in> set (under_way w) \<Longrightarrow> responses w a = 0"
    "a \<notin> set (under_way w) \<Longrightarrow> cb \<noteq> None \<Longrightarrow> responses w a = 1 \<or> \<not> async \<and> tok \<in> CancelledTokens w"
    "a \<notin> set (under_way w) \<Longrightarrow> async \<or> cb = None \<Longrightarrow> wc_Heap w a = None"
proof -
  have a: "address_ok [] [] w a" and i: "issue_ok [] {} w (a, cb, async, tok)" using assms by (auto simp: web_ok_def accounted_def)
  have u: "held [] w a = 0 \<longleftrightarrow> a \<notin> set (under_way w)" by (simp add: held_def count_list_0_iff)
  show "sends w a \<le> 5" using a by (auto simp: address_ok_def request_ok_def split: option.splits if_splits)
  show "responses w a \<le> (if cb = None then 0 else 1)" "a \<in> set (under_way w) \<Longrightarrow> responses w a = 0"
    "a \<notin> set (under_way w) \<Longrightarrow> cb \<noteq> None \<Longrightarrow> responses w a = 1 \<or> \<not> async \<and> tok \<in> CancelledTokens w"
    using i u by (auto simp: issue_ok_def split: if_splits)
  show "wc_Heap w a = None" if out: "a \<notin> set (under_way w)" "async \<or> cb = None"
  proof (rule ccontr)
    assume "wc_Heap w a \<noteq> None"
    then obtain r where r: "wc_Heap w a = Some r" by auto
    then have "\<not> polled r" using i out(2) by (auto simp: issue_ok_def polled_def)
    then show False using a r u out(1) by (auto simp: address_ok_def request_ok_def)
  qed
qed

text \<open>
  C8. Whatever the order in which the client and the workers act, no freed request is touched, and a request
  is sent at most five times and answered at most once, not while it is under way. Once it is no longer
  under way it has been answered, if it has a handler, unless it was to be polled and was cancelled; and a
  request that is not polled is then freed.
\<close>

theorem web_requests_are_answered_once:
  "\<exists>w. web_run ops (new_web_client auto payload) = Some w
    \<and> (\<forall>(a, cb, async, tok) \<in> set (issued_of (wc_Log w)).
         sends w a \<le> 5 \<and> responses w a \<le> (if cb = None then 0 else 1)
         \<and> (a \<in> set (under_way w) \<longrightarrow> responses w a = 0)
         \<and> (a \<notin> set (under_way w) \<longrightarrow>
              (cb = None \<or> responses w a = 1 \<or> \<not> async \<and> tok \<in> CancelledTokens w)
              \<and> (async \<or> cb = None \<longrightarrow> wc_Heap w a = None)))"
proof -
  obtain w where w: "web_run ops (new_web_client auto payload) = Some w" "web_ok w"
    using web_run_ok [OF web_ok_new] by blast
  have all: "case i of (a, cb, async, tok) \<Rightarrow>
         sends w a \<le> 5 \<and> responses w a \<le> (if cb = None then 0 else 1)
         \<and> (a \<in> set (under_way w) \<longrightarrow> responses w a = 0)
         \<and> (a \<notin> set (under_way w) \<longrightarrow>
              (cb = None \<or> responses w a = 1 \<or> \<not> async \<and> tok \<in> CancelledTokens w)
              \<and> (async \<or> cb = None \<longrightarrow> wc_Heap w a = None))" if "i \<in> set (issued_of (wc_Log w))" for i
  proof -
    obtain a cb async tok where i: "i = (a, cb, async, tok)" by (cases i)
    show ?thesis unfolding i prod.case using web_ok_request [OF w(2) that [unfolded i]] by blast
  qed
  show ?thesis by (intro exI [of _ w] conjI ballI all w(1))
qed

text \<open>A request that finds the service unavailable once.\<close>

lemma web_requests_are_answered_once_witness:
  "\<exists>w. web_run [Op_send [] False True None True, Op_take, Op_pass 0, Op_check 0, Op_prepare 0, Op_deliver 0, Op_ended 0 (Response 503 None),
      Op_take, Op_pass 0, Op_check 0, Op_prepare 0, Op_deliver 0, Op_ended 0 (Response 200 None)] (new_web_client True ([], False)) = Some w
    \<and> issued_of (wc_Log w) = [(0, Some Client_handler, True, Own_token 0)] \<and> sends w 0 = 2 \<and> under_way w = []
    \<and> responses w 0 = 1 \<and> wc_Heap w 0 = None"
proof -
  define ops where "ops = [Op_send [] False True None True, Op_take, Op_pass 0, Op_check 0, Op_prepare 0, Op_deliver 0, Op_ended 0 (Response 503 None),
      Op_take, Op_pass 0, Op_check 0, Op_prepare 0, Op_deliver 0, Op_ended 0 (Response 200 None)]"
  have "map_option (\<lambda>w. (issued_of (wc_Log w), sends w 0, under_way w)) (web_run ops (new_web_client True ([], False)))
    = Some ([(0, Some Client_handler, True, Own_token 0)], 2, [])"
    unfolding ops_def by code_simp
  moreover obtain w where "web_run ops (new_web_client True ([], False)) = Some w"
    "\<forall>(a, cb, async, tok) \<in> set (issued_of (wc_Log w)).
         sends w a \<le> 5 \<and> responses w a \<le> (if cb = None then 0 else 1)
         \<and> (a \<in> set (under_way w) \<longrightarrow> responses w a = 0)
         \<and> (a \<notin> set (under_way w) \<longrightarrow>
              (cb = None \<or> responses w a = 1 \<or> \<not> async \<and> tok \<in> CancelledTokens w)
              \<and> (async \<or> cb = None \<longrightarrow> wc_Heap w a = None))"
    using web_requests_are_answered_once [of ops True "([], False)"] by blast
  ultimately show ?thesis unfolding ops_def by auto
qed

text \<open>A request that is retried and then polled is never freed, and still counts.\<close>

lemma retried_polled_request_leaks:
  "map_option (\<lambda>w. (under_way w, responses w 0, RequestCount w, wc_Heap w 0 \<noteq> None))
     (web_run [Op_send [] False True None False, Op_take, Op_pass 0, Op_check 0, Op_prepare 0, Op_deliver 0, Op_ended 0 (Response 503 None),
        Op_take, Op_pass 0, Op_check 0, Op_prepare 0, Op_deliver 0, Op_ended 0 (Response 200 None), Op_poll 64] (new_web_client True ([], False)))
   = Some ([], 1, 1, True)"
  by code_simp

text \<open>A request that waits for its retry is not among those the destructor cancels.\<close>

lemma retried_request_is_not_cancelled_at_exit:
  "map_option (\<lambda>w. (under_way w, Requests w, CancelledTokens w))
     (web_run [Op_send [] False True None True, Op_take, Op_pass 0, Op_check 0, Op_prepare 0, Op_deliver 0, Op_ended 0 (Response 503 None),
        Op_cancel_all] (new_web_client True ([], False)))
   = Some ([0], {}, {})"
  by code_simp

text \<open>A request that was not to carry the token of the user carries it when it is retried.\<close>

lemma retry_adds_the_access_token:
  "map_option (\<lambda>w. filter (\<lambda>e. case e of Sent _ _ \<Rightarrow> True | _ \<Rightarrow> False) (wc_Log w))
     (web_run [Op_session True False ''secret'', Op_send [] False True None True, Op_take, Op_pass 0, Op_check 0, Op_prepare 0, Op_deliver 0,
        Op_ended 0 (Response 503 None), Op_take, Op_pass 0, Op_check 0, Op_prepare 0, Op_deliver 0] (new_web_client True ([], False)))
   = Some [Sent 0 [], Sent 0 [(''Authorization'', ''Bearer secret'')]]"
  by code_simp

end
