(* ===== verification/Web_Workers.thy ===== *)
theory Web_Workers
  imports Web_Client
begin

text \<open>
  The workers of the web client: when no refresh of the access token is under way they answer every
  request, in whatever order they are scheduled; and how a refresh stops them for ever.
\<close>

section \<open>What an operation leaves of the workers\<close>

text \<open>
  Up to requests added to the queue, the same work: the refresh is not ended, nothing is sent, and a
  request with the handler of the refresh is an old one or a queued one.
\<close>

definition leaves_workers :: "web_client \<Rightarrow> web_client \<Rightarrow> bool" where
  "leaves_workers w w' \<longleftrightarrow> RefreshStarted w' = RefreshStarted w \<and> Running w' = Running w \<and> sends w' = sends w
     \<and> set (Jobs w) \<subseteq> set (Jobs w') \<and> Allocated w \<le> Allocated w'
     \<and> (\<forall>b r. wc_Heap w' b = Some r \<and> rq_Callback r = Some Refresh_handler \<longrightarrow>
          b \<in> set (Jobs w') \<or> (\<exists>q. wc_Heap w b = Some q \<and> rq_Callback q = Some Refresh_handler))"

lemma leaves_workers_refl: "leaves_workers w w"
  by (auto simp: leaves_workers_def)

lemma leaves_workers_trans:
  assumes "leaves_workers w w1" "leaves_workers w1 w2" shows "leaves_workers w w2"
  using assms unfolding leaves_workers_def by (elim conjE, intro conjI) (simp, simp, simp, blast, linarith, blast)

lemma make_leaves:
  "cb \<noteq> Some Refresh_handler \<Longrightarrow> leaves_workers w (make_request hs b cb tok async w)"
  by (auto simp: leaves_workers_def make_request_def Let_def wc_emit_def sends_def new_request_def AddHeader_def fun_eq_iff
      split: option.splits if_splits)

lemma enqueue_leaves: "enqueue_request a d w = Some w' \<Longrightarrow> leaves_workers w w'"
  by (auto simp: leaves_workers_def enqueue_request_def upd_req_def sends_def split: option.splits if_splits)

lemma RefreshIfExpired_leaves:
  assumes "RefreshIfExpired w = Some w'" shows "leaves_workers w w'"
proof (cases "AutoRefreshEnabled w \<and> \<not> RefreshNeeded w \<and> RefreshDue w \<and> LoggedIn w")
  case True
  let ?w = "make_request (fst (RefreshPayload w)) (snd (RefreshPayload w)) (Some Refresh_handler) None True (w\<lparr>RefreshNeeded := True\<rparr>)"
  have e: "enqueue_request (Allocated w) 0 ?w = Some w'"
    using assms True by (simp add: RefreshIfExpired_def RefreshToken_def)
  then have "Allocated w \<in> set (Jobs w')" "RefreshStarted w' = RefreshStarted w" "Running w' = Running w"
    "sends w' = sends w" "set (Jobs w) \<subseteq> set (Jobs w')" "Allocated w \<le> Allocated w'" "\<And>b. b \<noteq> Allocated w \<Longrightarrow> wc_Heap w' b = wc_Heap w b"
    by (auto simp: enqueue_request_def upd_req_def make_request_def Let_def wc_emit_def sends_def fun_eq_iff split: option.splits)
  then show ?thesis unfolding leaves_workers_def by metis
next
  case False
  then show ?thesis using assms
    by (auto simp: RefreshIfExpired_def RefreshToken_def leaves_workers_def sends_def split: if_splits)
qed

lemma AddRequest_leaves:
  assumes "AddRequest a d w = Some w'" shows "leaves_workers w w'"
proof -
  obtain w1 where w1: "RefreshIfExpired w = Some w1" "enqueue_request a d w1 = Some w'"
    using assms by (auto simp: AddRequest_def bind_eq_Some_conv)
  show ?thesis by (rule leaves_workers_trans [OF RefreshIfExpired_leaves [OF w1(1)] enqueue_leaves [OF w1(2)]])
qed

lemma update_leaves:
  "upd_req a f w = Some w' \<Longrightarrow> (\<And>r. rq_Callback (f r) = rq_Callback r) \<Longrightarrow> leaves_workers w w'"
  by (auto simp: leaves_workers_def upd_req_def sends_def split: option.splits if_splits)

lemma answer_leaves: "OnHttpResponse Client_handler a l w = Some w' \<Longrightarrow> leaves_workers w w'"
  by (auto simp: leaves_workers_def OnHttpResponse_def wc_emit_def sends_def fun_eq_iff bind_eq_Some_conv)

lemma destroy_leaves: "DestroyRequest a w = Some w' \<Longrightarrow> leaves_workers w w'"
  by (auto simp: leaves_workers_def DestroyRequest_def sends_def bind_eq_Some_conv split: if_splits)

lemma retry_leaves:
  assumes "CheckForAutoRetry a n w = Some (b, w')" shows "leaves_workers w w'"
proof -
  obtain r where r: "wc_Heap w a = Some r" using assms by (auto simp: CheckForAutoRetry_def bind_eq_Some_conv)
  show ?thesis
  proof (cases "w' = w")
    case False
    then obtain w1 where w1: "upd_req a (\<lambda>r. r\<lparr>RetryCount := RetryCount r + 1\<rparr>) w = Some w1" "AddRequest a DefaultRetriesDelayInMs w1 = Some w'"
      using assms by (auto simp: CheckForAutoRetry_def Retry_def bind_eq_Some_conv split: if_splits)
    show ?thesis by (rule leaves_workers_trans [OF update_leaves [OF w1(1)] AddRequest_leaves [OF w1(2)]]) simp
  qed (simp add: leaves_workers_refl)
qed

lemma retry_keeps_handler:
  assumes "CheckForAutoRetry a n w = Some (b, w')" "wc_Heap w a = Some r" "a < Allocated w"
  obtains q where "wc_Heap w' a = Some q" "rq_Callback q = rq_Callback r" "IsCallbackAsync q = IsCallbackAsync r"
proof -
  have ref: "\<exists>w2. RefreshIfExpired w1 = Some w2 \<and> wc_Heap w2 a = wc_Heap w1 a" if "Allocated w1 = Allocated w" for w1
    using that assms(3)
    by (auto simp: RefreshIfExpired_def RefreshToken_def enqueue_request_def upd_req_def make_request_def Let_def wc_emit_def)
  show ?thesis
  proof (cases "w' = w")
    case False
    then obtain w1 where w1: "upd_req a (\<lambda>r. r\<lparr>RetryCount := RetryCount r + 1\<rparr>) w = Some w1" "AddRequest a DefaultRetriesDelayInMs w1 = Some w'"
      using assms(1) by (auto simp: CheckForAutoRetry_def Retry_def bind_eq_Some_conv split: if_splits)
    have "Allocated w1 = Allocated w" "wc_Heap w1 a = Some (r\<lparr>RetryCount := RetryCount r + 1\<rparr>)"
      using w1(1) assms(2) by (auto simp: upd_req_def)
    then show ?thesis using that w1(2) ref [of w1] by (auto simp: AddRequest_def enqueue_request_def upd_req_def split: option.splits)
  qed (use assms(2) that in simp)
qed

lemma finished_leaves:
  assumes "request_finished a l w = Some w'" "wc_Heap w a = Some r" "a < Allocated w" "rq_Callback r \<noteq> Some Refresh_handler"
  shows "leaves_workers w w'"
proof -
  obtain b w1 where w1: "CheckForAutoRetry a DefaultNumRequestRetries w = Some (b, w1)"
    using assms(1) by (auto simp: request_finished_def bind_eq_Some_conv)
  obtain q where q: "wc_Heap w1 a = Some q" "rq_Callback q = rq_Callback r" "IsCallbackAsync q = IsCallbackAsync r"
    by (rule retry_keeps_handler [OF w1 assms(2,3)])
  have "leaves_workers w1 w'"
  proof (cases "rq_Callback q")
    case None
    then show ?thesis using assms(1) w1 q(1) by (auto simp: request_finished_def intro: destroy_leaves)
  next
    case (Some h)
    then have h: "h = Client_handler" using assms(4) q(2) by (cases h) auto
    have "leaves_workers w1 w'" if c: "IsCallbackAsync q" "\<not> b"
    proof -
      obtain w2 where "OnHttpResponse Client_handler a l w1 = Some w2" "DestroyRequest a w2 = Some w'"
        using assms(1) w1 q(1) Some h c by (auto simp: request_finished_def bind_eq_Some_conv)
      then show ?thesis by (blast intro: leaves_workers_trans answer_leaves destroy_leaves)
    qed
    moreover have "leaves_workers w1 w'" if "IsCallbackAsync q" b
      using assms(1) w1 q(1) Some h that by (auto simp: request_finished_def intro: destroy_leaves)
    moreover have "leaves_workers w1 w'" if "\<not> IsCallbackAsync q"
      using assms(1) w1 q(1) Some h that by (auto simp: request_finished_def leaves_workers_def sends_def split: if_splits)
    ultimately show ?thesis by blast
  qed
  then show ?thesis using retry_leaves [OF w1] leaves_workers_trans by blast
qed

section \<open>A refresh that stops the workers\<close>

text \<open>
  The refresh counts as started, but its request has still to pass the wait for it.
\<close>

definition refresh_stuck :: "web_client \<Rightarrow> bool" where
  "refresh_stuck w \<longleftrightarrow> RefreshStarted w
     \<and> (\<forall>a \<in> set [0..<Allocated w]. case wc_Heap w a of None \<Rightarrow> True
          | Some r \<Rightarrow> rq_Callback r = Some Refresh_handler \<longrightarrow> a \<in> set (Jobs w) \<or> in_phase a Job_waiting w)"

definition past_wait :: "web_client \<Rightarrow> nat set" where
  "past_wait w = {a. \<exists>p. (a, p) \<in> set (Running w) \<and> p \<noteq> Job_waiting}"

lemma refresh_stuck_iff:
  assumes "web_ok w"
  shows "refresh_stuck w \<longleftrightarrow> RefreshStarted w
    \<and> (\<forall>a r. wc_Heap w a = Some r \<longrightarrow> rq_Callback r = Some Refresh_handler \<longrightarrow> a \<in> set (Jobs w) \<or> in_phase a Job_waiting w)"
proof -
  have "a < Allocated w" if "wc_Heap w a = Some r" for a r
    using assms that by (auto simp: web_ok_def accounted_def address_ok_def request_ok_def dest!: spec [where x = a])
  then show ?thesis by (auto simp: refresh_stuck_def split: option.splits)
qed

lemma stuck_leaves:
  assumes "web_ok w" "web_ok w'" "refresh_stuck w" "leaves_workers w w'"
  shows "refresh_stuck w'" "past_wait w' = past_wait w" "sends w' = sends w"
proof -
  show "refresh_stuck w'" using assms(3,4) unfolding refresh_stuck_iff [OF assms(1)] refresh_stuck_iff [OF assms(2)]
    by (auto simp: leaves_workers_def in_phase_def) blast
qed (use assms(4) in \<open>simp_all add: leaves_workers_def past_wait_def\<close>)


lemma counted_once:
  "(b, p) \<in> set xs \<Longrightarrow> (b, q) \<in> set xs \<Longrightarrow> count_list (map fst xs) b = 1 \<Longrightarrow> p = q"
proof (induction xs)
  case (Cons x xs)
  show ?case
  proof (cases "fst x = b")
    case True
    then have "b \<notin> fst ` set xs" using Cons.prems(3) by (simp add: count_list_0_iff)
    then show ?thesis using Cons.prems(1,2) by force
  next
    case False
    then show ?thesis using Cons by auto
  qed
qed simp

lemma one_phase: "web_ok w \<Longrightarrow> in_phase a p w \<Longrightarrow> in_phase a q w \<Longrightarrow> p = q"
  using counted_once running_once(3) unfolding in_phase_def by metis

lemma sends_set_phase [simp]: "sends (set_phase a p w) = sends w"
  by (simp add: sends_def fun_eq_iff)

lemma stuck_emit [simp]: "refresh_stuck (wc_emit e w) = refresh_stuck w" "past_wait (wc_emit e w) = past_wait w"
  by (simp_all add: refresh_stuck_def past_wait_def in_phase_def wc_emit_def cong: option.case_cong)

lemma past_not_refresh:
  assumes "web_ok w" "refresh_stuck w" "in_phase a p w" "p \<noteq> Job_waiting" "wc_Heap w a = Some r"
  shows "rq_Callback r \<noteq> Some Refresh_handler"
proof
  assume "rq_Callback r = Some Refresh_handler"
  then have "a \<in> set (Jobs w) \<or> in_phase a Job_waiting w" using assms(2,5) by (simp add: refresh_stuck_iff [OF assms(1)])
  then show False using running_once(1) [OF assms(1,3)] one_phase [OF assms(1,3)] assms(4) by blast
qed

lemma stuck_set_phase:
  assumes "web_ok w" "refresh_stuck w" "in_phase a q w" "q \<noteq> Job_waiting" "q \<noteq> Job_sending" "p \<noteq> Job_waiting"
  shows "refresh_stuck (set_phase a p w)" "past_wait (set_phase a p w) = past_wait w"
proof -
  have ph: "b \<noteq> a \<Longrightarrow> in_phase b x (set_phase a p w) \<longleftrightarrow> in_phase b x w" for b x by (force simp: in_phase_def set_phase_def)
  have "b \<in> set (Jobs w) \<or> in_phase b Job_waiting (set_phase a p w)" if b: "wc_Heap w b = Some r" "rq_Callback r = Some Refresh_handler" for b r
  proof -
    have "b \<noteq> a" using b past_not_refresh [OF assms(1-4)] by auto
    moreover have "b \<in> set (Jobs w) \<or> in_phase b Job_waiting w" using assms(2) b by (simp add: refresh_stuck_iff [OF assms(1)])
    ultimately show ?thesis by (simp add: ph)
  qed
  then show "refresh_stuck (set_phase a p w)"
    using assms(2) by (simp add: refresh_stuck_iff [OF assms(1)] refresh_stuck_iff [OF set_phase_ok [OF assms(1,3,5)]])
  show "past_wait (set_phase a p w) = past_wait w"
    using assms(3,4,6) by (force simp: past_wait_def set_phase_def in_phase_def split: if_splits)
qed

lemma ProcessResponses_Cons:
  assumes "ProcessResponses (Suc n) w = Some w'" "PollRequests w = a # as"
  obtains r w2 w3 where "wc_Heap w a = Some r"
    "(case rq_Callback r of
        Some h \<Rightarrow> if \<not> Cancelled (w\<lparr>PollRequests := as\<rparr>) r then OnHttpResponse h a None (w\<lparr>PollRequests := as\<rparr>)
                  else Some (w\<lparr>PollRequests := as\<rparr>)
      | None \<Rightarrow> Some (w\<lparr>PollRequests := as\<rparr>)) = Some w2"
    "DestroyRequest a w2 = Some w3" "ProcessResponses n w3 = Some w'"
  using assms by (auto simp: Let_def bind_eq_Some_conv)

lemma ProcessResponses_leaves:
  assumes "ProcessResponses n w = Some w'" "\<forall>a \<in> set (PollRequests w). \<forall>r. wc_Heap w a = Some r \<longrightarrow> rq_Callback r \<noteq> Some Refresh_handler"
  shows "leaves_workers w w'"
  using assms
proof (induction n arbitrary: w)
  case (Suc n)
  show ?case
  proof (cases "PollRequests w")
    case (Cons a as)
    define w1 where "w1 = w\<lparr>PollRequests := as\<rparr>"
    obtain r w2 w3 where r0: "wc_Heap w a = Some r"
      and w2: "(case rq_Callback r of Some h \<Rightarrow> if \<not> Cancelled w1 r then OnHttpResponse h a None w1 else Some w1 | None \<Rightarrow> Some w1) = Some w2"
        "DestroyRequest a w2 = Some w3" "ProcessResponses n w3 = Some w'"
      by (rule ProcessResponses_Cons [OF Suc.prems(1) Cons, folded w1_def])
    have r: "wc_Heap w1 a = Some r" by (simp add: w1_def r0)
    have l1: "leaves_workers w w1" by (auto simp: leaves_workers_def w1_def sends_def)
    have n: "rq_Callback r \<noteq> Some Refresh_handler" using Suc.prems(2) r by (simp add: Cons w1_def)
    have c: "rq_Callback r = None \<or> rq_Callback r = Some Client_handler" using n by (metis handler.exhaust option.exhaust)
    have l2: "leaves_workers w1 w2"
      using w2(1) c by (auto simp: leaves_workers_refl intro: answer_leaves split: if_splits)
    have p2: "PollRequests w2 = as \<and> wc_Heap w2 = wc_Heap w"
      using w2(1) c by (auto simp: OnHttpResponse_def w1_def wc_emit_def bind_eq_Some_conv split: if_splits)
    then have "PollRequests w3 = as \<and> (\<forall>b r. wc_Heap w3 b = Some r \<longrightarrow> (\<exists>q. wc_Heap w b = Some q \<and> rq_Callback q = rq_Callback r))"
      using w2(2) by (auto simp: DestroyRequest_def bind_eq_Some_conv split: if_splits)
    then have "leaves_workers w3 w'" using Suc.prems(2) by (intro Suc.IH [OF w2(3)]) (fastforce simp: Cons)
    then show ?thesis using l1 l2 destroy_leaves [OF w2(2)] leaves_workers_trans by blast
  qed (use Suc.prems(1) in \<open>simp add: leaves_workers_refl\<close>)
qed (simp add: leaves_workers_refl)

lemma poll_leaves:
  assumes "web_ok w" "ProcessResponses n w = Some w'" shows "leaves_workers w w'"
proof (rule ProcessResponses_leaves [OF assms(2)], intro ballI allI impI)
  fix a r assume "a \<in> set (PollRequests w)" "wc_Heap w a = Some r"
  then have "polled r" "rq_Callback r = Some Refresh_handler \<longrightarrow> IsCallbackAsync r"
    using assms(1) by (auto simp: web_ok_def accounted_def address_ok_def request_ok_def dest!: spec [where x = a])
  then show "rq_Callback r \<noteq> Some Refresh_handler" by (auto simp: polled_def)
qed

lemma stuck_leave:
  assumes "web_ok w" "refresh_stuck w" "in_phase a p w" "p \<noteq> Job_waiting"
    "request_finished a l (leave a w) = Some w'" "web_ok w'"
  shows "refresh_stuck w'" "past_wait w' \<subseteq> past_wait w" "sends w' = sends w"
proof -
  obtain r where r: "wc_Heap w a = Some r" by (rule running_request [OF assms(1,3)])
  have "a < Allocated w"
    using assms(1) r by (auto simp: web_ok_def accounted_def address_ok_def request_ok_def dest!: spec [where x = a])
  then have l: "leaves_workers (leave a w) w'"
    using finished_leaves [OF assms(5)] r past_not_refresh [OF assms(1-4) r] by (simp add: leave_def)
  then show "past_wait w' \<subseteq> past_wait w" "sends w' = sends w"
    by (auto simp: leaves_workers_def leave_def past_wait_def sends_def)
  have "b \<in> set (Jobs w') \<or> in_phase b Job_waiting w'" if b: "wc_Heap w' b = Some q" "rq_Callback q = Some Refresh_handler" for b q
  proof (rule ccontr)
    assume out: "\<not> ?thesis"
    then obtain q' where q': "wc_Heap w b = Some q'" "rq_Callback q' = Some Refresh_handler"
      using l b by (auto simp: leaves_workers_def leave_def)
    then have "b \<in> set (Jobs w) \<or> in_phase b Job_waiting w" using assms(2) by (simp add: refresh_stuck_iff [OF assms(1)])
    moreover have "b \<noteq> a" using q' past_not_refresh [OF assms(1-4)] by auto
    ultimately show False using out l by (auto simp: leaves_workers_def leave_def in_phase_def)
  qed
  moreover have "RefreshStarted w'" using assms(2) l by (simp add: leaves_workers_def leave_def refresh_stuck_def)
  ultimately show "refresh_stuck w'" by (simp add: refresh_stuck_iff [OF assms(6)])
qed

definition stays_stuck :: "web_client \<Rightarrow> web_client \<Rightarrow> bool" where
  "stays_stuck w w' \<longleftrightarrow> refresh_stuck w' \<and> past_wait w' \<subseteq> past_wait w \<and> (\<forall>a. a \<notin> past_wait w \<longrightarrow> sends w' a = sends w a)"

lemma stays_stuck_leaves:
  "web_ok w \<Longrightarrow> web_ok w' \<Longrightarrow> refresh_stuck w \<Longrightarrow> leaves_workers w w' \<Longrightarrow> stays_stuck w w'"
  using stuck_leaves [of w w'] by (simp add: stays_stuck_def)

definition keeps_account :: "(http_request \<Rightarrow> http_request) \<Rightarrow> bool" where
  "keeps_account f \<longleftrightarrow> (\<forall>r. RefCount (f r) = RefCount r \<and> RetryCount (f r) = RetryCount r \<and> rq_Callback (f r) = rq_Callback r
      \<and> IsCallbackAsync (f r) = IsCallbackAsync r \<and> rq_Token (f r) = rq_Token r)"

lemma updates_keep_account:
  "keeps_account (RefreshBearerToken t)" "keeps_account (\<lambda>r. r\<lparr>RequiresBearerToken := b\<rparr>)"
  "keeps_account (\<lambda>r. r\<lparr>rq_ResponseCode := c, IsAutoRetryEnabled := b\<rparr>)" "keeps_account (\<lambda>r. r\<lparr>rq_ResponseCode := c\<rparr>)"
  by (simp_all add: keeps_account_def RefreshBearerToken_def AddHeader_def)

lemma update_phase:
  assumes "web_ok w" "refresh_stuck w" "in_phase a p w" "upd_req a f w = Some w1" "keeps_account f"
  shows "web_ok w1" "refresh_stuck w1" "in_phase a p w1" "past_wait w1 = past_wait w" "sends w1 = sends w"
proof -
  show ok: "web_ok w1" and p: "in_phase a p w1"
    using upd_req_ok [OF assms(1,3), where f = f] assms(3-5) by (auto simp: in_phase_def keeps_account_def)
  have l: "leaves_workers w w1" by (rule update_leaves [OF assms(4)]) (use assms(5) in \<open>simp add: keeps_account_def\<close>)
  show "refresh_stuck w1" "past_wait w1 = past_wait w" "sends w1 = sends w" by (rule stuck_leaves [OF assms(1) ok assms(2) l])+
qed

lemma stuck_step:
  assumes "web_ok w" "refresh_stuck w" "web_step op w = Some w'" "web_ok w'"
  shows "stays_stuck w w'"
proof (cases op)
  case (Op_send hs b cb tok async)
  then have a: "AddRequest (Allocated w) 0 (make_request hs b (if cb then Some Client_handler else None) tok async w) = Some w'"
    using assms(3) by (simp add: SendRequest_def)
  have "leaves_workers w w'" by (rule leaves_workers_trans [OF make_leaves AddRequest_leaves [OF a]]) simp
  then show ?thesis using assms by (intro stays_stuck_leaves)
next
  case Op_take
  have "sends w' = sends w" "past_wait w' = past_wait w"
    using assms(3) by (auto simp: Op_take TakeJob_def sends_def past_wait_def split: list.splits if_splits)
  moreover have "refresh_stuck w'"
    using assms(2,3) unfolding refresh_stuck_iff [OF assms(1)] refresh_stuck_iff [OF assms(4)]
    by (auto simp: Op_take TakeJob_def in_phase_def split: list.splits if_splits) metis
  ultimately show ?thesis by (simp add: stays_stuck_def)
next
  case (Op_pass a)
  then have "w' = w" using assms(2,3) by (auto simp: wait_passed_def refresh_stuck_def split: if_splits)
  then show ?thesis using assms(2) by (simp add: stays_stuck_def)
next
  case (Op_check a)
  then show ?thesis using assms(2,3) stuck_set_phase [OF assms(1,2), of a Job_passed]
    by (auto simp: check_refresh_def stays_stuck_def sends_def split: if_splits)
next
  case (Op_mark a)
  show ?thesis
  proof (cases "in_phase a Job_marking w")
    case True
    have "w\<lparr>RefreshStarted := True\<rparr> = w" using assms(2) by (simp add: refresh_stuck_def)
    then have "w' = set_phase a Job_marked w" using assms(3) True by (simp add: Op_mark mark_started_def)
    then show ?thesis using stuck_set_phase [OF assms(1,2) True] by (simp add: stays_stuck_def sends_def)
  qed (use assms(2,3) in \<open>simp add: Op_mark stays_stuck_def\<close>)
next
  case (Op_prepare a)
  show ?thesis
  proof (cases "in_phase a Job_marked w")
    case True
    obtain w1 w2 where w1: "upd_req a (RefreshBearerToken (AccessToken w)) w = Some w1"
      "upd_req a (\<lambda>r. r\<lparr>RequiresBearerToken := True\<rparr>) w1 = Some w2" "w' = set_phase a Job_delaying w2"
      using assms(3) True by (auto simp: Op_prepare prepare_def bind_eq_Some_conv)
    note u1 = update_phase [OF assms(1,2) True w1(1) updates_keep_account(1)]
    note u2 = update_phase [OF u1(1-3) w1(2) updates_keep_account(2)]
    show ?thesis using stuck_set_phase [OF u2(1-3), of Job_delaying] u1(4,5) u2(4,5)
      by (simp add: stays_stuck_def w1(3))
  qed (use assms(2,3) in \<open>simp add: Op_prepare stays_stuck_def\<close>)
next
  case (Op_deliver a)
  show ?thesis
  proof (cases "in_phase a Job_delaying w")
    case True
    obtain r where r: "wc_Heap w a = Some r" by (rule running_request [OF assms(1) True])
    show ?thesis
    proof (cases "Cancelled w r")
      case cancelled: True
      obtain w1 where w1: "upd_req a (\<lambda>r. r\<lparr>rq_ResponseCode := 408, IsAutoRetryEnabled := False\<rparr>) w = Some w1"
        "request_finished a None (leave a w1) = Some w'"
        using assms(3) True cancelled r by (auto simp: Op_deliver deliver_def bind_eq_Some_conv)
      note u = update_phase [OF assms(1,2) True w1(1) updates_keep_account(3)]
      show ?thesis using stuck_leave [OF u(1-3) _ w1(2) assms(4)] u(4,5) by (simp add: stays_stuck_def)
    next
      case False
      then have w': "w' = wc_emit (Sent a (rq_Headers r)) (set_phase a Job_sending w)"
        using assms(3) True r by (simp add: Op_deliver deliver_def)
      note ph = stuck_set_phase [OF assms(1,2) True, of Job_sending]
      have "refresh_stuck w'" "past_wait w' = past_wait w" using ph by (simp_all add: w')
      moreover have "a \<in> past_wait w" using True by (auto simp: past_wait_def in_phase_def)
      ultimately show ?thesis by (auto simp: stays_stuck_def w' sends_def wc_emit_def)
    qed
  qed (use assms(2,3) in \<open>simp add: Op_deliver stays_stuck_def\<close>)
next
  case (Op_ended a out)
  show ?thesis
  proof (cases "in_phase a Job_sending w")
    case True
    obtain w1 where w1: "upd_req a (\<lambda>r. r\<lparr>rq_ResponseCode := (case out of Response c _ \<Rightarrow> c | Threw \<Rightarrow> 503)\<rparr>) w = Some w1"
      "request_finished a (case out of Response _ l \<Rightarrow> l | Threw \<Rightarrow> None) (leave a w1) = Some w'"
      using assms(3) True by (auto simp: Op_ended sending_ended_def bind_eq_Some_conv)
    note u = update_phase [OF assms(1,2) True w1(1) updates_keep_account(4)]
    show ?thesis using stuck_leave [OF u(1-3) _ w1(2) assms(4)] u(4,5) by (simp add: stays_stuck_def)
  qed (use assms(2,3) in \<open>simp add: Op_ended stays_stuck_def\<close>)
next
  case (Op_poll n)
  then have "leaves_workers w w'" using assms(1,3) poll_leaves by simp
  then show ?thesis using assms by (intro stays_stuck_leaves)
next
  case Op_cancel_all
  then have "leaves_workers w w'" using assms(3) by (auto simp: CancelRequests_def leaves_workers_def sends_def split: if_splits)
  then show ?thesis using assms by (intro stays_stuck_leaves)
qed (use assms in \<open>auto intro!: stays_stuck_leaves simp: leaves_workers_def sends_def fun_eq_iff\<close>)

text \<open>
  Once stuck, for ever stuck: whatever the client and the workers do, only requests that had passed the
  wait are still sent.
\<close>

theorem stuck_refresh_stops_all_requests:
  assumes "web_run ops (new_web_client auto payload) = Some w" "refresh_stuck w" "web_run ops' w = Some w'"
  shows "stays_stuck w w'"
proof -
  have "web_ok w" using web_run_ok [OF web_ok_new] assms(1) by (metis option.inject)
  then show ?thesis using assms(2,3)
  proof (induction ops' arbitrary: w)
    case (Cons op ops')
    obtain w1 where w1: "web_step op w = Some w1" "web_ok w1" using web_step_ok [OF Cons.prems(1), of op] by blast
    have s: "stays_stuck w w1" by (rule stuck_step [OF Cons.prems(1,2) w1])
    have "stays_stuck w1 w'" using s w1 Cons.prems(3) by (intro Cons.IH) (simp_all add: stays_stuck_def)
    then show ?case using s by (auto simp: stays_stuck_def)
  qed (simp add: stays_stuck_def)
qed


text \<open>
  Four ways there. A refresh that fails is not tried again, and the next request marks it as started; a
  request to refresh that is retried waits for itself; so does one that finds another request queued
  before it, which marks the refresh as started; and a refresh that ends between the check and the mark
  of a worker.
\<close>

definition deliver_ops :: "nat \<Rightarrow> bool \<Rightarrow> web_op list" where
  "deliver_ops a mark = [Op_take, Op_pass a, Op_check a] @ (if mark then [Op_mark a] else []) @ [Op_prepare a, Op_deliver a]"

lemma failed_refresh_stops_all_requests:
  "map_option refresh_stuck
     (web_run ([Op_session True True ''t'', Op_send [] True True None True] @ deliver_ops 1 True @ [Op_ended 1 (Response 401 None)]
        @ deliver_ops 0 True) (new_web_client True ([], False))) = Some True"
  by code_simp

lemma retried_refresh_stops_all_requests:
  "map_option refresh_stuck
     (web_run ([Op_session True True ''t'', Op_send [] True True None True] @ deliver_ops 1 True @ [Op_ended 1 (Response 503 None)])
        (new_web_client True ([], False))) = Some True"
  by code_simp

lemma queued_request_stops_the_refresh:
  "map_option refresh_stuck
     (web_run ([Op_send [] True True None True, Op_session True True ''t'', Op_send [] True True None True] @ deliver_ops 0 True)
        (new_web_client True ([], False))) = Some True"
  by code_simp

lemma refresh_ending_before_the_mark_stops_all_requests:
  "map_option refresh_stuck
     (web_run ([Op_session True True ''t'', Op_send [] True True None True, Op_take, Op_take, Op_pass 1, Op_pass 0, Op_check 1, Op_check 0,
        Op_mark 1, Op_prepare 1, Op_deliver 1, Op_ended 1 (Response 200 (Some ''u'')), Op_mark 0]) (new_web_client True ([], False))) = Some True"
  by code_simp

section \<open>Workers without a refresh\<close>

definition calm :: "web_client \<Rightarrow> bool" where
  "calm w \<longleftrightarrow> \<not> RefreshNeeded w \<and> \<not> RefreshStarted w \<and> \<not> (AutoRefreshEnabled w \<and> RefreshDue w)
     \<and> (\<forall>a r. wc_Heap w a = Some r \<longrightarrow> rq_Callback r \<noteq> Some Refresh_handler)
     \<and> (\<forall>a. \<not> in_phase a Job_marking w)"

text \<open>A step of a worker that does something, and runs of such steps.\<close>

fun enabled :: "web_op \<Rightarrow> web_client \<Rightarrow> bool" where
  "enabled Op_take w \<longleftrightarrow> Jobs w \<noteq> [] \<and> length (Running w) < CSP_MAX_CONCURRENT_REQUESTS"
| "enabled (Op_pass a) w \<longleftrightarrow> in_phase a Job_waiting w \<and> \<not> RefreshStarted w"
| "enabled (Op_check a) w \<longleftrightarrow> in_phase a Job_passed w"
| "enabled (Op_mark a) w \<longleftrightarrow> in_phase a Job_marking w"
| "enabled (Op_prepare a) w \<longleftrightarrow> in_phase a Job_marked w"
| "enabled (Op_deliver a) w \<longleftrightarrow> in_phase a Job_delaying w"
| "enabled (Op_ended a out) w \<longleftrightarrow> in_phase a Job_sending w"
| "enabled _ w \<longleftrightarrow> False"

inductive worker_run :: "web_client \<Rightarrow> nat \<Rightarrow> web_client \<Rightarrow> bool" where
  worker_stop: "worker_run w 0 w"
| worker_next: "enabled op w \<Longrightarrow> web_step op w = Some w1 \<Longrightarrow> worker_run w1 n w' \<Longrightarrow> worker_run w (Suc n) w'"

text \<open>The work left: the phases still ahead of each request, and its retries.\<close>

fun phase_work :: "job_phase \<Rightarrow> nat" where
  "phase_work Job_waiting = 6" | "phase_work Job_passed = 5" | "phase_work Job_marking = 4" | "phase_work Job_marked = 3"
| "phase_work Job_delaying = 2" | "phase_work Job_sending = 1"

definition retry_work :: "web_client \<Rightarrow> nat \<Rightarrow> nat" where
  "retry_work w a = (case wc_Heap w a of None \<Rightarrow> 0 | Some r \<Rightarrow> 7 * (4 - unat (RetryCount r)))"

definition work_left :: "web_client \<Rightarrow> nat" where
  "work_left w = (\<Sum>a \<leftarrow> Jobs w. 7 + retry_work w a) + (\<Sum>(a, p) \<leftarrow> Running w. phase_work p + retry_work w a)"

lemma work_left_bound: "work_left w \<le> 35 * (length (Jobs w) + length (Running w))"
proof -
  have r: "retry_work w a \<le> 28" for a by (auto simp: retry_work_def split: option.splits)
  have "(\<Sum>a \<leftarrow> xs. 7 + retry_work w a) \<le> 35 * length xs" for xs
    by (induction xs) (use r in \<open>auto simp: add.assoc intro!: add_mono order_trans [OF add_left_mono [OF r]]\<close>)
  moreover have "(\<Sum>(a, p) \<leftarrow> ys. phase_work p + retry_work w a) \<le> 35 * length ys" for ys :: "(nat \<times> job_phase) list"
  proof (induction ys)
    case (Cons y ys)
    obtain a p where y: "y = (a, p)" by (cases y)
    have "phase_work p \<le> 6" by (cases p) simp_all
    then show ?case using Cons r [of a] by (simp add: y)
  qed simp
  ultimately show ?thesis by (simp add: work_left_def add_mono distrib_left)
qed

text \<open>Changing the phase of the one job of a request, and taking it out.\<close>

lemma work_set_phase:
  assumes "count_list (map fst ps) a = 1" "(a, q) \<in> set ps"
  shows "(\<Sum>(b, x) \<leftarrow> map (\<lambda>(b, x). (b, if b = a then p else x)) ps. phase_work x + f b) + phase_work q
    = (\<Sum>(b, x) \<leftarrow> ps. phase_work x + f b) + phase_work p"
  using assms
proof (induction ps)
  case (Cons x ps)
  obtain b y where x: "x = (b, y)" by (cases x)
  show ?case
  proof (cases "b = a")
    case True
    then have out: "a \<notin> fst ` set ps" using Cons.prems(1) by (simp add: x count_list_0_iff)
    then have "map (\<lambda>(b, x). (b, if b = a then p else x)) ps = ps" by (force intro: map_idI)
    moreover have "y = q" using Cons.prems(2) True out by (force simp: x)
    ultimately show ?thesis by (simp add: x True)
  next
    case False
    then show ?thesis using Cons by (simp add: x)
  qed
qed simp

lemma work_filter:
  assumes "count_list (map fst ps) a = 1" "(a, q) \<in> set ps"
  shows "(\<Sum>(b, x) \<leftarrow> filter (\<lambda>(b, q). b \<noteq> a) ps. phase_work x + f b) + phase_work q + f a = (\<Sum>(b, x) \<leftarrow> ps. phase_work x + f b)"
  using assms
proof (induction ps)
  case (Cons x ps)
  obtain b y where x: "x = (b, y)" by (cases x)
  show ?case
  proof (cases "b = a")
    case True
    then have out: "a \<notin> fst ` set ps" using Cons.prems(1) by (simp add: x count_list_0_iff)
    then have "filter (\<lambda>(b, q). b \<noteq> a) ps = ps" by (force simp: filter_id_conv)
    moreover have "y = q" using Cons.prems(2) True out by (force simp: x)
    ultimately show ?thesis by (simp add: x True)
  next
    case False
    then show ?thesis using Cons by (simp add: x)
  qed
qed simp


text \<open>What becomes of a request that has been sent, when the token is good.\<close>

definition finish_effect :: "nat \<Rightarrow> http_request \<Rightarrow> web_client \<Rightarrow> web_client \<Rightarrow> bool" where
  "finish_effect a r v w' \<longleftrightarrow> Running w' = Running v \<and> RefreshNeeded w' = RefreshNeeded v \<and> RefreshStarted w' = RefreshStarted v
     \<and> AutoRefreshEnabled w' = AutoRefreshEnabled v \<and> RefreshDue w' = RefreshDue v
     \<and> (\<forall>b. b \<noteq> a \<longrightarrow> wc_Heap w' b = wc_Heap v b) \<and> Jobs w' = Jobs v @ (if will_retry r then [a] else [])
     \<and> (\<forall>q. wc_Heap w' a = Some q \<longrightarrow> rq_Callback q = rq_Callback r \<and> RetryCount q = RetryCount r + (if will_retry r then 1 else 0))"

lemma request_finished_effect:
  assumes "request_finished a l v = Some w'" "wc_Heap v a = Some r" "\<not> RefreshNeeded v" "\<not> (AutoRefreshEnabled v \<and> RefreshDue v)"
    "rq_Callback r \<noteq> Some Refresh_handler"
  shows "finish_effect a r v w'"
proof -
  have cb: "rq_Callback r = None \<or> rq_Callback r = Some Client_handler" using assms(5) by (metis handler.exhaust option.exhaust)
  show ?thesis
  proof (cases "will_retry r")
    case True
    define q where "q = r\<lparr>RetryCount := RetryCount r + 1, RefCount := RefCount r + 1, SendDelay := DefaultRetriesDelayInMs\<rparr>"
    define w1 where "w1 = v\<lparr>wc_Heap := (wc_Heap v)(a \<mapsto> q), Requests := insert a (Requests v), RequestCount := RequestCount v + 1, Jobs := Jobs v @ [a]\<rparr>"
    have "AddRequest a DefaultRetriesDelayInMs (count_retry a r v) = Some w1"
      using assms(3,4) by (auto simp: AddRequest_def RefreshIfExpired_def count_retry_def enqueue_request_def upd_req_def w1_def q_def)
    then have "w' = w1 \<or> DestroyRequest a w1 = Some w'"
      using assms(1) cb True
      by (auto simp: request_finished_def CheckForAutoRetry_cases [OF assms(2)] w1_def q_def split: option.splits if_splits)
    then show ?thesis using True
      by (auto simp: finish_effect_def w1_def q_def DestroyRequest_def split: if_splits)
  next
    case False
    then show ?thesis using assms(1,2) cb
      by (auto simp: request_finished_def CheckForAutoRetry_cases [OF assms(2)] finish_effect_def DestroyRequest_def OnHttpResponse_def
          wc_emit_def split: if_splits)
  qed
qed

lemma will_retry_count: "will_retry r \<Longrightarrow> unat (RetryCount r + 1) = unat (RetryCount r) + 1 \<and> unat (RetryCount r) < 4"
  by (simp add: will_retry_def DefaultNumRequestRetries_def word_less_nat_alt unat_word_ariths)

lemma work_cong:
  assumes "\<And>b. b \<in> set (Jobs w) \<union> fst ` set (Running w) \<Longrightarrow> retry_work w' b = retry_work w b" "Jobs w' = Jobs w" "Running w' = Running w"
  shows "work_left w' = work_left w"
proof -
  have "map (\<lambda>a. 7 + retry_work w' a) (Jobs w) = map (\<lambda>a. 7 + retry_work w a) (Jobs w)"
    "map (\<lambda>(a, p). phase_work p + retry_work w' a) (Running w) = map (\<lambda>(a, p). phase_work p + retry_work w a) (Running w)"
    using assms(1) by force+
  then show ?thesis unfolding work_left_def assms(2,3) by metis
qed

lemma calm_finish:
  assumes "web_ok w" "calm w" "in_phase a p w" "request_finished a l (leave a w) = Some w'"
  shows "calm w' \<and> work_left w' < work_left w"
proof -
  obtain r where r: "wc_Heap w a = Some r" by (rule running_request [OF assms(1,3)])
  have e: "finish_effect a r (leave a w) w'"
    using assms(2,4) r by (intro request_finished_effect) (auto simp: leave_def calm_def)
  have run: "Running w' = filter (\<lambda>(b, q). b \<noteq> a) (Running w)" and jobs: "Jobs w' = Jobs w @ (if will_retry r then [a] else [])"
    and heap: "\<And>b. b \<noteq> a \<Longrightarrow> wc_Heap w' b = wc_Heap w b"
    using e by (simp_all add: finish_effect_def leave_def)
  have "rq_Callback q \<noteq> Some Refresh_handler" if "wc_Heap w' b = Some q" for b q
    using that e assms(2) r heap [of b] by (cases "b = a") (auto simp: finish_effect_def calm_def)
  then have "calm w'" using assms(2) e by (auto simp: calm_def finish_effect_def leave_def in_phase_def)
  moreover have "work_left w' < work_left w"
  proof -
    have once: "count_list (map fst (Running w)) a = 1" "(a, p) \<in> set (Running w)"
      using running_once(3) [OF assms(1,3)] assms(3) by (simp_all add: in_phase_def)
    have out: "a \<notin> set (Jobs w)" by (rule running_once(1) [OF assms(1,3)])
    have rw: "b \<noteq> a \<Longrightarrow> retry_work w' b = retry_work w b" for b by (simp add: retry_work_def heap)
    have again: "7 + retry_work w' a \<le> retry_work w a" if "will_retry r"
      using e that will_retry_count [OF that] by (auto simp: retry_work_def r finish_effect_def split: option.splits)
    have "map (\<lambda>b. 7 + retry_work w' b) (Jobs w) = map (\<lambda>b. 7 + retry_work w b) (Jobs w)"
    proof (rule map_cong [OF refl])
      fix b assume "b \<in> set (Jobs w)"
      then have "b \<noteq> a" using out by auto
      then show "7 + retry_work w' b = 7 + retry_work w b" by (simp add: rw)
    qed
    then have "(\<Sum>b \<leftarrow> Jobs w. 7 + retry_work w' b) = (\<Sum>b \<leftarrow> Jobs w. 7 + retry_work w b)" by (rule arg_cong)
    then have j: "(\<Sum>b \<leftarrow> Jobs w'. 7 + retry_work w' b) = (\<Sum>b \<leftarrow> Jobs w. 7 + retry_work w b) + (if will_retry r then 7 + retry_work w' a else 0)"
      by (simp add: jobs)
    have "map (\<lambda>(b, x). phase_work x + retry_work w' b) (Running w') = map (\<lambda>(b, x). phase_work x + retry_work w b) (Running w')"
      using rw by (auto simp: run)
    then have "(\<Sum>(b, x) \<leftarrow> Running w'. phase_work x + retry_work w' b) = (\<Sum>(b, x) \<leftarrow> Running w'. phase_work x + retry_work w b)"
      by (rule arg_cong)
    then have "(\<Sum>(b, x) \<leftarrow> Running w'. phase_work x + retry_work w' b) + phase_work p + retry_work w a
      = (\<Sum>(b, x) \<leftarrow> Running w. phase_work x + retry_work w b)"
      using work_filter [OF once, of "retry_work w"] by (simp add: run)
    moreover have "phase_work p > 0" by (cases p) simp_all
    ultimately show ?thesis using j again by (auto simp: work_left_def)
  qed
  ultimately show ?thesis ..
qed

lemma calm_phase:
  assumes "web_ok w" "calm w" "in_phase a q w" "p \<noteq> Job_marking" "phase_work p < phase_work q"
  shows "calm (set_phase a p w) \<and> work_left (set_phase a p w) < work_left w"
proof -
  have "calm (set_phase a p w)"
    using assms(2,4) by (auto simp: calm_def) (auto simp: set_phase_def in_phase_def split: if_splits)
  moreover have "count_list (map fst (Running w)) a = 1" "(a, q) \<in> set (Running w)"
    using running_once(3) [OF assms(1,3)] assms(3) by (simp_all add: in_phase_def)
  note work_set_phase [OF this, where p = p and f = "retry_work w"]
  moreover have "retry_work (set_phase a p w) = retry_work w" by (simp add: retry_work_def fun_eq_iff)
  ultimately show ?thesis using assms(5) by (simp add: work_left_def) (simp add: set_phase_def)
qed

lemma calm_update:
  assumes "calm w" "upd_req a f w = Some w1" "keeps_account f"
  shows "calm w1" "work_left w1 = work_left w"
proof -
  show "calm w1" using assms by (auto simp: upd_req_def calm_def keeps_account_def in_phase_def split: option.splits if_splits)
  show "work_left w1 = work_left w"
    using assms(2,3) by (intro work_cong) (auto simp: upd_req_def keeps_account_def retry_work_def split: option.splits if_splits)
qed

lemma update_in_phase:
  assumes "web_ok w" "in_phase a p w" "upd_req a f w = Some w1" "keeps_account f"
  shows "web_ok w1" "in_phase a p w1"
  using upd_req_ok [OF assms(1,2), where f = f] assms(2-4) by (auto simp: in_phase_def keeps_account_def)

lemma calm_step:
  assumes "web_ok w" "calm w" "enabled op w" "web_step op w = Some w'"
  shows "calm w' \<and> work_left w' < work_left w"
proof (cases op)
  case Op_take
  then obtain a as where "Jobs w = a # as" "w' = w\<lparr>Jobs := as, Running := Running w @ [(a, Job_waiting)]\<rparr>"
    using assms(3,4) by (cases "Jobs w") (auto simp: TakeJob_def)
  moreover from this have "retry_work w' = retry_work w" by (simp add: retry_work_def fun_eq_iff)
  ultimately show ?thesis using assms(2) by (auto simp: calm_def in_phase_def work_left_def)
next
  case (Op_pass a)
  then show ?thesis using assms calm_phase [OF assms(1,2), of a Job_waiting Job_passed] by (simp add: wait_passed_def)
next
  case (Op_check a)
  then show ?thesis using assms calm_phase [OF assms(1,2), of a Job_passed Job_marked] by (simp add: check_refresh_def calm_def)
next
  case (Op_mark a)
  then show ?thesis using assms(2,3) by (simp add: calm_def)
next
  case (Op_prepare a)
  then have True: "in_phase a Job_marked w" using assms(3) by simp
  obtain w1 w2 where w1: "upd_req a (RefreshBearerToken (AccessToken w)) w = Some w1"
    "upd_req a (\<lambda>r. r\<lparr>RequiresBearerToken := True\<rparr>) w1 = Some w2" "w' = set_phase a Job_delaying w2"
    using assms(4) True by (auto simp: Op_prepare prepare_def bind_eq_Some_conv)
  note p1 = update_in_phase [OF assms(1) True w1(1) updates_keep_account(1)]
  note p2 = update_in_phase [OF p1 w1(2) updates_keep_account(2)]
  note c1 = calm_update [OF assms(2) w1(1) updates_keep_account(1)]
  note c2 = calm_update [OF c1(1) w1(2) updates_keep_account(2)]
  show ?thesis using calm_phase [OF p2(1) c2(1) p2(2), of Job_delaying] by (simp add: w1(3) c1 c2)
next
  case (Op_deliver a)
  then have True: "in_phase a Job_delaying w" using assms(3) by simp
  obtain r where r: "wc_Heap w a = Some r" by (rule running_request [OF assms(1) True])
  show ?thesis
  proof (cases "Cancelled w r")
    case cancelled: True
    obtain w1 where w1: "upd_req a (\<lambda>r. r\<lparr>rq_ResponseCode := 408, IsAutoRetryEnabled := False\<rparr>) w = Some w1"
      "request_finished a None (leave a w1) = Some w'"
      using assms(4) True cancelled r by (auto simp: Op_deliver deliver_def bind_eq_Some_conv)
    note p = update_in_phase [OF assms(1) True w1(1) updates_keep_account(3)]
    note c = calm_update [OF assms(2) w1(1) updates_keep_account(3)]
    show ?thesis using calm_finish [OF p(1) c(1) p(2) w1(2)] by (simp add: c)
  next
    case False
    then have w': "w' = wc_emit (Sent a (rq_Headers r)) (set_phase a Job_sending w)"
      using assms(4) True r by (simp add: Op_deliver deliver_def)
    have e: "calm (wc_emit e v) = calm v" "work_left (wc_emit e v) = work_left v" for e v
      by (simp add: calm_def wc_emit_def in_phase_def) (rule work_cong, simp_all add: wc_emit_def retry_work_def)
    show ?thesis using calm_phase [OF assms(1,2) True, of Job_sending] by (simp add: w' e)
  qed
next
  case (Op_ended a out)
  then have True: "in_phase a Job_sending w" using assms(3) by simp
  obtain w1 where w1: "upd_req a (\<lambda>r. r\<lparr>rq_ResponseCode := (case out of Response c _ \<Rightarrow> c | Threw \<Rightarrow> 503)\<rparr>) w = Some w1"
    "request_finished a (case out of Response _ l \<Rightarrow> l | Threw \<Rightarrow> None) (leave a w1) = Some w'"
    using assms(4) True by (auto simp: Op_ended sending_ended_def bind_eq_Some_conv)
  note p = update_in_phase [OF assms(1) True w1(1) updates_keep_account(4)]
  note c = calm_update [OF assms(2) w1(1) updates_keep_account(4)]
  show ?thesis using calm_finish [OF p(1) c(1) p(2) w1(2)] by (simp add: c)
qed (use assms(3) in simp_all)

lemma calm_worker_run:
  "worker_run w n w' \<Longrightarrow> web_ok w \<Longrightarrow> calm w \<Longrightarrow> web_ok w' \<and> calm w' \<and> work_left w' + n \<le> work_left w"
proof (induction rule: worker_run.induct)
  case (worker_next op w w1 n w')
  have "web_ok w1" using web_step_ok [OF worker_next.prems(1), of op] worker_next.hyps(2) by auto
  moreover have "calm w1 \<and> work_left w1 < work_left w"
    using calm_step [OF worker_next.prems worker_next.hyps(1,2)] .
  ultimately show ?case using worker_next.IH by auto
qed simp

lemma worker_has_step:
  assumes "calm w" "Jobs w \<noteq> [] \<or> Running w \<noteq> []" shows "\<exists>op. enabled op w"
proof (cases "Running w")
  case Nil
  then have "enabled Op_take w" using assms(2) by (simp add: CSP_MAX_CONCURRENT_REQUESTS_def)
  then show ?thesis ..
next
  case (Cons x xs)
  obtain a p where "x = (a, p)" by (cases x)
  then have p: "in_phase a p w" by (simp add: Cons in_phase_def)
  have "enabled (case p of Job_waiting \<Rightarrow> Op_pass a | Job_passed \<Rightarrow> Op_check a | Job_marking \<Rightarrow> Op_mark a | Job_marked \<Rightarrow> Op_prepare a
      | Job_delaying \<Rightarrow> Op_deliver a | Job_sending \<Rightarrow> Op_ended a Threw) w"
    using p assms(1) by (cases p) (simp_all add: calm_def)
  then show ?thesis ..
qed

text \<open>
  C9. While no refresh of the token is under way, due or needed, the workers answer every request, in
  whatever order they are scheduled and however the service answers: they make at most 35 steps for each
  request under way, and when none of them can make a step the queue is empty, and every request with
  a handler has been answered once, or waits to be polled, or was cancelled before it was polled.
\<close>

theorem workers_answer_every_request:
  assumes "web_run ops (new_web_client auto payload) = Some w" "calm w" "worker_run w n w'"
  shows "n \<le> 35 * (length (Jobs w) + length (Running w))
    \<and> ((\<nexists>op. enabled op w') \<longrightarrow> Jobs w' = [] \<and> Running w' = []
      \<and> (\<forall>(a, cb, async, tok) \<in> set (issued_of (wc_Log w')).
           cb = None \<or> responses w' a = 1 \<or> \<not> async \<and> (a \<in> set (PollRequests w') \<or> tok \<in> CancelledTokens w')))"
proof (intro conjI impI)
  have "web_ok w" using web_run_ok [OF web_ok_new] assms(1) by (metis option.inject)
  then have w': "web_ok w'" "calm w'" "work_left w' + n \<le> work_left w" using calm_worker_run [OF assms(3)] assms(2) by auto
  then show "n \<le> 35 * (length (Jobs w) + length (Running w))" using work_left_bound [of w] by linarith
  assume "\<nexists>op. enabled op w'"
  then show j: "Jobs w' = []" and r: "Running w' = []" using worker_has_step [OF w'(2)] by auto
  have u: "under_way w' = PollRequests w'" by (simp add: under_way_def j r)
  have all: "cb = None \<or> responses w' a = 1 \<or> \<not> async \<and> (a \<in> set (PollRequests w') \<or> tok \<in> CancelledTokens w')"
    if i: "(a, cb, async, tok) \<in> set (issued_of (wc_Log w'))" for a cb async tok
  proof -
    have "\<not> async" if "a \<in> set (PollRequests w')"
    proof -
      have "count_list (PollRequests w') a \<noteq> 0" using that by (simp add: count_list_0_iff)
      then have "held [] w' a > 0" by (simp add: held_def u)
      moreover have acc: "accounted [] [] {} w'" using w'(1) by (simp add: web_ok_def)
      ultimately obtain r where r: "wc_Heap w' a = Some r" "request_ok [] [] w' a r" using accounted_request by blast
      have "issue_ok [] {} w' (a, cb, async, tok)" using acc i unfolding accounted_def by blast
      then show ?thesis using r that by (auto simp: issue_ok_def request_ok_def polled_def)
    qed
    then show ?thesis using web_ok_request(4) [OF w'(1) i] by (auto simp: u)
  qed
  show "\<forall>(a, cb, async, tok) \<in> set (issued_of (wc_Log w')).
    cb = None \<or> responses w' a = 1 \<or> \<not> async \<and> (a \<in> set (PollRequests w') \<or> tok \<in> CancelledTokens w')"
  proof
    fix i assume i: "i \<in> set (issued_of (wc_Log w'))"
    obtain a cb async tok where e: "i = (a, cb, async, tok)" by (cases i)
    show "case i of (a, cb, async, tok) \<Rightarrow>
        cb = None \<or> responses w' a = 1 \<or> \<not> async \<and> (a \<in> set (PollRequests w') \<or> tok \<in> CancelledTokens w')"
      unfolding e prod.case using i unfolding e by (rule all)
  qed
qed


fun effective_run :: "web_op list \<Rightarrow> web_client \<Rightarrow> web_client option" where
  "effective_run [] w = Some w"
| "effective_run (op # ops) w = (if enabled op w then Option.bind (web_step op w) (effective_run ops) else None)"

lemma effective_worker_run: "effective_run ops w = Some w' \<Longrightarrow> worker_run w (length ops) w'"
  by (induction ops arbitrary: w) (auto simp: bind_eq_Some_conv intro: worker_run.intros split: if_splits)

lemma idle_workers: "Jobs w = [] \<Longrightarrow> Running w = [] \<Longrightarrow> \<not> enabled op w"
  by (cases op) (simp_all add: in_phase_def)

text \<open>Two requests that interleave: one finds the service unavailable once, the other is to be polled.\<close>

lemma workers_answer_every_request_witness:
  "\<exists>w w'. web_run [Op_send [] False True None True, Op_send [] False True None False] (new_web_client True ([], False)) = Some w
    \<and> worker_run w 24 w' \<and> 24 \<le> 35 * (length (Jobs w) + length (Running w))
    \<and> Jobs w' = [] \<and> Running w' = [] \<and> responses w' 0 = 1 \<and> PollRequests w' = [1]"
proof -
  define ops where "ops = [Op_send [] False True None True, Op_send [] False True None False]"
  define ops' where "ops' = [Op_take, Op_take, Op_pass 1, Op_pass 0, Op_check 0, Op_check 1, Op_prepare 0, Op_prepare 1, Op_deliver 0, Op_deliver 1,
    Op_ended 0 (Response 503 None), Op_take, Op_ended 1 (Response 404 None), Op_pass 0, Op_check 0, Op_prepare 0, Op_deliver 0, Op_ended 0 Threw]"
  obtain w where w: "web_run ops (new_web_client True ([], False)) = Some w" using web_run_ok [OF web_ok_new] by blast
  have calm: "calm w" using w
    by (auto simp: ops_def SendRequest_def AddRequest_def RefreshIfExpired_def make_request_def enqueue_request_def upd_req_def
        new_web_client_def new_request_def Let_def wc_emit_def in_phase_def calm_def split: if_splits)
  have "Option.bind (web_run ops (new_web_client True ([], False))) (\<lambda>w. map_option (\<lambda>w'. (Jobs w', Running w', PollRequests w', issued_of (wc_Log w')))
      (effective_run (ops' @ [Op_take, Op_pass 0, Op_check 0, Op_prepare 0, Op_deliver 0, Op_ended 0 (Response 200 None)]) w))
    = Some ([], [], [1], [(0, Some Client_handler, True, Own_token 0), (1, Some Client_handler, False, Own_token 1)])"
    unfolding ops_def ops'_def by code_simp
  then obtain w' where w': "effective_run (ops' @ [Op_take, Op_pass 0, Op_check 0, Op_prepare 0, Op_deliver 0, Op_ended 0 (Response 200 None)]) w = Some w'"
    "Jobs w' = []" "Running w' = []" "PollRequests w' = [1]"
    "issued_of (wc_Log w') = [(0, Some Client_handler, True, Own_token 0), (1, Some Client_handler, False, Own_token 1)]"
    by (auto simp: w)
  have run: "worker_run w 24 w'" using effective_worker_run [OF w'(1)] by (simp add: ops'_def eval_nat_numeral)
  note workers_answer_every_request [OF w calm run]
  then have "24 \<le> 35 * (length (Jobs w) + length (Running w))" "responses w' 0 = 1"
    using idle_workers [OF w'(2,3)] by (auto simp: w'(5))
  then show ?thesis using w run w' unfolding ops_def by blast
qed

end
