(* ===== verification/Spec2Isabelle.thy ===== *)
theory Spec2Isabelle
  imports Csp_List Offline_Properties Online_Rate Online_Arrival Leadership Connection Special_Components Schema_Json Space_Entry
    User_Settings Event_System Hotspot_Groups Lod_Chain Materials Web_Workers
begin

text \<open>
  Connected Spaces Platform (CSP): a verification library for the client core of the platform,
  \<open>src/Library\<close>. Paths below are relative to \<open>src/Library\<close>.

  \<^bold>\<open>The program.\<close> CSP is a client library for shared three-dimensional spaces. A space holds
  \<^emph>\<open>entities\<close> that form a hierarchy and carry \<^emph>\<open>components\<close>, which are maps from numeric keys to
  \<^emph>\<open>replicated values\<close>. A \<^emph>\<open>realtime engine\<close> owns the entities. The offline engine changes
  them at once; the online engine records changes in a \<^emph>\<open>state patcher\<close> per entity, packs them into
  \<^emph>\<open>patches\<close> on its tick, sends them through a SignalR hub and applies them locally, and applies the
  patches that other clients send. Beside the entities the hub carries \<^emph>\<open>network events\<close>, which a
  bus dispatches to registered callbacks, and the messages of the \<^emph>\<open>leader election\<close> that decides
  which client runs the scripts of a space. The \<^emph>\<open>connection\<close> brings the hub up and down.

  \<^bold>\<open>Theories and sources\<close>, in the order in which they build on each other:

  \<^item> \<open>Prelude\<close>: results with errors, ordered and unordered maps (the locale \<open>kv_container\<close> states
    what the code relies on in both, interpreted on \<open>omap\<close> and \<open>umap\<close>), lemmas on words and lists.
  \<^item> \<open>Csp_List\<close>, \<open>Csp_Array\<close> (\<open>include/CSP/Common/List.h\<close>, \<open>Array.h\<close>): the resizable array, a refinement
    of sequences, and arrays turned into one and back.
  \<^item> \<open>Csp_String\<close> (\<open>src/Common/String.cpp\<close>) and \<open>Csp_Uri\<close> (\<open>src/Common/Encode.cpp\<close>, the keys of
    \<open>src/Systems/HotspotSequence\<close>): splitting, joining, percent-encoding.
  \<^item> \<open>Floats\<close>: the bits of IEEE numbers, widening and narrowing, the comparison of \<open>Vector.cpp\<close>.
  \<^item> \<open>Signalr_Serializer\<close> (\<open>src/Multiplayer/SignalRSerializer.h\<close>): writing and reading of SignalR
    values with explicit stacks; the locale of writer and reader pairs carries all round trips.
  \<^item> \<open>Mcs_Types\<close> (\<open>src/Multiplayer/MCS/MCSTypes.cpp\<close>): component values, object messages, patches.
  \<^item> \<open>Replicated_Value\<close> (\<open>src/Common/ReplicatedValue.cpp\<close>), \<open>Component_Packer\<close>
    (\<open>src/Multiplayer/MCSComponentPacker.cpp\<close>): tagged values and their conversion to wire values.
  \<^item> \<open>Messagepack\<close>: what the hub protocol turns a SignalR value into on its way to another client,
    and that messages, patches and values survive it.
  \<^item> \<open>Component_Schema\<close>, \<open>Builtin_Schemas\<close>, \<open>Component_Base\<close> (\<open>src/Multiplayer/ComponentSchema*.cpp\<close>,
    \<open>ComponentBase.cpp\<close>, the schemas of \<open>Components/*.cpp\<close>): schemas, their registry, property access.
  \<^item> \<open>Schema_Json\<close> (\<open>ComponentSchema.cpp\<close>, \<open>src/Json/JsonSerializer.h\<close>): the JSON form of schemas.
  \<^item> \<open>Accessors\<close> and \<open>Special_Components\<close> (\<open>src/Multiplayer/Components/*.cpp\<close>): the typed accessors of
    all classes as tables of names, types and keys; custom properties, waypoints, material overrides.
  \<^item> \<open>Entity_World\<close>, \<open>Space_Entity\<close>, \<open>Entity_Components\<close>, \<open>Entity_Hierarchy\<close>, \<open>Entity_Frame\<close>
    (\<open>SpaceEntity.cpp\<close>, \<open>RealtimeEngineUtils.cpp\<close>): entities on an explicit heap, setters, locks,
    selection, components, parents and children.
  \<^item> \<open>Offline_Engine\<close>, \<open>Offline_Invariant\<close>, \<open>Offline_Machine\<close>, \<open>Offline_Properties\<close>
    (\<open>OfflineRealtimeEngine.cpp\<close>): the engine as a state machine over the client's calls.
  \<^item> \<open>State_Patcher\<close>, \<open>Patch_Changes\<close>, \<open>Patch_Components\<close> (\<open>SpaceEntityStatePatcher.cpp\<close>): pending
    changes, their application, and what a replica makes of the patch.
  \<^item> \<open>Online_Engine\<close>, \<open>Online_Outgoing\<close>, \<open>Online_Rate\<close>, \<open>Online_Lifecycle\<close>, \<open>Online_Arrival\<close>
    (\<open>OnlineRealtimeEngine.cpp\<close>): queues, tick, sending and receiving, creation and destruction.
  \<^item> \<open>Network_Values\<close>, \<open>Network_Events\<close>, \<open>Network_Event_Bus\<close>, \<open>Network_Delivery\<close>
    (\<open>NetworkEventSerialisation.cpp\<close>, \<open>NetworkEventManagerImpl.cpp\<close>, \<open>NetworkEventBus.cpp\<close>): events from
    the sender through the hub to the listeners.
  \<^item> \<open>Leadership\<close> (\<open>Election/ScopeLeadershipManager.cpp\<close>, the scripts of \<open>OnlineRealtimeEngine.cpp\<close>,
    \<open>Script/EntityScript.cpp\<close>): leaders of scopes, heartbeats, scripts run locally or on the leader.
  \<^item> \<open>Connection\<close> (\<open>MultiplayerConnection.cpp\<close>, \<open>SignalR/SignalRConnection.cpp\<close>): connecting and
    disconnecting over asynchronous requests.
  \<^item> \<open>Space_Entry\<close> (\<open>src/Systems/Spaces/SpaceSystem.cpp\<close>): entering and leaving a space over requests
    to web services and to the hub.
  \<^item> \<open>Hotspot_Groups\<close> (\<open>src/Systems/Sequence\<close>, \<open>src/Systems/HotspotSequence\<close>): sequences of the
    aggregation service, and groups of hotspots kept as sequences.
  \<^item> \<open>User_Settings\<close> (\<open>src/Systems/Settings/SettingsSystem.cpp\<close>): the lists and flags of a user.
  \<^item> \<open>Lod_Chain\<close> and \<open>Materials\<close> (\<open>src/Systems/Assets\<close>): levels of detail in the styles of assets,
    materials and their textures, and their JSON over the documents of \<open>Schema_Json\<close>.
  \<^item> \<open>Event_System\<close> (\<open>src/Events\<close>, \<open>src/Common/Scheduler.h\<close>): the queue of internal events and its
    dispatch to listeners, and the scheduler's queue of timed tasks.
  \<^item> \<open>Web_Client\<close>, \<open>Web_Workers\<close> (\<open>src/Common/Web/WebClient.cpp\<close>, \<open>HttpRequest.cpp\<close>,
    \<open>HttpPayload.cpp\<close>): requests to web services, their workers, retries, handlers and references, and the
    refresh of the access token.

  \<^bold>\<open>How code corresponds to definitions.\<close> A class is a record, its methods are functions of the record
  or, for entities, of a world with a heap of entities and of components. Addresses of freed
  entities are \<open>None\<close> in the heap, and an operation that reads one is \<open>None\<close>: a result \<open>Some\<close> says that
  the code did not touch freed memory. Exceptions are \<open>Inl\<close> of an error, the result is \<open>Inr\<close>. Callbacks of
  the client are entries of a log, in the order of the calls; that they call back into the
  library is not modelled. \<open>std::map\<close> is an association list in the order of its keys,
  \<open>std::unordered_map\<close> one in some order. Integers keep their width, floats are their bits. Log output
  is left out. Asynchronous answers are operations of the run, in any order: see \<open>conn_op\<close> and the
  operations of the engines. In \<open>Connection\<close> the continuations of \<open>Connect\<close> run where their promise
  is kept, as their inline scheduler has it.

  \<^bold>\<open>What is shown.\<close> Values, messages and patches survive serialisation and the hub; a receiver of a
  patch of property and parent changes ends where the sender does, and of one of components with the
  components that were sent; queued changes are sent and applied, and while the rate limit is
  on not more often than it allows, in every run of the engine; entities find their parents whatever
  the order in which they arrive; the hierarchy stays consistent under the operations of an offline
  engine that starts empty, as long as no entity that is its own parent is destroyed, none of which
  touches freed memory, and after the destruction of an entity online; the registry never
  weakens a built-in schema, properties keep the types of a schema with distinct keys, and the typed
  accessors of all classes but the spline read what was set; events reach exactly their listeners; the
  leader keeps its scope alive without flooding the service, and scripts run on it; every
  callback of the connection is called at most once, and exactly once when no stop gets in the way of
  another; entering a space ends as specified, and each of its callbacks is
  accounted for in every interleaving; schemas and materials survive JSON; hotspot groups are a map from
  names to lists of items, and the lists of settings refine bounded recency lists and sets; processing the
  queue of internal events ends and calls every listener as often as it should; web requests are answered
  once in every interleaving of the workers, and all of them unless a refresh of the token is under way,
  which can stop the workers for ever. Where the code departs
  from what it means to do, a lemma shows how.

  \<^bold>\<open>Bounds and recursion.\<close> Loops are structural recursion on the list they walk. The reader of nested
  component values recurses on a value that becomes smaller, and \<open>component_value_deserialize_total\<close>
  shows that it always returns. The search for a component id takes \<open>2 ^ 17\<close> steps of
  fuel, twice the number of ids; \<open>component_id_is_fresh\<close> shows that it finds an id whenever one is free
  (the code's loop would not end when none is). \<open>ProcessEvents\<close> runs until the queue is empty, which
  listeners may fill again: it is a partial function, and \<open>events_reach_their_listeners\<close> shows that it
  returns when no listener queues events of its own rank or above. The runs of the workers in \<open>Web_Workers\<close>
  are at most 35 steps long for each request: five attempts of seven phases.

  \<^bold>\<open>Parameters.\<close> The hash of a string is an argument of the custom component's definitions. The answers
  of the services and the outcome of socket operations are arguments of the runs. RapidJSON's printer
  and parser are arguments of \<open>ToJson\<close> and \<open>FromJson\<close>; the round trip assumes of them that a document is
  read as it was printed, up to an error in the last places of a double that narrowing removes. The
  services of sequences and of settings are arguments with a state of their own, and their documented
  behaviour is a named hypothesis. The order \<open>std::sort\<close> gives to equal elements is an argument.

  \<^bold>\<open>Not modelled.\<close> What scripts do, and their bindings (the behaviour is that of the QuickJS interpreter);
  the other clients of web services under \<open>src/Systems\<close>, \<open>src/Services\<close> and \<open>src/Web\<close> (chains of requests
  with generated data transfer objects); the JSON of their responses; global transforms (glm) and spline
  interpolation (TinySpline); sockets and the sending of web requests, of
  which the outcome is an argument; waiting and locking between threads; language bindings; logging
  and initialisation.
\<close>

end
